(* ===== verification/Lru.thy ===== *)
theory Lru
  imports Prelude
begin

text \<open>
  The bounded recency store that \<open>RateLimiter\<close> and \<open>ChurnSuppressor\<close> both keep: a
  \<open>container/list\<close> of entries, front newest, and an index from keys to list elements. An
  element is a pointer in Go, so an entry of the model's list carries an identity and the
  index maps a key to an identity. The locale \<open>recency_store\<close> states what the two clients
  rely on; \<open>recency_store_lru\<close> shows that the pair of list and index provides it.
\<close>

record 'e lru =
  lru_order :: "(nat \<times> 'e) list"
  lru_index :: "(string, nat) gomap"
  lru_next :: nat

definition lru_empty :: "'e lru" where
  "lru_empty = \<lparr>lru_order = [], lru_index = [], lru_next = 0\<rparr>"

text \<open>\<open>el, ok := index[key]\<close> followed by \<open>el.Value\<close>.\<close>

definition lru_get :: "'e lru \<Rightarrow> string \<Rightarrow> 'e option" where
  "lru_get s k = (case map_of (lru_index s) k of None \<Rightarrow> None | Some i \<Rightarrow> map_of (lru_order s) i)"

text \<open>\<open>oldest := order.Back()\<close>; when there is one, delete its key and remove the element.\<close>

definition lru_evict :: "('e \<Rightarrow> string) \<Rightarrow> 'e lru \<Rightarrow> 'e lru" where
  "lru_evict key s =
     (if lru_order s = [] then s
      else (case last (lru_order s) of (i, e) \<Rightarrow>
        s\<lparr>lru_order := filter (\<lambda>p. fst p \<noteq> i) (lru_order s),
          lru_index := map_del (key e) (lru_index s)\<rparr>))"

text \<open>Insertion of a new key: evict at the cap, then \<open>PushFront\<close> and record the element.\<close>

definition lru_push :: "('e \<Rightarrow> string) \<Rightarrow> nat \<Rightarrow> 'e \<Rightarrow> 'e lru \<Rightarrow> 'e lru" where
  "lru_push key cap e s =
     (let s1 = (if cap \<le> length (lru_order s) then lru_evict key s else s)
      in s1\<lparr>lru_order := (lru_next s1, e) # lru_order s1,
            lru_index := map_put (key e) (lru_next s1) (lru_index s1),
            lru_next := Suc (lru_next s1)\<rparr>)"

text \<open>Writing through the element of the entry's key and \<open>MoveToFront\<close>.\<close>

definition lru_touch :: "('e \<Rightarrow> string) \<Rightarrow> 'e \<Rightarrow> 'e lru \<Rightarrow> 'e lru" where
  "lru_touch key e s = (case map_of (lru_index s) (key e) of
     None \<Rightarrow> s
   | Some i \<Rightarrow> s\<lparr>lru_order := (i, e) # filter (\<lambda>p. fst p \<noteq> i) (lru_order s)\<rparr>)"

definition lru_remove :: "string \<Rightarrow> 'e lru \<Rightarrow> 'e lru" where
  "lru_remove k s = (case map_of (lru_index s) k of
     None \<Rightarrow> s
   | Some i \<Rightarrow> s\<lparr>lru_order := filter (\<lambda>p. fst p \<noteq> i) (lru_order s),
                lru_index := map_del k (lru_index s)\<rparr>)"

text \<open>The abstraction: keys and entries, newest first, without identities.\<close>

definition lru_recency :: "('e \<Rightarrow> string) \<Rightarrow> 'e lru \<Rightarrow> (string \<times> 'e) list" where
  "lru_recency key s = map (\<lambda>p. (key (snd p), snd p)) (lru_order s)"

text \<open>
  Type invariant: identities and keys are unique, identities are below the allocation
  counter, and the index is exactly the map from the keys in the list to their elements.
\<close>

definition lru_ok :: "('e \<Rightarrow> string) \<Rightarrow> 'e lru \<Rightarrow> bool" where
  "lru_ok key s \<longleftrightarrow>
     distinct (map fst (lru_order s)) \<and>
     distinct (map (\<lambda>p. key (snd p)) (lru_order s)) \<and>
     (\<forall>p\<in>set (lru_order s). fst p < lru_next s) \<and>
     wf_map (lru_index s) \<and>
     (\<forall>k i. map_of (lru_index s) k = Some i \<longleftrightarrow> (\<exists>e. (i, e) \<in> set (lru_order s) \<and> key e = k))"

section \<open>The interface\<close>

definition newer :: "(string \<times> 'e) list \<Rightarrow> string \<Rightarrow> string set" where
  "newer xs k = fst ` set (takeWhile (\<lambda>p. fst p \<noteq> k) xs)"

lemma newer_Cons: "newer (p # xs) k = (if fst p = k then {} else insert (fst p) (newer xs k))"
  by (auto simp: newer_def)

locale recency_store =
  fixes key :: "'e \<Rightarrow> string"
    and get :: "'s \<Rightarrow> string \<Rightarrow> 'e option"
    and push :: "nat \<Rightarrow> 'e \<Rightarrow> 's \<Rightarrow> 's"
    and touch :: "'e \<Rightarrow> 's \<Rightarrow> 's"
    and remove :: "string \<Rightarrow> 's \<Rightarrow> 's"
    and recency :: "'s \<Rightarrow> (string \<times> 'e) list"
    and ok :: "'s \<Rightarrow> bool"
  assumes recency_distinct: "ok s \<Longrightarrow> distinct (map fst (recency s))"
    and recency_keys: "ok s \<Longrightarrow> (k, e) \<in> set (recency s) \<Longrightarrow> key e = k"
    and get_recency: "ok s \<Longrightarrow> get s k = map_of (recency s) k"
    and push_recency: "ok s \<Longrightarrow> get s (key e) = None \<Longrightarrow>
       recency (push cap e s) =
         (key e, e) # (if cap \<le> length (recency s) then butlast (recency s) else recency s)"
    and touch_recency: "ok s \<Longrightarrow> get s (key e) \<noteq> None \<Longrightarrow>
       recency (touch e s) = (key e, e) # filter (\<lambda>p. fst p \<noteq> key e) (recency s)"
    and remove_recency: "ok s \<Longrightarrow> recency (remove k s) = filter (\<lambda>p. fst p \<noteq> k) (recency s)"
    and ok_push: "ok s \<Longrightarrow> get s (key e) = None \<Longrightarrow> ok (push cap e s)"
    and ok_touch: "ok s \<Longrightarrow> ok (touch e s)"
    and ok_remove: "ok s \<Longrightarrow> ok (remove k s)"
begin

lemmas ok_ops = ok_push ok_touch ok_remove

lemma push_bound:
  assumes "ok s" "get s (key e) = None" "0 < cap" "length (recency s) \<le> cap"
  shows "length (recency (push cap e s)) \<le> cap"
  using assms by (auto simp: push_recency)

lemma length_filter_key:
  assumes "ok s" "get s k \<noteq> None"
  shows "length (filter (\<lambda>p. fst p \<noteq> k) (recency s)) < length (recency s)"
proof -
  from assms obtain v where "map_of (recency s) k = Some v" by (auto simp: get_recency)
  then have "(k, v) \<in> set (recency s)" by (rule map_of_SomeD)
  then show ?thesis by (intro length_filter_less[of "(k, v)"]) auto
qed

lemma touch_bound:
  assumes "ok s" "get s (key e) \<noteq> None" "length (recency s) \<le> cap"
  shows "length (recency (touch e s)) \<le> cap"
  using assms length_filter_key[OF assms(1,2)] by (simp add: touch_recency)

lemma remove_bound:
  assumes "ok s" "length (recency s) \<le> cap"
  shows "length (recency (remove k s)) \<le> cap"
  using assms by (simp add: remove_recency) (meson length_filter_le order_trans)

lemma get_push:
  assumes "ok s" "get s (key e) = None"
  shows "get (push cap e s) (key e) = Some e"
  using assms by (simp add: get_recency[OF ok_push] push_recency)

lemma get_touch:
  assumes "ok s" "get s (key e) \<noteq> None"
  shows "get (touch e s) k = (if k = key e then Some e else get s k)"
  using assms by (auto simp: get_recency[OF ok_touch] get_recency touch_recency map_of_filter_wf
      wf_map_def recency_distinct split: option.splits)

lemma get_remove:
  assumes "ok s"
  shows "get (remove k s) k' = (if k' = k then None else get s k')"
  using assms by (auto simp: get_recency[OF ok_remove] get_recency remove_recency map_of_filter_wf
      wf_map_def recency_distinct split: option.splits)

lemma get_key:
  assumes "ok s" "get s k = Some e"
  shows "key e = k"
  using assms recency_keys[OF assms(1)] by (auto simp: get_recency dest: map_of_SomeD)

lemma newer_touch_subset:
  assumes "ok s" "get s (key e) \<noteq> None" "k \<noteq> key e"
  shows "newer (recency (touch e s)) k \<subseteq> insert (key e) (newer (recency s) k)"
proof -
  have "fst ` set (takeWhile (\<lambda>p. fst p \<noteq> k) (filter (\<lambda>p. fst p \<noteq> key e) xs))
      \<subseteq> fst ` set (takeWhile (\<lambda>p. fst p \<noteq> k) xs)" for xs :: "(string \<times> 'e) list"
    using assms(3) by (induction xs) auto
  with assms show ?thesis by (auto simp: newer_def touch_recency)
qed

lemma newer_remove_subset:
  assumes "ok s" "k \<noteq> k'"
  shows "newer (recency (remove k' s)) k \<subseteq> newer (recency s) k"
proof -
  have "fst ` set (takeWhile (\<lambda>p. fst p \<noteq> k) (filter (\<lambda>p. fst p \<noteq> k') xs))
      \<subseteq> fst ` set (takeWhile (\<lambda>p. fst p \<noteq> k) xs)" for xs :: "(string \<times> 'e) list"
    using assms(2) by (induction xs) auto
  with assms show ?thesis by (auto simp: newer_def remove_recency)
qed

text \<open>
  Eviction only reaches a key once the number of distinct keys used after it reaches the
  capacity: pushing another key keeps it when those keys and the new one are fewer.
\<close>

lemma butlast_keeps:
  assumes "distinct (map fst xs)" "map_of xs k = Some e"
    and "card (insert k' (newer xs k)) < length xs" "k' \<notin> fst ` set xs"
  shows "map_of (butlast xs) k = Some e \<and> newer (butlast xs) k \<subseteq> newer xs k"
proof -
  obtain ys zs where xs: "xs = ys @ (k, e) # zs" and ys: "k \<notin> fst ` set ys"
  proof -
    from assms(2) have "(k, e) \<in> set xs" by (rule map_of_SomeD)
    then obtain ys zs where "xs = ys @ (k, e) # zs" by (auto simp: in_set_conv_decomp)
    with assms(1) that show thesis by auto
  qed
  have tw: "takeWhile (\<lambda>p. fst p \<noteq> k) xs = ys"
    using xs ys by (subst xs, subst takeWhile_append2) (auto simp: image_iff)
  have "card (insert k' (fst ` set ys)) = Suc (length ys)"
  proof -
    have "k' \<notin> fst ` set ys" using assms(4) xs by auto
    moreover have "card (set (map fst ys)) = length (map fst ys)"
      using assms(1) xs by (intro distinct_card) simp
    ultimately show ?thesis by simp
  qed
  with assms(3) tw xs have "zs \<noteq> []" by (auto simp: newer_def)
  then have bl: "butlast xs = ys @ (k, e) # butlast zs" using xs by (simp add: butlast_append)
  have "takeWhile (\<lambda>p. fst p \<noteq> k) (butlast xs) = ys"
    using ys by (subst bl, subst takeWhile_append2) (auto simp: image_iff)
  moreover have "map_of (butlast xs) k = Some e"
    using ys by (simp add: bl map_add_Some_iff map_of_eq_None_iff)
  ultimately show ?thesis using tw by (simp add: newer_def)
qed

lemma push_keeps:
  assumes ok: "ok s" and new: "get s (key e') = None" and k: "get s k = Some e"
    and room: "card (insert (key e') (newer (recency s) k)) < cap"
  shows "get (push cap e' s) k = Some e"
    and "newer (recency (push cap e' s)) k \<subseteq> insert (key e') (newer (recency s) k)"
proof -
  let ?xs = "recency s"
  have mk: "map_of ?xs k = Some e" using ok k by (simp add: get_recency)
  have new': "key e' \<notin> fst ` set ?xs" using ok new by (simp add: get_recency map_of_eq_None_iff)
  then have neq: "key e' \<noteq> k" using mk by (metis map_of_eq_None_iff option.distinct(1))
  have kept: "map_of (if cap \<le> length ?xs then butlast ?xs else ?xs) k = Some e \<and>
      newer (if cap \<le> length ?xs then butlast ?xs else ?xs) k \<subseteq> newer ?xs k"
    using butlast_keeps[OF recency_distinct[OF ok] mk _ new'] room mk by simp
  show "get (push cap e' s) k = Some e"
    using kept neq ok new by (simp add: get_recency[OF ok_push] push_recency)
  show "newer (recency (push cap e' s)) k \<subseteq> insert (key e') (newer ?xs k)"
    using kept neq ok new by (auto simp: push_recency newer_Cons)
qed

end

section \<open>The list and the index provide the interface\<close>

lemma lru_ok_empty [simp]: "lru_ok key lru_empty"
  by (simp add: lru_ok_def lru_empty_def)

lemma lru_recency_empty [simp]: "lru_recency key lru_empty = []"
  by (simp add: lru_recency_def lru_empty_def)

lemma map_of_order: "lru_ok key s \<Longrightarrow> (i, e) \<in> set (lru_order s) \<Longrightarrow> map_of (lru_order s) i = Some e"
  by (simp add: lru_ok_def)

lemma lru_index_iff:
  "lru_ok key s \<Longrightarrow>
   map_of (lru_index s) k = Some i \<longleftrightarrow> (\<exists>e. (i, e) \<in> set (lru_order s) \<and> key e = k)"
  by (simp add: lru_ok_def)

lemma lru_index_entry:
  assumes "lru_ok key s" "map_of (lru_index s) k = Some i"
  obtains e where "(i, e) \<in> set (lru_order s)" "key e = k" "map_of (lru_order s) i = Some e"
proof -
  from assms obtain e where "(i, e) \<in> set (lru_order s)" "key e = k"
    unfolding lru_ok_def by blast
  with map_of_order[OF assms(1)] that show thesis by blast
qed

lemma lru_key_unique:
  assumes "lru_ok key s" "(i, e) \<in> set (lru_order s)" "(j, f) \<in> set (lru_order s)" "key e = key f"
  shows "i = j \<and> e = f"
proof -
  from assms(1) have "inj_on (\<lambda>p. key (snd p)) (set (lru_order s))"
    by (simp add: lru_ok_def distinct_map)
  from inj_onD[OF this _ assms(2,3)] assms(4) show ?thesis by simp
qed

lemma lru_id_unique:
  assumes "lru_ok key s" "(i, e) \<in> set (lru_order s)" "(i, f) \<in> set (lru_order s)"
  shows "e = f"
  using assms map_of_order by (metis option.inject)

lemma lru_get_recency:
  assumes "lru_ok key s"
  shows "lru_get s k = map_of (lru_recency key s) k"
proof (cases "map_of (lru_index s) k")
  case None
  have "k \<notin> fst ` set (lru_recency key s)"
  proof
    assume "k \<in> fst ` set (lru_recency key s)"
    then obtain i e where "(i, e) \<in> set (lru_order s)" "key e = k"
      by (auto simp: lru_recency_def)
    with assms None show False by (metis lru_ok_def option.distinct(1))
  qed
  then have "map_of (lru_recency key s) k = None" by (simp add: map_of_eq_None_iff)
  with None show ?thesis by (simp add: lru_get_def)
next
  case (Some i)
  then obtain e where e: "(i, e) \<in> set (lru_order s)" "key e = k" "map_of (lru_order s) i = Some e"
    using assms by (metis lru_index_entry)
  then have "(k, e) \<in> set (lru_recency key s)" by (force simp: lru_recency_def)
  moreover have "distinct (map fst (lru_recency key s))"
    using assms by (simp add: lru_ok_def lru_recency_def comp_def)
  ultimately show ?thesis using Some e(3) by (simp add: lru_get_def)
qed

lemma lru_drop_element:
  assumes "lru_ok key s" "(i, e) \<in> set (lru_order s)"
  shows "filter (\<lambda>p. key (snd p) \<noteq> key e) (lru_order s) = filter (\<lambda>p. fst p \<noteq> i) (lru_order s)"
proof (intro filter_cong refl)
  fix p assume p: "p \<in> set (lru_order s)"
  obtain j f where "p = (j, f)" by (cases p)
  with assms p show "(key (snd p) \<noteq> key e) = (fst p \<noteq> i)"
    by (metis fst_conv lru_id_unique lru_key_unique snd_conv)
qed

lemma lru_recency_filter:
  "filter (\<lambda>p. fst p \<noteq> k) (lru_recency key s) =
     map (\<lambda>p. (key (snd p), snd p)) (filter (\<lambda>p. key (snd p) \<noteq> k) (lru_order s))"
  by (simp add: lru_recency_def filter_map comp_def)

lemma lru_ok_del:
  assumes ok: "lru_ok key s" and e: "(i, e) \<in> set (lru_order s)"
  shows "lru_ok key (s\<lparr>lru_order := filter (\<lambda>p. fst p \<noteq> i) (lru_order s),
                       lru_index := map_del (key e) (lru_index s)\<rparr>)"
proof -
  have "map_of (map_del (key e) (lru_index s)) k = Some j \<longleftrightarrow>
      (\<exists>f. (j, f) \<in> set (filter (\<lambda>p. fst p \<noteq> i) (lru_order s)) \<and> key f = k)" for k j
  proof (cases "k = key e")
    case True
    then show ?thesis using lru_key_unique[OF ok e] by fastforce
  next
    case False
    then show ?thesis using lru_index_iff[OF ok, of k j] lru_id_unique[OF ok e] by auto
  qed
  then show ?thesis using ok
    by (auto simp: lru_ok_def distinct_map_filter)
qed

lemma last_filter_id:
  assumes "distinct (map fst xs)" "xs \<noteq> []"
  shows "filter (\<lambda>p. fst p \<noteq> fst (last xs)) xs = butlast xs"
proof -
  obtain ys y where "xs = ys @ [y]" using assms(2) by (metis append_butlast_last_id)
  with assms(1) show ?thesis by (simp add: filter_id_conv) (metis image_eqI)
qed

lemma lru_evict_ok:
  assumes "lru_ok key s"
  shows "lru_ok key (lru_evict key s) \<and> lru_order (lru_evict key s) = butlast (lru_order s) \<and>
    lru_next (lru_evict key s) = lru_next s"
proof (cases "lru_order s = []")
  case False
  obtain i e where l: "last (lru_order s) = (i, e)" by (cases "last (lru_order s)")
  with False have mem: "(i, e) \<in> set (lru_order s)" by (metis last_in_set)
  have "filter (\<lambda>p. fst p \<noteq> i) (lru_order s) = butlast (lru_order s)"
    using last_filter_id[OF _ False] assms l by (simp add: lru_ok_def)
  with False l lru_ok_del[OF assms mem] show ?thesis by (simp add: lru_evict_def)
qed (simp add: lru_evict_def assms)

lemma lru_ok_push_front:
  assumes ok: "lru_ok key s" and new: "key e \<notin> (\<lambda>p. key (snd p)) ` set (lru_order s)"
  shows "lru_ok key (s\<lparr>lru_order := (lru_next s, e) # lru_order s,
            lru_index := map_put (key e) (lru_next s) (lru_index s),
            lru_next := Suc (lru_next s)\<rparr>)"
  using ok new by (auto simp: lru_ok_def less_Suc_eq image_iff)

lemma lru_get_None_keys:
  assumes "lru_ok key s" "lru_get s k = None"
  shows "k \<notin> (\<lambda>p. key (snd p)) ` set (lru_order s)"
  using assms by (force simp: lru_get_recency[of key] map_of_eq_None_iff lru_recency_def)

lemma lru_push_props:
  assumes ok: "lru_ok key s" and new: "lru_get s (key e) = None"
  shows "lru_ok key (lru_push key cap e s)"
    and "lru_order (lru_push key cap e s) =
      (lru_next s, e) # (if cap \<le> length (lru_order s) then butlast (lru_order s) else lru_order s)"
proof -
  let ?s1 = "if cap \<le> length (lru_order s) then lru_evict key s else s"
  note ev = lru_evict_ok[OF ok]
  have o1: "lru_order ?s1 = (if cap \<le> length (lru_order s) then butlast (lru_order s) else lru_order s)"
    and n1: "lru_next ?s1 = lru_next s" and ok1: "lru_ok key ?s1"
    using ev ok by auto
  have "set (lru_order ?s1) \<subseteq> set (lru_order s)" using o1 by (auto dest: in_set_butlastD)
  with lru_get_None_keys[OF ok new] have "key e \<notin> (\<lambda>p. key (snd p)) ` set (lru_order ?s1)" by blast
  from lru_ok_push_front[OF ok1 this]
  show "lru_ok key (lru_push key cap e s)" by (simp add: lru_push_def Let_def)
  show "lru_order (lru_push key cap e s) =
      (lru_next s, e) # (if cap \<le> length (lru_order s) then butlast (lru_order s) else lru_order s)"
    using o1 n1 by (simp add: lru_push_def Let_def)
qed

lemma lru_touch_ok:
  assumes ok: "lru_ok key s"
  shows "lru_ok key (lru_touch key e s)"
proof (cases "map_of (lru_index s) (key e)")
  case (Some i)
  then obtain f where f: "(i, f) \<in> set (lru_order s)" "key f = key e"
    using ok by (metis lru_index_entry)
  let ?o = "(i, e) # filter (\<lambda>p. fst p \<noteq> i) (lru_order s)"
  have keys: "distinct (map (\<lambda>p. key (snd p)) ?o)"
  proof -
    have "distinct (map (\<lambda>p. key (snd p)) (filter (\<lambda>p. fst p \<noteq> i) (lru_order s)))"
      using ok by (simp add: lru_ok_def distinct_map_filter)
    then show ?thesis using lru_key_unique[OF ok f(1)] f(2) by fastforce
  qed
  have index: "map_of (lru_index s) k = Some j \<longleftrightarrow> (\<exists>g. (j, g) \<in> set ?o \<and> key g = k)" for k j
  proof (cases "j = i")
    case True
    have "map_of (lru_index s) k = Some i \<longleftrightarrow> key f = k"
      using lru_index_iff[OF ok, of k i] f(1) lru_id_unique[OF ok f(1)] by blast
    moreover have "(\<exists>g. (i, g) \<in> set ?o \<and> key g = k) \<longleftrightarrow> key e = k" by auto
    ultimately show ?thesis using True f(2) by simp
  next
    case False
    then show ?thesis using lru_index_iff[OF ok, of k j] by auto
  qed
  have ids: "distinct (map fst ?o)" using ok by (auto simp: lru_ok_def distinct_map_filter)
  have fresh: "\<forall>p\<in>set ?o. fst p < lru_next s" using ok f(1) by (auto simp: lru_ok_def)
  have wf: "wf_map (lru_index s)" using ok by (simp add: lru_ok_def)
  have t: "lru_order (lru_touch key e s) = ?o" "lru_index (lru_touch key e s) = lru_index s"
    "lru_next (lru_touch key e s) = lru_next s" using Some by (simp_all add: lru_touch_def)
  show ?thesis unfolding lru_ok_def t using ids keys fresh wf index by blast
qed (simp add: lru_touch_def ok)

lemma lru_remove_ok:
  assumes ok: "lru_ok key s"
  shows "lru_ok key (lru_remove k s) \<and>
    lru_recency key (lru_remove k s) = filter (\<lambda>p. fst p \<noteq> k) (lru_recency key s)"
proof (cases "map_of (lru_index s) k")
  case None
  then have "lru_get s k = None" by (simp add: lru_get_def)
  with ok have "k \<notin> fst ` set (lru_recency key s)"
    by (simp add: lru_get_recency[of key] map_of_eq_None_iff)
  then have "filter (\<lambda>p. fst p \<noteq> k) (lru_recency key s) = lru_recency key s"
    by (intro filter_True) auto
  with ok None show ?thesis by (simp add: lru_remove_def)
next
  case (Some i)
  then obtain e where e: "(i, e) \<in> set (lru_order s)" "key e = k" using ok by (metis lru_index_entry)
  with Some lru_ok_del[OF ok e(1)] lru_drop_element[OF ok e(1)] show ?thesis
    by (simp add: lru_remove_def lru_recency_filter) (simp add: lru_recency_def)
qed

lemma lru_touch_recency:
  assumes ok: "lru_ok key s" and "lru_get s (key e) \<noteq> None"
  shows "lru_recency key (lru_touch key e s) =
    (key e, e) # filter (\<lambda>p. fst p \<noteq> key e) (lru_recency key s)"
proof -
  from assms(2) obtain i where i: "map_of (lru_index s) (key e) = Some i"
    by (auto simp: lru_get_def split: option.splits)
  then obtain f where f: "(i, f) \<in> set (lru_order s)" "key f = key e" using ok by (metis lru_index_entry)
  with i lru_drop_element[OF ok f(1)] show ?thesis
    by (simp add: lru_touch_def lru_recency_filter) (simp add: lru_recency_def)
qed

lemma recency_store_lru:
  "recency_store key lru_get (lru_push key) (lru_touch key) lru_remove (lru_recency key) (lru_ok key)"
proof (unfold_locales, goal_cases)
  case (1 s) then show ?case by (simp add: lru_ok_def lru_recency_def comp_def)
next
  case (2 s k e) then show ?case by (auto simp: lru_recency_def)
next
  case (3 s k) then show ?case by (rule lru_get_recency)
next
  case (4 s e cap) then show ?case by (simp add: lru_recency_def lru_push_props map_butlast)
next
  case (5 s e) then show ?case by (simp add: lru_touch_recency)
next
  case (6 s k) then show ?case by (simp add: lru_remove_ok)
next
  case (7 s e cap) then show ?case by (rule lru_push_props)
next
  case (8 s e) then show ?case by (rule lru_touch_ok)
next
  case (9 s k) then show ?case by (simp add: lru_remove_ok)
qed

end
