(* ===== verification/GoTime.thy ===== *)
theory GoTime
  imports Prelude "HOL-Library.Monad_Syntax"
begin

text \<open>
  Go's package \<open>time\<close>, as far as the agent uses it. An instant is a number of nanoseconds
  since the zero time (1 January of year 1, UTC), so Go's \<open>time.Time{}\<close> is \<^term>\<open>0::int\<close>
  and the calendar is proleptic Gregorian; a duration is a 64-bit number of nanoseconds.
  One clock is modelled: wall-clock and monotonic readings agree.
\<close>

type_synonym time = int
type_synonym duration = int

abbreviation (input) nanosecond :: duration where "nanosecond \<equiv> 1"
abbreviation (input) millisecond :: duration where "millisecond \<equiv> 1000000"
abbreviation (input) second :: duration where "second \<equiv> 1000000000"
abbreviation (input) minute :: duration where "minute \<equiv> 60000000000"
abbreviation (input) hour :: duration where "hour \<equiv> 3600000000000"

abbreviation (input) zero_time :: time where "zero_time \<equiv> 0"

text \<open>\<open>Time.Sub\<close> saturates at the ends of the range of a duration.\<close>

definition time_sub :: "time \<Rightarrow> time \<Rightarrow> duration" where
  "time_sub t u = max min_int64 (min max_int64 (t - u))"

definition time_add :: "time \<Rightarrow> duration \<Rightarrow> time" where
  "time_add t d = t + d"

text \<open>\<open>Time.Truncate(d)\<close> rounds down to a multiple of \<open>d\<close> since the zero time.\<close>

definition time_truncate :: "time \<Rightarrow> duration \<Rightarrow> time" where
  "time_truncate t d = (if d \<le> 0 then t else t - t mod d)"

definition unix_to_internal :: int where
  "unix_to_internal = 62135596800"

definition time_unix :: "time \<Rightarrow> int" where
  "time_unix t = t div second - unix_to_internal"

lemma time_sub_in_int64 [simp]: "in_int64 (time_sub t u)"
  by (simp add: time_sub_def int64_defs)

lemma time_sub_exact: "in_int64 (t - u) \<Longrightarrow> time_sub t u = t - u"
  by (simp add: time_sub_def int64_defs)

lemma time_sub_mono: "t \<le> t' \<Longrightarrow> time_sub t u \<le> time_sub t' u"
  by (simp add: time_sub_def)

lemma time_sub_ge_iff: "in_int64 d \<Longrightarrow> d > min_int64 \<Longrightarrow> d \<le> time_sub t u \<longleftrightarrow> d \<le> t - u"
  by (auto simp: time_sub_def int64_defs)

lemma time_sub_le_iff: "in_int64 d \<Longrightarrow> d < max_int64 \<Longrightarrow> time_sub t u \<le> d \<longleftrightarrow> t - u \<le> d"
  by (auto simp: time_sub_def int64_defs)

lemma time_truncate_le: "0 < d \<Longrightarrow> time_truncate t d \<le> t \<and> t < time_truncate t d + d"
  by (simp add: time_truncate_def)

section \<open>RFC 3339\<close>

text \<open>
  \<open>time.Parse\<close> with the layouts \<open>RFC3339\<close> and \<open>RFC3339Nano\<close>. Both accept the same strings:
  a one-digit hour, a fraction of any length after a dot or a comma (nine digits count),
  \<open>Z\<close> or a numeric offset of at most 24 hours and 60 minutes, and nothing else around it.
\<close>

definition leap_year :: "int \<Rightarrow> bool" where
  "leap_year y \<longleftrightarrow> y mod 4 = 0 \<and> (y mod 100 \<noteq> 0 \<or> y mod 400 = 0)"

definition days_in :: "int \<Rightarrow> int \<Rightarrow> int" where
  "days_in m y = (if m = 2 then (if leap_year y then 29 else 28)
     else if m \<in> {4, 6, 9, 11} then 30 else 31)"

fun days_before_month :: "nat \<Rightarrow> int \<Rightarrow> int" where
  "days_before_month 0 y = 0"
| "days_before_month (Suc m) y = days_before_month m y + days_in (int m + 1) y"

definition days_since_zero :: "int \<Rightarrow> int \<Rightarrow> int \<Rightarrow> int" where
  "days_since_zero y m d =
     365 * (y - 1) + (y - 1) div 4 - (y - 1) div 100 + (y - 1) div 400
     + days_before_month (nat (m - 1)) y + (d - 1)"

definition expect :: "char \<Rightarrow> string \<Rightarrow> string option" where
  "expect c s = (case s of [] \<Rightarrow> None | x # xs \<Rightarrow> if x = c then Some xs else None)"

definition get_num :: "bool \<Rightarrow> string \<Rightarrow> (int \<times> string) option" where
  "get_num fixed s = (case s of
     [] \<Rightarrow> None
   | [a] \<Rightarrow> if is_digit a \<and> \<not> fixed then Some (int (digit_val a), []) else None
   | a # b # r \<Rightarrow>
       if \<not> is_digit a then None
       else if \<not> is_digit b then (if fixed then None else Some (int (digit_val a), b # r))
       else Some (int (digit_val a * 10 + digit_val b), r))"

definition get_year :: "string \<Rightarrow> (int \<times> string) option" where
  "get_year s = (if 4 \<le> length s \<and> list_all is_digit (take 4 s)
     then Some (int (dec_val (take 4 s)), drop 4 s) else None)"

definition get_fraction :: "string \<Rightarrow> int \<times> string" where
  "get_fraction s = (case s of
     c # d # r \<Rightarrow>
       if (c = CHR ''.'' \<or> c = CHR '','') \<and> is_digit d then
         (let ds = takeWhile is_digit (d # r); used = take 9 ds
          in (int (dec_val used) * 10 ^ (9 - length used), dropWhile is_digit (d # r)))
       else (0, s)
   | _ \<Rightarrow> (0, s))"

definition get_zone :: "string \<Rightarrow> (int \<times> string) option" where
  "get_zone s = (case s of
     [] \<Rightarrow> None
   | c # r \<Rightarrow>
       if c = CHR ''Z'' then Some (0, r)
       else if c \<noteq> CHR ''+'' \<and> c \<noteq> CHR ''-'' then None
       else do {
         (hh, r1) \<leftarrow> get_num True (take 2 r);
         r2 \<leftarrow> expect CHR '':'' (drop 2 r);
         (mm, r3) \<leftarrow> get_num True r2;
         if hh > 24 \<or> mm > 60 then None
         else Some ((if c = CHR ''-'' then -1 else 1) * (hh * 60 + mm) * 60, r3)
       })"

definition parse_rfc3339 :: "string \<Rightarrow> time option" where
  "parse_rfc3339 s0 = do {
     (y, s) \<leftarrow> get_year s0;
     s \<leftarrow> expect CHR ''-'' s;
     (mo, s) \<leftarrow> get_num True s;
     s \<leftarrow> expect CHR ''-'' s;
     (d, s) \<leftarrow> get_num True s;
     s \<leftarrow> expect CHR ''T'' s;
     (h, s) \<leftarrow> get_num False s;
     s \<leftarrow> expect CHR '':'' s;
     (mi, s) \<leftarrow> get_num True s;
     s \<leftarrow> expect CHR '':'' s;
     (sec, s) \<leftarrow> get_num True s;
     let (ns, s) = get_fraction s;
     (off, s) \<leftarrow> get_zone s;
     if s \<noteq> [] \<or> mo < 1 \<or> mo > 12 \<or> d < 1 \<or> d > days_in mo y \<or> h > 23 \<or> mi > 59 \<or> sec > 59
     then None
     else Some ((days_since_zero y mo d * 86400 + h * 3600 + mi * 60 + sec - off) * second + ns)
   }"

lemma parse_rfc3339_empty [simp]: "parse_rfc3339 [] = None"
  by (simp add: parse_rfc3339_def get_year_def)

lemma parse_rfc3339_epoch:
  "parse_rfc3339 ''1970-01-01T00:00:00Z'' = Some (unix_to_internal * second)"
  by code_simp

lemma parse_rfc3339_zero: "parse_rfc3339 ''0001-01-01T00:00:00Z'' = Some zero_time"
  by code_simp

end
