(* ===== verification/RateLimit.thy ===== *)
theory RateLimit
  imports Lru GoTime
begin

text \<open>
  \<open>pkg/triggers/ratelimit.go\<close>: the bounded LRU and TTL cache that suppresses repeated fires
  of a trigger fingerprint. The clock is an argument of \<open>Allow\<close> (\<open>r.now()\<close> in the code).
  The theory proves the capacity and index invariant, the refinement of an abstract limiter
  over a recency list, and that a recorded fire suppresses its key for the whole window as
  long as fewer distinct keys than the capacity are used in between.
\<close>

section \<open>Model\<close>

record rl_entry =
  entry_key :: string
  entry_expiresAt :: time

record rate_limiter =
  rl_maxEntries :: int
  rl_store :: "rl_entry lru"

definition NewRateLimiter :: "int \<Rightarrow> rate_limiter" where
  "NewRateLimiter maxEntries =
     (let maxEntries = (if maxEntries \<le> 0 then 10000 else maxEntries)
      in \<lparr>rl_maxEntries = maxEntries, rl_store = lru_empty\<rparr>)"

definition RateLimiter_Allow ::
  "time \<Rightarrow> string \<Rightarrow> duration \<Rightarrow> rate_limiter \<Rightarrow> bool \<times> rate_limiter" where
  "RateLimiter_Allow now key window r =
     (if window \<le> 0 then (True, r)
      else case lru_get (rl_store r) key of
        Some e \<Rightarrow>
          if now < entry_expiresAt e then (False, r)
          else (True, r\<lparr>rl_store :=
             lru_touch entry_key (e\<lparr>entry_expiresAt := time_add now window\<rparr>) (rl_store r)\<rparr>)
      | None \<Rightarrow>
          (True, r\<lparr>rl_store :=
             lru_push entry_key (nat (rl_maxEntries r))
               \<lparr>entry_key = key, entry_expiresAt = time_add now window\<rparr> (rl_store r)\<rparr>))"

definition RateLimiter_Forget :: "string \<Rightarrow> rate_limiter \<Rightarrow> bool \<times> rate_limiter" where
  "RateLimiter_Forget key r = (case map_of (lru_index (rl_store r)) key of
     None \<Rightarrow> (False, r)
   | Some _ \<Rightarrow> (True, r\<lparr>rl_store := lru_remove key (rl_store r)\<rparr>))"

definition RateLimiter_Len :: "rate_limiter \<Rightarrow> nat" where
  "RateLimiter_Len r = length (lru_order (rl_store r))"

text \<open>A sequence of calls on one limiter, with the results of the \<open>Allow\<close> calls.\<close>

datatype rl_op = RAllow time string duration | RForget string

fun rl_op_key :: "rl_op \<Rightarrow> string" where
  "rl_op_key (RAllow _ k _) = k"
| "rl_op_key (RForget k) = k"

fun rl_step :: "rate_limiter \<Rightarrow> rl_op \<Rightarrow> bool \<times> rate_limiter" where
  "rl_step r (RAllow now k w) = RateLimiter_Allow now k w r"
| "rl_step r (RForget k) = RateLimiter_Forget k r"

fun rl_run :: "rate_limiter \<Rightarrow> rl_op list \<Rightarrow> rate_limiter" where
  "rl_run r [] = r"
| "rl_run r (x # xs) = rl_run (snd (rl_step r x)) xs"

section \<open>Abstract limiter\<close>

text \<open>The contract: a list of keys with their expiry, newest first, of bounded length.\<close>

definition spec_allow :: "nat \<Rightarrow> time \<Rightarrow> string \<Rightarrow> duration \<Rightarrow>
    (string \<times> time) list \<Rightarrow> bool \<times> (string \<times> time) list" where
  "spec_allow cap now k w xs =
     (if w \<le> 0 then (True, xs)
      else case map_of xs k of
        Some t \<Rightarrow> if now < t then (False, xs) else (True, (k, now + w) # filter (\<lambda>p. fst p \<noteq> k) xs)
      | None \<Rightarrow> (True, (k, now + w) # (if cap \<le> length xs then butlast xs else xs)))"

definition spec_forget :: "string \<Rightarrow> (string \<times> time) list \<Rightarrow> (string \<times> time) list" where
  "spec_forget k xs = filter (\<lambda>p. fst p \<noteq> k) xs"

definition rl_abs :: "rate_limiter \<Rightarrow> (string \<times> time) list" where
  "rl_abs r = map (\<lambda>p. (fst p, entry_expiresAt (snd p))) (lru_recency entry_key (rl_store r))"

definition rl_inv :: "rate_limiter \<Rightarrow> bool" where
  "rl_inv r \<longleftrightarrow> 0 < rl_maxEntries r \<and> lru_ok entry_key (rl_store r) \<and>
     length (lru_recency entry_key (rl_store r)) \<le> nat (rl_maxEntries r)"

text \<open>A key is live at an instant when a call at that instant would be suppressed.\<close>

definition rl_live :: "rate_limiter \<Rightarrow> time \<Rightarrow> string \<Rightarrow> bool" where
  "rl_live r now k = (case lru_get (rl_store r) k of None \<Rightarrow> False | Some e \<Rightarrow> now < entry_expiresAt e)"

section \<open>Invariant and refinement\<close>

interpretation rls: recency_store entry_key lru_get "lru_push entry_key" "lru_touch entry_key"
    lru_remove "lru_recency entry_key" "lru_ok entry_key"
  by (rule recency_store_lru)

lemma rl_get_key: "rl_inv r \<Longrightarrow> lru_get (rl_store r) k = Some e \<Longrightarrow> entry_key e = k"
  by (auto simp: rl_inv_def dest: rls.get_key)

lemma Forget_snd: "snd (RateLimiter_Forget k r) = r\<lparr>rl_store := lru_remove k (rl_store r)\<rparr>"
  by (auto simp: RateLimiter_Forget_def lru_remove_def split: option.splits)

lemma rl_inv_New: "rl_inv (NewRateLimiter n)"
  by (simp add: rl_inv_def NewRateLimiter_def Let_def)

lemma rl_inv_Allow:
  assumes "rl_inv r"
  shows "rl_inv (snd (RateLimiter_Allow now k w r)) \<and>
    rl_maxEntries (snd (RateLimiter_Allow now k w r)) = rl_maxEntries r"
proof (cases "w \<le> 0")
  case False
  show ?thesis
  proof (cases "lru_get (rl_store r) k")
    case None
    with False assms show ?thesis
      by (simp add: RateLimiter_Allow_def rl_inv_def rls.ok_push rls.push_bound)
  next
    case (Some e)
    with assms have "entry_key e = k" by (rule rl_get_key)
    with Some False assms show ?thesis
      by (simp add: RateLimiter_Allow_def rl_inv_def rls.ok_touch rls.touch_bound)
  qed
qed (simp add: RateLimiter_Allow_def assms)

lemma rl_inv_Forget: "rl_inv r \<Longrightarrow> rl_inv (snd (RateLimiter_Forget k r))"
  by (simp add: Forget_snd rl_inv_def rls.ok_remove rls.remove_bound)

lemma rl_inv_step: "rl_inv r \<Longrightarrow> rl_inv (snd (rl_step r x))"
  by (cases x) (simp_all add: rl_inv_Allow rl_inv_Forget)

lemma rl_inv_run: "rl_inv r \<Longrightarrow> rl_inv (rl_run r xs)"
  by (induction xs arbitrary: r) (simp_all add: rl_inv_step)

lemma rl_maxEntries_run: "rl_inv r \<Longrightarrow> rl_maxEntries (rl_run r xs) = rl_maxEntries r"
proof (induction xs arbitrary: r)
  case (Cons x xs)
  then have "rl_maxEntries (snd (rl_step r x)) = rl_maxEntries r"
    by (cases x) (auto simp: rl_inv_Allow Forget_snd)
  with Cons show ?case by (simp add: rl_inv_step)
qed simp

lemma map_of_rl_abs:
  "rl_inv r \<Longrightarrow> map_of (rl_abs r) k = map_option entry_expiresAt (lru_get (rl_store r) k)"
  by (auto simp: rl_abs_def rl_inv_def rls.get_recency map_of_map_snd)

lemma rl_live_abs: "rl_inv r \<Longrightarrow> rl_live r now k \<longleftrightarrow> (\<exists>t. map_of (rl_abs r) k = Some t \<and> now < t)"
  by (auto simp: rl_live_def map_of_rl_abs split: option.splits)

lemma rl_abs_filter:
  "map (\<lambda>p. (fst p, entry_expiresAt (snd p))) (filter (\<lambda>p. fst p \<noteq> k) xs) =
   filter (\<lambda>p. fst p \<noteq> k) (map (\<lambda>p. (fst p, entry_expiresAt (snd p))) xs)"
  by (simp add: filter_map comp_def)

lemma Allow_refines_aux:
  assumes inv: "rl_inv r"
  shows "fst (RateLimiter_Allow now k w r) = fst (spec_allow (nat (rl_maxEntries r)) now k w (rl_abs r)) \<and>
    rl_abs (snd (RateLimiter_Allow now k w r)) = snd (spec_allow (nat (rl_maxEntries r)) now k w (rl_abs r))"
proof (cases "w \<le> 0")
  case False
  have ok: "lru_ok entry_key (rl_store r)" using inv by (simp add: rl_inv_def)
  show ?thesis
  proof (cases "lru_get (rl_store r) k")
    case None
    with False ok show ?thesis
      by (simp add: RateLimiter_Allow_def spec_allow_def map_of_rl_abs[OF inv] time_add_def)
        (simp add: rl_abs_def rls.push_recency map_butlast)
  next
    case (Some e)
    with inv have "entry_key e = k" by (rule rl_get_key)
    with Some False ok show ?thesis
      by (simp add: RateLimiter_Allow_def spec_allow_def map_of_rl_abs[OF inv] time_add_def)
        (simp add: rl_abs_def rls.touch_recency rl_abs_filter)
  qed
qed (simp add: RateLimiter_Allow_def spec_allow_def)

lemma Forget_refines_aux:
  "rl_inv r \<Longrightarrow> rl_abs (snd (RateLimiter_Forget k r)) = spec_forget k (rl_abs r)"
  by (simp add: Forget_snd rl_inv_def rl_abs_def spec_forget_def rls.remove_recency rl_abs_filter)


section \<open>What a client of the limiter relies on\<close>

text \<open>
  The engine uses the limiter through \<open>Allow\<close> and \<open>Forget\<close> only. These are the laws it needs:
  the answer is determined by whether the key is live, an allowed call makes its key live for
  the window, forgetting ends it, and no call makes another key live.
\<close>

locale fire_limiter =
  fixes allow :: "time \<Rightarrow> string \<Rightarrow> duration \<Rightarrow> 's \<Rightarrow> bool \<times> 's"
    and forget :: "string \<Rightarrow> 's \<Rightarrow> bool \<times> 's"
    and live :: "'s \<Rightarrow> time \<Rightarrow> string \<Rightarrow> bool"
    and inv :: "'s \<Rightarrow> bool"
  assumes allow_iff: "inv s \<Longrightarrow> fst (allow now k w s) \<longleftrightarrow> w \<le> 0 \<or> \<not> live s now k"
    and allow_live: "inv s \<Longrightarrow> fst (allow now k w s) \<Longrightarrow> 0 < w \<Longrightarrow>
      live (snd (allow now k w s)) t k \<longleftrightarrow> t < now + w"
    and allow_denied: "\<not> fst (allow now k w s) \<Longrightarrow> snd (allow now k w s) = s"
    and allow_off: "w \<le> 0 \<Longrightarrow> snd (allow now k w s) = s"
    and allow_other: "inv s \<Longrightarrow> k' \<noteq> k \<Longrightarrow> live (snd (allow now k w s)) t k' \<Longrightarrow> live s t k'"
    and forget_live: "inv s \<Longrightarrow> live (snd (forget k s)) t k' \<longleftrightarrow> k' \<noteq> k \<and> live s t k'"
    and inv_allow: "inv s \<Longrightarrow> inv (snd (allow now k w s))"
    and inv_forget: "inv s \<Longrightarrow> inv (snd (forget k s))"
begin

lemma allow_after_forget: "inv s \<Longrightarrow> fst (allow now k w (snd (forget k s)))"
  by (simp add: allow_iff inv_forget forget_live)

lemma repeat_denied:
  assumes "inv s" "0 < w" "fst (allow now k w s)" "0 < w'" "t < now + w"
  shows "\<not> fst (allow t k w' (snd (allow now k w s)))"
  using assms allow_live[OF assms(1,3,2)] by (simp add: allow_iff inv_allow)

end

interpretation rlim: fire_limiter RateLimiter_Allow RateLimiter_Forget rl_live rl_inv
proof (unfold_locales, goal_cases)
  case (1 s now k w)
  then show ?case by (auto simp: RateLimiter_Allow_def rl_live_def split: option.splits)
next
  case (2 s now k w t)
  have inv': "rl_inv (snd (RateLimiter_Allow now k w s))" using 2 by (simp add: rl_inv_Allow)
  have "map_of (rl_abs (snd (RateLimiter_Allow now k w s))) k = Some (now + w)"
    using 2(2,3) Allow_refines_aux[OF 2(1), of now k w]
    by (auto simp: spec_allow_def split: option.splits if_splits)
  then show ?case by (simp add: rl_live_abs[OF inv'])
next
  case (3 now k w s)
  then show ?case by (auto simp: RateLimiter_Allow_def split: option.splits if_splits)
next
  case (4 w now k s)
  then show ?case by (simp add: RateLimiter_Allow_def)
next
  case (5 s k' k now w t)
  have inv': "rl_inv (snd (RateLimiter_Allow now k w s))" using 5 by (simp add: rl_inv_Allow)
  have d: "distinct (map fst (rl_abs s))"
    using 5 rls.recency_distinct by (auto simp: rl_inv_def rl_abs_def comp_def)
  from 5 Allow_refines_aux[OF 5(1), of now k w] d show ?case
    by (auto simp: rl_live_abs[OF inv'] rl_live_abs spec_allow_def map_of_filter_wf wf_map_def
        dest!: map_of_SomeD in_set_butlastD split: option.splits if_splits)
next
  case (6 s k t k')
  then show ?case
    by (simp add: rl_live_def Forget_snd rls.get_remove rl_inv_def)
next
  case (7 s now k w)
  then show ?case by (simp add: rl_inv_Allow)
next
  case (8 s k)
  then show ?case by (rule rl_inv_Forget)
qed

section \<open>A recorded fire is suppressed for its window\<close>

text \<open>
  The keys used after a fire of \<open>k\<close> are what can push it out of the cache. The lemma carries
  the record of \<open>k\<close> through one call on another key.
\<close>

definition rl_holds :: "rate_limiter \<Rightarrow> string \<Rightarrow> time \<Rightarrow> string set \<Rightarrow> bool" where
  "rl_holds r k t K \<longleftrightarrow> rl_inv r \<and>
     (\<exists>e. lru_get (rl_store r) k = Some e \<and> entry_expiresAt e = t) \<and>
     newer (lru_recency entry_key (rl_store r)) k \<subseteq> K"

lemma rl_holds_mono: "rl_holds r k t K \<Longrightarrow> K \<subseteq> K' \<Longrightarrow> rl_holds r k t K'"
  by (auto simp: rl_holds_def)

lemma rl_holds_after_fire:
  assumes "rl_inv r" "0 < w" "fst (RateLimiter_Allow now k w r)"
  shows "rl_holds (snd (RateLimiter_Allow now k w r)) k (now + w) {}"
proof (cases "lru_get (rl_store r) k")
  case None
  with assms show ?thesis
    by (simp add: rl_holds_def rl_inv_Allow)
      (simp add: RateLimiter_Allow_def rl_inv_def rls.push_recency newer_Cons time_add_def
        rls.get_push[where e = "\<lparr>entry_key = k, entry_expiresAt = _\<rparr>", simplified])
next
  case (Some e)
  with assms have "entry_key e = k" by (simp add: rl_get_key)
  with Some assms show ?thesis
    by (simp add: rl_holds_def rl_inv_Allow)
      (simp add: RateLimiter_Allow_def rl_inv_def rls.touch_recency rls.get_touch newer_Cons
        time_add_def split: if_splits)
qed

lemma rl_holds_push:
  assumes h: "rl_holds r k t K" and fin: "finite K" and ne: "k' \<noteq> k"
    and card: "int (card (insert k' K)) < rl_maxEntries r"
    and new: "lru_get (rl_store r) k' = None"
  shows "rl_holds (snd (RateLimiter_Allow now k' w r)) k t (insert k' K)"
proof (cases "w \<le> 0")
  case False
  let ?e = "\<lparr>entry_key = k', entry_expiresAt = time_add now w\<rparr>"
  from h obtain e where ok: "lru_ok entry_key (rl_store r)" and e: "lru_get (rl_store r) k = Some e"
    "entry_expiresAt e = t" and nw: "newer (lru_recency entry_key (rl_store r)) k \<subseteq> K"
    by (auto simp: rl_holds_def rl_inv_def)
  have "card (insert k' (newer (lru_recency entry_key (rl_store r)) k)) \<le> card (insert k' K)"
    using nw fin by (intro card_mono) auto
  with card have c: "card (insert k' (newer (lru_recency entry_key (rl_store r)) k)) < nat (rl_maxEntries r)"
    by linarith
  note keep = rls.push_keeps[OF ok, where e' = ?e and k = k and e = e and cap = "nat (rl_maxEntries r)", simplified]
  from keep[OF new e(1) c] nw e(2) False new h show ?thesis
    by (auto simp: rl_holds_def rl_inv_Allow) (auto simp: RateLimiter_Allow_def)
qed (use h in \<open>auto simp: RateLimiter_Allow_def rl_holds_def\<close>)

lemma rl_holds_touch:
  assumes h: "rl_holds r k t K" and ne: "k' \<noteq> k" and old: "lru_get (rl_store r) k' = Some e'"
  shows "rl_holds (snd (RateLimiter_Allow now k' w r)) k t (insert k' K)"
proof -
  from h have inv: "rl_inv r" and ok: "lru_ok entry_key (rl_store r)"
    by (auto simp: rl_holds_def rl_inv_def)
  from inv old have k': "entry_key e' = k'" by (rule rl_get_key)
  let ?e = "e'\<lparr>entry_expiresAt := time_add now w\<rparr>"
  have g: "lru_get (rl_store r) (entry_key ?e) \<noteq> None" using old k' by simp
  have "newer (lru_recency entry_key (lru_touch entry_key ?e (rl_store r))) k
      \<subseteq> insert k' (newer (lru_recency entry_key (rl_store r)) k)"
    using rls.newer_touch_subset[OF ok g, of k] k' ne by simp
  moreover have "lru_get (lru_touch entry_key ?e (rl_store r)) k = lru_get (rl_store r) k"
    using rls.get_touch[OF ok g, of k] k' ne by auto
  moreover have "snd (RateLimiter_Allow now k' w r) = r \<or> snd (RateLimiter_Allow now k' w r) =
      r\<lparr>rl_store := lru_touch entry_key ?e (rl_store r)\<rparr>"
    using old by (simp add: RateLimiter_Allow_def)
  moreover have "rl_inv (snd (RateLimiter_Allow now k' w r))" using inv by (simp add: rl_inv_Allow)
  ultimately show ?thesis using h unfolding rl_holds_def by (elim disjE) auto
qed

lemma rl_holds_step:
  assumes h: "rl_holds r k t K" and fin: "finite K"
    and card: "int (card (insert (rl_op_key x) K)) < rl_maxEntries r"
    and other: "rl_op_key x \<noteq> k"
  shows "rl_holds (snd (rl_step r x)) k t (insert (rl_op_key x) K)"
proof (cases x)
  case (RAllow now k' w)
  with rl_holds_push[OF h fin] rl_holds_touch[OF h] card other show ?thesis
    by (cases "lru_get (rl_store r) k'") auto
next
  case (RForget k')
  with h other have "lru_ok entry_key (rl_store r)" "k \<noteq> k'" by (auto simp: rl_holds_def rl_inv_def)
  from rls.newer_remove_subset[OF this] rls.get_remove[OF this(1)] RForget h \<open>k \<noteq> k'\<close> show ?thesis
    by (auto simp: rl_holds_def rl_inv_Forget) (auto simp: Forget_snd)
qed

text \<open>Calls on \<open>k\<close> itself inside the window are suppressed and leave the store alone.\<close>

fun within_window :: "string \<Rightarrow> time \<Rightarrow> rl_op \<Rightarrow> bool" where
  "within_window k t (RAllow now k' w) = (k' = k \<longrightarrow> 0 < w \<and> now < t)"
| "within_window k t (RForget k') = (k' \<noteq> k)"

lemma rl_holds_self:
  assumes "rl_holds r k t K" "within_window k t x" "rl_op_key x = k"
  shows "rl_step r x = (False, r)"
  using assms by (cases x) (auto simp: rl_holds_def RateLimiter_Allow_def)

lemma rl_holds_run:
  assumes "rl_holds r k t K" "finite K"
    and "int (card (K \<union> rl_op_key ` set xs)) < rl_maxEntries r"
    and "list_all (within_window k t) xs"
  shows "rl_holds (rl_run r xs) k t (K \<union> rl_op_key ` set xs)"
  using assms
proof (induction xs arbitrary: r K)
  case (Cons x xs)
  let ?K' = "insert (rl_op_key x) K"
  have sub: "card ?K' \<le> card (K \<union> rl_op_key ` set (x # xs))"
    using Cons.prems(2) by (intro card_mono) auto
  have un: "K \<union> rl_op_key ` set (x # xs) = ?K' \<union> rl_op_key ` set xs" by auto
  have "rl_holds (snd (rl_step r x)) k t ?K' \<and> rl_maxEntries (snd (rl_step r x)) = rl_maxEntries r"
  proof (cases "rl_op_key x = k")
    case True
    with Cons.prems rl_holds_self[of r k t K x] show ?thesis by (auto simp: rl_holds_def)
  next
    case False
    have "rl_maxEntries (snd (rl_step r x)) = rl_maxEntries r"
      using Cons.prems(1) by (cases x) (auto simp: rl_inv_Allow rl_holds_def Forget_snd)
    with rl_holds_step[OF Cons.prems(1,2) _ False] Cons.prems(3) sub show ?thesis by linarith
  qed
  then show ?case using Cons.prems Cons.IH[of "snd (rl_step r x)" ?K'] by (simp add: un)
qed simp

text \<open>Once \<open>Allow\<close> has let a key through with a positive window, every later call for that
  key inside the window is suppressed, whatever other calls come in between, provided nobody
  forgets the key and fewer than \<open>maxEntries\<close> distinct keys are used meanwhile (the bound
  up to which LRU eviction cannot reach the record).\<close>

lemma RateLimiter_suppresses_window:
  assumes inv: "rl_inv r" and w: "0 < w"
    and fired: "RateLimiter_Allow now k w r = (True, r1)"
    and calls: "list_all (within_window k (now + w)) ops"
    and room: "int (card (rl_op_key ` set ops)) < rl_maxEntries r"
    and again: "0 < w'" "t < now + w"
  shows "fst (RateLimiter_Allow t k w' (rl_run r1 ops)) = False"
proof -
  have "rl_holds r1 k (now + w) {}" using rl_holds_after_fire[OF inv w, of now k] fired by simp
  moreover have "rl_maxEntries r1 = rl_maxEntries r" using rl_inv_Allow[OF inv, of now k w] fired by simp
  ultimately have "rl_holds (rl_run r1 ops) k (now + w) (rl_op_key ` set ops)"
    using rl_holds_run[of r1 k "now + w" "{}" ops] calls room by simp
  with again show ?thesis by (auto simp: rl_holds_def RateLimiter_Allow_def)
qed

end
