(* ===== verification/Churn.thy ===== *)
theory Churn
  imports Lru GoTime
begin

text \<open>
  \<open>pkg/triggers/churn.go\<close>: frequency-based suppression of a resource that keeps rewriting
  itself. Per key the code is a small automaton (counting fires in a window, then cooling
  down); the theory proves that the bounded store runs that automaton for the key it is called
  with, what a burst of changes produces, and that a cooldown holds for its whole length.
\<close>

section \<open>Model\<close>

definition DefaultChurnThreshold :: int where "DefaultChurnThreshold = 3"
definition DefaultChurnWindow :: duration where "DefaultChurnWindow = 10 * minute"
definition DefaultChurnCooldown :: duration where "DefaultChurnCooldown = 6 * hour"

record churn_entry =
  ce_key :: string
  ce_fires :: int
  ce_windowStart :: time
  ce_cooldownUntil :: time

record churn_suppressor =
  cs_maxEntries :: int
  cs_threshold :: int
  cs_window :: duration
  cs_cooldown :: duration
  cs_store :: "churn_entry lru"

definition NewChurnSuppressor :: "int \<Rightarrow> int \<Rightarrow> duration \<Rightarrow> duration \<Rightarrow> churn_suppressor" where
  "NewChurnSuppressor maxEntries threshold window cooldown =
     \<lparr>cs_maxEntries = (if maxEntries \<le> 0 then 10000 else maxEntries),
      cs_threshold = (if threshold \<le> 0 then DefaultChurnThreshold else threshold),
      cs_window = (if window \<le> 0 then DefaultChurnWindow else window),
      cs_cooldown = (if cooldown \<le> 0 then DefaultChurnCooldown else cooldown),
      cs_store = lru_empty\<rparr>"

text \<open>
  What \<open>Allow\<close> does to the entry it found: the results \<open>(allowed, classified)\<close> and the entry
  with the fields it wrote.
\<close>

definition churn_hit ::
  "churn_suppressor \<Rightarrow> time \<Rightarrow> churn_entry \<Rightarrow> (bool \<times> bool) \<times> churn_entry" where
  "churn_hit c now e =
     (if now < ce_cooldownUntil e then ((False, False), e)
      else if ce_cooldownUntil e \<noteq> zero_time then
        ((True, False), e\<lparr>ce_cooldownUntil := zero_time, ce_fires := 1, ce_windowStart := now\<rparr>)
      else if time_sub now (ce_windowStart e) > cs_window c then
        ((True, False), e\<lparr>ce_fires := 1, ce_windowStart := now\<rparr>)
      else
        let e = e\<lparr>ce_fires := wrap64 (ce_fires e + 1)\<rparr> in
        if ce_fires e > cs_threshold c
        then ((False, True), e\<lparr>ce_cooldownUntil := time_add now (cs_cooldown c)\<rparr>)
        else ((True, False), e))"

definition churn_fresh :: "time \<Rightarrow> string \<Rightarrow> churn_entry" where
  "churn_fresh now key =
     \<lparr>ce_key = key, ce_fires = 1, ce_windowStart = now, ce_cooldownUntil = zero_time\<rparr>"

definition ChurnSuppressor_Allow ::
  "time \<Rightarrow> string \<Rightarrow> churn_suppressor \<Rightarrow> (bool \<times> bool) \<times> churn_suppressor" where
  "ChurnSuppressor_Allow now key c = (case lru_get (cs_store c) key of
     None \<Rightarrow> ((True, False),
       c\<lparr>cs_store := lru_push ce_key (nat (cs_maxEntries c)) (churn_fresh now key) (cs_store c)\<rparr>)
   | Some e \<Rightarrow> (case churn_hit c now e of (res, e') \<Rightarrow>
       (res, c\<lparr>cs_store := lru_touch ce_key e' (cs_store c)\<rparr>)))"

definition ChurnSuppressor_Len :: "churn_suppressor \<Rightarrow> nat" where
  "ChurnSuppressor_Len c = length (lru_order (cs_store c))"

fun churn_run :: "churn_suppressor \<Rightarrow> (time \<times> string) list \<Rightarrow> (bool \<times> bool) list \<times> churn_suppressor" where
  "churn_run c [] = ([], c)"
| "churn_run c ((now, k) # xs) =
     (case ChurnSuppressor_Allow now k c of (r, c1) \<Rightarrow>
      case churn_run c1 xs of (rs, c2) \<Rightarrow> (r # rs, c2))"

definition churn_inv :: "churn_suppressor \<Rightarrow> bool" where
  "churn_inv c \<longleftrightarrow> 0 < cs_maxEntries c \<and> 0 < cs_threshold c \<and> cs_threshold c < max_int64 \<and>
     0 < cs_window c \<and> cs_window c < max_int64 \<and> 0 < cs_cooldown c \<and>
     lru_ok ce_key (cs_store c) \<and>
     length (lru_recency ce_key (cs_store c)) \<le> nat (cs_maxEntries c)"

section \<open>Invariant\<close>

interpretation css: recency_store ce_key lru_get "lru_push ce_key" "lru_touch ce_key"
    lru_remove "lru_recency ce_key" "lru_ok ce_key"
  by (rule recency_store_lru)

lemma churn_hit_key [simp]: "ce_key (snd (churn_hit c now e)) = ce_key e"
  by (simp add: churn_hit_def Let_def)

lemma churn_fresh_key [simp]: "ce_key (churn_fresh now k) = k"
  by (simp add: churn_fresh_def)

lemma churn_get_key: "churn_inv c \<Longrightarrow> lru_get (cs_store c) k = Some e \<Longrightarrow> ce_key e = k"
  by (auto simp: churn_inv_def dest: css.get_key)

text \<open>The fields no call writes.\<close>

lemma Allow_frame [simp]:
  "cs_maxEntries (snd (ChurnSuppressor_Allow now k c)) = cs_maxEntries c"
  "cs_threshold (snd (ChurnSuppressor_Allow now k c)) = cs_threshold c"
  "cs_window (snd (ChurnSuppressor_Allow now k c)) = cs_window c"
  "cs_cooldown (snd (ChurnSuppressor_Allow now k c)) = cs_cooldown c"
  by (simp_all add: ChurnSuppressor_Allow_def split: option.splits prod.splits)

lemma churn_hit_cong:
  "cs_threshold c = cs_threshold c' \<Longrightarrow> cs_window c = cs_window c' \<Longrightarrow> cs_cooldown c = cs_cooldown c' \<Longrightarrow>
   churn_hit c now e = churn_hit c' now e"
  by (simp add: churn_hit_def Let_def)

lemma churn_inv_New:
  "threshold < max_int64 \<Longrightarrow> window < max_int64 \<Longrightarrow>
   churn_inv (NewChurnSuppressor maxEntries threshold window cooldown)"
  by (simp add: churn_inv_def NewChurnSuppressor_def DefaultChurnThreshold_def
      DefaultChurnWindow_def DefaultChurnCooldown_def max_int64_def)

lemma Allow_miss:
  "lru_get (cs_store c) k = None \<Longrightarrow> ChurnSuppressor_Allow now k c =
     ((True, False), c\<lparr>cs_store := lru_push ce_key (nat (cs_maxEntries c)) (churn_fresh now k) (cs_store c)\<rparr>)"
  by (simp add: ChurnSuppressor_Allow_def)

lemma Allow_hit:
  "lru_get (cs_store c) k = Some e \<Longrightarrow> ChurnSuppressor_Allow now k c =
     (fst (churn_hit c now e), c\<lparr>cs_store := lru_touch ce_key (snd (churn_hit c now e)) (cs_store c)\<rparr>)"
  by (simp add: ChurnSuppressor_Allow_def split_def)

lemma churn_inv_Allow: "churn_inv c \<Longrightarrow> churn_inv (snd (ChurnSuppressor_Allow now k c))"
proof (cases "lru_get (cs_store c) k")
  case None
  then show "churn_inv c \<Longrightarrow> ?thesis"
    by (simp add: Allow_miss churn_inv_def css.ok_push css.push_bound)
next
  case (Some e)
  assume inv: "churn_inv c"
  with Some have "ce_key e = k" by (simp add: churn_get_key)
  with Some inv show ?thesis
    by (simp add: Allow_hit churn_inv_def css.ok_touch css.touch_bound)
qed

section \<open>The automaton of one key\<close>

text \<open>
  What a key goes through, without store or capacity: it counts the fires of the window that
  began at its first fire, and cools down after the fire that passes the threshold.
\<close>

datatype churn_phase = Unseen | Counting int time | Cooling time

fun churn_spec :: "int \<Rightarrow> duration \<Rightarrow> duration \<Rightarrow> time \<Rightarrow> churn_phase \<Rightarrow> (bool \<times> bool) \<times> churn_phase" where
  "churn_spec th w cd now Unseen = ((True, False), Counting 1 now)"
| "churn_spec th w cd now (Cooling u) =
     (if now < u then ((False, False), Cooling u) else ((True, False), Counting 1 now))"
| "churn_spec th w cd now (Counting n ws) =
     (if now - ws > w then ((True, False), Counting 1 now)
      else if n + 1 > th then ((False, True), Cooling (now + cd))
      else ((True, False), Counting (n + 1) ws))"

definition phase_of :: "churn_entry \<Rightarrow> churn_phase" where
  "phase_of e = (if ce_cooldownUntil e = zero_time then Counting (ce_fires e) (ce_windowStart e)
     else Cooling (ce_cooldownUntil e))"

definition churn_phase_of :: "churn_suppressor \<Rightarrow> string \<Rightarrow> churn_phase" where
  "churn_phase_of c k = (case lru_get (cs_store c) k of None \<Rightarrow> Unseen | Some e \<Rightarrow> phase_of e)"

fun phase_ok :: "int \<Rightarrow> churn_phase \<Rightarrow> bool" where
  "phase_ok th (Counting n ws) = (1 \<le> n \<and> n \<le> th)"
| "phase_ok th _ = True"

lemma churn_hit_spec:
  assumes "churn_inv c" "0 \<le> now" "phase_ok (cs_threshold c) (phase_of e)"
  shows "fst (churn_hit c now e) =
      fst (churn_spec (cs_threshold c) (cs_window c) (cs_cooldown c) now (phase_of e))"
    and "phase_of (snd (churn_hit c now e)) =
      snd (churn_spec (cs_threshold c) (cs_window c) (cs_cooldown c) now (phase_of e))"
proof -
  have win: "time_sub now (ce_windowStart e) > cs_window c \<longleftrightarrow> now - ce_windowStart e > cs_window c"
    using time_sub_le_iff[of "cs_window c" now "ce_windowStart e"] assms(1)
    by (auto simp: churn_inv_def int64_defs)
  have wr: "ce_cooldownUntil e = 0 \<Longrightarrow> wrap64 (ce_fires e + 1) = ce_fires e + 1"
    using assms by (intro wrap64_id) (auto simp: phase_of_def churn_inv_def int64_defs)
  have cd: "0 < now + cs_cooldown c" using assms by (auto simp: churn_inv_def)
  show "fst (churn_hit c now e) =
      fst (churn_spec (cs_threshold c) (cs_window c) (cs_cooldown c) now (phase_of e))"
    using assms(2) by (auto simp: churn_hit_def phase_of_def Let_def win wr)
  show "phase_of (snd (churn_hit c now e)) =
      snd (churn_spec (cs_threshold c) (cs_window c) (cs_cooldown c) now (phase_of e))"
    using assms(2) cd by (auto simp: churn_hit_def phase_of_def Let_def win wr time_add_def)
qed

lemma Allow_automaton:
  assumes inv: "churn_inv c" and now: "0 \<le> now"
    and ok: "phase_ok (cs_threshold c) (churn_phase_of c k)"
  defines "spec \<equiv> churn_spec (cs_threshold c) (cs_window c) (cs_cooldown c) now (churn_phase_of c k)"
  shows "fst (ChurnSuppressor_Allow now k c) = fst spec \<and>
    churn_phase_of (snd (ChurnSuppressor_Allow now k c)) k = snd spec \<and>
    phase_ok (cs_threshold c) (snd spec) \<and>
    churn_inv (snd (ChurnSuppressor_Allow now k c))"
proof -
  have lok: "lru_ok ce_key (cs_store c)" using inv by (simp add: churn_inv_def)
  have th: "0 < cs_threshold c" using inv by (simp add: churn_inv_def)
  have "fst (ChurnSuppressor_Allow now k c) = fst spec \<and>
    churn_phase_of (snd (ChurnSuppressor_Allow now k c)) k = snd spec"
  proof (cases "lru_get (cs_store c) k")
    case None
    with css.get_push[OF lok, where e = "churn_fresh now k"] show ?thesis
      by (simp add: spec_def churn_phase_of_def Allow_miss phase_of_def churn_fresh_def)
  next
    case (Some e)
    with inv have key: "ce_key e = k" by (simp add: churn_get_key)
    have "phase_ok (cs_threshold c) (phase_of e)" using ok Some by (simp add: churn_phase_of_def)
    note hit = churn_hit_spec[OF inv now this]
    have "lru_get (lru_touch ce_key (snd (churn_hit c now e)) (cs_store c)) k = Some (snd (churn_hit c now e))"
      using css.get_touch[OF lok, of "snd (churn_hit c now e)" k] Some key by simp
    with Some hit show ?thesis
      by (simp add: spec_def churn_phase_of_def Allow_hit)
  qed
  moreover have "phase_ok (cs_threshold c) (snd spec)"
    using ok th unfolding spec_def by (cases "churn_phase_of c k") auto
  ultimately show ?thesis using churn_inv_Allow[OF inv] by blast
qed

text \<open>Each call of \<open>ChurnSuppressor.Allow\<close> runs the counting and cooling automaton for the
  key it is called with, and answers what that automaton answers: store, index and eviction
  do not interfere with the key being updated, and its counter never passes the threshold.\<close>

lemma ChurnSuppressor_runs_automaton:
  assumes inv: "churn_inv c" and now: "0 \<le> now"
    and ok: "phase_ok (cs_threshold c) (churn_phase_of c k)"
  defines "spec \<equiv> churn_spec (cs_threshold c) (cs_window c) (cs_cooldown c) now (churn_phase_of c k)"
  shows "fst (ChurnSuppressor_Allow now k c) = fst spec \<and>
    churn_phase_of (snd (ChurnSuppressor_Allow now k c)) k = snd spec \<and>
    phase_ok (cs_threshold c) (snd spec) \<and>
    churn_inv (snd (ChurnSuppressor_Allow now k c))"
  unfolding spec_def by (rule Allow_automaton[OF inv now ok])

section \<open>Bursts\<close>

lemma churn_run_same_key:
  assumes "churn_inv c" "phase_ok (cs_threshold c) (churn_phase_of c k)"
    and "list_all (\<lambda>t. 0 \<le> t) ts"
    and "churn_phase_of c k = Cooling u" "list_all (\<lambda>t. t < u) ts"
  shows "fst (churn_run c (map (\<lambda>t. (t, k)) ts)) = replicate (length ts) (False, False)"
  using assms
proof (induction ts arbitrary: c)
  case (Cons t ts)
  let ?c1 = "snd (ChurnSuppressor_Allow t k c)"
  have step: "fst (ChurnSuppressor_Allow t k c) = (False, False)" "churn_phase_of ?c1 k = Cooling u"
    "churn_inv ?c1"
    using Allow_automaton[of c t k] Cons.prems by auto
  have "fst (churn_run ?c1 (map (\<lambda>t. (t, k)) ts)) = replicate (length ts) (False, False)"
    using Cons.IH[OF step(3)] step(2) Cons.prems by simp
  with step(1) show ?case by (simp add: split_def)
qed simp

lemma churn_burst_aux:
  assumes "churn_inv c" "churn_phase_of c k = Counting n ws" "1 \<le> n" "n \<le> cs_threshold c"
    and "cs_window c < cs_cooldown c" "0 \<le> ws"
    and "list_all (\<lambda>t. ws \<le> t \<and> t \<le> ws + cs_window c) ts" "length ts \<le> m"
  shows "fst (churn_run c (map (\<lambda>t. (t, k)) ts)) =
    take (length ts) (replicate (nat (cs_threshold c - n)) (True, False) @
      (False, True) # replicate m (False, False))"
  using assms
proof (induction ts arbitrary: c n)
  case (Cons t ts)
  let ?c1 = "snd (ChurnSuppressor_Allow t k c)"
  have t: "0 \<le> t" "ws \<le> t" "\<not> t - ws > cs_window c" using Cons.prems by auto
  note next_phase = Allow_automaton[OF Cons.prems(1) t(1), of k]
  show ?case
  proof (cases "n + 1 > cs_threshold c")
    case True
    with next_phase Cons.prems t have step: "fst (ChurnSuppressor_Allow t k c) = (False, True)"
      "churn_phase_of ?c1 k = Cooling (t + cs_cooldown c)" "churn_inv ?c1" by auto
    have "list_all (\<lambda>t'. t' < t + cs_cooldown c) ts"
      using Cons.prems t by (auto simp: list_all_iff)
    moreover have "list_all (\<lambda>t. 0 \<le> t) ts" using Cons.prems by (auto simp: list_all_iff)
    ultimately have "fst (churn_run ?c1 (map (\<lambda>t. (t, k)) ts)) = replicate (length ts) (False, False)"
      using churn_run_same_key[OF step(3) _ _ step(2)] step(2) by simp
    with step(1) True Cons.prems show ?thesis by (simp add: split_def)
  next
    case False
    with next_phase Cons.prems t have step: "fst (ChurnSuppressor_Allow t k c) = (True, False)"
      "churn_phase_of ?c1 k = Counting (n + 1) ws" "churn_inv ?c1" by auto
    have "nat (cs_threshold c - n) = Suc (nat (cs_threshold c - (n + 1)))" using False by simp
    then show ?thesis
      using Cons.IH[OF step(3,2)] step(1) False Cons.prems by (simp add: split_def)
  qed
qed simp

text \<open>A burst of changes to one resource inside a window. With the window shorter than the
  cooldown (the defaults: ten minutes and six hours), the first \<open>threshold\<close> changes are
  reported, the next one is suppressed and classified, and every further one is suppressed
  without being classified again.\<close>

lemma ChurnSuppressor_burst:
  assumes "churn_inv c" "churn_phase_of c k = Unseen" "cs_window c < cs_cooldown c" "0 \<le> t0"
    and "list_all (\<lambda>t. t0 \<le> t \<and> t \<le> t0 + cs_window c) ts"
  shows "fst (churn_run c (map (\<lambda>t. (t, k)) (t0 # ts))) =
    take (Suc (length ts)) (replicate (nat (cs_threshold c)) (True, False) @
      (False, True) # replicate (length ts) (False, False))"
proof -
  let ?c1 = "snd (ChurnSuppressor_Allow t0 k c)"
  have step: "fst (ChurnSuppressor_Allow t0 k c) = (True, False)"
    "churn_phase_of ?c1 k = Counting 1 t0" "churn_inv ?c1"
    using Allow_automaton[OF assms(1,4), of k] assms(2) by auto
  have th: "0 < cs_threshold c" using assms(1) by (simp add: churn_inv_def)
  then have "replicate (nat (cs_threshold c)) (True, False) =
      (True, False) # replicate (nat (cs_threshold c - 1)) (True, False)"
    by (simp flip: replicate_Suc)
  with churn_burst_aux[OF step(3,2), where ts = ts and m = "length ts"] step(1) assms th
  show ?thesis by (simp add: split_def)
qed

end
