(* ===== verification/GoValue.thy ===== *)
theory GoValue
  imports Prelude
begin

text \<open>
  Go's \<open>any\<close> as the agent meets it: the tree that \<open>encoding/json\<close> builds
  (\<open>map[string]any\<close>, \<open>[]any\<close>, \<open>string\<close>, \<open>float64\<close>, \<open>bool\<close>, nil) plus the sized integers that
  Go code puts into such trees itself, with the comma-ok type assertions the code reads it
  with. Every accessor returns the zero value of its type when the assertion fails, as
  \<open>x, _ := v.(T)\<close> does.
\<close>

section \<open>Floating point\<close>

text \<open>
  A \<open>float64\<close> is a NaN, an infinity or a signed dyadic \<open>m * 2 ^ e\<close>; \<open>float_wf\<close> says that the
  mantissa is odd (or that the value is a zero), so equal values have equal representations,
  and that the value fits the binary64 format.
\<close>

datatype float64 = FNaN | FInf bool | FFin bool nat int

definition float_wf :: "float64 \<Rightarrow> bool" where
  "float_wf f = (case f of
     FNaN \<Rightarrow> True | FInf _ \<Rightarrow> True
   | FFin s m e \<Rightarrow> (m = 0 \<and> e = 0) \<or>
       (odd m \<and> m < 2 ^ 53 \<and> -1074 \<le> e \<and> (e \<le> 971 \<or> m * 2 ^ nat (e - 971) < 2 ^ 53)))"

fun strip_twos :: "nat \<Rightarrow> int \<Rightarrow> nat \<times> int" where
  "strip_twos m e = (if m = 0 then (0, 0) else if even m then strip_twos (m div 2) (e + 1) else (m, e))"

declare strip_twos.simps [simp del]

text \<open>The float that a small integer literal denotes.\<close>

definition float_of_nat :: "nat \<Rightarrow> float64" where
  "float_of_nat n = (case strip_twos n 0 of (m, e) \<Rightarrow> FFin False m e)"

text \<open>
  The conversion \<open>int(f)\<close> truncates towards zero. Outside the range of \<open>int64\<close> Go leaves the
  result to the implementation; the value here is the one amd64 produces.
\<close>

definition int_of_float :: "float64 \<Rightarrow> int" where
  "int_of_float f = (case f of
     FFin s m e \<Rightarrow>
       (let a = (if 0 \<le> e then int m * 2 ^ nat e else int m div 2 ^ nat (- e));
            x = (if s then - a else a)
        in if in_int64 x then x else min_int64)
   | _ \<Rightarrow> min_int64)"

abbreviation float_zero :: float64 where
  "float_zero \<equiv> FFin False 0 0"

lemma strip_twos_value:
  "strip_twos m e = (m', e') \<Longrightarrow> 0 \<le> e \<Longrightarrow> 0 \<le> e' \<and> int m' * 2 ^ nat e' = int m * 2 ^ nat e"
proof (induction m e arbitrary: m' e' rule: strip_twos.induct)
  case (1 m e)
  show ?case
  proof (cases "m \<noteq> 0 \<and> even m")
    case True
    with "1.prems" have "strip_twos (m div 2) (e + 1) = (m', e')"
      by (simp add: strip_twos.simps[of m e])
    with "1.IH" True "1.prems" have ih: "0 \<le> e'"
      "int m' * 2 ^ nat e' = int (m div 2) * 2 ^ nat (e + 1)" by auto
    have "nat (e + 1) = Suc (nat e)" using "1.prems"(2) by simp
    moreover have "int m = 2 * int (m div 2)" using True by presburger
    ultimately show ?thesis using ih by (simp add: algebra_simps)
  next
    case False
    with "1.prems" show ?thesis by (auto simp: strip_twos.simps[of m e] split: if_splits)
  qed
qed

lemma int_of_float_of_nat:
  assumes "int n \<le> max_int64"
  shows "int_of_float (float_of_nat n) = int n"
proof -
  obtain m e where me: "strip_twos n 0 = (m, e)" by (cases "strip_twos n 0")
  with strip_twos_value[OF me] have "0 \<le> e" "int m * 2 ^ nat e = int n" by auto
  with me assms show ?thesis
    by (simp add: int_of_float_def float_of_nat_def int64_defs)
qed

section \<open>Values\<close>

datatype gval =
    VNil
  | VBool bool
  | VInt int
  | VUint nat
  | VFloat float64
  | VStr string
  | VArr "gval list"
  | VObj "(string \<times> gval) list"
  | VOther string

type_synonym gmap = "(string, gval) gomap"

definition as_map :: "gval \<Rightarrow> gmap option" where
  [go_defs]: "as_map v = (case v of VObj m \<Rightarrow> Some m | _ \<Rightarrow> None)"

definition as_arr :: "gval \<Rightarrow> gval list" where
  [go_defs]: "as_arr v = (case v of VArr xs \<Rightarrow> xs | _ \<Rightarrow> [])"

definition as_str :: "gval \<Rightarrow> string" where
  [go_defs]: "as_str v = (case v of VStr s \<Rightarrow> s | _ \<Rightarrow> [])"

definition as_bool :: "gval \<Rightarrow> bool" where
  [go_defs]: "as_bool v = (case v of VBool b \<Rightarrow> b | _ \<Rightarrow> False)"

definition as_float :: "gval \<Rightarrow> float64" where
  [go_defs]: "as_float v = (case v of VFloat f \<Rightarrow> f | _ \<Rightarrow> float_zero)"

text \<open>Indexing a map: the nil interface when the key is absent, also on a nil map.\<close>

definition mget :: "gmap \<Rightarrow> string \<Rightarrow> gval" where
  [go_defs]: "mget m k = (case map_of m k of None \<Rightarrow> VNil | Some v \<Rightarrow> v)"

definition omget :: "gmap option \<Rightarrow> string \<Rightarrow> gval" where
  [go_defs]: "omget om k = (case om of None \<Rightarrow> VNil | Some m \<Rightarrow> mget m k)"

definition mhas :: "gmap option \<Rightarrow> string \<Rightarrow> bool" where
  [go_defs]: "mhas om k = (case om of None \<Rightarrow> False | Some m \<Rightarrow> map_of m k \<noteq> None)"

abbreviation get_map :: "gmap \<Rightarrow> string \<Rightarrow> gmap option" where
  "get_map m k \<equiv> as_map (mget m k)"

abbreviation oget_map :: "gmap option \<Rightarrow> string \<Rightarrow> gmap option" where
  "oget_map om k \<equiv> as_map (omget om k)"

abbreviation oget_str :: "gmap option \<Rightarrow> string \<Rightarrow> string" where
  "oget_str om k \<equiv> as_str (omget om k)"

abbreviation oget_arr :: "gmap option \<Rightarrow> string \<Rightarrow> gval list" where
  "oget_arr om k \<equiv> as_arr (omget om k)"

lemma as_simps [simp]:
  "as_map (VObj m) = Some m" "as_map VNil = None" "as_str (VStr s) = s" "as_str VNil = []"
  "as_arr (VArr xs) = xs" "as_arr VNil = []" "as_bool (VBool b) = b" "as_bool VNil = False"
  "as_float (VFloat f) = f" "as_map (VStr s) = None" "as_map (VArr xs) = None"
  by (simp_all add: go_defs)

lemma as_map_Some_iff: "as_map v = Some m \<longleftrightarrow> v = VObj m"
  by (cases v) (auto simp: go_defs)

lemma omget_simps [simp]: "omget None k = VNil" "omget (Some m) k = mget m k"
  by (simp_all add: go_defs)

lemma mget_Nil [simp]: "mget [] k = VNil"
  by (simp add: go_defs)

lemma mget_Cons [simp]: "mget ((k', v) # m) k = (if k = k' then v else mget m k)"
  by (simp add: go_defs)

lemma mget_put [simp]: "mget (map_put k v m) k' = (if k' = k then v else mget m k')"
  by (simp add: go_defs)

lemma mget_del [simp]: "mget (map_del k m) k' = (if k' = k then VNil else mget m k')"
  by (simp add: go_defs)

text \<open>Keys are unique at every level of a value that is a real Go value.\<close>

fun wf_gval :: "gval \<Rightarrow> bool" where
  "wf_gval (VArr xs) = list_all wf_gval xs"
| "wf_gval (VObj m) = (distinct (map fst m) \<and> list_all (\<lambda>p. wf_gval (snd p)) m)"
| "wf_gval _ = True"

lemma wf_gval_mget: "wf_gval (VObj m) \<Longrightarrow> wf_gval (mget m k)"
  by (auto simp: go_defs list_all_iff split: option.splits dest!: map_of_SomeD)

section \<open>Equality of JSON values\<close>

text \<open>
  \<open>json.Marshal\<close> writes object members sorted by key and is injective on JSON values beyond
  that, so comparing encodings compares the values with their members sorted.
\<close>

fun jnorm :: "gval \<Rightarrow> gval" where
  "jnorm (VArr xs) = VArr (map jnorm xs)"
| "jnorm (VObj m) = VObj (sort_key fst (map (\<lambda>p. (fst p, jnorm (snd p))) m))"
| "jnorm v = v"

lemma jnorm_eq_nonobj:
  "jnorm v = VNil \<longleftrightarrow> v = VNil"
  by (cases v) auto

lemma map_of_sort_key_fst:
  "distinct (map fst m) \<Longrightarrow> map_of (sort_key fst m) = map_of m"
  by (intro map_of_inject_set[THEN iffD2]) (auto simp: distinct_map inj_on_def)

lemma map_of_jnorm_members:
  "map_of (map (\<lambda>p. (fst p, jnorm (snd p))) m) k = map_option jnorm (map_of m k)"
  by (rule map_of_map_snd)

end
