(* ===== verification/Owner.thy ===== *)
theory Owner
  imports GoValue
begin

text \<open>
  \<open>pkg/triggers/owner.go\<close>: the workload identity of a watched object. The three regular
  expressions of the file are anchored at the end of the text, so each is modelled by the test
  it makes on the tail of the name. The theory proves which owner reference is chosen, that
  every run of a job shares one family name, and that a family name is a non-empty prefix.
\<close>

record owner_ref =
  owner_name :: string
  owner_kind :: string

definition no_owner :: owner_ref where
  "no_owner = \<lparr>owner_name = [], owner_kind = []\<rparr>"

section \<open>Suffixes\<close>

text \<open>The text before and after the last occurrence of a byte.\<close>

definition cut_last :: "char \<Rightarrow> string \<Rightarrow> (string \<times> string) option" where
  "cut_last c s = (case dropWhile (\<lambda>x. x \<noteq> c) (rev s) of
     [] \<Rightarrow> None
   | _ # p \<Rightarrow> Some (rev p, rev (takeWhile (\<lambda>x. x \<noteq> c) (rev s))))"

definition hash_alphabet :: "char set" where
  "hash_alphabet = set ''bcdfghjklmnpqrstvwxz2456789''"

definition is_lower_hex :: "char \<Rightarrow> bool" where
  "is_lower_hex c \<longleftrightarrow> is_digit c \<or> c \<in> set ''abcdef''"

text \<open>\<open>-[bcdfghjklmnpqrstvwxz2456789]{8,12}$\<close>\<close>

definition podTemplateHashSuffix :: "string \<Rightarrow> bool" where
  "podTemplateHashSuffix t \<longleftrightarrow> list_all (\<lambda>c. c \<in> hash_alphabet) t \<and> 8 \<le> length t \<and> length t \<le> 12"

text \<open>\<open>-([0-9]{5,}|[0-9a-f]{8,})$\<close>\<close>

definition generatedJobSuffix :: "string \<Rightarrow> bool" where
  "generatedJobSuffix t \<longleftrightarrow>
     (list_all is_digit t \<and> 5 \<le> length t) \<or> (list_all is_lower_hex t \<and> 8 \<le> length t)"

text \<open>\<open>-[0-9a-f]{8}-[0-9a-f]{4}-[0-9a-f]{4}-[0-9a-f]{4}-[0-9a-f]{12}$\<close>\<close>

definition uuid_tail :: string where
  "uuid_tail = ''-xxxxxxxx-xxxx-xxxx-xxxx-xxxxxxxxxxxx''"

definition generatedUUIDSuffix :: "string \<Rightarrow> bool" where
  "generatedUUIDSuffix s \<longleftrightarrow> 37 \<le> length s \<and>
     list_all2 (\<lambda>p c. if p = CHR ''x'' then is_lower_hex c else c = p) uuid_tail (drop (length s - 37) s)"

definition strip_tail :: "(string \<Rightarrow> bool) \<Rightarrow> string \<Rightarrow> string" where
  "strip_tail P s = (case cut_last CHR ''-'' s of
     None \<Rightarrow> s | Some (p, t) \<Rightarrow> if P t then p else s)"

definition stripPodTemplateHash :: "string \<Rightarrow> string" where
  "stripPodTemplateHash name = strip_tail podTemplateHashSuffix name"

definition JobFamily :: "string \<Rightarrow> string" where
  "JobFamily name =
     (let stripped = (if generatedUUIDSuffix name then take (length name - 37) name else name);
          stripped = strip_tail generatedJobSuffix stripped
      in if stripped = [] then name else stripped)"

section \<open>Owner references\<close>

definition canonicalOwner :: "string \<Rightarrow> string \<Rightarrow> gmap option \<Rightarrow> owner_ref" where
  "canonicalOwner kind name labels =
     (let lk = to_lower kind in
      if lk = ''replicaset'' then
        (let hash = oget_str labels ''rollouts-pod-template-hash'' in
         if hash \<noteq> [] then \<lparr>owner_name = trim_suffix name (''-'' @ hash), owner_kind = ''rollout''\<rparr>
         else \<lparr>owner_name = stripPodTemplateHash name, owner_kind = ''deployment''\<rparr>)
      else \<lparr>owner_name = name, owner_kind = lk\<rparr>)"

text \<open>
  A reference is passed over when it is not an object, when \<open>controller\<close> is false, or when its
  name or kind is missing; the first one left is the owner.
\<close>

definition ref_accepted :: "gval \<Rightarrow> bool" where
  "ref_accepted r = (case as_map r of
     None \<Rightarrow> False
   | Some ref \<Rightarrow> \<not> (mget ref ''controller'' = VBool False) \<and>
       as_str (mget ref ''name'') \<noteq> [] \<and> as_str (mget ref ''kind'') \<noteq> [])"

definition ResolveOwner :: "gmap \<Rightarrow> owner_ref" where
  "ResolveOwner obj = (case get_map obj ''metadata'' of
     None \<Rightarrow> no_owner
   | Some meta \<Rightarrow>
       (case find ref_accepted (oget_arr (Some meta) ''ownerReferences'') of
          None \<Rightarrow> no_owner
        | Some r \<Rightarrow> canonicalOwner (oget_str (as_map r) ''kind'') (oget_str (as_map r) ''name'')
            (get_map meta ''labels'')))"

definition SubjectFromObj :: "string \<Rightarrow> gmap \<Rightarrow> string \<times> string \<times> string \<times> string" where
  "SubjectFromObj kind obj =
     (let meta = get_map obj ''metadata'';
          name = oget_str meta ''name'';
          namespace = oget_str meta ''namespace'';
          lowerKind = to_lower kind;
          node = (if lowerKind = ''pod'' then oget_str (get_map obj ''spec'') ''nodeName'' else [])
      in (name, namespace, lowerKind, node))"

section \<open>Names\<close>

lemma cut_last_append: "c \<notin> set t \<Longrightarrow> cut_last c (p @ c # t) = Some (p, t)"
proof -
  assume t: "c \<notin> set t"
  then have "dropWhile (\<lambda>x. x \<noteq> c) (rev (p @ c # t)) = c # rev p"
    by (simp add: dropWhile_append)
  moreover have "takeWhile (\<lambda>x. x \<noteq> c) (rev (p @ c # t)) = rev t"
    using t by (simp add: takeWhile_append)
  ultimately show ?thesis by (simp add: cut_last_def)
qed

lemma cut_last_Some: "cut_last c s = Some (p, t) \<Longrightarrow> s = p @ c # t \<and> c \<notin> set t"
proof -
  assume a: "cut_last c s = Some (p, t)"
  then obtain x where d: "dropWhile (\<lambda>x. x \<noteq> c) (rev s) = x # rev p" and
    t: "t = rev (takeWhile (\<lambda>x. x \<noteq> c) (rev s))"
    by (auto simp: cut_last_def split: list.splits)
  have "x = c" using d by (metis (mono_tags, lifting) dropWhile_eq_Cons_conv)
  moreover have "rev s = takeWhile (\<lambda>x. x \<noteq> c) (rev s) @ x # rev p"
    using d by (metis takeWhile_dropWhile_id)
  then have "s = p @ x # t" using t by (metis append.assoc append_Cons append_Nil rev.simps(2) rev_append rev_rev_ident)
  moreover have "c \<notin> set t" using t by (auto dest: set_takeWhileD)
  ultimately show ?thesis by simp
qed

lemma strip_tail_prefix: "prefix (strip_tail P s) s"
  by (auto simp: strip_tail_def split: option.splits dest!: cut_last_Some)

lemma strip_tail_hit: "P t \<Longrightarrow> CHR ''-'' \<notin> set t \<Longrightarrow> strip_tail P (p @ CHR ''-'' # t) = p"
  by (simp add: strip_tail_def cut_last_append)

lemma strip_tail_miss: "\<not> P t \<Longrightarrow> CHR ''-'' \<notin> set t \<Longrightarrow> strip_tail P (p @ CHR ''-'' # t) = p @ CHR ''-'' # t"
  by (simp add: strip_tail_def cut_last_append)

lemma uuid_tail_props: "length uuid_tail = 37" "uuid_tail ! 24 = CHR ''-''"
  "\<forall>i\<in>{25..<37}. uuid_tail ! i = CHR ''x''"
  by (simp_all add: uuid_tail_def) (simp add: atLeastLessThan_upt upt_rec)

text \<open>The last group of a name that ends in a UUID is exactly twelve characters long.\<close>

lemma uuid_last_group:
  assumes "generatedUUIDSuffix (p @ CHR ''-'' # t)" "CHR ''-'' \<notin> set t"
  shows "length t = 12"
proof -
  define s where "s = p @ CHR ''-'' # t"
  let ?u = "drop (length s - 37) s"
  have len: "37 \<le> length s" and m: "list_all2 (\<lambda>p c. if p = CHR ''x'' then is_lower_hex c else c = p) uuid_tail ?u"
    using assms(1) by (auto simp: generatedUUIDSuffix_def s_def)
  have at: "?u ! i = s ! (length s - 37 + i)" for i
    using len by (intro nth_drop) simp
  have sums: "length s - 37 + 24 = length s - 13" "length s - 37 + (25 + i) = length s - 12 + i" for i
    using len by simp_all
  have dash: "s ! (length s - 13) = CHR ''-''"
    using list_all2_nthD[OF m, of 24] uuid_tail_props at[of 24] sums(1) by simp
  have nodash: "s ! (length s - 12 + i) \<noteq> CHR ''-''" if "i < 12" for i
  proof -
    have "is_lower_hex (?u ! (25 + i))"
      using list_all2_nthD[OF m, of "25 + i"] that uuid_tail_props by auto
    then have "is_lower_hex (s ! (length s - 12 + i))" by (simp only: at sums(2))
    then show ?thesis by (auto simp: is_lower_hex_def is_digit_def)
  qed
  show ?thesis
  proof (rule ccontr)
    assume "length t \<noteq> 12"
    then consider "length t < 12" | "12 < length t" by linarith
    then show False
    proof cases
      case 1
      have "length s - 12 + (11 - length t) = length p" using 1 len by (simp add: s_def)
      then have "s ! (length s - 12 + (11 - length t)) = CHR ''-''" by (simp add: s_def)
      moreover have "11 - length t < 12" by simp
      ultimately show False using nodash by blast
    next
      case 2
      have "length s - 13 = Suc (length p) + (length t - 13)" using 2 by (simp add: s_def)
      moreover have "s ! (Suc (length p) + (length t - 13)) = t ! (length t - 13)"
        by (simp add: s_def nth_append)
      ultimately have "s ! (length s - 13) = t ! (length t - 13)" by (simp only:)
      moreover have "t ! (length t - 13) \<in> set t" using 2 by simp
      ultimately show False using dash assms(2) by simp
    qed
  qed
qed

lemma JobFamily_prefix: "prefix (JobFamily name) name"
proof -
  let ?u = "if generatedUUIDSuffix name then take (length name - 37) name else name"
  have "prefix ?u name" by (simp add: take_is_prefix)
  with strip_tail_prefix[of generatedJobSuffix ?u] have "prefix (strip_tail generatedJobSuffix ?u) name"
    by (rule prefix_order.trans)
  then show ?thesis by (simp add: JobFamily_def Let_def)
qed

lemma digits_no_dash: "list_all is_digit t \<Longrightarrow> CHR ''-'' \<notin> set t"
  by (auto simp: list_all_iff is_digit_def)

lemma JobFamily_digits:
  assumes "base \<noteq> []" "list_all is_digit t" "5 \<le> length t" "length t \<noteq> 12"
  shows "JobFamily (base @ CHR ''-'' # t) = base"
proof -
  have "\<not> generatedUUIDSuffix (base @ CHR ''-'' # t)"
    using uuid_last_group[of base t] digits_no_dash[OF assms(2)] assms(4) by blast
  with assms digits_no_dash[OF assms(2)] show ?thesis
    by (simp add: JobFamily_def strip_tail_hit generatedJobSuffix_def)
qed

text \<open>Every run of a CronJob shares one family. A Job name is the CronJob's name, a dash and
  a schedule stamp of at least five digits (twelve are taken for a UUID group); the family of
  any such name is the CronJob's name, so two runs never look like two different problems,
  and a family name is always a prefix of the name and never empty for a named Job.\<close>

lemma JobFamily_runs_share_family:
  assumes "base \<noteq> []"
    and "5 \<le> length (nat_dec m)" "length (nat_dec m) \<noteq> 12"
    and "5 \<le> length (nat_dec n)" "length (nat_dec n) \<noteq> 12"
  shows "JobFamily (base @ ''-'' @ nat_dec m) = base \<and>
    JobFamily (base @ ''-'' @ nat_dec n) = JobFamily (base @ ''-'' @ nat_dec m) \<and>
    (name \<noteq> [] \<longrightarrow> JobFamily name \<noteq> [] \<and> prefix (JobFamily name) name)"
proof -
  have d: "list_all is_digit (nat_dec i)" for i by (simp add: list_all_iff nat_dec_digits)
  have "name \<noteq> [] \<longrightarrow> JobFamily name \<noteq> []" by (simp add: JobFamily_def Let_def)
  with JobFamily_digits[OF assms(1) d] JobFamily_prefix assms show ?thesis by auto
qed

text \<open>Which owner is resolved. The first reference that is an object, is not marked
  \<open>controller: false\<close> and names a kind and a name wins; a reference without the
  \<open>controller\<close> field is therefore taken even when a later reference is the controlling one.\<close>

lemma ResolveOwner_first_accepted:
  assumes "get_map obj ''metadata'' = Some meta"
    and "mget meta ''ownerReferences'' = VArr (pre @ r # post)"
    and "list_all (\<lambda>x. \<not> ref_accepted x) pre" "as_map r = Some ref" "ref_accepted r"
  shows "ResolveOwner obj = canonicalOwner (as_str (mget ref ''kind'')) (as_str (mget ref ''name''))
    (get_map meta ''labels'')"
proof -
  have "find ref_accepted (pre @ r # post) = Some r"
    using assms(3,5) by (induction pre) auto
  with assms show ?thesis by (simp add: ResolveOwner_def)
qed

section \<open>Workloads\<close>

lemma hash_no_dash: "podTemplateHashSuffix t \<Longrightarrow> CHR ''-'' \<notin> set t"
proof -
  have "CHR ''-'' \<notin> hash_alphabet" by (simp add: hash_alphabet_def)
  then show "podTemplateHashSuffix t \<Longrightarrow> CHR ''-'' \<notin> set t"
    by (auto simp: podTemplateHashSuffix_def list_all_iff)
qed

lemma canonicalOwner_replicaset:
  assumes "to_lower kind = ''replicaset''" "oget_str labels ''rollouts-pod-template-hash'' = []"
    and "podTemplateHashSuffix t"
  shows "canonicalOwner kind (dep @ CHR ''-'' # t) labels = \<lparr>owner_name = dep, owner_kind = ''deployment''\<rparr>"
  using assms by (simp add: canonicalOwner_def stripPodTemplateHash_def strip_tail_hit hash_no_dash)

lemma canonicalOwner_rollout:
  assumes "to_lower kind = ''replicaset''" "oget_str labels ''rollouts-pod-template-hash'' = h" "h \<noteq> []"
  shows "canonicalOwner kind (ro @ ''-'' @ h) labels = \<lparr>owner_name = ro, owner_kind = ''rollout''\<rparr>"
  using assms trim_suffix_append[of ro "''-'' @ h"] by (simp add: canonicalOwner_def)

end
