(* ===== verification/TriggerTypes.thy ===== *)
theory TriggerTypes
  imports GoValue GoTime Owner
begin

text \<open>
  \<open>pkg/triggers/types.go\<close> and the helpers every matcher shares. The function-valued fields of
  a \<open>MatcherSpec\<close> are HOL functions; a nil field is \<open>None\<close>. The ones that read the clock
  (\<open>time.Now\<close>, \<open>time.Since\<close>) take the reading as their first argument. The listers talk to the
  Kubernetes API and are parameters of the model: \<open>None\<close> is an error return.
\<close>

record incoming_event =
  ev_Operation :: string
  ev_Kind :: string
  ev_Obj :: "gmap option"
  ev_OldObj :: "gmap option"

record k8s_event =
  ke_Type :: string
  ke_Reason :: string
  ke_Message :: string
  ke_Count :: int
  ke_FirstSeen :: time
  ke_LastSeen :: time
  ke_Source :: string

record pod_label_sample =
  pls_Name :: string
  pls_Labels :: "(string, string) gomap"

type_synonym events_lister = "string \<Rightarrow> string \<Rightarrow> string \<Rightarrow> int \<Rightarrow> k8s_event list option"

record service_backends =
  sb_AnyPodMatching :: "string \<Rightarrow> (string, string) gomap \<Rightarrow> bool option"
  sb_AnyWorkloadTemplateMatching :: "string \<Rightarrow> (string, string) gomap \<Rightarrow> bool option"
  sb_ListPodLabels :: "string \<Rightarrow> int \<Rightarrow> pod_label_sample list option"

record enrich_context =
  ec_EventsLister :: "events_lister option"
  ec_ServiceBackends :: "service_backends option"

type_synonym evidence_block = gmap

record matcher_spec =
  ms_Name :: string
  ms_Kind :: string
  ms_Operations :: "string list"
  ms_Predicate :: "(time \<Rightarrow> gmap \<Rightarrow> gmap option \<Rightarrow> bool) option"
  ms_PredicateCtx :: "(time \<Rightarrow> gmap \<Rightarrow> gmap option \<Rightarrow> enrich_context \<Rightarrow> bool) option"
  ms_RecoveryPredicate :: "(time \<Rightarrow> gmap \<Rightarrow> gmap option \<Rightarrow> bool) option"
  ms_AggregationKey :: string
  ms_Priority :: string
  ms_FindingType :: string
  ms_RateLimit :: duration
  ms_FingerprintFn :: "(time \<Rightarrow> gmap \<Rightarrow> string) option"
  ms_OccurrenceKeyFn :: "(gmap \<Rightarrow> string) option"
  ms_SuppressChurn :: bool
  ms_SuppressOnResync :: bool
  ms_EnrichBlocks :: "(time \<Rightarrow> gmap \<Rightarrow> gmap option \<Rightarrow> enrich_context \<Rightarrow> evidence_block list) option"

record trigger_match =
  m_Spec :: matcher_spec
  m_Fingerprint :: string
  m_OccurrenceKey :: string
  m_Owner :: owner_ref
  m_SubjectName :: string
  m_SubjectNamespace :: string
  m_SubjectKind :: string
  m_SubjectNode :: string
  m_ExtraBlocks :: "evidence_block list"

definition metaName :: "gmap \<Rightarrow> string" where
  "metaName obj = oget_str (get_map obj ''metadata'') ''name''"

definition metaNS :: "gmap \<Rightarrow> string" where
  "metaNS obj = oget_str (get_map obj ''metadata'') ''namespace''"

definition markdownBlock :: "string \<Rightarrow> evidence_block" where
  "markdownBlock t = [(''type'', VStr ''markdown''), (''data'', VStr t), (''additional_info'', VNil)]"

definition headerBlock :: "string \<Rightarrow> evidence_block" where
  "headerBlock t = [(''type'', VStr ''header''), (''data'', VStr t), (''additional_info'', VNil)]"

text \<open>
  \<open>fp\<close> joins its parts with colons and hashes them; \<open>sha256hex\<close> stands for the hexadecimal
  SHA-256 digest and is a parameter of everything that fingerprints.
\<close>

definition fp :: "(string \<Rightarrow> string) \<Rightarrow> string list \<Rightarrow> string" where
  "fp sha256hex parts = sha256hex (join '':'' parts)"

text \<open>
  Parts are kept apart by the separator: when no part but the last holds a colon, equal
  joined texts come from equal parts.
\<close>

lemma split1_last_eq:
  assumes "xs @ split1 c u = ys @ split1 c v" "length xs = length ys"
  shows "xs = ys \<and> u = v"
proof -
  have "xs = ys \<and> split1 c u = split1 c v" using assms by simp
  then show ?thesis by (metis join_split1)
qed

lemma join_inj:
  assumes "join [c] xs = join [c] ys" "length xs = length ys" "xs \<noteq> []"
    and "\<forall>x\<in>set (butlast xs). c \<notin> set x" "\<forall>y\<in>set (butlast ys). c \<notin> set y"
  shows "xs = ys"
proof -
  have ne: "ys \<noteq> []" using assms(2,3) by auto
  have "butlast xs @ split1 c (last xs) = butlast ys @ split1 c (last ys)"
    using split1_join[OF assms(3,4)] split1_join[OF ne assms(5)] assms(1) by simp
  from split1_last_eq[OF this] assms(2) have "butlast xs = butlast ys" "last xs = last ys" by auto
  then show ?thesis using assms(3) ne by (metis append_butlast_last_id)
qed

end
