(* ===== verification/Snake.thy ===== *)
theory Snake
  imports GoValue
begin

text \<open>
  \<open>pkg/kube/snake.go\<close>: the camelCase to snake_case renaming of map keys that
  \<open>get_resource\<close> output and the rendered diffs go through. Field names are ASCII, so the
  predicates of package \<open>unicode\<close> are the ASCII ones.
\<close>

definition is_upper :: "char \<Rightarrow> bool" where
  "is_upper c \<longleftrightarrow> 65 \<le> (of_char c :: nat) \<and> (of_char c :: nat) \<le> 90"

definition is_lower :: "char \<Rightarrow> bool" where
  "is_lower c \<longleftrightarrow> 97 \<le> (of_char c :: nat) \<and> (of_char c :: nat) \<le> 122"

text \<open>The loop over the runes, with the previous rune (none at index 0).\<close>

fun snake_loop :: "char option \<Rightarrow> string \<Rightarrow> string" where
  "snake_loop prev [] = []"
| "snake_loop None (r # rs) = lower_char r # snake_loop (Some r) rs"
| "snake_loop (Some p) (r # rs) =
     (if is_upper r \<and>
         (is_lower p \<or> is_digit p \<or> (case rs of [] \<Rightarrow> False | n # _ \<Rightarrow> is_lower n))
      then [CHR ''_''] else []) @ lower_char r # snake_loop (Some r) rs"

definition snake_skip :: "string \<Rightarrow> bool" where
  "snake_skip s \<longleftrightarrow> (\<exists>c\<in>set s. c \<in> set ''_./-:'')"

definition toSnakeCase :: "string \<Rightarrow> string" where
  "toSnakeCase s = (if s = [] then s else if snake_skip s then s else snake_loop None s)"

definition userDataContainerFields :: "string list" where
  "userDataContainerFields = [''labels'', ''annotations'', ''match_labels'', ''node_selector'',
     ''data'', ''string_data'', ''binary_data'', ''sysctls'']"

definition isUserDataContainer :: "string \<Rightarrow> bool" where
  "isUserDataContainer field \<longleftrightarrow> field \<in> set userDataContainerFields"

fun convertWithParent :: "gval \<Rightarrow> string \<Rightarrow> gval" where
  "convertWithParent (VObj m) parentField =
     (if isUserDataContainer parentField then VObj (map_from_pairs m)
      else VObj (map_from_pairs
        (map (\<lambda>p. (toSnakeCase (fst p), convertWithParent (snd p) (toSnakeCase (fst p)))) m)))"
| "convertWithParent (VArr xs) parentField = VArr (map (\<lambda>x. convertWithParent x parentField) xs)"
| "convertWithParent v parentField = v"

definition SnakeKeysDeep :: "gval \<Rightarrow> gval" where
  "SnakeKeysDeep v = convertWithParent v []"

section \<open>Idempotence\<close>

lemma is_upper_lower_char [simp]: "\<not> is_upper (lower_char c)"
  by (auto simp: is_upper_def lower_char_def)

lemma lower_char_not_upper: "\<not> is_upper c \<Longrightarrow> lower_char c = c"
  by (auto simp: is_upper_def lower_char_def)

lemma snake_loop_lower: "list_all (\<lambda>c. \<not> is_upper c) s \<Longrightarrow> snake_loop p s = s"
  by (induction p s rule: snake_loop.induct) (auto simp: lower_char_not_upper)

lemma snake_loop_not_upper: "list_all (\<lambda>c. \<not> is_upper c) (snake_loop p s)"
proof -
  have "\<not> is_upper CHR ''_''" by (simp add: is_upper_def)
  then show ?thesis by (induction p s rule: snake_loop.induct) auto
qed

lemma toSnakeCase_idem [simp]: "toSnakeCase (toSnakeCase s) = toSnakeCase s"
proof (cases "s = [] \<or> snake_skip s")
  case True
  then show ?thesis by (auto simp: toSnakeCase_def)
next
  case False
  then have "toSnakeCase s = snake_loop None s" by (simp add: toSnakeCase_def)
  moreover have "toSnakeCase (snake_loop None s) = snake_loop None s"
    using snake_loop_lower[OF snake_loop_not_upper, of None None s] by (simp add: toSnakeCase_def)
  ultimately show ?thesis by simp
qed

lemma convert_fixed_members:
  assumes "distinct (map fst m)"
    and "\<And>k v. (k, v) \<in> set m \<Longrightarrow> toSnakeCase k = k \<and> convertWithParent v k = v"
  shows "map_from_pairs
    (map (\<lambda>p. (toSnakeCase (fst p), convertWithParent (snd p) (toSnakeCase (fst p)))) m) = m"
proof -
  have "map (\<lambda>p. (toSnakeCase (fst p), convertWithParent (snd p) (toSnakeCase (fst p)))) m = m"
    by (intro map_idI) (use assms(2) in force)
  with assms(1) show ?thesis by (simp add: map_from_pairs_distinct)
qed

lemma convertWithParent_idem:
  "wf_gval v \<Longrightarrow> convertWithParent (convertWithParent v f) f = convertWithParent v f"
proof (induction v f rule: convertWithParent.induct)
  case (1 m f)
  show ?case
  proof (cases "isUserDataContainer f")
    case True
    with "1.prems" show ?thesis by (simp add: map_from_pairs_distinct)
  next
    case False
    let ?ps = "map (\<lambda>p. (toSnakeCase (fst p), convertWithParent (snd p) (toSnakeCase (fst p)))) m"
    have "toSnakeCase k = k \<and> convertWithParent v k = v" if kv: "(k, v) \<in> set (map_from_pairs ?ps)" for k v
    proof -
      from kv have "(k, v) \<in> set ?ps" using set_map_from_pairs by blast
      then obtain p where p: "p \<in> set m" "k = toSnakeCase (fst p)"
        "v = convertWithParent (snd p) (toSnakeCase (fst p))" by auto
      with "1.prems" have "wf_gval (snd p)" by (auto simp: list_all_iff)
      with "1.IH"[OF False p(1)] p show ?thesis by simp
    qed
    moreover have "distinct (map fst (map_from_pairs ?ps))"
      using wf_map_from_pairs[of ?ps] by (simp add: wf_map_def)
    ultimately have "map_from_pairs (map (\<lambda>p. (toSnakeCase (fst p),
        convertWithParent (snd p) (toSnakeCase (fst p)))) (map_from_pairs ?ps)) = map_from_pairs ?ps"
      by (rule convert_fixed_members[rotated]) blast
    with False show ?thesis by simp
  qed
qed (auto simp: list_all_iff)

text \<open>Renaming is idempotent, on one key and on a whole tree. A payload that already went
  through \<open>SnakeKeysDeep\<close> (or that was snake_case to begin with) is not changed again, and
  keys of user-data containers are never renamed.\<close>

lemma SnakeKeysDeep_idempotent:
  assumes "wf_gval v"
  shows "SnakeKeysDeep (SnakeKeysDeep v) = SnakeKeysDeep v \<and>
    toSnakeCase (toSnakeCase k) = toSnakeCase k \<and>
    (isUserDataContainer f \<and> v = VObj m \<longrightarrow> convertWithParent v f = v)"
  using convertWithParent_idem[OF assms, of "[]"] assms
  by (auto simp: SnakeKeysDeep_def map_from_pairs_distinct)

end
