(* ===== verification/Diff.thy ===== *)
theory Diff
  imports TriggerTypes Snake
begin

text \<open>
  \<open>pkg/triggers/diff.go\<close>: the path-level diff of two Kubernetes objects, its field filters, and
  the evidence block built from it. The YAML encoder (\<open>sigs.k8s.io/yaml\<close>) and the line matcher
  (\<open>go-difflib\<close>) are third-party code and are parameters. A slice or index out of range is the
  value \<open>None\<close>. The theory proves that the diff lists exactly the leaf-level changes, that the
  filters report nothing when the monitored fields are unchanged, that a truncated value is cut
  between runes, and that the excerpts of a large value never panic and stay bounded.
\<close>

section \<open>Diffs\<close>

record diff_entry =
  de_Path :: string
  de_Before :: gval
  de_After :: gval

record spec_diff_options =
  FieldsToMonitor :: "string list"
  FieldsToOmit :: "string list"

definition lastAppliedAnnotation :: string where
  "lastAppliedAnnotation = ''kubectl.kubernetes.io/last-applied-configuration''"

definition DefaultSpecDiffOptions :: spec_diff_options where
  "DefaultSpecDiffOptions = \<lparr>FieldsToMonitor = [''spec'', ''spec.replicas''],
     FieldsToOmit = [''status'', ''metadata.generation'', ''metadata.resourceVersion'', ''metadata.managedFields'']\<rparr>"

definition ConfigMapDiffOptions :: spec_diff_options where
  "ConfigMapDiffOptions = \<lparr>FieldsToMonitor = [''data'', ''binaryData''], FieldsToOmit = []\<rparr>"

definition IngressDiffOptions :: spec_diff_options where
  "IngressDiffOptions = \<lparr>FieldsToMonitor = [''spec'', ''metadata.annotations''],
     FieldsToOmit = [''status'', ''metadata.generation'', ''metadata.resourceVersion'', ''metadata.managedFields'',
       ''metadata.annotations.'' @ lastAppliedAnnotation]\<rparr>"

definition jsonEqual :: "gval \<Rightarrow> gval \<Rightarrow> bool" where
  "jsonEqual a b \<longleftrightarrow> jnorm a = jnorm b"

definition unionKeys :: "gmap \<Rightarrow> gmap \<Rightarrow> string list" where
  "unionKeys a b = sort_strings (remdups (map_keys a @ map_keys b))"

definition joinPath :: "string \<Rightarrow> string \<Rightarrow> string" where
  "joinPath pre key = (if pre = [] then key else pre @ ''.'' @ key)"

definition indexPath :: "string \<Rightarrow> nat \<Rightarrow> string" where
  "indexPath pre i = pre @ ''['' @ nat_dec i @ '']''"

definition nth_or_nil :: "gval list \<Rightarrow> nat \<Rightarrow> gval" where
  "nth_or_nil xs i = (if i < length xs then xs ! i else VNil)"

lemma size_mget_less: "size (mget m k) < size (VObj m)"
  by (auto simp: go_defs split: option.splits dest!: map_of_SomeD size_list_estimation'[OF _ le_refl, of _ _ "size_prod (\<lambda>_. 0) size"])

lemma size_nth_or_nil_less: "size (nth_or_nil xs i) < size (VArr xs)"
  by (auto simp: nth_or_nil_def less_Suc_eq_le intro: size_list_estimation'[OF nth_mem])

lemma size_mget_add_less:
  "size (mget b k) + size (mget a k') < Suc (Suc (size_list (size_prod (\<lambda>x. 0) size) b + size_list (size_prod (\<lambda>x. 0) size) a))"
  using size_mget_less[of b k] size_mget_less[of a k'] by simp

lemma size_nth_add_less:
  "size (nth_or_nil b i) + size (nth_or_nil a j) < Suc (Suc (size_list size b + size_list size a))"
  using size_nth_or_nil_less[of b i] size_nth_or_nil_less[of a j] by simp

function walkDiff :: "string \<Rightarrow> gval \<Rightarrow> gval \<Rightarrow> diff_entry list" where
  "walkDiff path before after =
     (if jsonEqual before after then []
      else case (before, after) of
        (VObj bMap, VObj aMap) \<Rightarrow>
          concat (map (\<lambda>k. walkDiff (joinPath path k) (mget bMap k) (mget aMap k)) (unionKeys bMap aMap))
      | (VArr bArr, VArr aArr) \<Rightarrow>
          concat (map (\<lambda>i. walkDiff (indexPath path i) (nth_or_nil bArr i) (nth_or_nil aArr i))
            [0..<max (length bArr) (length aArr)])
      | _ \<Rightarrow> [\<lparr>de_Path = path, de_Before = before, de_After = after\<rparr>])"
  by pat_completeness auto
termination
  by (relation "measure (\<lambda>(path, b, a). size b + size a)")
    (auto intro: size_mget_add_less size_nth_add_less)

declare walkDiff.simps [simp del]

definition pathMatchesAny :: "string \<Rightarrow> string list \<Rightarrow> bool" where
  "pathMatchesAny path ps \<longleftrightarrow>
     (\<exists>p\<in>set ps. path = p \<or> has_prefix path (p @ ''.'') \<or> has_prefix path (p @ ''[''))"

definition filterDiffs :: "diff_entry list \<Rightarrow> spec_diff_options \<Rightarrow> diff_entry list" where
  "filterDiffs diffs opt = filter (\<lambda>d. pathMatchesAny (de_Path d) (FieldsToMonitor opt) \<and>
     \<not> pathMatchesAny (de_Path d) (FieldsToOmit opt)) diffs"

definition ComputeSpecDiff :: "gmap option \<Rightarrow> gmap option \<Rightarrow> spec_diff_options \<Rightarrow> diff_entry list" where
  "ComputeSpecDiff obj oldObj opt = (case (oldObj, obj) of
     (Some old, Some new) \<Rightarrow>
       (let opt = (if FieldsToMonitor opt = [] then DefaultSpecDiffOptions else opt)
        in filterDiffs (walkDiff [] (VObj old) (VObj new)) opt)
   | _ \<Rightarrow> [])"

section \<open>Bounded excerpts\<close>

definition maxConfigMapValueBytes :: nat where "maxConfigMapValueBytes = 2048"
definition changeContextLines :: nat where "changeContextLines = 3"
definition maxMatchedLines :: nat where "maxMatchedLines = 1000"

abbreviation (input) newline :: char where "newline \<equiv> CHR 0x0A"

text \<open>\<open>utf8.RuneStart\<close>: not a continuation byte.\<close>

definition rune_start :: "char \<Rightarrow> bool" where
  "rune_start c \<longleftrightarrow> of_char c div 64 \<noteq> (2::nat)"

text \<open>\<open>for n > 0 && !utf8.RuneStart(s[n]) { n-- }\<close>, with the index panic.\<close>

fun rune_back :: "string \<Rightarrow> nat \<Rightarrow> nat option" where
  "rune_back s 0 = Some 0"
| "rune_back s (Suc n) =
     (if length s \<le> Suc n then None
      else if rune_start (s ! Suc n) then Some (Suc n) else rune_back s n)"

fun rune_back_to :: "string \<Rightarrow> nat \<Rightarrow> nat \<Rightarrow> nat" where
  "rune_back_to s lo 0 = 0"
| "rune_back_to s lo (Suc n) =
     (if Suc n < length s \<and> lo < Suc n \<and> \<not> rune_start (s ! Suc n) then rune_back_to s lo n else Suc n)"

definition truncateValue :: "gval \<Rightarrow> gval option" where
  "truncateValue v = (case v of
     VStr s \<Rightarrow>
       if length s \<le> maxConfigMapValueBytes then Some v
       else (case rune_back s maxConfigMapValueBytes of
          None \<Rightarrow> None
        | Some limit \<Rightarrow> Some (VStr (take limit s @ [newline] @ ''... [truncated: '' @ nat_dec limit @
            '' of '' @ nat_dec (length s) @ '' bytes shown]'')))
   | _ \<Rightarrow> Some v)"

fun common_prefix :: "'a list \<Rightarrow> 'a list \<Rightarrow> nat" where
  "common_prefix (x # xs) (y # ys) = (if x = y then Suc (common_prefix xs ys) else 0)"
| "common_prefix _ _ = 0"

definition window_text :: "string \<Rightarrow> nat \<Rightarrow> nat \<Rightarrow> string \<Rightarrow> string" where
  "window_text s lo hi body = ''... [truncated: showing bytes '' @ nat_dec lo @ ''-'' @ nat_dec hi @
     '' of '' @ nat_dec (length s) @ '']'' @ [newline] @ body"

definition window_cut :: "nat \<Rightarrow> string \<Rightarrow> string option" where
  "window_cut start s = (case rune_back s (min start (length s)) of
     None \<Rightarrow> None
   | Some lo \<Rightarrow>
       (let hi = rune_back_to s lo (min (length s) (lo + maxConfigMapValueBytes)) in
        (case go_slice lo hi s of
           None \<Rightarrow> None
         | Some body \<Rightarrow> Some (window_text s lo hi body))))"

definition firstDifferenceWindow :: "string \<Rightarrow> string \<Rightarrow> (string \<times> string) option" where
  "firstDifferenceWindow before after =
     (let p = common_prefix before after; start = p - maxConfigMapValueBytes div 4
      in (case (window_cut start before, window_cut start after) of
            (Some b, Some a) \<Rightarrow> Some (b, a) | _ \<Rightarrow> None))"

text \<open>An opcode of the line matcher: a tag and the two half-open line ranges it covers.\<close>

record opcode =
  op_Tag :: char
  op_I1 :: nat
  op_I2 :: nat
  op_J1 :: nat
  op_J2 :: nat

record hunk =
  h_b1 :: nat
  h_b2 :: nat
  h_a1 :: nat
  h_a2 :: nat

type_synonym line_matcher = "string list \<Rightarrow> string list \<Rightarrow> opcode list"

definition hunk_of :: "nat \<Rightarrow> nat \<Rightarrow> nat \<Rightarrow> opcode \<Rightarrow> hunk" where
  "hunk_of head nb na op =
     (let b1 = head + op_I1 op; b2 = head + op_I2 op; a1 = head + op_J1 op; a2 = head + op_J2 op;
          pre = min changeContextLines (min b1 a1);
          post = min changeContextLines (min (nb - b2) (na - a2))
      in \<lparr>h_b1 = b1 - pre, h_b2 = b2 + post, h_a1 = a1 - pre, h_a2 = a2 + post\<rparr>)"

definition add_hunk :: "hunk list \<Rightarrow> hunk \<Rightarrow> hunk list" where
  "add_hunk hunks h =
     (if hunks \<noteq> [] \<and> h_b1 h \<le> h_b2 (last hunks)
      then butlast hunks @ [(last hunks)\<lparr>h_b2 := h_b2 h, h_a2 := h_a2 h\<rparr>]
      else hunks @ [h])"

definition changedHunks :: "line_matcher \<Rightarrow> string list \<Rightarrow> string list \<Rightarrow> hunk list" where
  "changedHunks getOpCodes bl al =
     (let head = common_prefix bl al;
          tail = min (common_prefix (rev bl) (rev al)) (min (length bl - head) (length al - head));
          bMid = take (length bl - tail - head) (drop head bl);
          aMid = take (length al - tail - head) (drop head al);
          ops = (if length bMid \<le> maxMatchedLines \<and> length aMid \<le> maxMatchedLines
                 then getOpCodes bMid aMid
                 else [\<lparr>op_Tag = CHR ''r'', op_I1 = 0, op_I2 = length bMid, op_J1 = 0, op_J2 = length aMid\<rparr>])
      in foldl (\<lambda>hs op. if op_Tag op = CHR ''e'' then hs
           else add_hunk hs (hunk_of head (length bl) (length al) op)) [] ops)"

definition render_hunk :: "string list \<Rightarrow> nat \<Rightarrow> nat \<Rightarrow> string option" where
  "render_hunk ls start stop = (case go_slice start stop ls of
     None \<Rightarrow> None
   | Some body \<Rightarrow> Some (''... [truncated: showing lines '' @ nat_dec (start + 1) @ ''-'' @ nat_dec stop @
       '' of '' @ nat_dec (length ls) @ '']'' @ concat (map (\<lambda>l. newline # l) body)))"

fun renderHunks :: "string list \<Rightarrow> hunk list \<Rightarrow> bool \<Rightarrow> string option" where
  "renderHunks ls [] before = Some []"
| "renderHunks ls (h # hs) before =
     (case render_hunk ls (if before then h_b1 h else h_a1 h) (if before then h_b2 h else h_a2 h) of
        None \<Rightarrow> None
      | Some t \<Rightarrow> (case renderHunks ls hs before of
           None \<Rightarrow> None
         | Some r \<Rightarrow> Some (t @ (if hs = [] then [] else newline # r))))"

definition changeWindows :: "line_matcher \<Rightarrow> string \<Rightarrow> string \<Rightarrow> (string \<times> string) option" where
  "changeWindows getOpCodes before after =
     (let bl = split1 newline before; al = split1 newline after;
          hunks = changedHunks getOpCodes bl al
      in (case (renderHunks bl hunks True, renderHunks al hunks False) of
            (Some b, Some a) \<Rightarrow>
              if length b \<le> maxConfigMapValueBytes \<and> length a \<le> maxConfigMapValueBytes
              then Some (b, a) else firstDifferenceWindow before after
          | _ \<Rightarrow> None))"

section \<open>The evidence block\<close>

type_synonym value_window = "string \<times> string"

definition side :: "value_window \<Rightarrow> bool \<Rightarrow> string" where
  "side w before = (if before then fst w else snd w)"

definition windowFields :: "string list" where
  "windowFields = [''data'', ''binaryData'']"

text \<open>The window of one key, when the value changed and one of its sides is over the cap.\<close>

definition needs_window :: "gval \<Rightarrow> gval \<Rightarrow> (string \<times> string) option" where
  "needs_window b a = (case (b, a) of
     (VStr bs, VStr as) \<Rightarrow>
       if bs = as then None
       else if length bs \<le> maxConfigMapValueBytes \<and> length as \<le> maxConfigMapValueBytes then None
       else Some (bs, as)
   | _ \<Rightarrow> None)"

fun field_windows ::
  "line_matcher \<Rightarrow> string \<Rightarrow> gmap option \<Rightarrow> gmap \<Rightarrow> (string, value_window) gomap \<Rightarrow> (string, value_window) gomap option"
where
  "field_windows ml field before [] out = Some out"
| "field_windows ml field before ((k, a) # rest) out =
     (case needs_window (omget before k) a of
        None \<Rightarrow> field_windows ml field before rest out
      | Some (bs, as) \<Rightarrow>
          (case changeWindows ml bs as of
             None \<Rightarrow> None
           | Some w \<Rightarrow> field_windows ml field before rest (map_put (joinPath field k) w out)))"

fun fields_windows ::
  "line_matcher \<Rightarrow> gmap option \<Rightarrow> gmap option \<Rightarrow> string list \<Rightarrow> (string, value_window) gomap \<Rightarrow> (string, value_window) gomap option"
where
  "fields_windows ml oldObj obj [] out = Some out"
| "fields_windows ml oldObj obj (f # fs) out =
     (case field_windows ml f (oget_map oldObj f)
        (case oget_map obj f of None \<Rightarrow> [] | Some m \<Rightarrow> m) out of
        None \<Rightarrow> None
      | Some out' \<Rightarrow> fields_windows ml oldObj obj fs out')"

definition changedValueWindows ::
  "line_matcher \<Rightarrow> gmap option \<Rightarrow> gmap option \<Rightarrow> (string, value_window) gomap option" where
  "changedValueWindows ml oldObj obj = fields_windows ml oldObj obj windowFields []"

definition withoutLastAppliedAnnotation :: "gmap option \<Rightarrow> gmap option" where
  "withoutLastAppliedAnnotation obj = (case obj of
     None \<Rightarrow> None
   | Some o' \<Rightarrow>
       (case get_map o' ''metadata'' of
          None \<Rightarrow> Some o'
        | Some meta \<Rightarrow>
            (let ann = get_map meta ''annotations'' in
             if \<not> mhas ann lastAppliedAnnotation then Some o'
             else Some (map_put ''metadata'' (VObj (map_put ''annotations''
               (VObj (map_del lastAppliedAnnotation (the ann))) meta)) o'))))"

fun cap_members ::
  "string \<Rightarrow> (string, value_window) gomap \<Rightarrow> bool \<Rightarrow> gmap \<Rightarrow> gmap option" where
  "cap_members field windows before [] = Some []"
| "cap_members field windows before ((k, v) # rest) =
     (case (case map_of windows (joinPath field k) of
              Some w \<Rightarrow> Some (VStr (side w before)) | None \<Rightarrow> truncateValue v) of
        None \<Rightarrow> None
      | Some v' \<Rightarrow> map_option (\<lambda>r. (k, v') # r) (cap_members field windows before rest))"

fun cap_fields ::
  "(string, value_window) gomap \<Rightarrow> bool \<Rightarrow> string list \<Rightarrow> gmap \<Rightarrow> gmap option" where
  "cap_fields windows before [] out = Some out"
| "cap_fields windows before (f # fs) out = (case get_map out f of
     None \<Rightarrow> cap_fields windows before fs out
   | Some src \<Rightarrow> (case cap_members f windows before src of
        None \<Rightarrow> None
      | Some capped \<Rightarrow> cap_fields windows before fs (map_put f (VObj capped) out)))"

text \<open>The outer \<open>None\<close> is a panic, the inner one a nil object.\<close>

definition truncateConfigMapValues ::
  "gmap option \<Rightarrow> (string, value_window) gomap \<Rightarrow> bool \<Rightarrow> gmap option option" where
  "truncateConfigMapValues obj windows before = (case withoutLastAppliedAnnotation obj of
     None \<Rightarrow> Some None
   | Some out \<Rightarrow> map_option Some (cap_fields windows before windowFields out))"

fun truncateDiffValues :: "diff_entry list \<Rightarrow> (string, value_window) gomap \<Rightarrow> diff_entry list option" where
  "truncateDiffValues [] windows = Some []"
| "truncateDiffValues (d # ds) windows =
     (case (case map_of windows (de_Path d) of
              Some w \<Rightarrow> Some (VStr (fst w), VStr (snd w))
            | None \<Rightarrow> (case (truncateValue (de_Before d), truncateValue (de_After d)) of
                (Some b, Some a) \<Rightarrow> Some (b, a) | _ \<Rightarrow> None)) of
        None \<Rightarrow> None
      | Some (b, a) \<Rightarrow>
          map_option (\<lambda>r. d\<lparr>de_Before := b, de_After := a\<rparr> # r) (truncateDiffValues ds windows))"

fun deletePath :: "gmap \<Rightarrow> string list \<Rightarrow> gmap" where
  "deletePath m [] = m"
| "deletePath m [k] = map_del k m"
| "deletePath m (k # k' # ks) = (case get_map m k of
     None \<Rightarrow> m
   | Some nxt \<Rightarrow> map_put k (VObj (deletePath nxt (k' # ks))) m)"

text \<open>
  The JSON round trip of \<open>stripOmittedFields\<close> makes a private copy of a JSON value; values are
  immutable here, so the copy is the value itself.
\<close>

definition stripOmittedFields :: "gmap option \<Rightarrow> string list \<Rightarrow> gmap option" where
  "stripOmittedFields obj omit =
     map_option (\<lambda>m. foldl (\<lambda>m p. deletePath m (split1 CHR ''.'' p)) m omit) obj"

definition objectToYAML :: "(gval \<Rightarrow> string option) \<Rightarrow> gmap option \<Rightarrow> string list \<Rightarrow> string" where
  "objectToYAML yaml_Marshal obj omit = (case stripOmittedFields obj omit of
     None \<Rightarrow> []
   | Some stripped \<Rightarrow>
       (case yaml_Marshal (SnakeKeysDeep (VObj stripped)) of None \<Rightarrow> [] | Some b \<Rightarrow> b))"

definition diff_value_entry :: "diff_entry \<Rightarrow> gval" where
  "diff_value_entry d = VObj [(''path'', VStr (de_Path d)), (''old'', de_Before d), (''new'', de_After d),
     (''report'', VStr [])]"

definition resource_name :: "gmap option \<Rightarrow> gmap option \<Rightarrow> string \<Rightarrow> string" where
  "resource_name obj oldObj kind =
     (let nm = (\<lambda>om. case om of None \<Rightarrow> [] | Some m \<Rightarrow> metaName m);
          ns = (\<lambda>om. case om of None \<Rightarrow> [] | Some m \<Rightarrow> metaNS m);
          src = (if nm obj = [] then oldObj else obj);
          k = to_lower kind
      in (if k \<noteq> [] then k @ ''/'' else []) @ (if ns src \<noteq> [] then ns src @ ''/'' else []) @ nm src @ ''.yaml'')"

definition BuildKubernetesDiffBlock ::
  "(gval \<Rightarrow> string option) \<Rightarrow> gmap option \<Rightarrow> gmap option \<Rightarrow> string \<Rightarrow> diff_entry list \<Rightarrow> evidence_block" where
  "BuildKubernetesDiffBlock yaml_Marshal obj oldObj kind diffs =
     (let omit = FieldsToOmit DefaultSpecDiffOptions in
      [(''type'', VStr ''diff''),
       (''data'', VObj
         [(''old'', VStr (objectToYAML yaml_Marshal oldObj omit)),
          (''new'', VStr (objectToYAML yaml_Marshal obj omit)),
          (''resource_name'', VStr (resource_name obj oldObj kind)),
          (''num_additions'', VInt 0),
          (''num_deletions'', VInt 0),
          (''num_modifications'', VInt (int (length diffs))),
          (''updated_paths'', VArr (map (\<lambda>d. VStr (de_Path d)) diffs)),
          (''updated_values'', VArr (map diff_value_entry diffs))]),
       (''additional_info'', VNil)])"

definition BuildConfigMapDiffBlock ::
  "(gval \<Rightarrow> string option) \<Rightarrow> line_matcher \<Rightarrow> gmap option \<Rightarrow> gmap option \<Rightarrow> diff_entry list \<Rightarrow> evidence_block option"
where
  "BuildConfigMapDiffBlock yaml_Marshal ml obj oldObj diffs = do {
     windows \<leftarrow> changedValueWindows ml oldObj obj;
     new \<leftarrow> truncateConfigMapValues obj windows False;
     old \<leftarrow> truncateConfigMapValues oldObj windows True;
     ds \<leftarrow> truncateDiffValues diffs windows;
     Some (BuildKubernetesDiffBlock yaml_Marshal new old ''ConfigMap'' ds)
   }"

definition BuildIngressDiffBlock ::
  "(gval \<Rightarrow> string option) \<Rightarrow> gmap option \<Rightarrow> gmap option \<Rightarrow> diff_entry list \<Rightarrow> evidence_block" where
  "BuildIngressDiffBlock yaml_Marshal obj oldObj diffs =
     BuildKubernetesDiffBlock yaml_Marshal (withoutLastAppliedAnnotation obj)
       (withoutLastAppliedAnnotation oldObj) ''Ingress'' diffs"

section \<open>The diff lists the leaf-level changes\<close>

text \<open>
  A path as a sequence of steps: its text, the value it leads to, and when two values differ
  at a leaf of their common structure.
\<close>

datatype step = Key string | Idx nat

fun path_text :: "string \<Rightarrow> step list \<Rightarrow> string" where
  "path_text pre [] = pre"
| "path_text pre (Key k # p) = path_text (joinPath pre k) p"
| "path_text pre (Idx i # p) = path_text (indexPath pre i) p"

fun descend :: "step list \<Rightarrow> gval \<Rightarrow> gval" where
  "descend [] v = v"
| "descend (Key k # p) v = descend p (omget (as_map v) k)"
| "descend (Idx i # p) v = descend p (nth_or_nil (as_arr v) i)"

fun same_container :: "gval \<Rightarrow> gval \<Rightarrow> bool" where
  "same_container (VObj _) (VObj _) = True"
| "same_container (VArr _) (VArr _) = True"
| "same_container _ _ = False"

fun leaf_change :: "step list \<Rightarrow> gval \<Rightarrow> gval \<Rightarrow> bool" where
  "leaf_change [] b a = (\<not> jsonEqual b a \<and> \<not> same_container b a)"
| "leaf_change (Key k # p) (VObj b) (VObj a) = leaf_change p (mget b k) (mget a k)"
| "leaf_change (Idx i # p) (VArr b) (VArr a) = leaf_change p (nth_or_nil b i) (nth_or_nil a i)"
| "leaf_change (_ # _) _ _ = False"

definition leaf_entry :: "string \<Rightarrow> gval \<Rightarrow> gval \<Rightarrow> step list \<Rightarrow> diff_entry" where
  "leaf_entry pre b a p = \<lparr>de_Path = path_text pre p, de_Before = descend p b, de_After = descend p a\<rparr>"

lemma jsonEqual_mget:
  assumes "wf_gval (VObj b)" "wf_gval (VObj a)" "jsonEqual (VObj b) (VObj a)"
  shows "jsonEqual (mget b k) (mget a k)"
proof -
  let ?n = "map (\<lambda>p. (fst p, jnorm (snd p)))"
  have d: "distinct (map fst (?n b))" "distinct (map fst (?n a))"
    using assms(1,2) by (simp_all add: comp_def)
  have "sort_key fst (?n b) = sort_key fst (?n a)"
    using assms(3) by (simp add: jsonEqual_def)
  then have "map_of (?n b) = map_of (?n a)"
    using map_of_sort_key_fst[OF d(1)] map_of_sort_key_fst[OF d(2)] by simp
  then have "map_option jnorm (map_of b k) = map_option jnorm (map_of a k)"
    by (metis map_of_jnorm_members)
  then show ?thesis by (auto simp: jsonEqual_def go_defs split: option.splits)
qed

lemma jsonEqual_nth:
  assumes "jsonEqual (VArr b) (VArr a)"
  shows "jsonEqual (nth_or_nil b i) (nth_or_nil a i)"
proof -
  have eq: "map jnorm b = map jnorm a" using assms by (simp add: jsonEqual_def)
  then have "length b = length a" by (rule map_eq_imp_length_eq)
  with eq show ?thesis by (auto simp: jsonEqual_def nth_or_nil_def) (metis nth_map)
qed

lemma jsonEqual_refl [simp]: "jsonEqual v v"
  by (simp add: jsonEqual_def)

lemma wf_gval_nth: "wf_gval (VArr xs) \<Longrightarrow> wf_gval (nth_or_nil xs i)"
  by (auto simp: nth_or_nil_def list_all_iff)

lemma leaf_change_differs:
  "leaf_change p b a \<Longrightarrow> wf_gval b \<Longrightarrow> wf_gval a \<Longrightarrow> \<not> jsonEqual b a"
proof (induction p b a rule: leaf_change.induct)
  case (2 k p b a)
  then show ?case using jsonEqual_mget wf_gval_mget by (metis leaf_change.simps(2))
next
  case (3 i p b a)
  then show ?case using jsonEqual_nth wf_gval_nth by (metis leaf_change.simps(3))
qed auto

lemma leaf_change_key_in:
  "leaf_change (Key k # p) (VObj b) (VObj a) \<Longrightarrow> wf_gval (VObj b) \<Longrightarrow> wf_gval (VObj a) \<Longrightarrow>
   k \<in> set (unionKeys b a)"
  using leaf_change_differs[of p "mget b k" "mget a k"] wf_gval_mget[of b k] wf_gval_mget[of a k]
  by (force simp: unionKeys_def map_keys_def go_defs split: option.splits dest: map_of_SomeD)

lemma leaf_change_idx_less:
  "leaf_change (Idx i # p) (VArr b) (VArr a) \<Longrightarrow> wf_gval (VArr b) \<Longrightarrow> wf_gval (VArr a) \<Longrightarrow>
   i < max (length b) (length a)"
  using leaf_change_differs[of p "nth_or_nil b i" "nth_or_nil a i"] wf_gval_nth[of b i] wf_gval_nth[of a i]
  by (force simp: nth_or_nil_def split: if_splits)

lemma leaf_entry_Key: "leaf_entry pre (VObj b) (VObj a) (Key k # p) = leaf_entry (joinPath pre k) (mget b k) (mget a k) p"
  by (simp add: leaf_entry_def)

lemma leaf_entry_Idx:
  "leaf_entry pre (VArr b) (VArr a) (Idx i # p) = leaf_entry (indexPath pre i) (nth_or_nil b i) (nth_or_nil a i) p"
  by (simp add: leaf_entry_def)

lemma leaf_changes_obj:
  assumes "wf_gval (VObj b)" "wf_gval (VObj a)"
  shows "leaf_entry pre (VObj b) (VObj a) ` {p. leaf_change p (VObj b) (VObj a)} =
    (\<Union>k\<in>set (unionKeys b a). leaf_entry (joinPath pre k) (mget b k) (mget a k) `
       {p. leaf_change p (mget b k) (mget a k)})" (is "?L = ?R")
proof
  show "?L \<subseteq> ?R"
  proof
    fix e assume "e \<in> ?L"
    then obtain p where p: "leaf_change p (VObj b) (VObj a)" "e = leaf_entry pre (VObj b) (VObj a) p" by auto
    then obtain k q where "p = Key k # q" by (cases "(pre, p)" rule: path_text.cases) auto
    with p leaf_change_key_in[OF _ assms, of k q] show "e \<in> ?R" by (auto simp: leaf_entry_Key)
  qed
  show "?R \<subseteq> ?L"
    by (auto simp: leaf_entry_Key[symmetric] intro!: image_eqI)
qed

lemma leaf_changes_arr:
  assumes "wf_gval (VArr b)" "wf_gval (VArr a)"
  shows "leaf_entry pre (VArr b) (VArr a) ` {p. leaf_change p (VArr b) (VArr a)} =
    (\<Union>i<max (length b) (length a). leaf_entry (indexPath pre i) (nth_or_nil b i) (nth_or_nil a i) `
       {p. leaf_change p (nth_or_nil b i) (nth_or_nil a i)})" (is "?L = ?R")
proof
  show "?L \<subseteq> ?R"
  proof
    fix e assume "e \<in> ?L"
    then obtain p where p: "leaf_change p (VArr b) (VArr a)" "e = leaf_entry pre (VArr b) (VArr a) p" by auto
    then obtain i q where "p = Idx i # q" by (cases "(pre, p)" rule: path_text.cases) auto
    with p leaf_change_idx_less[OF _ assms, of i q] show "e \<in> ?R" by (auto simp: leaf_entry_Idx)
  qed
  show "?R \<subseteq> ?L"
    by (auto simp: leaf_entry_Idx[symmetric] intro!: image_eqI)
qed

lemma leaf_change_leaf:
  "\<not> same_container b a \<Longrightarrow> leaf_change p b a \<longleftrightarrow> p = [] \<and> \<not> jsonEqual b a"
  by (cases "(p, b, a)" rule: leaf_change.cases) auto

lemma walkDiff_leaf:
  "\<not> same_container b a \<Longrightarrow> \<not> jsonEqual b a \<Longrightarrow> walkDiff pre b a = [leaf_entry pre b a []]"
  by (subst walkDiff.simps) (auto simp: leaf_entry_def split: gval.splits)

lemma walkDiff_leaves:
  "wf_gval b \<Longrightarrow> wf_gval a \<Longrightarrow> set (walkDiff pre b a) = leaf_entry pre b a ` {p. leaf_change p b a}"
proof (induction pre b a rule: walkDiff.induct)
  case (1 pre b a)
  show ?case
  proof (cases "jsonEqual b a")
    case True
    then have "{p. leaf_change p b a} = {}" using leaf_change_differs "1.prems" by blast
    with True show ?thesis by (simp add: walkDiff.simps[of pre b a])
  next
    case ne: False
    show ?thesis
    proof (cases "same_container b a")
      case False
      then have "{p. leaf_change p b a} = {[]}" using ne leaf_change_leaf by auto
      with False ne show ?thesis by (simp add: walkDiff_leaf)
    next
      case True
      then consider (obj) bm am where "b = VObj bm" "a = VObj am" | (arr) bl al where "b = VArr bl" "a = VArr al"
        by (cases "(b, a)" rule: same_container.cases) auto
      then show ?thesis
      proof cases
        case obj
        have "set (walkDiff (joinPath pre k) (mget bm k) (mget am k)) =
            leaf_entry (joinPath pre k) (mget bm k) (mget am k) ` {p. leaf_change p (mget bm k) (mget am k)}"
          if "k \<in> set (unionKeys bm am)" for k
          using "1.IH"(2)[OF ne refl obj that] "1.prems" obj wf_gval_mget by simp
        with ne "1.prems" show ?thesis unfolding obj
          by (subst walkDiff.simps) (simp add: leaf_changes_obj del: wf_gval.simps)
      next
        case arr
        have "set (walkDiff (indexPath pre i) (nth_or_nil bl i) (nth_or_nil al i)) =
            leaf_entry (indexPath pre i) (nth_or_nil bl i) (nth_or_nil al i) `
              {p. leaf_change p (nth_or_nil bl i) (nth_or_nil al i)}"
          if "i < max (length bl) (length al)" for i
          using "1.IH"(1)[OF ne refl arr] that "1.prems" arr wf_gval_nth by simp
        with ne "1.prems" show ?thesis unfolding arr
          by (subst walkDiff.simps) (simp add: leaf_changes_arr atLeast0LessThan del: wf_gval.simps)
      qed
    qed
  qed
qed

text \<open>C32: \<open>ComputeSpecDiff\<close> reports exactly the leaf-level changes at monitored paths: an entry is
  in the result if and only if some path of map keys and array indexes, common to both objects
  down to its end, leads to two values that are not equal and are not both maps or both arrays,
  the entry carries that path's text and those two values, the text matches a monitored field
  and matches no omitted field. Nothing else is reported and nothing monitored is lost.\<close>

theorem ComputeSpecDiff_exact:
  assumes "wf_gval (VObj old)" "wf_gval (VObj new)" "FieldsToMonitor opt \<noteq> []"
  shows "e \<in> set (ComputeSpecDiff (Some new) (Some old) opt) \<longleftrightarrow>
    (\<exists>p. leaf_change p (VObj old) (VObj new) \<and>
       de_Path e = path_text [] p \<and> de_Before e = descend p (VObj old) \<and> de_After e = descend p (VObj new) \<and>
       pathMatchesAny (path_text [] p) (FieldsToMonitor opt) \<and>
       \<not> pathMatchesAny (path_text [] p) (FieldsToOmit opt))"
  using walkDiff_leaves[OF assms(1,2), of "[]"] assms(3)
  by (cases e) (auto simp: ComputeSpecDiff_def filterDiffs_def leaf_entry_def)

theorem ComputeSpecDiff_exact_witness:
  "\<lparr>de_Path = ''spec.replicas'', de_Before = VFloat (FFin False 1 0), de_After = VFloat (FFin False 3 0)\<rparr>
     \<in> set (ComputeSpecDiff
       (Some [(''spec'', VObj [(''replicas'', VFloat (FFin False 3 0))]), (''status'', VObj [(''x'', VBool True)])])
       (Some [(''spec'', VObj [(''replicas'', VFloat (FFin False 1 0))])]) DefaultSpecDiffOptions)"
  by (subst ComputeSpecDiff_exact)
    (simp_all add: DefaultSpecDiffOptions_def, rule exI[of _ "[Key ''spec'', Key ''replicas'']"],
     simp add: joinPath_def jsonEqual_def pathMatchesAny_def has_prefix_def)

section \<open>Unchanged monitored fields give no diff\<close>

definition plain_char :: "char \<Rightarrow> bool" where
  "plain_char c \<longleftrightarrow> c \<noteq> CHR ''.'' \<and> c \<noteq> CHR ''[''"

definition plain_key :: "string \<Rightarrow> bool" where
  "plain_key k \<longleftrightarrow> k \<noteq> [] \<and> list_all plain_char k"

definition top_field :: "string \<Rightarrow> string" where
  "top_field f = takeWhile plain_char f"

lemma path_text_extends:
  "pre \<noteq> [] \<Longrightarrow> \<exists>r. path_text pre p = pre @ r \<and> (r = [] \<or> \<not> plain_char (hd r))"
proof (induction pre p rule: path_text.induct)
  case (2 pre k p)
  then have "joinPath pre k \<noteq> []" by (simp add: joinPath_def)
  with "2.IH" obtain r where "path_text (joinPath pre k) p = joinPath pre k @ r" by auto
  with "2.prems" show ?case by (auto simp: joinPath_def plain_char_def)
next
  case (3 pre i p)
  then have "indexPath pre i \<noteq> []" by (simp add: indexPath_def)
  with "3.IH" obtain r where "path_text (indexPath pre i) p = indexPath pre i @ r" by auto
  with "3.prems" show ?case by (auto simp: indexPath_def plain_char_def)
qed simp

lemma takeWhile_stop: "r = [] \<or> \<not> P (hd r) \<Longrightarrow> takeWhile P (f @ r) = takeWhile P f"
  by (induction f) (cases r; auto)+

lemma match_top_field:
  assumes "pathMatchesAny path fs"
  shows "\<exists>f\<in>set fs. top_field path = top_field f"
proof -
  from assms obtain f r where f: "f \<in> set fs" "path = f @ r" "r = [] \<or> \<not> plain_char (hd r)"
    unfolding pathMatchesAny_def has_prefix_iff plain_char_def by fastforce
  from takeWhile_stop[of r plain_char f] f show ?thesis by (auto simp: top_field_def)
qed

lemma top_field_path_text:
  assumes "plain_key k"
  shows "top_field (path_text k p) = k"
proof -
  from assms obtain r where r: "path_text k p = k @ r" "r = [] \<or> \<not> plain_char (hd r)"
    using path_text_extends[of k p] by (auto simp: plain_key_def)
  with assms show ?thesis
    using takeWhile_stop[of r plain_char k] by (simp add: top_field_def plain_key_def list_all_iff)
qed

lemma path_text_Nil_Key [simp]: "path_text [] (Key k # p) = path_text k p"
  by (simp add: joinPath_def)

text \<open>An update that leaves every monitored top-level field equal produces no diff at all,
  whatever else changed (\<open>status\<close>, \<open>resourceVersion\<close>, \<open>managedFields\<close>, heartbeats): the babysitter
  matchers then see an empty diff. The top-level keys are non-empty and hold no dot or bracket,
  as those of Kubernetes objects are.\<close>

lemma ComputeSpecDiff_unmonitored:
  assumes "wf_gval (VObj old)" "wf_gval (VObj new)"
    and "list_all plain_key (map_keys old @ map_keys new)"
    and "\<forall>f\<in>set (FieldsToMonitor (if FieldsToMonitor opt = [] then DefaultSpecDiffOptions else opt)).
           jsonEqual (mget old (top_field f)) (mget new (top_field f))"
  shows "ComputeSpecDiff (Some new) (Some old) opt = []"
proof -
  let ?opt = "if FieldsToMonitor opt = [] then DefaultSpecDiffOptions else opt"
  have "\<not> pathMatchesAny (path_text [] p) (FieldsToMonitor ?opt)"
    if p: "leaf_change p (VObj old) (VObj new)" for p
  proof
    assume m: "pathMatchesAny (path_text [] p) (FieldsToMonitor ?opt)"
    from p obtain k q where kq: "p = Key k # q" by (cases "([] :: string, p)" rule: path_text.cases) auto
    with leaf_change_key_in[OF _ assms(1,2), of k q] p assms(3) have "plain_key k"
      by (auto simp: unionKeys_def list_all_iff)
    with m kq obtain f where "f \<in> set (FieldsToMonitor ?opt)" "top_field f = k"
      using match_top_field top_field_path_text by (metis path_text_Nil_Key)
    with assms(4) have "jsonEqual (mget old k) (mget new k)" by blast
    moreover have "leaf_change q (mget old k) (mget new k)" using p kq by simp
    ultimately show False
      using leaf_change_differs wf_gval_mget assms(1,2) by blast
  qed
  then have "\<forall>e\<in>set (walkDiff [] (VObj old) (VObj new)). \<not> pathMatchesAny (de_Path e) (FieldsToMonitor ?opt)"
    by (auto simp: walkDiff_leaves[OF assms(1,2)] leaf_entry_def)
  then show ?thesis by (simp add: ComputeSpecDiff_def filterDiffs_def Let_def)
qed

section \<open>Cutting a large value\<close>

lemma rune_back_props:
  "n < length s \<or> n = 0 \<Longrightarrow> \<exists>m. rune_back s n = Some m \<and> m \<le> n \<and> (m = 0 \<or> rune_start (s ! m)) \<and>
     (\<forall>i. m < i \<and> i \<le> n \<longrightarrow> \<not> rune_start (s ! i))"
proof (induction n)
  case (Suc n)
  show ?case
  proof (cases "rune_start (s ! Suc n)")
    case False
    from Suc obtain m where "rune_back s n = Some m" "m \<le> n" "m = 0 \<or> rune_start (s ! m)"
      "\<forall>i. m < i \<and> i \<le> n \<longrightarrow> \<not> rune_start (s ! i)" by auto
    with False Suc.prems show ?thesis by (auto simp: le_Suc_eq)
  qed (use Suc.prems in auto)
qed simp

lemma rune_back_to_props: "lo \<le> n \<Longrightarrow> lo \<le> rune_back_to s lo n \<and> rune_back_to s lo n \<le> n"
proof (induction s lo n rule: rune_back_to.induct)
  case (2 s lo n)
  then show ?case by (cases "lo \<le> n") (auto simp: le_Suc_eq)
qed simp

text \<open>No run of four continuation bytes, as in every valid UTF-8 text.\<close>

definition runes_short :: "string \<Rightarrow> bool" where
  "runes_short s \<longleftrightarrow> (\<forall>i<length s - 3. \<exists>j\<in>{i..i + 3}. rune_start (s ! j))"

text \<open>A string over the cap of 2048 bytes is replaced by a prefix of itself and a note of what
  was cut. The loop that walks the cut back never indexes out of range, the prefix has at most
  2048 bytes, the first byte dropped starts a rune (so no rune is split), and on text whose
  runes have at most four bytes at least 2045 bytes are kept.\<close>

lemma truncateValue_cut:
  assumes "maxConfigMapValueBytes < length s"
  shows "\<exists>limit. truncateValue (VStr s) = Some (VStr (take limit s @ [newline] @ ''... [truncated: '' @
       nat_dec limit @ '' of '' @ nat_dec (length s) @ '' bytes shown]'')) \<and>
     limit \<le> maxConfigMapValueBytes \<and> (limit = 0 \<or> rune_start (s ! limit)) \<and>
     (runes_short s \<longrightarrow> maxConfigMapValueBytes \<le> limit + 3)"
proof -
  obtain m where m: "rune_back s maxConfigMapValueBytes = Some m" "m \<le> maxConfigMapValueBytes"
    "m = 0 \<or> rune_start (s ! m)" "\<forall>i. m < i \<and> i \<le> maxConfigMapValueBytes \<longrightarrow> \<not> rune_start (s ! i)"
    using rune_back_props assms by blast
  have "maxConfigMapValueBytes \<le> m + 3" if short: "runes_short s"
  proof (rule ccontr)
    assume far: "\<not> maxConfigMapValueBytes \<le> m + 3"
    let ?i = "maxConfigMapValueBytes - 3"
    have "?i < length s - 3" using assms by (simp add: maxConfigMapValueBytes_def)
    with short obtain j where "j \<in> {?i..?i + 3}" "rune_start (s ! j)" by (auto simp: runes_short_def)
    with m(4) far show False by (auto simp: maxConfigMapValueBytes_def)
  qed
  with m assms show ?thesis by (auto simp: truncateValue_def)
qed

section \<open>Excerpts around the change\<close>

text \<open>
  What \<open>difflib\<close> documents of \<open>GetOpCodes\<close>: the ranges start at zero, each begins where the one
  before it ends, and none passes the end of its side.
\<close>

fun opcodes_from :: "nat \<Rightarrow> nat \<Rightarrow> nat \<Rightarrow> nat \<Rightarrow> opcode list \<Rightarrow> bool" where
  "opcodes_from nb na i j [] = True"
| "opcodes_from nb na i j (op # ops) =
     (op_I1 op = i \<and> op_J1 op = j \<and> i \<le> op_I2 op \<and> j \<le> op_J2 op \<and> op_I2 op \<le> nb \<and> op_J2 op \<le> na \<and>
      opcodes_from nb na (op_I2 op) (op_J2 op) ops)"

definition matcher_ok :: "line_matcher \<Rightarrow> bool" where
  "matcher_ok ml \<longleftrightarrow> (\<forall>bl al. opcodes_from (length bl) (length al) 0 0 (ml bl al))"

definition hunk_ok :: "nat \<Rightarrow> nat \<Rightarrow> hunk \<Rightarrow> bool" where
  "hunk_ok nb na h \<longleftrightarrow> h_b1 h \<le> h_b2 h \<and> h_b2 h \<le> nb \<and> h_a1 h \<le> h_a2 h \<and> h_a2 h \<le> na"

definition hunks_upto :: "nat \<Rightarrow> nat \<Rightarrow> nat \<Rightarrow> nat \<Rightarrow> hunk list \<Rightarrow> bool" where
  "hunks_upto nb na b a hs \<longleftrightarrow> list_all (hunk_ok nb na) hs \<and>
     (hs \<noteq> [] \<longrightarrow> h_b1 (last hs) \<le> b \<and> h_a1 (last hs) \<le> a)"

lemma hunks_upto_add:
  assumes "hunks_upto nb na (head + op_I1 op) (head + op_J1 op) hs"
    and "op_I1 op \<le> op_I2 op" "op_J1 op \<le> op_J2 op" "head + op_I2 op \<le> nb" "head + op_J2 op \<le> na"
  shows "hunks_upto nb na (head + op_I2 op) (head + op_J2 op) (add_hunk hs (hunk_of head nb na op))"
proof -
  let ?h = "hunk_of head nb na op"
  have h: "hunk_ok nb na ?h" "h_b1 ?h \<le> head + op_I1 op" "h_a1 ?h \<le> head + op_J1 op"
    "head + op_I2 op \<le> h_b2 ?h" "head + op_J2 op \<le> h_a2 ?h"
    using assms(2-5) by (auto simp: hunk_of_def hunk_ok_def Let_def)
  show ?thesis
  proof (cases "hs \<noteq> [] \<and> h_b1 ?h \<le> h_b2 (last hs)")
    case True
    then obtain pre l where hs: "hs = pre @ [l]" using append_butlast_last_id by metis
    with assms(1) have l: "hunk_ok nb na l" "h_b1 l \<le> head + op_I1 op" "h_a1 l \<le> head + op_J1 op"
      "list_all (hunk_ok nb na) pre" by (auto simp: hunks_upto_def)
    have "hunk_ok nb na (l\<lparr>h_b2 := h_b2 ?h, h_a2 := h_a2 ?h\<rparr>)"
      using l h assms(2,3) by (auto simp: hunk_ok_def)
    with True l hs assms(2,3) show ?thesis by (auto simp: add_hunk_def hunks_upto_def)
  next
    case False
    with assms h show ?thesis by (auto simp: add_hunk_def hunks_upto_def)
  qed
qed

lemma hunks_upto_mono:
  "hunks_upto nb na b a hs \<Longrightarrow> b \<le> b' \<Longrightarrow> a \<le> a' \<Longrightarrow> hunks_upto nb na b' a' hs"
  by (auto simp: hunks_upto_def)

lemma foldl_hunks_ok:
  assumes "opcodes_from mb ma i j ops" "head + mb \<le> nb" "head + ma \<le> na"
    and "hunks_upto nb na (head + i) (head + j) hs"
  shows "list_all (hunk_ok nb na) (foldl (\<lambda>hs op. if op_Tag op = CHR ''e'' then hs
           else add_hunk hs (hunk_of head nb na op)) hs ops)"
  using assms
proof (induction ops arbitrary: i j hs)
  case Nil
  then show ?case by (simp add: hunks_upto_def)
next
  case (Cons op ops)
  let ?hs = "if op_Tag op = CHR ''e'' then hs else add_hunk hs (hunk_of head nb na op)"
  have "hunks_upto nb na (head + op_I2 op) (head + op_J2 op) ?hs"
    using Cons.prems hunks_upto_add[of nb na head op hs] hunks_upto_mono[of nb na _ _ hs] by auto
  from Cons.IH[OF _ _ _ this] Cons.prems show ?case by (simp split del: if_split)
qed

lemma common_prefix_le: "common_prefix xs ys \<le> length xs \<and> common_prefix xs ys \<le> length ys"
  by (induction xs ys rule: common_prefix.induct) auto

lemma changedHunks_ok:
  assumes "matcher_ok ml"
  shows "list_all (hunk_ok (length bl) (length al)) (changedHunks ml bl al)"
proof -
  let ?head = "common_prefix bl al"
  let ?tail = "min (common_prefix (rev bl) (rev al)) (min (length bl - ?head) (length al - ?head))"
  let ?b = "take (length bl - ?tail - ?head) (drop ?head bl)"
  let ?a = "take (length al - ?tail - ?head) (drop ?head al)"
  let ?ops = "if length ?b \<le> maxMatchedLines \<and> length ?a \<le> maxMatchedLines then ml ?b ?a
     else [\<lparr>op_Tag = CHR ''r'', op_I1 = 0, op_I2 = length ?b, op_J1 = 0, op_J2 = length ?a\<rparr>]"
  have "opcodes_from (length b) (length a) 0 0 (if P then ml b a
      else [\<lparr>op_Tag = CHR ''r'', op_I1 = 0, op_I2 = length b, op_J1 = 0, op_J2 = length a\<rparr>])" for b a P
    using assms by (simp add: matcher_ok_def)
  then have "opcodes_from (length ?b) (length ?a) 0 0 ?ops" by blast
  moreover have "?head + length ?b \<le> length bl" "?head + length ?a \<le> length al"
    using common_prefix_le[of bl al] by auto
  ultimately show ?thesis
    unfolding changedHunks_def Let_def
    by (rule foldl_hunks_ok) (simp add: hunks_upto_def)
qed

lemma renderHunks_total:
  "list_all (hunk_ok nb na) hs \<Longrightarrow> length ls = (if before then nb else na) \<Longrightarrow>
   \<exists>t. renderHunks ls hs before = Some t"
  by (induction ls hs before rule: renderHunks.induct)
    (auto simp: render_hunk_def hunk_ok_def go_slice_ok split: if_splits)

definition byte_window :: "string \<Rightarrow> string \<Rightarrow> bool" where
  "byte_window s t \<longleftrightarrow> (\<exists>lo hi. lo \<le> hi \<and> hi \<le> length s \<and> hi \<le> lo + maxConfigMapValueBytes \<and>
     t = window_text s lo hi (take (hi - lo) (drop lo s)))"

lemma window_cut_props:
  assumes "start < length s \<or> start = 0"
  shows "\<exists>t. window_cut start s = Some t \<and> byte_window s t"
proof -
  obtain lo where lo: "rune_back s (min start (length s)) = Some lo" "lo \<le> length s"
    using rune_back_props[of "min start (length s)" s] assms by force
  let ?hi = "rune_back_to s lo (min (length s) (lo + maxConfigMapValueBytes))"
  have "lo \<le> ?hi" "?hi \<le> length s" "?hi \<le> lo + maxConfigMapValueBytes"
    using rune_back_to_props[of lo "min (length s) (lo + maxConfigMapValueBytes)" s] lo(2) by auto
  with lo(1) show ?thesis by (auto simp: window_cut_def byte_window_def go_slice_ok Let_def)
qed

lemma firstDifferenceWindow_props:
  "\<exists>b a. firstDifferenceWindow before after = Some (b, a) \<and> byte_window before b \<and> byte_window after a"
proof -
  let ?start = "common_prefix before after - maxConfigMapValueBytes div 4"
  have "?start < length before \<or> ?start = 0" "?start < length after \<or> ?start = 0"
    using common_prefix_le[of before after] by (auto simp: maxConfigMapValueBytes_def)
  then show ?thesis
    using window_cut_props[of ?start before] window_cut_props[of ?start after]
    by (auto simp: firstDifferenceWindow_def)
qed

lemma changeWindows_props:
  assumes "matcher_ok ml"
  shows "\<exists>b a. changeWindows ml before after = Some (b, a) \<and>
    (length b \<le> maxConfigMapValueBytes \<and> length a \<le> maxConfigMapValueBytes \<or>
     byte_window before b \<and> byte_window after a)"
proof -
  let ?bl = "split1 newline before" and ?al = "split1 newline after"
  have ok: "list_all (hunk_ok (length ?bl) (length ?al)) (changedHunks ml ?bl ?al)"
    by (rule changedHunks_ok[OF assms])
  obtain b a where "renderHunks ?bl (changedHunks ml ?bl ?al) True = Some b"
    "renderHunks ?al (changedHunks ml ?bl ?al) False = Some a"
    using renderHunks_total[OF ok, of ?bl True] renderHunks_total[OF ok, of ?al False] by auto
  then show ?thesis
    using firstDifferenceWindow_props[of before after] by (auto simp: changeWindows_def)
qed

lemma truncateValue_total: "\<exists>v'. truncateValue v = Some v'"
proof (cases v)
  case (VStr s)
  then show ?thesis using rune_back_props[of maxConfigMapValueBytes s] by (auto simp: truncateValue_def)
qed (simp_all add: truncateValue_def)

lemma field_windows_total:
  assumes "matcher_ok ml"
  shows "\<exists>out'. field_windows ml f before after out = Some out'"
proof (induction after arbitrary: out)
  case (Cons p rest)
  obtain k a where p: "p = (k, a)" by (cases p)
  show ?case
  proof (cases "needs_window (omget before k) a")
    case None
    with Cons p show ?thesis by simp
  next
    case (Some w)
    obtain bs as where w: "w = (bs, as)" by (cases w)
    obtain b' a' where "changeWindows ml bs as = Some (b', a')" using changeWindows_props[OF assms] by blast
    with Cons Some p w show ?thesis by simp
  qed
qed simp

lemma changedValueWindows_total:
  assumes "matcher_ok ml"
  shows "\<exists>out. changedValueWindows ml oldObj obj = Some out"
proof -
  have "\<exists>out'. fields_windows ml oldObj obj fs out = Some out'" for fs out
  proof (induction fs arbitrary: out)
    case (Cons f fs)
    then show ?case
      using field_windows_total[OF assms, of f "oget_map oldObj f"
          "case oget_map obj f of None \<Rightarrow> [] | Some m \<Rightarrow> m" out] by auto
  qed simp
  then show ?thesis by (simp add: changedValueWindows_def)
qed

lemma cap_members_total: "\<exists>m'. cap_members f windows before m = Some m'"
proof (induction m)
  case (Cons p m)
  obtain k v where "p = (k, v)" by (cases p)
  with Cons truncateValue_total[of v] show ?case by (auto split: option.splits)
qed simp

lemma cap_fields_total: "\<exists>m'. cap_fields windows before fs m = Some m'"
proof (induction fs arbitrary: m)
  case (Cons f fs)
  show ?case
  proof (cases "get_map m f")
    case None
    with Cons show ?thesis by simp
  next
    case (Some src)
    obtain c where "cap_members f windows before src = Some c" using cap_members_total by blast
    with Cons Some show ?thesis by simp
  qed
qed simp

lemma truncateConfigMapValues_total: "\<exists>m'. truncateConfigMapValues obj windows before = Some m'"
  using cap_fields_total[of windows before windowFields]
  by (auto simp: truncateConfigMapValues_def split: option.splits)

lemma truncateDiffValues_total: "\<exists>ds'. truncateDiffValues ds windows = Some ds'"
proof (induction ds)
  case (Cons d ds)
  with truncateValue_total[of "de_Before d"] truncateValue_total[of "de_After d"] show ?case
    by (auto split: option.splits)
qed simp

text \<open>Given a line matcher that returns what \<open>difflib\<close> documents, the excerpts of a changed
  value over the cap are always computed (no slice or index of \<open>renderHunks\<close> or
  \<open>firstDifferenceWindow\<close> is out of range) and are bounded: both sides fit the cap, or both are
  a header and at most 2048 bytes of the value itself. Hence the ConfigMap evidence block is
  built for every pair of objects and every list of diffs.\<close>

lemma changeWindows_total_bounded:
  assumes "matcher_ok ml"
  shows "(\<exists>b a. changeWindows ml before after = Some (b, a) \<and>
      (length b \<le> maxConfigMapValueBytes \<and> length a \<le> maxConfigMapValueBytes \<or>
       byte_window before b \<and> byte_window after a)) \<and>
    BuildConfigMapDiffBlock yaml_Marshal ml obj oldObj diffs \<noteq> None"
proof -
  obtain ws where ws: "changedValueWindows ml oldObj obj = Some ws"
    using changedValueWindows_total[OF assms] by blast
  with truncateConfigMapValues_total[of obj ws False] truncateConfigMapValues_total[of oldObj ws True]
    truncateDiffValues_total[of diffs ws]
  have "BuildConfigMapDiffBlock yaml_Marshal ml obj oldObj diffs \<noteq> None"
    by (auto simp: BuildConfigMapDiffBlock_def)
  with changeWindows_props[OF assms] show ?thesis by blast
qed

section \<open>Annotation stripping\<close>

text \<open>\<open>withoutLastAppliedAnnotation\<close> removes kubectl's copy of the object, and changes nothing
  else: every other annotation, every other field of the metadata and every other top-level
  field keeps its value.\<close>

lemma withoutLastAppliedAnnotation_only:
  assumes "withoutLastAppliedAnnotation (Some m) = Some m'"
  shows "\<not> mhas (oget_map (get_map m' ''metadata'') ''annotations'') lastAppliedAnnotation \<and>
    (\<forall>k. k \<noteq> lastAppliedAnnotation \<longrightarrow>
       omget (oget_map (get_map m' ''metadata'') ''annotations'') k =
       omget (oget_map (get_map m ''metadata'') ''annotations'') k) \<and>
    (\<forall>k. k \<noteq> ''annotations'' \<longrightarrow> omget (get_map m' ''metadata'') k = omget (get_map m ''metadata'') k) \<and>
    (\<forall>k. k \<noteq> ''metadata'' \<longrightarrow> mget m' k = mget m k)"
  using assms
  by (auto simp: withoutLastAppliedAnnotation_def Let_def mhas_def split: option.splits if_splits)

end
