(* ===== verification/Rfc3339.thy ===== *)
theory Rfc3339
  imports GoTime
begin

text \<open>
  \<open>t.UTC().Format(time.RFC3339)\<close>, the form in which findings carry their times (\<open>utcDBStr\<close> of
  \<open>pkg/alerts/finding.go\<close>), and its round trip with the parser of \<open>GoTime\<close>: the parser reads back
  the instant, cut to the second, for every instant up to the year 9999.
\<close>

section \<open>Output\<close>

text \<open>
  \<open>t.UTC().Format(time.RFC3339)\<close>: the civil date of a day number counted from 1 March of
  year 0, by 400-year eras, as package \<open>time\<close> computes it.
\<close>

definition pad2 :: "int \<Rightarrow> string" where
  "pad2 n = (if n < 10 then ''0'' else []) @ int_dec n"

definition pad4 :: "int \<Rightarrow> string" where
  "pad4 n = (if n < 10 then ''000'' else if n < 100 then ''00'' else if n < 1000 then ''0'' else []) @ int_dec n"

definition civil_date :: "int \<Rightarrow> int \<times> int \<times> int" where
  "civil_date days =
     (let z = days + 306; era = z div 146097; doe = z mod 146097;
          yoe = (doe - doe div 1460 + doe div 36524 - doe div 146096) div 365;
          doy = doe - (365 * yoe + yoe div 4 - yoe div 100);
          mp = (5 * doy + 2) div 153;
          d = doy - (153 * mp + 2) div 5 + 1;
          m = (if mp < 10 then mp + 3 else mp - 9)
      in (yoe + era * 400 + (if m \<le> 2 then 1 else 0), m, d))"

definition format_rfc3339 :: "time \<Rightarrow> string" where
  "format_rfc3339 t =
     (let s = t div second; days = s div 86400; r = s mod 86400 in
      (case civil_date days of (y, m, d) \<Rightarrow>
        pad4 y @ ''-'' @ pad2 m @ ''-'' @ pad2 d @ ''T'' @ pad2 (r div 3600) @ '':'' @
        pad2 (r mod 3600 div 60) @ '':'' @ pad2 (r mod 60) @ ''Z''))"

lemma format_rfc3339_epoch: "format_rfc3339 (unix_to_internal * second) = ''1970-01-01T00:00:00Z''"
  by code_simp

lemma format_rfc3339_leap:
  "parse_rfc3339 ''2024-02-29T23:59:58Z'' = Some 63844847998000000000"
  "format_rfc3339 63844847998000000000 = ''2024-02-29T23:59:58Z''"
  by code_simp+

section \<open>The civil date\<close>

text \<open>The days of an era before its year \<open>y\<close>, and the quantity whose quotient by 365 is the year.\<close>

definition year_start :: "int \<Rightarrow> int" where
  "year_start y = 365 * y + y div 4 - y div 100"

definition year_key :: "int \<Rightarrow> int" where
  "year_key n = n - n div 1460 + n div 36524 - n div 146096"

lemma year_key_Suc:
  assumes "0 \<le> n" "n + 1 < 146097"
  shows "year_key n \<le> year_key (n + 1)"
proof (cases "n + 1 < 146096")
  case True
  define a a' b b' where "a = n div 1460" and "a' = (n + 1) div 1460" and "b = n div 36524" and "b' = (n + 1) div 36524"
  have "a' \<le> (n + 1460) div 1460" "b \<le> b'" unfolding a'_def b_def b'_def by (intro zdiv_mono1; simp)+
  moreover have "(n + 1460) div 1460 = a + 1" unfolding a_def by simp
  moreover have "n div 146096 = 0" "(n + 1) div 146096 = 0" using True assms by (auto intro: div_pos_pos_trivial)
  then have "year_key n = n - a + b" "year_key (n + 1) = n + 1 - a' + b'"
    unfolding year_key_def a_def a'_def b_def b'_def by simp_all
  ultimately show ?thesis by linarith
next
  case False
  with assms have "n = 146095" by simp
  then show ?thesis by (simp add: year_key_def)
qed

lemma year_key_mono:
  assumes "0 \<le> a" "a \<le> b" "b < 146097"
  shows "year_key a \<le> year_key b"
proof -
  have "year_key a \<le> year_key (a + int k)" if "a + int k < 146097" for k
    using that
  proof (induction k)
    case (Suc k)
    then show ?case using year_key_Suc[of "a + int k"] assms(1) by (simp add: algebra_simps)
  qed simp
  from this[of "nat (b - a)"] assms show ?thesis by simp
qed

lemma year_key_table:
  "list_all (\<lambda>y. 365 * y \<le> year_key (year_start y) \<and> (y = 0 \<or> year_key (year_start y - 1) < 365 * y)) [0..399]"
  by code_simp

lemma year_start_nonneg: "0 \<le> y \<Longrightarrow> 0 \<le> year_start y"
proof -
  assume y: "0 \<le> y"
  have "y div 100 \<le> y" "0 \<le> y div 4" using y by (presburger, simp add: pos_imp_zdiv_nonneg_iff)
  with y show ?thesis unfolding year_start_def by linarith
qed

lemma year_of_day:
  assumes "0 \<le> doe" "doe < 146097"
  defines "y \<equiv> year_key doe div 365"
  shows "0 \<le> y" "y \<le> 399" "year_start y \<le> doe" "y < 399 \<Longrightarrow> doe < year_start (y + 1)"
proof -
  have tab: "365 * v \<le> year_key (year_start v)" "v = 0 \<or> year_key (year_start v - 1) < 365 * v" if "0 \<le> v" "v \<le> 399" for v
    using year_key_table that by (auto simp: list_all_iff)
  have pos: "0 \<le> year_key doe" using year_key_mono[of 0 doe] assms by (simp add: year_key_def)
  then show y0: "0 \<le> y" by (simp add: y_def pos_imp_zdiv_nonneg_iff)
  have "year_key doe \<le> year_key 146096" using assms year_key_mono[of doe 146096] by simp
  then have top: "year_key doe < 146000" by (simp add: year_key_def)
  have split: "year_key doe = y * 365 + year_key doe mod 365" unfolding y_def by simp
  have "0 \<le> year_key doe mod 365" "year_key doe mod 365 < 365" by simp_all
  then obtain r where r: "year_key doe = y * 365 + r" "0 \<le> r" "r < 365" using split by blast
  from r have kb: "365 * y \<le> year_key doe" "year_key doe < 365 * (y + 1)" by auto
  from r top have y1: "y \<le> 399" by auto
  show "y \<le> 399" by (rule y1)
  show "year_start y \<le> doe"
  proof (rule ccontr)
    assume "\<not> year_start y \<le> doe"
    moreover have "year_start y \<le> 145731"
    proof -
      have "y div 4 \<le> 99" "0 \<le> y div 100" using y0 y1 by (linarith, simp add: pos_imp_zdiv_nonneg_iff)
      with y1 show ?thesis unfolding year_start_def by linarith
    qed
    ultimately have "year_key doe \<le> year_key (year_start y - 1)" using assms by (intro year_key_mono) auto
    moreover have "y \<noteq> 0" using \<open>\<not> year_start y \<le> doe\<close> assms by (auto simp: year_start_def)
    ultimately show False using tab(2)[OF y0 y1] kb by linarith
  qed
  show "doe < year_start (y + 1)" if "y < 399"
  proof (rule ccontr)
    assume "\<not> doe < year_start (y + 1)"
    moreover have "0 \<le> year_start (y + 1)" using y0 year_start_nonneg by simp
    ultimately have "year_key (year_start (y + 1)) \<le> year_key doe" using assms by (intro year_key_mono) auto
    then show False using tab(1)[of "y + 1"] y0 that kb by linarith
  qed
qed

text \<open>Months counted from March: their numbers, and the days before them in a year that starts in March.\<close>

definition march_month :: "int \<Rightarrow> int \<times> int" where
  "march_month doy =
     (let mp = (5 * doy + 2) div 153 in (if mp < 10 then mp + 3 else mp - 9, doy - (153 * mp + 2) div 5 + 1))"

definition march_days :: "int \<Rightarrow> int" where
  "march_days m = [306, 337, 0, 31, 61, 92, 122, 153, 184, 214, 245, 275] ! nat (m - 1)"

lemma march_month_table:
  "list_all (\<lambda>doy. case march_month doy of (m, d) \<Rightarrow>
     1 \<le> m \<and> m \<le> 12 \<and> 1 \<le> d \<and> march_days m + d - 1 = doy \<and>
     d \<le> (if m = 2 then 29 else if m \<in> {4, 6, 9, 11} then 30 else 31) \<and> (m = 2 \<and> d = 29 \<longleftrightarrow> doy = 365)) [0..365]"
  by code_simp

lemma march_month_props:
  assumes "0 \<le> doy" "doy \<le> 365" "march_month doy = (m, d)"
  shows "1 \<le> m" "m \<le> 12" "1 \<le> d" "march_days m + d - 1 = doy"
    "d \<le> (if m = 2 then 29 else if m \<in> {4, 6, 9, 11} then 30 else 31)" "m = 2 \<and> d = 29 \<longleftrightarrow> doy = 365"
  using march_month_table assms by (auto simp: list_all_iff dest!: bspec[of _ _ doy])

lemma month_cases:
  assumes "1 \<le> m" "m \<le> (12 :: int)"
  obtains "m = 1" | "m = 2" | "m = 3" | "m = 4" | "m = 5" | "m = 6" | "m = 7" | "m = 8" | "m = 9" | "m = 10" | "m = 11" | "m = 12"
  using assms by atomize_elim presburger

text \<open>Days before a month of the civil year, from the March count.\<close>

lemma days_before_march:
  assumes "1 \<le> m" "m \<le> 12"
  shows "days_before_month (nat (m - 1)) y =
    march_days m + (if m \<le> 2 then - 306 else 59 + (if leap_year y then 1 else 0))"
  using assms
  by (rule month_cases) (simp_all add: march_days_def days_in_def eval_nat_numeral)

lemma leap_year_400: "leap_year (v + k * 400) = leap_year v"
  using mod_mult_self1[of v "k * 100" 4] mod_mult_self1[of v "k * 4" 100]
  by (simp add: leap_year_def mult.commute)

lemma leap_step: "y div 4 - y div 100 + y div 400 - ((y - 1) div 4 - (y - 1) div 100 + (y - 1) div 400) =
  (if leap_year y then 1 else 0)" for y :: int
proof -
  have s: "y div k = (y - 1) div k + (if y mod k = 0 then 1 else 0)" if "0 < k" for k :: int
  proof -
    have y: "y = k * (y div k) + y mod k" "0 \<le> y mod k" "y mod k < k" using that by simp_all
    show ?thesis
    proof (cases "y mod k = 0")
      case True
      with y(1) have "y - 1 = k * (y div k - 1) + (k - 1)" by (simp add: right_diff_distrib)
      from int_div_pos_eq[OF this] that True show ?thesis by simp
    next
      case False
      with y have "y - 1 = k * (y div k) + (y mod k - 1)" "0 \<le> y mod k - 1" "y mod k - 1 < k" by auto
      from int_div_pos_eq[OF this] False show ?thesis by simp
    qed
  qed
  have "(4 :: int) dvd 100" "(100 :: int) dvd 400" by simp_all
  then have m: "y mod 100 = 0 \<Longrightarrow> y mod 4 = 0" "y mod 400 = 0 \<Longrightarrow> y mod 100 = 0"
    unfolding mod_eq_0_iff_dvd by (blast intro: dvd_trans)+
  define p4 p100 p400 where "p4 \<longleftrightarrow> y mod 4 = 0" and "p100 \<longleftrightarrow> y mod 100 = 0" and "p400 \<longleftrightarrow> y mod 400 = 0"
  define a b c where "a = (y - 1) div 4" and "b = (y - 1) div 100" and "c = (y - 1) div 400"
  have e: "y div 4 = a + (if p4 then 1 else 0)" "y div 100 = b + (if p100 then 1 else 0)" "y div 400 = c + (if p400 then 1 else 0)"
    unfolding a_def b_def c_def p4_def p100_def p400_def by (rule s, simp)+
  have l: "leap_year y \<longleftrightarrow> p4 \<and> (\<not> p100 \<or> p400)" "p100 \<Longrightarrow> p4" "p400 \<Longrightarrow> p100"
    unfolding leap_year_def p4_def p100_def p400_def using m by auto
  show ?thesis
    unfolding e l(1) a_def[symmetric] b_def[symmetric] c_def[symmetric] using l(2,3) by auto
qed

text \<open>The civil date is the inverse of the day count.\<close>

lemma civil_date_props:
  assumes "0 \<le> days" "civil_date days = (y, m, d)"
  shows "1 \<le> m \<and> m \<le> 12 \<and> 1 \<le> d \<and> d \<le> days_in m y \<and> days_since_zero y m d = days"
    and "0 \<le> y \<and> (days < 3652059 \<longrightarrow> y < 10000)"
proof -
  define z era doe yoe doy where "z = days + 306" and "era = z div 146097" and "doe = z mod 146097"
    and "yoe = year_key doe div 365" and "doy = doe - year_start yoe"
  have doe: "0 \<le> doe" "doe < 146097" and z: "z = era * 146097 + doe" unfolding doe_def era_def by simp_all
  note yr = year_of_day[OF doe, folded yoe_def]
  have md: "march_month doy = (m, d)" and y: "y = yoe + era * 400 + (if m \<le> 2 then 1 else 0)"
    using assms(2)
    unfolding civil_date_def march_month_def Let_def z_def[symmetric] era_def[symmetric] doe_def[symmetric]
      year_key_def[symmetric] yoe_def[symmetric] year_start_def[symmetric] doy_def[symmetric]
    by (auto simp: Let_def)
  have doy0: "0 \<le> doy" using yr(3) by (simp add: doy_def)
  define q where "q = (\<lambda>v :: int. v div 4 - v div 100 + v div 400)"
  have q400: "q (v + era * 400) = q v + era * 97" for v
    using div_mult_self1[of 4 v "era * 100"] div_mult_self1[of 100 v "era * 4"] by (simp add: q_def mult.commute)
  have ys: "year_start v = 365 * v + q v" if "0 \<le> v" "v < 400" for v
    using that by (simp add: year_start_def q_def div_pos_pos_trivial)
  have step: "q (v + 1) - q v = (if leap_year (v + 1) then 1 else 0)" for v
    using leap_step[of "v + 1"] by (simp add: q_def)
  let ?Y = "yoe + era * 400"
  have next_leap: "doy < 365 + (if leap_year (?Y + 1) then 1 else 0)"
  proof (cases "yoe < 399")
    case True
    with yr(4) have "doe < 365 * (yoe + 1) + q (yoe + 1)" using ys[of "yoe + 1"] yr(1) by simp
    moreover have "leap_year (?Y + 1) = leap_year (yoe + 1)"
      using leap_year_400[of "yoe + 1" era] by (simp add: algebra_simps)
    ultimately show ?thesis using step[of yoe] ys[of yoe] yr(1) True by (simp add: doy_def)
  next
    case False
    with yr(2) have "yoe = 399" by simp
    moreover have "leap_year (400 + era * 400)" using leap_year_400[of 400 era] by (simp add: leap_year_def)
    ultimately show ?thesis using doe(2) by (simp add: doy_def year_start_def algebra_simps)
  qed
  then have doy1: "doy \<le> 365" by (simp split: if_splits)
  note mm = march_month_props[OF doy0 doy1 md]
  have count: "365 * ?Y + q ?Y + doy = z" using ys[of yoe] yr(1,2) q400[of yoe] z by (simp add: doy_def algebra_simps)
  have dsz: "days_since_zero v m d = 365 * (v - 1) + q (v - 1) + days_before_month (nat (m - 1)) v + (d - 1)" for v
    by (simp add: days_since_zero_def q_def)
  have "days_since_zero y m d = days"
    using mm(4) count y step[of "?Y - 1"]
    by (auto simp: dsz days_before_march[OF mm(1,2)] z_def split: if_splits)
  moreover have "d \<le> days_in m y"
    using mm(3,5,6) next_leap y by (auto simp: days_in_def split: if_splits)
  ultimately show "1 \<le> m \<and> m \<le> 12 \<and> 1 \<le> d \<and> d \<le> days_in m y \<and> days_since_zero y m d = days"
    using mm(1-3) by blast
  have era0: "0 \<le> era" unfolding era_def using assms(1) by (simp add: z_def pos_imp_zdiv_nonneg_iff)
  have "y < 10000" if "days < 3652059"
  proof (rule ccontr)
    assume "\<not> y < 10000"
    moreover have "era \<le> 24" using that z doe(1) by (simp add: z_def)
    ultimately have *: "era = 24" "yoe = 399" "m \<le> 2" using y yr(2) by (auto split: if_splits)
    then have "306 \<le> doy" using mm(1-4) by (cases "m = 1") (auto simp: march_days_def)
    with * that show False using z by (simp add: doy_def year_start_def z_def)
  qed
  then show "0 \<le> y \<and> (days < 3652059 \<longrightarrow> y < 10000)" using y yr(1) era0 by auto
qed

section \<open>Reading the text back\<close>

lemma nat_dec_two: "10 \<le> n \<Longrightarrow> n < 100 \<Longrightarrow> nat_dec n = [digit_char (n div 10), digit_char (n mod 10)]"
  by (simp add: nat_dec.simps[of n] nat_dec.simps[of "n div 10"])

lemma pad2_digits:
  assumes "0 \<le> n" "n < 100"
  shows "pad2 n = [digit_char (nat n div 10), digit_char (nat n mod 10)]"
proof (cases "n < 10")
  case True
  with assms have "nat n < 10" by simp
  then show ?thesis using True assms by (simp add: pad2_def int_dec_def nat_dec.simps[of "nat n"])
next
  case False
  with assms have "10 \<le> nat n" "nat n < 100" by auto
  with False assms show ?thesis by (simp add: pad2_def int_dec_def nat_dec_two)
qed

lemma get_num_pad2:
  assumes "0 \<le> n" "n < 100"
  shows "get_num fixed (pad2 n @ r) = Some (n, r)"
proof -
  have "nat n div 10 < 10" "nat n mod 10 < 10" using assms by auto
  moreover have "int (nat n div 10 * 10 + nat n mod 10) = n" using assms by simp
  ultimately show ?thesis by (simp add: pad2_digits[OF assms] get_num_def)
qed

lemma length_nat_dec_le: "n < 10 ^ k \<Longrightarrow> 0 < k \<Longrightarrow> length (nat_dec n) \<le> k"
proof (induction k arbitrary: n)
  case (Suc k)
  show ?case
  proof (cases "n < 10")
    case False
    with Suc.prems have "n div 10 < 10 ^ k" "0 < k" by (auto intro: gr0I simp: less_mult_imp_div_less)
    with Suc.IH[of "n div 10"] False show ?thesis by (simp add: nat_dec.simps[of n])
  qed (simp add: nat_dec.simps[of n])
qed simp

lemma length_nat_dec_ge: "10 ^ k \<le> n \<Longrightarrow> k < length (nat_dec n)"
proof (induction k arbitrary: n)
  case (Suc k)
  then have "10 \<le> n" by (metis dual_order.trans le_add1 one_le_power one_le_numeral mult.right_neutral mult_le_mono2 power_Suc)
  moreover have "10 ^ k \<le> n div 10" using Suc.prems by (simp add: less_eq_div_iff_mult_less_eq mult.commute)
  ultimately show ?case using Suc.IH[of "n div 10"] by (simp add: nat_dec.simps[of n])
qed simp

lemma dec_val_zero: "dec_val (CHR ''0'' # s) = dec_val s"
  by (simp add: dec_val_def digit_val_def)

lemma pad4_year:
  assumes "0 \<le> y" "y < 10000"
  shows "length (pad4 y) = 4" "list_all is_digit (pad4 y)" "int (dec_val (pad4 y)) = y"
proof -
  define n where "n = nat y"
  have y: "y = int n" "n < 10000" using assms by (auto simp: n_def)
  have dig: "list_all is_digit (nat_dec n)" by (auto simp: list_all_iff nat_dec_digits)
  have z: "is_digit CHR ''0''" by code_simp
  note up = length_nat_dec_le[of n 1] length_nat_dec_le[of n 2] length_nat_dec_le[of n 3] length_nat_dec_le[of n 4]
  note dn = length_nat_dec_ge[of 1 n] length_nat_dec_ge[of 2 n] length_nat_dec_ge[of 3 n]
  have p: "pad4 y = (if n < 10 then ''000'' else if n < 100 then ''00'' else if n < 1000 then ''0'' else []) @ nat_dec n"
    using y by (simp add: pad4_def int_dec_def)
  show "list_all is_digit (pad4 y)" using dig z by (simp add: p)
  show "int (dec_val (pad4 y)) = y" unfolding p using y by (simp add: dec_val_zero)
  have "length (nat_dec n) = (if n < 10 then 1 else if n < 100 then 2 else if n < 1000 then 3 else 4)"
    using up dn y(2) nat_dec_ne[of n] by (cases "length (nat_dec n)") auto
  then show "length (pad4 y) = 4" by (simp add: p)
qed

lemma get_year_pad4: "0 \<le> y \<Longrightarrow> y < 10000 \<Longrightarrow> get_year (pad4 y @ r) = Some (y, r)"
  using pad4_year[of y] by (simp add: get_year_def)

text \<open>For every instant from the year 1 to the end
  of 9999, parsing the text gives the instant itself, cut to the second.\<close>

lemma rfc3339_roundtrip:
  assumes "0 \<le> t" "t < 315537897600 * second"
  shows "parse_rfc3339 (format_rfc3339 t) = Some (t - t mod second)"
proof -
  define s days r where "s = t div second" and "days = s div 86400" and "r = s mod 86400"
  have s: "0 \<le> s" "s < 315537897600" and ts: "t = s * second + t mod second"
    using assms by (auto simp: s_def pos_imp_zdiv_nonneg_iff)
  have sr: "s = days * 86400 + r" "0 \<le> r" "r < 86400" by (auto simp: days_def r_def)
  have days: "0 \<le> days" "days < 3652059" using s sr by auto
  obtain y m d where c: "civil_date days = (y, m, d)" by (cases "civil_date days")
  note p = civil_date_props[OF days(1) c]
  define h mi sec where "h = r div 3600" and "mi = r mod 3600 div 60" and "sec = r mod 60"
  define q where "q = r mod 3600"
  have q: "r = h * 3600 + q" "0 \<le> q" "q < 3600" by (auto simp: h_def q_def)
  have sec: "sec = q mod 60" by (simp add: sec_def q_def mod_mod_cancel)
  have mi: "q = mi * 60 + sec" "0 \<le> sec" "sec < 60" unfolding sec by (auto simp: mi_def q_def)
  have "0 \<le> h" unfolding h_def using sr(2) by (simp add: pos_imp_zdiv_nonneg_iff)
  moreover have "0 \<le> mi" unfolding mi_def by (simp add: pos_imp_zdiv_nonneg_iff)
  ultimately have hms: "r = h * 3600 + mi * 60 + sec" "0 \<le> h" "h < 24" "0 \<le> mi" "mi < 60" "0 \<le> sec" "sec < 60"
    using q mi sr(3) by auto
  have md: "0 \<le> m" "m < 100" "0 \<le> d" "d < 100"
    using p(1) by (auto simp: days_in_def split: if_splits)
  have f: "format_rfc3339 t = pad4 y @ ''-'' @ pad2 m @ ''-'' @ pad2 d @ ''T'' @ pad2 h @ '':'' @ pad2 mi @ '':'' @ pad2 sec @ ''Z''"
    unfolding format_rfc3339_def Let_def s_def[symmetric] days_def[symmetric] r_def[symmetric] c h_def mi_def sec_def by simp
  have "parse_rfc3339 (format_rfc3339 t) = Some (s * second)"
    unfolding f parse_rfc3339_def
    using p days hms md sr(1)
    by (simp add: get_year_pad4 get_num_pad2 expect_def get_fraction_def get_zone_def algebra_simps)
  with ts show ?thesis by simp
qed

end
