(* ===== verification/EventsBlock.thy ===== *)
theory EventsBlock
  imports TriggerTypes Rfc3339
begin

text \<open>
  \<open>pkg/triggers/events_block.go\<close>: the table of recent Kubernetes events that the engine
  appends to every match. The lister is the parameter of the enrich context; \<open>sort.Slice\<close>
  leaves the order of equal keys open and the model keeps the order of the input.
\<close>

section \<open>The table\<close>

definition recentEventsLimit :: int where "recentEventsLimit = 30"
definition supplementaryEventsLimit :: int where "supplementaryEventsLimit = 10"

text \<open>
  The rounding of \<open>Duration.Hours\<close> within a nanosecond of a day boundary, on ages of half a
  year and more, is not modelled: the days are counted exactly.
\<close>

definition formatEventTimeAgo :: "time \<Rightarrow> time \<Rightarrow> string" where
  "formatEventTimeAgo now t =
     (if t = zero_time then ''unknown''
      else let d = time_sub now t in
        if d < 0 then format_rfc3339 t
        else if d < minute then int_dec (d div second) @ ''s ago''
        else if d < hour then int_dec (d div minute) @ ''m ago''
        else if d < 24 * hour then int_dec (d div hour) @ ''h ago''
        else int_dec (d div (24 * hour)) @ ''d ago'')"

definition ellipsis :: string where
  "ellipsis = map char_of [0xE2, 0x80, 0xA6 :: nat]"

definition truncate :: "string \<Rightarrow> nat \<Rightarrow> string" where
  "truncate s m = (if length s \<le> m then s else take (m - 1) s @ ellipsis)"

definition event_row :: "time \<Rightarrow> k8s_event \<Rightarrow> gval" where
  "event_row now e = VArr [VStr (formatEventTimeAgo now (ke_LastSeen e)), VStr (ke_Type e), VStr (ke_Reason e),
     VStr (ke_Source e), VStr (int_dec (if ke_Count e = 0 then 1 else ke_Count e)), VStr (truncate (ke_Message e) 200)]"

definition recentEventsTable ::
  "time \<Rightarrow> enrich_context \<Rightarrow> string \<Rightarrow> string \<Rightarrow> string \<Rightarrow> string \<Rightarrow> int \<Rightarrow> evidence_block list" where
  "recentEventsTable now ec namespace kind nam title limit = (case ec_EventsLister ec of
     None \<Rightarrow> []
   | Some listEvents \<Rightarrow> (case listEvents namespace kind nam limit of
        None \<Rightarrow> []
      | Some events \<Rightarrow>
          if events = [] then []
          else
            (let sorted = sort_key (\<lambda>e. - ke_LastSeen e) events in
             [[(''type'', VStr ''table''),
               (''data'', VObj
                 [(''table_name'', VStr title),
                  (''headers'', VArr [VStr ''Last Seen'', VStr ''Type'', VStr ''Reason'', VStr ''Source'', VStr ''Count'', VStr ''Message'']),
                  (''rows'', VArr (map (event_row now) sorted)),
                  (''column_renderers'', VObj [])]),
               (''additional_info'', VObj
                 [(''object_kind'', VStr kind), (''object_namespace'', VStr namespace), (''object_name'', VStr nam),
                  (''event_count'', VInt (int (length events)))])]])))"

lemma recentEventsTable_unwired [simp]: "ec_EventsLister ec = None \<Longrightarrow> recentEventsTable now ec ns k n t l = []"
  by (simp add: recentEventsTable_def)

end
