(* ===== verification/Predicates.thy ===== *)
theory Predicates
  imports Diff EventsBlock
begin

text \<open>
  \<open>pkg/triggers/predicates.go\<close> and \<open>pkg/triggers/service_endpoints.go\<close>: the built-in matchers,
  each as the record the code builds (name, kind, window, predicate, fingerprint, occurrence
  key, evidence), and the field walks they share. SHA-256, the YAML encoder and the line
  matcher are the fields of the parameter record \<open>ext\<close>. The theory proves what each predicate
  decides: an OOM kill is the most recent termination, a recovered Pod, the dwell times of node
  and Pod conditions, the job transition, and that equal fingerprints mean equal identities.
\<close>

record ext =
  x_sha256hex :: "string \<Rightarrow> string"
  x_yaml_Marshal :: "gval \<Rightarrow> string option"
  x_getOpCodes :: line_matcher

section \<open>Field walks\<close>

definition maps_of :: "gval list \<Rightarrow> gmap list" where
  "maps_of xs = List.map_filter as_map xs"

definition podContainerStatuses :: "gmap \<Rightarrow> gmap list" where
  "podContainerStatuses obj = (case get_map obj ''status'' of
     None \<Rightarrow> []
   | Some st \<Rightarrow> concat (map (\<lambda>key. maps_of (as_arr (mget st key)))
       [''containerStatuses'', ''initContainerStatuses'', ''ephemeralContainerStatuses'']))"

definition podRegularContainerStatuses :: "gmap \<Rightarrow> gmap list" where
  "podRegularContainerStatuses obj = (case get_map obj ''status'' of
     None \<Rightarrow> [] | Some st \<Rightarrow> maps_of (as_arr (mget st ''containerStatuses'')))"

text \<open>\<open>cs["state"].(map[string]any)["waiting"].(map[string]any)\<close> and its reason.\<close>

definition waiting_state :: "gmap \<Rightarrow> gmap option" where
  "waiting_state cs = oget_map (get_map cs ''state'') ''waiting''"

definition restart_count :: "gmap \<Rightarrow> int" where
  "restart_count cs = int_of_float (as_float (mget cs ''restartCount''))"

definition obj_conditions :: "gmap \<Rightarrow> gval list" where
  "obj_conditions obj = oget_arr (get_map obj ''status'') ''conditions''"

definition find_condition :: "gmap \<Rightarrow> string \<Rightarrow> gmap option option" where
  "find_condition obj t =
     map_option as_map (find (\<lambda>c. oget_str (as_map c) ''type'' = t) (obj_conditions obj))"

definition jobHasFailedCondition :: "gmap option \<Rightarrow> bool" where
  "jobHasFailedCondition obj = (case obj of
     None \<Rightarrow> False
   | Some o' \<Rightarrow> (\<exists>c\<in>set (obj_conditions o'). oget_str (as_map c) ''type'' = ''Failed'' \<and>
       oget_str (as_map c) ''status'' = ''True''))"

definition nodeConditionStatus :: "gmap \<Rightarrow> string \<Rightarrow> string" where
  "nodeConditionStatus obj condType = (case find_condition obj condType of
     None \<Rightarrow> [] | Some cm \<Rightarrow> oget_str cm ''status'')"

definition nodeConditionLastTransition :: "gmap \<Rightarrow> string \<Rightarrow> string" where
  "nodeConditionLastTransition obj condType = (case find_condition obj condType of
     None \<Rightarrow> [] | Some cm \<Rightarrow> oget_str cm ''lastTransitionTime'')"

definition nodeReadyStatus :: "gmap \<Rightarrow> string" where
  "nodeReadyStatus obj = nodeConditionStatus obj ''Ready''"

definition nodeReadyLastTransition :: "gmap \<Rightarrow> string" where
  "nodeReadyLastTransition obj = nodeConditionLastTransition obj ''Ready''"

definition pressureConditions :: "string list" where
  "pressureConditions = [''DiskPressure'', ''MemoryPressure'', ''PIDPressure'']"

definition activeNodePressure :: "gmap \<Rightarrow> string" where
  "activeNodePressure obj = (case find (\<lambda>c. nodeConditionStatus obj c = ''True'') pressureConditions of
     None \<Rightarrow> [] | Some c \<Rightarrow> c)"

definition nodeUnschedulable :: "gmap \<Rightarrow> bool" where
  "nodeUnschedulable obj = as_bool (omget (get_map obj ''spec'') ''unschedulable'')"

definition nodeUnschedulableSince :: "gmap \<Rightarrow> string" where
  "nodeUnschedulableSince obj =
     (case find (\<lambda>t. oget_str (as_map t) ''key'' = ''node.kubernetes.io/unschedulable'')
             (oget_arr (get_map obj ''spec'') ''taints'') of
        None \<Rightarrow> [] | Some t \<Rightarrow> oget_str (as_map t) ''timeAdded'')"

definition podScheduledFalse :: "gmap \<Rightarrow> bool \<times> string" where
  "podScheduledFalse obj = (case find_condition obj ''PodScheduled'' of
     None \<Rightarrow> (False, [])
   | Some cm \<Rightarrow>
       if oget_str cm ''status'' = ''False'' then (True, oget_str cm ''lastTransitionTime'') else (False, []))"

definition durationSinceRFC3339 :: "time \<Rightarrow> string \<Rightarrow> duration option" where
  "durationSinceRFC3339 now ts = (if ts = [] then None else map_option (time_sub now) (parse_rfc3339 ts))"

definition podNodeName :: "gmap \<Rightarrow> string" where
  "podNodeName obj = oget_str (get_map obj ''spec'') ''nodeName''"

definition pull_failed :: "gmap \<Rightarrow> bool" where
  "pull_failed cs = (case waiting_state cs of
     None \<Rightarrow> False
   | Some w \<Rightarrow> as_str (mget w ''reason'') = ''ImagePullBackOff'' \<or> as_str (mget w ''reason'') = ''ErrImagePull'')"

definition firstFailingImage :: "gmap \<Rightarrow> string" where
  "firstFailingImage obj = (case find pull_failed (podContainerStatuses obj) of
     None \<Rightarrow> [] | Some cs \<Rightarrow> as_str (mget cs ''image''))"

definition containersInImagePullBackoff :: "gmap \<Rightarrow> (string, bool) gomap" where
  "containersInImagePullBackoff obj =
     map_from_pairs (map (\<lambda>cs. (as_str (mget cs ''name''), True)) (filter pull_failed (podContainerStatuses obj)))"

section \<open>OOM kills\<close>

definition terminatedState :: "gval \<Rightarrow> gmap option" where
  "terminatedState v = oget_map (as_map v) ''terminated''"

definition isOOM :: "gmap \<Rightarrow> bool" where
  "isOOM terminated \<longleftrightarrow> as_str (mget terminated ''reason'') = ''OOMKilled''"

definition containerOOMTermination :: "gmap \<Rightarrow> gmap option \<times> string" where
  "containerOOMTermination cs = (case terminatedState (mget cs ''state'') of
     Some st \<Rightarrow> if \<not> isOOM st then (None, []) else (Some st, as_str (mget st ''finishedAt''))
   | None \<Rightarrow> (case terminatedState (mget cs ''lastState'') of
        Some st \<Rightarrow> if isOOM st then (Some st, as_str (mget st ''finishedAt'')) else (None, [])
      | None \<Rightarrow> (None, [])))"

definition oom_scan :: "(gmap \<times> string) option \<Rightarrow> gmap \<Rightarrow> (gmap \<times> string) option" where
  "oom_scan best cs = (case containerOOMTermination cs of
     (None, _) \<Rightarrow> best
   | (Some t, ts) \<Rightarrow> (case best of
        None \<Rightarrow> Some (cs, ts)
      | Some (_, bestTS) \<Rightarrow> if ts > bestTS then Some (cs, ts) else best))"

definition mostRecentOOMKilledContainerStatus :: "gmap \<Rightarrow> gmap option" where
  "mostRecentOOMKilledContainerStatus obj = map_option fst (foldl oom_scan None (podContainerStatuses obj))"

definition oomOccurrenceKey :: "gmap \<Rightarrow> string" where
  "oomOccurrenceKey obj = (case mostRecentOOMKilledContainerStatus obj of
     None \<Rightarrow> []
   | Some cs \<Rightarrow>
       (let ts = snd (containerOOMTermination cs) in
        if ts = [] then []
        else join ''/'' [metaNS obj, metaName obj, as_str (mget cs ''name''), ts]))"

section \<open>Memory quantities\<close>

fun parseInt64_loop :: "int \<Rightarrow> bool \<Rightarrow> string \<Rightarrow> int" where
  "parseInt64_loop n seenDigit [] = (if seenDigit then n else 0)"
| "parseInt64_loop n seenDigit (c # cs) =
     (if is_digit c then parseInt64_loop (wrap64 (n * 10 + int (digit_val c))) True cs
      else if c = CHR ''.'' then (if seenDigit then n else 0)
      else 0)"

definition parseInt64 :: "string \<Rightarrow> int" where
  "parseInt64 s = parseInt64_loop 0 False s"

definition binary_mult :: "(string, int) gomap" where
  "binary_mult = [(''Ki'', 1024), (''Mi'', 1024 ^ 2), (''Gi'', 1024 ^ 3), (''Ti'', 1024 ^ 4), (''Pi'', 1024 ^ 5),
     (''Ei'', 1024 ^ 6)]"

definition si_mult :: "(char, int) gomap" where
  "si_mult = [(CHR ''k'', 1000), (CHR ''K'', 1000), (CHR ''M'', 1000 ^ 2), (CHR ''G'', 1000 ^ 3),
     (CHR ''T'', 1000 ^ 4), (CHR ''P'', 1000 ^ 5), (CHR ''E'', 1000 ^ 6)]"

definition parseMemBytes :: "string \<Rightarrow> int" where
  "parseMemBytes s0 =
     (let s = trim_space s0; n = length s in
      if s = [] then 0
      else case (if 2 < n then map_of binary_mult (drop (n - 2) s) else None) of
        Some m \<Rightarrow> wrap64 (parseInt64 (take (n - 2) s) * m)
      | None \<Rightarrow> (case (if 1 < n then map_of si_mult (last s) else None) of
           Some m \<Rightarrow> wrap64 (parseInt64 (butlast s) * m)
         | None \<Rightarrow> parseInt64 s))"

definition parseMemMB :: "string \<Rightarrow> int" where
  "parseMemMB s = quot64 (parseMemBytes s) (1024 * 1024)"

definition containerMemoryResourcesMB :: "gmap \<Rightarrow> string \<Rightarrow> int \<times> int" where
  "containerMemoryResourcesMB obj containerName = (case get_map obj ''spec'' of
     None \<Rightarrow> (0, 0)
   | Some spec \<Rightarrow>
       (case find (\<lambda>c. as_str (mget c ''name'') = containerName)
          (concat (map (\<lambda>key. maps_of (as_arr (mget spec key))) [''containers'', ''initContainers'', ''ephemeralContainers''])) of
          None \<Rightarrow> (0, 0)
        | Some c \<Rightarrow>
            (let res = get_map c ''resources'' in
             (parseMemMB (oget_str (oget_map res ''requests'') ''memory''),
              parseMemMB (oget_str (oget_map res ''limits'') ''memory'')))))"

section \<open>Pod matchers\<close>

definition minRestarts :: int where "minRestarts = 2"

definition crash_looping :: "gmap \<Rightarrow> bool" where
  "crash_looping cs = (case waiting_state cs of
     None \<Rightarrow> False
   | Some w \<Rightarrow> as_str (mget w ''reason'') = ''CrashLoopBackOff'' \<and> minRestarts \<le> restart_count cs)"

definition podCrashLoopPredicate :: "gmap \<Rightarrow> bool" where
  "podCrashLoopPredicate obj = list_ex crash_looping (podContainerStatuses obj)"

definition owner_or_name :: "gmap \<Rightarrow> string" where
  "owner_or_name obj = (let owner = ResolveOwner obj in if owner_name owner \<noteq> [] then owner_name owner else metaName obj)"

definition podCrashLoopFingerprint :: "ext \<Rightarrow> gmap \<Rightarrow> string" where
  "podCrashLoopFingerprint x obj = fp (x_sha256hex x) [''report_crash_loop'', metaNS obj, owner_or_name obj]"

definition podCrashLoopStableWindow :: duration where "podCrashLoopStableWindow = 10 * minute"

definition stably_running :: "time \<Rightarrow> gmap \<Rightarrow> bool" where
  "stably_running now cs \<longleftrightarrow> as_bool (mget cs ''ready'') \<and>
     (case oget_map (get_map cs ''state'') ''running'' of
        None \<Rightarrow> False
      | Some running \<Rightarrow> (case durationSinceRFC3339 now (as_str (mget running ''startedAt'')) of
           None \<Rightarrow> False | Some since \<Rightarrow> podCrashLoopStableWindow \<le> since))"

definition podCrashLoopRecovered :: "time \<Rightarrow> gmap \<Rightarrow> bool" where
  "podCrashLoopRecovered now obj =
     (let statuses = podRegularContainerStatuses obj in
      if statuses = [] then False else list_all (stably_running now) statuses)"

definition reason_block :: "string \<Rightarrow> string \<Rightarrow> gmap option \<Rightarrow> evidence_block list" where
  "reason_block nam what st =
     (if oget_str st ''reason'' \<noteq> [] then [markdownBlock (''*'' @ nam @ ''* '' @ what @ '' reason: '' @ oget_str st ''reason'')]
      else [])"

definition crash_blocks :: "gmap \<Rightarrow> evidence_block list" where
  "crash_blocks cs =
     (let nam = as_str (mget cs ''name''); st = get_map cs ''state''; rc = restart_count cs in
      if waiting_state cs = None \<or> rc < 1 \<or> nam = [] then []
      else markdownBlock (''*'' @ nam @ ''* restart count: '' @ int_dec rc)
        # reason_block nam ''waiting'' (waiting_state cs)
        @ reason_block nam ''termination'' (oget_map st ''terminated'')
        @ reason_block nam ''termination'' (oget_map (get_map cs ''lastState'') ''terminated''))"

definition crashLoopEnrichBlocks :: "gmap \<Rightarrow> evidence_block list" where
  "crashLoopEnrichBlocks obj = concat (map crash_blocks (podContainerStatuses obj))"

definition matcher_base :: matcher_spec where
  "matcher_base = \<lparr>ms_Name = [], ms_Kind = [], ms_Operations = [], ms_Predicate = None, ms_PredicateCtx = None,
     ms_RecoveryPredicate = None, ms_AggregationKey = [], ms_Priority = [], ms_FindingType = [], ms_RateLimit = 0,
     ms_FingerprintFn = None, ms_OccurrenceKeyFn = None, ms_SuppressChurn = False, ms_SuppressOnResync = False,
     ms_EnrichBlocks = None\<rparr>"

definition podCrashLoopMatcher :: "ext \<Rightarrow> matcher_spec" where
  "podCrashLoopMatcher x = matcher_base\<lparr>ms_Name := ''pod_crash_loop'', ms_Kind := ''Pod'', ms_Operations := [''update''],
     ms_AggregationKey := ''report_crash_loop'', ms_Priority := ''HIGH'', ms_FindingType := ''issue'', ms_RateLimit := hour,
     ms_Predicate := Some (\<lambda>now obj _. podCrashLoopPredicate obj),
     ms_RecoveryPredicate := Some (\<lambda>now obj _. podCrashLoopRecovered now obj),
     ms_FingerprintFn := Some (\<lambda>now obj. podCrashLoopFingerprint x obj),
     ms_EnrichBlocks := Some (\<lambda>now obj _ _. crashLoopEnrichBlocks obj)\<rparr>"

definition oomFreshWindow :: duration where "oomFreshWindow = hour"

definition podOOMKilledPredicate :: "time \<Rightarrow> gmap \<Rightarrow> bool" where
  "podOOMKilledPredicate now obj = (case mostRecentOOMKilledContainerStatus obj of
     None \<Rightarrow> False
   | Some cs \<Rightarrow> (case parse_rfc3339 (snd (containerOOMTermination cs)) of
        None \<Rightarrow> True
      | Some finishedAt \<Rightarrow> time_sub now finishedAt \<le> oomFreshWindow))"

definition table_row :: "string \<Rightarrow> string \<Rightarrow> gval" where
  "table_row a b = VArr [VStr a, VStr b]"

definition table_block :: "string \<Rightarrow> gval list \<Rightarrow> gval list \<Rightarrow> evidence_block" where
  "table_block nam headers rows = [(''type'', VStr ''table''),
     (''data'', VObj [(''table_name'', VStr nam), (''headers'', VArr headers), (''rows'', VArr rows),
        (''column_renderers'', VObj [])]),
     (''additional_info'', VNil)]"

definition memory_cell :: "int \<Rightarrow> int \<Rightarrow> string" where
  "memory_cell req lim =
     (if req > 0 then int_dec req @ ''MB request'' else ''No request'') @ '', '' @
     (if lim > 0 then int_dec lim @ ''MB limit'' else ''No limit'')"

definition oom_rows :: "gmap \<Rightarrow> gmap \<Rightarrow> gval list" where
  "oom_rows obj cs =
     (let cName = as_str (mget cs ''name''); (req, lim) = containerMemoryResourcesMB obj cName;
          t = fst (containerOOMTermination cs) in
      [table_row ''Pod'' (metaName obj), table_row ''Namespace'' (metaNS obj)]
      @ (if podNodeName obj \<noteq> [] then [table_row ''Node Name'' (podNodeName obj)] else [])
      @ (if cName \<noteq> [] then [table_row ''Container name'' cName, table_row ''Container memory'' (memory_cell req lim)] else [])
      @ (if oget_str t ''startedAt'' \<noteq> [] then [table_row ''Container started at'' (oget_str t ''startedAt'')] else [])
      @ (if oget_str t ''finishedAt'' \<noteq> [] then [table_row ''Container finished at'' (oget_str t ''finishedAt'')] else []))"

definition oomKilledEnrichBlocks :: "gmap \<Rightarrow> evidence_block list" where
  "oomKilledEnrichBlocks obj = (case mostRecentOOMKilledContainerStatus obj of
     None \<Rightarrow> []
   | Some cs \<Rightarrow> [table_block ''*Pod and Node OOMKilled data*'' [VStr ''field'', VStr ''value''] (oom_rows obj cs)])"

definition podOOMKilledMatcher :: "ext \<Rightarrow> matcher_spec" where
  "podOOMKilledMatcher x = matcher_base\<lparr>ms_Name := ''pod_oom_killed'', ms_Kind := ''Pod'', ms_Operations := [''update''],
     ms_AggregationKey := ''pod_oom_killer_enricher'', ms_Priority := ''HIGH'', ms_FindingType := ''issue'', ms_RateLimit := hour,
     ms_Predicate := Some (\<lambda>now obj _. podOOMKilledPredicate now obj),
     ms_FingerprintFn := Some (\<lambda>now obj. fp (x_sha256hex x) [''pod_oom_killer_enricher'', metaNS obj, owner_or_name obj]),
     ms_OccurrenceKeyFn := Some oomOccurrenceKey,
     ms_EnrichBlocks := Some (\<lambda>now obj _ _. oomKilledEnrichBlocks obj)\<rparr>"

definition pull_identity :: "gmap \<Rightarrow> string" where
  "pull_identity obj = (let owner = ResolveOwner obj in
     if owner_name owner \<noteq> [] then (if owner_kind owner = ''job'' then JobFamily (owner_name owner) else owner_name owner)
     else metaName obj)"

definition imagePullBackoffEnrichBlocks :: "gmap \<Rightarrow> evidence_block list" where
  "imagePullBackoffEnrichBlocks obj = concat (map (\<lambda>cs.
     let nam = as_str (mget cs ''name'') in
     if \<not> pull_failed cs \<or> nam = [] then []
     else [headerBlock (''ImagePullBackOff in container '' @ nam), markdownBlock (''*Image:* '' @ as_str (mget cs ''image''))])
     (podContainerStatuses obj))"

definition imagePullBackoffMatcher :: "ext \<Rightarrow> matcher_spec" where
  "imagePullBackoffMatcher x = matcher_base\<lparr>ms_Name := ''image_pull_backoff'', ms_Kind := ''Pod'', ms_Operations := [''update''],
     ms_AggregationKey := ''image_pull_backoff_reporter'', ms_Priority := ''MEDIUM'', ms_FindingType := ''issue'',
     ms_RateLimit := 10 * minute,
     ms_Predicate := Some (\<lambda>now obj _. 0 < length (containersInImagePullBackoff obj)),
     ms_FingerprintFn := Some (\<lambda>now obj.
        fp (x_sha256hex x) [''image_pull_backoff_reporter'', metaNS obj, pull_identity obj, firstFailingImage obj]),
     ms_EnrichBlocks := Some (\<lambda>now obj _ _. imagePullBackoffEnrichBlocks obj)\<rparr>"

definition podUnschedulableMinDuration :: duration where "podUnschedulableMinDuration = 10 * minute"

definition dwelt :: "time \<Rightarrow> string \<Rightarrow> duration \<Rightarrow> bool" where
  "dwelt now ts least = (case durationSinceRFC3339 now ts of None \<Rightarrow> False | Some since \<Rightarrow> least \<le> since)"

definition podUnschedulablePredicate :: "time \<Rightarrow> gmap \<Rightarrow> bool" where
  "podUnschedulablePredicate now obj = (case podScheduledFalse obj of
     (False, _) \<Rightarrow> False | (True, ts) \<Rightarrow> dwelt now ts podUnschedulableMinDuration)"

definition podUnschedulableMatcher :: "ext \<Rightarrow> matcher_spec" where
  "podUnschedulableMatcher x = matcher_base\<lparr>ms_Name := ''pod_unschedulable'', ms_Kind := ''Pod'', ms_Operations := [''update''],
     ms_AggregationKey := ''pod_unschedulable'', ms_Priority := ''HIGH'', ms_FindingType := ''issue'', ms_RateLimit := 6 * hour,
     ms_Predicate := Some (\<lambda>now obj _. podUnschedulablePredicate now obj),
     ms_FingerprintFn := Some (\<lambda>now obj. fp (x_sha256hex x)
        [''pod_unschedulable'', metaNS obj, owner_or_name obj, snd (podScheduledFalse obj)])\<rparr>"

section \<open>Job and node matchers\<close>

definition jobFailurePredicate :: "gmap \<Rightarrow> gmap option \<Rightarrow> bool" where
  "jobFailurePredicate obj oldObj \<longleftrightarrow> jobHasFailedCondition (Some obj) \<and> \<not> jobHasFailedCondition oldObj"

definition job_identity :: "gmap \<Rightarrow> string" where
  "job_identity obj = (let owner = ResolveOwner obj in
     if owner_name owner \<noteq> [] then owner_name owner else JobFamily (metaName obj))"

definition jobFailureMatcher :: "ext \<Rightarrow> matcher_spec" where
  "jobFailureMatcher x = matcher_base\<lparr>ms_Name := ''job_failure'', ms_Kind := ''Job'', ms_Operations := [''update''],
     ms_AggregationKey := ''job_failure'', ms_Priority := ''MEDIUM'', ms_FindingType := ''issue'', ms_RateLimit := 10 * minute,
     ms_Predicate := Some (\<lambda>now obj oldObj. jobFailurePredicate obj oldObj),
     ms_FingerprintFn := Some (\<lambda>now obj. fp (x_sha256hex x) [''job_failure'', metaNS obj, job_identity obj])\<rparr>"

definition nodeNotReadyMinDuration :: duration where "nodeNotReadyMinDuration = 15 * minute"

definition nodeNotReadyPredicate :: "time \<Rightarrow> gmap \<Rightarrow> bool" where
  "nodeNotReadyPredicate now obj =
     (if nodeReadyStatus obj \<noteq> ''False'' then False else dwelt now (nodeReadyLastTransition obj) nodeNotReadyMinDuration)"

definition nodeNotReadyMatcher :: "ext \<Rightarrow> matcher_spec" where
  "nodeNotReadyMatcher x = matcher_base\<lparr>ms_Name := ''node_not_ready'', ms_Kind := ''Node'', ms_Operations := [''update''],
     ms_AggregationKey := ''node_not_ready'', ms_Priority := ''HIGH'', ms_FindingType := ''issue'', ms_RateLimit := 6 * hour,
     ms_Predicate := Some (\<lambda>now obj _. nodeNotReadyPredicate now obj),
     ms_FingerprintFn := Some (\<lambda>now obj. fp (x_sha256hex x) [''node_not_ready'', metaName obj, nodeReadyLastTransition obj])\<rparr>"

definition nodeUnschedulableMinDuration :: duration where "nodeUnschedulableMinDuration = 15 * minute"

definition nodeUnschedulablePredicate :: "time \<Rightarrow> gmap \<Rightarrow> bool" where
  "nodeUnschedulablePredicate now obj =
     (if \<not> nodeUnschedulable obj then False
      else if nodeUnschedulableSince obj = [] then False
      else dwelt now (nodeUnschedulableSince obj) nodeUnschedulableMinDuration)"

definition nodeUnschedulableMatcher :: "ext \<Rightarrow> matcher_spec" where
  "nodeUnschedulableMatcher x = matcher_base\<lparr>ms_Name := ''node_unschedulable'', ms_Kind := ''Node'', ms_Operations := [''update''],
     ms_AggregationKey := ''node_unschedulable'', ms_Priority := ''MEDIUM'', ms_FindingType := ''issue'', ms_RateLimit := 6 * hour,
     ms_Predicate := Some (\<lambda>now obj _. nodeUnschedulablePredicate now obj),
     ms_FingerprintFn := Some (\<lambda>now obj. fp (x_sha256hex x) [''node_unschedulable'', metaName obj, nodeUnschedulableSince obj])\<rparr>"

definition nodePressureWindow :: duration where "nodePressureWindow = 6 * hour"

definition pressure_bucket :: "time \<Rightarrow> gmap \<Rightarrow> int" where
  "pressure_bucket now obj = time_unix (time_truncate
     (case parse_rfc3339 (nodeConditionLastTransition obj (activeNodePressure obj)) of None \<Rightarrow> now | Some t \<Rightarrow> t)
     nodePressureWindow)"

definition nodePressureMatcher :: "ext \<Rightarrow> matcher_spec" where
  "nodePressureMatcher x = matcher_base\<lparr>ms_Name := ''node_pressure'', ms_Kind := ''Node'', ms_Operations := [''update''],
     ms_AggregationKey := ''node_pressure'', ms_Priority := ''HIGH'', ms_FindingType := ''issue'', ms_RateLimit := nodePressureWindow,
     ms_Predicate := Some (\<lambda>now obj _. activeNodePressure obj \<noteq> []),
     ms_FingerprintFn := Some (\<lambda>now obj. fp (x_sha256hex x)
        [''node_pressure'', metaName obj, activeNodePressure obj, ''b'' @ int_dec (pressure_bucket now obj)])\<rparr>"

section \<open>Configuration changes\<close>

definition babysitterDiffOptions :: "string \<Rightarrow> spec_diff_options" where
  "babysitterDiffOptions kind = (if equal_fold kind ''Ingress'' then IngressDiffOptions else DefaultSpecDiffOptions)"

definition babysitterBlock ::
  "ext \<Rightarrow> string \<Rightarrow> gmap option \<Rightarrow> gmap option \<Rightarrow> diff_entry list \<Rightarrow> evidence_block" where
  "babysitterBlock x kind obj oldObj diffs =
     (if equal_fold kind ''Ingress'' then BuildIngressDiffBlock (x_yaml_Marshal x) obj oldObj diffs
      else BuildKubernetesDiffBlock (x_yaml_Marshal x) obj oldObj kind diffs)"

definition babysitterPredicate :: "string \<Rightarrow> gmap \<Rightarrow> gmap option \<Rightarrow> bool" where
  "babysitterPredicate kind obj oldObj = (case oldObj of
     None \<Rightarrow> False | Some _ \<Rightarrow> 0 < length (ComputeSpecDiff (Some obj) oldObj (babysitterDiffOptions kind)))"

definition changeAggregationKey :: string where
  "changeAggregationKey = ''ConfigurationChange/KubernetesResource/Change''"

definition babysitterChangeMatcher :: "ext \<Rightarrow> string \<Rightarrow> matcher_spec" where
  "babysitterChangeMatcher x kind = matcher_base\<lparr>ms_Name := ''babysitter_'' @ to_lower kind, ms_Kind := kind,
     ms_Operations := [''update''], ms_AggregationKey := changeAggregationKey, ms_Priority := ''INFO'',
     ms_FindingType := ''configuration_change'', ms_RateLimit := 30 * second,
     ms_Predicate := Some (\<lambda>now obj oldObj. babysitterPredicate kind obj oldObj),
     ms_FingerprintFn := Some (\<lambda>now obj. fp (x_sha256hex x) [changeAggregationKey, metaNS obj, to_lower kind, metaName obj]),
     ms_EnrichBlocks := Some (\<lambda>now obj oldObj _.
        let diffs = ComputeSpecDiff (Some obj) oldObj (babysitterDiffOptions kind) in
        if diffs = [] then [] else [babysitterBlock x kind (Some obj) oldObj diffs])\<rparr>"

definition ConfigMapExcludedNamespaces :: "string list" where
  "ConfigMapExcludedNamespaces = [''kube-system'', ''kube-public'', ''kube-node-lease'', ''gke-managed-system'',
     ''gke-managed-cim'', ''gmp-system'', ''gke-gmp-system'']"

definition trackedSystemConfigMaps :: "string list" where
  "trackedSystemConfigMaps = [''coredns'', ''kube-dns'', ''aws-auth'', ''kube-proxy'', ''kubelet-config'',
     ''cluster-autoscaler-priority-expander'']"

text \<open>The namespace list is a package variable that the boot code may replace.\<close>

definition inExcludedNamespace :: "string list \<Rightarrow> string \<Rightarrow> bool" where
  "inExcludedNamespace excluded namespace \<longleftrightarrow> namespace \<noteq> [] \<and>
     list_ex (\<lambda>ns. ns = namespace \<or> (has_suffix ns ''*'' \<and> has_prefix namespace (trim_suffix ns ''*''))) excluded"

definition isTrackedSystemConfigMap :: "string \<Rightarrow> bool" where
  "isTrackedSystemConfigMap nam \<longleftrightarrow> nam \<in> set trackedSystemConfigMaps"

definition isNoisyConfigMap :: "string list \<Rightarrow> gmap \<Rightarrow> bool" where
  "isNoisyConfigMap excluded obj =
     (if metaName obj = ''kube-root-ca.crt'' then True
      else if inExcludedNamespace excluded (metaNS obj) \<and> \<not> isTrackedSystemConfigMap (metaName obj) then True
      else case get_map obj ''metadata'' of
        None \<Rightarrow> False
      | Some meta \<Rightarrow>
          if mhas (get_map meta ''annotations'') ''control-plane.alpha.kubernetes.io/leader'' then True
          else oget_str (get_map meta ''labels'') ''OWNER'' \<in> {''TILLER'', ''HELM''})"

definition configMapPredicate :: "string list \<Rightarrow> gmap \<Rightarrow> gmap option \<Rightarrow> bool" where
  "configMapPredicate excluded obj oldObj =
     (if oldObj = None \<or> isNoisyConfigMap excluded obj then False
      else 0 < length (ComputeSpecDiff (Some obj) oldObj ConfigMapDiffOptions))"

text \<open>A panic while the block is built would be \<open>None\<close>; \<open>Diff\<close> shows there is none.\<close>

definition configMapEnrichBlocks :: "ext \<Rightarrow> gmap \<Rightarrow> gmap option \<Rightarrow> evidence_block list" where
  "configMapEnrichBlocks x obj oldObj =
     (let diffs = ComputeSpecDiff (Some obj) oldObj ConfigMapDiffOptions in
      if diffs = [] then []
      else (case BuildConfigMapDiffBlock (x_yaml_Marshal x) (x_getOpCodes x) (Some obj) oldObj diffs of
              None \<Rightarrow> [] | Some b \<Rightarrow> [b]))"

definition configMapChangeMatcher :: "ext \<Rightarrow> string list \<Rightarrow> matcher_spec" where
  "configMapChangeMatcher x excluded = matcher_base\<lparr>ms_Name := ''babysitter_configmap'', ms_Kind := ''ConfigMap'',
     ms_Operations := [''update''], ms_SuppressChurn := True, ms_AggregationKey := changeAggregationKey,
     ms_Priority := ''INFO'', ms_FindingType := ''configuration_change'', ms_RateLimit := 30 * second,
     ms_Predicate := Some (\<lambda>now obj oldObj. configMapPredicate excluded obj oldObj),
     ms_FingerprintFn := Some (\<lambda>now obj. fp (x_sha256hex x) [changeAggregationKey, metaNS obj, ''configmap'', metaName obj]),
     ms_EnrichBlocks := Some (\<lambda>now obj oldObj _. configMapEnrichBlocks x obj oldObj)\<rparr>"

section \<open>Which OOM kill is reported\<close>

definition oom_candidate :: "gmap \<Rightarrow> bool" where
  "oom_candidate cs \<longleftrightarrow> fst (containerOOMTermination cs) \<noteq> None"

lemma oom_scan_None: "\<not> oom_candidate cs \<Longrightarrow> oom_scan best cs = best"
  by (auto simp: oom_candidate_def oom_scan_def split: prod.splits option.splits)

lemma oom_scan_Some:
  "oom_candidate cs \<Longrightarrow> oom_scan best cs = (case best of
     None \<Rightarrow> Some (cs, snd (containerOOMTermination cs))
   | Some (c, bts) \<Rightarrow> if snd (containerOOMTermination cs) > bts then Some (cs, snd (containerOOMTermination cs)) else best)"
  by (auto simp: oom_candidate_def oom_scan_def split: prod.splits option.splits)

definition oom_best :: "gmap list \<Rightarrow> (gmap \<times> string) option \<Rightarrow> bool" where
  "oom_best css best = (case best of
     None \<Rightarrow> list_all (\<lambda>cs. \<not> oom_candidate cs) css
   | Some (c, ts) \<Rightarrow> c \<in> set css \<and> oom_candidate c \<and> ts = snd (containerOOMTermination c) \<and>
       (\<forall>cs\<in>set css. oom_candidate cs \<longrightarrow> snd (containerOOMTermination cs) \<le> ts))"

lemma oom_best_scan: "oom_best css (foldl oom_scan None css)"
proof (induction css rule: rev_induct)
  case (snoc cs css)
  show ?case
  proof (cases "oom_candidate cs")
    case True
    with snoc show ?thesis
      by (auto simp: oom_best_def oom_scan_Some list_all_iff split: option.splits if_splits)
  next
    case False
    with snoc show ?thesis
      by (auto simp: oom_best_def oom_scan_None list_all_iff split: option.splits)
  qed
qed (simp add: oom_best_def)

text \<open>The OOM kill a Pod is reported for. A container counts exactly when its most recent
  termination was an OOM kill: \<open>state.terminated\<close> if there is one (a later crash with another
  reason hides the OOM in \<open>lastState\<close>), else \<open>lastState.terminated\<close>. When no container of the
  Pod (regular, init or ephemeral) counts, none is chosen and the matcher does not fire;
  otherwise the chosen one counts and no other has a later \<open>finishedAt\<close>.\<close>

lemma mostRecentOOMKilled_spec:
  "(oom_candidate cs \<longleftrightarrow>
      (case terminatedState (mget cs ''state'') of
         Some st \<Rightarrow> isOOM st
       | None \<Rightarrow> (case terminatedState (mget cs ''lastState'') of Some st \<Rightarrow> isOOM st | None \<Rightarrow> False))) \<and>
   (case mostRecentOOMKilledContainerStatus obj of
      None \<Rightarrow> list_all (\<lambda>c. \<not> oom_candidate c) (podContainerStatuses obj) \<and> \<not> podOOMKilledPredicate now obj
    | Some c \<Rightarrow> c \<in> set (podContainerStatuses obj) \<and> oom_candidate c \<and>
        list_all (\<lambda>d. snd (containerOOMTermination d) \<le> snd (containerOOMTermination c))
          (filter oom_candidate (podContainerStatuses obj)))"
proof -
  have "oom_candidate cs \<longleftrightarrow>
      (case terminatedState (mget cs ''state'') of
         Some st \<Rightarrow> isOOM st
       | None \<Rightarrow> (case terminatedState (mget cs ''lastState'') of Some st \<Rightarrow> isOOM st | None \<Rightarrow> False))"
    by (auto simp: oom_candidate_def containerOOMTermination_def split: option.splits)
  then show ?thesis
    using oom_best_scan[of "podContainerStatuses obj"]
    by (auto simp: mostRecentOOMKilledContainerStatus_def oom_best_def podOOMKilledPredicate_def list_all_iff
        split: option.splits)
qed

text \<open>An old OOM kill stops firing and stays stopped. If the status carries a well-formed
  \<open>finishedAt\<close> the predicate holds exactly while the kill is at most one hour old; since the
  limiter's window is the same hour, a kill that fired is past this window when the window ends.\<close>

lemma podOOMKilled_fresh_window:
  assumes "mostRecentOOMKilledContainerStatus obj = Some cs"
    and "parse_rfc3339 (snd (containerOOMTermination cs)) = Some finishedAt"
  shows "(podOOMKilledPredicate now obj \<longleftrightarrow> now \<le> finishedAt + hour) \<and>
    (finishedAt \<le> fired \<and> fired + ms_RateLimit (podOOMKilledMatcher x) < now \<longrightarrow> \<not> podOOMKilledPredicate now obj)"
proof -
  have "time_sub now finishedAt \<le> oomFreshWindow \<longleftrightarrow> now - finishedAt \<le> oomFreshWindow"
    by (rule time_sub_le_iff) (simp_all add: oomFreshWindow_def int64_defs)
  with assms show ?thesis
    by (auto simp: podOOMKilledPredicate_def oomFreshWindow_def podOOMKilledMatcher_def)
qed

definition oom_pod :: gmap where
  "oom_pod = [(''metadata'', VObj [(''name'', VStr ''web-0''), (''namespace'', VStr ''prod'')]),
     (''status'', VObj [(''containerStatuses'', VArr [VObj [(''name'', VStr ''app''),
        (''lastState'', VObj [(''terminated'', VObj [(''reason'', VStr ''OOMKilled''),
           (''finishedAt'', VStr ''0001-01-01T00:00:00Z'')])])]])])]"

section \<open>Dwell times\<close>

lemma dwelt_iff:
  assumes "in_int64 least" "min_int64 < least"
  shows "dwelt now ts least \<longleftrightarrow> (\<exists>t. parse_rfc3339 ts = Some t \<and> t + least \<le> now)"
proof (cases "parse_rfc3339 ts")
  case (Some t)
  then have "ts \<noteq> []" by auto
  with Some time_sub_ge_iff[OF assms, of now t] show ?thesis
    by (auto simp: dwelt_def durationSinceRFC3339_def)
qed (auto simp: dwelt_def durationSinceRFC3339_def)

text \<open>The three sustained conditions fire exactly when the condition holds and its timestamp is
  well formed and at least the dwell time old (15, 15 and 10 minutes): never earlier, and from
  then on at every later observation of the same object.\<close>

lemma dwell_predicates_exact:
  "(nodeNotReadyPredicate now obj \<longleftrightarrow> nodeReadyStatus obj = ''False'' \<and>
      (\<exists>t. parse_rfc3339 (nodeReadyLastTransition obj) = Some t \<and> t + 15 * minute \<le> now)) \<and>
   (nodeUnschedulablePredicate now obj \<longleftrightarrow> nodeUnschedulable obj \<and>
      (\<exists>t. parse_rfc3339 (nodeUnschedulableSince obj) = Some t \<and> t + 15 * minute \<le> now)) \<and>
   (podUnschedulablePredicate now obj \<longleftrightarrow> nodeConditionStatus obj ''PodScheduled'' = ''False'' \<and>
      (\<exists>t. parse_rfc3339 (nodeConditionLastTransition obj ''PodScheduled'') = Some t \<and> t + 10 * minute \<le> now))"
proof -
  have d: "dwelt now ts (15 * minute) \<longleftrightarrow> (\<exists>t. parse_rfc3339 ts = Some t \<and> t + 15 * minute \<le> now)"
    "dwelt now ts (10 * minute) \<longleftrightarrow> (\<exists>t. parse_rfc3339 ts = Some t \<and> t + 10 * minute \<le> now)" for ts
    by (rule dwelt_iff; simp add: int64_defs)+
  have "podUnschedulablePredicate now obj \<longleftrightarrow> nodeConditionStatus obj ''PodScheduled'' = ''False'' \<and>
      (\<exists>t. parse_rfc3339 (nodeConditionLastTransition obj ''PodScheduled'') = Some t \<and> t + 10 * minute \<le> now)"
    unfolding podUnschedulablePredicate_def podScheduledFalse_def podUnschedulableMinDuration_def d
    by (auto simp: nodeConditionStatus_def nodeConditionLastTransition_def split: option.splits)
  moreover have "nodeUnschedulablePredicate now obj \<longleftrightarrow> nodeUnschedulable obj \<and>
      (\<exists>t. parse_rfc3339 (nodeUnschedulableSince obj) = Some t \<and> t + 15 * minute \<le> now)"
    unfolding nodeUnschedulablePredicate_def nodeUnschedulableMinDuration_def d by auto
  ultimately show ?thesis
    unfolding nodeNotReadyPredicate_def nodeNotReadyMinDuration_def d by auto
qed

section \<open>Memory quantities\<close>

lemma digits_value_mono: "m \<le> foldl (\<lambda>n c. n * 10 + digit_val c) m ds"
proof (induction ds arbitrary: m)
  case (Cons d ds)
  have "m \<le> m * 10 + digit_val d" by simp
  also have "\<dots> \<le> foldl (\<lambda>n c. n * 10 + digit_val c) (m * 10 + digit_val d) ds" by (rule Cons.IH)
  finally show ?case by simp
qed simp

lemma parseInt64_loop_digits:
  assumes "list_all is_digit ds" "int (foldl (\<lambda>n c. n * 10 + digit_val c) m ds) \<le> max_int64"
  shows "parseInt64_loop (int m) seen (ds @ r) =
    parseInt64_loop (int (foldl (\<lambda>n c. n * 10 + digit_val c) m ds)) (seen \<or> ds \<noteq> []) r"
  using assms
proof (induction ds arbitrary: m seen)
  case (Cons d ds)
  let ?m = "m * 10 + digit_val d"
  have "int ?m \<le> max_int64"
    using Cons.prems(2) digits_value_mono[of ?m ds] by simp
  then have "wrap64 (int m * 10 + int (digit_val d)) = int ?m"
    by (subst wrap64_id) (auto simp: int64_defs)
  with Cons.IH[of ?m True] Cons.prems show ?case by simp
qed simp

definition fraction_text :: "string \<Rightarrow> bool" where
  "fraction_text fr \<longleftrightarrow> fr = [] \<or> (hd fr = CHR ''.'' \<and> list_all is_digit (tl fr))"

lemma parseInt64_decimal:
  assumes "int n \<le> max_int64" "fraction_text fr"
  shows "parseInt64 (nat_dec n @ fr) = int n"
proof -
  have "list_all is_digit (nat_dec n)" by (simp add: list_all_iff nat_dec_digits)
  moreover have "foldl (\<lambda>n c. n * 10 + digit_val c) 0 (nat_dec n) = n"
    using dec_val_nat_dec[of n] by (simp add: dec_val_def)
  ultimately have "parseInt64 (nat_dec n @ fr) = parseInt64_loop (int n) True fr"
    using parseInt64_loop_digits[of "nat_dec n" 0 False fr] assms(1) by (simp add: parseInt64_def)
  also have "\<dots> = int n"
    using assms(2) by (cases fr) (auto simp: fraction_text_def is_digit_def)
  finally show ?thesis .
qed

lemma trim_space_id:
  assumes "s \<noteq> []" "\<not> is_space (hd s)" "\<not> is_space (last s)"
  shows "trim_space s = s"
proof -
  have "dropWhile is_space s = s" "dropWhile is_space (rev s) = rev s"
    using assms by (simp_all add: dropWhile_eq_self_iff hd_rev)
  then show ?thesis by (simp add: trim_space_def)
qed

lemma digit_not_space: "is_digit c \<Longrightarrow> \<not> is_space c"
  by (auto simp: is_digit_def is_space_def)

lemma binary_mult_SomeD: "map_of binary_mult k = Some m \<Longrightarrow> length k = 2 \<and> last k = CHR ''i'' \<and> 1 \<le> m"
  by (auto simp: binary_mult_def split: if_splits)

lemma si_mult_SomeD:
  "map_of si_mult c = Some m \<Longrightarrow> c \<noteq> CHR ''i'' \<and> \<not> is_space c \<and> \<not> is_digit c \<and> c \<noteq> CHR ''.'' \<and> 1 \<le> m"
  by (auto simp: si_mult_def is_space_def is_digit_def split: if_splits)

lemma decimal_last:
  "fraction_text fr \<Longrightarrow> is_digit (last (nat_dec n @ fr)) \<or> last (nat_dec n @ fr) = CHR ''.''"
proof (cases "fr = []")
  case True
  then show ?thesis by simp
next
  case False
  moreover assume "fraction_text fr"
  ultimately show ?thesis by (cases fr) (auto simp: fraction_text_def list_all_iff)
qed

definition memory_suffix :: "string \<Rightarrow> int option" where
  "memory_suffix suf = (if suf = [] then Some 1 else if length suf = 1 then map_of si_mult (hd suf)
     else map_of binary_mult suf)"

lemma binary_lookup_last: "s \<noteq> [] \<Longrightarrow> last s \<noteq> CHR ''i'' \<Longrightarrow> n < length s \<Longrightarrow> map_of binary_mult (drop n s) = None"
  using binary_mult_SomeD[of "drop n s"] by (cases "map_of binary_mult (drop n s)") auto

text \<open>What a memory quantity means to the agent: a decimal number, an optional fraction and
  an optional binary or SI suffix denote the integer part times the multiplier, exactly, as
  long as the product fits 64 bits. The fraction is dropped before the multiplication, so
  \<open>1.5Gi\<close> reads as one gibibyte.\<close>

lemma parseMemBytes_value:
  assumes "memory_suffix suf = Some m" "fraction_text fr" "int n * m \<le> max_int64"
  shows "parseMemBytes (nat_dec n @ fr @ suf) = int n * m"
proof -
  let ?d = "nat_dec n @ fr" and ?s = "nat_dec n @ fr @ suf"
  have m: "1 \<le> m" using assms(1) by (auto simp: memory_suffix_def split: if_splits dest: si_mult_SomeD binary_mult_SomeD)
  with assms(3) have nm: "int n \<le> max_int64" by (smt (verit) mult_le_cancel_left1 of_nat_0_le_iff)
  have d: "parseInt64 ?d = int n" by (rule parseInt64_decimal[OF nm assms(2)])
  have w: "wrap64 (int n * m) = int n * m"
    using assms(3) m by (intro wrap64_id) (auto simp: int64_defs intro: order_trans[of _ 0])
  have hd: "\<not> is_space (hd ?s)" by (simp add: digit_not_space)
  consider "suf = []" "m = 1" | c where "suf = [c]" "map_of si_mult c = Some m"
    | "length suf = 2" "last suf = CHR ''i''" "map_of binary_mult suf = Some m"
    using assms(1) by (cases suf) (auto simp: memory_suffix_def split: if_splits dest: binary_mult_SomeD)
  then show ?thesis
  proof cases
    case 1
    note ld = decimal_last[OF assms(2), of n]
    from ld have "\<not> is_space (last ?d)" "last ?d \<noteq> CHR ''i''"
      by (auto simp: is_digit_def is_space_def simp del: last_append)
    moreover from ld have "map_of si_mult (last ?d) = None"
      using si_mult_SomeD[of "last ?d"] by (metis not_Some_eq)
    ultimately have l: "\<not> is_space (last ?d)" "last ?d \<noteq> CHR ''i''" "map_of si_mult (last ?d) = None" by simp_all
    with 1 hd d show ?thesis
      using binary_lookup_last[of ?d "length ?d - 2"] by (simp add: parseMemBytes_def trim_space_id Let_def del: last_append)
  next
    case 2
    note c = si_mult_SomeD[OF 2(2)]
    have t: "trim_space ?s = ?d @ [c]" using 2(1) hd c by (simp add: trim_space_id)
    have "map_of binary_mult (drop (length ?s - 2) (?d @ [c])) = None"
      using binary_lookup_last[of "?d @ [c]" "length ?s - 2"] c 2(1) by simp
    with t 2 d w show ?thesis by (simp add: parseMemBytes_def Let_def butlast_append)
  next
    case 3
    have ne: "suf \<noteq> []" using 3(1) by auto
    have "\<not> is_space (last ?s)" using 3(2) ne by (simp add: is_space_def)
    then have t: "trim_space ?s = ?s" using hd by (simp add: trim_space_id)
    have "drop (length ?s - 2) ?s = suf" "take (length ?s - 2) ?s = ?d"
      using 3(1) by simp_all
    with t 3 d w show ?thesis by (simp add: parseMemBytes_def Let_def)
  qed
qed

section \<open>Fingerprints\<close>

lemma fp_eq_iff:
  assumes "inj sha" "length ps = length qs" "ps \<noteq> []"
    and "list_all (\<lambda>p. CHR '':'' \<notin> set p) (butlast ps)" "list_all (\<lambda>p. CHR '':'' \<notin> set p) (butlast qs)"
  shows "fp sha ps = fp sha qs \<longleftrightarrow> ps = qs"
  using join_inj[of "CHR '':''" ps qs] assms by (auto simp: fp_def list_all_iff dest: injD)

lemma int_dec_inj: "int_dec x = int_dec y \<longleftrightarrow> x = y"
proof -
  have "CHR ''-'' \<notin> set (nat_dec n)" for n
    using nat_dec_digits[of "CHR ''-''" n] by (auto simp: is_digit_def)
  then have "CHR ''-'' # nat_dec n \<noteq> nat_dec m" for n m
    by (metis list.set_intros(1))
  moreover have "nat_dec m \<noteq> CHR ''-'' # nat_dec n" for n m
    using calculation by metis
  ultimately show ?thesis by (auto simp: int_dec_def nat_dec_inj)
qed

text \<open>The crash-loop fingerprint identifies the workload. Two Pods share it exactly when they
  agree on the namespace and on the owner (or the Pod name where there is no owner); nothing
  that only a crashing Pod carries enters, so a healthy Pod of the workload derives the key the
  crashing one was limited under. SHA-256 is taken to be collision free, and a namespace holds
  no colon.\<close>

lemma podCrashLoopFingerprint_identity:
  assumes "inj (x_sha256hex x)" "CHR '':'' \<notin> set (metaNS o1)" "CHR '':'' \<notin> set (metaNS o2)"
  shows "podCrashLoopFingerprint x o1 = podCrashLoopFingerprint x o2 \<longleftrightarrow>
    metaNS o1 = metaNS o2 \<and> owner_or_name o1 = owner_or_name o2"
  unfolding podCrashLoopFingerprint_def
  by (subst fp_eq_iff) (use assms in simp_all)

definition sample_ext :: ext where
  "sample_ext = \<lparr>x_sha256hex = (\<lambda>s. s), x_yaml_Marshal = (\<lambda>v. Some []),
     x_getOpCodes = (\<lambda>bl al. [\<lparr>op_Tag = CHR ''r'', op_I1 = 0, op_I2 = length bl, op_J1 = 0, op_J2 = length al\<rparr>])\<rparr>"

definition pod_of :: "string \<Rightarrow> string \<Rightarrow> gmap" where
  "pod_of nam rs = [(''metadata'', VObj [(''name'', VStr nam), (''namespace'', VStr ''prod''),
     (''ownerReferences'', VArr [VObj [(''kind'', VStr ''ReplicaSet''), (''name'', VStr rs), (''controller'', VBool True)]])])]"

text \<open>Pressure findings are bucketed by the condition's own transition time. With well-formed
  transition times, one node and one condition, two observations share their fingerprint
  exactly when the two times fall into the same six-hour bucket. Flaps inside a bucket collapse;
  two flips a second apart on either side of a bucket boundary do not, so the limiter (keyed on
  the fingerprint) lets both through.\<close>

lemma nodePressure_fingerprint_bucket:
  assumes "inj (x_sha256hex x)" "CHR '':'' \<notin> set (metaName o1)"
    and "metaName o2 = metaName o1" "activeNodePressure o2 = activeNodePressure o1"
    and "parse_rfc3339 (nodeConditionLastTransition o1 (activeNodePressure o1)) = Some t1"
    and "parse_rfc3339 (nodeConditionLastTransition o2 (activeNodePressure o2)) = Some t2"
    and "ms_FingerprintFn (nodePressureMatcher x) = Some fpr"
  shows "fpr now1 o1 = fpr now2 o2 \<longleftrightarrow> t1 div (6 * hour) = t2 div (6 * hour)"
proof -
  have p: "CHR '':'' \<notin> set (activeNodePressure o1)"
    by (auto simp: activeNodePressure_def pressureConditions_def split: option.splits if_splits)
  have b: "pressure_bucket now ob = t div (6 * hour) * 21600 - unix_to_internal"
    if "parse_rfc3339 (nodeConditionLastTransition ob (activeNodePressure ob)) = Some t" for now ob t
    using that by (simp add: pressure_bucket_def time_truncate_def time_unix_def nodePressureWindow_def
        minus_mod_eq_mult_div)
  have "fpr now1 o1 = fpr now2 o2 \<longleftrightarrow> pressure_bucket now1 o1 = pressure_bucket now2 o2"
    using assms(7) assms(1-4) p
    by (auto simp: nodePressureMatcher_def fp_eq_iff int_dec_inj)
  with b[OF assms(5)] b[OF assms(6)] show ?thesis by simp
qed

definition pressured_node :: "string \<Rightarrow> gmap" where
  "pressured_node ts = [(''metadata'', VObj [(''name'', VStr ''n1'')]),
     (''status'', VObj [(''conditions'', VArr [VObj [(''type'', VStr ''DiskPressure''), (''status'', VStr ''True''),
        (''lastTransitionTime'', VStr ts)]])])]"

end
