(* ===== verification/Engine.thy ===== *)
theory Engine
  imports RateLimit Churn ServiceEndpoints
begin

text \<open>
  \<open>pkg/triggers/engine.go\<close> and \<open>pkg/triggers/overrides.go\<close>: the dispatch loop that runs every
  matcher on an event, with the limiter and the churn suppressor as its state. One call reads
  the clock once: the instants the limiter, the suppressor and the predicates see inside one
  \<open>Match\<close> are the same. Logging is not modelled. The theory proves what a returned match means,
  that a reported problem is not reported again inside its window, that a recovery re-arms the
  matcher, and that events of unread kinds leave the state alone.
\<close>

section \<open>Model\<close>

record engine =
  e_specs :: "matcher_spec list"
  e_rl :: rate_limiter
  e_startTime :: time
  e_graceWindow :: duration
  e_eventsLister :: "events_lister option"
  e_serviceBackends :: "service_backends option"
  e_churn :: churn_suppressor

definition DefaultGraceWindow :: duration where "DefaultGraceWindow = 2 * minute"

definition NewEngine :: "matcher_spec list \<Rightarrow> time \<Rightarrow> engine" where
  "NewEngine specs agentStartTime = \<lparr>e_specs = specs, e_rl = NewRateLimiter 0, e_startTime = agentStartTime,
     e_graceWindow = DefaultGraceWindow, e_eventsLister = None, e_serviceBackends = None,
     e_churn = NewChurnSuppressor 0 0 0 0\<rparr>"

definition WithEventsLister :: "events_lister \<Rightarrow> engine \<Rightarrow> engine" where
  "WithEventsLister l e = e\<lparr>e_eventsLister := Some l\<rparr>"

definition WithServiceBackendsLister :: "service_backends \<Rightarrow> engine \<Rightarrow> engine" where
  "WithServiceBackendsLister l e = e\<lparr>e_serviceBackends := Some l\<rparr>"

definition enrichContext :: "engine \<Rightarrow> enrich_context" where
  "enrichContext e = \<lparr>ec_EventsLister = e_eventsLister e, ec_ServiceBackends = e_serviceBackends e\<rparr>"

definition events_only :: "engine \<Rightarrow> enrich_context" where
  "events_only e = \<lparr>ec_EventsLister = e_eventsLister e, ec_ServiceBackends = None\<rparr>"

definition fetchSubjectEvents :: "time \<Rightarrow> engine \<Rightarrow> string \<Rightarrow> string \<Rightarrow> string \<Rightarrow> evidence_block list" where
  "fetchSubjectEvents now e kind namespace nam =
     (if e_eventsLister e = None \<or> namespace = [] \<or> nam = [] \<or> kind = [] then []
      else recentEventsTable now (events_only e) namespace kind nam (''Recent '' @ kind @ '' events'') recentEventsLimit)"

definition fetchNodeEvents :: "time \<Rightarrow> engine \<Rightarrow> string \<Rightarrow> evidence_block list" where
  "fetchNodeEvents now e node =
     (if e_eventsLister e = None \<or> node = [] then []
      else recentEventsTable now (events_only e) [] ''Node'' node (''Recent Node events on '' @ node) supplementaryEventsLimit)"

definition fetchNamespaceEvents :: "time \<Rightarrow> engine \<Rightarrow> string \<Rightarrow> evidence_block list" where
  "fetchNamespaceEvents now e namespace =
     (if e_eventsLister e = None \<or> namespace = [] then []
      else recentEventsTable now (events_only e) namespace [] [] (''Recent events in namespace '' @ namespace)
        supplementaryEventsLimit)"

definition kindMatches :: "string \<Rightarrow> string \<Rightarrow> bool" where
  "kindMatches specKind eventKind =
     (if specKind = [] \<or> specKind = ''Any'' then True else equal_fold specKind eventKind)"

definition operationMatches :: "string list \<Rightarrow> string \<Rightarrow> bool" where
  "operationMatches specOps eventOp = (if specOps = [] then True else eventOp \<in> set specOps)"

definition HandlesKind :: "engine \<Rightarrow> string \<Rightarrow> bool" where
  "HandlesKind e kind = list_ex (\<lambda>s. kindMatches (ms_Kind s) kind) (e_specs e)"

definition suppressedByResync :: "engine \<Rightarrow> gmap \<Rightarrow> bool" where
  "suppressedByResync e obj = (case get_map obj ''metadata'' of
     None \<Rightarrow> False
   | Some meta \<Rightarrow>
       (let cts = as_str (mget meta ''creationTimestamp'') in
        if cts = [] then False
        else (case parse_rfc3339 cts of
           None \<Rightarrow> False | Some t \<Rightarrow> t < time_add (e_startTime e) (- e_graceWindow e))))"

definition spec_recovered :: "time \<Rightarrow> incoming_event \<Rightarrow> gmap \<Rightarrow> matcher_spec \<Rightarrow> bool" where
  "spec_recovered now ev obj s = (case ms_RecoveryPredicate s of None \<Rightarrow> False | Some p \<Rightarrow> p now obj (ev_OldObj ev))"

definition spec_holds :: "time \<Rightarrow> enrich_context \<Rightarrow> incoming_event \<Rightarrow> gmap \<Rightarrow> matcher_spec \<Rightarrow> bool" where
  "spec_holds now ec ev obj s = (case ms_PredicateCtx s of
     Some p \<Rightarrow> p now obj (ev_OldObj ev) ec
   | None \<Rightarrow> (case ms_Predicate s of None \<Rightarrow> False | Some p \<Rightarrow> p now obj (ev_OldObj ev)))"

definition spec_fingerprint :: "time \<Rightarrow> gmap \<Rightarrow> matcher_spec \<Rightarrow> string" where
  "spec_fingerprint now obj s = (case ms_FingerprintFn s of None \<Rightarrow> [] | Some f \<Rightarrow> f now obj)"

definition limiter_key :: "matcher_spec \<Rightarrow> string \<Rightarrow> string" where
  "limiter_key s fingerprint = ms_Name s @ '':'' @ fingerprint"

definition build_match :: "time \<Rightarrow> engine \<Rightarrow> incoming_event \<Rightarrow> gmap \<Rightarrow> matcher_spec \<Rightarrow> trigger_match" where
  "build_match now e ev obj s =
     (case SubjectFromObj (ev_Kind ev) obj of (nam, namespace, lowerKind, node) \<Rightarrow>
       \<lparr>m_Spec = s, m_Fingerprint = spec_fingerprint now obj s,
        m_OccurrenceKey = (case ms_OccurrenceKeyFn s of None \<Rightarrow> [] | Some f \<Rightarrow> f obj),
        m_Owner = ResolveOwner obj, m_SubjectName = nam, m_SubjectNamespace = namespace,
        m_SubjectKind = lowerKind, m_SubjectNode = node,
        m_ExtraBlocks =
          (case ms_EnrichBlocks s of None \<Rightarrow> [] | Some f \<Rightarrow> f now obj (ev_OldObj ev) (enrichContext e))
          @ fetchSubjectEvents now e (ev_Kind ev) namespace nam
          @ fetchNodeEvents now e node @ fetchNamespaceEvents now e namespace\<rparr>)"

text \<open>The body of the loop for one matcher: the match it appends, if any, and the engine after it.\<close>

definition match_spec ::
  "time \<Rightarrow> incoming_event \<Rightarrow> gmap \<Rightarrow> matcher_spec \<Rightarrow> engine \<Rightarrow> trigger_match option \<times> engine" where
  "match_spec now ev obj s e =
     (if \<not> kindMatches (ms_Kind s) (ev_Kind ev) then (None, e)
      else if \<not> operationMatches (ms_Operations s) (ev_Operation ev) then (None, e)
      else if spec_recovered now ev obj s then
        (None, case ms_FingerprintFn s of
           None \<Rightarrow> e
         | Some f \<Rightarrow> e\<lparr>e_rl := snd (RateLimiter_Forget (limiter_key s (f now obj)) (e_rl e))\<rparr>)
      else if \<not> spec_holds now (enrichContext e) ev obj s then (None, e)
      else if ms_SuppressOnResync s \<and> suppressedByResync e obj then (None, e)
      else
        (let key = limiter_key s (spec_fingerprint now obj s) in
         case RateLimiter_Allow now key (ms_RateLimit s) (e_rl e) of (ok, rl) \<Rightarrow>
           let e1 = e\<lparr>e_rl := rl\<rparr> in
           if \<not> ok then (None, e1)
           else if ms_SuppressChurn s then
             (case ChurnSuppressor_Allow now key (e_churn e1) of ((allowed, classified), c) \<Rightarrow>
                let e2 = e1\<lparr>e_churn := c\<rparr> in
                if \<not> allowed then (None, e2) else (Some (build_match now e2 ev obj s), e2))
           else (Some (build_match now e1 ev obj s), e1)))"

fun match_loop ::
  "time \<Rightarrow> incoming_event \<Rightarrow> gmap \<Rightarrow> matcher_spec list \<Rightarrow> engine \<Rightarrow> trigger_match list \<times> engine" where
  "match_loop now ev obj [] e = ([], e)"
| "match_loop now ev obj (s # ss) e =
     (case match_spec now ev obj s e of (r, e1) \<Rightarrow>
      case match_loop now ev obj ss e1 of (ms, e2) \<Rightarrow>
        ((case r of None \<Rightarrow> ms | Some m \<Rightarrow> m # ms), e2))"

definition Match :: "time \<Rightarrow> engine \<Rightarrow> incoming_event \<Rightarrow> trigger_match list \<times> engine" where
  "Match now e ev = (case ev_Obj ev of None \<Rightarrow> ([], e) | Some obj \<Rightarrow> match_loop now ev obj (e_specs e) e)"

fun engine_run :: "engine \<Rightarrow> (time \<times> incoming_event) list \<Rightarrow> engine" where
  "engine_run e [] = e"
| "engine_run e ((now, ev) # xs) = engine_run (snd (Match now e ev)) xs"

definition Builtins :: "ext \<Rightarrow> string list \<Rightarrow> matcher_spec list" where
  "Builtins x excluded =
     [podCrashLoopMatcher x, podOOMKilledMatcher x, imagePullBackoffMatcher x, jobFailureMatcher x,
      nodeNotReadyMatcher x, nodeUnschedulableMatcher x, nodePressureMatcher x, podUnschedulableMatcher x,
      serviceNoEndpointsMatcher x]
     @ map (babysitterChangeMatcher x) [''Deployment'', ''DaemonSet'', ''StatefulSet'', ''Ingress'', ''Rollout'']
     @ [configMapChangeMatcher x excluded]"

section \<open>Overrides\<close>

definition ApplyRateLimits ::
  "matcher_spec list \<Rightarrow> (string, duration) gomap \<Rightarrow> matcher_spec list \<times> string list \<times> string list" where
  "ApplyRateLimits specs overrides =
     (if overrides = [] then (specs, [], [])
      else
        (map (\<lambda>s. case map_of overrides (ms_Name s) of None \<Rightarrow> s | Some w \<Rightarrow> s\<lparr>ms_RateLimit := w\<rparr>) specs,
         sort_strings (filter (\<lambda>n. map_of overrides n \<noteq> None) (map ms_Name specs)),
         sort_strings (filter (\<lambda>n. n \<notin> set (map ms_Name specs)) (map_keys overrides))))"

definition MatcherNames :: "matcher_spec list \<Rightarrow> string list" where
  "MatcherNames specs = sort_strings (map ms_Name specs)"

section \<open>Frame and invariant\<close>

definition engine_inv :: "engine \<Rightarrow> bool" where
  "engine_inv e \<longleftrightarrow> rl_inv (e_rl e) \<and> churn_inv (e_churn e)"

text \<open>Everything but the limiter and the suppressor is read-only after the engine is built.\<close>

definition same_config :: "engine \<Rightarrow> engine \<Rightarrow> bool" where
  "same_config e e' \<longleftrightarrow> e_specs e' = e_specs e \<and> e_startTime e' = e_startTime e \<and> e_graceWindow e' = e_graceWindow e \<and>
     e_eventsLister e' = e_eventsLister e \<and> e_serviceBackends e' = e_serviceBackends e"

lemma same_config_refl [simp]: "same_config e e"
  by (simp add: same_config_def)

lemma same_config_upd [simp]:
  "same_config e (e'\<lparr>e_rl := r\<rparr>) = same_config e e'" "same_config e (e'\<lparr>e_churn := c\<rparr>) = same_config e e'"
  by (simp_all add: same_config_def)

lemma same_config_trans: "same_config e e' \<Longrightarrow> same_config e' e'' \<Longrightarrow> same_config e e''"
  by (simp add: same_config_def)

lemma same_config_fields:
  assumes "same_config e e'"
  shows "e_specs e' = e_specs e" "enrichContext e' = enrichContext e" "e_startTime e' = e_startTime e"
    "e_graceWindow e' = e_graceWindow e" "events_only e' = events_only e" "e_eventsLister e' = e_eventsLister e"
  using assms by (simp_all add: same_config_def enrichContext_def events_only_def)

lemma suppressedByResync_config:
  assumes "same_config e e'"
  shows "suppressedByResync e' obj = suppressedByResync e obj"
  unfolding suppressedByResync_def same_config_fields[OF assms] by (rule refl)

lemma build_match_config:
  assumes "same_config e e'"
  shows "build_match now e' ev obj s = build_match now e ev obj s"
  unfolding build_match_def fetchSubjectEvents_def fetchNodeEvents_def fetchNamespaceEvents_def
    same_config_fields[OF assms] by (rule refl)

lemma build_match_upd [simp]:
  "build_match now (e\<lparr>e_rl := r\<rparr>) ev obj s = build_match now e ev obj s"
  "build_match now (e\<lparr>e_rl := r, e_churn := c\<rparr>) ev obj s = build_match now e ev obj s"
  by (rule build_match_config, simp)+

text \<open>The limiter calls one matcher makes on an event, and when its match is appended.\<close>

definition spec_ops :: "time \<Rightarrow> engine \<Rightarrow> incoming_event \<Rightarrow> gmap \<Rightarrow> matcher_spec \<Rightarrow> rl_op list" where
  "spec_ops now e ev obj s =
     (if \<not> kindMatches (ms_Kind s) (ev_Kind ev) \<or> \<not> operationMatches (ms_Operations s) (ev_Operation ev) then []
      else if spec_recovered now ev obj s then
        (if ms_FingerprintFn s = None then [] else [RForget (limiter_key s (spec_fingerprint now obj s))])
      else if \<not> spec_holds now (enrichContext e) ev obj s \<or> (ms_SuppressOnResync s \<and> suppressedByResync e obj) then []
      else [RAllow now (limiter_key s (spec_fingerprint now obj s)) (ms_RateLimit s)])"

definition spec_eligible :: "time \<Rightarrow> engine \<Rightarrow> incoming_event \<Rightarrow> gmap \<Rightarrow> matcher_spec \<Rightarrow> bool" where
  "spec_eligible now e ev obj s \<longleftrightarrow>
     kindMatches (ms_Kind s) (ev_Kind ev) \<and> operationMatches (ms_Operations s) (ev_Operation ev) \<and>
     \<not> spec_recovered now ev obj s \<and> spec_holds now (enrichContext e) ev obj s \<and>
     \<not> (ms_SuppressOnResync s \<and> suppressedByResync e obj)"

lemma match_spec_config: "same_config e (snd (match_spec now ev obj s e))"
  by (simp add: match_spec_def Let_def split_def split: option.splits)

lemma match_spec_rl: "e_rl (snd (match_spec now ev obj s e)) = rl_run (e_rl e) (spec_ops now e ev obj s)"
  by (simp add: match_spec_def spec_ops_def spec_fingerprint_def Let_def split_def split: option.splits)

lemma match_spec_churn:
  "e_churn (snd (match_spec now ev obj s e)) = e_churn e \<or>
   (\<exists>k. e_churn (snd (match_spec now ev obj s e)) = snd (ChurnSuppressor_Allow now k (e_churn e)))"
  by (simp add: match_spec_def Let_def split_def split: option.splits) blast

lemma match_spec_fst:
  "fst (match_spec now ev obj s e) =
     (let key = limiter_key s (spec_fingerprint now obj s) in
      if spec_eligible now e ev obj s \<and> fst (RateLimiter_Allow now key (ms_RateLimit s) (e_rl e)) \<and>
         (\<not> ms_SuppressChurn s \<or> fst (fst (ChurnSuppressor_Allow now key (e_churn e))))
      then Some (build_match now e ev obj s) else None)"
  by (simp add: match_spec_def spec_eligible_def Let_def split_def)

lemma match_spec_inv: "engine_inv e \<Longrightarrow> engine_inv (snd (match_spec now ev obj s e))"
  using match_spec_churn[of now ev obj s e] churn_inv_Allow[of "e_churn e" now]
  by (auto simp: engine_inv_def match_spec_rl rl_inv_run)

lemma match_loop_config: "same_config e (snd (match_loop now ev obj ss e))"
proof (induction ss arbitrary: e)
  case (Cons s ss)
  have "same_config e (snd (match_spec now ev obj s e))" by (rule match_spec_config)
  moreover have "same_config (snd (match_spec now ev obj s e)) (snd (match_loop now ev obj ss (snd (match_spec now ev obj s e))))"
    by (rule Cons.IH)
  ultimately show ?case using same_config_trans by (fastforce split: prod.splits)
qed simp

lemma match_loop_inv: "engine_inv e \<Longrightarrow> engine_inv (snd (match_loop now ev obj ss e))"
proof (induction ss arbitrary: e)
  case (Cons s ss)
  from Cons.IH[OF match_spec_inv[OF Cons.prems]] show ?case by (simp split: prod.splits) (metis snd_conv)
qed simp

lemma Match_config: "same_config e (snd (Match now e ev))"
  by (simp add: Match_def match_loop_config split: option.splits)

lemma Match_inv: "engine_inv e \<Longrightarrow> engine_inv (snd (Match now e ev))"
  by (simp add: Match_def match_loop_inv split: option.splits)

lemma engine_run_inv: "engine_inv e \<Longrightarrow> engine_inv (engine_run e xs) \<and> same_config e (engine_run e xs)"
proof (induction e xs rule: engine_run.induct)
  case (2 e now ev xs)
  with Match_inv Match_config same_config_trans show ?case by fastforce
qed simp

lemma engine_inv_New: "engine_inv (NewEngine specs t0)"
  by (simp add: engine_inv_def NewEngine_def rl_inv_New churn_inv_New max_int64_def)

section \<open>What a match means\<close>

lemma rl_run_append: "rl_run r (xs @ ys) = rl_run (rl_run r xs) ys"
  by (induction xs arbitrary: r) simp_all

lemma spec_ops_config: "same_config e e' \<Longrightarrow> spec_ops now e' = spec_ops now e"
  by (intro ext) (simp add: spec_ops_def same_config_fields suppressedByResync_config)

lemma spec_eligible_config: "same_config e e' \<Longrightarrow> spec_eligible now e' = spec_eligible now e"
  by (intro ext) (simp add: spec_eligible_def same_config_fields suppressedByResync_config)

lemma spec_ops_eligible:
  "spec_eligible now e ev obj s \<Longrightarrow>
   spec_ops now e ev obj s = [RAllow now (limiter_key s (spec_fingerprint now obj s)) (ms_RateLimit s)]"
  by (simp add: spec_eligible_def spec_ops_def)

abbreviation specs_ops :: "time \<Rightarrow> engine \<Rightarrow> incoming_event \<Rightarrow> gmap \<Rightarrow> matcher_spec list \<Rightarrow> rl_op list" where
  "specs_ops now e ev obj ss \<equiv> concat (map (spec_ops now e ev obj) ss)"

lemma match_loop_Cons:
  "fst (match_loop now ev obj (s # ss) e) =
     (case fst (match_spec now ev obj s e) of None \<Rightarrow> [] | Some m \<Rightarrow> [m]) @
     fst (match_loop now ev obj ss (snd (match_spec now ev obj s e)))"
  "snd (match_loop now ev obj (s # ss) e) = snd (match_loop now ev obj ss (snd (match_spec now ev obj s e)))"
  by (simp_all add: split_def split: option.splits)

lemma match_loop_rl:
  "e_rl (snd (match_loop now ev obj ss e)) = rl_run (e_rl e) (specs_ops now e ev obj ss)"
proof (induction ss arbitrary: e)
  case (Cons s ss)
  then show ?case
    by (simp only: match_loop_Cons match_spec_rl spec_ops_config[OF match_spec_config] list.map concat.simps rl_run_append)
qed simp

lemma match_loop_sound:
  assumes "m \<in> set (fst (match_loop now ev obj ss e))"
  shows "\<exists>pre s post. ss = pre @ s # post \<and> spec_eligible now e ev obj s \<and> m = build_match now e ev obj s \<and>
    fst (RateLimiter_Allow now (limiter_key s (spec_fingerprint now obj s)) (ms_RateLimit s)
      (rl_run (e_rl e) (specs_ops now e ev obj pre)))"
  using assms
proof (induction ss arbitrary: e)
  case (Cons s ss)
  let ?e1 = "snd (match_spec now ev obj s e)"
  note cfg = match_spec_config[of e now ev obj s]
  from Cons.prems consider "fst (match_spec now ev obj s e) = Some m" | "m \<in> set (fst (match_loop now ev obj ss ?e1))"
    unfolding match_loop_Cons by (auto split: option.splits)
  then show ?case
  proof cases
    case 1
    then have "spec_eligible now e ev obj s \<and> m = build_match now e ev obj s \<and>
        fst (RateLimiter_Allow now (limiter_key s (spec_fingerprint now obj s)) (ms_RateLimit s) (e_rl e))"
      by (auto simp: match_spec_fst Let_def split: if_splits)
    then show ?thesis by (intro exI[of _ "[]"] exI[of _ s] exI[of _ ss]) simp
  next
    case 2
    from Cons.IH[OF this] obtain pre s' post where *: "ss = pre @ s' # post" "spec_eligible now ?e1 ev obj s'"
      "m = build_match now ?e1 ev obj s'"
      "fst (RateLimiter_Allow now (limiter_key s' (spec_fingerprint now obj s')) (ms_RateLimit s')
        (rl_run (e_rl ?e1) (specs_ops now ?e1 ev obj pre)))" by blast
    then show ?thesis
      by (intro exI[of _ "s # pre"] exI[of _ s'] exI[of _ post])
        (simp add: spec_eligible_config[OF cfg] spec_ops_config[OF cfg] build_match_config[OF cfg] match_spec_rl rl_run_append)
  qed
qed simp

lemma match_loop_complete:
  assumes "ss = pre @ s # post" "spec_eligible now e ev obj s" "\<not> ms_SuppressChurn s"
    and "fst (RateLimiter_Allow now (limiter_key s (spec_fingerprint now obj s)) (ms_RateLimit s)
      (rl_run (e_rl e) (specs_ops now e ev obj pre)))"
  shows "build_match now e ev obj s \<in> set (fst (match_loop now ev obj ss e))"
  using assms
proof (induction pre arbitrary: ss e)
  case Nil
  then show ?case by (simp add: match_loop_Cons match_spec_fst Let_def del: match_loop.simps)
next
  case (Cons p pre)
  note cfg = match_spec_config[of e now ev obj p]
  have "build_match now (snd (match_spec now ev obj p e)) ev obj s
      \<in> set (fst (match_loop now ev obj (pre @ s # post) (snd (match_spec now ev obj p e))))"
    by (rule Cons.IH[OF refl])
      (use Cons.prems in \<open>simp_all add: spec_eligible_config[OF cfg] spec_ops_config[OF cfg] match_spec_rl rl_run_append\<close>)
  with Cons.prems(1) show ?case
    by (simp add: match_loop_Cons build_match_config[OF cfg] del: match_loop.simps)
qed

lemma build_match_fields [simp]:
  "m_Spec (build_match now e ev obj s) = s" "m_Fingerprint (build_match now e ev obj s) = spec_fingerprint now obj s"
  "m_Owner (build_match now e ev obj s) = ResolveOwner obj" "m_SubjectName (build_match now e ev obj s) = metaName obj"
  "m_SubjectNamespace (build_match now e ev obj s) = metaNS obj"
  "m_SubjectKind (build_match now e ev obj s) = to_lower (ev_Kind ev)"
  by (simp_all add: build_match_def SubjectFromObj_def metaName_def metaNS_def Let_def)

lemma match_loop_subseq: "subseq (map m_Spec (fst (match_loop now ev obj ss e))) ss"
proof (induction ss arbitrary: e)
  case (Cons s ss)
  then show ?case
    by (auto simp: match_loop_Cons match_spec_fst Let_def simp del: match_loop.simps split: option.splits if_splits)
qed simp

text \<open>C7: every match the engine returns is justified. Its matcher is one of the engine's, its
  kind and operation filters accept the event, the object has not recovered, the predicate
  holds on it, the resync guard does not apply, and the match carries that matcher's
  fingerprint, the object's owner and its identity. The matchers of the returned list form a
  subsequence of the engine's list: at most one match per matcher, in order.\<close>

theorem Match_justified:
  "list_all (\<lambda>m. \<exists>obj. ev_Obj ev = Some obj \<and> m_Spec m \<in> set (e_specs e) \<and>
       kindMatches (ms_Kind (m_Spec m)) (ev_Kind ev) \<and>
       operationMatches (ms_Operations (m_Spec m)) (ev_Operation ev) \<and>
       \<not> spec_recovered now ev obj (m_Spec m) \<and> spec_holds now (enrichContext e) ev obj (m_Spec m) \<and>
       \<not> (ms_SuppressOnResync (m_Spec m) \<and> suppressedByResync e obj) \<and>
       m_Fingerprint m = spec_fingerprint now obj (m_Spec m) \<and> m_Owner m = ResolveOwner obj \<and>
       m_SubjectName m = metaName obj \<and> m_SubjectNamespace m = metaNS obj) (fst (Match now e ev)) \<and>
   subseq (map m_Spec (fst (Match now e ev))) (e_specs e)"
proof (cases "ev_Obj ev")
  case (Some obj)
  have "\<exists>s\<in>set (e_specs e). spec_eligible now e ev obj s \<and> m = build_match now e ev obj s"
    if "m \<in> set (fst (match_loop now ev obj (e_specs e) e))" for m
    using match_loop_sound[OF that] by fastforce
  with Some match_loop_subseq[of now ev obj "e_specs e" e] show ?thesis
    by (fastforce simp: Match_def list_all_iff spec_eligible_def)
qed (simp add: Match_def)

text \<open>Events of a kind no matcher reads are inert. When \<open>HandlesKind\<close> is false the intake drops
  the event; \<open>Match\<close> would have returned nothing and left limiter and suppressor unchanged.
  The limiter and suppressor invariants hold in every state the engine reaches.\<close>

lemma HandlesKind_sound:
  "(HandlesKind e (ev_Kind ev) \<or> Match now e ev = ([], e)) \<and> engine_inv (engine_run (NewEngine specs t0) xs)"
proof -
  have "match_loop now ev obj ss e' = ([], e')" if "\<not> list_ex (\<lambda>s. kindMatches (ms_Kind s) (ev_Kind ev)) ss" for obj ss e'
    using that by (induction ss) (simp_all add: match_spec_def)
  then show ?thesis
    using engine_run_inv[OF engine_inv_New] by (auto simp: HandlesKind_def Match_def split: option.splits)
qed

section \<open>Limiter keys\<close>

definition specs_ok :: "matcher_spec list \<Rightarrow> bool" where
  "specs_ok ss \<longleftrightarrow> distinct (map ms_Name ss) \<and> list_all (\<lambda>s. CHR '':'' \<notin> set (ms_Name s)) ss"

lemma limiter_key_inj:
  assumes "specs_ok ss" "s \<in> set ss" "s' \<in> set ss" "limiter_key s f = limiter_key s' f'"
  shows "s = s' \<and> f = f'"
proof -
  have n: "CHR '':'' \<notin> set (ms_Name s)" "CHR '':'' \<notin> set (ms_Name s')"
    using assms(1-3) by (auto simp: specs_ok_def list_all_iff)
  have "takeWhile (\<lambda>c. c \<noteq> CHR '':'') (limiter_key s f) = ms_Name s"
    "takeWhile (\<lambda>c. c \<noteq> CHR '':'') (limiter_key s' f') = ms_Name s'"
    using n by (auto simp: limiter_key_def takeWhile_append)
  with assms(4) have "ms_Name s = ms_Name s'" by simp
  moreover from this assms(4) have "f = f'" by (simp add: limiter_key_def)
  ultimately show ?thesis using assms(1-3) by (auto simp: specs_ok_def distinct_map dest: inj_onD)
qed

lemma spec_ops_key:
  "x \<in> set (spec_ops now e ev obj s) \<Longrightarrow> rl_op_key x = limiter_key s (spec_fingerprint now obj s)"
  by (auto simp: spec_ops_def split: if_splits)

lemma specs_ops_other:
  assumes "specs_ok (pre @ s # post)" "s' \<in> set pre \<or> s' \<in> set post" "x \<in> set (spec_ops now e ev obj s')"
  shows "rl_op_key x \<noteq> limiter_key s f"
proof
  assume "rl_op_key x = limiter_key s f"
  then have "limiter_key s' (spec_fingerprint now obj s') = limiter_key s f" using spec_ops_key[OF assms(3)] by simp
  then have "s' = s" using limiter_key_inj[OF assms(1)] assms(2) by (metis Un_iff in_set_conv_decomp list.set_intros set_append)
  then show False using assms(1,2) by (auto simp: specs_ok_def)
qed

definition event_ops :: "time \<Rightarrow> engine \<Rightarrow> incoming_event \<Rightarrow> rl_op list" where
  "event_ops now e ev = (case ev_Obj ev of None \<Rightarrow> [] | Some obj \<Rightarrow> specs_ops now e ev obj (e_specs e))"

fun run_ops :: "engine \<Rightarrow> (time \<times> incoming_event) list \<Rightarrow> rl_op list" where
  "run_ops e [] = []"
| "run_ops e ((now, ev) # xs) = event_ops now e ev @ run_ops e xs"

lemma event_ops_config: "same_config e e' \<Longrightarrow> event_ops now e' ev = event_ops now e ev"
  by (simp add: event_ops_def spec_ops_config same_config_fields split: option.splits)

lemma run_ops_config: "same_config e e' \<Longrightarrow> run_ops e' xs = run_ops e xs"
  by (induction e xs rule: run_ops.induct) (simp_all add: event_ops_config)

lemma Match_rl: "e_rl (snd (Match now e ev)) = rl_run (e_rl e) (event_ops now e ev)"
  by (simp add: Match_def event_ops_def match_loop_rl split: option.splits)

lemma engine_run_rl: "e_rl (engine_run e xs) = rl_run (e_rl e) (run_ops e xs)"
proof (induction e xs rule: engine_run.induct)
  case (2 e now ev xs)
  then show ?case by (simp add: Match_rl rl_run_append run_ops_config[OF Match_config])
qed simp

section \<open>One report per window\<close>

definition recovers :: "matcher_spec \<Rightarrow> time \<Rightarrow> incoming_event \<Rightarrow> bool" where
  "recovers s now ev = (case ev_Obj ev of None \<Rightarrow> False | Some obj \<Rightarrow> spec_recovered now ev obj s)"

lemma spec_ops_within:
  assumes "specs_ok ss" "s \<in> set ss" "s' \<in> set ss" "0 < ms_RateLimit s" "now < t" "\<not> spec_recovered now ev obj s"
  shows "list_all (within_window (limiter_key s f) t) (spec_ops now e ev obj s')"
proof (cases "limiter_key s' (spec_fingerprint now obj s') = limiter_key s f")
  case True
  then have "s' = s" using limiter_key_inj[OF assms(1,3,2)] by blast
  with assms(4-6) show ?thesis by (simp add: spec_ops_def)
next
  case False
  then show ?thesis by (auto simp: spec_ops_def)
qed

lemma event_ops_within:
  assumes "specs_ok (e_specs e)" "s \<in> set (e_specs e)" "0 < ms_RateLimit s" "now < t" "\<not> recovers s now ev"
  shows "list_all (within_window (limiter_key s f) t) (event_ops now e ev)"
proof (cases "ev_Obj ev")
  case (Some obj)
  with assms(5) have "\<not> spec_recovered now ev obj s" by (simp add: recovers_def)
  from spec_ops_within[OF assms(1,2) _ assms(3,4) this] Some show ?thesis
    by (simp add: event_ops_def list_all_iff)
qed (simp add: event_ops_def)

lemma run_ops_within:
  assumes "specs_ok (e_specs e)" "s \<in> set (e_specs e)" "0 < ms_RateLimit s"
    and "list_all (\<lambda>(now, ev). now < t \<and> \<not> recovers s now ev) xs"
  shows "list_all (within_window (limiter_key s f) t) (run_ops e xs)"
  using assms(4) event_ops_within[OF assms(1-3)] by (induction xs) auto

lemma rl_op_within_other: "rl_op_key x \<noteq> k \<Longrightarrow> within_window k t x"
  by (cases x) auto

text \<open>After a fire the limiter holds the key for the window, and only the keys of the calls made
  since are more recent.\<close>

lemma Match_holds:
  assumes inv: "engine_inv e" and ok: "specs_ok (e_specs e)" and m: "m \<in> set (fst (Match now e ev))"
    and w: "0 < ms_RateLimit (m_Spec m)"
    and room: "int (card (rl_op_key ` set (event_ops now e ev))) < rl_maxEntries (e_rl e)"
  shows "m_Spec m \<in> set (e_specs e) \<and>
    rl_holds (e_rl (snd (Match now e ev))) (limiter_key (m_Spec m) (m_Fingerprint m)) (now + ms_RateLimit (m_Spec m))
      (rl_op_key ` set (event_ops now e ev))"
proof -
  from m obtain obj where obj: "ev_Obj ev = Some obj" "m \<in> set (fst (match_loop now ev obj (e_specs e) e))"
    by (auto simp: Match_def split: option.splits)
  from match_loop_sound[OF obj(2)] obtain pre s post where sp: "e_specs e = pre @ s # post"
    "spec_eligible now e ev obj s" "m = build_match now e ev obj s"
    "fst (RateLimiter_Allow now (limiter_key s (spec_fingerprint now obj s)) (ms_RateLimit s)
        (rl_run (e_rl e) (specs_ops now e ev obj pre)))" by blast
  let ?k = "limiter_key s (spec_fingerprint now obj s)"
  let ?r = "rl_run (e_rl e) (specs_ops now e ev obj pre)"
  let ?r1 = "snd (RateLimiter_Allow now ?k (ms_RateLimit s) ?r)" and ?post = "specs_ops now e ev obj post"
  have rinv: "rl_inv ?r" using inv by (simp add: engine_inv_def rl_inv_run)
  have ops: "event_ops now e ev = specs_ops now e ev obj pre @ RAllow now ?k (ms_RateLimit s) # ?post"
    using obj(1) sp(1) by (simp add: event_ops_def spec_ops_eligible[OF sp(2)])
  have "rl_holds ?r1 ?k (now + ms_RateLimit s) {}"
    using rl_holds_after_fire[OF rinv _ sp(4)] w sp(3) by simp
  moreover have "list_all (within_window ?k (now + ms_RateLimit s)) ?post"
    using specs_ops_other[OF ok[unfolded sp(1)]] rl_op_within_other by (simp add: list_all_iff) blast
  moreover have "int (card (rl_op_key ` set ?post)) < rl_maxEntries ?r1"
  proof -
    have "card (rl_op_key ` set ?post) \<le> card (rl_op_key ` set (event_ops now e ev))"
      unfolding ops by (intro card_mono) auto
    with room rl_maxEntries_run[of "e_rl e" "specs_ops now e ev obj pre"] inv rinv show ?thesis
      by (simp add: rl_inv_Allow engine_inv_def)
  qed
  ultimately have "rl_holds (rl_run ?r1 ?post) ?k (now + ms_RateLimit s) (rl_op_key ` set ?post)"
    using rl_holds_run[of ?r1 ?k "now + ms_RateLimit s" "{}" ?post] by simp
  moreover have "e_rl (snd (Match now e ev)) = rl_run ?r1 ?post" by (simp add: Match_rl ops rl_run_append)
  moreover have "rl_op_key ` set ?post \<subseteq> rl_op_key ` set (event_ops now e ev)" unfolding ops by auto
  ultimately have "rl_holds (e_rl (snd (Match now e ev))) ?k (now + ms_RateLimit s) (rl_op_key ` set (event_ops now e ev))"
    using rl_holds_mono by metis
  with sp(1,3) show ?thesis by simp
qed

text \<open>C8: a problem is reported once per window. After \<open>Match\<close> has returned a match with a positive
  window, no later \<open>Match\<close> inside that window returns one of the same matcher with the same
  fingerprint, whatever events are processed in between, unless the matcher's recovery
  predicate held on one of them. Matcher names are distinct and hold no colon, and the events
  touch fewer limiter keys than the limiter has entries.\<close>

theorem Match_reports_once:
  assumes "engine_inv e" "specs_ok (e_specs e)" "m \<in> set (fst (Match now e ev))" "0 < ms_RateLimit (m_Spec m)"
    and "list_all (\<lambda>(t, ev). t < now + ms_RateLimit (m_Spec m) \<and> \<not> recovers (m_Spec m) t ev) xs"
    and "t' < now + ms_RateLimit (m_Spec m)"
    and "int (card (rl_op_key ` set (event_ops now e ev @ run_ops e xs @ event_ops t' e ev'))) < rl_maxEntries (e_rl e)"
    and "m' \<in> set (fst (Match t' (engine_run (snd (Match now e ev)) xs) ev'))"
  shows "\<not> (ms_Name (m_Spec m') = ms_Name (m_Spec m) \<and> m_Fingerprint m' = m_Fingerprint m)"
proof
  let ?e1 = "snd (Match now e ev)" let ?e2 = "engine_run ?e1 xs"
  let ?T = "now + ms_RateLimit (m_Spec m)"
  assume same: "ms_Name (m_Spec m') = ms_Name (m_Spec m) \<and> m_Fingerprint m' = m_Fingerprint m"
  let ?k = "limiter_key (m_Spec m) (m_Fingerprint m)"
  have inv1: "engine_inv ?e1" by (rule Match_inv[OF assms(1)])
  have cfg: "same_config e ?e2" using engine_run_inv[OF inv1] Match_config same_config_trans by blast
  note c1 = Match_config[of e now ev]
  from assms(8) obtain obj where obj: "ev_Obj ev' = Some obj" "m' \<in> set (fst (match_loop t' ev' obj (e_specs ?e2) ?e2))"
    by (auto simp: Match_def split: option.splits)
  from match_loop_sound[OF obj(2)] obtain pre s post where sp: "e_specs ?e2 = pre @ s # post"
    "spec_eligible t' ?e2 ev' obj s" "m' = build_match t' ?e2 ev' obj s"
    "fst (RateLimiter_Allow t' (limiter_key s (spec_fingerprint t' obj s)) (ms_RateLimit s)
        (rl_run (e_rl ?e2) (specs_ops t' ?e2 ev' obj pre)))" by blast
  have specs: "e_specs e = pre @ s # post" using sp(1) same_config_fields(1)[OF cfg] by simp
  let ?pre = "specs_ops t' e ev' obj pre"
  have sub: "card (rl_op_key ` set ys) \<le> card (rl_op_key ` set (event_ops now e ev @ run_ops e xs @ event_ops t' e ev'))"
    if "set ys \<subseteq> set (event_ops now e ev @ run_ops e xs @ event_ops t' e ev')" for ys
    using that by (intro card_mono) auto
  have pre_sub: "set ?pre \<subseteq> set (event_ops t' e ev')" using specs obj(1) by (auto simp: event_ops_def)
  have h1: "m_Spec m \<in> set (e_specs e)" "rl_holds (e_rl ?e1) ?k ?T (rl_op_key ` set (event_ops now e ev))"
    using Match_holds[OF assms(1-4)] sub[of "event_ops now e ev"] assms(7) by auto
  have ms: "m_Spec m = s"
    using h1(1) same sp(3) specs assms(2) by (auto simp: specs_ok_def distinct_map dest: inj_onD)
  with same sp(3) have fpr: "spec_fingerprint t' obj s = m_Fingerprint m" by simp
  have nrec: "\<not> spec_recovered t' ev' obj s" using sp(2) by (simp add: spec_eligible_def)
  have "list_all (within_window ?k ?T) (run_ops e xs @ ?pre)"
    using run_ops_within[OF assms(2) h1(1) assms(4,5)] spec_ops_within[OF assms(2) h1(1) _ assms(4,6)] nrec ms specs
    by (simp add: list_all_iff) blast
  moreover have "int (card (rl_op_key ` set (event_ops now e ev) \<union> rl_op_key ` set (run_ops e xs @ ?pre))) < rl_maxEntries (e_rl ?e1)"
    using sub[of "event_ops now e ev @ run_ops e xs @ ?pre"] pre_sub assms(7) assms(1)
    by (force simp: Match_rl rl_maxEntries_run engine_inv_def image_Un)
  ultimately have "rl_holds (rl_run (e_rl ?e1) (run_ops e xs @ ?pre)) ?k ?T
      (rl_op_key ` set (event_ops now e ev) \<union> rl_op_key ` set (run_ops e xs @ ?pre))"
    using rl_holds_run[OF h1(2) finite_imageI[OF finite_set]] by blast
  then have "\<not> fst (RateLimiter_Allow t' ?k (ms_RateLimit s) (rl_run (e_rl ?e2) (specs_ops t' ?e2 ev' obj pre)))"
    using assms(4,6) ms by (auto simp: rl_holds_def RateLimiter_Allow_def engine_run_rl rl_run_append
        run_ops_config[OF c1] spec_ops_config[OF cfg])
  with sp(4) fpr ms show False by simp
qed

section \<open>The built-in matchers\<close>

lemma babysitter_fields [simp]:
  "ms_Name (babysitterChangeMatcher x k) = ''babysitter_'' @ to_lower k" "ms_Kind (babysitterChangeMatcher x k) = k"
  by (simp_all add: babysitterChangeMatcher_def)

lemmas matcher_defs = podCrashLoopMatcher_def podOOMKilledMatcher_def imagePullBackoffMatcher_def jobFailureMatcher_def
  nodeNotReadyMatcher_def nodeUnschedulableMatcher_def nodePressureMatcher_def podUnschedulableMatcher_def
  serviceNoEndpointsMatcher_def configMapChangeMatcher_def

lemma Builtins_ok: "specs_ok (Builtins x excluded)"
  by (simp add: specs_ok_def Builtins_def matcher_defs)

lemma NewEngine_fields [simp]:
  "e_specs (NewEngine specs t0) = specs" "rl_maxEntries (e_rl (NewEngine specs t0)) = 10000"
  by (simp_all add: NewEngine_def NewRateLimiter_def Let_def)

text \<open>A crash-looping Pod, and the calls an event with it makes.\<close>

definition crash_pod :: gmap where
  "crash_pod = [(''metadata'', VObj [(''name'', VStr ''web-0''), (''namespace'', VStr ''prod'')]),
     (''status'', VObj [(''containerStatuses'', VArr [VObj [(''name'', VStr ''app''),
        (''restartCount'', VFloat (FFin False 3 0)),
        (''state'', VObj [(''waiting'', VObj [(''reason'', VStr ''CrashLoopBackOff'')])])]])])]"

definition pod_update :: "gmap \<Rightarrow> incoming_event" where
  "pod_update obj = \<lparr>ev_Operation = ''update'', ev_Kind = ''Pod'', ev_Obj = Some obj, ev_OldObj = None\<rparr>"

definition crash_engine :: engine where
  "crash_engine = NewEngine [podCrashLoopMatcher sample_ext] 0"

lemma crash_pod_facts:
  "podCrashLoopPredicate crash_pod" "\<not> podCrashLoopRecovered now crash_pod"
  "podCrashLoopFingerprint sample_ext crash_pod = ''report_crash_loop:prod:web-0''"
proof -
  show "podCrashLoopPredicate crash_pod" by code_simp
  show "podCrashLoopFingerprint sample_ext crash_pod = ''report_crash_loop:prod:web-0''" by code_simp
  show "\<not> podCrashLoopRecovered now crash_pod"
    by (simp add: podCrashLoopRecovered_def podRegularContainerStatuses_def crash_pod_def maps_of_def
        stably_running_def map_filter_simps)
qed

lemma crash_event:
  "spec_eligible now crash_engine (pod_update crash_pod) crash_pod (podCrashLoopMatcher sample_ext)"
  "event_ops now crash_engine (pod_update crash_pod) = [RAllow now ''pod_crash_loop:report_crash_loop:prod:web-0'' hour]"
proof -
  show el: "spec_eligible now crash_engine (pod_update crash_pod) crash_pod (podCrashLoopMatcher sample_ext)"
    by (simp add: spec_eligible_def podCrashLoopMatcher_def pod_update_def kindMatches_def operationMatches_def
        equal_fold_def spec_recovered_def spec_holds_def crash_pod_facts matcher_base_def)
  show "event_ops now crash_engine (pod_update crash_pod) = [RAllow now ''pod_crash_loop:report_crash_loop:prod:web-0'' hour]"
    using spec_ops_eligible[OF el]
    by (simp add: event_ops_def pod_update_def crash_engine_def limiter_key_def spec_fingerprint_def)
      (simp add: podCrashLoopMatcher_def crash_pod_facts)
qed

theorem Match_reports_once_witness:
  "fst (Match minute crash_engine (pod_update crash_pod)) \<noteq> [] \<and>
   fst (Match (5 * minute) (snd (Match minute crash_engine (pod_update crash_pod))) (pod_update crash_pod)) = []"
proof -
  let ?s = "podCrashLoopMatcher sample_ext" and ?ev = "pod_update crash_pod"
  let ?m = "build_match minute crash_engine ?ev crash_pod ?s"
  have inv: "engine_inv crash_engine" by (simp add: crash_engine_def engine_inv_New)
  have ok: "specs_ok (e_specs crash_engine)" by (simp add: crash_engine_def specs_ok_def podCrashLoopMatcher_def)
  have fired: "?m \<in> set (fst (Match minute crash_engine ?ev))"
    using match_loop_complete[of "[?s]" "[]" ?s "[]" minute crash_engine ?ev crash_pod] crash_event(1)
    by (simp add: Match_def pod_update_def crash_engine_def NewEngine_def NewRateLimiter_def podCrashLoopMatcher_def
        RateLimiter_Allow_def lru_get_def lru_empty_def matcher_base_def)
  have w: "ms_RateLimit (m_Spec ?m) = hour" by (simp add: podCrashLoopMatcher_def)
  have "\<not> (ms_Name (m_Spec m') = ''pod_crash_loop'' \<and> m_Fingerprint m' = ''report_crash_loop:prod:web-0'')"
    if m': "m' \<in> set (fst (Match (5 * minute) (snd (Match minute crash_engine ?ev)) ?ev))" for m'
  proof -
    have "ms_Name (m_Spec ?m) = ''pod_crash_loop''" "m_Fingerprint ?m = ''report_crash_loop:prod:web-0''"
      by (simp_all add: podCrashLoopMatcher_def spec_fingerprint_def crash_pod_facts)
    then show ?thesis
      using Match_reports_once[OF inv ok fired, where xs = "[]" and t' = "5 * minute" and ev' = ?ev and m' = m'] m' w
      by (simp add: crash_event(2)) (simp add: crash_engine_def)
  qed
  moreover have "ms_Name (m_Spec m') = ''pod_crash_loop'' \<and> m_Fingerprint m' = ''report_crash_loop:prod:web-0''"
    if m': "m' \<in> set (fst (Match t e' ?ev))" "e_specs e' = [?s]" for m' t e'
  proof -
    from m' obtain s where "s = ?s" "m' = build_match t e' ?ev crash_pod s"
      using match_loop_sound[of m' t ?ev crash_pod "[?s]" e'] by (auto simp: Match_def pod_update_def Cons_eq_append_conv)
    then show ?thesis by (simp add: podCrashLoopMatcher_def spec_fingerprint_def crash_pod_facts)
  qed
  moreover have "e_specs (snd (Match minute crash_engine ?ev)) = [?s]"
    using same_config_fields(1)[OF Match_config] by (simp add: crash_engine_def)
  ultimately have "fst (Match (5 * minute) (snd (Match minute crash_engine ?ev)) ?ev) = []"
    by (metis list.set_intros(1) neq_Nil_conv)
  with fired show ?thesis by (auto simp del: build_match_fields)
qed

section \<open>Recovery re-arms a matcher\<close>

lemma not_live_run:
  assumes "rl_inv r" "\<not> rl_live r t k" "list_all (\<lambda>x. rl_op_key x \<noteq> k) ops"
  shows "\<not> rl_live (rl_run r ops) t k"
  using assms
proof (induction ops arbitrary: r)
  case (Cons x ops)
  have "\<not> rl_live (snd (rl_step r x)) t k"
  proof (cases x)
    case (RAllow now k' w)
    then have "k \<noteq> k'" using Cons.prems(3) by auto
    from rlim.allow_other[OF Cons.prems(1) this] Cons.prems(2) RAllow show ?thesis by auto
  qed (use Cons.prems rlim.forget_live in auto)
  with Cons show ?case by (simp add: rl_inv_step)
qed simp

lemma specs_ops_other_all:
  assumes "specs_ok (pre @ s # post)"
  shows "list_all (\<lambda>x. rl_op_key x \<noteq> limiter_key s f) (specs_ops now e ev obj pre)"
    "list_all (\<lambda>x. rl_op_key x \<noteq> limiter_key s f) (specs_ops now e ev obj post)"
  using specs_ops_other[OF assms] by (simp_all add: list_all_iff) blast+

lemma recovery_not_live:
  assumes "engine_inv e" "specs_ok (e_specs e)" "s \<in> set (e_specs e)" "ev_Obj ev = Some obj"
    and "kindMatches (ms_Kind s) (ev_Kind ev)" "operationMatches (ms_Operations s) (ev_Operation ev)"
    and "spec_recovered now ev obj s" "ms_FingerprintFn s \<noteq> None"
  shows "\<not> rl_live (e_rl (snd (Match now e ev))) t (limiter_key s (spec_fingerprint now obj s))"
proof -
  let ?k = "limiter_key s (spec_fingerprint now obj s)"
  obtain pre post where sp: "e_specs e = pre @ s # post" using assms(3) by (meson split_list)
  let ?r = "rl_run (e_rl e) (specs_ops now e ev obj pre)"
  have rinv: "rl_inv ?r" using assms(1) by (simp add: engine_inv_def rl_inv_run)
  have "spec_ops now e ev obj s = [RForget ?k]" using assms(5-8) by (simp add: spec_ops_def)
  then have "e_rl (snd (Match now e ev)) = rl_run (snd (RateLimiter_Forget ?k ?r)) (specs_ops now e ev obj post)"
    using assms(4) sp by (simp add: Match_rl event_ops_def rl_run_append)
  moreover have "\<not> rl_live (snd (RateLimiter_Forget ?k ?r)) t ?k" using rlim.forget_live[OF rinv] by simp
  ultimately show ?thesis
    using not_live_run[OF rlim.inv_forget[OF rinv]] specs_ops_other_all(2)[OF assms(2)[unfolded sp]] by metis
qed


text \<open>A Pod of the same workload that has been running for longer than the stable window.\<close>

definition healthy_pod :: gmap where
  "healthy_pod = [(''metadata'', VObj [(''name'', VStr ''web-0''), (''namespace'', VStr ''prod'')]),
     (''status'', VObj [(''containerStatuses'', VArr [VObj [(''name'', VStr ''app''), (''ready'', VBool True),
        (''state'', VObj [(''running'', VObj [(''startedAt'', VStr ''0001-01-01T00:00:00Z'')])])]])])]"


section \<open>A crash-looping sidecar\<close>

text \<open>A Pod whose regular container is healthy while a native sidecar (an init container that keeps
  running) is in CrashLoopBackOff.\<close>

definition sidecar_pod :: gmap where
  "sidecar_pod = [(''metadata'', VObj [(''name'', VStr ''web-0''), (''namespace'', VStr ''prod'')]),
     (''status'', VObj
        [(''containerStatuses'', VArr [VObj [(''name'', VStr ''app''), (''ready'', VBool True),
           (''state'', VObj [(''running'', VObj [(''startedAt'', VStr ''0001-01-01T00:00:00Z'')])])]]),
         (''initContainerStatuses'', VArr [VObj [(''name'', VStr ''proxy''), (''restartCount'', VFloat (FFin False 5 3)),
           (''state'', VObj [(''waiting'', VObj [(''reason'', VStr ''CrashLoopBackOff'')])])]])])]"

text \<open>The two predicates of the crash-loop matcher are not mutually exclusive. On a Pod whose
  regular container has been running for ten minutes and whose native sidecar has crashed
  forty times, both hold; recovery is looked at first, so the engine reports nothing, at any
  time and in any state.\<close>

lemma crash_loop_sidecar_silent:
  assumes "10 * minute \<le> now" "now \<le> max_int64" "e_specs e = [podCrashLoopMatcher x]"
  shows "podCrashLoopPredicate sidecar_pod \<and> podCrashLoopRecovered now sidecar_pod \<and>
    fst (Match now e (pod_update sidecar_pod)) = []"
proof -
  have p: "podCrashLoopPredicate sidecar_pod" by code_simp
  have "time_sub now 0 = now" using assms(1,2) by (intro time_sub_exact[of now 0, simplified]) (simp add: int64_defs)
  then have r: "podCrashLoopRecovered now sidecar_pod"
    using assms(1) parse_rfc3339_zero
    by (simp add: podCrashLoopRecovered_def podRegularContainerStatuses_def sidecar_pod_def maps_of_def map_filter_simps
        stably_running_def durationSinceRFC3339_def podCrashLoopStableWindow_def)
  have "fst (match_spec now (pod_update sidecar_pod) sidecar_pod (podCrashLoopMatcher x) e) = None"
    using r by (simp add: match_spec_fst spec_eligible_def spec_recovered_def podCrashLoopMatcher_def)
  with p r assms(3) show ?thesis
    by (simp add: Match_def pod_update_def match_loop_Cons del: match_loop.simps(2))
qed

section \<open>Rate-limit overrides\<close>

text \<open>Operator overrides. Every matcher keeps everything but its window; the window of a named
  matcher is the operator's, every other one is untouched; \<open>applied\<close> and \<open>unknown\<close> together are
  the requested names (matcher names being distinct), \<open>unknown\<close> holding exactly those that no
  matcher has, and both are sorted.\<close>

lemma ApplyRateLimits_spec:
  assumes "ApplyRateLimits specs overrides = (specs', applied, unknown)"
  shows "length specs' = length specs \<and>
    (\<forall>i<length specs. specs' ! i = (specs ! i)\<lparr>ms_RateLimit :=
       (case map_of overrides (ms_Name (specs ! i)) of None \<Rightarrow> ms_RateLimit (specs ! i) | Some w \<Rightarrow> w)\<rparr>) \<and>
    set applied = fst ` set overrides \<inter> ms_Name ` set specs \<and>
    set unknown = fst ` set overrides - ms_Name ` set specs \<and> sorted applied \<and> sorted unknown"
proof -
  have s: "(case v of None \<Rightarrow> s | Some w \<Rightarrow> s\<lparr>ms_RateLimit := w\<rparr>) =
      s\<lparr>ms_RateLimit := (case v of None \<Rightarrow> ms_RateLimit s | Some w \<Rightarrow> w)\<rparr>" for s :: matcher_spec and v
    by (cases v) simp_all
  have k: "(\<exists>w. map_of overrides n = Some w) \<longleftrightarrow> n \<in> fst ` set overrides" for n
    by (metis map_of_eq_None_iff not_Some_eq)
  show ?thesis
    using assms by (cases "overrides = []") (auto simp: ApplyRateLimits_def s k map_keys_def, force+)
qed

end
