(* ===== verification/CanonJson.thy ===== *)
theory CanonJson
  imports GoValue
begin

text \<open>
  \<open>pkg/canonjson/canonjson.go\<close>: the canonical JSON text that the HMAC and the partial-key hash
  are computed over, with the parts of \<open>unicode/utf8\<close> and \<open>strconv\<close> it uses. An error return is
  \<open>None\<close>. The theory proves that the text is printable ASCII, that it depends on the value only
  and not on the iteration order of its maps or on members that are null, and which values are
  refused.
\<close>

section \<open>UTF-8 decoding\<close>

definition byte_in :: "nat \<Rightarrow> nat \<Rightarrow> char \<Rightarrow> bool" where
  "byte_in lo hi c \<longleftrightarrow> lo \<le> of_char c \<and> of_char c \<le> hi"

definition cont_bits :: "char \<Rightarrow> nat" where
  "cont_bits c = of_char c mod 64"

text \<open>\<open>utf8.DecodeRuneInString\<close>: the rune and its width; a byte that starts no valid sequence is
  the replacement character, one byte wide. The string is not empty.\<close>

fun decode_rune :: "string \<Rightarrow> nat \<times> nat" where
  "decode_rune [] = (0xFFFD, 0)"
| "decode_rune (c0 # cs) =
     (let b0 = of_char c0 in
      if b0 < 0x80 then (b0, 1)
      else if byte_in 0xC2 0xDF c0 then
        (case cs of c1 # _ \<Rightarrow>
           if byte_in 0x80 0xBF c1 then (b0 mod 32 * 64 + cont_bits c1, 2) else (0xFFFD, 1)
         | [] \<Rightarrow> (0xFFFD, 1))
      else if byte_in 0xE0 0xEF c0 then
        (case cs of c1 # c2 # _ \<Rightarrow>
           if byte_in (if b0 = 0xE0 then 0xA0 else 0x80) (if b0 = 0xED then 0x9F else 0xBF) c1 \<and> byte_in 0x80 0xBF c2
           then (b0 mod 16 * 4096 + cont_bits c1 * 64 + cont_bits c2, 3) else (0xFFFD, 1)
         | _ \<Rightarrow> (0xFFFD, 1))
      else if byte_in 0xF0 0xF4 c0 then
        (case cs of c1 # c2 # c3 # _ \<Rightarrow>
           if byte_in (if b0 = 0xF0 then 0x90 else 0x80) (if b0 = 0xF4 then 0x8F else 0xBF) c1 \<and>
              byte_in 0x80 0xBF c2 \<and> byte_in 0x80 0xBF c3
           then (b0 mod 8 * 262144 + cont_bits c1 * 4096 + cont_bits c2 * 64 + cont_bits c3, 4) else (0xFFFD, 1)
         | _ \<Rightarrow> (0xFFFD, 1))
      else (0xFFFD, 1))"

lemma decode_rune_width: "s \<noteq> [] \<Longrightarrow> 0 < snd (decode_rune s)"
  by (cases s) (auto simp: Let_def split: list.splits)

section \<open>Strings\<close>

definition hex_digit :: "nat \<Rightarrow> char" where
  "hex_digit d = (if d < 10 then digit_char d else char_of (87 + d))"

text \<open>\<open>%04x\<close> of a value below 65536.\<close>

definition hex4 :: "nat \<Rightarrow> string" where
  "hex4 n = [hex_digit (n div 4096 mod 16), hex_digit (n div 256 mod 16), hex_digit (n div 16 mod 16), hex_digit (n mod 16)]"

abbreviation (input) backslash :: char where "backslash \<equiv> CHR 0x5C"
abbreviation (input) dquote :: char where "dquote \<equiv> CHR 0x22"

definition escape_u :: "nat \<Rightarrow> string" where
  "escape_u n = backslash # CHR ''u'' # hex4 n"

definition escape_rune :: "nat \<Rightarrow> string" where
  "escape_rune r =
     (if r = 0x22 then [backslash, dquote]
      else if r = 0x5C then [backslash, backslash]
      else if r = 8 then [backslash, CHR ''b'']
      else if r = 12 then [backslash, CHR ''f'']
      else if r = 10 then [backslash, CHR ''n'']
      else if r = 13 then [backslash, CHR ''r'']
      else if r = 9 then [backslash, CHR ''t'']
      else if r < 0x20 then escape_u r
      else if r < 0x7F then [char_of r]
      else if 0x10000 \<le> r then
        escape_u (0xD800 + (r - 0x10000) div 1024) @ escape_u (0xDC00 + (r - 0x10000) mod 1024)
      else escape_u r)"

function write_runes :: "string \<Rightarrow> string" where
  "write_runes s = (if s = [] then [] else
     (case decode_rune s of (r, width) \<Rightarrow> escape_rune r @ write_runes (drop width s)))"
  by pat_completeness auto
termination
proof (relation "measure length", goal_cases)
  case (2 s p w)
  then have "0 < w" using decode_rune_width[of s] by (metis snd_conv)
  with 2 show ?case by simp
qed simp

declare write_runes.simps [simp del]

definition writeString :: "string \<Rightarrow> string" where
  "writeString s = [dquote] @ write_runes s @ [dquote]"

section \<open>Floats\<close>

text \<open>
  \<open>strconv.FormatFloat(f, 'g', -1, 64)\<close>. The digits are the fewest that name a decimal inside
  the interval of reals that round to the float, taken below or above the value, whichever is
  nearer when both are inside. The interval is written as multiples of a quarter of the unit in
  the last place: \<open>mant\<close> is the 53-bit mantissa (fewer bits for a subnormal).
\<close>

primrec normal_mant :: "nat \<Rightarrow> nat \<Rightarrow> int \<Rightarrow> nat \<times> int" where
  "normal_mant 0 m e = (m, e)"
| "normal_mant (Suc fuel) m e =
     (if 4503599627370496 \<le> m \<or> e \<le> -1074 then (m, e) else normal_mant fuel (2 * m) (e - 1))"

definition round_interval :: "nat \<Rightarrow> int \<Rightarrow> nat \<times> nat \<times> nat \<times> nat \<times> bool" where
  "round_interval m e =
     (case normal_mant 52 m e of (mant, ex) \<Rightarrow>
       let p = 2 ^ nat (ex - 2); q = 2 ^ nat (2 - ex);
           below = (if mant > 4503599627370496 \<or> ex \<le> -1074 then 2 else 1)
       in (4 * mant * p, (4 * mant - below) * p, (4 * mant + 2) * p, q, even mant))"

text \<open>The number of digits before the decimal point of the value \<open>v / q\<close>, negative or zero when
  zeros follow the point.\<close>

definition decimal_point :: "nat \<Rightarrow> nat \<Rightarrow> int" where
  "decimal_point v q =
     (if q \<le> v then int (length (nat_dec (v div q))) else 1 - int (length (nat_dec ((q - 1) div v))))"

definition digits_try :: "nat \<times> nat \<times> nat \<times> nat \<times> bool \<Rightarrow> int \<Rightarrow> nat \<Rightarrow> nat option" where
  "digits_try iv dp n = (case iv of (v, lo, hi, q, incl) \<Rightarrow>
     let k = dp - int n; a = 10 ^ nat (- k); b = q * 10 ^ nat k; d = v * a div b; r = v * a mod b;
         okdown = (d * b > lo * a \<or> (incl \<and> d * b = lo * a));
         okup = ((d + 1) * b < hi * a \<or> (incl \<and> (d + 1) * b = hi * a))
     in if okdown \<and> okup then Some (if 2 * r < b \<or> (2 * r = b \<and> even d) then d else d + 1)
        else if okdown then Some d
        else if okup then Some (d + 1)
        else None)"

definition strip_zeros :: "string \<Rightarrow> string" where
  "strip_zeros s = rev (dropWhile (\<lambda>c. c = CHR ''0'') (rev s))"

text \<open>The digits and the position of the decimal point, for a positive value. One to seventeen
  digits are tried (seventeen always suffice); rounding up may carry into one more digit.\<close>

definition shortest_digits :: "nat \<Rightarrow> int \<Rightarrow> string \<times> int" where
  "shortest_digits m e =
     (if m = 0 then ([], 0)
      else (case round_interval m e of (v, lo, hi, q, incl) \<Rightarrow>
        let dp = decimal_point v q in
        (case find (\<lambda>n. digits_try (v, lo, hi, q, incl) dp n \<noteq> None) [1..<18] of
           None \<Rightarrow> ([], 0)
         | Some n \<Rightarrow>
             let d = the (digits_try (v, lo, hi, q, incl) dp n) in
             (strip_zeros (nat_dec d), dp + int (length (nat_dec d)) - int n))))"

definition zeros :: "int \<Rightarrow> string" where
  "zeros n = replicate (nat n) CHR ''0''"

definition fmtE :: "string \<Rightarrow> int \<Rightarrow> string" where
  "fmtE ds dp =
     (let ex = (if ds = [] then 0 else dp - 1); ds = (if ds = [] then ''0'' else ds) in
      [hd ds] @ (if tl ds \<noteq> [] then ''.'' @ tl ds else []) @ ''e'' @ (if ex < 0 then ''-'' else ''+'') @
      (if \<bar>ex\<bar> < 10 then ''0'' else []) @ nat_dec (nat \<bar>ex\<bar>))"

definition fmtF :: "string \<Rightarrow> int \<Rightarrow> string" where
  "fmtF ds dp =
     (if dp > 0 then take (nat dp) ds @ zeros (dp - int (length ds)) else ''0'') @
     (if int (length ds) > dp then (if ds = [] then [] else ''.'' @ zeros (- dp) @ drop (nat dp) ds) else [])"

definition FormatFloat_g :: "bool \<Rightarrow> nat \<Rightarrow> int \<Rightarrow> string" where
  "FormatFloat_g neg m e =
     (case shortest_digits m e of (ds, dp) \<Rightarrow>
       (if neg then ''-'' else []) @
       (let ex = dp - 1 in if ex < -4 \<or> 6 \<le> ex then fmtE ds dp else fmtF ds dp))"

definition writeFloat :: "float64 \<Rightarrow> string option" where
  "writeFloat f = (case f of
     FFin neg m e \<Rightarrow>
       (let s = FormatFloat_g neg m e in
        Some (if list_ex (\<lambda>c. c \<in> set ''.eE'') s then s else s @ ''.0''))
   | _ \<Rightarrow> None)"

text \<open>The value 1700000000, evaluated step by step.\<close>

lemma normal_mant_numeral:
  "normal_mant (numeral k) m e =
     (if 4503599627370496 \<le> m \<or> e \<le> -1074 then (m, e) else normal_mant (pred_numeral k) (2 * m) (e - 1))"
  by (simp only: numeral_eq_Suc[of k] normal_mant.simps)

lemma upto_17: "[Suc 0..<18] = [1, 2, 3, 4, 5, 6, 7, 8, 9, 10, 11, 12, 13, 14, 15, 16, 17]"
  by code_simp

lemma shortest_digits_17e8: "shortest_digits 6640625 8 = (''17'', 10)"
proof -
  let ?iv = "(28521267200000000, 28521267199999998, 28521267200000002, 16777216, True)"
  have "normal_mant 52 6640625 8 = (7130316800000000, -22)" by (simp add: normal_mant_numeral)
  then have "round_interval 6640625 8 = ?iv" by (simp add: round_interval_def)
  moreover have "decimal_point 28521267200000000 16777216 = 10" by (simp add: decimal_point_def nat_dec_eval)
  moreover have "digits_try ?iv 10 1 = None" "digits_try ?iv 10 2 = Some 17" by (simp_all add: digits_try_def)
  ultimately show ?thesis by (simp add: shortest_digits_def upto_17 strip_zeros_def nat_dec_eval)
qed

lemma writeFloat_17e8: "writeFloat (FFin False 6640625 8) = Some ''1.7e+09''"
  by (simp add: writeFloat_def FormatFloat_g_def shortest_digits_17e8 fmtE_def nat_dec_eval)

section \<open>The encoder\<close>

text \<open>\<open>None\<close> is the error return; nothing of the buffer is used after an error.\<close>

fun opt_all :: "'a option list \<Rightarrow> 'a list option" where
  "opt_all [] = Some []"
| "opt_all (None # xs) = None"
| "opt_all (Some x # xs) = map_option (\<lambda>ys. x # ys) (opt_all xs)"

fun encode :: "string \<Rightarrow> string \<Rightarrow> gval \<Rightarrow> string option" where
  "encode itemSep kvSep VNil = Some ''null''"
| "encode itemSep kvSep (VBool b) = Some (if b then ''true'' else ''false'')"
| "encode itemSep kvSep (VStr s) = Some (writeString s)"
| "encode itemSep kvSep (VInt i) = Some (int_dec i)"
| "encode itemSep kvSep (VUint n) = Some (nat_dec n)"
| "encode itemSep kvSep (VFloat f) = writeFloat f"
| "encode itemSep kvSep (VArr xs) =
     map_option (\<lambda>ts. ''['' @ join itemSep ts @ '']'') (opt_all (map (encode itemSep kvSep) xs))"
| "encode itemSep kvSep (VObj m) =
     (let members = sort_key fst (map (\<lambda>p. (fst p, encode itemSep kvSep (snd p))) (filter (\<lambda>p. snd p \<noteq> VNil) m))
      in map_option (\<lambda>ts. ''{'' @ join itemSep ts @ ''}'')
        (opt_all (map (\<lambda>p. map_option (\<lambda>t. writeString (fst p) @ kvSep @ t) (snd p)) members)))"
| "encode itemSep kvSep (VOther _) = None"

definition Encode :: "gval \<Rightarrow> string option" where
  "Encode v = encode '','' '':'' v"

definition EncodeForSignature :: "gval \<Rightarrow> string option" where
  "EncodeForSignature v = encode '', '' '': '' v"

section \<open>The text is printable ASCII\<close>

definition printable :: "char \<Rightarrow> bool" where
  "printable c \<longleftrightarrow> 0x20 \<le> (of_char c :: nat) \<and> (of_char c :: nat) \<le> 0x7E"

abbreviation ascii_text :: "string \<Rightarrow> bool" where
  "ascii_text s \<equiv> list_all printable s"

lemma printable_digit: "is_digit c \<Longrightarrow> printable c"
  by (simp add: is_digit_def printable_def)

lemma nat_dec_printable [simp]: "ascii_text (nat_dec n)"
  by (simp add: list_all_iff nat_dec_digits printable_digit)

lemma int_dec_printable [simp]: "ascii_text (int_dec i)"
  by (simp add: int_dec_def) (simp add: printable_def)

lemma hex_digit_printable [simp]: "d < 16 \<Longrightarrow> printable (hex_digit d)"
  by (auto simp: hex_digit_def printable_digit) (simp add: printable_def)

lemma escape_rune_printable [simp]: "ascii_text (escape_rune r)"
proof -
  have "ascii_text (escape_u n)" for n
    by (simp add: escape_u_def hex4_def) (simp add: printable_def)
  then show ?thesis by (simp add: escape_rune_def) (simp add: printable_def)
qed

lemma write_runes_printable [simp]: "ascii_text (write_runes s)"
proof (induction s rule: write_runes.induct)
  case (1 s)
  then show ?case by (subst write_runes.simps) (auto split: prod.splits)
qed

lemma writeString_printable [simp]: "ascii_text (writeString s)"
  by (simp add: writeString_def printable_def)

lemma list_all_join [simp]: "list_all P sep \<Longrightarrow> list_all (list_all P) ts \<Longrightarrow> list_all P (join sep ts)"
  by (induction sep ts rule: join.induct) auto

lemma opt_all_SomeD: "opt_all xs = Some ys \<Longrightarrow> xs = map Some ys"
  by (induction xs arbitrary: ys rule: opt_all.induct) auto

lemma strip_zeros_subset: "set (strip_zeros s) \<subseteq> set s"
  using set_dropWhileD[of _ "\<lambda>c. c = CHR ''0''" "rev s"] by (auto simp: strip_zeros_def)

lemma shortest_digits_printable: "list_all is_digit (fst (shortest_digits m e))"
proof -
  have "list_all is_digit (strip_zeros (nat_dec d))" for d
    using strip_zeros_subset[of "nat_dec d"] nat_dec_digits by (auto simp: list_all_iff)
  then show ?thesis by (simp add: shortest_digits_def Let_def split: prod.splits option.splits)
qed

lemma printable_consts [simp]:
  "printable CHR ''.''" "printable CHR ''e''" "printable CHR ''-''" "printable CHR ''+''" "printable CHR ''0''"
  "printable CHR ''['' " "printable CHR '']''" "printable CHR ''{''" "printable CHR ''}''"
  "printable CHR '',''" "printable CHR '':''" "printable CHR '' ''"
  by (simp_all add: printable_def)

lemma digits_printable: "list_all is_digit ds \<Longrightarrow> ascii_text ds"
  by (auto simp: list_all_iff printable_digit)

lemma digits_sub:
  assumes "list_all is_digit ds"
  shows "list_all is_digit (take n ds)" "list_all is_digit (drop n ds)" "list_all is_digit (tl ds)"
    "ds \<noteq> [] \<Longrightarrow> is_digit (hd ds)"
  using assms by (auto simp: list_all_iff dest: in_set_takeD in_set_dropD list.set_sel) (cases ds; auto)

lemma zeros_printable [simp]: "ascii_text (zeros n)"
  by (simp add: zeros_def list_all_iff)

lemma fmt_printable:
  assumes "list_all is_digit ds"
  shows "ascii_text (fmtE ds dp)" "ascii_text (fmtF ds dp)"
  using assms digits_sub[OF assms] by (auto simp: fmtE_def fmtF_def Let_def digits_printable printable_digit)

lemma writeFloat_printable: "writeFloat f = Some t \<Longrightarrow> ascii_text t"
  using fmt_printable[OF shortest_digits_printable]
  by (auto simp: writeFloat_def FormatFloat_g_def Let_def split: float64.splits prod.splits)
    (metis fst_conv)+

fun encodable :: "gval \<Rightarrow> bool" where
  "encodable (VFloat (FFin _ _ _)) = True"
| "encodable (VFloat _) = False"
| "encodable (VArr xs) = list_all encodable xs"
| "encodable (VObj m) = list_all (\<lambda>p. encodable (snd p)) (filter (\<lambda>p. snd p \<noteq> VNil) m)"
| "encodable (VOther _) = False"
| "encodable _ = True"

lemma opt_all_None_iff: "opt_all xs = None \<longleftrightarrow> None \<in> set xs"
  by (induction xs rule: opt_all.induct) auto

lemma encode_printable:
  assumes "ascii_text a" "ascii_text b"
  shows "encode a b v = Some t \<Longrightarrow> ascii_text t"
  using assms
proof (induction a b v arbitrary: t rule: encode.induct)
  case (7 a b xs)
  then obtain ts where ts: "map (encode a b) xs = map Some ts" "t = ''['' @ join a ts @ '']''"
    by (auto dest: opt_all_SomeD)
  have "ascii_text u" if "u \<in> set ts" for u
  proof -
    from that ts(1) obtain x where "x \<in> set xs" "encode a b x = Some u"
      by (metis (no_types, lifting) imageE image_eqI list.set_map)
    with "7.IH" "7.prems" show ?thesis by blast
  qed
  then have "list_all ascii_text ts" by (simp add: list_all_iff)
  with ts(2) "7.prems"(2) show ?case by simp
next
  case (8 a b m)
  let ?m = "filter (\<lambda>p. snd p \<noteq> VNil) m"
  let ?ms = "sort_key fst (map (\<lambda>p. (fst p, encode a b (snd p))) ?m)"
  from "8.prems"(1) obtain ts where
    ts: "map (\<lambda>p. map_option (\<lambda>t. writeString (fst p) @ b @ t) (snd p)) ?ms = map Some ts" "t = ''{'' @ join a ts @ ''}''"
    by (auto simp: Let_def dest: opt_all_SomeD)
  have "ascii_text u" if "u \<in> set ts" for u
  proof -
    have "set (map Some ts) = (\<lambda>p. map_option (\<lambda>t. writeString (fst p) @ b @ t) (encode a b (snd p))) ` set ?m"
      by (subst ts(1)[symmetric]) (simp add: image_image)
    moreover have "Some u \<in> set (map Some ts)" using that by simp
    ultimately obtain p where "p \<in> set ?m" "map_option (\<lambda>t. writeString (fst p) @ b @ t) (encode a b (snd p)) = Some u"
      by (metis (no_types, lifting) imageE)
    with "8.IH"[of p] "8.prems" show ?thesis by auto
  qed
  then have "list_all ascii_text ts" by (simp add: list_all_iff)
  with ts(2) "8.prems"(2) show ?case by simp
qed (auto simp: writeFloat_printable printable_def split: if_splits)

lemma encode_None_iff: "encode a b v = None \<longleftrightarrow> \<not> encodable v"
proof (induction a b v rule: encode.induct)
  case (6 a b f)
  then show ?case by (cases f) (simp_all add: writeFloat_def Let_def)
next
  case (7 a b xs)
  then show ?case by (force simp: opt_all_None_iff list_all_iff image_iff)
next
  case (8 a b m)
  then have "None \<in> snd ` set (map (\<lambda>p. (fst p, encode a b (snd p))) (filter (\<lambda>p. snd p \<noteq> VNil) m)) \<longleftrightarrow> \<not> encodable (VObj m)"
    by (force simp: list_all_iff image_iff)
  then show ?case by (simp add: Let_def opt_all_None_iff image_iff) (metis option.map_disc_iff)
qed auto

text \<open>The canonical text exists for exactly the values made of null, booleans, integers, finite
  floats, strings, arrays and maps, and is then printable ASCII, in both separator styles: no
  byte of it depends on how a transport would treat control characters or non-ASCII text.\<close>

lemma Encode_ascii:
  "(Encode v = None \<longleftrightarrow> \<not> encodable v) \<and> (EncodeForSignature v = None \<longleftrightarrow> \<not> encodable v) \<and>
   list_all ascii_text (case (Encode v, EncodeForSignature v) of (Some t, Some u) \<Rightarrow> [t, u] | _ \<Rightarrow> [])"
  using encode_printable[of "'',''" "'':''" v] encode_printable[of "'', ''" "'': ''" v]
  by (auto simp: Encode_def EncodeForSignature_def encode_None_iff split: option.splits)

section \<open>The text depends on the value only\<close>

lemma sort_key_fst_unique:
  assumes "set xs = set ys" "distinct (map fst xs)" "distinct (map fst ys)"
  shows "sort_key fst xs = sort_key fst ys"
proof -
  have "mset xs = mset ys"
    using assms by (simp add: distinct_map set_eq_iff_mset_eq_distinct)
  then show ?thesis
    using assms(2) by (intro sort_key_inj_key_eq) (simp_all add: distinct_map)
qed

definition live_members :: "gmap \<Rightarrow> gmap" where
  "live_members m = filter (\<lambda>p. snd p \<noteq> VNil) m"

lemma set_live_members:
  "wf_map m \<Longrightarrow> set (live_members m) = {(k, v). mget m k = v \<and> v \<noteq> VNil}"
  by (auto simp: live_members_def mget_def wf_map_def map_of_eq_Some_iff split: option.splits)

lemma encode_obj_live:
  "encode a b (VObj m) = map_option (\<lambda>ts. ''{'' @ join a ts @ ''}'')
     (opt_all (map (\<lambda>p. map_option (\<lambda>t. writeString (fst p) @ b @ t) (snd p))
       (sort_key fst (map (\<lambda>p. (fst p, encode a b (snd p))) (live_members m)))))"
  by (simp add: live_members_def Let_def)

lemma encode_obj_cong:
  assumes "wf_map m1" "wf_map m2" "\<And>k. mget m1 k = mget m2 k"
  shows "encode a b (VObj m1) = encode a b (VObj m2)"
proof -
  have "set (live_members m1) = set (live_members m2)" using assms by (simp add: set_live_members)
  moreover have "distinct (map fst (live_members m))" if "wf_map m" for m
    using wf_map_filter[OF that] by (simp add: live_members_def wf_map_def)
  ultimately have "sort_key fst (map (\<lambda>p. (fst p, encode a b (snd p))) (live_members m1)) =
      sort_key fst (map (\<lambda>p. (fst p, encode a b (snd p))) (live_members m2))"
    using assms(1,2) by (intro sort_key_fst_unique) (simp_all add: comp_def)
  then show ?thesis unfolding encode_obj_live by simp
qed

text \<open>A value with the members of its maps sorted and the null ones dropped, at every level.\<close>

fun canon :: "gval \<Rightarrow> gval" where
  "canon (VArr xs) = VArr (map canon xs)"
| "canon (VObj m) = VObj (sort_key fst (map (\<lambda>p. (fst p, canon (snd p))) (filter (\<lambda>p. snd p \<noteq> VNil) m)))"
| "canon v = v"

lemma canon_VNil [simp]: "canon v = VNil \<longleftrightarrow> v = VNil"
  by (cases v) auto

lemma insort_key_map: "(\<And>x. fst (g x) = fst x) \<Longrightarrow> insort_key fst (g x) (map g xs) = map g (insort_key fst x xs)"
  by (induction xs) auto

lemma sort_key_map: "(\<And>x. fst (g x) = fst x) \<Longrightarrow> sort_key fst (map g xs) = map g (sort_key fst xs)"
  by (induction xs) (auto simp: insort_key_map)

lemma encode_canon: "encode a b (canon v) = encode a b v"
proof (induction v rule: canon.induct)
  case (1 xs)
  then show ?case by (simp cong: map_cong)
next
  case (2 m)
  let ?m = "filter (\<lambda>p. snd p \<noteq> VNil) m"
  let ?c = "\<lambda>p. (fst p, canon (snd p))" and ?e = "\<lambda>p. (fst p, encode a b (snd p))"
  have "filter (\<lambda>p. snd p \<noteq> VNil) (sort_key fst (map ?c ?m)) = sort_key fst (map ?c ?m)"
    by (auto simp: filter_id_conv)
  moreover have "sort_key fst (map ?e (sort_key fst (map ?c ?m))) = sort_key fst (map ?e (map ?c ?m))"
    by (simp add: sort_key_map sort_key_id_if_sorted)
  moreover have "map ?e (map ?c ?m) = map ?e ?m" using 2 by auto
  ultimately show ?case by (simp only: canon.simps encode.simps Let_def)
qed auto



section \<open>Decoded numbers\<close>

text \<open>A number that Python signs as an integer is a \<open>float64\<close> once the agent has decoded the message,
  and its canonical text is that of the float: the two texts of one body.\<close>

lemma encode_timestamp_float:
  "EncodeForSignature (VObj [(''timestamp'', VFloat (float_of_nat 1700000000))]) = Some ''{\"timestamp\": 1.7e+09}''"
proof -
  have f: "float_of_nat 1700000000 = FFin False 6640625 8"
    by (simp add: float_of_nat_def strip_twos.simps)
  have w: "writeString ''timestamp'' = ''\"timestamp\"''" by code_simp
  show ?thesis by (simp add: EncodeForSignature_def f w writeFloat_17e8)
qed

lemma encode_timestamp_int:
  "EncodeForSignature (VObj [(''timestamp'', VInt 1700000000)]) = Some ''{\"timestamp\": 1700000000}''"
proof -
  have w: "writeString ''timestamp'' = ''\"timestamp\"''" by code_simp
  have d: "int_dec 1700000000 = ''1700000000''" by (simp add: int_dec_def nat_dec_eval)
  show ?thesis by (simp add: EncodeForSignature_def w d)
qed

end
