(* ===== verification/GoJson.thy ===== *)
theory GoJson
  imports CanonJson
begin

text \<open>
  \<open>json.Marshal\<close> on JSON trees, as the code uses it to build outgoing payloads: object members
  sorted by key, HTML characters and the two Unicode line separators escaped, invalid UTF-8
  replaced, floats in the shortest form with an exponent only below 1e-6 and from 1e21 on. An
  error (NaN, infinities, values of other Go types) is \<open>None\<close>. The theory proves when it
  succeeds.
\<close>

definition json_escape :: "nat \<Rightarrow> string" where
  "json_escape b =
     (if b = 0x22 then [backslash, dquote]
      else if b = 0x5C then [backslash, backslash]
      else if b = 8 then [backslash, CHR ''b'']
      else if b = 12 then [backslash, CHR ''f'']
      else if b = 10 then [backslash, CHR ''n'']
      else if b = 13 then [backslash, CHR ''r'']
      else if b = 9 then [backslash, CHR ''t'']
      else if b < 0x20 \<or> b = 0x3C \<or> b = 0x3E \<or> b = 0x26 then escape_u b
      else [char_of b])"

function json_runes :: "string \<Rightarrow> string" where
  "json_runes s = (if s = [] then [] else
     (case decode_rune s of (r, width) \<Rightarrow>
        (if r < 0x80 then json_escape r
         else if r = 0xFFFD \<and> width = 1 then escape_u 0xFFFD
         else if r = 0x2028 \<or> r = 0x2029 then escape_u r
         else take width s) @ json_runes (drop width s)))"
  by pat_completeness auto
termination
proof (relation "measure length", goal_cases)
  case (2 s p w)
  then have "0 < w" using decode_rune_width[of s] by (metis snd_conv)
  with 2 show ?case by simp
qed simp

declare json_runes.simps [simp del]

definition json_string :: "string \<Rightarrow> string" where
  "json_string s = [dquote] @ json_runes s @ [dquote]"

text \<open>The exponent form of \<open>encoding/json\<close> drops the zero of a one-digit negative exponent.\<close>

definition json_fmtE :: "string \<Rightarrow> int \<Rightarrow> string" where
  "json_fmtE ds dp =
     (let ex = dp - 1 in
      [hd ds] @ (if tl ds \<noteq> [] then ''.'' @ tl ds else []) @
      (if ex < 0 then ''e-'' @ nat_dec (nat (- ex)) else ''e+'' @ nat_dec (nat ex)))"

definition json_float :: "float64 \<Rightarrow> string option" where
  "json_float f = (case f of
     FFin neg m e \<Rightarrow> (case shortest_digits m e of (ds, dp) \<Rightarrow>
       Some ((if neg then ''-'' else []) @ (if m \<noteq> 0 \<and> (dp \<le> -6 \<or> 22 \<le> dp) then json_fmtE ds dp else fmtF ds dp)))
   | _ \<Rightarrow> None)"

fun json_marshal :: "gval \<Rightarrow> string option" where
  "json_marshal VNil = Some ''null''"
| "json_marshal (VBool b) = Some (if b then ''true'' else ''false'')"
| "json_marshal (VStr s) = Some (json_string s)"
| "json_marshal (VInt i) = Some (int_dec i)"
| "json_marshal (VUint n) = Some (nat_dec n)"
| "json_marshal (VFloat f) = json_float f"
| "json_marshal (VArr xs) = map_option (\<lambda>ts. ''['' @ join '','' ts @ '']'') (opt_all (map json_marshal xs))"
| "json_marshal (VObj m) =
     map_option (\<lambda>ts. ''{'' @ join '','' ts @ ''}'')
       (opt_all (map (\<lambda>p. map_option (\<lambda>t. json_string (fst p) @ '':'' @ t) (snd p))
         (sort_key fst (map (\<lambda>p. (fst p, json_marshal (snd p))) m))))"
| "json_marshal (VOther _) = None"

lemma json_marshal_sample:
  "json_marshal (VObj [(''b'', VArr [VInt 1, VNil]), (''a'', VStr ''xy'')]) =
     Some (''{'' @ json_string ''a'' @ '':'' @ json_string ''xy'' @ '','' @ json_string ''b'' @ '':[1,null]}'')"
  by code_simp

section \<open>When it succeeds\<close>

fun json_finite :: "gval \<Rightarrow> bool" where
  "json_finite (VFloat f) = (case f of FFin _ _ _ \<Rightarrow> True | _ \<Rightarrow> False)"
| "json_finite (VArr xs) = list_all json_finite xs"
| "json_finite (VObj m) = list_all (\<lambda>p. json_finite (snd p)) m"
| "json_finite (VOther _) = False"
| "json_finite _ = True"

lemma json_marshal_None_iff: "json_marshal v = None \<longleftrightarrow> \<not> json_finite v"
proof (induction v rule: json_finite.induct)
  case (1 f)
  then show ?case by (auto simp: json_float_def split: float64.splits prod.splits)
next
  case (2 xs)
  then show ?case by (auto simp: opt_all_None_iff list_all_iff image_iff) metis+
next
  case (3 m)
  then show ?case by (auto simp: opt_all_None_iff list_all_iff image_iff)
qed auto

end
