(* ===== verification/Findings.thy ===== *)
theory Findings
  imports GoJson EventsBlock
begin

text \<open>
  \<open>pkg/alerts/finding.go\<close> and \<open>pkg/alerts/node_subject.go\<close>: the Finding envelopes built from a
  matched trigger, from an AlertManager webhook and from a bare kubewatch event, and the choice
  of an alert's subject. Random and name-based UUIDs, SHA-256 and the node locator (an
  interface) are parameters; the webhook is taken as decoded. The theory proves that every alert
  becomes a finding with a subject, which label decides the subject, and when two reports share
  their identity.
\<close>

section \<open>Types\<close>

record node_locator =
  nl_NodeForPod :: "string \<Rightarrow> string \<Rightarrow> string"
  nl_NodeForIP :: "string \<Rightarrow> string"

record finding =
  fd_ID :: string
  fd_Title :: string
  fd_Description :: string
  fd_Source :: string
  fd_AggregationKey :: string
  fd_Failure :: bool
  fd_FindingType :: string
  fd_Category :: string
  fd_Priority :: string
  fd_SubjectType :: string
  fd_SubjectName :: string
  fd_SubjectNamespace :: string
  fd_SubjectNode :: string
  fd_ServiceKey :: string
  fd_Cluster :: string
  fd_AccountID :: string
  fd_VideoLinks :: "gval list"
  fd_StartsAt :: string
  fd_UpdatedAt :: string
  fd_Fingerprint :: string
  fd_SubjectOwner :: string
  fd_SubjectOwnerKind :: string

record evidence =
  ed_IssueID :: string
  ed_FileType :: string
  ed_Data :: string
  ed_AccountID :: string

record finding_envelope =
  fe_Finding :: finding
  fe_Evidence :: "evidence list"
  fe_Message :: string

record builder =
  bd_AccountID :: string
  bd_Cluster :: string
  bd_Nodes :: "node_locator option"

text \<open>The third-party functions: \<open>uuid.NewSHA1(NameSpaceOID, data).String()\<close> and the SHA-256 digest
  in hexadecimal. A random UUID is an argument of the operation that draws it.\<close>

record finding_ext =
  fx_sha1uuid :: "string \<Rightarrow> string"
  fx_sha256hex :: "string \<Rightarrow> string"

record matched_trigger =
  mt_AggregationKey :: string
  mt_Priority :: string
  mt_FindingType :: string
  mt_Fingerprint :: string
  mt_OccurrenceKey :: string
  mt_Owner :: owner_ref
  mt_SubjectName :: string
  mt_SubjectNamespace :: string
  mt_SubjectKind :: string
  mt_SubjectNode :: string
  mt_MatcherName :: string
  mt_ExtraBlocks :: "gmap option list"

section \<open>Helpers\<close>

definition utcDBStr :: "time \<Rightarrow> string" where
  "utcDBStr t = format_rfc3339 t"

type_synonym labels = "(string, string) gomap option"

definition lget :: "labels \<Rightarrow> string \<Rightarrow> string" where
  "lget ls k = (case ls of None \<Rightarrow> [] | Some m \<Rightarrow> (case map_of m k of None \<Rightarrow> [] | Some v \<Rightarrow> v))"

fun pickLabel :: "labels \<Rightarrow> string list \<Rightarrow> string" where
  "pickLabel ls [] = []"
| "pickLabel ls (k # ks) = (if lget ls k \<noteq> [] then lget ls k else pickLabel ls ks)"

fun firstNonEmpty :: "string list \<Rightarrow> string" where
  "firstNonEmpty [] = []"
| "firstNonEmpty (v # vs) = (if v \<noteq> [] then v else firstNonEmpty vs)"

definition coalesce :: "string \<Rightarrow> string \<Rightarrow> string" where
  "coalesce a b = (if a \<noteq> [] then a else b)"

definition finding_fingerprint :: "finding_ext \<Rightarrow> string \<Rightarrow> string \<Rightarrow> string \<Rightarrow> string" where
  "finding_fingerprint x aggregationKey serviceKey startsAt =
     fx_sha256hex x (aggregationKey @ '':'' @ serviceKey @ '':'' @ startsAt)"

definition severityToPriority :: "string \<Rightarrow> string" where
  "severityToPriority severity =
     (let s = to_lower severity in
      if s = ''critical'' then ''HIGH''
      else if s = ''warning'' then ''MEDIUM''
      else if s = ''info'' \<or> s = [] then ''INFO''
      else if s = ''low'' then ''LOW''
      else if s = ''debug'' then ''DEBUG''
      else ''INFO'')"

section \<open>Evidence\<close>

definition maxRawPayloadBytes :: nat where "maxRawPayloadBytes = 262144"

definition cappedRawPayload :: "string \<Rightarrow> string" where
  "cappedRawPayload raw =
     (if length raw \<le> maxRawPayloadBytes then raw
      else (case json_marshal (VObj [(''truncated'', VBool True), (''bytes'', VInt (int (length raw))),
              (''limit_bytes'', VInt (int maxRawPayloadBytes)),
              (''note'', VStr ''raw watch payload omitted; see the diff evidence block for the change itself'')]) of
         None \<Rightarrow> ''{}'' | Some s \<Rightarrow> s))"

definition evidence_blocks :: "string \<Rightarrow> gmap option list \<Rightarrow> gval list" where
  "evidence_blocks raw extras =
     VObj [(''type'', VStr ''json''), (''data'', VStr (cappedRawPayload raw)), (''additional_info'', VObj [])] #
     map VObj (List.map_filter id extras)"

definition newJSONEvidence :: "string \<Rightarrow> string \<Rightarrow> string \<Rightarrow> gmap option list \<Rightarrow> evidence" where
  "newJSONEvidence findingID accountID raw extras =
     \<lparr>ed_IssueID = findingID, ed_FileType = ''structured_data'',
      ed_Data = (case json_marshal (VArr (evidence_blocks raw extras)) of None \<Rightarrow> [] | Some s \<Rightarrow> s),
      ed_AccountID = accountID\<rparr>"

section \<open>Findings of matched triggers\<close>

definition kindDisplayNames :: "(string, string) gomap" where
  "kindDisplayNames = [(''configmap'', ''ConfigMap''), (''deployment'', ''Deployment''), (''daemonset'', ''DaemonSet''),
     (''statefulset'', ''StatefulSet''), (''ingress'', ''Ingress''), (''rollout'', ''Rollout'')]"

definition kindDisplay :: "string \<Rightarrow> string" where
  "kindDisplay kind = (case map_of kindDisplayNames (to_lower kind) of
     Some display \<Rightarrow> display | None \<Rightarrow> if kind = [] then ''Resource'' else kind)"

definition subjectPath :: "matched_trigger \<Rightarrow> string" where
  "subjectPath m = (if mt_SubjectNamespace m = [] then mt_SubjectName m else mt_SubjectNamespace m @ ''/'' @ mt_SubjectName m)"

definition trigger_Title :: "matched_trigger \<Rightarrow> string" where
  "trigger_Title m =
     (let key = mt_AggregationKey m; nn = mt_SubjectNamespace m @ ''/'' @ mt_SubjectName m in
      if key = ''report_crash_loop'' then ''Pod '' @ nn @ '' is in CrashLoopBackOff''
      else if key = ''pod_oom_killer_enricher'' then ''Pod '' @ nn @ '' was OOMKilled''
      else if key = ''image_pull_backoff_reporter'' then ''Pod '' @ nn @ '' has ImagePullBackOff''
      else if key = ''job_failure'' then ''Job '' @ nn @ '' failed''
      else if key = ''node_not_ready'' then ''Node '' @ mt_SubjectName m @ '' is NotReady''
      else if key = ''ConfigurationChange/KubernetesResource/Change'' then
        kindDisplay (mt_SubjectKind m) @ '' '' @ subjectPath m @ '' was changed''
      else key @ '' on '' @ nn)"

definition trigger_Description :: "matched_trigger \<Rightarrow> string" where
  "trigger_Description m =
     (let key = mt_AggregationKey m; kind = mt_SubjectKind m in
      if key = ''ConfigurationChange/KubernetesResource/Change'' then
        (if equal_fold kind ''configmap'' then
           ''The ConfigMap's data was changed; the key-level diff is attached in evidence. '' @
           ''Workloads consuming these values via envFrom or a mounted file only pick them up when their pods restart.''
         else ''The '' @ (if kind = [] then ''resource'' else kind) @
           [CHR 0x27] @ ''s configuration was changed (deploy or spec update); the spec diff is attached in evidence.'')
      else if key = ''report_crash_loop'' then
        ''A container in the pod is restarting repeatedly (CrashLoopBackOff); recent state is attached in evidence.''
      else if key = ''pod_oom_killer_enricher'' then
        ''A container in the pod was killed for exceeding its memory limit (OOMKilled).''
      else if key = ''image_pull_backoff_reporter'' then
        ''The pod cannot pull its container image; the image reference and pull error are attached in evidence.''
      else if key = ''job_failure'' then
        ''The job exceeded its failure policy and was marked failed; pod status is attached in evidence.''
      else if key = ''node_not_ready'' then
        ''The node stopped reporting Ready; node conditions are attached in evidence.''
      else if key = ''node_unschedulable'' then ''The node was marked unschedulable (cordoned).''
      else if key = ''node_pressure'' then
        ''The node reported resource pressure; node conditions are attached in evidence.''
      else if key = ''pod_unschedulable'' then
        ''The pod cannot be scheduled onto any node; the scheduler's reason is attached in evidence.''
      else if key = ''service_no_endpoints'' then ''The service has no ready endpoints; traffic to it will fail.''
      else ''Detected on the cluster; the raw event is attached in evidence.'')"

definition findingIDFor :: "finding_ext \<Rightarrow> string \<Rightarrow> builder \<Rightarrow> matched_trigger \<Rightarrow> string" where
  "findingIDFor x newUUID b m =
     (if mt_OccurrenceKey m = [] then newUUID
      else fx_sha1uuid x (bd_AccountID b @ ''|'' @ mt_AggregationKey m @ ''|'' @ mt_OccurrenceKey m))"

definition FromMatchedTrigger ::
  "finding_ext \<Rightarrow> time \<Rightarrow> string \<Rightarrow> builder \<Rightarrow> matched_trigger \<Rightarrow> string \<Rightarrow> finding_envelope option" where
  "FromMatchedTrigger x now newUUID b m rawData =
     (if mt_SubjectName m = [] then None
      else
        (let startsAt = utcDBStr now; id = findingIDFor x newUUID b m;
             owner = owner_name (mt_Owner m);
             serviceKey = mt_SubjectNamespace m @ ''/'' @ (if owner \<noteq> [] then owner else mt_SubjectName m);
             finding =
               \<lparr>fd_ID = id, fd_Title = trigger_Title m, fd_Description = trigger_Description m,
                fd_Source = ''kubernetes_api_server'', fd_AggregationKey = mt_AggregationKey m,
                fd_Failure = (mt_FindingType m = ''issue''), fd_FindingType = mt_FindingType m, fd_Category = [],
                fd_Priority = mt_Priority m, fd_SubjectType = mt_SubjectKind m, fd_SubjectName = mt_SubjectName m,
                fd_SubjectNamespace = mt_SubjectNamespace m, fd_SubjectNode = mt_SubjectNode m,
                fd_ServiceKey = serviceKey, fd_Cluster = bd_Cluster b, fd_AccountID = bd_AccountID b, fd_VideoLinks = [],
                fd_StartsAt = startsAt, fd_UpdatedAt = startsAt, fd_Fingerprint = mt_Fingerprint m,
                fd_SubjectOwner = owner, fd_SubjectOwnerKind = owner_kind (mt_Owner m)\<rparr>
         in Some \<lparr>fe_Finding = finding, fe_Evidence = [newJSONEvidence id (bd_AccountID b) rawData (mt_ExtraBlocks m)],
                  fe_Message = fd_Title finding\<rparr>))"

section \<open>Findings of bare events\<close>

text \<open>The decoded payload: operation, kind and object. Re-encoding the object can fail only on values
  that no JSON text decodes to.\<close>

definition FromKubewatchEvent ::
  "finding_ext \<Rightarrow> time \<Rightarrow> string \<Rightarrow> builder \<Rightarrow> (string \<times> string \<times> gmap option) option \<Rightarrow> finding_envelope option" where
  "FromKubewatchEvent x now newUUID b payload = (case payload of
     None \<Rightarrow> None
   | Some (op0, kind, obj) \<Rightarrow>
       (let meta = oget_map obj ''metadata''; subjectName = oget_str meta ''name'' in
        if subjectName = [] then None
        else
          (let subjectNamespace = oget_str meta ''namespace'';
               subjectNode = oget_str (oget_map obj ''spec'') ''nodeName'';
               subjectType = (if to_lower kind = [] then ''pod'' else to_lower kind);
               operation = (if to_lower op0 = [] then ''update'' else to_lower op0);
               aggregationKey = ''k8s_event_'' @ subjectType @ ''_'' @ operation;
               startsAt = utcDBStr now; serviceKey = subjectNamespace @ ''/'' @ subjectName
           in case json_marshal (case obj of None \<Rightarrow> VNil | Some m \<Rightarrow> VObj m) of
                None \<Rightarrow> None
              | Some rawJSON \<Rightarrow>
                  (let title = kind @ '' '' @ subjectNamespace @ ''/'' @ subjectName @ '' '' @ operation;
                       finding =
                         \<lparr>fd_ID = newUUID, fd_Title = title,
                          fd_Description = ''kubewatch '' @ operation @ '' event from agent'',
                          fd_Source = ''kubernetes_api_server'', fd_AggregationKey = aggregationKey, fd_Failure = False,
                          fd_FindingType = ''configuration_change'', fd_Category = [], fd_Priority = ''INFO'',
                          fd_SubjectType = subjectType, fd_SubjectName = subjectName,
                          fd_SubjectNamespace = subjectNamespace, fd_SubjectNode = subjectNode,
                          fd_ServiceKey = serviceKey, fd_Cluster = bd_Cluster b, fd_AccountID = bd_AccountID b,
                          fd_VideoLinks = [], fd_StartsAt = startsAt, fd_UpdatedAt = startsAt,
                          fd_Fingerprint = finding_fingerprint x aggregationKey serviceKey startsAt,
                          fd_SubjectOwner = [], fd_SubjectOwnerKind = []\<rparr>
                   in Some \<lparr>fe_Finding = finding, fe_Evidence = [newJSONEvidence newUUID (bd_AccountID b) rawJSON []],
                            fe_Message = title\<rparr>))))"

section \<open>The subject of an alert\<close>

record prom_alert =
  pa_StartsAt :: string
  pa_EndsAt :: string
  pa_GeneratorURL :: string
  pa_Fingerprint :: string
  pa_Status :: string
  pa_Labels :: labels
  pa_Annotations :: labels

definition isScrapeExporter :: "string \<Rightarrow> bool" where
  "isScrapeExporter job \<longleftrightarrow>
     to_lower job \<in> {''kubelet'', ''kube-state-metrics'', ''node-exporter'', ''cadvisor''} \<or>
     contains job ''kube-state-metrics'' \<or> contains job ''node-exporter''"

definition subject_candidates :: "(string \<times> string) list" where
  "subject_candidates = [(''deployment'', ''deployment''), (''statefulset'', ''statefulset''), (''daemonset'', ''daemonset''),
     (''job_name'', ''job''), (''horizontalpodautoscaler'', ''horizontalpodautoscaler''), (''hpa'', ''horizontalpodautoscaler''),
     (''persistentvolumeclaim'', ''persistentvolumeclaim''), (''workload'', ''deployment''), (''node'', ''node''), (''pod'', ''pod'')]"

definition alertSubject :: "labels \<Rightarrow> string \<times> string" where
  "alertSubject ls = (case find (\<lambda>c. lget ls (fst c) \<noteq> []) subject_candidates of
     Some (key, kind) \<Rightarrow> (lget ls key, kind)
   | None \<Rightarrow>
       if lget ls ''job'' \<noteq> [] \<and> \<not> isScrapeExporter (lget ls ''job'') then (lget ls ''job'', ''job'')
       else if lget ls ''kubernetes_kind'' \<noteq> [] then ([], to_lower (lget ls ''kubernetes_kind''))
       else ([], []))"

definition container_path :: "string \<Rightarrow> (string \<times> string) option" where
  "container_path cid =
     (if has_prefix cid ''/k8s/'' then
        (case split1 CHR ''/'' (tl cid) of
           [_, ns, _, c] \<Rightarrow> if ns \<noteq> [] \<and> c \<noteq> [] then Some (c, ns) else None
         | _ \<Rightarrow> None)
      else None)"

definition alertSubjectFallback :: "labels \<Rightarrow> string \<times> string \<times> string" where
  "alertSubjectFallback ls =
     (case find (\<lambda>k. lget ls k \<noteq> [] \<and> lget ls k \<noteq> ''kube-state-metrics'')
        [''destination_workload_name'', ''src_workload_name'', ''k8s_deployment_name''] of
        Some key \<Rightarrow>
          (lget ls key, if key = ''k8s_deployment_name'' then ''deployment'' else [],
           if key = ''src_workload_name'' then pickLabel ls [''src_workload_namespace'', ''source_workload_namespace'']
           else lget ls ''destination_workload_namespace'')
      | None \<Rightarrow>
          (case container_path (lget ls ''container_id'') of
             Some (c, ns) \<Rightarrow> (c, [], ns)
           | None \<Rightarrow>
               (case find (\<lambda>k. lget ls k \<noteq> [] \<and> \<not> isScrapeExporter (lget ls k)) [''service'', ''service_name''] of
                  Some key \<Rightarrow> (lget ls key, [], [])
                | None \<Rightarrow> ([], [], []))))"

definition isNodeScopedExporterJob :: "string \<Rightarrow> bool" where
  "isNodeScopedExporterJob job =
     (let lower = to_lower (trim_space job) in
      if lower = [] then False
      else if lower \<in> {''node-exporter'', ''node_exporter''} then True
      else contains lower ''node-exporter'' \<or> contains lower ''node_exporter'')"

definition nodeNameFromLabels :: "labels \<Rightarrow> string" where
  "nodeNameFromLabels ls = firstNonEmpty (map (\<lambda>k. trim_space (lget ls k)) [''node'', ''kubernetes_node'', ''instance_node''])"

text \<open>\<open>net.SplitHostPort\<close>, host only; \<open>None\<close> is its error.\<close>

definition index_of :: "char \<Rightarrow> string \<Rightarrow> nat option" where
  "index_of c s = (if c \<in> set s then Some (length (takeWhile (\<lambda>x. x \<noteq> c) s)) else None)"

definition last_index_of :: "char \<Rightarrow> string \<Rightarrow> nat option" where
  "last_index_of c s = map_option (\<lambda>i. length s - 1 - i) (index_of c (rev s))"

definition split_host :: "string \<Rightarrow> string option" where
  "split_host hp = (case last_index_of CHR '':'' hp of
     None \<Rightarrow> None
   | Some i \<Rightarrow>
       if hd hp = CHR ''['' then
         (case index_of CHR '']'' hp of
            None \<Rightarrow> None
          | Some e \<Rightarrow>
              if e + 1 \<noteq> i then None
              else if CHR ''['' \<in> set (drop 1 hp) \<or> CHR '']'' \<in> set (drop (e + 1) hp) then None
              else Some (take (e - 1) (drop 1 hp)))
       else
         (let host = take i hp in
          if CHR '':'' \<in> set host then None
          else if CHR ''['' \<in> set hp \<or> CHR '']'' \<in> set hp then None
          else Some host))"

definition hostFromInstance :: "string \<Rightarrow> string" where
  "hostFromInstance inst0 =
     (let inst = trim_space inst0 in
      if inst = [] then [] else case split_host inst of Some host \<Rightarrow> host | None \<Rightarrow> inst)"

definition resolveNodeSubject :: "labels \<Rightarrow> node_locator option \<Rightarrow> string" where
  "resolveNodeSubject ls locator =
     (if (case ls of None \<Rightarrow> True | Some m \<Rightarrow> m = []) then []
      else if \<not> isNodeScopedExporterJob (lget ls ''job'') then []
      else if nodeNameFromLabels ls \<noteq> [] then nodeNameFromLabels ls
      else case locator of
        None \<Rightarrow> []
      | Some l \<Rightarrow>
          (let pod = trim_space (lget ls ''pod'');
               byPod = (if pod \<noteq> [] then nl_NodeForPod l (trim_space (lget ls ''namespace'')) pod else []);
               host = hostFromInstance (lget ls ''instance'');
               byIP = (if host \<noteq> [] then nl_NodeForIP l host else [])
           in if byPod \<noteq> [] then byPod else byIP))"

section \<open>Findings of alerts\<close>

text \<open>\<open>json.Marshal\<close> of an alert: the fields in their order.\<close>

definition labels_json :: "labels \<Rightarrow> string" where
  "labels_json ls = (case ls of
     None \<Rightarrow> ''null''
   | Some m \<Rightarrow> ''{'' @ join '','' (map (\<lambda>p. json_string (fst p) @ '':'' @ json_string (snd p)) (sort_key fst m)) @ ''}'')"

definition alert_json :: "prom_alert \<Rightarrow> string" where
  "alert_json a = ''{'' @ join '','' (map (\<lambda>p. json_string (fst p) @ '':'' @ snd p)
     [(''startsAt'', json_string (pa_StartsAt a)), (''endsAt'', json_string (pa_EndsAt a)),
      (''generatorURL'', json_string (pa_GeneratorURL a)), (''fingerprint'', json_string (pa_Fingerprint a)),
      (''status'', json_string (pa_Status a)), (''labels'', labels_json (pa_Labels a)),
      (''annotations'', labels_json (pa_Annotations a))]) @ ''}''"

text \<open>Name, type, namespace and node of the subject.\<close>

definition alert_subject :: "builder \<Rightarrow> labels \<Rightarrow> string \<times> string \<times> string \<times> string" where
  "alert_subject b ls =
     (let (n0, t0) = alertSubject ls;
          ns0 = pickLabel ls [''namespace'', ''exported_namespace''];
          (fn, ft, fns) = alertSubjectFallback ls;
          n1 = (if n0 = [] then fn else n0); t1 = (if n0 = [] then ft else t0);
          ns1 = (if n0 = [] \<and> ns0 = [] then fns else ns0);
          n2 = (if n1 = [] then (if pickLabel ls [''alertname''] = [] then ''UnnamedAlert'' else pickLabel ls [''alertname'']) else n1);
          node = resolveNodeSubject ls (bd_Nodes b)
      in if node \<noteq> [] then (node, ''node'', [], node) else (n2, t1, ns1, nodeNameFromLabels ls))"

definition alertToFinding :: "finding_ext \<Rightarrow> time \<Rightarrow> string \<Rightarrow> builder \<Rightarrow> prom_alert \<Rightarrow> finding_envelope" where
  "alertToFinding x now newUUID b a =
     (let ls = pa_Labels a;
          (subjectName, subjectType, subjectNamespace, subjectNode) = alert_subject b ls;
          alertname = (if pickLabel ls [''alertname''] = [] then ''UnnamedAlert'' else pickLabel ls [''alertname'']);
          startsAt = (if pa_StartsAt a = [] then utcDBStr now else pa_StartsAt a);
          serviceKey = subjectNamespace @ ''/'' @ subjectName;
          title = firstNonEmpty [lget (pa_Annotations a) ''summary'', lget (pa_Annotations a) ''description'', alertname];
          finding =
            \<lparr>fd_ID = newUUID, fd_Title = title, fd_Description = lget (pa_Annotations a) ''description'',
             fd_Source = ''prometheus'', fd_AggregationKey = alertname, fd_Failure = False, fd_FindingType = ''issue'',
             fd_Category = [], fd_Priority = severityToPriority (lget ls ''severity''), fd_SubjectType = subjectType,
             fd_SubjectName = subjectName, fd_SubjectNamespace = subjectNamespace, fd_SubjectNode = subjectNode,
             fd_ServiceKey = serviceKey, fd_Cluster = bd_Cluster b, fd_AccountID = bd_AccountID b, fd_VideoLinks = [],
             fd_StartsAt = startsAt, fd_UpdatedAt = startsAt,
             fd_Fingerprint = coalesce (pa_Fingerprint a) (finding_fingerprint x alertname serviceKey startsAt),
             fd_SubjectOwner = [], fd_SubjectOwnerKind = []\<rparr>
      in \<lparr>fe_Finding = finding, fe_Evidence = [newJSONEvidence newUUID (bd_AccountID b) (alert_json a) []],
          fe_Message = title\<rparr>)"

text \<open>The webhook: \<open>None\<close> is a body that does not parse. Marshalling an alert, which holds only
  strings, cannot fail, so the count of dropped alerts stays zero. \<open>uuids\<close> gives the random
  identifiers drawn, one per alert.\<close>

definition FromAlertManager ::
  "finding_ext \<Rightarrow> time \<Rightarrow> (nat \<Rightarrow> string) \<Rightarrow> builder \<Rightarrow> prom_alert list option \<Rightarrow> (finding_envelope list \<times> nat) option" where
  "FromAlertManager x now uuids b webhook = (case webhook of
     None \<Rightarrow> None
   | Some alerts \<Rightarrow> Some (map (\<lambda>(i, a). alertToFinding x now (uuids i) b a) (enumerate 0 alerts), 0))"

section \<open>Every alert surfaces\<close>

text \<open>The time stamps of findings can be read back. For every instant from the year 1 to the end
  of 9999, parsing \<open>utcDBStr\<close>'s text with \<open>time.Parse\<close> gives the instant itself, cut to the second.\<close>

lemma utcDBStr_roundtrip:
  assumes "0 \<le> t" "t < 315537897600 * second"
  shows "parse_rfc3339 (utcDBStr t) = Some (t - t mod second)"
  unfolding utcDBStr_def using assms by (rule rfc3339_roundtrip)

lemma firstNonEmpty_ne: "last vs \<noteq> [] \<Longrightarrow> vs \<noteq> [] \<Longrightarrow> firstNonEmpty vs \<noteq> []"
  by (induction vs) (auto split: if_splits)

lemma severityToPriority_range: "severityToPriority s \<in> {''HIGH'', ''MEDIUM'', ''INFO'', ''LOW'', ''DEBUG''}"
  by (simp add: severityToPriority_def Let_def)

lemma alert_subject_ne: "fst (alert_subject b ls) \<noteq> []"
  by (auto simp: alert_subject_def Let_def split: prod.splits if_splits)

definition alert_env_ok :: "builder \<Rightarrow> prom_alert \<Rightarrow> finding_envelope \<Rightarrow> bool" where
  "alert_env_ok b a env = (let f = fe_Finding env in
     fd_SubjectName f \<noteq> [] \<and> fd_AggregationKey f \<noteq> [] \<and> fd_Title f \<noteq> [] \<and> fd_StartsAt f = fd_UpdatedAt f \<and>
     (fd_SubjectName f, fd_SubjectType f, fd_SubjectNamespace f, fd_SubjectNode f) = alert_subject b (pa_Labels a) \<and>
     fd_Priority f \<in> {''HIGH'', ''MEDIUM'', ''INFO'', ''LOW'', ''DEBUG''} \<and>
     map ed_IssueID (fe_Evidence env) = [fd_ID f])"

lemma alertToFinding_ok: "alert_env_ok b a (alertToFinding x now u b a) \<and> fd_ID (fe_Finding (alertToFinding x now u b a)) = u"
proof -
  obtain n t ns nd where s: "alert_subject b (pa_Labels a) = (n, t, ns, nd)" by (cases "alert_subject b (pa_Labels a)")
  then have "n \<noteq> []" using alert_subject_ne[of b "pa_Labels a"] by simp
  then show ?thesis
    using severityToPriority_range
    by (simp add: alert_env_ok_def alertToFinding_def s Let_def newJSONEvidence_def firstNonEmpty_ne)
qed

text \<open>No alert is lost between the webhook and the findings. A webhook that parses gives exactly one
  envelope per alert, in order, and none is counted as dropped; each finding has a subject, an
  aggregation key, a title and a known priority, whatever labels the alert came with, and its
  evidence refers to it.\<close>

lemma FromAlertManager_complete:
  assumes "FromAlertManager x now uuids b (Some alerts) = Some (envs, dropped)"
  shows "dropped = 0 \<and> length envs = length alerts \<and>
    (\<forall>i<length alerts. alert_env_ok b (alerts ! i) (envs ! i) \<and> fd_ID (fe_Finding (envs ! i)) = uuids i)"
  using assms alertToFinding_ok by (auto simp: FromAlertManager_def nth_enumerate_eq)

definition watchdog :: prom_alert where
  "watchdog = \<lparr>pa_StartsAt = [], pa_EndsAt = [], pa_GeneratorURL = [], pa_Fingerprint = [], pa_Status = ''firing'',
     pa_Labels = None, pa_Annotations = None\<rparr>"

definition sample_fx :: finding_ext where
  "sample_fx = \<lparr>fx_sha1uuid = \<lambda>s. s, fx_sha256hex = \<lambda>s. s\<rparr>"

definition sample_builder :: builder where
  "sample_builder = \<lparr>bd_AccountID = ''acc'', bd_Cluster = ''c'', bd_Nodes = None\<rparr>"

text \<open>Which object an alert is about. A per-node exporter's series whose node is known is about that
  node, cluster-wide, whatever workload labels the exporter left on it. Otherwise the first
  non-empty label in the order deployment, statefulset, daemonset, job, autoscaler, claim,
  workload, node, pod decides, so a pod label never wins over a workload label; and the scrape
  job is the subject only when none of them is set and it is not an exporter.\<close>

lemma alert_subject_order:
  "alert_subject b ls =
     (if resolveNodeSubject ls (bd_Nodes b) \<noteq> [] then
        (resolveNodeSubject ls (bd_Nodes b), ''node'', [], resolveNodeSubject ls (bd_Nodes b))
      else case filter (\<lambda>c. lget ls (fst c) \<noteq> []) subject_candidates of
        (key, kind) # _ \<Rightarrow> (lget ls key, kind, pickLabel ls [''namespace'', ''exported_namespace''], nodeNameFromLabels ls)
      | [] \<Rightarrow>
          if lget ls ''job'' \<noteq> [] \<and> \<not> isScrapeExporter (lget ls ''job'') then
            (lget ls ''job'', ''job'', pickLabel ls [''namespace'', ''exported_namespace''], nodeNameFromLabels ls)
          else (case alertSubjectFallback ls of (n, t, ns) \<Rightarrow>
            (firstNonEmpty [n, lget ls ''alertname'', ''UnnamedAlert''], t,
             firstNonEmpty [lget ls ''namespace'', lget ls ''exported_namespace'', ns], nodeNameFromLabels ls)))"
proof -
  have find: "find P xs = (case filter P xs of [] \<Rightarrow> None | y # ys \<Rightarrow> Some y)" for P and xs :: "(string \<times> string) list"
    by (induction xs) auto
  obtain n t ns where f: "alertSubjectFallback ls = (n, t, ns)" by (cases "alertSubjectFallback ls")
  show ?thesis
  proof (cases "filter (\<lambda>c. lget ls (fst c) \<noteq> []) subject_candidates")
    case Nil
    then show ?thesis by (simp add: alert_subject_def alertSubject_def find f Let_def)
  next
    case (Cons c cs)
    then have "lget ls (fst c) \<noteq> []" by (auto simp: filter_eq_Cons_iff)
    with Cons show ?thesis by (cases c) (simp add: alert_subject_def alertSubject_def find f Let_def)
  qed
qed

lemma append_sep_inj: "c \<notin> set k1 \<Longrightarrow> c \<notin> set k2 \<Longrightarrow> k1 @ c # r1 = k2 @ c # r2 \<longleftrightarrow> k1 = k2 \<and> r1 = r2"
proof (induction k1 arbitrary: k2)
  case Nil
  then show ?case by (cases k2) auto
next
  case (Cons x k1)
  then show ?case by (cases k2) auto
qed

text \<open>Reporting one occurrence twice updates one event. When a matcher names the occurrence, the finding's
  identifier does not depend on when or how often it is reported; two reports of an account share
  it exactly when they are of the same aggregation key and occurrence. (The name-based UUID is
  taken to be collision free; account ids and aggregation keys hold no bar.)\<close>

lemma findingIDFor_occurrence:
  assumes "inj (fx_sha1uuid x)" "mt_OccurrenceKey m1 \<noteq> []" "mt_OccurrenceKey m2 \<noteq> []"
    and "CHR ''|'' \<notin> set (mt_AggregationKey m1)" "CHR ''|'' \<notin> set (mt_AggregationKey m2)"
  shows "findingIDFor x u1 b m1 = findingIDFor x u2 b m2 \<longleftrightarrow>
    mt_AggregationKey m1 = mt_AggregationKey m2 \<and> mt_OccurrenceKey m1 = mt_OccurrenceKey m2"
proof -
  from append_sep_inj[OF assms(4,5)] assms(1-3) show ?thesis by (simp add: findingIDFor_def inj_eq)
qed

definition sample_match :: "string \<Rightarrow> matched_trigger" where
  "sample_match occ = \<lparr>mt_AggregationKey = ''pod_oom_killer_enricher'', mt_Priority = ''HIGH'', mt_FindingType = ''issue'',
     mt_Fingerprint = ''f'', mt_OccurrenceKey = occ, mt_Owner = no_owner, mt_SubjectName = ''p'', mt_SubjectNamespace = ''n'',
     mt_SubjectKind = ''pod'', mt_SubjectNode = [], mt_MatcherName = ''pod_oom_killed'', mt_ExtraBlocks = []\<rparr>"

end
