(* ===== verification/Intake.thy ===== *)
theory Intake
  imports Engine Findings "HOL-Library.Word"
begin

text \<open>
  \<open>pkg/alerts/server.go\<close> and \<open>pkg/alerts/k8s_intake.go\<close>, with the adapter of \<open>cmd/agent/main.go\<close> that
  puts the trigger engine behind them: the HTTP handlers, the sharded queue, the workers that
  run the engine, and the forward pool. The three partial decodings of a payload are the fields
  of the parameter record \<open>kubewatch_codec\<close>, the backend is a parameter, logging and latency
  metrics are left out. Each handler call, each worker iteration and each forward task is one
  step; a run interleaves them freely. The theory proves that events of one object are matched
  in the order they were accepted, that none accepted is lost, and the bounds of the queue.
\<close>

unbundle bit_operations_syntax

section \<open>State\<close>

record kubewatch_job =
  kj_operation :: string
  kj_kind :: string
  kj_data :: string
  kj_queued :: time

record kubewatch_codec =
  kc_probe :: "string \<Rightarrow> (string \<times> string) option"
  kc_head :: "string \<Rightarrow> (string \<times> string \<times> string \<times> string) option"
  kc_inner :: "string \<Rightarrow> (gmap option \<times> gmap option) option"

text \<open>A forward task waiting in its goroutine: alerts of a webhook or the matches of an event.\<close>

datatype forward_task = ForwardAlerts "prom_alert list option" | ForwardMatches "matched_trigger list" string

record forwarder =
  fw_BackendURL :: string
  fw_AuthSecret :: string
  fw_AccountID :: string
  fw_Cluster :: string
  fw_Engine :: "engine option"
  fw_builder :: builder
  fw_dropped :: nat
  fw_k8sUnmatched :: nat
  fw_sem :: "int option"
  fw_tasks :: "forward_task list"
  fw_forwardShed :: nat
  fw_kwWorkers :: int
  fw_kwQueueSize :: int
  fw_kwMaxBytes :: int
  fw_kwShards :: "kubewatch_job list list option"
  fw_kwPerShard :: nat
  fw_kwDepth :: int
  fw_kwBytes :: int
  fw_kwShedSince :: nat
  fw_kwShedWarn :: int

definition inc64 :: "nat \<Rightarrow> nat" where
  "inc64 n = (n + 1) mod 2 ^ 64"

definition NewForwarder :: "string \<Rightarrow> string \<Rightarrow> string \<Rightarrow> string \<Rightarrow> forwarder" where
  "NewForwarder backendURL authSecret accountID cluster =
     \<lparr>fw_BackendURL = backendURL, fw_AuthSecret = authSecret, fw_AccountID = accountID, fw_Cluster = cluster,
      fw_Engine = None, fw_builder = \<lparr>bd_AccountID = accountID, bd_Cluster = cluster, bd_Nodes = None\<rparr>,
      fw_dropped = 0, fw_k8sUnmatched = 0, fw_sem = None, fw_tasks = [], fw_forwardShed = 0,
      fw_kwWorkers = 0, fw_kwQueueSize = 0, fw_kwMaxBytes = 0, fw_kwShards = None, fw_kwPerShard = 0,
      fw_kwDepth = 0, fw_kwBytes = 0, fw_kwShedSince = 0, fw_kwShedWarn = 0\<rparr>"

definition SetForwardPoolSize :: "int \<Rightarrow> forwarder \<Rightarrow> forwarder" where
  "SetForwardPoolSize n f = (if n > 0 then f\<lparr>fw_sem := Some n\<rparr> else f)"

definition SetNodeLocator :: "node_locator \<Rightarrow> forwarder \<Rightarrow> forwarder" where
  "SetNodeLocator l f = f\<lparr>fw_builder := (fw_builder f)\<lparr>bd_Nodes := Some l\<rparr>\<rparr>"

definition SetKubewatchQueue :: "int \<Rightarrow> int \<Rightarrow> int \<Rightarrow> forwarder \<Rightarrow> forwarder" where
  "SetKubewatchQueue workers sz maxBytes f = f\<lparr>
     fw_kwWorkers := (if workers > 0 then workers else fw_kwWorkers f),
     fw_kwQueueSize := (if sz > 0 then sz else fw_kwQueueSize f),
     fw_kwMaxBytes := (if maxBytes > 0 then maxBytes else fw_kwMaxBytes f)\<rparr>"

section \<open>The queue\<close>

definition defaultKubewatchWorkers :: int where "defaultKubewatchWorkers = 8"
definition defaultKubewatchQueueSize :: int where "defaultKubewatchQueueSize = 2048"
definition defaultKubewatchQueueMaxBytes :: int where "defaultKubewatchQueueMaxBytes = 67108864"

definition startKubewatchWorkers :: "forwarder \<Rightarrow> forwarder" where
  "startKubewatchWorkers f =
     (let workers = (if fw_kwWorkers f \<le> 0 then defaultKubewatchWorkers else fw_kwWorkers f);
          sz = (if fw_kwQueueSize f \<le> 0 then defaultKubewatchQueueSize else fw_kwQueueSize f);
          perShard = sz div workers
      in f\<lparr>fw_kwMaxBytes := (if fw_kwMaxBytes f \<le> 0 then defaultKubewatchQueueMaxBytes else fw_kwMaxBytes f),
           fw_kwPerShard := nat (if perShard < 1 then 1 else perShard),
           fw_kwShards := Some (replicate (nat workers) [])\<rparr>)"

text \<open>\<open>hash/fnv.New32a\<close>.\<close>

definition fnv32a :: "string \<Rightarrow> 32 word" where
  "fnv32a s = foldl (\<lambda>h c. (h XOR of_nat (of_char c)) * 16777619) 2166136261 s"

definition kubewatchShardKey :: "string \<Rightarrow> string \<Rightarrow> string \<Rightarrow> string" where
  "kubewatchShardKey kind namespace nam = to_lower kind @ ''/'' @ namespace @ ''/'' @ nam"

definition shard_of :: "nat \<Rightarrow> string \<Rightarrow> nat" where
  "shard_of n key = unat (fnv32a key) mod n"

definition kwOnce :: "forwarder \<Rightarrow> forwarder" where
  "kwOnce f = (case fw_kwShards f of None \<Rightarrow> startKubewatchWorkers f | Some _ \<Rightarrow> f)"

definition enqueueKubewatch :: "kubewatch_job \<Rightarrow> string \<Rightarrow> forwarder \<Rightarrow> bool \<times> forwarder" where
  "enqueueKubewatch job key f0 =
     (let f = kwOnce f0; n = int (length (kj_data job)); shards = the (fw_kwShards f);
          i = shard_of (length shards) key
      in if fw_kwBytes f + n > fw_kwMaxBytes f then (False, f)
         else if length (shards ! i) < fw_kwPerShard f then
           (True, f\<lparr>fw_kwBytes := fw_kwBytes f + n, fw_kwDepth := fw_kwDepth f + 1,
              fw_kwShards := Some (shards[i := shards ! i @ [job]])\<rparr>)
         else (False, f))"

section \<open>Handlers\<close>

record http_in =
  hi_method :: string
  hi_body :: string
  hi_readOK :: bool

text \<open>The status written for a request that is refused, or the body, cut at five megabytes.\<close>

definition readBody :: "http_in \<Rightarrow> int + string" where
  "readBody r =
     (if hi_method r \<noteq> ''POST'' then Inl 405
      else if \<not> hi_readOK r then Inl 400
      else Inr (take 5242880 (hi_body r)))"

datatype outcome_label = KwMatched | KwUnmatched | KwIgnoredKind | KwShed | KwInvalid | KwPanic

type_synonym kw_metric = "string \<times> outcome_label"

definition kubewatchShedWarnInterval :: duration where "kubewatchShedWarnInterval = 30 * second"

definition warnKubewatchShed :: "int \<Rightarrow> forwarder \<Rightarrow> forwarder" where
  "warnKubewatchShed nowNanos f =
     (let n = inc64 (fw_kwShedSince f) in
      if wrap64 (nowNanos - fw_kwShedWarn f) < kubewatchShedWarnInterval then f\<lparr>fw_kwShedSince := n\<rparr>
      else f\<lparr>fw_kwShedSince := 0, fw_kwShedWarn := nowNanos\<rparr>)"

definition spawnForward :: "forward_task \<Rightarrow> forwarder \<Rightarrow> forwarder" where
  "spawnForward t f = (case fw_sem f of
     None \<Rightarrow> f\<lparr>fw_tasks := fw_tasks f @ [t]\<rparr>
   | Some n \<Rightarrow>
       if int (length (fw_tasks f)) < n then f\<lparr>fw_tasks := fw_tasks f @ [t]\<rparr>
       else f\<lparr>fw_forwardShed := inc64 (fw_forwardShed f)\<rparr>)"

definition handleAlert :: "(string \<Rightarrow> prom_alert list option) \<Rightarrow> http_in \<Rightarrow> forwarder \<Rightarrow> int \<times> forwarder" where
  "handleAlert parseWebhook r f = (case readBody r of
     Inl status \<Rightarrow> (status, f)
   | Inr body \<Rightarrow> (202, spawnForward (ForwardAlerts (parseWebhook body)) f))"

text \<open>Status, metric and the job that was queued, if one was.\<close>

definition handleK8sEvent ::
  "kubewatch_codec \<Rightarrow> time \<Rightarrow> http_in \<Rightarrow> forwarder \<Rightarrow> (int \<times> kw_metric list \<times> kubewatch_job option) \<times> forwarder" where
  "handleK8sEvent C start r f = (case readBody r of
     Inl status \<Rightarrow> ((status, [], None), f)
   | Inr body \<Rightarrow> (case kc_probe C body of
        None \<Rightarrow> ((202, [([], KwInvalid)], None), f)
      | Some (typ, data) \<Rightarrow>
          if typ = ''cluster_snapshot'' then ((202, [], None), f)
          else if data = [] then ((202, [([], KwInvalid)], None), f)
          else (case fw_Engine f of
             None \<Rightarrow> ((202, [], None), f\<lparr>fw_k8sUnmatched := inc64 (fw_k8sUnmatched f)\<rparr>)
           | Some e \<Rightarrow> (case kc_head C data of
                None \<Rightarrow> ((202, [([], KwInvalid)], None), f)
              | Some (operation, kind, namespace, nam) \<Rightarrow>
                  if \<not> HandlesKind e kind then
                    ((202, [(''other'', KwIgnoredKind)], None), f\<lparr>fw_k8sUnmatched := inc64 (fw_k8sUnmatched f)\<rparr>)
                  else
                    (let job = \<lparr>kj_operation = operation, kj_kind = kind, kj_data = data, kj_queued = start\<rparr> in
                     case enqueueKubewatch job (kubewatchShardKey kind namespace nam) f of
                       (True, f') \<Rightarrow> ((202, [], Some job), f')
                     | (False, f') \<Rightarrow> ((202, [(to_lower kind, KwShed)], None),
                         warnKubewatchShed (start - unix_to_internal * second)
                           (f'\<lparr>fw_forwardShed := inc64 (fw_forwardShed f')\<rparr>)))))))"

section \<open>Workers\<close>

text \<open>\<open>triggerAdapter.MatchK8sEvent\<close>.\<close>

definition to_matched :: "trigger_match \<Rightarrow> matched_trigger" where
  "to_matched m =
     \<lparr>mt_AggregationKey = ms_AggregationKey (m_Spec m), mt_Priority = ms_Priority (m_Spec m),
      mt_FindingType = ms_FindingType (m_Spec m), mt_Fingerprint = m_Fingerprint m, mt_OccurrenceKey = m_OccurrenceKey m,
      mt_Owner = m_Owner m, mt_SubjectName = m_SubjectName m, mt_SubjectNamespace = m_SubjectNamespace m,
      mt_SubjectKind = m_SubjectKind m, mt_SubjectNode = m_SubjectNode m, mt_MatcherName = ms_Name (m_Spec m),
      mt_ExtraBlocks = map Some (m_ExtraBlocks m)\<rparr>"

definition MatchK8sEvent ::
  "time \<Rightarrow> string \<Rightarrow> string \<Rightarrow> gmap option \<Rightarrow> gmap option \<Rightarrow> engine \<Rightarrow> matched_trigger list \<times> engine" where
  "MatchK8sEvent now operation kind obj oldObj e =
     (case Match now e \<lparr>ev_Operation = operation, ev_Kind = kind, ev_Obj = obj, ev_OldObj = oldObj\<rparr> of
        (ms, e') \<Rightarrow> (map to_matched ms, e'))"

definition matchKubewatch :: "kubewatch_codec \<Rightarrow> time \<Rightarrow> kubewatch_job \<Rightarrow> forwarder \<Rightarrow> kw_metric list \<times> forwarder" where
  "matchKubewatch C now job f =
     (let kindLabel = to_lower (kj_kind job) in
      case kc_inner C (kj_data job) of
        None \<Rightarrow> ([(kindLabel, KwInvalid)], f)
      | Some (obj, oldObj) \<Rightarrow> (case fw_Engine f of
           None \<Rightarrow> ([(kindLabel, KwPanic)], f)
         | Some e \<Rightarrow> (case MatchK8sEvent now (kj_operation job) (kj_kind job) obj oldObj e of
              (matches, e') \<Rightarrow>
                (let f1 = f\<lparr>fw_Engine := Some e'\<rparr> in
                 if matches = [] then
                   ([(kindLabel, KwUnmatched)], f1\<lparr>fw_k8sUnmatched := inc64 (fw_k8sUnmatched f1)\<rparr>)
                 else ([(kindLabel, KwMatched)], spawnForward (ForwardMatches matches (kj_data job)) f1)))))"

text \<open>One iteration of the worker of shard \<open>i\<close>, whose queue is not empty.\<close>

definition runKubewatchWorker ::
  "kubewatch_codec \<Rightarrow> time \<Rightarrow> nat \<Rightarrow> forwarder \<Rightarrow> (kubewatch_job \<times> kw_metric list \<times> forwarder) option" where
  "runKubewatchWorker C now i f = (case fw_kwShards f of
     None \<Rightarrow> None
   | Some shards \<Rightarrow>
       if i < length shards then
         (case shards ! i of
            [] \<Rightarrow> None
          | job # q \<Rightarrow>
              (case matchKubewatch C now job
                 (f\<lparr>fw_kwDepth := fw_kwDepth f - 1, fw_kwBytes := fw_kwBytes f - int (length (kj_data job)),
                    fw_kwShards := Some (shards[i := q])\<rparr>) of
                 (ms, f') \<Rightarrow> Some (job, ms, f')))
       else None)"

section \<open>Forwarding\<close>

text \<open>What a POST ended with.\<close>

datatype post_result = PostRequestInvalid | PostFailed | PostStatus int

definition forward :: "(finding_envelope \<Rightarrow> post_result) \<Rightarrow> forwarder \<Rightarrow> finding_envelope \<Rightarrow> bool" where
  "forward post f env \<longleftrightarrow> fw_BackendURL f \<noteq> [] \<and> (case post env of PostStatus s \<Rightarrow> s < 400 | _ \<Rightarrow> False)"

definition recordDrop :: "forwarder \<Rightarrow> forwarder" where
  "recordDrop f = f\<lparr>fw_dropped := inc64 (fw_dropped f)\<rparr>"

text \<open>The envelopes a task builds, \<open>None\<close> where building fails.\<close>

definition task_envelopes ::
  "finding_ext \<Rightarrow> time \<Rightarrow> (nat \<Rightarrow> string) \<Rightarrow> forwarder \<Rightarrow> forward_task \<Rightarrow> finding_envelope option list" where
  "task_envelopes x now uuids f t = (case t of
     ForwardAlerts w \<Rightarrow> (case FromAlertManager x now uuids (fw_builder f) w of
        None \<Rightarrow> [None] | Some (envs, dropped) \<Rightarrow> map Some envs)
   | ForwardMatches ms data \<Rightarrow>
       map (\<lambda>(i, m). FromMatchedTrigger x now (uuids i) (fw_builder f) m data) (enumerate 0 ms))"

fun forward_all :: "(finding_envelope \<Rightarrow> post_result) \<Rightarrow> finding_envelope option list \<Rightarrow> forwarder \<Rightarrow> finding_envelope list \<times> forwarder" where
  "forward_all post [] f = ([], f)"
| "forward_all post (None # es) f = forward_all post es (recordDrop f)"
| "forward_all post (Some env # es) f =
     (if forward post f env then (case forward_all post es f of (sent, f') \<Rightarrow> (env # sent, f'))
      else forward_all post es (recordDrop f))"

definition run_task ::
  "finding_ext \<Rightarrow> (finding_envelope \<Rightarrow> post_result) \<Rightarrow> time \<Rightarrow> (nat \<Rightarrow> string) \<Rightarrow> nat \<Rightarrow> forwarder \<Rightarrow> finding_envelope list \<times> forwarder" where
  "run_task x post now uuids i f =
     (case forward_all post (task_envelopes x now uuids f (fw_tasks f ! i)) f of
        (sent, f') \<Rightarrow> (sent, f'\<lparr>fw_tasks := take i (fw_tasks f') @ drop (Suc i) (fw_tasks f')\<rparr>))"

section \<open>Runs\<close>

text \<open>What the server does next, in any order: a request on either route, one worker iteration, one
  forward task. A label keeps the job a request queued and the job a worker took.\<close>

datatype intake_label =
  K8sEvent int "kw_metric list" "kubewatch_job option"
| Alert int
| Work nat kubewatch_job "kw_metric list"
| Sent "finding_envelope list"

inductive intake_step ::
  "kubewatch_codec \<Rightarrow> (string \<Rightarrow> prom_alert list option) \<Rightarrow> finding_ext \<Rightarrow> (finding_envelope \<Rightarrow> post_result) \<Rightarrow>
   forwarder \<Rightarrow> intake_label \<Rightarrow> forwarder \<Rightarrow> bool"
  for C parse x post where
  k8s_event: "handleK8sEvent C start r f = ((status, ms, job), f') \<Longrightarrow> intake_step C parse x post f (K8sEvent status ms job) f'"
| alert: "handleAlert parse r f = (status, f') \<Longrightarrow> intake_step C parse x post f (Alert status) f'"
| work: "runKubewatchWorker C now i f = Some (job, ms, f') \<Longrightarrow> intake_step C parse x post f (Work i job ms) f'"
| sent: "i < length (fw_tasks f) \<Longrightarrow> run_task x post now uuids i f = (envs, f') \<Longrightarrow> intake_step C parse x post f (Sent envs) f'"

inductive intake_run ::
  "kubewatch_codec \<Rightarrow> (string \<Rightarrow> prom_alert list option) \<Rightarrow> finding_ext \<Rightarrow> (finding_envelope \<Rightarrow> post_result) \<Rightarrow>
   forwarder \<Rightarrow> intake_label list \<Rightarrow> forwarder \<Rightarrow> bool"
  for C parse x post f0 where
  start: "intake_run C parse x post f0 [] f0"
| step: "intake_run C parse x post f0 ls f \<Longrightarrow> intake_step C parse x post f l f' \<Longrightarrow> intake_run C parse x post f0 (ls @ [l]) f'"

inductive_cases intake_stepE: "intake_step C parse x post f l f'"

text \<open>A server that has not handled a request yet.\<close>

definition fresh_forwarder :: "forwarder \<Rightarrow> bool" where
  "fresh_forwarder f \<longleftrightarrow> fw_kwShards f = None \<and> fw_kwDepth f = 0 \<and> fw_kwBytes f = 0 \<and> fw_tasks f = [] \<and>
     (case fw_sem f of None \<Rightarrow> True | Some n \<Rightarrow> 0 < n)"

lemma fresh_forwarder_setup:
  "fresh_forwarder (NewForwarder u s a c)"
  "fresh_forwarder f \<Longrightarrow> fresh_forwarder (SetForwardPoolSize n f)"
  "fresh_forwarder f \<Longrightarrow> fresh_forwarder (SetKubewatchQueue w sz b f)"
  "fresh_forwarder f \<Longrightarrow> fresh_forwarder (SetNodeLocator l f)"
  "fresh_forwarder f \<Longrightarrow> fresh_forwarder (f\<lparr>fw_Engine := e\<rparr>)"
  by (simp_all add: fresh_forwarder_def NewForwarder_def SetForwardPoolSize_def SetKubewatchQueue_def SetNodeLocator_def)

definition job_key :: "kubewatch_codec \<Rightarrow> kubewatch_job \<Rightarrow> string" where
  "job_key C job = (case kc_head C (kj_data job) of
     None \<Rightarrow> [] | Some (operation, kind, namespace, nam) \<Rightarrow> kubewatchShardKey kind namespace nam)"

fun queued_by :: "intake_label \<Rightarrow> kubewatch_job list" where
  "queued_by (K8sEvent status ms (Some job)) = [job]"
| "queued_by l = []"

fun worked_by :: "intake_label \<Rightarrow> (nat \<times> kubewatch_job) list" where
  "worked_by (Work i job ms) = [(i, job)]"
| "worked_by l = []"

text \<open>The events of one object that the handlers queued, and those the workers took, in order.\<close>

definition accepted_events :: "kubewatch_codec \<Rightarrow> string \<Rightarrow> intake_label list \<Rightarrow> kubewatch_job list" where
  "accepted_events C key ls = filter (\<lambda>j. job_key C j = key) (concat (map queued_by ls))"

definition matched_events :: "kubewatch_codec \<Rightarrow> string \<Rightarrow> intake_label list \<Rightarrow> kubewatch_job list" where
  "matched_events C key ls = filter (\<lambda>j. job_key C j = key) (map snd (concat (map worked_by ls)))"

definition waiting_events :: "kubewatch_codec \<Rightarrow> string \<Rightarrow> forwarder \<Rightarrow> kubewatch_job list" where
  "waiting_events C key f = (case fw_kwShards f of
     None \<Rightarrow> [] | Some shards \<Rightarrow> filter (\<lambda>j. job_key C j = key) (concat shards))"

section \<open>Invariant\<close>

definition queue_bytes :: "kubewatch_job list list \<Rightarrow> int" where
  "queue_bytes shards = (\<Sum>j\<leftarrow>concat shards. int (length (kj_data j)))"

text \<open>The part of the state that only the queue operations change.\<close>

definition shards_ok :: "kubewatch_codec \<Rightarrow> forwarder \<Rightarrow> bool" where
  "shards_ok C f \<longleftrightarrow> (case fw_kwShards f of
     None \<Rightarrow> fw_kwDepth f = 0 \<and> fw_kwBytes f = 0
   | Some shards \<Rightarrow> shards \<noteq> [] \<and>
       (\<forall>i < length shards. length (shards ! i) \<le> fw_kwPerShard f \<and>
          (\<forall>j \<in> set (shards ! i). shard_of (length shards) (job_key C j) = i)) \<and>
       fw_kwDepth f = int (length (concat shards)) \<and> fw_kwBytes f = queue_bytes shards \<and> fw_kwBytes f \<le> fw_kwMaxBytes f)"

definition pool_ok :: "forwarder \<Rightarrow> bool" where
  "pool_ok f \<longleftrightarrow> (case fw_sem f of None \<Rightarrow> True | Some n \<Rightarrow> 0 < n \<and> int (length (fw_tasks f)) \<le> n)"

abbreviation queue_part :: "forwarder \<Rightarrow> kubewatch_job list list option \<times> nat \<times> int \<times> int \<times> int" where
  "queue_part f \<equiv> (fw_kwShards f, fw_kwPerShard f, fw_kwDepth f, fw_kwBytes f, fw_kwMaxBytes f)"

lemma shards_ok_cong: "queue_part f = queue_part g \<Longrightarrow> shards_ok C f = shards_ok C g"
  by (simp add: shards_ok_def cong: option.case_cong)

lemma waiting_events_cong: "fw_kwShards f = fw_kwShards g \<Longrightarrow> waiting_events C key f = waiting_events C key g"
  by (simp add: waiting_events_def)

lemma queue_part_unchanged:
  "queue_part (spawnForward t f) = queue_part f"
  "queue_part (recordDrop f) = queue_part f"
  "queue_part (warnKubewatchShed n f) = queue_part f"
  by (simp_all add: spawnForward_def recordDrop_def warnKubewatchShed_def Let_def split: option.split)

lemmas queue_fields_unchanged [simp] = queue_part_unchanged[simplified prod.inject, THEN conjunct1]
  queue_part_unchanged[simplified prod.inject, THEN conjunct2, THEN conjunct1]
  queue_part_unchanged[simplified prod.inject, THEN conjunct2, THEN conjunct2, THEN conjunct1]
  queue_part_unchanged[simplified prod.inject, THEN conjunct2, THEN conjunct2, THEN conjunct2]

lemma pool_unchanged [simp]:
  "fw_sem (recordDrop f) = fw_sem f" "fw_tasks (recordDrop f) = fw_tasks f"
  "fw_sem (warnKubewatchShed t f) = fw_sem f" "fw_tasks (warnKubewatchShed t f) = fw_tasks f"
  by (simp_all add: recordDrop_def warnKubewatchShed_def Let_def)

lemma pool_ok_spawnForward: "pool_ok f \<Longrightarrow> pool_ok (spawnForward t f)"
  by (auto simp: pool_ok_def spawnForward_def split: option.splits)

lemma forward_all_state:
  "forward_all post es f = (sent, f') \<Longrightarrow> queue_part f' = queue_part f \<and> fw_sem f' = fw_sem f \<and> fw_tasks f' = fw_tasks f"
  by (induction post es f arbitrary: sent f' rule: forward_all.induct) (auto split: if_splits prod.splits)

lemma matchKubewatch_state:
  assumes "matchKubewatch C now job f = (ms, f')"
  shows "queue_part f' = queue_part f" "pool_ok f \<Longrightarrow> pool_ok f'"
proof -
  have pool_eq: "pool_ok (f\<lparr>fw_Engine := e\<rparr>) = pool_ok f" "pool_ok (f\<lparr>fw_Engine := e, fw_k8sUnmatched := n\<rparr>) = pool_ok f" for e n
    by (simp_all add: pool_ok_def cong: option.case_cong)
  show "queue_part f' = queue_part f"
    using assms by (auto simp: matchKubewatch_def Let_def split: option.splits prod.splits if_splits)
  show "pool_ok f \<Longrightarrow> pool_ok f'"
    using assms by (auto simp: matchKubewatch_def Let_def pool_eq intro!: pool_ok_spawnForward
      split: option.splits prod.splits if_splits)
qed

lemma length_concat_update:
  "i < length xss \<Longrightarrow> length (concat (xss[i := xs])) + length (xss ! i) = length (concat xss) + length xs"
  by (induction xss arbitrary: i) (auto split: nat.split)

lemma filter_concat_other:
  "\<forall>k < length xss. k \<noteq> i \<longrightarrow> (\<forall>x \<in> set (xss ! k). \<not> P x) \<Longrightarrow> i < length xss \<Longrightarrow>
   filter P (concat xss) = filter P (xss ! i)"
proof (induction xss arbitrary: i)
  case (Cons ys yss)
  show ?case
  proof (cases i)
    case 0
    with Cons.prems(1) have "\<forall>x \<in> set (concat yss). \<not> P x"
      by (force simp: in_set_conv_nth)
    then show ?thesis using 0 by (simp add: filter_empty_conv)
  next
    case (Suc k)
    have "\<forall>x \<in> set ys. \<not> P x" using Cons.prems(1)[rule_format, of 0] Suc by simp
    moreover have "filter P (concat yss) = filter P (yss ! k)"
      using Cons.prems Suc by (intro Cons.IH) (auto dest: spec[of _ "Suc _"])
    ultimately show ?thesis using Suc by (simp add: filter_empty_conv)
  qed
qed simp

lemma startKubewatchWorkers_shards:
  obtains n where "fw_kwShards (startKubewatchWorkers f) = Some (replicate n [])" "0 < n"
proof -
  define workers where "workers = (if fw_kwWorkers f \<le> 0 then defaultKubewatchWorkers else fw_kwWorkers f)"
  have "0 < workers" by (simp add: workers_def defaultKubewatchWorkers_def)
  then show ?thesis
    using that[of "nat workers"] by (simp add: startKubewatchWorkers_def Let_def workers_def)
qed

lemma concat_replicate_Nil [simp]: "concat (replicate n []) = []"
  by (induction n) auto

lemma kwOnce_ok:
  assumes "shards_ok C f"
  shows "shards_ok C (kwOnce f)" "fw_kwShards (kwOnce f) \<noteq> None" "waiting_events C key (kwOnce f) = waiting_events C key f"
    "fw_sem (kwOnce f) = fw_sem f" "fw_tasks (kwOnce f) = fw_tasks f"
proof -
  obtain n where n: "fw_kwShards (startKubewatchWorkers f) = Some (replicate n [])" "0 < n"
    by (rule startKubewatchWorkers_shards)
  have "0 \<le> fw_kwMaxBytes (startKubewatchWorkers f)"
    "fw_kwDepth (startKubewatchWorkers f) = fw_kwDepth f" "fw_kwBytes (startKubewatchWorkers f) = fw_kwBytes f"
    by (simp_all add: startKubewatchWorkers_def Let_def defaultKubewatchQueueMaxBytes_def)
  with n assms show "shards_ok C (kwOnce f)" "fw_kwShards (kwOnce f) \<noteq> None"
    "waiting_events C key (kwOnce f) = waiting_events C key f"
    by (auto simp: shards_ok_def kwOnce_def waiting_events_def queue_bytes_def split: option.splits)
  show "fw_sem (kwOnce f) = fw_sem f" "fw_tasks (kwOnce f) = fw_tasks f"
    by (simp_all add: kwOnce_def startKubewatchWorkers_def Let_def split: option.split)
qed

lemma queue_bytes_update:
  "i < length xss \<Longrightarrow> queue_bytes (xss[i := xs]) + queue_bytes [xss ! i] = queue_bytes xss + queue_bytes [xs]"
  by (induction xss arbitrary: i) (auto simp: queue_bytes_def split: nat.split)

lemma waiting_events_shard:
  assumes "shards_ok C f" "fw_kwShards f = Some shards"
  shows "waiting_events C key f = filter (\<lambda>j. job_key C j = key) (shards ! shard_of (length shards) key)"
    "shard_of (length shards) key < length shards"
proof -
  show i: "shard_of (length shards) key < length shards"
    using assms by (simp add: shards_ok_def shard_of_def)
  show "waiting_events C key f = filter (\<lambda>j. job_key C j = key) (shards ! shard_of (length shards) key)"
    using assms i by (auto simp: waiting_events_def shards_ok_def intro!: filter_concat_other)
qed

lemma shards_ok_update:
  assumes "shards_ok C f" "fw_kwShards f = Some shards" "i < length shards" "fw_kwShards g = Some (shards[i := q])"
    and "length q \<le> fw_kwPerShard f" "\<forall>j \<in> set q. shard_of (length shards) (job_key C j) = i"
    and "fw_kwPerShard g = fw_kwPerShard f" "fw_kwMaxBytes g = fw_kwMaxBytes f"
    and "fw_kwDepth g = fw_kwDepth f + int (length q) - int (length (shards ! i))"
    and "fw_kwBytes g = fw_kwBytes f + queue_bytes [q] - queue_bytes [shards ! i]" "fw_kwBytes g \<le> fw_kwMaxBytes f"
  shows "shards_ok C g"
  using assms length_concat_update[OF assms(3), of q] queue_bytes_update[OF assms(3), of q]
  by (auto simp: shards_ok_def nth_list_update)

lemma enqueueKubewatch_ok:
  assumes "shards_ok C f" "enqueueKubewatch job key f = (ok, f')" "job_key C job = key"
  shows "shards_ok C f'" "waiting_events C k f' = waiting_events C k f @ (if ok \<and> k = key then [job] else [])"
    "fw_sem f' = fw_sem f" "fw_tasks f' = fw_tasks f"
proof -
  note once = kwOnce_ok[OF assms(1)]
  obtain shards where shards: "fw_kwShards (kwOnce f) = Some shards" using once(2) by blast
  define i where "i = shard_of (length shards) key"
  have i: "i < length shards" using waiting_events_shard(2)[OF once(1) shards] by (simp add: i_def)
  note old = once(1)[unfolded shards_ok_def shards option.case]
  show "fw_sem f' = fw_sem f" "fw_tasks f' = fw_tasks f"
    using assms(2) once by (auto simp: enqueueKubewatch_def Let_def split: if_splits)
  show ok': "shards_ok C f'"
  proof (cases ok)
    case True
    then show ?thesis using assms(2,3) old i
      by (intro shards_ok_update[OF once(1) shards i, where q = "shards ! i @ [job]"])
        (auto simp: enqueueKubewatch_def Let_def shards i_def queue_bytes_def split: if_splits)
  next
    case False
    then show ?thesis using assms(2) once by (auto simp: enqueueKubewatch_def Let_def split: if_splits)
  qed
  show "waiting_events C k f' = waiting_events C k f @ (if ok \<and> k = key then [job] else [])"
  proof (cases ok)
    case True
    then have "fw_kwShards f' = Some (shards[i := shards ! i @ [job]])"
      using assms(2) by (auto simp: enqueueKubewatch_def Let_def shards i_def split: if_splits)
    from waiting_events_shard(1)[OF ok' this] waiting_events_shard[OF once(1) shards] True assms(3) i
    show ?thesis unfolding once(3)[symmetric, of k] by (auto simp: nth_list_update i_def)
  next
    case False
    then show ?thesis using assms(2) once by (auto simp: enqueueKubewatch_def Let_def split: if_splits)
  qed
qed

lemma handleK8sEvent_ok:
  assumes "shards_ok C f" "pool_ok f" "handleK8sEvent C start r f = ((status, ms, job), f')"
  shows "shards_ok C f' \<and> pool_ok f' \<and>
    waiting_events C k f' = waiting_events C k f @ filter (\<lambda>j. job_key C j = k) (queued_by (K8sEvent status ms job))"
proof -
  have count: "shards_ok C (f\<lparr>fw_k8sUnmatched := n\<rparr>) = shards_ok C f" "pool_ok (f\<lparr>fw_k8sUnmatched := n\<rparr>) = pool_ok f"
    "waiting_events C k (f\<lparr>fw_k8sUnmatched := n\<rparr>) = waiting_events C k f" for n
    by (simp_all add: shards_ok_def pool_ok_def waiting_events_def cong: option.case_cong)
  have shed: "shards_ok C (warnKubewatchShed t (g\<lparr>fw_forwardShed := n\<rparr>)) = shards_ok C g"
    "pool_ok (warnKubewatchShed t (g\<lparr>fw_forwardShed := n\<rparr>)) = pool_ok g"
    "waiting_events C k (warnKubewatchShed t (g\<lparr>fw_forwardShed := n\<rparr>)) = waiting_events C k g" for t g n
    by (simp_all add: shards_ok_def pool_ok_def waiting_events_def cong: option.case_cong)
  have enq: "shards_ok C g" "pool_ok g"
    "waiting_events C k g = waiting_events C k f @ (if ok \<and> k = kubewatchShardKey kind namespace nam then [j] else [])"
    if "enqueueKubewatch j (kubewatchShardKey kind namespace nam) f = (ok, g)" "kc_head C (kj_data j) = Some (op', kind, namespace, nam)"
    for j g ok kind namespace nam op'
    using enqueueKubewatch_ok[OF assms(1) that(1)] that(2) assms(2) by (simp_all add: job_key_def pool_ok_def cong: option.case_cong)
  show ?thesis using assms
    by (auto simp: handleK8sEvent_def Let_def count shed enq job_key_def split: sum.splits option.splits prod.splits if_splits bool.splits)
qed

lemma runKubewatchWorker_ok:
  assumes "shards_ok C f" "pool_ok f" "runKubewatchWorker C now i f = Some (job, ms, f')"
  shows "shards_ok C f'" "pool_ok f'" "waiting_events C k f = filter (\<lambda>j. job_key C j = k) [job] @ waiting_events C k f'"
proof -
  obtain shards q where sh: "fw_kwShards f = Some shards" "i < length shards" "shards ! i = job # q"
    using assms(3) by (auto simp: runKubewatchWorker_def split: option.splits if_splits list.splits)
  define g where "g = f\<lparr>fw_kwDepth := fw_kwDepth f - 1, fw_kwBytes := fw_kwBytes f - int (length (kj_data job)),
    fw_kwShards := Some (shards[i := q])\<rparr>"
  have m: "matchKubewatch C now job g = (ms, f')"
    using assms(3) sh by (simp add: runKubewatchWorker_def g_def split: prod.splits)
  have key: "shard_of (length shards) (job_key C job) = i"
    using assms(1) sh by (simp add: shards_ok_def)
  have g: "shards_ok C g"
    by (rule shards_ok_update[OF assms(1) sh(1,2), where q = q])
      (use assms(1) sh in \<open>auto simp: g_def shards_ok_def queue_bytes_def dest: spec[of _ i]\<close>)
  have "pool_ok g" using assms(2) by (simp add: pool_ok_def g_def cong: option.case_cong)
  then show "pool_ok f'" by (rule matchKubewatch_state(2)[OF m])
  note same = matchKubewatch_state(1)[OF m]
  show "shards_ok C f'" using g shards_ok_cong[OF same] by simp
  have "waiting_events C k f' = waiting_events C k g" using same by (intro waiting_events_cong) simp
  also have "fw_kwShards g = Some (shards[i := q])" by (simp add: g_def)
  note waiting_events_shard(1)[OF g this]
  finally show "waiting_events C k f = filter (\<lambda>j. job_key C j = k) [job] @ waiting_events C k f'"
    using waiting_events_shard[OF assms(1) sh(1)] sh key by (auto simp: nth_list_update)
qed

lemma run_task_ok:
  assumes "run_task x post now uuids i f = (envs, f')" "i < length (fw_tasks f)"
  shows "queue_part f' = queue_part f" "fw_sem f' = fw_sem f" "length (fw_tasks f') = length (fw_tasks f) - 1"
  using assms forward_all_state[of post _ f]
  by (auto simp: run_task_def split: prod.splits)

lemma intake_step_ok:
  assumes "intake_step C parse x post f l f'" "shards_ok C f" "pool_ok f"
  shows "shards_ok C f' \<and> pool_ok f' \<and>
    waiting_events C k f @ filter (\<lambda>j. job_key C j = k) (queued_by l) =
    filter (\<lambda>j. job_key C j = k) (map snd (worked_by l)) @ waiting_events C k f'"
  using assms(1)
proof cases
  case (k8s_event start r status ms job)
  then show ?thesis using handleK8sEvent_ok[OF assms(2,3)] by simp
next
  case (alert r status)
  have "queue_part f' = queue_part f" "pool_ok f'"
    using alert assms(3) by (auto simp: handleAlert_def pool_ok_spawnForward split: sum.splits)
  then show ?thesis using alert assms(2) shards_ok_cong[of f' f C] waiting_events_cong[of f' f C] by simp
next
  case (work now i job ms)
  then show ?thesis using runKubewatchWorker_ok[OF assms(2,3)] by simp
next
  case (sent i now uuids envs)
  note ok = run_task_ok[OF sent(3,2)]
  have "pool_ok f'" using assms(3) ok(2,3) by (auto simp: pool_ok_def split: option.splits)
  then show ?thesis using sent assms(2) ok(1) shards_ok_cong[of f' f C] waiting_events_cong[of f' f C] by simp
qed

lemma intake_run_ok:
  assumes "intake_run C parse x post f0 ls f" "fresh_forwarder f0"
  shows "shards_ok C f \<and> pool_ok f \<and> accepted_events C key ls = matched_events C key ls @ waiting_events C key f"
  using assms
proof (induction rule: intake_run.induct)
  case start
  then show ?case
    by (auto simp: fresh_forwarder_def shards_ok_def pool_ok_def accepted_events_def matched_events_def waiting_events_def
        split: option.splits)
next
  case (step ls f l f')
  with intake_step_ok[OF step.hyps(2), of key] show ?case
    by (auto simp: accepted_events_def matched_events_def)
qed

section \<open>Properties\<close>

text \<open>C10: events of one object are matched in the order they were accepted and none of them is
  lost. In every run of a fresh server, whatever the interleaving of requests, workers and
  forward tasks, the events of an object that the handlers queued are exactly those its worker
  has matched, in the same order, followed by those still waiting in its shard.\<close>

theorem intake_object_order:
  assumes "fresh_forwarder f0" "intake_run C parse x post f0 ls f"
  shows "accepted_events C key ls = matched_events C key ls @ waiting_events C key f"
  using intake_run_ok[OF assms(2,1)] by blast

text \<open>The intake never holds more than its bounds. In every run of a fresh server the depth
  gauge is the number of waiting events, no shard exceeds its capacity, the byte counter is the
  sum of the waiting payloads and within the byte budget, and the forward pool is within its
  size.\<close>

lemma intake_bounds:
  assumes "fresh_forwarder f0" "intake_run C parse x post f0 ls f" "fw_kwShards f = Some shards"
  shows "fw_kwDepth f = int (length (concat shards)) \<and> (\<forall>q \<in> set shards. length q \<le> fw_kwPerShard f) \<and>
    fw_kwBytes f = queue_bytes shards \<and> queue_bytes shards \<le> fw_kwMaxBytes f \<and>
    (\<forall>n. fw_sem f = Some n \<longrightarrow> int (length (fw_tasks f)) \<le> n)"
  using intake_run_ok[OF assms(2,1), of undefined] assms(3)
  by (auto simp: shards_ok_def pool_ok_def in_set_conv_nth split: option.splits)

section \<open>Witnesses\<close>

text \<open>A server with two shards and a budget of five bytes, for pods named by the first letter of the
  payload. It queues two events of pod \<open>a\<close>, sheds a third, and its worker matches the first.\<close>

definition sample_codec :: kubewatch_codec where
  "sample_codec = \<lparr>kc_probe = (\<lambda>s. Some ([], s)),
     kc_head = (\<lambda>s. Some (''update'', ''Pod'', [], take 1 s)), kc_inner = (\<lambda>s. Some (None, None))\<rparr>"

definition sample_forwarder :: forwarder where
  "sample_forwarder = (SetForwardPoolSize 1 (SetKubewatchQueue 2 4 5 (NewForwarder [] [] [] [])))\<lparr>
     fw_Engine := Some crash_engine\<rparr>"

definition sample_job :: "string \<Rightarrow> kubewatch_job" where
  "sample_job s = \<lparr>kj_operation = ''update'', kj_kind = ''Pod'', kj_data = s, kj_queued = 0\<rparr>"

definition sample_shard :: nat where
  "sample_shard = shard_of 2 ''pod//a''"

definition sample_queue :: "kubewatch_job list \<Rightarrow> forwarder" where
  "sample_queue q = (startKubewatchWorkers sample_forwarder)\<lparr>fw_kwShards := Some ((replicate 2 [])[sample_shard := q]), fw_kwDepth := int (length q),
     fw_kwBytes := queue_bytes [q]\<rparr>"

abbreviation sample_post :: "string \<Rightarrow> http_in" where
  "sample_post s \<equiv> \<lparr>hi_method = ''POST'', hi_body = s, hi_readOK = True\<rparr>"

lemma sample_shard_lt: "sample_shard < 2"
  by (simp add: sample_shard_def shard_of_def)

lemma sample_pod: "to_lower ''Pod'' = ''pod''" "HandlesKind crash_engine ''Pod''"
  by (code_simp, simp add: HandlesKind_def crash_engine_def NewEngine_def podCrashLoopMatcher_def matcher_base_def kindMatches_def
      equal_fold_def)

lemmas sample_intake_defs = sample_codec_def sample_forwarder_def SetForwardPoolSize_def SetKubewatchQueue_def
  NewForwarder_def startKubewatchWorkers_def sample_queue_def sample_job_def queue_bytes_def

lemma sample_first:
  "handleK8sEvent sample_codec 0 (sample_post ''a1'') sample_forwarder = ((202, [], Some (sample_job ''a1'')), sample_queue [sample_job ''a1''])"
  using sample_shard_lt
  by (simp add: handleK8sEvent_def readBody_def sample_intake_defs sample_pod enqueueKubewatch_def kwOnce_def Let_def
      kubewatchShardKey_def flip: sample_shard_def)

lemma sample_second:
  "handleK8sEvent sample_codec 0 (sample_post ''a2'') (sample_queue [sample_job ''a1'']) =
     ((202, [], Some (sample_job ''a2'')), sample_queue [sample_job ''a1'', sample_job ''a2''])"
  using sample_shard_lt
  by (simp add: handleK8sEvent_def readBody_def sample_intake_defs sample_pod enqueueKubewatch_def kwOnce_def Let_def
      kubewatchShardKey_def flip: sample_shard_def)

lemma sample_third:
  "fst (handleK8sEvent sample_codec 0 (sample_post ''a3'') (sample_queue [sample_job ''a1'', sample_job ''a2''])) =
     (202, [(''pod'', KwShed)], None)"
  by (simp add: handleK8sEvent_def readBody_def sample_intake_defs sample_pod enqueueKubewatch_def kwOnce_def Let_def
      kubewatchShardKey_def)

lemma sample_worker:
  "runKubewatchWorker sample_codec 0 sample_shard (sample_queue [sample_job ''a1'', sample_job ''a2'']) =
     Some (sample_job ''a1'', [(''pod'', KwUnmatched)], (sample_queue [sample_job ''a2''])\<lparr>fw_k8sUnmatched := 1\<rparr>)"
  using sample_shard_lt
  by (simp add: runKubewatchWorker_def sample_intake_defs sample_pod matchKubewatch_def MatchK8sEvent_def Match_def Let_def inc64_def)

definition sample_intake_labels :: "intake_label list" where
  "sample_intake_labels = [K8sEvent 202 [] (Some (sample_job ''a1'')), K8sEvent 202 [] (Some (sample_job ''a2'')),
     Work sample_shard (sample_job ''a1'') [(''pod'', KwUnmatched)]]"

lemma sample_intake_run:
  "intake_run sample_codec (\<lambda>_. None) x post sample_forwarder sample_intake_labels
     ((sample_queue [sample_job ''a2''])\<lparr>fw_k8sUnmatched := 1\<rparr>)"
  using intake_run.step[OF intake_run.step[OF intake_run.step[OF intake_run.start
    k8s_event[OF sample_first]] k8s_event[OF sample_second]] work[OF sample_worker]]
  by (simp add: sample_intake_labels_def)

lemma sample_forwarder_fresh: "fresh_forwarder sample_forwarder"
  by (simp add: sample_forwarder_def fresh_forwarder_setup)

theorem intake_object_order_witness:
  "accepted_events sample_codec ''pod//a'' sample_intake_labels =
     sample_job ''a1'' # waiting_events sample_codec ''pod//a'' (sample_queue [sample_job ''a2''])"
proof -
  have "matched_events sample_codec ''pod//a'' sample_intake_labels = [sample_job ''a1'']"
    by (simp add: matched_events_def sample_intake_labels_def job_key_def sample_codec_def sample_job_def kubewatchShardKey_def sample_pod)
  with intake_object_order[OF sample_forwarder_fresh sample_intake_run, of "''pod//a''"]
  show ?thesis by (simp add: waiting_events_def)
qed

end
