(* ===== verification/Base64.thy ===== *)
theory Base64
  imports Prelude "HOL-Library.Monad_Syntax"
begin

text \<open>
  \<open>base64.StdEncoding\<close>, which the agent decodes signatures and key shares with and encodes the
  value of every \<open>Authorization\<close> header with (\<open>basicAuth\<close> of \<open>pkg/alerts/auth.go\<close> and
  \<open>pkg/discovery/auth.go\<close>). The theory proves that decoding undoes encoding.
\<close>

section \<open>Decoding\<close>

definition b64_val :: "char \<Rightarrow> nat option" where
  "b64_val c =
     (let n = of_char c :: nat in
      if 65 \<le> n \<and> n \<le> 90 then Some (n - 65)
      else if 97 \<le> n \<and> n \<le> 122 then Some (n - 71)
      else if 48 \<le> n \<and> n \<le> 57 then Some (n + 4)
      else if c = CHR ''+'' then Some 62
      else if c = CHR ''/'' then Some 63
      else None)"

text \<open>\<open>base64.StdEncoding\<close>: groups of four with padding in the last one; the unused low bits of a
  padded group are ignored, line breaks are skipped.\<close>

fun b64_groups :: "string \<Rightarrow> string option" where
  "b64_groups [] = Some []"
| "b64_groups (a # b # c # d # r) = do {
     x \<leftarrow> b64_val a;
     y \<leftarrow> b64_val b;
     if d = CHR ''='' then
       (if r \<noteq> [] then None
        else if c = CHR ''='' then Some [char_of (x * 4 + y div 16)]
        else do { z \<leftarrow> b64_val c; Some [char_of (x * 4 + y div 16), char_of (y mod 16 * 16 + z div 4)] })
     else do {
       z \<leftarrow> b64_val c;
       w \<leftarrow> b64_val d;
       rest \<leftarrow> b64_groups r;
       Some (char_of (x * 4 + y div 16) # char_of (y mod 16 * 16 + z div 4) # char_of (z mod 4 * 64 + w) # rest)
     }
   }"
| "b64_groups _ = None"

definition b64_decode :: "string \<Rightarrow> string option" where
  "b64_decode s = b64_groups (filter (\<lambda>c. c \<noteq> CHR 0x0A \<and> c \<noteq> CHR 0x0D) s)"

lemma b64_decode_sample: "b64_decode ''TWFuTWE='' = Some ''ManMa''"
  by code_simp

section \<open>Encoding\<close>

definition b64_char :: "nat \<Rightarrow> char" where
  "b64_char n =
     (if n < 26 then char_of (n + 65) else if n < 52 then char_of (n + 71) else if n < 62 then char_of (n - 4)
      else if n = 62 then CHR ''+'' else CHR ''/'')"

fun b64_encode :: "string \<Rightarrow> string" where
  "b64_encode [] = []"
| "b64_encode [a] =
     (let x = of_char a in [b64_char (x div 4), b64_char (x mod 4 * 16), CHR ''='', CHR ''=''])"
| "b64_encode [a, b] =
     (let x = of_char a; y = of_char b in
      [b64_char (x div 4), b64_char (x mod 4 * 16 + y div 16), b64_char (y mod 16 * 4), CHR ''=''])"
| "b64_encode (a # b # c # r) =
     (let x = of_char a; y = of_char b; z = of_char c in
      b64_char (x div 4) # b64_char (x mod 4 * 16 + y div 16) # b64_char (y mod 16 * 4 + z div 64) # b64_char (z mod 64) #
      b64_encode r)"

text \<open>\<open>basicAuth\<close>: the header value is the encoding alone, without a scheme.\<close>

definition basicAuth :: "string \<Rightarrow> string" where
  "basicAuth secret = b64_encode secret"

lemma b64_val_char: "n < 64 \<Longrightarrow> b64_val (b64_char n) = Some n"
  by (auto simp: b64_val_def b64_char_def Let_def)

lemma b64_char_plain: "n < 64 \<Longrightarrow> b64_char n \<noteq> CHR ''='' \<and> b64_char n \<noteq> CHR 0x0A \<and> b64_char n \<noteq> CHR 0x0D"
  using b64_val_char[of n] by (auto simp: b64_val_def)

lemma byte_parts:
  fixes c :: char
  defines "x \<equiv> of_char c :: nat"
  shows "x div 4 < 64" "x div 16 < 16" "x div 64 < 4"
  unfolding x_def using nat_of_char_less_256[of c] by linarith+

lemma sextets:
  fixes x y z :: nat
  shows "x mod 4 * 16 < 64" "y div 16 < 16 \<Longrightarrow> x mod 4 * 16 + y div 16 < 64" "y mod 16 * 4 < 64"
    "z div 64 < 4 \<Longrightarrow> y mod 16 * 4 + z div 64 < 64"
proof -
  have "x mod 4 < 4" "y mod 16 < 16" by simp_all
  then show "x mod 4 * 16 < 64" "y div 16 < 16 \<Longrightarrow> x mod 4 * 16 + y div 16 < 64" "y mod 16 * 4 < 64"
    "z div 64 < 4 \<Longrightarrow> y mod 16 * 4 + z div 64 < 64" by linarith+
qed

lemma b64_groups_encode: "b64_groups (b64_encode s) = Some s"
proof (induction s rule: b64_encode.induct)
  case (2 a)
  show ?case using byte_parts[of a] by (simp add: Let_def b64_val_char sextets)
next
  case (3 a b)
  show ?case using byte_parts[of a] byte_parts[of b] by (simp add: Let_def b64_val_char b64_char_plain sextets)
next
  case (4 a b c r)
  then show ?case
    using byte_parts[of a] byte_parts[of b] byte_parts[of c]
    by (simp add: Let_def b64_val_char b64_char_plain sextets)
qed simp

lemma b64_encode_no_break: "c \<in> set (b64_encode s) \<Longrightarrow> c \<noteq> CHR 0x0A \<and> c \<noteq> CHR 0x0D"
proof (induction s rule: b64_encode.induct)
  case (2 a)
  then show ?case using byte_parts[of a] b64_char_plain by (auto simp: Let_def sextets)
next
  case (3 a b)
  then show ?case using byte_parts[of a] byte_parts[of b] b64_char_plain by (auto simp: Let_def sextets)
next
  case (4 a b c r)
  then show ?case using byte_parts[of a] byte_parts[of b] byte_parts[of c] b64_char_plain by (auto simp: Let_def sextets)
qed simp

text \<open>Base64 round trip. Decoding an \<open>Authorization\<close> value gives back the secret it was made from,
  byte for byte, and the value holds no line break, so it is a legal header value whatever the
  secret is.\<close>

lemma basicAuth_roundtrip:
  "b64_decode (basicAuth secret) = Some secret \<and> CHR 0x0A \<notin> set (basicAuth secret) \<and> CHR 0x0D \<notin> set (basicAuth secret)"
proof -
  have "filter (\<lambda>c. c \<noteq> CHR 0x0A \<and> c \<noteq> CHR 0x0D) (b64_encode secret) = b64_encode secret"
    using b64_encode_no_break by (intro filter_True) auto
  then show ?thesis
    using b64_encode_no_break b64_groups_encode by (auto simp: b64_decode_def basicAuth_def)
qed

end
