(* ===== verification/RelaySig.thy ===== *)
theory RelaySig
  imports GoTime Base64
begin

text \<open>
  \<open>pkg/relaysig/verify.go\<close>: the Ed25519 signature of the relay over the raw body, its timestamp
  check and the replay set. Ed25519, the OpenSSH parser and the PEM and PKIX decoders are
  parameters. A call reads the clock twice, before the signature check and under the lock of the
  replay set; both readings are arguments. The locale \<open>replay_guard\<close> states what the replay set
  promises and proves the replay argument once. The theory also shows what the signature does
  not cover.
\<close>

section \<open>Keys\<close>

type_synonym public_key = string

text \<open>The third-party and platform decoders: the OpenSSH line parser and the PEM decoder, whose
  outer \<open>None\<close> says that the text holds no PEM block; an inner or plain \<open>None\<close> is an error or a
  key of another type.\<close>

record key_parsers =
  kp_ssh :: "string \<Rightarrow> public_key option"
  kp_pem :: "string \<Rightarrow> public_key option option"

definition parsePublicKey :: "key_parsers \<Rightarrow> string \<Rightarrow> public_key option" where
  "parsePublicKey kp s0 =
     (let s = trim_space s0 in
      if has_prefix s ''ssh-ed25519 '' then kp_ssh kp s
      else case kp_pem kp s of
        Some r \<Rightarrow> r
      | None \<Rightarrow> (case b64_decode s of
           None \<Rightarrow> None
         | Some bytes \<Rightarrow> if length bytes \<noteq> 32 then None else Some bytes))"

text \<open>\<open>strings.FieldsFunc\<close>: the maximal runs of other characters; empty ones do not appear.\<close>

fun fields_func :: "(char \<Rightarrow> bool) \<Rightarrow> string \<Rightarrow> string \<Rightarrow> string list" where
  "fields_func sep cur [] = (if cur = [] then [] else [cur])"
| "fields_func sep cur (c # s) =
     (if sep c then (if cur = [] then [] else [cur]) @ fields_func sep [] s else fields_func sep (cur @ [c]) s)"

fun parse_fields :: "key_parsers \<Rightarrow> string list \<Rightarrow> public_key list option" where
  "parse_fields kp [] = Some []"
| "parse_fields kp (f # fs) =
     (let g = trim_space f in
      if g = [] then parse_fields kp fs
      else do { k \<leftarrow> parsePublicKey kp g; ks \<leftarrow> parse_fields kp fs; Some (k # ks) })"

definition parsePublicKeys :: "key_parsers \<Rightarrow> string \<Rightarrow> public_key list option" where
  "parsePublicKeys kp s0 =
     (let s = trim_space s0 in
      if s = [] then Some []
      else parse_fields kp
        (if contains s ''-----BEGIN'' then [s]
         else fields_func (\<lambda>c. c = CHR '','' \<or> c = CHR 0x0A) [] s))"

section \<open>The verifier\<close>

record envelope =
  env_Signature :: string
  env_SignedAt :: string
  env_Nonce :: string
  env_KeyID :: string

definition Present :: "envelope \<Rightarrow> bool" where
  "Present e \<longleftrightarrow> env_Signature e \<noteq> []"

record verifier =
  v_publicKeys :: "public_key list"
  v_seenNonces :: "(string, time) gomap"
  v_lastCleanup :: time

datatype relay_err = NotConfigured | MissingSignature | MissingSignedAt | MissingNonce | EmptyBody
  | InvalidSignedAt | OutsideWindow | InvalidEncoding | InvalidSignature | NonceSeen

definition maxTimestampSkew :: duration where "maxTimestampSkew = 5 * minute"
definition maxNonces :: nat where "maxNonces = 10000"

definition NewVerifier :: "key_parsers \<Rightarrow> string \<Rightarrow> verifier option" where
  "NewVerifier kp s = map_option (\<lambda>ks. \<lparr>v_publicKeys = ks, v_seenNonces = [], v_lastCleanup = zero_time\<rparr>)
     (parsePublicKeys kp s)"

definition Enabled :: "verifier \<Rightarrow> bool" where
  "Enabled v \<longleftrightarrow> 0 < length (v_publicKeys v)"

definition absDuration :: "duration \<Rightarrow> duration" where
  "absDuration d = (if d < 0 then wrap64 (- d) else d)"

definition checkAndRecordNonce :: "time \<Rightarrow> string \<Rightarrow> verifier \<Rightarrow> bool \<times> verifier" where
  "checkAndRecordNonce now nonce v =
     (if map_of (v_seenNonces v) nonce \<noteq> None then (False, v)
      else
        (let seen = map_put nonce now (v_seenNonces v) in
         if length seen > maxNonces \<and> time_sub now (v_lastCleanup v) > minute then
           (let cutoff = time_add now (- maxTimestampSkew * 2) in
            (True, v\<lparr>v_seenNonces := filter (\<lambda>p. \<not> snd p < cutoff) seen, v_lastCleanup := now\<rparr>))
         else (True, v\<lparr>v_seenNonces := seen\<rparr>)))"

definition skew_ok :: "time \<Rightarrow> time \<Rightarrow> bool" where
  "skew_ok now signedAt \<longleftrightarrow> \<not> absDuration (time_sub now signedAt) > maxTimestampSkew"

text \<open>\<open>ed25519.Verify(key, message, signature)\<close> is the parameter \<open>ed\<close>.\<close>

definition VerifyBody ::
  "(public_key \<Rightarrow> string \<Rightarrow> string \<Rightarrow> bool) \<Rightarrow> time \<Rightarrow> time \<Rightarrow> string \<Rightarrow> envelope \<Rightarrow> verifier \<Rightarrow>
   relay_err option \<times> verifier" where
  "VerifyBody ed t1 t2 bodyRaw env v =
     (if \<not> Enabled v then (Some NotConfigured, v)
      else if env_Signature env = [] then (Some MissingSignature, v)
      else if env_SignedAt env = [] then (Some MissingSignedAt, v)
      else if env_Nonce env = [] then (Some MissingNonce, v)
      else if bodyRaw = [] then (Some EmptyBody, v)
      else case parse_rfc3339 (env_SignedAt env) of
        None \<Rightarrow> (Some InvalidSignedAt, v)
      | Some signedAt \<Rightarrow>
          if \<not> skew_ok t1 signedAt then (Some OutsideWindow, v)
          else (case b64_decode (env_Signature env) of
             None \<Rightarrow> (Some InvalidEncoding, v)
           | Some sig \<Rightarrow>
               if \<not> list_ex (\<lambda>pk. ed pk bodyRaw sig) (v_publicKeys v) then (Some InvalidSignature, v)
               else (case checkAndRecordNonce t2 (env_Nonce env) v of
                  (ok, v') \<Rightarrow> (if ok then None else Some NonceSeen, v'))))"

section \<open>The replay set\<close>

locale replay_guard =
  fixes check :: "time \<Rightarrow> string \<Rightarrow> 's \<Rightarrow> bool \<times> 's"
    and recorded :: "'s \<Rightarrow> string \<Rightarrow> time option"
    and keep :: duration
    and inv :: "'s \<Rightarrow> bool"
  assumes check_iff: "fst (check now n s) \<longleftrightarrow> recorded s n = None"
    and check_records: "inv s \<Longrightarrow> fst (check now n s) \<Longrightarrow> recorded (snd (check now n s)) n = Some now"
    and check_keeps: "inv s \<Longrightarrow> recorded s n = Some t \<Longrightarrow> now \<le> t + keep \<Longrightarrow>
      recorded (snd (check now n' s)) n = Some t"
    and inv_check: "inv s \<Longrightarrow> inv (snd (check now n s))"
begin

fun runs :: "(time \<times> string) list \<Rightarrow> 's \<Rightarrow> 's" where
  "runs [] s = s"
| "runs ((now, n) # xs) s = runs xs (snd (check now n s))"

lemma runs_keep:
  "inv s \<Longrightarrow> recorded s n = Some t \<Longrightarrow> list_all (\<lambda>(now, _). now \<le> t + keep) xs \<Longrightarrow>
   recorded (runs xs s) n = Some t"
proof (induction xs s rule: runs.induct)
  case (2 now n' xs s)
  then show ?case using check_keeps[of s n t now n'] inv_check[of s now n'] by simp
qed simp

lemma no_second_accept:
  assumes "inv s" "fst (check t n s)" "list_all (\<lambda>(now, _). now \<le> t + keep) xs"
  shows "\<not> fst (check t' n (runs xs (snd (check t n s))))"
  using runs_keep[OF inv_check[OF assms(1)] check_records[OF assms(1,2)] assms(3)]
  by (simp add: check_iff)

end

definition v_ok :: "verifier \<Rightarrow> bool" where
  "v_ok v \<longleftrightarrow> wf_map (v_seenNonces v)"

interpretation nonces: replay_guard checkAndRecordNonce "\<lambda>v. map_of (v_seenNonces v)" "10 * minute" v_ok
proof (unfold_locales, goal_cases)
  case (1 now n s)
  then show ?case by (simp add: checkAndRecordNonce_def Let_def)
next
  case (2 s now n)
  then show ?case
    by (auto simp: checkAndRecordNonce_def Let_def v_ok_def map_of_filter_wf time_add_def maxTimestampSkew_def
        split: if_splits)
next
  case (3 s n t now n')
  then show ?case
    by (auto simp: checkAndRecordNonce_def Let_def v_ok_def map_of_filter_wf time_add_def maxTimestampSkew_def)
next
  case (4 s now n)
  then show ?case by (auto simp: checkAndRecordNonce_def Let_def v_ok_def)
qed

section \<open>What an accepted signature means\<close>

lemma VerifyBody_accept:
  "fst (VerifyBody ed t1 t2 body env v) = None \<longleftrightarrow>
   Enabled v \<and> env_Signature env \<noteq> [] \<and> env_Nonce env \<noteq> [] \<and> body \<noteq> [] \<and>
   (\<exists>s. parse_rfc3339 (env_SignedAt env) = Some s \<and> skew_ok t1 s) \<and>
   (\<exists>sig. b64_decode (env_Signature env) = Some sig \<and> list_ex (\<lambda>pk. ed pk body sig) (v_publicKeys v)) \<and>
   map_of (v_seenNonces v) (env_Nonce env) = None"
  by (auto simp: VerifyBody_def checkAndRecordNonce_def Let_def split: option.splits prod.splits)

lemma VerifyBody_state:
  "snd (VerifyBody ed t1 t2 body env v) = v \<or>
   snd (VerifyBody ed t1 t2 body env v) = snd (checkAndRecordNonce t2 (env_Nonce env) v)"
  by (auto simp: VerifyBody_def split: option.splits prod.splits)

lemma VerifyBody_accept_state:
  "fst (VerifyBody ed t1 t2 body env v) = None \<Longrightarrow>
   fst (checkAndRecordNonce t2 (env_Nonce env) v) \<and>
   snd (VerifyBody ed t1 t2 body env v) = snd (checkAndRecordNonce t2 (env_Nonce env) v)"
  by (auto simp: VerifyBody_def split: option.splits prod.splits if_splits)

lemma VerifyBody_reject_state:
  "fst (VerifyBody ed t1 t2 body env v) \<noteq> None \<Longrightarrow> snd (VerifyBody ed t1 t2 body env v) = v"
  by (auto simp: VerifyBody_def checkAndRecordNonce_def Let_def split: option.splits prod.splits if_splits)

text \<open>An accepted relay signature is one that Ed25519 verifies, under some configured key, over
  exactly the body bytes given, with a timestamp that passes the skew check and a nonce not
  seen before, which is recorded; every rejection, for whatever reason, leaves the verifier
  unchanged, so forged or stale messages cannot burn a nonce.\<close>

lemma VerifyBody_outcome:
  "case fst (VerifyBody ed t1 t2 body env v) of
     None \<Rightarrow>
       Enabled v \<and> body \<noteq> [] \<and> (\<exists>s. parse_rfc3339 (env_SignedAt env) = Some s \<and> skew_ok t1 s) \<and>
       (\<exists>sig. b64_decode (env_Signature env) = Some sig \<and> list_ex (\<lambda>pk. ed pk body sig) (v_publicKeys v)) \<and>
       map_of (v_seenNonces v) (env_Nonce env) = None \<and>
       snd (VerifyBody ed t1 t2 body env v) = snd (checkAndRecordNonce t2 (env_Nonce env) v)
   | Some err \<Rightarrow> snd (VerifyBody ed t1 t2 body env v) = v"
proof (cases "fst (VerifyBody ed t1 t2 body env v)")
  case None
  with VerifyBody_accept[of ed t1 t2 body env v] VerifyBody_accept_state[OF None] show ?thesis by simp
next
  case (Some err)
  with VerifyBody_reject_state[of ed t1 t2 body env v] show ?thesis by simp
qed

section \<open>The timestamp window\<close>

lemma skew_ok_iff:
  "skew_ok now s \<longleftrightarrow> (now - 5 * minute \<le> s \<and> s \<le> now + 5 * minute) \<or> now + 9223372036854775808 \<le> s"
proof (cases "now - s \<le> min_int64")
  case True
  then have "time_sub now s = min_int64" by (simp add: time_sub_def int64_defs)
  then have "skew_ok now s"
    using wrap64_neg_min by (simp add: skew_ok_def absDuration_def maxTimestampSkew_def int64_defs)
  with True show ?thesis by (simp add: int64_defs)
next
  case False
  show ?thesis
  proof (cases "now - s \<le> max_int64")
    case True
    with False have "time_sub now s = now - s" by (intro time_sub_exact) (simp add: int64_defs)
    moreover have "wrap64 (- (now - s)) = s - now"
      using True False wrap64_id[of "- (now - s)"] by (simp add: int64_defs)
    ultimately show ?thesis using True False by (auto simp: skew_ok_def absDuration_def maxTimestampSkew_def int64_defs)
  next
    case big: False
    then have "time_sub now s = max_int64" by (simp add: time_sub_def int64_defs)
    with big False show ?thesis by (auto simp: skew_ok_def absDuration_def maxTimestampSkew_def int64_defs)
  qed
qed

text \<open>The skew check accepts exactly the timestamps within five minutes of the clock, and those
  2^63 nanoseconds (292 years) or more ahead of it: the difference saturates at the least
  duration, whose absolute value overflows to itself and is negative. A request dated 9999
  passes at any time today.\<close>

lemma skew_window_exact:
  "(skew_ok now s \<longleftrightarrow> (now - 5 * minute \<le> s \<and> s \<le> now + 5 * minute) \<or> now + 9223372036854775808 \<le> s) \<and>
   (case (parse_rfc3339 ''2026-01-01T00:00:00Z'', parse_rfc3339 ''9999-12-31T23:59:59Z'') of
      (Some t, Some s') \<Rightarrow> skew_ok t s' | _ \<Rightarrow> False)"
proof -
  have "parse_rfc3339 ''2026-01-01T00:00:00Z'' = Some 63902822400000000000"
    "parse_rfc3339 ''9999-12-31T23:59:59Z'' = Some 315537897599000000000" by code_simp+
  then show ?thesis by (simp add: skew_ok_iff)
qed

section \<open>Replay\<close>

type_synonym verify_call = "time \<times> time \<times> string \<times> envelope"

fun verify_runs :: "(public_key \<Rightarrow> string \<Rightarrow> string \<Rightarrow> bool) \<Rightarrow> verify_call list \<Rightarrow> verifier \<Rightarrow> verifier" where
  "verify_runs ed [] v = v"
| "verify_runs ed ((t1, t2, body, env) # xs) v = verify_runs ed xs (snd (VerifyBody ed t1 t2 body env v))"

lemma verify_runs_nonces:
  "\<exists>ys. verify_runs ed xs v = nonces.runs ys v \<and> set ys \<subseteq> (\<lambda>(t1, t2, body, env). (t2, env_Nonce env)) ` set xs"
proof (induction ed xs v rule: verify_runs.induct)
  case (2 ed t1 t2 body env xs v)
  then obtain ys where ys: "verify_runs ed xs (snd (VerifyBody ed t1 t2 body env v)) =
      nonces.runs ys (snd (VerifyBody ed t1 t2 body env v))"
    "set ys \<subseteq> (\<lambda>(t1, t2, body, env). (t2, env_Nonce env)) ` set xs" by blast
  from VerifyBody_state[of ed t1 t2 body env v] show ?case
  proof
    assume "snd (VerifyBody ed t1 t2 body env v) = v"
    with ys show ?thesis by (intro exI[of _ ys]) auto
  next
    assume "snd (VerifyBody ed t1 t2 body env v) = snd (checkAndRecordNonce t2 (env_Nonce env) v)"
    with ys show ?thesis by (intro exI[of _ "(t2, env_Nonce env) # ys"]) auto
  qed
qed (auto intro: exI[of _ "[]"])

lemma replayed_envelope_rejected:
  assumes "v_ok v" "fst (VerifyBody ed t1 t2 body env v) = None"
    and "parse_rfc3339 (env_SignedAt env) = Some s" "s < t1 + 9223372036854775808"
    and "t1 \<le> t2" "t2 \<le> u1" "list_all (\<lambda>(_, t, _, _). t \<le> u1) calls"
    and "env_Nonce env' = env_Nonce env" "env_SignedAt env' = env_SignedAt env"
  shows "fst (VerifyBody ed u1 u2 body' env' (verify_runs ed calls (snd (VerifyBody ed t1 t2 body env v)))) \<noteq> None"
proof
  let ?v1 = "snd (VerifyBody ed t1 t2 body env v)"
  assume again: "fst (VerifyBody ed u1 u2 body' env' (verify_runs ed calls ?v1)) = None"
  from assms(2,3) have "skew_ok t1 s" by (auto simp: VerifyBody_accept)
  with assms(4) have s1: "s \<le> t1 + 5 * minute" by (auto simp: skew_ok_iff)
  from again assms(3,9) have "skew_ok u1 s" by (auto simp: VerifyBody_accept)
  with assms(4-6) have "u1 \<le> s + 5 * minute" by (auto simp: skew_ok_iff)
  with s1 assms(5) have u1: "u1 \<le> t2 + 10 * minute" by simp
  obtain ys where ys: "verify_runs ed calls ?v1 = nonces.runs ys ?v1"
    "set ys \<subseteq> (\<lambda>(t1, t2, body, env). (t2, env_Nonce env)) ` set calls" using verify_runs_nonces by blast
  have "list_all (\<lambda>(now, _). now \<le> t2 + 10 * minute) ys"
    using ys(2) assms(7) u1 by (fastforce simp: list_all_iff)
  with nonces.no_second_accept[OF assms(1)] VerifyBody_accept_state[OF assms(2)]
  have "\<not> fst (checkAndRecordNonce u2 (env_Nonce env) (nonces.runs ys ?v1))" by simp
  then show False using VerifyBody_accept_state[OF again] ys(1) assms(8) by simp
qed

text \<open>C6: no replay of an envelope. After a request has been accepted, a later request with the same
  nonce and the same timestamp is rejected, whatever its body, whatever calls come in between
  and however often the set is swept: an entry is swept only when its timestamp can no longer
  pass the skew check. The calls are made one after the other on a clock that does not go back,
  and the timestamp is not 292 years ahead.\<close>

theorem VerifyBody_no_replay:
  assumes "v_ok v" "fst (VerifyBody ed t1 t2 body env v) = None"
    and "parse_rfc3339 (env_SignedAt env) = Some s" "s < t1 + 9223372036854775808"
    and "t1 \<le> t2" "t2 \<le> u1" "list_all (\<lambda>(_, t, _, _). t \<le> u1) calls"
    and "env_Nonce env' = env_Nonce env" "env_SignedAt env' = env_SignedAt env"
  shows "fst (VerifyBody ed u1 u2 body' env' (verify_runs ed calls (snd (VerifyBody ed t1 t2 body env v)))) \<noteq> None"
  using assms by (rule replayed_envelope_rejected)

definition sample_verifier :: verifier where
  "sample_verifier = \<lparr>v_publicKeys = [''K''], v_seenNonces = [], v_lastCleanup = zero_time\<rparr>"

definition sample_envelope :: envelope where
  "sample_envelope = \<lparr>env_Signature = ''TWFu'', env_SignedAt = ''1970-01-01T00:00:00Z'', env_Nonce = ''n1'', env_KeyID = []\<rparr>"

abbreviation (input) sample_ed :: "public_key \<Rightarrow> string \<Rightarrow> string \<Rightarrow> bool" where
  "sample_ed \<equiv> \<lambda>pk body sig. sig = ''Man''"

lemma sample_accept:
  "t - 5 * minute \<le> 62135596800000000000 \<Longrightarrow> 62135596800000000000 \<le> t + 5 * minute \<Longrightarrow>
   fst (VerifyBody sample_ed t t ''{}'' sample_envelope sample_verifier) = None"
proof -
  assume t: "t - 5 * minute \<le> 62135596800000000000" "62135596800000000000 \<le> t + 5 * minute"
  have "b64_decode ''TWFu'' = Some ''Man''" by code_simp
  moreover have "parse_rfc3339 ''1970-01-01T00:00:00Z'' = Some 62135596800000000000"
    using parse_rfc3339_epoch by (simp add: unix_to_internal_def)
  ultimately show ?thesis
    using t by (simp add: VerifyBody_accept sample_envelope_def sample_verifier_def Enabled_def skew_ok_iff)
qed

theorem VerifyBody_no_replay_witness:
  "fst (VerifyBody sample_ed 62135596801000000000 62135596801000000000 ''{x}'' sample_envelope
     (snd (VerifyBody sample_ed 62135596800000000000 62135596800000000000 ''{}'' sample_envelope sample_verifier))) \<noteq> None"
proof -
  have p: "parse_rfc3339 (env_SignedAt sample_envelope) = Some 62135596800000000000"
    using parse_rfc3339_epoch by (simp add: sample_envelope_def unix_to_internal_def)
  show ?thesis
    using VerifyBody_no_replay[of sample_verifier sample_ed 62135596800000000000 62135596800000000000 "''{}''"
        sample_envelope 62135596800000000000 62135596801000000000 "[]" sample_envelope "62135596801000000000" "''{x}''"]
      sample_accept[of 62135596800000000000] p
    by (simp add: v_ok_def sample_verifier_def)
qed

text \<open>The signature covers the body and nothing else. Whoever holds one accepted request can
  present the same body and signature again, at any later time, with a fresh nonce and a
  current timestamp: the verifier accepts it.\<close>

lemma VerifyBody_fresh_nonce_accepted:
  assumes "fst (VerifyBody ed t1 t2 body env v) = None" "v_publicKeys v' = v_publicKeys v"
    and "n \<noteq> []" "map_of (v_seenNonces v') n = None"
    and "parse_rfc3339 ts = Some s" "u1 - 5 * minute \<le> s" "s \<le> u1 + 5 * minute"
  shows "fst (VerifyBody ed u1 u2 body (env\<lparr>env_SignedAt := ts, env_Nonce := n\<rparr>) v') = None"
  using assms by (auto simp: VerifyBody_accept Enabled_def skew_ok_iff)

section \<open>Key lists\<close>

lemma parse_fields_length: "parse_fields kp fs = Some ks \<Longrightarrow> length ks \<le> length fs"
  by (induction kp fs arbitrary: ks rule: parse_fields.induct)
    (fastforce simp: Let_def split: if_splits option.splits Option.bind_splits)+

text \<open>A key setting that holds a PEM block is read as one key: however many PEM keys an
  operator lists, separated by commas or otherwise, at most one is configured.\<close>

lemma parsePublicKeys_pem_single:
  assumes "contains (trim_space s) ''-----BEGIN''" "parsePublicKeys kp s = Some ks"
  shows "length ks \<le> 1"
proof -
  have "trim_space s \<noteq> []" using assms(1) by auto
  with assms have "parse_fields kp [trim_space s] = Some ks" by (simp add: parsePublicKeys_def Let_def)
  from parse_fields_length[OF this] show ?thesis by simp
qed

end
