(* ===== verification/Auth.thy ===== *)
theory Auth
  imports CanonJson RelaySig "HOL-Library.Word"
begin

text \<open>
  \<open>pkg/auth/auth.go\<close>: the four ways a request is authorised. The cryptographic primitives, the
  UUID parser and the decoding of the decrypted share are the fields of the parameter record
  \<open>crypto\<close>; a UUID is a 128-bit word. Loading the private key from disk is input and not
  modelled. The theory proves which requests are accepted, that a failed relay signature never
  grants more than no signature at all, and how the light-action list is swapped.
\<close>

unbundle bit_operations_syntax

section \<open>Model\<close>

record crypto =
  c_ed25519 :: "public_key \<Rightarrow> string \<Rightarrow> string \<Rightarrow> bool"
  c_hmacHex :: "string \<Rightarrow> string \<Rightarrow> string"
  c_sha256Hex :: "string \<Rightarrow> string"
  c_rsaOAEP :: "string \<Rightarrow> string \<Rightarrow> string option"
  c_partialJSON :: "string \<Rightarrow> (string \<times> string) option"
  c_uuidParse :: "string \<Rightarrow> 128 word option"

record request =
  r_Body :: gmap
  r_ActionName :: string
  r_Signature :: string
  r_PartialAuthA :: string
  r_PartialAuthB :: string
  r_RelaySig :: envelope
  r_BodyRaw :: string

record validator =
  val_SigningKey :: string
  val_PrivateKey :: "string option"
  val_LightActions :: "string list option"
  val_lightActionsAtomic :: "string list option"
  val_RelayVerifier :: "verifier option"

datatype share_err = ShareBase64 | ShareDecrypt | ShareJSON | ShareHash | ShareKey

datatype auth_err = LightDisabled | NotAllowed string | NoSigningKey | EncodeFailed | SignatureMismatch
  | NoPrivateKey | MissingPartial | PartialA share_err | PartialB share_err | SigningKeyNotUUID | XorMismatch

definition SetLightActions :: "string list option \<Rightarrow> validator \<Rightarrow> validator" where
  "SetLightActions actions v = v\<lparr>val_lightActionsAtomic := actions\<rparr>"

definition LightActionsSet :: "validator \<Rightarrow> string list option" where
  "LightActionsSet v = (case val_lightActionsAtomic v of Some p \<Rightarrow> Some p | None \<Rightarrow> val_LightActions v)"

definition validateLightAction :: "validator \<Rightarrow> request \<Rightarrow> auth_err option" where
  "validateLightAction v r = (case LightActionsSet v of
     None \<Rightarrow> Some LightDisabled
   | Some s \<Rightarrow> if r_ActionName r \<notin> set s then Some (NotAllowed (r_ActionName r)) else None)"

definition validateHMAC :: "crypto \<Rightarrow> validator \<Rightarrow> request \<Rightarrow> auth_err option" where
  "validateHMAC c v r =
     (if val_SigningKey v = [] then Some NoSigningKey
      else case EncodeForSignature (VObj (r_Body r)) of
        None \<Rightarrow> Some EncodeFailed
      | Some body \<Rightarrow>
          (let expected = ''v0='' @ c_hmacHex c (val_SigningKey v) (''v0:'' @ body) in
           if expected \<noteq> r_Signature r then Some SignatureMismatch else None))"

definition extractPartialKey :: "crypto \<Rightarrow> string \<Rightarrow> string \<Rightarrow> string \<Rightarrow> share_err + 128 word" where
  "extractPartialKey c privateKey encoded expectedHash = (case b64_decode encoded of
     None \<Rightarrow> Inl ShareBase64
   | Some ciphertext \<Rightarrow> (case c_rsaOAEP c privateKey ciphertext of
        None \<Rightarrow> Inl ShareDecrypt
      | Some plain \<Rightarrow> (case c_partialJSON c plain of
           None \<Rightarrow> Inl ShareJSON
         | Some (hash, key) \<Rightarrow>
             if hash \<noteq> expectedHash then Inl ShareHash
             else (case c_uuidParse c key of None \<Rightarrow> Inl ShareKey | Some u \<Rightarrow> Inr u))))"

definition validatePartialKeys :: "crypto \<Rightarrow> validator \<Rightarrow> request \<Rightarrow> auth_err option" where
  "validatePartialKeys c v r = (case val_PrivateKey v of
     None \<Rightarrow> Some NoPrivateKey
   | Some pk \<Rightarrow>
       if val_SigningKey v = [] then Some NoSigningKey
       else if r_PartialAuthA r = [] \<or> r_PartialAuthB r = [] then Some MissingPartial
       else (case Encode (VObj (r_Body r)) of
          None \<Rightarrow> Some EncodeFailed
        | Some body \<Rightarrow>
            (let expectedHash = ''v0='' @ c_sha256Hex c body in
             case extractPartialKey c pk (r_PartialAuthA r) expectedHash of
               Inl e \<Rightarrow> Some (PartialA e)
             | Inr keyA \<Rightarrow> (case extractPartialKey c pk (r_PartialAuthB r) expectedHash of
                  Inl e \<Rightarrow> Some (PartialB e)
                | Inr keyB \<Rightarrow> (case c_uuidParse c (val_SigningKey v) of
                     None \<Rightarrow> Some SigningKeyNotUUID
                   | Some want \<Rightarrow> if want \<noteq> keyA XOR keyB then Some XorMismatch else None)))))"

definition validate_modes :: "crypto \<Rightarrow> validator \<Rightarrow> request \<Rightarrow> auth_err option" where
  "validate_modes c v r =
     (if r_Signature r \<noteq> [] then validateHMAC c v r
      else if r_PartialAuthA r \<noteq> [] \<or> r_PartialAuthB r \<noteq> [] then validatePartialKeys c v r
      else validateLightAction v r)"

definition Validate :: "crypto \<Rightarrow> time \<Rightarrow> time \<Rightarrow> request \<Rightarrow> validator \<Rightarrow> auth_err option \<times> validator" where
  "Validate c t1 t2 r v = (case val_RelayVerifier v of
     Some rv \<Rightarrow>
       if Present (r_RelaySig r) \<and> Enabled rv then
         (case VerifyBody (c_ed25519 c) t1 t2 (r_BodyRaw r) (r_RelaySig r) rv of
            (None, rv') \<Rightarrow> (None, v\<lparr>val_RelayVerifier := Some rv'\<rparr>)
          | (Some err, rv') \<Rightarrow>
              let v' = v\<lparr>val_RelayVerifier := Some rv'\<rparr> in (validate_modes c v' r, v'))
       else (validate_modes c v r, v)
   | None \<Rightarrow> (validate_modes c v r, v))"

section \<open>Which requests are accepted\<close>

definition relay_authorised :: "crypto \<Rightarrow> time \<Rightarrow> time \<Rightarrow> request \<Rightarrow> validator \<Rightarrow> bool" where
  "relay_authorised c t1 t2 r v = (case val_RelayVerifier v of
     None \<Rightarrow> False
   | Some rv \<Rightarrow> fst (VerifyBody (c_ed25519 c) t1 t2 (r_BodyRaw r) (r_RelaySig r) rv) = None)"

lemma validate_modes_verifier [simp]: "validate_modes c (v\<lparr>val_RelayVerifier := rv\<rparr>) r = validate_modes c v r"
  by (auto simp: validate_modes_def validateHMAC_def validatePartialKeys_def validateLightAction_def LightActionsSet_def
      Let_def split: option.splits sum.splits)

lemma VerifyBody_needs: "fst (VerifyBody ed t1 t2 b e rv) = None \<Longrightarrow> Present e \<and> Enabled rv"
  by (simp add: VerifyBody_accept Present_def)

lemma Validate_fst:
  "fst (Validate c t1 t2 r v) = (if relay_authorised c t1 t2 r v then None else validate_modes c v r)"
  using VerifyBody_needs
  by (fastforce simp: Validate_def relay_authorised_def Let_def split: option.splits prod.splits)

lemma Validate_unauthorised_state:
  assumes "\<not> relay_authorised c t1 t2 r v"
  shows "snd (Validate c t1 t2 r v) = v"
proof (cases "val_RelayVerifier v")
  case (Some rv)
  with assms have "snd (VerifyBody (c_ed25519 c) t1 t2 (r_BodyRaw r) (r_RelaySig r) rv) = rv"
    using VerifyBody_reject_state by (simp add: relay_authorised_def)
  with Some assms show ?thesis
    by (auto simp: Validate_def relay_authorised_def Let_def split: option.splits prod.splits)
qed (simp add: Validate_def)

text \<open>C5: what \<open>Validate\<close> accepts. A request passes exactly when the relay signature verifies, or else
  when its own mode accepts it: with a signature, the HMAC of the canonical body under the
  signing key must match it; with a partial share, both shares must decrypt to the hash of the
  canonical body and XOR to the signing key's UUID; with neither, the action must be in the
  light-action list. A request that carries a signature or a share is judged by that mode only,
  so a bad one is refused even for a light action.\<close>

theorem Validate_accepts_iff:
  "fst (Validate c t1 t2 r v) = None \<longleftrightarrow> relay_authorised c t1 t2 r v \<or>
     (if r_Signature r \<noteq> [] then
        val_SigningKey v \<noteq> [] \<and> (\<exists>body. EncodeForSignature (VObj (r_Body r)) = Some body \<and>
          r_Signature r = ''v0='' @ c_hmacHex c (val_SigningKey v) (''v0:'' @ body))
      else if \<not> (r_PartialAuthA r = [] \<and> r_PartialAuthB r = []) then
        val_SigningKey v \<noteq> [] \<and> r_PartialAuthA r \<noteq> [] \<and> r_PartialAuthB r \<noteq> [] \<and>
        (\<exists>pk body keyA keyB. val_PrivateKey v = Some pk \<and> Encode (VObj (r_Body r)) = Some body \<and>
           extractPartialKey c pk (r_PartialAuthA r) (''v0='' @ c_sha256Hex c body) = Inr keyA \<and>
           extractPartialKey c pk (r_PartialAuthB r) (''v0='' @ c_sha256Hex c body) = Inr keyB \<and>
           c_uuidParse c (val_SigningKey v) = Some (keyA XOR keyB))
      else (\<exists>s. LightActionsSet v = Some s \<and> r_ActionName r \<in> set s))"
proof -
  have h: "validateHMAC c v r = None \<longleftrightarrow> val_SigningKey v \<noteq> [] \<and> (\<exists>body. EncodeForSignature (VObj (r_Body r)) = Some body \<and>
          r_Signature r = ''v0='' @ c_hmacHex c (val_SigningKey v) (''v0:'' @ body))"
    by (auto simp: validateHMAC_def Let_def split: option.splits)
  have p: "validatePartialKeys c v r = None \<longleftrightarrow> val_SigningKey v \<noteq> [] \<and> r_PartialAuthA r \<noteq> [] \<and> r_PartialAuthB r \<noteq> [] \<and>
        (\<exists>pk body keyA keyB. val_PrivateKey v = Some pk \<and> Encode (VObj (r_Body r)) = Some body \<and>
           extractPartialKey c pk (r_PartialAuthA r) (''v0='' @ c_sha256Hex c body) = Inr keyA \<and>
           extractPartialKey c pk (r_PartialAuthB r) (''v0='' @ c_sha256Hex c body) = Inr keyB \<and>
           c_uuidParse c (val_SigningKey v) = Some (keyA XOR keyB))"
    by (auto simp: validatePartialKeys_def Let_def split: option.splits sum.splits)
  have l: "validateLightAction v r = None \<longleftrightarrow> (\<exists>s. LightActionsSet v = Some s \<and> r_ActionName r \<in> set s)"
    by (auto simp: validateLightAction_def split: option.splits)
  show ?thesis unfolding Validate_fst validate_modes_def h[symmetric] p[symmetric] l[symmetric] by simp
qed

text \<open>Falling through grants nothing. When the relay signature does not verify (bad signature,
  skew, replay, or no verifier), the outcome is that of the same request without any relay
  signature, and the validator is unchanged.\<close>

lemma Validate_fall_through:
  assumes "\<not> relay_authorised c t1 t2 r v" "env_Signature none = []"
  shows "Validate c t1 t2 r v = (fst (Validate c t1 t2 (r\<lparr>r_RelaySig := none\<rparr>) v), v)"
proof -
  have "\<not> relay_authorised c t1 t2 (r\<lparr>r_RelaySig := none\<rparr>) v"
    using assms(2) by (auto simp: relay_authorised_def VerifyBody_accept split: option.splits)
  moreover have "validate_modes c v (r\<lparr>r_RelaySig := none\<rparr>) = validate_modes c v r"
    by (auto simp: validate_modes_def validateHMAC_def validatePartialKeys_def validateLightAction_def
        Let_def split: option.splits sum.splits)
  ultimately show ?thesis
    using assms(1) Validate_fst[of c t1 t2] Validate_unauthorised_state[OF assms(1)] by (metis prod.collapse)
qed

definition sample_crypto :: crypto where
  "sample_crypto = \<lparr>c_ed25519 = \<lambda>pk body sig. sig = ''Man'', c_hmacHex = \<lambda>k m. k @ m, c_sha256Hex = \<lambda>m. m,
     c_rsaOAEP = \<lambda>k ct. None, c_partialJSON = \<lambda>p. None, c_uuidParse = \<lambda>s. None\<rparr>"

definition sample_request :: "string \<Rightarrow> request" where
  "sample_request a = \<lparr>r_Body = [(''action_name'', VStr a)], r_ActionName = a, r_Signature = [], r_PartialAuthA = [],
     r_PartialAuthB = [], r_RelaySig = \<lparr>env_Signature = ''AAAA'', env_SignedAt = ''x'', env_Nonce = ''n'', env_KeyID = []\<rparr>,
     r_BodyRaw = ''{}''\<rparr>"

definition sample_validator :: validator where
  "sample_validator = \<lparr>val_SigningKey = ''k'', val_PrivateKey = None, val_LightActions = Some [''ping''],
     val_lightActionsAtomic = None, val_RelayVerifier = Some sample_verifier\<rparr>"

text \<open>The light-action list is swapped as a whole. After \<open>SetLightActions\<close> with a list, an
  unsigned request passes exactly when its action is in that list (an empty list refuses all);
  after \<open>SetLightActions(nil)\<close> the start-up list decides again.\<close>

lemma SetLightActions_decides:
  assumes "r_Signature r = []" "r_PartialAuthA r = []" "r_PartialAuthB r = []" "val_RelayVerifier v = None"
  shows "(fst (Validate c t1 t2 r (SetLightActions (Some s) v)) = None \<longleftrightarrow> r_ActionName r \<in> set s) \<and>
    (fst (Validate c t1 t2 r (SetLightActions None v)) = None \<longleftrightarrow>
       (\<exists>s0. val_LightActions v = Some s0 \<and> r_ActionName r \<in> set s0))"
  using assms
  by (auto simp: Validate_def validate_modes_def validateLightAction_def LightActionsSet_def SetLightActions_def
      split: option.splits)

text \<open>Integers break the HMAC. The signer computes the signature over its body, in which the
  timestamp is an integer; the agent decodes the same body with \<open>encoding/json\<close>, where it is a
  \<open>float64\<close>, and encodes \<open>1.7e+09\<close>. A correctly signed request is refused, under every key for
  which the HMAC does not collide on the two texts.\<close>

lemma validateHMAC_rejects_signed_timestamp:
  assumes "EncodeForSignature (VObj [(''timestamp'', VInt 1700000000)]) = Some text"
    and "r_Signature r = ''v0='' @ c_hmacHex c (val_SigningKey v) (''v0:'' @ text)"
    and "r_Body r = [(''timestamp'', VFloat (float_of_nat 1700000000))]"
    and "inj (c_hmacHex c (val_SigningKey v))" "val_SigningKey v \<noteq> []" "val_RelayVerifier v = None"
  shows "fst (Validate c t1 t2 r v) = Some SignatureMismatch"
proof -
  have "text = ''{\"timestamp\": 1700000000}''" using assms(1) encode_timestamp_int by simp
  then have "c_hmacHex c (val_SigningKey v) (''v0:'' @ ''{\"timestamp\": 1.7e+09}'') \<noteq>
      c_hmacHex c (val_SigningKey v) (''v0:'' @ text)"
    using assms(4) by (auto dest: injD)
  then have "validateHMAC c v r = Some SignatureMismatch"
    using assms(2,3,5) encode_timestamp_float by (simp add: validateHMAC_def Let_def)
  with assms(2,6) show ?thesis by (simp add: Validate_def validate_modes_def)
qed

end
