(* ===== verification/Control.thy ===== *)
theory Control
  imports Auth
begin

text \<open>
  \<open>pkg/control/refresh.go\<close>: \<open>refresh_playbook\<close>, which replaces the light-action list of the live
  validator by the one the backend serves, merged with the static actions. The HTTP exchange is
  a parameter (what \<open>http.Client.Do\<close> and \<open>io.ReadAll\<close> gave), and so is the decoding of the
  response body. The theory proves that a refresh never drops a static action and that a failed
  one changes nothing.
\<close>

record refresher =
  rf_BackendURL :: string
  rf_AuthSecretKey :: string
  rf_AccountID :: string
  rf_ClusterName :: string
  rf_Validator :: "validator option"
  rf_StaticActions :: "string list"

definition trim_right_slash :: "string \<Rightarrow> string" where
  "trim_right_slash s = rev (dropWhile (\<lambda>c. c = CHR ''/'') (rev s))"

definition New :: "string \<Rightarrow> string \<Rightarrow> string \<Rightarrow> string \<Rightarrow> validator option \<Rightarrow> refresher" where
  "New backendURL authSecret accountID cluster v =
     \<lparr>rf_BackendURL = trim_right_slash backendURL, rf_AuthSecretKey = authSecret, rf_AccountID = accountID,
      rf_ClusterName = cluster, rf_Validator = v, rf_StaticActions = []\<rparr>"

text \<open>What the exchange ended with, and the request it is made with.\<close>

datatype exchange = RequestInvalid | DoFailed | ReadFailed | Answered int string

record http_request =
  hr_URL :: string
  hr_Header :: "(string, string) gomap"

datatype refresh_err = NoValidator | BadRequest | FetchFailed | ReadError | HTTPStatus int string | BadConfig

definition refresh_request :: "refresher \<Rightarrow> http_request" where
  "refresh_request r =
     \<lparr>hr_URL = rf_BackendURL r @ ''/v1/agent/config'',
      hr_Header =
        (if rf_AuthSecretKey r \<noteq> [] then [(''Authorization'', b64_encode (rf_AuthSecretKey r))] else [])
        @ (if rf_AccountID r \<noteq> [] then [(''X-NB-Account-Id'', rf_AccountID r)] else [])
        @ (if rf_ClusterName r \<noteq> [] then [(''X-NB-Cluster'', rf_ClusterName r)] else [])\<rparr>"

definition no_source_reason :: string where
  "no_source_reason = ''no config source '' @ map char_of [0xE2, 0x80, 0x94 :: nat] @ '' NUDGEBEE_ENDPOINT not set''"

definition Refresh ::
  "(string \<Rightarrow> string list option) \<Rightarrow> (http_request \<Rightarrow> exchange) \<Rightarrow> refresher \<Rightarrow>
   (refresh_err + gmap) \<times> refresher" where
  "Refresh parseConfig http r = (case rf_Validator r of
     None \<Rightarrow> (Inl NoValidator, r)
   | Some v \<Rightarrow>
       if rf_BackendURL r = [] then
         (Inr [(''refreshed'', VBool False), (''reason'', VStr no_source_reason)], r)
       else (case http (refresh_request r) of
          RequestInvalid \<Rightarrow> (Inl BadRequest, r)
        | DoFailed \<Rightarrow> (Inl FetchFailed, r)
        | ReadFailed \<Rightarrow> (Inl ReadError, r)
        | Answered status body \<Rightarrow>
            if status \<ge> 400 then (Inl (HTTPStatus status body), r)
            else (case parseConfig body of
               None \<Rightarrow> (Inl BadConfig, r)
             | Some lightActions \<Rightarrow>
                 (let merged = remdups (rf_StaticActions r @ lightActions) in
                  (Inr [(''refreshed'', VBool True), (''action_count'', VInt (int (length merged))),
                        (''backend_count'', VInt (int (length lightActions))),
                        (''static_count'', VInt (int (length (rf_StaticActions r))))],
                   r\<lparr>rf_Validator := Some (SetLightActions (Some merged) v)\<rparr>)))))"

text \<open>The light actions a refresher's validator accepts.\<close>

definition allowed_actions :: "refresher \<Rightarrow> string set" where
  "allowed_actions r = (case rf_Validator r of
     None \<Rightarrow> {} | Some v \<Rightarrow> (case LightActionsSet v of None \<Rightarrow> {} | Some s \<Rightarrow> set s))"

text \<open>A refresh installs the backend's list merged with the static actions, or nothing. When it
  reports \<open>refreshed\<close> the accepted light actions are exactly the static ones and those of the
  response, and the reported count is their number; in every other outcome (no backend, failed
  request, error status, unparsable answer) the refresher and its validator are unchanged. So
  the static actions, once accepted, are never lost.\<close>

lemma Refresh_effect:
  "case Refresh parseConfig http r of
     (Inr res, r') \<Rightarrow>
       (if mget res ''refreshed'' = VBool True
        then (\<exists>status body acts. http (refresh_request r) = Answered status body \<and> status < 400 \<and>
                parseConfig body = Some acts \<and> allowed_actions r' = set (rf_StaticActions r) \<union> set acts \<and>
                mget res ''action_count'' = VInt (int (card (allowed_actions r'))))
        else r' = r)
   | (Inl err, r') \<Rightarrow> r' = r"
  by (auto simp: Refresh_def allowed_actions_def SetLightActions_def LightActionsSet_def Let_def length_remdups_card_conv
      split: option.splits exchange.splits)

end
