(* ===== verification/Relay.thy ===== *)
theory Relay
  imports GoTime GoValue
begin

text \<open>
  \<open>pkg/relay/client.go\<close> and \<open>types.go\<close>: the reconnect wait and the life of a WebSocket session. The
  socket, the JSON encoding of outgoing frames and the handlers are outside; a session is a
  step relation whose labels are what the socket and the goroutines do (a frame arrives, a
  handler returns, the shed worker sends a reply, the session ends). The theory proves the bounds
  of the wait and of its growth, and the invariants of the handler pool, the shed queue, the
  connection gauge and the read deadline.
\<close>

section \<open>Wire types\<close>

record response =
  resp_Action :: string
  resp_RequestID :: string
  resp_StatusCode :: int
  resp_Data :: gval
  resp_OutputType :: string

record greeting =
  gr_Action :: string
  gr_Version :: string
  gr_AgentVersion :: string
  gr_AgentCommit :: string
  gr_AgentBuildTime :: string
  gr_ProtocolVersion :: string

section \<open>Configuration\<close>

record relay_config =
  rc_ReconnectDelay :: duration
  rc_MaxReconnectDelay :: duration
  rc_WriteTimeout :: duration
  rc_PingInterval :: duration
  rc_PongWait :: duration
  rc_Greeting :: greeting
  rc_HandlerPoolSize :: int

definition NewClient_config :: "relay_config \<Rightarrow> relay_config" where
  "NewClient_config cfg = cfg\<lparr>
     rc_ReconnectDelay := (if rc_ReconnectDelay cfg = 0 then 3 * second else rc_ReconnectDelay cfg),
     rc_MaxReconnectDelay := (if rc_MaxReconnectDelay cfg = 0 then 10 * second else rc_MaxReconnectDelay cfg),
     rc_WriteTimeout := (if rc_WriteTimeout cfg = 0 then 30 * second else rc_WriteTimeout cfg),
     rc_PingInterval := (if rc_PingInterval cfg = 0 then 30 * second else rc_PingInterval cfg),
     rc_PongWait := (if rc_PongWait cfg = 0 then 90 * second else rc_PongWait cfg)\<rparr>"

section \<open>The reconnect wait\<close>

fun grow_ceiling :: "nat \<Rightarrow> duration \<Rightarrow> duration \<Rightarrow> duration" where
  "grow_ceiling 0 limit ceiling = ceiling"
| "grow_ceiling (Suc n) limit ceiling =
     (if \<not> ceiling < limit then ceiling
      else if ceiling > quot64 limit 2 then limit
      else grow_ceiling n limit (wrap64 (ceiling * 2)))"

definition reconnectWait :: "duration \<Rightarrow> duration \<Rightarrow> int \<Rightarrow> (int \<Rightarrow> int) \<Rightarrow> duration" where
  "reconnectWait base limit attempt randN =
     (let ceiling = grow_ceiling (nat attempt) limit (min base limit) in
      if ceiling \<le> 0 then 0
      else if ceiling = max_int64 then randN max_int64
      else randN (wrap64 (ceiling + 1)))"

lemma grow_ceiling_exact:
  assumes "0 < limit" "in_int64 limit" "0 < c" "c \<le> limit"
  shows "grow_ceiling n limit c = min limit (c * 2 ^ n)"
  using assms
proof (induction n arbitrary: c)
  case (Suc n)
  have h: "quot64 limit 2 = limit div 2" using Suc.prems by (simp add: quot64_nonneg)
  show ?case
  proof (cases "c < limit \<and> c \<le> limit div 2")
    case True
    then have "c * 2 \<le> limit" by linarith
    moreover from this have "wrap64 (c * 2) = c * 2" using Suc.prems by (intro wrap64_id) (auto simp: int64_defs)
    ultimately show ?thesis using True Suc.IH[of "c * 2"] Suc.prems h by (simp add: mult.assoc)
  next
    case False
    have "c * 2 ^ Suc n \<ge> c * 2" using Suc.prems by (intro mult_left_mono) auto
    moreover have "c = limit \<or> limit < c * 2" using False Suc.prems by linarith
    ultimately have "limit \<le> c * 2 ^ Suc n" using Suc.prems by linarith
    with False Suc.prems h show ?thesis by auto
  qed
qed simp

text \<open>The reconnect wait is a full jitter. With positive delays, the wait before reconnect number
  \<open>attempt\<close> lies between zero and the base delay doubled \<open>attempt\<close> times, capped at the limit;
  the random source is asked for a value below exactly that bound plus one (the doubling never
  overflows), so every value up to the bound is possible.\<close>

lemma reconnectWait_bounds:
  assumes "0 < base" "in_int64 base" "0 < limit" "in_int64 limit" "\<And>n. 0 < n \<Longrightarrow> 0 \<le> randN n \<and> randN n < n"
    and "limit < max_int64"
  shows "0 \<le> reconnectWait base limit attempt randN \<and>
    reconnectWait base limit attempt randN \<le> min limit (base * 2 ^ nat attempt) \<and>
    reconnectWait base limit attempt randN = randN (min limit (base * 2 ^ nat attempt) + 1)"
proof -
  let ?c = "min limit (base * 2 ^ nat attempt)"
  have "grow_ceiling (nat attempt) limit (min base limit) = min limit (min base limit * 2 ^ nat attempt)"
    using assms by (intro grow_ceiling_exact) auto
  also have "\<dots> = ?c"
  proof (cases "base \<le> limit")
    case False
    have "limit * 1 \<le> limit * 2 ^ nat attempt" "base * 1 \<le> base * 2 ^ nat attempt"
      using assms(1,3) by (intro mult_left_mono; simp)+
    with False show ?thesis by simp
  qed simp
  finally have g: "grow_ceiling (nat attempt) limit (min base limit) = ?c" .
  have c: "0 < ?c" "?c < max_int64" using assms(1,3,6) by auto
  then have "wrap64 (?c + 1) = ?c + 1" by (intro wrap64_id) (auto simp: int64_defs)
  moreover have "\<not> ?c \<le> 0" "?c \<noteq> max_int64" using c by linarith+
  ultimately have "reconnectWait base limit attempt randN = randN (?c + 1)"
    unfolding reconnectWait_def Let_def g by (simp only: if_False)
  with assms(5)[of "?c + 1"] c show ?thesis by auto
qed

text \<open>The attempt counter of \<open>Run\<close>: how the last session went decides whether it restarts.\<close>

definition session_held :: "relay_config \<Rightarrow> time \<Rightarrow> time \<Rightarrow> bool" where
  "session_held cfg connectedAt now \<longleftrightarrow> connectedAt \<noteq> zero_time \<and> rc_MaxReconnectDelay cfg \<le> time_sub now connectedAt"

definition Run_attempt :: "relay_config \<Rightarrow> int \<Rightarrow> time \<Rightarrow> time \<Rightarrow> (int \<Rightarrow> int) \<Rightarrow> duration \<times> int" where
  "Run_attempt cfg attempt connectedAt now randN =
     (let attempt = (if session_held cfg connectedAt now then 0 else attempt)
      in (reconnectWait (rc_ReconnectDelay cfg) (rc_MaxReconnectDelay cfg) attempt randN, wrap64 (attempt + 1)))"

section \<open>Sessions\<close>

text \<open>A message is its bytes and the \<open>request_id\<close> that decoding it gives, if it decodes.\<close>

record message =
  msg_bytes :: string
  msg_probe :: "string option"

record client =
  cl_inflight :: nat
  cl_shed :: nat
  cl_conn :: bool
  cl_queue :: "string list"
  cl_deadline :: time
  cl_connectedAt :: time

definition shedReplyQueue :: nat where "shedReplyQueue = 256"

definition client0 :: client where
  "client0 = \<lparr>cl_inflight = 0, cl_shed = 0, cl_conn = False, cl_queue = [], cl_deadline = zero_time,
     cl_connectedAt = zero_time\<rparr>"

definition enqueueShedReply :: "message \<Rightarrow> string list \<Rightarrow> string list" where
  "enqueueShedReply msg q = (case msg_probe msg of
     None \<Rightarrow> q
   | Some rid \<Rightarrow> if rid = [] then q else if length q < shedReplyQueue then q @ [rid] else q)"

definition shed_reply :: "string \<Rightarrow> response" where
  "shed_reply rid = \<lparr>resp_Action = ''response'', resp_RequestID = rid, resp_StatusCode = 503,
     resp_Data = VObj [(''error'', VStr ''agent overloaded'')], resp_OutputType = ''actions''\<rparr>"

definition resetDeadline :: "relay_config \<Rightarrow> time \<Rightarrow> client \<Rightarrow> client" where
  "resetDeadline cfg now c = c\<lparr>cl_deadline := time_add now (rc_PongWait cfg)\<rparr>"

text \<open>The read loop on one message: start a handler, or shed when the pool is full. The counter is
  a \<open>uint64\<close>.\<close>

definition on_message :: "relay_config \<Rightarrow> time \<Rightarrow> message \<Rightarrow> client \<Rightarrow> bool \<times> client" where
  "on_message cfg now msg c =
     (let c = resetDeadline cfg now c in
      if rc_HandlerPoolSize cfg \<le> 0 then (True, c\<lparr>cl_inflight := cl_inflight c + 1\<rparr>)
      else if int (cl_inflight c) < rc_HandlerPoolSize cfg then (True, c\<lparr>cl_inflight := cl_inflight c + 1\<rparr>)
      else (False, c\<lparr>cl_shed := (cl_shed c + 1) mod 2 ^ 64, cl_queue := enqueueShedReply msg (cl_queue c)\<rparr>))"

definition connect :: "relay_config \<Rightarrow> time \<Rightarrow> client \<Rightarrow> client" where
  "connect cfg now c = (resetDeadline cfg now c)\<lparr>cl_conn := True, cl_queue := [], cl_connectedAt := now\<rparr>"

definition disconnect :: "client \<Rightarrow> client" where
  "disconnect c = c\<lparr>cl_conn := False, cl_queue := []\<rparr>"

datatype label = LConnect time | LFrame time | LMessage time message bool | LHandlerDone
  | LShedReply response | LEnd

text \<open>
  Frames are read only before the deadline: after it \<open>ReadMessage\<close> fails and the session ends,
  which it can also do at any other time (read error, cancelled context, failed write). A
  handler may outlive the session that started it.
\<close>

inductive client_step :: "relay_config \<Rightarrow> client \<Rightarrow> label \<Rightarrow> client \<Rightarrow> bool" for cfg where
  step_connect: "\<not> cl_conn c \<Longrightarrow> client_step cfg c (LConnect now) (connect cfg now c)"
| step_frame: "cl_conn c \<Longrightarrow> now < cl_deadline c \<Longrightarrow> client_step cfg c (LFrame now) (resetDeadline cfg now c)"
| step_message: "cl_conn c \<Longrightarrow> now < cl_deadline c \<Longrightarrow> on_message cfg now msg c = (handled, c') \<Longrightarrow>
    client_step cfg c (LMessage now msg handled) c'"
| step_done: "0 < cl_inflight c \<Longrightarrow> client_step cfg c LHandlerDone (c\<lparr>cl_inflight := cl_inflight c - 1\<rparr>)"
| step_reply: "cl_conn c \<Longrightarrow> cl_queue c = rid # q \<Longrightarrow>
    client_step cfg c (LShedReply (shed_reply rid)) (c\<lparr>cl_queue := q\<rparr>)"
| step_end: "cl_conn c \<Longrightarrow> client_step cfg c LEnd (disconnect c)"

inductive client_run :: "relay_config \<Rightarrow> label list \<Rightarrow> client \<Rightarrow> bool" for cfg where
  run_init: "client_run cfg [] client0"
| run_step: "client_run cfg ls c \<Longrightarrow> client_step cfg c l c' \<Longrightarrow> client_run cfg (ls @ [l]) c'"

inductive_cases client_stepE: "client_step cfg c l c'"

section \<open>Invariants of a run\<close>

definition count :: "(label \<Rightarrow> bool) \<Rightarrow> label list \<Rightarrow> nat" where
  "count P ls = length (filter P ls)"

fun is_start :: "label \<Rightarrow> bool" where
  "is_start (LMessage _ _ True) = True" | "is_start _ = False"

fun is_shed :: "label \<Rightarrow> bool" where
  "is_shed (LMessage _ _ False) = True" | "is_shed _ = False"

fun is_connect :: "label \<Rightarrow> bool" where
  "is_connect (LConnect _) = True" | "is_connect _ = False"

fun shed_id :: "label \<Rightarrow> string list" where
  "shed_id (LMessage _ msg False) = (case msg_probe msg of None \<Rightarrow> [] | Some rid \<Rightarrow> [rid])"
| "shed_id _ = []"

fun reply_id :: "label \<Rightarrow> string list" where
  "reply_id (LShedReply r) = [resp_RequestID r]" | "reply_id _ = []"

fun activity :: "label \<Rightarrow> time option" where
  "activity (LConnect t) = Some t" | "activity (LFrame t) = Some t" | "activity (LMessage t _ _) = Some t"
| "activity _ = None"

definition last_activity :: "label list \<Rightarrow> time option" where
  "last_activity ls = foldl (\<lambda>a l. case activity l of None \<Rightarrow> a | Some t \<Rightarrow> Some t) None ls"

definition client_inv :: "relay_config \<Rightarrow> label list \<Rightarrow> client \<Rightarrow> bool" where
  "client_inv cfg ls c \<longleftrightarrow>
     cl_inflight c + count (\<lambda>l. l = LHandlerDone) ls = count is_start ls \<and>
     (0 < rc_HandlerPoolSize cfg \<longrightarrow> int (cl_inflight c) \<le> rc_HandlerPoolSize cfg) \<and>
     cl_shed c = count is_shed ls mod 2 ^ 64 \<and>
     length (cl_queue c) \<le> shedReplyQueue \<and>
     set (cl_queue c) \<union> set (concat (map reply_id ls)) \<subseteq> set (concat (map shed_id ls)) - {[]} \<and>
     count is_connect ls = count (\<lambda>l. l = LEnd) ls + (if cl_conn c then 1 else 0) \<and>
     (cl_conn c \<longrightarrow> last_activity ls = Some (cl_deadline c - rc_PongWait cfg))"

lemma count_snoc [simp]: "count P (ls @ [l]) = count P ls + (if P l then 1 else 0)"
  by (simp add: count_def)

lemma last_activity_snoc [simp]:
  "last_activity (ls @ [l]) = (case activity l of None \<Rightarrow> last_activity ls | Some t \<Rightarrow> Some t)"
  by (simp add: last_activity_def split: option.splits)

lemma client_inv_step:
  assumes "client_inv cfg ls c" "client_step cfg c l c'"
  shows "client_inv cfg (ls @ [l]) c'"
  using assms(2)
proof (cases rule: client_step.cases)
  case (step_message now msg handled)
  with assms(1) show ?thesis
    by (auto simp: client_inv_def on_message_def Let_def resetDeadline_def enqueueShedReply_def mod_Suc_eq time_add_def
        split: if_splits option.splits)
qed (use assms(1) in \<open>auto simp: client_inv_def connect_def disconnect_def resetDeadline_def time_add_def shed_reply_def\<close>)

lemma client_inv_run: "client_run cfg ls c \<Longrightarrow> client_inv cfg ls c"
  by (induction rule: client_run.induct)
    (simp add: client_inv_def client0_def count_def last_activity_def, rule client_inv_step)

lemma client_run_prefix: "client_run cfg (ls @ [l]) c' \<Longrightarrow> \<exists>c. client_run cfg ls c \<and> client_step cfg c l c'"
  by (cases rule: client_run.cases) auto


definition sample_cfg :: relay_config where
  "sample_cfg = NewClient_config \<lparr>rc_ReconnectDelay = 0, rc_MaxReconnectDelay = 0, rc_WriteTimeout = 0,
     rc_PingInterval = 0, rc_PongWait = 0,
     rc_Greeting = \<lparr>gr_Action = ''auth'', gr_Version = [], gr_AgentVersion = [], gr_AgentCommit = [],
       gr_AgentBuildTime = [], gr_ProtocolVersion = []\<rparr>, rc_HandlerPoolSize = 1\<rparr>"

definition sample_msg :: message where
  "sample_msg = \<lparr>msg_bytes = ''{}'', msg_probe = Some ''r1''\<rparr>"

lemmas sample_run_defs = sample_cfg_def sample_msg_def NewClient_config_def connect_def on_message_def resetDeadline_def
  client0_def enqueueShedReply_def shedReplyQueue_def Let_def time_add_def int64_defs

lemma sample_run:
  "\<exists>c :: client. client_run sample_cfg [LConnect second, LMessage (2 * second) sample_msg True,
     LMessage (3 * second) sample_msg False, LShedReply (shed_reply ''r1'')] c \<and> cl_shed c = 1"
proof -
  let ?c1 = "connect sample_cfg second client0"
  let ?c2 = "snd (on_message sample_cfg (2 * second) sample_msg ?c1)"
  let ?c3 = "snd (on_message sample_cfg (3 * second) sample_msg ?c2)"
  have r1: "client_run sample_cfg [LConnect second] ?c1"
    using run_step[OF run_init step_connect[where c = client0 and now = second]] by (simp add: client0_def)
  have "on_message sample_cfg (2 * second) sample_msg ?c1 = (True, ?c2)" "cl_conn ?c1" "2 * second < cl_deadline ?c1"
    by (simp_all add: sample_run_defs)
  from run_step[OF r1 step_message[OF this(2,3,1)]]
  have r2: "client_run sample_cfg [LConnect second, LMessage (2 * second) sample_msg True] ?c2" by simp
  have "on_message sample_cfg (3 * second) sample_msg ?c2 = (False, ?c3)" "cl_conn ?c2" "3 * second < cl_deadline ?c2"
    by (simp_all add: sample_run_defs)
  from run_step[OF r2 step_message[OF this(2,3,1)]]
  have r3: "client_run sample_cfg [LConnect second, LMessage (2 * second) sample_msg True,
      LMessage (3 * second) sample_msg False] ?c3" by simp
  have "cl_queue ?c3 = [''r1'']" "cl_conn ?c3" "cl_shed ?c3 = 1" by (simp_all add: sample_run_defs)
  with run_step[OF r3 step_reply[OF this(2,1)]] show ?thesis
    by (intro exI[of _ "?c3\<lparr>cl_queue := []\<rparr>"]) simp
qed


text \<open>A dead connection is noticed. In every run, a frame or message is read only while a session
  is open and less than \<open>PongWait\<close> after the previous one (or after the connect): a session that
  receives nothing for \<open>PongWait\<close> has no step left but to end.\<close>

lemma client_read_deadline:
  assumes "client_run cfg (ls @ [l]) c'" "l = LFrame t \<or> l = LMessage t msg handled"
  shows "\<exists>prev. last_activity ls = Some prev \<and> t < prev + rc_PongWait cfg"
proof -
  obtain c where c: "client_run cfg ls c" "client_step cfg c l c'" using client_run_prefix[OF assms(1)] by blast
  have "cl_conn c" "t < cl_deadline c" using c(2) assms(2) by (auto elim: client_step.cases)
  with client_inv_run[OF c(1)] show ?thesis by (auto simp: client_inv_def)
qed

end
