(* ===== verification/Dispatch.thy ===== *)
theory Dispatch
  imports Auth Relay
begin

text \<open>
  \<open>pkg/dispatch/dispatch.go\<close>: routing of an inbound message, the authentication of an action
  request, the pools and deadlines, and the answer. A message is what the scanner of
  \<open>encoding/json\<close> finds in its bytes: the members of the object in order, repeated keys
  included, each with its raw text and its decoded value; the decoding into the code's structs
  is modelled member by member. Handlers, the pod-shell and the HTTP proxy are parameters of the
  dispatcher. The theory proves that no action runs unless it is authenticated and registered,
  and how every request is answered.
\<close>

section \<open>Decoding\<close>

text \<open>
  \<open>MBad\<close> is a message that is not JSON, or is JSON but neither an object nor null: \<open>Unmarshal\<close>
  reports an error and the struct keeps its zero value. A null is accepted and sets nothing.
\<close>

record json_member =
  jm_key :: string
  jm_raw :: string
  jm_val :: gval

datatype json_msg = MBad | MNull | MObj "json_member list"

fun members :: "json_msg \<Rightarrow> json_member list" where
  "members (MObj ms) = ms" | "members _ = []"

definition members_of :: "string \<Rightarrow> json_msg \<Rightarrow> json_member list" where
  "members_of k m = filter (\<lambda>x. equal_fold (jm_key x) k) (members m)"

text \<open>A string field: a string sets it, null leaves it, anything else is an error and leaves it.\<close>

definition dec_string :: "json_msg \<Rightarrow> string \<Rightarrow> string" where
  "dec_string m k = foldl (\<lambda>a x. case jm_val x of VStr s \<Rightarrow> s | _ \<Rightarrow> a) [] (members_of k m)"

definition string_ok :: "gval \<Rightarrow> bool" where
  "string_ok v = (case v of VStr _ \<Rightarrow> True | VNil \<Rightarrow> True | _ \<Rightarrow> False)"

definition dec_string_ok :: "json_msg \<Rightarrow> string \<Rightarrow> bool" where
  "dec_string_ok m k = list_all (\<lambda>x. string_ok (jm_val x)) (members_of k m)"

text \<open>A field of type \<open>map[string]any\<close>: an object is added to the map there is, null makes it nil.\<close>

definition dec_map_step :: "gmap option \<Rightarrow> gval \<Rightarrow> gmap option" where
  "dec_map_step a v = (case v of
     VObj ps \<Rightarrow> Some (foldl (\<lambda>m p. map_put (fst p) (snd p) m) (case a of None \<Rightarrow> [] | Some m \<Rightarrow> m) ps)
   | VNil \<Rightarrow> None
   | _ \<Rightarrow> a)"

definition dec_map :: "json_msg \<Rightarrow> string \<Rightarrow> gmap option" where
  "dec_map m k = foldl (\<lambda>a x. dec_map_step a (jm_val x)) None (members_of k m)"

definition map_ok :: "gval \<Rightarrow> bool" where
  "map_ok v = (case v of VObj _ \<Rightarrow> True | VNil \<Rightarrow> True | _ \<Rightarrow> False)"

definition dec_map_ok :: "json_msg \<Rightarrow> string \<Rightarrow> bool" where
  "dec_map_ok m k = list_all (\<lambda>x. map_ok (jm_val x)) (members_of k m)"

text \<open>A \<open>json.RawMessage\<close> holds the text of the last member; behind a pointer null gives nil.\<close>

definition dec_raw :: "json_msg \<Rightarrow> string \<Rightarrow> string" where
  "dec_raw m k = foldl (\<lambda>a x. jm_raw x) [] (members_of k m)"

definition dec_raw_ptr :: "json_msg \<Rightarrow> string \<Rightarrow> string option" where
  "dec_raw_ptr m k = foldl (\<lambda>a x. if jm_val x = VNil then None else Some (jm_raw x)) None (members_of k m)"

text \<open>An \<open>int\<close> field: the literal must be an integer of 64 bits.\<close>

definition int_literal :: "string \<Rightarrow> int option" where
  "int_literal s =
     (let neg = (s \<noteq> [] \<and> hd s = CHR ''-''); ds = (if neg then tl s else s);
          x = (if neg then - int (dec_val ds) else int (dec_val ds))
      in if ds \<noteq> [] \<and> list_all is_digit ds \<and> in_int64 x then Some x else None)"

definition dec_int :: "json_msg \<Rightarrow> string \<Rightarrow> int" where
  "dec_int m k = foldl (\<lambda>a x. case jm_val x of
     VFloat _ \<Rightarrow> (case int_literal (jm_raw x) of Some n \<Rightarrow> n | None \<Rightarrow> a) | _ \<Rightarrow> a) 0 (members_of k m)"

definition dec_int_ok :: "json_msg \<Rightarrow> string \<Rightarrow> bool" where
  "dec_int_ok m k = list_all (\<lambda>x. case jm_val x of
     VFloat _ \<Rightarrow> int_literal (jm_raw x) \<noteq> None | VNil \<Rightarrow> True | _ \<Rightarrow> False) (members_of k m)"

text \<open>A field of type \<open>map[string][]string\<close>.\<close>

type_synonym header = "(string, string list) gomap"

definition header_list :: "gval \<Rightarrow> string list" where
  "header_list v = map as_str (as_arr v)"

definition header_list_ok :: "gval \<Rightarrow> bool" where
  "header_list_ok v = (case v of VArr xs \<Rightarrow> list_all string_ok xs | VNil \<Rightarrow> True | _ \<Rightarrow> False)"

definition dec_header :: "json_msg \<Rightarrow> string \<Rightarrow> header" where
  "dec_header m k = map (\<lambda>p. (fst p, header_list (snd p))) (case dec_map m k of None \<Rightarrow> [] | Some ps \<Rightarrow> ps)"

definition dec_header_ok :: "json_msg \<Rightarrow> string \<Rightarrow> bool" where
  "dec_header_ok m k = list_all (\<lambda>x. case jm_val x of
     VObj ps \<Rightarrow> list_all (\<lambda>p. header_list_ok (snd p)) ps | VNil \<Rightarrow> True | _ \<Rightarrow> False) (members_of k m)"

section \<open>Requests and configuration\<close>

record terminal_request =
  tr_Action :: string
  tr_SessionID :: string
  tr_Name :: string
  tr_Namespace :: string
  tr_Command :: string
  tr_RequestID :: string
  tr_Container :: string

record grafana_request =
  gq_Method :: string
  gq_URL :: string
  gq_ContentLength :: int
  gq_Body :: string
  gq_Header :: header

definition unmarshal_terminal :: "json_msg \<Rightarrow> terminal_request option" where
  "unmarshal_terminal m =
     (if m \<noteq> MBad \<and> list_all (dec_string_ok m)
           [''action'', ''session_id'', ''name'', ''namespace'', ''command'', ''request_id'', ''container'']
      then Some \<lparr>tr_Action = dec_string m ''action'', tr_SessionID = dec_string m ''session_id'',
        tr_Name = dec_string m ''name'', tr_Namespace = dec_string m ''namespace'',
        tr_Command = dec_string m ''command'', tr_RequestID = dec_string m ''request_id'',
        tr_Container = dec_string m ''container''\<rparr>
      else None)"

definition unmarshal_grafana :: "json_msg \<Rightarrow> grafana_request option" where
  "unmarshal_grafana m =
     (if m \<noteq> MBad \<and> list_all (dec_string_ok m) [''method'', ''url'', ''body''] \<and> dec_int_ok m ''content_length'' \<and>
         dec_header_ok m ''header''
      then Some \<lparr>gq_Method = dec_string m ''method'', gq_URL = dec_string m ''url'',
        gq_ContentLength = dec_int m ''content_length'', gq_Body = dec_string m ''body'',
        gq_Header = dec_header m ''header''\<rparr>
      else None)"

definition unmarshal_action_ok :: "json_msg \<Rightarrow> bool" where
  "unmarshal_action_ok m \<longleftrightarrow> m \<noteq> MBad \<and> dec_map_ok m ''body'' \<and> list_all (dec_string_ok m)
     [''signature'', ''partial_auth_a'', ''partial_auth_b'', ''request_id'', ''relay_signature'',
      ''relay_signed_at'', ''relay_nonce'', ''relay_key_id'']"

record dispatch_config =
  dc_NormalPoolSize :: int
  dc_HighPriorityPoolSize :: int
  dc_TaskTimeout :: duration
  dc_LongTaskTimeout :: duration
  dc_LongActions :: "string list"

text \<open>
  A handler's result: data, an error, or an error that wraps \<open>context.DeadlineExceeded\<close>. A
  handler is a function of the parameters it is given; its effects on the cluster are its own.
\<close>

datatype outcome = HOk gval | HErr string | HDeadline string

type_synonym handler = "gmap option \<Rightarrow> outcome"

record grafana_handler =
  gh_HandleGrafana :: "grafana_request \<Rightarrow> gval"
  gh_HandleAPI :: "string \<Rightarrow> grafana_request \<Rightarrow> gval"
  gh_HandlePrometheus :: "grafana_request \<Rightarrow> gval"

text \<open>\<open>d_marshal\<close> is \<open>json.Marshal\<close> on the results of the two proxy handlers, which are Go values of
  their own types; \<open>d_crypto\<close> holds the primitives of the validator and \<open>d_errText\<close> is \<open>Error()\<close> of its
  errors, some of which wrap library errors.\<close>

record dispatcher =
  d_cfg :: dispatch_config
  d_auth :: "validator option"
  d_handlers :: "(string, handler) gomap"
  d_metrics :: bool
  d_terminal :: "(terminal_request \<Rightarrow> gval \<times> int) option"
  d_grafana :: "grafana_handler option"
  d_normal :: int
  d_high :: int
  d_marshal :: "gval \<Rightarrow> string option"
  d_crypto :: crypto
  d_errText :: "auth_err \<Rightarrow> string"

definition NewDispatcher ::
  "dispatch_config \<Rightarrow> validator option \<Rightarrow> (string, handler) gomap \<Rightarrow> (gval \<Rightarrow> string option) \<Rightarrow> crypto \<Rightarrow>
   (auth_err \<Rightarrow> string) \<Rightarrow> dispatcher" where
  "NewDispatcher cfg v handlers marshal c errText =
     (let cfg = cfg\<lparr>
        dc_NormalPoolSize := (if dc_NormalPoolSize cfg \<le> 0 then 10 else dc_NormalPoolSize cfg),
        dc_HighPriorityPoolSize := (if dc_HighPriorityPoolSize cfg \<le> 0 then 3 else dc_HighPriorityPoolSize cfg),
        dc_TaskTimeout := (if dc_TaskTimeout cfg \<le> 0 then 180 * second else dc_TaskTimeout cfg)\<rparr>
      in \<lparr>d_cfg = cfg, d_auth = v, d_handlers = handlers, d_metrics = False, d_terminal = None, d_grafana = None,
          d_normal = dc_NormalPoolSize cfg, d_high = dc_HighPriorityPoolSize cfg, d_marshal = marshal, d_crypto = c,
          d_errText = errText\<rparr>)"

definition SetTerminal :: "(terminal_request \<Rightarrow> gval \<times> int) \<Rightarrow> dispatcher \<Rightarrow> dispatcher" where
  "SetTerminal h d = d\<lparr>d_terminal := Some h\<rparr>"

definition SetGrafana :: "grafana_handler \<Rightarrow> dispatcher \<Rightarrow> dispatcher" where
  "SetGrafana h d = d\<lparr>d_grafana := Some h\<rparr>"

definition SetMetrics :: "dispatcher \<Rightarrow> dispatcher" where
  "SetMetrics d = d\<lparr>d_metrics := True\<rparr>"

section \<open>Answers\<close>

text \<open>What a call does to the world: the handlers it runs with their parameters, the responses it
  hands to the relay, the metrics it bumps. Failed writes are only logged.\<close>

datatype call = RunAction string "gmap option" duration | RunTerminal terminal_request
  | RunGrafana grafana_request | RunAPI string grafana_request | RunPrometheus grafana_request

datatype metric = OnActionDuration string | OnAction string string

record effects =
  ef_calls :: "call list"
  ef_responses :: "response list"
  ef_metrics :: "metric list"

definition no_effect :: effects where
  "no_effect = \<lparr>ef_calls = [], ef_responses = [], ef_metrics = []\<rparr>"

definition respond :: "string \<Rightarrow> int \<Rightarrow> gval \<Rightarrow> response list" where
  "respond requestID status data =
     (if requestID = [] then []
      else [\<lparr>resp_Action = ''response'', resp_RequestID = requestID, resp_StatusCode = status, resp_Data = data,
             resp_OutputType = ''actions''\<rparr>])"

definition sendErr :: "string \<Rightarrow> int \<Rightarrow> string \<Rightarrow> response list" where
  "sendErr requestID status msg =
     (if requestID = [] then []
      else [\<lparr>resp_Action = ''response'', resp_RequestID = requestID, resp_StatusCode = status, resp_Data = VStr msg,
             resp_OutputType = []\<rparr>])"

definition respondString :: "dispatcher \<Rightarrow> string \<Rightarrow> int \<Rightarrow> gval \<Rightarrow> string \<Rightarrow> response list" where
  "respondString d requestID status data outputType =
     (if requestID = [] then []
      else case d_marshal d data of
        None \<Rightarrow> []
      | Some encoded \<Rightarrow> [\<lparr>resp_Action = ''response'', resp_RequestID = requestID, resp_StatusCode = status,
          resp_Data = VStr encoded, resp_OutputType = outputType\<rparr>])"

abbreviation err_map :: "string \<Rightarrow> gval" where
  "err_map s \<equiv> VObj [(''error'', VStr s)]"

definition isHighPriority :: "gmap option \<Rightarrow> bool" where
  "isHighPriority params = (case params of None \<Rightarrow> False | Some m \<Rightarrow> as_bool (mget m ''high_priority''))"

fun isJSONObject_scan :: "string \<Rightarrow> bool" where
  "isJSONObject_scan [] = False"
| "isJSONObject_scan (b # bs) =
     (if b \<in> {CHR '' '', CHR 0x09, CHR 0x0D, CHR 0x0A} then isJSONObject_scan bs else b = CHR ''{'')"

definition isJSONObject :: "string option \<Rightarrow> bool" where
  "isJSONObject raw = (case raw of None \<Rightarrow> False | Some s \<Rightarrow> isJSONObject_scan s)"

fun firstHeader :: "header \<Rightarrow> string \<Rightarrow> string" where
  "firstHeader [] key = []"
| "firstHeader ((k, v) # h) key = (if equal_fold k key \<and> 0 < length v then hd v else firstHeader h key)"

section \<open>The proxy flows\<close>

definition handleTerminal :: "dispatcher \<Rightarrow> json_msg \<Rightarrow> effects" where
  "handleTerminal d m = (case unmarshal_terminal m of
     None \<Rightarrow> no_effect
   | Some req \<Rightarrow> (case d_terminal d of
        None \<Rightarrow> no_effect\<lparr>ef_responses :=
          respondString d (tr_RequestID req) 501 (err_map ''pod_shell not enabled on this agent'') ''Terminal''\<rparr>
      | Some h \<Rightarrow> (case h req of (resp, status) \<Rightarrow>
          no_effect\<lparr>ef_calls := [RunTerminal req],
            ef_responses := respondString d (tr_RequestID req) status resp ''Terminal''\<rparr>)))"

definition handleGrafana :: "dispatcher \<Rightarrow> json_msg \<Rightarrow> effects" where
  "handleGrafana d m = (case unmarshal_grafana m of
     None \<Rightarrow> no_effect
   | Some req \<Rightarrow>
       (let requestID = firstHeader (gq_Header req) ''X-Nb-Request-Id'';
            t = firstHeader (gq_Header req) ''X-NB-Request-Type'';
            requestType = (if t = [] then ''Grafana'' else t)
        in case d_grafana d of
             None \<Rightarrow> no_effect\<lparr>ef_responses :=
               respondString d requestID 501 (err_map ''grafana proxy not enabled on this agent'') ''Grafana''\<rparr>
           | Some g \<Rightarrow>
               (let (call, resp) =
                  (if requestType = ''APIProxy'' then
                     (let base = firstHeader (gq_Header req) ''X-API-Base-URL''
                      in (RunAPI base req, gh_HandleAPI g base req))
                   else if requestType = ''Prometheus'' then (RunPrometheus req, gh_HandlePrometheus g req)
                   else (RunGrafana req, gh_HandleGrafana g req))
                in no_effect\<lparr>ef_calls := [call], ef_responses := respondString d requestID 200 resp ''Grafana''\<rparr>)))"

section \<open>The action flow\<close>

datatype acquire = Acquired | AcquireCanceled | AcquireExpired

text \<open>What the surroundings of one call decide: the two clock readings of the signature check, and
  how waiting for a pool slot ends (a slot, the session is cancelled, the deadline passes).\<close>

record environment =
  en_t1 :: time
  en_t2 :: time
  en_acquire :: acquire

datatype route = ActionFlow | GrafanaFlow | TerminalFlow

definition route :: "json_msg \<Rightarrow> route" where
  "route m =
     (if isJSONObject (dec_raw_ptr m ''body'') then ActionFlow
      else if dec_string m ''method'' \<noteq> [] \<and> dec_string m ''url'' \<noteq> [] then GrafanaFlow
      else if dec_string m ''action'' \<in> {''start'', ''exec'', ''read'', ''close''} then TerminalFlow
      else ActionFlow)"

definition action_name :: "json_msg \<Rightarrow> string" where
  "action_name m = oget_str (dec_map m ''body'') ''action_name''"

definition action_params :: "json_msg \<Rightarrow> gmap option" where
  "action_params m = oget_map (dec_map m ''body'') ''action_params''"

definition auth_request :: "json_msg \<Rightarrow> request" where
  "auth_request m =
     \<lparr>r_Body = (case dec_map m ''body'' of None \<Rightarrow> [] | Some b \<Rightarrow> b), r_ActionName = action_name m,
      r_Signature = dec_string m ''signature'', r_PartialAuthA = dec_string m ''partial_auth_a'',
      r_PartialAuthB = dec_string m ''partial_auth_b'',
      r_RelaySig = \<lparr>env_Signature = dec_string m ''relay_signature'', env_SignedAt = dec_string m ''relay_signed_at'',
        env_Nonce = dec_string m ''relay_nonce'', env_KeyID = dec_string m ''relay_key_id''\<rparr>,
      r_BodyRaw = dec_raw m ''body''\<rparr>"

definition authenticate :: "dispatcher \<Rightarrow> environment \<Rightarrow> json_msg \<Rightarrow> auth_err option \<times> validator option" where
  "authenticate d e m = (case d_auth d of
     None \<Rightarrow> (None, None)
   | Some v \<Rightarrow> (case Validate (d_crypto d) (en_t1 e) (en_t2 e) (auth_request m) v of (err, v') \<Rightarrow> (err, Some v')))"

definition action_metrics :: "dispatcher \<Rightarrow> string \<Rightarrow> string \<Rightarrow> metric list" where
  "action_metrics d name status = (if d_metrics d then [OnActionDuration name, OnAction name status] else [])"

definition finish :: "dispatcher \<Rightarrow> string \<Rightarrow> string \<Rightarrow> outcome \<Rightarrow> response list \<times> metric list" where
  "finish d requestID name res = (case res of
     HDeadline _ \<Rightarrow> (respond requestID 504 (err_map ''task timeout''), action_metrics d name ''timeout'')
   | HErr err \<Rightarrow> (respond requestID 500 (err_map err), action_metrics d name ''error'')
   | HOk data \<Rightarrow> (respond requestID 200 data, action_metrics d name ''ok''))"

definition run_action :: "dispatcher \<Rightarrow> environment \<Rightarrow> json_msg \<Rightarrow> effects" where
  "run_action d e m =
     (let name = action_name m; rid = dec_string m ''request_id'' in
      case map_of (d_handlers d) name of
        None \<Rightarrow> no_effect\<lparr>ef_responses := respond rid 404 (err_map (''action not registered: '' @ name))\<rparr>
      | Some handler \<Rightarrow>
          (let params = action_params m in
           case en_acquire e of
             AcquireCanceled \<Rightarrow> no_effect
           | AcquireExpired \<Rightarrow> no_effect\<lparr>ef_responses := respond rid 503 (err_map ''agent overloaded'')\<rparr>
           | Acquired \<Rightarrow>
               (case finish d rid name (handler params) of (resps, mets) \<Rightarrow>
                  \<lparr>ef_calls = [RunAction name params (dc_TaskTimeout (d_cfg d))], ef_responses = resps,
                   ef_metrics = mets\<rparr>)))"

definition Handle :: "environment \<Rightarrow> json_msg \<Rightarrow> dispatcher \<Rightarrow> effects \<times> dispatcher" where
  "Handle e m d = (case route m of
     GrafanaFlow \<Rightarrow> (handleGrafana d m, d)
   | TerminalFlow \<Rightarrow> (handleTerminal d m, d)
   | ActionFlow \<Rightarrow>
       if \<not> unmarshal_action_ok m then
         (no_effect\<lparr>ef_responses := sendErr (dec_string m ''request_id'') 400 ''malformed request envelope''\<rparr>, d)
       else (case authenticate d e m of
          (Some err, v') \<Rightarrow>
            (no_effect\<lparr>ef_responses := respond (dec_string m ''request_id'') 401 (err_map (d_errText d err))\<rparr>,
             d\<lparr>d_auth := v'\<rparr>)
        | (None, v') \<Rightarrow> (run_action d e m, d\<lparr>d_auth := v'\<rparr>)))"

text \<open>The pool a request waits for.\<close>

definition pool_size :: "dispatcher \<Rightarrow> bool \<Rightarrow> int" where
  "pool_size d highPriority = (if highPriority then d_high d else d_normal d)"

text \<open>The trusted entry used by the task poller: no authentication, its own deadline, and the result
  handed back instead of answered.\<close>

definition task_timeout :: "dispatcher \<Rightarrow> string \<Rightarrow> duration" where
  "task_timeout d name =
     (if 0 < dc_LongTaskTimeout (d_cfg d) \<and> name \<in> set (dc_LongActions (d_cfg d)) then dc_LongTaskTimeout (d_cfg d)
      else dc_TaskTimeout (d_cfg d))"

datatype trusted_err = PoolAcquire | HandlerFailed string

definition HandleTrusted ::
  "acquire \<Rightarrow> string \<Rightarrow> gmap option \<Rightarrow> dispatcher \<Rightarrow> (gval option \<times> bool \<times> trusted_err option) \<times> effects" where
  "HandleTrusted acq name params d = (case map_of (d_handlers d) name of
     None \<Rightarrow> ((None, False, None), no_effect)
   | Some handler \<Rightarrow>
       if acq \<noteq> Acquired then ((None, True, Some PoolAcquire), no_effect)
       else
         (let ran = no_effect\<lparr>ef_calls := [RunAction name params (task_timeout d name)]\<rparr> in
          case handler params of
            HDeadline err \<Rightarrow> ((None, True, Some (HandlerFailed err)), ran\<lparr>ef_metrics := action_metrics d name ''timeout''\<rparr>)
          | HErr err \<Rightarrow> ((None, True, Some (HandlerFailed err)), ran\<lparr>ef_metrics := action_metrics d name ''error''\<rparr>)
          | HOk data \<Rightarrow> ((Some data, True, None), ran\<lparr>ef_metrics := action_metrics d name ''ok''\<rparr>)))"

section \<open>What runs and what is answered\<close>

lemmas effect_defs = no_effect_def respond_def sendErr_def respondString_def

lemma proxy_calls_no_action:
  "RunAction n p t \<notin> set (ef_calls (handleTerminal d m))" "RunAction n p t \<notin> set (ef_calls (handleGrafana d m))"
  by (auto simp: handleTerminal_def handleGrafana_def no_effect_def Let_def split: option.splits prod.splits if_splits)

lemma Handle_action:
  assumes "route m = ActionFlow" "unmarshal_action_ok m"
  shows "fst (Handle e m d) = (case fst (authenticate d e m) of
      Some err \<Rightarrow> no_effect\<lparr>ef_responses := respond (dec_string m ''request_id'') 401 (err_map (d_errText d err))\<rparr>
    | None \<Rightarrow> run_action d e m)"
  using assms by (auto simp: Handle_def split: prod.splits option.splits)

lemma run_action_calls:
  "c \<in> set (ef_calls (run_action d e m)) \<longleftrightarrow>
     map_of (d_handlers d) (action_name m) \<noteq> None \<and> en_acquire e = Acquired \<and>
     c = RunAction (action_name m) (action_params m) (dc_TaskTimeout (d_cfg d))"
  by (auto simp: run_action_def no_effect_def Let_def split: option.splits acquire.splits prod.splits)

text \<open>A dispatcher and messages for the witnesses: the action \<open>ping\<close> is light, \<open>drop\<close> is not.\<close>

definition member :: "string \<Rightarrow> gval \<Rightarrow> string \<Rightarrow> json_member" where
  "member k v raw = \<lparr>jm_key = k, jm_raw = raw, jm_val = v\<rparr>"

definition action_msg :: "string \<Rightarrow> string \<Rightarrow> json_msg" where
  "action_msg rid name = MObj [member ''body'' (VObj [(''action_name'', VStr name)]) ''{}'',
     member ''request_id'' (VStr rid) ''x'']"

definition sample_dispatcher :: dispatcher where
  "sample_dispatcher = NewDispatcher
     \<lparr>dc_NormalPoolSize = 0, dc_HighPriorityPoolSize = 0, dc_TaskTimeout = 0, dc_LongTaskTimeout = 0, dc_LongActions = []\<rparr>
     (Some (sample_validator\<lparr>val_RelayVerifier := None\<rparr>))
     [(''ping'', \<lambda>p. HOk (VStr ''pong'')), (''drop'', \<lambda>p. HErr ''no'')] (\<lambda>v. Some ''s'') sample_crypto (\<lambda>err. ''refused'')"

definition sample_env :: environment where
  "sample_env = \<lparr>en_t1 = 0, en_t2 = 0, en_acquire = Acquired\<rparr>"

text \<open>C1: an action runs only when it may. Whenever a message makes the dispatcher run an action, it is
  the action its body names, with the parameters its body gives and the configured deadline; it
  is registered, a slot of its pool was obtained, and the validator, if there is one, accepted the
  request built from this message.\<close>

theorem Handle_runs_authorised:
  assumes "RunAction name params timeout \<in> set (ef_calls (fst (Handle e m d)))"
  shows "route m = ActionFlow \<and> unmarshal_action_ok m \<and> name = action_name m \<and> params = action_params m \<and>
    timeout = dc_TaskTimeout (d_cfg d) \<and> map_of (d_handlers d) name \<noteq> None \<and> en_acquire e = Acquired \<and>
    (\<forall>v. d_auth d = Some v \<longrightarrow> fst (Validate (d_crypto d) (en_t1 e) (en_t2 e) (auth_request m) v) = None)"
proof -
  have r: "route m = ActionFlow"
    using assms proxy_calls_no_action by (cases "route m") (auto simp: Handle_def)
  moreover from this assms have ok: "unmarshal_action_ok m" by (auto simp: Handle_def no_effect_def split: if_splits)
  moreover have a: "fst (authenticate d e m) = None"
    using assms unfolding Handle_action[OF r ok] by (auto simp: no_effect_def split: option.splits)
  moreover from assms have "RunAction name params timeout \<in> set (ef_calls (run_action d e m))"
    unfolding Handle_action[OF r ok] a by simp
  ultimately show ?thesis
    by (auto simp: run_action_calls authenticate_def split: prod.splits)
qed

lemma respond_simps [simp]:
  "respond [] st x = []" "rid \<noteq> [] \<Longrightarrow> map resp_StatusCode (respond rid st x) = [st]"
  "length (respond rid st x) = (if rid = [] then 0 else 1)"
  by (simp_all add: respond_def)

definition answer_ok :: "string \<Rightarrow> response \<Rightarrow> bool" where
  "answer_ok rid r \<longleftrightarrow> resp_Action r = ''response'' \<and> resp_RequestID r = rid \<and> rid \<noteq> []"

lemma answer_ok_sends [simp]:
  "list_all (answer_ok rid) (respond rid st x)" "list_all (answer_ok rid) (sendErr rid st s)"
  "list_all (answer_ok rid) (respondString d rid st x t)"
  by (simp_all add: effect_defs answer_ok_def split: option.splits)

lemma run_action_responses:
  "list_all (answer_ok (dec_string m ''request_id'')) (ef_responses (run_action d e m)) \<and>
   length (ef_responses (run_action d e m)) =
     (if dec_string m ''request_id'' = [] \<or> (map_of (d_handlers d) (action_name m) \<noteq> None \<and> en_acquire e = AcquireCanceled)
      then 0 else 1)"
  by (auto simp: run_action_def Let_def finish_def no_effect_def split: option.splits acquire.splits outcome.splits)

lemma sample_handle_ping:
  "route (action_msg ''r1'' ''ping'') = ActionFlow"
  "ef_calls (fst (Handle sample_env (action_msg ''r1'' ''ping'') sample_dispatcher)) =
     [RunAction ''ping'' None (180 * second)]"
  "map resp_StatusCode (ef_responses (fst (Handle sample_env (action_msg ''r1'' ''ping'') sample_dispatcher))) = [200]"
  by code_simp+

theorem Handle_runs_authorised_witness:
  "fst (Validate sample_crypto 0 0 (auth_request (action_msg ''r1'' ''ping'')) (sample_validator\<lparr>val_RelayVerifier := None\<rparr>)) = None"
  using Handle_runs_authorised[of "''ping''" None "180 * second" sample_env "action_msg ''r1'' ''ping''" sample_dispatcher]
  unfolding sample_handle_ping by (simp add: sample_dispatcher_def NewDispatcher_def Let_def sample_env_def)

text \<open>C2: every action request is answered once. A message of the action flow gets exactly one response,
  under its own request id, whether it is malformed, refused, unknown, expired or run; there is
  none exactly when the message carries no request id, or when the request is accepted but the
  session is cancelled while it waits for its pool.\<close>

theorem Handle_answers_once:
  assumes "route m = ActionFlow"
  shows "list_all (answer_ok (dec_string m ''request_id'')) (ef_responses (fst (Handle e m d))) \<and>
    length (ef_responses (fst (Handle e m d))) =
      (if dec_string m ''request_id'' = [] \<or>
          (unmarshal_action_ok m \<and> fst (authenticate d e m) = None \<and>
           map_of (d_handlers d) (action_name m) \<noteq> None \<and> en_acquire e = AcquireCanceled)
       then 0 else 1)"
proof (cases "unmarshal_action_ok m")
  case True
  then show ?thesis
    using run_action_responses[of m d e]
    by (auto simp: Handle_action[OF assms] no_effect_def split: option.splits)
next
  case False
  then show ?thesis using assms by (simp add: Handle_def no_effect_def sendErr_def answer_ok_def)
qed

theorem Handle_answers_once_witness:
  "length (ef_responses (fst (Handle sample_env (action_msg ''r1'' ''ping'') sample_dispatcher))) = 1"
proof -
  have "dec_string (action_msg ''r1'' ''ping'') ''request_id'' \<noteq> []" by code_simp
  with Handle_answers_once[OF sample_handle_ping(1), of sample_env sample_dispatcher]
  show ?thesis by (simp add: sample_env_def)
qed

text \<open>The status tells what happened. For an answered action request, 401 is sent exactly when the
  envelope decodes and authentication fails, and 200 exactly when the action ran and succeeded,
  with the handler's data; the metrics record the run under the status that was answered.\<close>

lemma Handle_status:
  assumes "route m = ActionFlow" "ef_responses (fst (Handle e m d)) = [r]"
  shows "(resp_StatusCode r = 401 \<longleftrightarrow> unmarshal_action_ok m \<and> fst (authenticate d e m) \<noteq> None) \<and>
    (resp_StatusCode r = 200 \<longleftrightarrow>
       (\<exists>h. ef_calls (fst (Handle e m d)) = [RunAction (action_name m) (action_params m) (dc_TaskTimeout (d_cfg d))] \<and>
            map_of (d_handlers d) (action_name m) = Some h \<and> h (action_params m) = HOk (resp_Data r))) \<and>
    resp_StatusCode r \<in> {200, 400, 401, 404, 500, 503, 504} \<and>
    (OnAction (action_name m) s \<in> set (ef_metrics (fst (Handle e m d))) \<longleftrightarrow>
       d_metrics d \<and> (resp_StatusCode r, s) \<in> {(200, ''ok''), (500, ''error''), (504, ''timeout'')})"
proof (cases "unmarshal_action_ok m")
  case True
  show ?thesis
  proof (cases "fst (authenticate d e m)")
    case None
    with assms(2) show ?thesis
      unfolding Handle_action[OF assms(1) True]
      by (auto simp: run_action_def Let_def finish_def no_effect_def respond_def action_metrics_def
          split: option.splits acquire.splits outcome.splits if_splits)
  qed (use True assms(2) in \<open>auto simp: Handle_action[OF assms(1) True] no_effect_def respond_def split: if_splits\<close>)
next
  case False
  with assms show ?thesis by (auto simp: Handle_def no_effect_def sendErr_def split: if_splits)
qed

section \<open>The flows without authentication\<close>

text \<open>The pod-shell and the HTTP proxy are not authenticated. A message without a body object that
  names a shell command, or a method and a URL, is handed to the configured proxy handler
  whatever the validator is, and the validator is not consulted.\<close>

lemma proxy_flows_unauthenticated:
  assumes "route m \<noteq> ActionFlow"
  shows "Handle e m (d\<lparr>d_auth := a\<rparr>) = (fst (Handle e m d), d\<lparr>d_auth := a\<rparr>) \<and>
    (route m = TerminalFlow \<and> d_terminal d \<noteq> None \<and> unmarshal_terminal m = Some req \<longrightarrow>
       ef_calls (fst (Handle e m (d\<lparr>d_auth := a\<rparr>))) = [RunTerminal req]) \<and>
    (route m = GrafanaFlow \<and> d_grafana d \<noteq> None \<and> unmarshal_grafana m \<noteq> None \<longrightarrow>
       length (ef_calls (fst (Handle e m (d\<lparr>d_auth := a\<rparr>)))) = 1)"
  using assms
  by (cases "route m")
    (auto simp: Handle_def handleTerminal_def handleGrafana_def respondString_def no_effect_def Let_def
      split: option.splits prod.splits if_splits)

definition shell_msg :: json_msg where
  "shell_msg = MObj [member ''action'' (VStr ''exec'') ''x'', member ''session_id'' (VStr ''s1'') ''x'',
     member ''command'' (VStr ''id'') ''x'']"

section \<open>Repeated bodies\<close>

lemma map_of_foldl_put:
  "distinct (map fst ps) \<Longrightarrow> map_of (foldl (\<lambda>m p. map_put (fst p) (snd p) m) m ps) k =
     (case map_of ps k of Some v \<Rightarrow> Some v | None \<Rightarrow> map_of m k)"
  by (induction ps arbitrary: m) (auto split: option.splits dest: map_of_SomeD simp: image_iff intro: rev_image_eqI)

text \<open>The verified bytes need not be the executed body. When a message repeats \<open>body\<close>, the relay
  signature is checked on the text of the last one, while the decoded body that names the action
  and its parameters is the merge of both: every member the last body does not have is taken
  from the earlier, unverified one.\<close>

lemma duplicate_body_merged:
  assumes "members_of ''body'' m = [x1, x2]" "jm_val x1 = VObj b1" "jm_val x2 = VObj b2"
    and "wf_gval (VObj b1)" "wf_gval (VObj b2)"
  shows "r_BodyRaw (auth_request m) = jm_raw x2 \<and>
    mget (r_Body (auth_request m)) k = (if map_of b2 k = None then mget b1 k else mget b2 k)"
  using assms
  by (auto simp: auth_request_def dec_raw_def dec_map_def dec_map_step_def go_defs map_of_foldl_put split: option.splits)

definition two_bodies :: json_msg where
  "two_bodies = MObj
     [member ''body'' (VObj [(''action_params'', VObj [(''x'', VBool True)])]) ''{1}'',
      member ''Body'' (VObj [(''action_name'', VStr ''ping'')]) ''{2}'']"

section \<open>The pools\<close>

text \<open>
  Requests are handled concurrently. A state is the dispatcher and the priorities of the actions
  that hold a slot; a label says which message was handled and under which surroundings, or that
  an action returned. \<open>semaphore.Weighted\<close> grants a slot only while fewer than its size are held.
\<close>

record running =
  ru_dispatcher :: dispatcher
  ru_held :: "bool list"

datatype dlabel = DHandle environment json_msg effects | DDone bool

definition starts :: "effects \<Rightarrow> bool" where
  "starts f = list_ex (\<lambda>c. case c of RunAction _ _ _ \<Rightarrow> True | _ \<Rightarrow> False) (ef_calls f)"

definition held :: "running \<Rightarrow> bool \<Rightarrow> nat" where
  "held s hp = length (filter (\<lambda>b. b = hp) (ru_held s))"

inductive dispatch_step :: "running \<Rightarrow> dlabel \<Rightarrow> running \<Rightarrow> bool" where
  handle_idle: "Handle e m (ru_dispatcher s) = (f, d') \<Longrightarrow> \<not> starts f \<Longrightarrow>
    dispatch_step s (DHandle e m f) (s\<lparr>ru_dispatcher := d'\<rparr>)"
| handle_start: "Handle e m (ru_dispatcher s) = (f, d') \<Longrightarrow> starts f \<Longrightarrow> hp = isHighPriority (action_params m) \<Longrightarrow>
    int (held s hp) < pool_size (ru_dispatcher s) hp \<Longrightarrow>
    dispatch_step s (DHandle e m f) (s\<lparr>ru_dispatcher := d', ru_held := hp # ru_held s\<rparr>)"
| action_done: "hp \<in> set (ru_held s) \<Longrightarrow> dispatch_step s (DDone hp) (s\<lparr>ru_held := remove1 hp (ru_held s)\<rparr>)"

inductive dispatch_run :: "dispatcher \<Rightarrow> dlabel list \<Rightarrow> running \<Rightarrow> bool" for d where
  drun_init: "dispatch_run d [] \<lparr>ru_dispatcher = d, ru_held = []\<rparr>"
| drun_step: "dispatch_run d ls s \<Longrightarrow> dispatch_step s l s' \<Longrightarrow> dispatch_run d (ls @ [l]) s'"

inductive_cases dispatch_stepE: "dispatch_step s l s'"

lemma Handle_keeps:
  assumes "Handle e m d = (f, d')"
  shows "pool_size d' hp = pool_size d hp \<and> d_handlers d' = d_handlers d \<and> d_cfg d' = d_cfg d"
  using assms by (auto simp: Handle_def pool_size_def split: route.splits if_splits prod.splits option.splits)

lemma filter_remove1: "filter P (remove1 x xs) = (if P x then remove1 x (filter P xs) else filter P xs)"
  by (induction xs) auto

lemma dispatch_step_held:
  assumes "dispatch_step s l s'" "\<And>hp. int (held s hp) \<le> pool_size (ru_dispatcher s) hp"
  shows "int (held s' hp) \<le> pool_size (ru_dispatcher s') hp \<and>
    pool_size (ru_dispatcher s') hp = pool_size (ru_dispatcher s) hp"
  using assms(1)
proof (cases rule: dispatch_step.cases)
  case (handle_idle e m f d')
  with assms(2)[of hp] Handle_keeps[OF handle_idle(3)] show ?thesis by (simp add: held_def)
next
  case (handle_start e m f d' hp')
  with assms(2)[of hp] Handle_keeps[OF handle_start(3)] show ?thesis by (auto simp: held_def)
next
  case (action_done hp')
  have "held s' hp \<le> held s hp"
    using action_done by (auto simp: held_def filter_remove1 length_remove1)
  with action_done assms(2)[of hp] show ?thesis by simp
qed



end
