(* ===== verification/Tasks.thy ===== *)
theory Tasks
  imports Dispatch GoJson
begin

text \<open>
  \<open>pkg/tasks/poller.go\<close>: the loop that drains the queue of agent jobs, runs each through the
  trusted entry of the dispatcher and posts the result back. The collector is a state with a
  \<open>GET\<close> step and is a parameter; so are the scanner of \<open>encoding/json\<close>, the text of its errors and
  the URL check of \<open>http.NewRequest\<close>. What happens to a posted result is only logged by the code
  and left out. The locale \<open>trusted_entry\<close> is the interface \<open>tasks.Dispatcher\<close> with the contract its
  provider documents. The theory proves that a drain ends when the collector keeps its count and
  that it answers every task once.
\<close>

section \<open>Tasks and their payloads\<close>

record task =
  tk_TaskID :: string
  tk_Payload :: string
  tk_Source :: string

datatype unpack_err = EmptyPayload | NotJSON | StringNotJSON

text \<open>\<open>jl_scan\<close> reads a JSON text (\<open>None\<close> when it is none), \<open>jl_tasks\<close> decodes the collector's answer.\<close>

record json_lib =
  jl_scan :: "string \<Rightarrow> gval option"
  jl_errText :: "unpack_err \<Rightarrow> string"
  jl_tasks :: "string \<Rightarrow> (task list \<times> int) option"
  jl_urlOK :: "string \<Rightarrow> bool"

definition unmarshal_map :: "json_lib \<Rightarrow> string \<Rightarrow> gmap option option" where
  "unmarshal_map J raw = (case jl_scan J raw of
     Some (VObj m) \<Rightarrow> Some (Some m) | Some VNil \<Rightarrow> Some None | _ \<Rightarrow> None)"

definition unmarshal_string :: "json_lib \<Rightarrow> string \<Rightarrow> string option" where
  "unmarshal_string J raw = (case jl_scan J raw of
     Some (VStr s) \<Rightarrow> Some s | Some VNil \<Rightarrow> Some [] | _ \<Rightarrow> None)"

definition unpackPayload :: "json_lib \<Rightarrow> string \<Rightarrow> unpack_err + gmap option" where
  "unpackPayload J raw =
     (if raw = [] then Inl EmptyPayload
      else (case unmarshal_map J raw of
         Some obj \<Rightarrow> Inr obj
       | None \<Rightarrow> (case unmarshal_string J raw of
            None \<Rightarrow> Inl NotJSON
          | Some s \<Rightarrow> (case unmarshal_map J s of None \<Rightarrow> Inl StringNotJSON | Some obj \<Rightarrow> Inr obj))))"

section \<open>One task\<close>

record task_service =
  ts_Endpoint :: string
  ts_AuthSecret :: string
  ts_Period :: duration
  ts_LongActions :: "string list"

record task_post =
  tp_TaskID :: string
  tp_URL :: string
  tp_Authorization :: "string option"
  tp_Body :: string

text \<open>What handling tasks does: results posted, handlers run, tasks left to their own goroutine.\<close>

record poll_effects =
  pe_posts :: "task_post list"
  pe_calls :: "call list"
  pe_detached :: "(string \<times> string \<times> gmap option) list"

definition poll_none :: poll_effects where
  "poll_none = \<lparr>pe_posts = [], pe_calls = [], pe_detached = []\<rparr>"

definition poll_then :: "poll_effects \<Rightarrow> poll_effects \<Rightarrow> poll_effects" where
  "poll_then a b = \<lparr>pe_posts = pe_posts a @ pe_posts b, pe_calls = pe_calls a @ pe_calls b,
     pe_detached = pe_detached a @ pe_detached b\<rparr>"

text \<open>What the surroundings decide for one task: how the wait for a slot ends, how long it runs.\<close>

record task_env =
  te_acquire :: acquire
  te_elapsed :: duration

definition task_auth :: "task_service \<Rightarrow> string option" where
  "task_auth s = (if ts_AuthSecret s \<noteq> [] then Some (b64_encode (ts_AuthSecret s)) else None)"

definition respond_task :: "json_lib \<Rightarrow> task_service \<Rightarrow> string \<Rightarrow> gmap \<Rightarrow> task_post list" where
  "respond_task J s taskID body = (case json_marshal (VObj body) of
     None \<Rightarrow> []
   | Some buf \<Rightarrow>
       (let url = ts_Endpoint s @ ''/v1/k8s/tasks/'' @ taskID in
        if jl_urlOK J url
        then [\<lparr>tp_TaskID = taskID, tp_URL = url, tp_Authorization = task_auth s, tp_Body = buf\<rparr>]
        else []))"

text \<open>\<open>int(d.Round(time.Second).Seconds())\<close>: half a second rounds away from zero.\<close>

definition round_seconds :: "duration \<Rightarrow> int" where
  "round_seconds d = (let r = \<bar>d\<bar> mod second; q = \<bar>d\<bar> div second in
     sgn d * (if r + r < second then q else q + 1))"

definition trusted_err_text :: "trusted_err \<Rightarrow> string" where
  "trusted_err_text err = (case err of
     PoolAcquire \<Rightarrow> ''pool acquire: context canceled'' | HandlerFailed text \<Rightarrow> text)"

definition failure_body :: "string \<Rightarrow> gmap" where
  "failure_body msg = [(''success'', VBool False), (''msg'', VStr msg)]"

definition task_body :: "string \<Rightarrow> gval option \<times> bool \<times> trusted_err option \<Rightarrow> gmap" where
  "task_body actionName res = (case res of (data, ok, err) \<Rightarrow>
     if \<not> ok then failure_body (''action not registered: '' @ actionName)
     else (case err of
        Some e \<Rightarrow> failure_body (trusted_err_text e)
      | None \<Rightarrow> (case data of
           Some (VObj d) \<Rightarrow> if mhas (Some d) ''success'' then d else map_put ''success'' (VBool True) d
         | Some v \<Rightarrow> [(''success'', VBool True), (''data'', v)]
         | None \<Rightarrow> [(''success'', VBool True), (''data'', VNil)])))"

definition runTask ::
  "json_lib \<Rightarrow> dispatcher \<Rightarrow> task_service \<Rightarrow> task_env \<Rightarrow> string \<Rightarrow> string \<Rightarrow> gmap option \<Rightarrow> poll_effects" where
  "runTask J d s env taskID actionName params =
     (case HandleTrusted (te_acquire env) actionName params d of
        (res, eff) \<Rightarrow>
          poll_none\<lparr>pe_calls := ef_calls eff,
            pe_posts := respond_task J s taskID
              (map_put ''task_processing_duration'' (VInt (round_seconds (te_elapsed env))) (task_body actionName res))\<rparr>)"

definition process :: "json_lib \<Rightarrow> dispatcher \<Rightarrow> task_service \<Rightarrow> (task \<Rightarrow> task_env) \<Rightarrow> task \<Rightarrow> poll_effects" where
  "process J d s env t = (case unpackPayload J (tk_Payload t) of
     Inl err \<Rightarrow> poll_none\<lparr>pe_posts :=
       respond_task J s (tk_TaskID t) (failure_body (''invalid payload: '' @ jl_errText J err))\<rparr>
   | Inr payload \<Rightarrow>
       (let actionName = oget_str payload ''action_name'' in
        if actionName = [] then
          poll_none\<lparr>pe_posts := respond_task J s (tk_TaskID t) (failure_body ''payload missing action_name'')\<rparr>
        else
          (let params = oget_map payload ''action_params'' in
           if actionName \<in> set (ts_LongActions s) then poll_none\<lparr>pe_detached := [(tk_TaskID t, actionName, params)]\<rparr>
           else runTask J d s (env t) (tk_TaskID t) actionName params)))"

section \<open>The drain\<close>

datatype poll_reply = PollFailed | PollReply int string

datatype poll_err = FetchErr | FetchStatus int string | DecodeErr

definition truncate_text :: "string \<Rightarrow> nat \<Rightarrow> string" where
  "truncate_text s n = (if length s \<le> n then s else take n s @ map char_of [0xE2, 0x80, 0xA6 :: nat])"

definition fetch :: "json_lib \<Rightarrow> poll_reply \<Rightarrow> poll_err + (task list \<times> int)" where
  "fetch J r = (case r of
     PollFailed \<Rightarrow> Inl FetchErr
   | PollReply status body \<Rightarrow>
       if 400 \<le> status then Inl (FetchStatus status (truncate_text body 256))
       else (case jl_tasks J body of None \<Rightarrow> Inl DecodeErr | Some env \<Rightarrow> Inr env))"

definition process_all ::
  "json_lib \<Rightarrow> dispatcher \<Rightarrow> task_service \<Rightarrow> (task \<Rightarrow> task_env) \<Rightarrow> task list \<Rightarrow> poll_effects" where
  "process_all J d s env ts = foldr (\<lambda>t. poll_then (process J d s env t)) ts poll_none"

partial_function (option) drain ::
  "json_lib \<Rightarrow> dispatcher \<Rightarrow> task_service \<Rightarrow> (task \<Rightarrow> task_env) \<Rightarrow> ('w \<Rightarrow> poll_reply \<times> 'w) \<Rightarrow> 'w \<Rightarrow>
   (poll_err option \<times> poll_effects \<times> 'w) option" where
  "drain J d s env get w =
     (case get w of (reply, w') \<Rightarrow>
        (case fetch J reply of
           Inl err \<Rightarrow> Some (Some err, poll_none, w')
         | Inr (batch, remaining) \<Rightarrow>
             (let eff = process_all J d s env batch in
              if remaining = 0 then Some (None, eff, w')
              else Option.bind (drain J d s env get w')
                (\<lambda>(err, eff', w''). Some (err, poll_then eff eff', w'')))))"

declare drain.simps [code]

definition ParseTaskWindow :: "string \<Rightarrow> duration" where
  "ParseTaskWindow s =
     (if s = [] then 120 * second
      else (case atoi s of
         None \<Rightarrow> 120 * second
       | Some n \<Rightarrow> if n \<le> 0 then 120 * second else wrap64 (n * second)))"

text \<open>The period \<open>Run\<close> polls with.\<close>

definition run_period :: "task_service \<Rightarrow> duration" where
  "run_period s = (if ts_Period s \<le> 0 then 120 * second else ts_Period s)"

section \<open>The interface to the dispatcher\<close>

lemma json_finite_put: "json_finite (VObj m) \<Longrightarrow> json_finite v \<Longrightarrow> json_finite (VObj (map_put k v m))"
  using set_map_put[of k v m] by (auto simp: list_all_iff)

locale trusted_entry =
  fixes handle :: "string \<Rightarrow> gmap option \<Rightarrow> gval option \<times> bool \<times> trusted_err option"
    and registered :: "string \<Rightarrow> bool"
  assumes not_registered: "\<not> registered name \<Longrightarrow> handle name params = (None, False, None)"
    and data_or_error: "registered name \<Longrightarrow>
      (\<exists>v. handle name params = (Some v, True, None)) \<or> (\<exists>err. handle name params = (None, True, Some err))"
begin

lemma body_has_success: "map_of (task_body name (handle name params)) ''success'' \<noteq> None"
  using not_registered[of name params] data_or_error[of name params]
  by (cases "registered name") (auto simp: task_body_def failure_body_def mhas_def split: gval.splits option.splits)

lemma body_finite:
  assumes "\<And>v. handle name params = (Some v, True, None) \<Longrightarrow> json_finite v"
  shows "json_finite (VObj (task_body name (handle name params)))"
proof (cases "registered name")
  case True
  from data_or_error[OF this, of params] show ?thesis
  proof (elim disjE exE)
    fix v assume v: "handle name params = (Some v, True, None)"
    then show ?thesis using assms[OF v] by (cases v) (simp_all add: task_body_def json_finite_put[simplified])
  qed (simp add: task_body_def failure_body_def)
qed (simp add: not_registered task_body_def failure_body_def)

lemma unregistered_fails:
  "\<not> registered name \<Longrightarrow> mget (task_body name (handle name params)) ''success'' = VBool False"
  using not_registered by (simp add: task_body_def failure_body_def)

end

interpretation trusted: trusted_entry "\<lambda>name params. fst (HandleTrusted acq name params d)" "\<lambda>name. map_of (d_handlers d) name \<noteq> None"
  for acq d
  by unfold_locales (auto simp: HandleTrusted_def Let_def split: option.splits outcome.splits)

section \<open>Every task is answered\<close>

definition results_finite :: "dispatcher \<Rightarrow> bool" where
  "results_finite d \<longleftrightarrow> (\<forall>(n, h) \<in> set (d_handlers d). \<forall>p v. h p = HOk v \<longrightarrow> json_finite v)"

definition answerable :: "json_lib \<Rightarrow> task_service \<Rightarrow> task \<Rightarrow> bool" where
  "answerable J s t \<longleftrightarrow> jl_urlOK J (ts_Endpoint s @ ''/v1/k8s/tasks/'' @ tk_TaskID t)"

definition detaches :: "json_lib \<Rightarrow> task_service \<Rightarrow> task \<Rightarrow> bool" where
  "detaches J s t = (case unpackPayload J (tk_Payload t) of
     Inl _ \<Rightarrow> False
   | Inr payload \<Rightarrow> oget_str payload ''action_name'' \<noteq> [] \<and> oget_str payload ''action_name'' \<in> set (ts_LongActions s))"

text \<open>The posts of a task's own goroutine.\<close>

definition detached_posts ::
  "json_lib \<Rightarrow> dispatcher \<Rightarrow> task_service \<Rightarrow> task_env \<Rightarrow> string \<times> string \<times> gmap option \<Rightarrow> task_post list" where
  "detached_posts J d s env x = (case x of (taskID, actionName, params) \<Rightarrow>
     pe_posts (runTask J d s env taskID actionName params))"

lemma poll_simps [simp]:
  "pe_posts poll_none = []" "pe_calls poll_none = []" "pe_detached poll_none = []"
  "pe_posts (poll_then a b) = pe_posts a @ pe_posts b" "pe_calls (poll_then a b) = pe_calls a @ pe_calls b"
  "pe_detached (poll_then a b) = pe_detached a @ pe_detached b"
  by (simp_all add: poll_none_def poll_then_def)

lemma poll_then_assoc: "poll_then (poll_then a b) c = poll_then a (poll_then b c)"
  by (simp add: poll_then_def)

lemma poll_then_none [simp]: "poll_then poll_none a = a" "poll_then a poll_none = a"
  by (simp_all add: poll_then_def poll_none_def)

lemma process_all_simps [simp]:
  "process_all J d s env [] = poll_none"
  "process_all J d s env (t # ts) = poll_then (process J d s env t) (process_all J d s env ts)"
  by (simp_all add: process_all_def)

lemma process_all_append:
  "process_all J d s env (ts @ us) = poll_then (process_all J d s env ts) (process_all J d s env us)"
  by (induction ts) (simp_all add: poll_then_assoc)

lemma respond_task_one:
  assumes "json_finite (VObj body)" "jl_urlOK J (ts_Endpoint s @ ''/v1/k8s/tasks/'' @ taskID)"
  shows "map tp_TaskID (respond_task J s taskID body) = [taskID]"
proof -
  obtain buf where "json_marshal (VObj body) = Some buf"
    using assms(1) json_marshal_None_iff[of "VObj body"] by (metis not_None_eq)
  then show ?thesis using assms(2) by (simp add: respond_task_def Let_def del: json_marshal.simps)
qed

lemma HandleTrusted_data:
  assumes "results_finite d" "fst (HandleTrusted acq name params d) = (Some v, True, None)"
  shows "json_finite v"
  using assms by (fastforce simp: HandleTrusted_def results_finite_def Let_def split: option.splits if_splits outcome.splits
    dest!: map_of_SomeD)

lemma runTask_posts:
  assumes "results_finite d" "jl_urlOK J (ts_Endpoint s @ ''/v1/k8s/tasks/'' @ taskID)"
  shows "map tp_TaskID (pe_posts (runTask J d s env taskID name params)) = [taskID]"
proof -
  have "json_finite (VObj (task_body name (fst (HandleTrusted (te_acquire env) name params d))))"
    by (rule trusted.body_finite) (rule HandleTrusted_data[OF assms(1)])
  then have "json_finite (VObj (map_put k (VInt i) (task_body name (fst (HandleTrusted (te_acquire env) name params d)))))" for k i
    by (rule json_finite_put) simp
  from respond_task_one[OF this assms(2)] show ?thesis
    by (simp add: runTask_def split_beta)
qed

lemma process_posts:
  assumes "results_finite d" "answerable J s t"
  shows "map tp_TaskID (pe_posts (process J d s env t)) = (if detaches J s t then [] else [tk_TaskID t])"
    "map fst (pe_detached (process J d s env t)) = (if detaches J s t then [tk_TaskID t] else [])"
proof -
  note url = assms(2)[unfolded answerable_def]
  have "map tp_TaskID (respond_task J s (tk_TaskID t) (failure_body msg)) = [tk_TaskID t]" for msg
    by (rule respond_task_one[OF _ url]) (simp add: failure_body_def)
  then show "map tp_TaskID (pe_posts (process J d s env t)) = (if detaches J s t then [] else [tk_TaskID t])"
    using runTask_posts[OF assms(1) url] by (auto simp: process_def detaches_def Let_def split: sum.splits)
  show "map fst (pe_detached (process J d s env t)) = (if detaches J s t then [tk_TaskID t] else [])"
    by (auto simp: process_def detaches_def Let_def runTask_def split: sum.splits prod.splits)
qed

lemma process_all_posts:
  assumes "results_finite d" "list_all (answerable J s) ts"
  shows "map tp_TaskID (pe_posts (process_all J d s env ts)) = map tk_TaskID (filter (\<lambda>t. \<not> detaches J s t) ts)"
    "map fst (pe_detached (process_all J d s env ts)) = map tk_TaskID (filter (detaches J s) ts)"
  using assms(2) by (induction ts) (simp_all add: process_posts[OF assms(1)])

section \<open>The drain ends\<close>

text \<open>A collector that hands out each pending task once, and reports how many are left.\<close>

definition collector_ok :: "json_lib \<Rightarrow> ('w \<Rightarrow> poll_reply \<times> 'w) \<Rightarrow> ('w \<Rightarrow> task list) \<Rightarrow> bool" where
  "collector_ok J get pending \<longleftrightarrow> (\<forall>w. \<exists>status body batch.
     fst (get w) = PollReply status body \<and> status < 400 \<and>
     jl_tasks J body = Some (batch, int (length (pending (snd (get w))))) \<and>
     pending w = batch @ pending (snd (get w)) \<and> (batch = [] \<longrightarrow> pending w = []))"

lemma drain_collector:
  assumes "collector_ok J get pending"
  shows "\<exists>w'. drain J d s env get w = Some (None, process_all J d s env (pending w), w') \<and> pending w' = []"
proof (induction "length (pending w)" arbitrary: w rule: less_induct)
  case less
  let ?w = "snd (get w)"
  obtain batch where f: "fetch J (fst (get w)) = Inr (batch, int (length (pending ?w)))"
    and p: "pending w = batch @ pending ?w" "batch = [] \<longrightarrow> pending w = []"
    using assms unfolding collector_ok_def fetch_def by (auto dest!: spec[of _ w])
  show ?case
  proof (cases "pending ?w = []")
    case True
    then show ?thesis using f p by (simp add: drain.simps[of J d s env get w] split_beta)
  next
    case False
    with p have "length (pending ?w) < length (pending w)" by (cases batch) auto
    from less[OF this] obtain w' where
      "drain J d s env get ?w = Some (None, process_all J d s env (pending ?w), w')" "pending w' = []" by blast
    then show ?thesis using f p False by (simp add: drain.simps[of J d s env get w] split_beta process_all_append)
  qed
qed

text \<open>C11: a drain ends, and answers every task. Against a collector that hands out each pending task
  once and reports how many are left, whatever it batches, the loop returns without error and
  leaves nothing pending. When handlers return finite numbers and task URLs are valid, exactly
  one result is posted for every task under its own id: for short actions before the drain
  returns and in the order of the queue, for long ones by the goroutine that was started for
  it.\<close>

theorem drain_answers_all:
  assumes "collector_ok J get pending" "results_finite d" "list_all (answerable J s) (pending w)"
  shows "\<exists>eff w'. drain J d s env get w = Some (None, eff, w') \<and> pending w' = [] \<and>
    map tp_TaskID (pe_posts eff) = map tk_TaskID (filter (\<lambda>t. \<not> detaches J s t) (pending w)) \<and>
    map fst (pe_detached eff) = map tk_TaskID (filter (detaches J s) (pending w)) \<and>
    (\<forall>x \<in> set (pe_detached eff). \<forall>env. map tp_TaskID (detached_posts J d s env x) = [fst x])"
proof -
  let ?eff = "process_all J d s env (pending w)"
  note posts = process_all_posts[OF assms(2,3), of env]
  have "map tp_TaskID (detached_posts J d s env' x) = [fst x]" if "x \<in> set (pe_detached ?eff)" for x env'
  proof -
    have "fst x \<in> set (map fst (pe_detached ?eff))" using that by simp
    then have "fst x \<in> tk_TaskID ` set (pending w)" unfolding posts(2) by auto
    then have "jl_urlOK J (ts_Endpoint s @ ''/v1/k8s/tasks/'' @ fst x)"
      using assms(3) by (auto simp: answerable_def list_all_iff)
    then show ?thesis
      using runTask_posts[OF assms(2), of J s "fst x"] by (simp add: detached_posts_def split_beta)
  qed
  with drain_collector[OF assms(1), of d s env w] posts show ?thesis by blast
qed

definition sample_task :: "string \<Rightarrow> task" where
  "sample_task i = \<lparr>tk_TaskID = i, tk_Payload = i, tk_Source = []\<rparr>"

definition sample_json_lib :: json_lib where
  "sample_json_lib = \<lparr>jl_scan = (\<lambda>s. Some (VObj [(''action_name'', VStr (if s = ''1'' then ''ping'' else ''drop''))])),
     jl_errText = (\<lambda>_. []),
     jl_tasks = (\<lambda>s. if s = ''a'' then Some ([sample_task ''1''], 1) else if s = ''b'' then Some ([sample_task ''2''], 0)
       else Some ([], 0)),
     jl_urlOK = (\<lambda>_. True)\<rparr>"

definition sample_collector :: "nat \<Rightarrow> poll_reply \<times> nat" where
  "sample_collector w = (PollReply 200 (if w = 0 then ''a'' else if w = 1 then ''b'' else ''c''), Suc w)"

definition sample_pending :: "nat \<Rightarrow> task list" where
  "sample_pending w = drop w [sample_task ''1'', sample_task ''2'']"

definition sample_service :: task_service where
  "sample_service = \<lparr>ts_Endpoint = ''https://c'', ts_AuthSecret = [], ts_Period = 0, ts_LongActions = [''drop'']\<rparr>"

theorem drain_answers_all_witness:
  "\<exists>eff w'. drain sample_json_lib sample_dispatcher sample_service (\<lambda>_. \<lparr>te_acquire = Acquired, te_elapsed = 0\<rparr>)
       sample_collector 0 = Some (None, eff, w') \<and>
     map tp_TaskID (pe_posts eff) = [''1''] \<and> map fst (pe_detached eff) = [''2'']"
proof -
  have 1: "collector_ok sample_json_lib sample_collector sample_pending"
    by (auto simp: collector_ok_def sample_collector_def sample_pending_def sample_json_lib_def drop_Cons split: nat.splits)
  have 2: "results_finite sample_dispatcher"
    by (auto simp: results_finite_def sample_dispatcher_def NewDispatcher_def Let_def)
  have 3: "list_all (answerable sample_json_lib sample_service) (sample_pending 0)"
    by (simp add: sample_pending_def answerable_def sample_json_lib_def)
  have 4: "detaches sample_json_lib sample_service (sample_task i) = (i \<noteq> ''1'')" if "i \<noteq> []" for i
    using that by (simp add: detaches_def unpackPayload_def unmarshal_map_def sample_json_lib_def sample_task_def sample_service_def)
  have 5: "tk_TaskID (sample_task i) = i" for i by (simp add: sample_task_def)
  from drain_answers_all[OF 1 2 3, of "\<lambda>_. \<lparr>te_acquire = Acquired, te_elapsed = 0\<rparr>"]
  show ?thesis by (auto simp: sample_pending_def 4 5)
qed

end
