(* ===== verification/PodShell.thy ===== *)
theory PodShell
  imports Dispatch
begin

text \<open>
  \<open>pkg/podshell/session.go\<close>, with the adapter of \<open>cmd/agent/main.go\<close>: interactive shells. The
  manager's map of live sessions points into a heap of session objects, because the streaming
  goroutine of a session outlives its entry in the map. The Kubernetes API, the exec stream, the
  pipe and the uuid are the environment of a call; a run interleaves requests, stream output,
  stream ends, sweeps and the shutdown. The theory proves that output is returned once, in order
  and to its own session only, that input reaches its own session only, and that no stream of a
  dropped session is left open.
\<close>

section \<open>Sessions\<close>

definition IdleTimeout :: duration where "IdleTimeout = 10 * minute"

record shell_session =
  ss_id :: string
  ss_namespace :: string
  ss_name :: string
  ss_container :: string
  ss_stdin :: string
  ss_stdinClosed :: bool
  ss_cancelled :: bool
  ss_outBuf :: string
  ss_closed :: bool
  ss_lastUsed :: time

record manager =
  pm_hasClient :: bool
  pm_heap :: "shell_session list"
  pm_sessions :: "(string, nat) gomap"
  pm_idleTimeout :: duration

definition NewManager :: "bool \<Rightarrow> manager" where
  "NewManager hasClient = \<lparr>pm_hasClient = hasClient, pm_heap = [], pm_sessions = [], pm_idleTimeout = IdleTimeout\<rparr>"

definition update_session :: "nat \<Rightarrow> (shell_session \<Rightarrow> shell_session) \<Rightarrow> manager \<Rightarrow> manager" where
  "update_session a u m = m\<lparr>pm_heap := (pm_heap m)[a := u (pm_heap m ! a)]\<rparr>"

definition touch :: "time \<Rightarrow> shell_session \<Rightarrow> shell_session" where
  "touch now s = s\<lparr>ss_lastUsed := now\<rparr>"

definition close_session :: "shell_session \<Rightarrow> shell_session" where
  "close_session s = s\<lparr>ss_closed := True, ss_stdinClosed := True, ss_cancelled := True\<rparr>"

text \<open>\<open>session.write\<close>: \<open>piped\<close> tells whether the remote end took the bytes before the pipe closed.\<close>

definition write_session :: "bool \<Rightarrow> time \<Rightarrow> string \<Rightarrow> shell_session \<Rightarrow> bool \<times> shell_session" where
  "write_session piped now input s =
     (if ss_closed s then (False, s)
      else if ss_stdinClosed s \<or> \<not> piped then (False, s)
      else (True, touch now (s\<lparr>ss_stdin := ss_stdin s @ input\<rparr>)))"

definition drain_session :: "time \<Rightarrow> shell_session \<Rightarrow> (string \<times> bool) \<times> shell_session" where
  "drain_session now s = ((ss_outBuf s, ss_closed s), touch now (s\<lparr>ss_outBuf := []\<rparr>))"

definition outWriter_Write :: "time \<Rightarrow> string \<Rightarrow> shell_session \<Rightarrow> shell_session" where
  "outWriter_Write now p s = touch now (s\<lparr>ss_outBuf := ss_outBuf s @ p\<rparr>)"

text \<open>The end of the streaming goroutine; \<open>err\<close> is an error other than a cancellation.\<close>

definition stream_note :: "string option \<Rightarrow> string" where
  "stream_note err = (case err of
     None \<Rightarrow> [] | Some e \<Rightarrow> [CHR 0x0A] @ ''[stream closed: '' @ e @ '']'' @ [CHR 0x0A])"

definition stream_end :: "string option \<Rightarrow> shell_session \<Rightarrow> shell_session" where
  "stream_end err s = s\<lparr>ss_closed := True, ss_outBuf := ss_outBuf s @ stream_note err, ss_stdinClosed := True,
     ss_cancelled := True\<rparr>"

section \<open>Choosing the container\<close>

record pod =
  pod_Namespace :: string
  pod_Name :: string
  pod_Containers :: "string list"
  pod_Annotations :: "(string, string) gomap"
  pod_Running :: bool

datatype shell_error =
  InvalidAction | NameRequired | NoClient | SessionRequired
| NotReachable string string string | NotRunning string string
| NoContainers string string | ContainerNotFound string string string "string list" | ExecutorFailed string

definition containerNames :: "pod \<Rightarrow> string list" where
  "containerNames p = pod_Containers p"

definition defaultContainerAnnotation :: string where
  "defaultContainerAnnotation = ''kubectl.kubernetes.io/default-container''"

definition resolveContainer :: "pod \<Rightarrow> string \<Rightarrow> shell_error + string" where
  "resolveContainer p want =
     (let names = containerNames p in
      if names = [] then Inl (NoContainers (pod_Namespace p) (pod_Name p))
      else if want \<noteq> [] then
        (case find (\<lambda>n. n = want) names of
           Some n \<Rightarrow> Inr n
         | None \<Rightarrow> Inl (ContainerNotFound want (pod_Namespace p) (pod_Name p) names))
      else
        (let annotated = (case map_of (pod_Annotations p) defaultContainerAnnotation of None \<Rightarrow> [] | Some v \<Rightarrow> v) in
         case (if annotated \<noteq> [] then find (\<lambda>n. n = annotated) names else None) of
           Some n \<Rightarrow> Inr n
         | None \<Rightarrow> Inr (hd names)))"

text \<open>The answers of the API server, in order; the deadline passes after the last.\<close>

fun waitRunning :: "string \<Rightarrow> string \<Rightarrow> string + pod \<Rightarrow> (string + pod) list \<Rightarrow> shell_error + pod" where
  "waitRunning ns nam (Inr p) gs =
     (if pod_Running p then Inr p
      else (case gs of [] \<Rightarrow> Inl (NotRunning ns nam) | g # gs' \<Rightarrow> waitRunning ns nam g gs'))"
| "waitRunning ns nam (Inl e) gs =
     (case gs of [] \<Rightarrow> Inl (NotReachable ns nam e) | g # gs' \<Rightarrow> waitRunning ns nam g gs')"

section \<open>Requests\<close>

record shell_request =
  sq_Action :: string
  sq_SessionID :: string
  sq_Name :: string
  sq_Namespace :: string
  sq_Command :: string
  sq_RequestID :: string
  sq_Container :: string

definition toPodshellRequest :: "terminal_request \<Rightarrow> shell_request" where
  "toPodshellRequest r = \<lparr>sq_Action = tr_Action r, sq_SessionID = tr_SessionID r, sq_Name = tr_Name r,
     sq_Namespace = tr_Namespace r, sq_Command = tr_Command r, sq_RequestID = tr_RequestID r, sq_Container = tr_Container r\<rparr>"

record shell_response =
  sr_SessionID :: string
  sr_Data :: string
  sr_Exit :: bool
  sr_Status :: string
  sr_Error :: "shell_error option"
  sr_Container :: string
  sr_Containers :: "string list"

definition shell_reply :: "string \<Rightarrow> shell_response" where
  "shell_reply i = \<lparr>sr_SessionID = i, sr_Data = [], sr_Exit = False, sr_Status = [], sr_Error = None, sr_Container = [],
     sr_Containers = []\<rparr>"

definition shell_refusal :: "shell_error \<Rightarrow> shell_response" where
  "shell_refusal e = (shell_reply [])\<lparr>sr_Error := Some e\<rparr>"

record shell_env =
  he_now :: time
  he_uuid :: string
  he_poll :: "string + pod"
  he_polls :: "(string + pod) list"
  he_executor :: "string option"
  he_piped :: bool

definition openSession ::
  "shell_env \<Rightarrow> string \<Rightarrow> string \<Rightarrow> string \<Rightarrow> manager \<Rightarrow> (shell_error + (shell_session \<times> string list)) \<times> manager" where
  "openSession e ns nam want m = (case waitRunning ns nam (he_poll e) (he_polls e) of
     Inl err \<Rightarrow> (Inl err, m)
   | Inr p \<Rightarrow> (case resolveContainer p want of
        Inl err \<Rightarrow> (Inl err, m)
      | Inr container \<Rightarrow>
          (let s = \<lparr>ss_id = he_uuid e, ss_namespace = ns, ss_name = nam, ss_container = container, ss_stdin = [],
                    ss_stdinClosed = False, ss_cancelled = False, ss_outBuf = [], ss_closed = False, ss_lastUsed = he_now e\<rparr>
           in case he_executor e of
                Some err \<Rightarrow> (Inl (ExecutorFailed err), m)
              | None \<Rightarrow> (Inr (s, containerNames p),
                  m\<lparr>pm_heap := pm_heap m @ [s], pm_sessions := map_put (ss_id s) (length (pm_heap m)) (pm_sessions m)\<rparr>))))"

definition dropAndClose :: "string \<Rightarrow> manager \<Rightarrow> manager" where
  "dropAndClose i m = (case map_of (pm_sessions m) i of
     None \<Rightarrow> m
   | Some a \<Rightarrow> update_session a close_session (m\<lparr>pm_sessions := map_del i (pm_sessions m)\<rparr>))"

definition handleStart :: "shell_env \<Rightarrow> shell_request \<Rightarrow> manager \<Rightarrow> (shell_response \<times> int) \<times> manager" where
  "handleStart e r m =
     (if sq_Name r = [] \<or> sq_Namespace r = [] then ((shell_refusal NameRequired, 400), m)
      else if \<not> pm_hasClient m then ((shell_refusal NoClient, 503), m)
      else (case openSession e (sq_Namespace r) (sq_Name r) (sq_Container r) m of
         (Inl err, m') \<Rightarrow> ((shell_refusal err, 500), m')
       | (Inr (s, containers), m') \<Rightarrow>
           (((shell_reply (ss_id s))\<lparr>sr_Container := ss_container s, sr_Containers := containers\<rparr>, 200), m')))"

definition handleExec :: "shell_env \<Rightarrow> shell_request \<Rightarrow> manager \<Rightarrow> (shell_response \<times> int) \<times> manager" where
  "handleExec e r m =
     (if sq_SessionID r = [] then ((shell_refusal SessionRequired, 400), m)
      else (case map_of (pm_sessions m) (sq_SessionID r) of
         None \<Rightarrow> (((shell_reply (sq_SessionID r))\<lparr>sr_Exit := True\<rparr>, 200), m)
       | Some a \<Rightarrow>
           if trim_space (sq_Command r) = ''exit'' then
             (((shell_reply (sq_SessionID r))\<lparr>sr_Exit := True\<rparr>, 200), dropAndClose (sq_SessionID r) m)
           else (case write_session (he_piped e) (he_now e) (sq_Command r) (pm_heap m ! a) of
              (ok, s') \<Rightarrow>
                (((shell_reply (sq_SessionID r))\<lparr>sr_Status := (if ok then ''accepted'' else ''busy'')\<rparr>, 200),
                 update_session a (\<lambda>_. s') m))))"

definition handleRead :: "shell_env \<Rightarrow> shell_request \<Rightarrow> manager \<Rightarrow> (shell_response \<times> int) \<times> manager" where
  "handleRead e r m =
     (if sq_SessionID r = [] then ((shell_refusal SessionRequired, 400), m)
      else (case map_of (pm_sessions m) (sq_SessionID r) of
         None \<Rightarrow> (((shell_reply (sq_SessionID r))\<lparr>sr_Exit := True\<rparr>, 200), m)
       | Some a \<Rightarrow> (case drain_session (he_now e) (pm_heap m ! a) of
            ((data, closed), s') \<Rightarrow>
              (((shell_reply (sq_SessionID r))\<lparr>sr_Data := data, sr_Exit := closed\<rparr>, 200), update_session a (\<lambda>_. s') m))))"

definition handleClose :: "shell_request \<Rightarrow> manager \<Rightarrow> (shell_response \<times> int) \<times> manager" where
  "handleClose r m =
     (if sq_SessionID r = [] then ((shell_refusal SessionRequired, 400), m)
      else (((shell_reply (sq_SessionID r))\<lparr>sr_Exit := True\<rparr>, 200), dropAndClose (sq_SessionID r) m))"

definition HandleShell :: "shell_env \<Rightarrow> shell_request \<Rightarrow> manager \<Rightarrow> (shell_response \<times> int) \<times> manager" where
  "HandleShell e r m =
     (if sq_Action r = ''start'' then handleStart e r m
      else if sq_Action r = ''exec'' then handleExec e r m
      else if sq_Action r = ''read'' then handleRead e r m
      else if sq_Action r = ''close'' then handleClose r m
      else ((shell_refusal InvalidAction, 400), m))"

section \<open>Sweeps\<close>

definition expired :: "time \<Rightarrow> manager \<Rightarrow> string \<times> nat \<Rightarrow> bool" where
  "expired now m p \<longleftrightarrow> pm_idleTimeout m < time_sub now (ss_lastUsed (pm_heap m ! snd p))"

definition close_all_at :: "nat list \<Rightarrow> manager \<Rightarrow> manager" where
  "close_all_at as m = foldl (\<lambda>m a. update_session a close_session m) m as"

definition reap :: "time \<Rightarrow> manager \<Rightarrow> manager" where
  "reap now m =
     close_all_at (map snd (filter (expired now m) (pm_sessions m)))
       (m\<lparr>pm_sessions := filter (\<lambda>p. \<not> expired now m p) (pm_sessions m)\<rparr>)"

definition closeAll :: "manager \<Rightarrow> manager" where
  "closeAll m = close_all_at (map snd (pm_sessions m)) (m\<lparr>pm_sessions := []\<rparr>)"

section \<open>Runs\<close>

datatype shell_label =
  Request shell_request shell_response int
| Output nat string
| StreamEnd nat "string option"
| Reap time
| Shutdown

inductive shell_step :: "manager \<Rightarrow> shell_label \<Rightarrow> manager \<Rightarrow> bool" where
  request: "he_uuid e \<noteq> [] \<Longrightarrow> he_uuid e \<notin> ss_id ` set (pm_heap m) \<Longrightarrow> HandleShell e r m = ((resp, status), m') \<Longrightarrow>
    shell_step m (Request r resp status) m'"
| stream_output: "a < length (pm_heap m) \<Longrightarrow> shell_step m (Output a p) (update_session a (outWriter_Write now p) m)"
| stream_ended: "a < length (pm_heap m) \<Longrightarrow> shell_step m (StreamEnd a err) (update_session a (stream_end err) m)"
| sweep: "shell_step m (Reap now) (reap now m)"
| shutdown: "shell_step m Shutdown (closeAll m)"

inductive shell_run :: "manager \<Rightarrow> shell_label list \<Rightarrow> manager \<Rightarrow> bool" for m0 where
  start: "shell_run m0 [] m0"
| step: "shell_run m0 ls m \<Longrightarrow> shell_step m l m' \<Longrightarrow> shell_run m0 (ls @ [l]) m'"

text \<open>What the stream of a session wrote, what clients read under an id, and the input that was
  accepted under an id.\<close>

fun output_of :: "nat \<Rightarrow> shell_label \<Rightarrow> string" where
  "output_of a (Output b p) = (if a = b then p else [])"
| "output_of a (StreamEnd b err) = (if a = b then stream_note err else [])"
| "output_of a l = []"

fun read_under :: "string \<Rightarrow> shell_label \<Rightarrow> string" where
  "read_under i (Request r resp status) = (if sr_SessionID resp = i then sr_Data resp else [])"
| "read_under i l = []"

fun input_under :: "string \<Rightarrow> shell_label \<Rightarrow> string" where
  "input_under i (Request r resp status) =
     (if sr_SessionID resp = i \<and> sr_Status resp = ''accepted'' then sq_Command r else [])"
| "input_under i l = []"

section \<open>Invariant\<close>

definition shell_inv :: "manager \<Rightarrow> bool" where
  "shell_inv m \<longleftrightarrow> distinct (map ss_id (pm_heap m)) \<and> wf_map (pm_sessions m) \<and> [] \<notin> ss_id ` set (pm_heap m) \<and>
     (\<forall>(i, a) \<in> set (pm_sessions m). a < length (pm_heap m) \<and> ss_id (pm_heap m ! a) = i) \<and>
     (\<forall>a < length (pm_heap m). map_of (pm_sessions m) (ss_id (pm_heap m ! a)) = None \<longrightarrow>
        ss_closed (pm_heap m ! a) \<and> ss_stdinClosed (pm_heap m ! a) \<and> ss_cancelled (pm_heap m ! a))"

text \<open>The history of a session: what its stream wrote has been read or waits in the buffer, and what
  was accepted is in its pipe. Nothing was read or accepted under an id that is no session's.\<close>

definition history_ok :: "shell_label list \<Rightarrow> manager \<Rightarrow> bool" where
  "history_ok ls m \<longleftrightarrow>
     (\<forall>a < length (pm_heap m).
        concat (map (output_of a) ls) = concat (map (read_under (ss_id (pm_heap m ! a))) ls) @ ss_outBuf (pm_heap m ! a) \<and>
        ss_stdin (pm_heap m ! a) = concat (map (input_under (ss_id (pm_heap m ! a))) ls)) \<and>
     (\<forall>a \<ge> length (pm_heap m). concat (map (output_of a) ls) = []) \<and>
     (\<forall>i. i \<notin> ss_id ` set (pm_heap m) \<longrightarrow> concat (map (read_under i) ls) = [] \<and> concat (map (input_under i) ls) = [])"

lemma heap_update_session [simp]:
  "pm_heap (update_session a u m) = (pm_heap m)[a := u (pm_heap m ! a)]"
  "pm_sessions (update_session a u m) = pm_sessions m" "pm_idleTimeout (update_session a u m) = pm_idleTimeout m"
  by (simp_all add: update_session_def)

lemma session_op_simps [simp]:
  "ss_id (touch t s) = ss_id s" "ss_id (close_session s) = ss_id s" "ss_id (outWriter_Write t p s) = ss_id s"
  "ss_id (stream_end err s) = ss_id s"
  "ss_outBuf (close_session s) = ss_outBuf s" "ss_stdin (close_session s) = ss_stdin s"
  "ss_closed (close_session s)" "ss_stdinClosed (close_session s)" "ss_cancelled (close_session s)"
  "ss_closed (touch t s) = ss_closed s" "ss_stdinClosed (touch t s) = ss_stdinClosed s" "ss_cancelled (touch t s) = ss_cancelled s"
  "ss_outBuf (touch t s) = ss_outBuf s" "ss_stdin (touch t s) = ss_stdin s"
  by (simp_all add: touch_def close_session_def outWriter_Write_def stream_end_def)

lemma nth_list_update_at: "b < length h \<Longrightarrow> h[a := x] ! b = (if a = b then x else h ! b)"
  by (cases "a < length h") (auto simp: nth_list_update)

lemma map_ss_id_update: "ss_id (u (h ! a)) = ss_id (h ! a) \<Longrightarrow> map ss_id (h[a := u (h ! a)]) = map ss_id h"
  by (metis list_update_beyond list_update_id map_update not_le)

lemma ids_image: "ss_id ` set h = set (map ss_id h)"
  by simp

lemma shell_inv_update:
  assumes "shell_inv m" "\<And>s. ss_id (u s) = ss_id s"
    "\<And>s. ss_closed s \<Longrightarrow> ss_closed (u s)" "\<And>s. ss_stdinClosed s \<Longrightarrow> ss_stdinClosed (u s)" "\<And>s. ss_cancelled s \<Longrightarrow> ss_cancelled (u s)"
  shows "shell_inv (update_session a u m)"
proof -
  have ids: "map ss_id (pm_heap (update_session a u m)) = map ss_id (pm_heap m)"
    by (simp add: map_ss_id_update assms(2))
  then have img: "ss_id ` set (pm_heap (update_session a u m)) = ss_id ` set (pm_heap m)"
    unfolding ids_image by simp
  show ?thesis
    using assms unfolding shell_inv_def ids img
    by (auto simp: nth_list_update_at split: if_splits)
qed

lemma history_update:
  assumes "history_ok ls m" "a < length (pm_heap m)" "\<And>s. ss_id (u s) = ss_id s"
    and "\<And>b. b < length (pm_heap m) \<Longrightarrow> b \<noteq> a \<Longrightarrow> output_of b l = [] \<and> read_under (ss_id (pm_heap m ! b)) l = [] \<and>
           input_under (ss_id (pm_heap m ! b)) l = []"
    and "\<And>b. b \<ge> length (pm_heap m) \<Longrightarrow> output_of b l = []"
    and "\<And>i. i \<notin> ss_id ` set (pm_heap m) \<Longrightarrow> read_under i l = [] \<and> input_under i l = []"
    and "ss_outBuf (pm_heap m ! a) @ output_of a l = read_under (ss_id (pm_heap m ! a)) l @ ss_outBuf (u (pm_heap m ! a))"
    and "ss_stdin (u (pm_heap m ! a)) = ss_stdin (pm_heap m ! a) @ input_under (ss_id (pm_heap m ! a)) l"
  shows "history_ok (ls @ [l]) (update_session a u m)"
proof -
  have img: "ss_id ` set (pm_heap (update_session a u m)) = ss_id ` set (pm_heap m)"
    unfolding ids_image by (simp add: map_ss_id_update assms(3) flip: set_map)
  show ?thesis
    unfolding history_ok_def img
    using assms by (auto simp: history_ok_def nth_list_update_at)
qed

lemma history_quiet:
  assumes "history_ok ls m" "map ss_id (pm_heap m') = map ss_id (pm_heap m)"
    "map ss_outBuf (pm_heap m') = map ss_outBuf (pm_heap m)" "map ss_stdin (pm_heap m') = map ss_stdin (pm_heap m)"
    "\<And>b. output_of b l = []" "\<And>i. read_under i l = []" "\<And>i. input_under i l = []"
  shows "history_ok (ls @ [l]) m'"
proof -
  have len: "length (pm_heap m') = length (pm_heap m)" using assms(2) by (metis length_map)
  have img: "ss_id ` set (pm_heap m') = ss_id ` set (pm_heap m)" unfolding ids_image assms(2) ..
  have nth: "ss_id (pm_heap m' ! a) = ss_id (pm_heap m ! a)" "ss_outBuf (pm_heap m' ! a) = ss_outBuf (pm_heap m ! a)"
    "ss_stdin (pm_heap m' ! a) = ss_stdin (pm_heap m ! a)" if "a < length (pm_heap m)" for a
    using that assms(2-4) len by (metis nth_map)+
  show ?thesis using assms(1,5-7) by (auto simp: history_ok_def len img nth)
qed

lemma close_all_at_heap:
  "pm_sessions (close_all_at as m) = pm_sessions m" "pm_idleTimeout (close_all_at as m) = pm_idleTimeout m"
  "length (pm_heap (close_all_at as m)) = length (pm_heap m)"
  "b < length (pm_heap m) \<Longrightarrow> pm_heap (close_all_at as m) ! b = (if b \<in> set as then close_session (pm_heap m ! b) else pm_heap m ! b)"
proof (induction as rule: rev_induct)
  case (snoc a as)
  {
    case 4
    then show ?case using snoc
      by (auto simp: close_all_at_def nth_list_update_at close_session_def)
  }
qed (simp_all add: close_all_at_def)

lemma close_all_at_maps:
  "map ss_id (pm_heap (close_all_at as m)) = map ss_id (pm_heap m)"
  "map ss_outBuf (pm_heap (close_all_at as m)) = map ss_outBuf (pm_heap m)"
  "map ss_stdin (pm_heap (close_all_at as m)) = map ss_stdin (pm_heap m)"
  by (auto intro!: nth_equalityI simp: close_all_at_heap)

definition drop_sessions :: "(string \<times> nat \<Rightarrow> bool) \<Rightarrow> manager \<Rightarrow> manager" where
  "drop_sessions P m = close_all_at (map snd (filter P (pm_sessions m))) (m\<lparr>pm_sessions := filter (\<lambda>p. \<not> P p) (pm_sessions m)\<rparr>)"

lemma reap_drop: "reap now m = drop_sessions (expired now m) m"
  by (simp add: reap_def drop_sessions_def)

lemma closeAll_drop: "closeAll m = drop_sessions (\<lambda>_. True) m"
  by (simp add: closeAll_def drop_sessions_def)

lemma filter_key_unique: "wf_map m \<Longrightarrow> map_of m i = Some a \<Longrightarrow> filter (\<lambda>p. fst p = i) m = [(i, a)]"
  by (induction m) (force simp: wf_map_def filter_empty_conv)+

lemma dropAndClose_drop: "shell_inv m \<Longrightarrow> dropAndClose i m = drop_sessions (\<lambda>p. fst p = i) m"
proof (cases "map_of (pm_sessions m) i")
  case None
  then have "filter (\<lambda>p. fst p = i) (pm_sessions m) = []" "filter (\<lambda>p. fst p \<noteq> i) (pm_sessions m) = pm_sessions m"
    by (auto simp: map_of_eq_None_iff filter_empty_conv filter_id_conv)
  then show ?thesis using None by (simp add: dropAndClose_def drop_sessions_def close_all_at_def)
next
  case (Some a)
  moreover assume "shell_inv m"
  ultimately show ?thesis
    using filter_key_unique[of "pm_sessions m" i a]
    by (simp add: dropAndClose_def drop_sessions_def close_all_at_def map_del_def shell_inv_def)
qed

lemma shell_inv_entry:
  assumes "shell_inv m" "map_of (pm_sessions m) i = Some a"
  shows "a < length (pm_heap m)" "ss_id (pm_heap m ! a) = i" "i \<noteq> []"
proof -
  have "(i, a) \<in> set (pm_sessions m)" using assms(2) by (rule map_of_SomeD)
  with assms(1) show "a < length (pm_heap m)" "ss_id (pm_heap m ! a) = i" by (auto simp: shell_inv_def)
  with assms(1) show "i \<noteq> []" by (metis image_eqI nth_mem shell_inv_def)
qed

lemma same_id_same_session:
  "shell_inv m \<Longrightarrow> a < length (pm_heap m) \<Longrightarrow> b < length (pm_heap m) \<Longrightarrow> ss_id (pm_heap m ! a) = ss_id (pm_heap m ! b) \<Longrightarrow> a = b"
  using nth_eq_iff_index_eq[of "map ss_id (pm_heap m)" a b] by (simp add: shell_inv_def)

lemma shell_inv_drop:
  assumes "shell_inv m"
  shows "shell_inv (drop_sessions P m)"
proof -
  let ?m = "drop_sessions P m"
  have maps: "map ss_id (pm_heap ?m) = map ss_id (pm_heap m)"
    by (simp add: drop_sessions_def close_all_at_maps)
  then have img: "ss_id ` set (pm_heap ?m) = ss_id ` set (pm_heap m)" unfolding ids_image by simp
  have len: "length (pm_heap ?m) = length (pm_heap m)" using maps by (metis length_map)
  have ids: "ss_id (pm_heap ?m ! a) = ss_id (pm_heap m ! a)" if "a < length (pm_heap m)" for a
    using that maps len by (metis nth_map)
  have sess: "pm_sessions ?m = filter (\<lambda>p. \<not> P p) (pm_sessions m)"
    by (simp add: drop_sessions_def close_all_at_heap)
  have gone: "ss_closed (pm_heap ?m ! a) \<and> ss_stdinClosed (pm_heap ?m ! a) \<and> ss_cancelled (pm_heap ?m ! a)"
    if a: "a < length (pm_heap m)" and none: "map_of (pm_sessions ?m) (ss_id (pm_heap m ! a)) = None" for a
  proof (cases "map_of (pm_sessions m) (ss_id (pm_heap m ! a))")
    case None
    then show ?thesis using assms a by (auto simp: drop_sessions_def close_all_at_heap shell_inv_def)
  next
    case (Some b)
    then have "b = a" using shell_inv_entry[OF assms Some] same_id_same_session[OF assms] a by metis
    with Some have mem: "(ss_id (pm_heap m ! a), a) \<in> set (pm_sessions m)" by (auto dest: map_of_SomeD)
    then have "P (ss_id (pm_heap m ! a), a)"
      using none unfolding sess by (auto simp: map_of_eq_None_iff image_iff)
    with mem have "a \<in> set (map snd (filter P (pm_sessions m)))" by force
    then show ?thesis using a by (simp add: drop_sessions_def close_all_at_heap)
  qed
  have wf: "wf_map (pm_sessions ?m)" using assms by (simp add: sess shell_inv_def)
  have ent: "\<forall>(i, a) \<in> set (pm_sessions ?m). a < length (pm_heap ?m) \<and> ss_id (pm_heap ?m ! a) = i"
    using assms by (auto simp: sess len ids shell_inv_def)
  show ?thesis
    unfolding shell_inv_def maps img
    using assms wf ent gone by (simp add: shell_inv_def len ids)
qed

lemma history_drop:
  assumes "history_ok ls m" "\<And>b. output_of b l = []" "\<And>i. read_under i l = []" "\<And>i. input_under i l = []"
  shows "history_ok (ls @ [l]) (drop_sessions P m)"
  by (rule history_quiet[OF assms(1)]) (simp_all add: drop_sessions_def close_all_at_maps assms)

lemma openSession_ok:
  assumes "shell_inv m" "history_ok ls m" "openSession e ns nam want m = (Inr (s, cs), m')"
    and "he_uuid e \<noteq> []" "he_uuid e \<notin> ss_id ` set (pm_heap m)"
    and "\<And>i. read_under i l = []" "\<And>i. input_under i l = []" "\<And>b. output_of b l = []"
  shows "shell_inv m'" "history_ok (ls @ [l]) m'"
proof -
  have m': "pm_heap m' = pm_heap m @ [s]" "pm_sessions m' = map_put (he_uuid e) (length (pm_heap m)) (pm_sessions m)"
    and s: "ss_id s = he_uuid e" "ss_outBuf s = []" "ss_stdin s = []"
    using assms(3) by (auto simp: openSession_def Let_def split: sum.splits option.splits)
  have mem: "p \<in> set (map_put k v xs) \<Longrightarrow> p = (k, v) \<or> p \<in> set xs" for p k v and xs :: "(string, nat) gomap"
    using set_map_put[of k v xs] by auto
  show "shell_inv m'"
    using assms(1,4,5) s unfolding shell_inv_def m'
    by (auto simp: nth_append less_Suc_eq dest!: mem)
  show "history_ok (ls @ [l]) m'"
    using assms(2,5-8) s unfolding history_ok_def m'
    by (auto simp: nth_append less_Suc_eq simp del: concat_eq_Nil_conv)
qed

lemma touch_only:
  "snd (drain_session t s) = touch t (s\<lparr>ss_outBuf := []\<rparr>)" "fst (drain_session t s) = (ss_outBuf s, ss_closed s)"
  by (simp_all add: drain_session_def)

lemma write_session_ok:
  assumes "write_session piped t x s = (ok, s')"
  shows "ss_id s' = ss_id s" "ss_outBuf s' = ss_outBuf s" "ss_stdin s' = ss_stdin s @ (if ok then x else [])"
    "ss_closed s' = ss_closed s" "ss_stdinClosed s' = ss_stdinClosed s" "ss_cancelled s' = ss_cancelled s"
  using assms by (auto simp: write_session_def split: if_splits)

lemma shell_inv_set:
  assumes "shell_inv m" "ss_id s' = ss_id (pm_heap m ! a)" "ss_closed s' = ss_closed (pm_heap m ! a)"
    "ss_stdinClosed s' = ss_stdinClosed (pm_heap m ! a)" "ss_cancelled s' = ss_cancelled (pm_heap m ! a)"
  shows "shell_inv (update_session a (\<lambda>_. s') m)"
proof -
  have maps: "map ss_id (pm_heap (update_session a (\<lambda>_. s') m)) = map ss_id (pm_heap m)"
    using map_ss_id_update[of "\<lambda>_. s'" "pm_heap m" a] assms(2) by simp
  then have img: "ss_id ` set (pm_heap (update_session a (\<lambda>_. s') m)) = ss_id ` set (pm_heap m)"
    unfolding ids_image by simp
  show ?thesis using assms unfolding shell_inv_def maps img
    by (auto simp: nth_list_update_at split: if_splits)
qed

lemma history_set:
  assumes "shell_inv m" "history_ok ls m" "a < length (pm_heap m)" "ss_id s' = ss_id (pm_heap m ! a)"
    and "\<And>b. output_of b l = []" "\<And>i. i \<noteq> ss_id (pm_heap m ! a) \<Longrightarrow> read_under i l = [] \<and> input_under i l = []"
    and "ss_outBuf (pm_heap m ! a) = read_under (ss_id (pm_heap m ! a)) l @ ss_outBuf s'"
    and "ss_stdin s' = ss_stdin (pm_heap m ! a) @ input_under (ss_id (pm_heap m ! a)) l"
  shows "history_ok (ls @ [l]) (update_session a (\<lambda>_. s') m)"
proof -
  have img: "ss_id ` set (pm_heap (update_session a (\<lambda>_. s') m)) = ss_id ` set (pm_heap m)"
    unfolding ids_image using map_ss_id_update[of "\<lambda>_. s'" "pm_heap m" a] assms(4) by (simp flip: set_map)
  have other: "ss_id (pm_heap m ! b) \<noteq> ss_id (pm_heap m ! a)" if "b < length (pm_heap m)" "b \<noteq> a" for b
    using same_id_same_session[OF assms(1) that(1) assms(3)] that(2) by blast
  have "read_under i l = [] \<and> input_under i l = []" if "i \<notin> ss_id ` set (pm_heap m)" for i
    using that assms(3,6) by (metis image_eqI nth_mem)
  then show ?thesis
    unfolding history_ok_def img using assms(2-) other
    by (auto simp: history_ok_def nth_list_update_at simp del: concat_eq_Nil_conv)
qed

lemma handleStart_ok:
  assumes "shell_inv m" "history_ok ls m" "he_uuid e \<noteq> []" "he_uuid e \<notin> ss_id ` set (pm_heap m)"
    and "handleStart e r m = ((resp, status), m')"
  shows "shell_inv m' \<and> history_ok (ls @ [Request r resp status]) m'"
proof (cases "openSession e (sq_Namespace r) (sq_Name r) (sq_Container r) m")
  case (Pair x m1)
  have quiet: "sr_Data resp = []" "sr_Status resp = []"
    using assms(5) Pair by (auto simp: handleStart_def shell_refusal_def shell_reply_def split: if_splits sum.splits)
  show ?thesis
  proof (cases "m' = m")
    case True
    then show ?thesis using assms(1) history_quiet[OF assms(2), of m "Request r resp status"] quiet by simp
  next
    case False
    then obtain s cs where "openSession e (sq_Namespace r) (sq_Name r) (sq_Container r) m = (Inr (s, cs), m')"
      using assms(5) Pair
      by (auto simp: handleStart_def openSession_def Let_def split: if_splits sum.splits option.splits)
    from openSession_ok[OF assms(1,2) this assms(3,4), of "Request r resp status"] quiet show ?thesis by simp
  qed
qed

lemma HandleShell_ok:
  assumes "shell_inv m" "history_ok ls m" "he_uuid e \<noteq> []" "he_uuid e \<notin> ss_id ` set (pm_heap m)"
    and "HandleShell e r m = ((resp, status), m')"
  shows "shell_inv m' \<and> history_ok (ls @ [Request r resp status]) m'"
proof -
  have quiet: ?thesis if "m' = m \<or> m' = dropAndClose i m" "sr_Data resp = []" "sr_Status resp = []" for i
    using that history_quiet[OF assms(2), of m "Request r resp status"] assms(1) shell_inv_drop[OF assms(1)]
      history_drop[OF assms(2), of "Request r resp status"] by (auto simp: dropAndClose_drop[OF assms(1)])
  note entry = shell_inv_entry[OF assms(1)]
  note replies = shell_reply_def shell_refusal_def
  have exec: ?thesis if h: "handleExec e r m = ((resp, status), m')"
  proof (cases "\<exists>a. map_of (pm_sessions m) (sq_SessionID r) = Some a \<and> trim_space (sq_Command r) \<noteq> ''exit'' \<and> sq_SessionID r \<noteq> []")
    case True
    then obtain a ok s' where a: "map_of (pm_sessions m) (sq_SessionID r) = Some a"
      and w: "write_session (he_piped e) (he_now e) (sq_Command r) (pm_heap m ! a) = (ok, s')"
      and m': "m' = update_session a (\<lambda>_. s') m"
      and resp: "sr_SessionID resp = sq_SessionID r" "sr_Data resp = []" "sr_Status resp = (if ok then ''accepted'' else ''busy'')"
      using h by (auto simp: handleExec_def replies split: prod.splits)
    note ws = write_session_ok[OF w]
    show ?thesis unfolding m'
      using shell_inv_set[OF assms(1)] history_set[OF assms(1,2) entry(1)[OF a]] entry(2)[OF a] ws resp by simp
  qed (rule quiet, use h in \<open>auto simp: handleExec_def replies split: if_splits option.splits prod.splits\<close>)
  have read: ?thesis if h: "handleRead e r m = ((resp, status), m')"
  proof (cases "\<exists>a. map_of (pm_sessions m) (sq_SessionID r) = Some a \<and> sq_SessionID r \<noteq> []")
    case True
    then obtain a where a: "map_of (pm_sessions m) (sq_SessionID r) = Some a"
      and m': "m' = update_session a (\<lambda>_. snd (drain_session (he_now e) (pm_heap m ! a))) m"
      and resp: "sr_SessionID resp = sq_SessionID r" "sr_Data resp = ss_outBuf (pm_heap m ! a)" "sr_Status resp = []"
      using h by (auto simp: handleRead_def replies drain_session_def split: prod.splits)
    show ?thesis unfolding m'
      using shell_inv_set[OF assms(1)] history_set[OF assms(1,2) entry(1)[OF a]] entry(2)[OF a] resp
      by (simp add: drain_session_def)
  qed (rule quiet, use h in \<open>auto simp: handleRead_def replies split: if_splits option.splits prod.splits\<close>)
  have close: ?thesis if "handleClose r m = ((resp, status), m')"
    by (rule quiet[of "sq_SessionID r"]) (use that in \<open>auto simp: handleClose_def replies split: if_splits\<close>)
  show ?thesis
    using assms(5) handleStart_ok[OF assms(1-4)] exec read close quiet
    by (auto simp: HandleShell_def replies split: if_splits)
qed

lemma shell_step_ok:
  assumes "shell_step m l m'" "shell_inv m" "history_ok ls m"
  shows "shell_inv m' \<and> history_ok (ls @ [l]) m'"
  using assms(1)
proof cases
  case (request e r resp status)
  then show ?thesis using HandleShell_ok[OF assms(2,3)] by simp
next
  case (stream_output a p now)
  show ?thesis unfolding stream_output
    by (intro conjI shell_inv_update history_update assms) (use stream_output in \<open>auto simp: outWriter_Write_def\<close>)
next
  case (stream_ended a err)
  show ?thesis unfolding stream_ended
    by (intro conjI shell_inv_update history_update assms) (use stream_ended in \<open>auto simp: stream_end_def\<close>)
next
  case (sweep now)
  then show ?thesis by (simp add: reap_drop shell_inv_drop history_drop assms)
next
  case shutdown
  then show ?thesis by (simp add: closeAll_drop shell_inv_drop history_drop assms)
qed

lemma shell_run_ok:
  assumes "shell_run (NewManager c) ls m"
  shows "shell_inv m \<and> history_ok ls m"
  using assms
proof (induction rule: shell_run.induct)
  case start
  show ?case by (simp add: NewManager_def shell_inv_def history_ok_def)
next
  case (step ls m l m')
  then show ?case using shell_step_ok by blast
qed

section \<open>Properties\<close>

text \<open>C12: output is returned once, in order, and to its own session. In every run of a manager,
  whatever the interleaving of requests, stream output, sweeps and the shutdown, the bytes the
  stream of a session wrote (the note of a failed stream included) are exactly those clients
  have read under the id of that session, in order, followed by what its buffer still holds; and
  the input its remote shell received is exactly the commands accepted under its id, in order.
  Ids are distinct, so nothing passes from one session to another.\<close>

theorem shell_session_isolation:
  assumes "shell_run (NewManager c) ls m" "a < length (pm_heap m)"
  shows "concat (map (output_of a) ls) = concat (map (read_under (ss_id (pm_heap m ! a))) ls) @ ss_outBuf (pm_heap m ! a) \<and>
    ss_stdin (pm_heap m ! a) = concat (map (input_under (ss_id (pm_heap m ! a))) ls) \<and>
    (\<forall>b < length (pm_heap m). b \<noteq> a \<longrightarrow> ss_id (pm_heap m ! b) \<noteq> ss_id (pm_heap m ! a))"
  using shell_run_ok[OF assms(1)] assms(2) same_id_same_session[of m _ a] by (auto simp: history_ok_def)

text \<open>C13: no shell is left open behind the map. In every run, a session that is not in the live map
  any more (closed, exited, swept or shut down) has its stream cancelled and its input closed;
  every live one is stored under its own id; after a sweep every live session was used within
  the idle timeout, and after the shutdown every session ever opened is closed.\<close>

theorem shell_no_leak:
  assumes "shell_run (NewManager c) ls m"
  shows "(\<forall>s \<in> set (pm_heap m). map_of (pm_sessions m) (ss_id s) = None \<longrightarrow> ss_cancelled s \<and> ss_stdinClosed s \<and> ss_closed s) \<and>
    (\<forall>i a. map_of (pm_sessions (reap now m)) i = Some a \<longrightarrow>
       ss_id (pm_heap m ! a) = i \<and> time_sub now (ss_lastUsed (pm_heap m ! a)) \<le> pm_idleTimeout m) \<and>
    (\<forall>s \<in> set (pm_heap (closeAll m)). ss_cancelled s \<and> ss_stdinClosed s \<and> ss_closed s)"
proof (intro conjI)
  have inv: "shell_inv m" using shell_run_ok[OF assms] by blast
  then show "\<forall>s \<in> set (pm_heap m). map_of (pm_sessions m) (ss_id s) = None \<longrightarrow> ss_cancelled s \<and> ss_stdinClosed s \<and> ss_closed s"
    by (auto simp: shell_inv_def in_set_conv_nth)
  have "shell_inv (closeAll m)" unfolding closeAll_drop by (rule shell_inv_drop[OF inv])
  moreover have "pm_sessions (closeAll m) = []" by (simp add: closeAll_def close_all_at_heap)
  ultimately show "\<forall>s \<in> set (pm_heap (closeAll m)). ss_cancelled s \<and> ss_stdinClosed s \<and> ss_closed s"
    by (auto simp: shell_inv_def in_set_conv_nth)
  have "map_of (pm_sessions m) i = Some a \<and> \<not> expired now m (i, a)" if "map_of (pm_sessions (reap now m)) i = Some a" for i a
    using that inv map_of_filter_wf[of "pm_sessions m" "\<lambda>p. \<not> expired now m p" i]
    by (auto simp: reap_def close_all_at_heap shell_inv_def split: option.splits if_splits)
  with shell_inv_entry[OF inv] show "\<forall>i a. map_of (pm_sessions (reap now m)) i = Some a \<longrightarrow>
     ss_id (pm_heap m ! a) = i \<and> time_sub now (ss_lastUsed (pm_heap m ! a)) \<le> pm_idleTimeout m"
    by (auto simp: expired_def not_less)
qed

text \<open>The container of a session. A named container is used when the pod has it and refused
  otherwise; with no name it is the one the annotation names if the pod has it, else the first;
  init containers, which are not among the pod's containers, are never chosen.\<close>

lemma resolveContainer_spec:
  "resolveContainer p want =
     (if containerNames p = [] then Inl (NoContainers (pod_Namespace p) (pod_Name p))
      else if want \<noteq> [] then
        (if want \<in> set (containerNames p) then Inr want
         else Inl (ContainerNotFound want (pod_Namespace p) (pod_Name p) (containerNames p)))
      else (case map_of (pod_Annotations p) defaultContainerAnnotation of
          Some n \<Rightarrow> if n \<noteq> [] \<and> n \<in> set (containerNames p) then Inr n else Inr (hd (containerNames p))
        | None \<Rightarrow> Inr (hd (containerNames p))))"
proof -
  have "find (\<lambda>n. n = x) xs = (if x \<in> set xs then Some x else None)" for x and xs :: "string list"
    by (induction xs) auto
  then show ?thesis by (auto simp: resolveContainer_def Let_def split: option.splits)
qed

text \<open>Output of the remote side counts as use: it postpones the sweep of a session that nobody reads.\<close>

lemma output_postpones_reap:
  assumes "shell_inv m" "map_of (pm_sessions m) i = Some a" "time_sub now t \<le> pm_idleTimeout m"
  shows "map_of (pm_sessions (reap now (update_session a (outWriter_Write t p) m))) i = Some a"
proof -
  have "a < length (pm_heap m)" by (rule shell_inv_entry(1)[OF assms(1,2)])
  then have "\<not> expired now (update_session a (outWriter_Write t p) m) (i, a)"
    using assms(3) by (simp add: expired_def outWriter_Write_def touch_def)
  then show ?thesis
    using assms(1,2) by (simp add: reap_def close_all_at_heap map_of_filter_wf shell_inv_def)
qed

section \<open>Witnesses\<close>

definition sample_pod :: pod where
  "sample_pod = \<lparr>pod_Namespace = ''ns'', pod_Name = ''web'', pod_Containers = [''app'', ''proxy''], pod_Annotations = [],
     pod_Running = True\<rparr>"

definition sample_shell_env :: "time \<Rightarrow> shell_env" where
  "sample_shell_env t = \<lparr>he_now = t, he_uuid = ''u1'', he_poll = Inr sample_pod, he_polls = [], he_executor = None, he_piped = True\<rparr>"

definition shell_req :: "string \<Rightarrow> string \<Rightarrow> string \<Rightarrow> shell_request" where
  "shell_req action sid command = \<lparr>sq_Action = action, sq_SessionID = sid, sq_Name = ''web'', sq_Namespace = ''ns'', sq_Command = command,
     sq_RequestID = ''r'', sq_Container = ''proxy''\<rparr>"

abbreviation sample_started :: manager where
  "sample_started \<equiv> snd (HandleShell (sample_shell_env 0) (shell_req ''start'' [] []) (NewManager True))"

abbreviation sample_written :: manager where
  "sample_written \<equiv> update_session 0 (outWriter_Write 1 ''hi'') sample_started"

abbreviation sample_read_result :: "(shell_response \<times> int) \<times> manager" where
  "sample_read_result \<equiv> HandleShell ((sample_shell_env 2)\<lparr>he_uuid := ''u2''\<rparr>) (shell_req ''read'' ''u1'' []) sample_written"

definition sample_shell_labels :: "shell_label list" where
  "sample_shell_labels =
     [Request (shell_req ''start'' [] []) (fst (fst (HandleShell (sample_shell_env 0) (shell_req ''start'' [] []) (NewManager True)))) 200,
      Output 0 ''hi'',
      Request (shell_req ''read'' ''u1'' []) (fst (fst sample_read_result)) 200]"

lemma sample_shell_run: "shell_run (NewManager True) sample_shell_labels (snd sample_read_result)"
proof -
  have 1: "HandleShell (sample_shell_env 0) (shell_req ''start'' [] []) (NewManager True) =
      ((fst (fst (HandleShell (sample_shell_env 0) (shell_req ''start'' [] []) (NewManager True))), 200), sample_started)"
    by code_simp
  have 2: "sample_read_result = ((fst (fst sample_read_result), 200), snd sample_read_result)"
    by code_simp
  have 3: "he_uuid (sample_shell_env 0) \<noteq> []" "he_uuid (sample_shell_env 0) \<notin> ss_id ` set (pm_heap (NewManager True))"
    "he_uuid ((sample_shell_env 2)\<lparr>he_uuid := ''u2''\<rparr>) \<noteq> []"
    "he_uuid ((sample_shell_env 2)\<lparr>he_uuid := ''u2''\<rparr>) \<notin> ss_id ` set (pm_heap sample_written)"
    "0 < length (pm_heap sample_started)"
    by code_simp+
  from shell_run.step[OF shell_run.step[OF shell_run.step[OF shell_run.start request[OF 3(1,2) 1]]
      stream_output[OF 3(5), of "''hi''" 1]] request[OF 3(3,4) 2]]
  show ?thesis by (simp add: sample_shell_labels_def)
qed

theorem shell_session_isolation_witness:
  "concat (map (output_of 0) sample_shell_labels) = ''hi'' \<and>
   concat (map (read_under ''u1'') sample_shell_labels) @ ss_outBuf (pm_heap (snd sample_read_result) ! 0) = ''hi''"
proof -
  have "0 < length (pm_heap (snd sample_read_result))" "ss_id (pm_heap (snd sample_read_result) ! 0) = ''u1''"
    "concat (map (output_of 0) sample_shell_labels) = ''hi''"
    by code_simp+
  with shell_session_isolation[OF sample_shell_run, of 0] show ?thesis by simp
qed

theorem shell_no_leak_witness:
  "map_of (pm_sessions (reap 3 (snd sample_read_result))) ''u1'' = Some 0 \<and>
   time_sub 3 (ss_lastUsed (pm_heap (snd sample_read_result) ! 0)) \<le> pm_idleTimeout (snd sample_read_result) \<and>
   list_all ss_cancelled (pm_heap (closeAll (snd sample_read_result)))"
proof -
  have "map_of (pm_sessions (reap 3 (snd sample_read_result))) ''u1'' = Some 0" by code_simp
  with shell_no_leak[OF sample_shell_run, of 3] show ?thesis by (auto simp: list_all_iff)
qed

end
