(* ===== verification/Converters.thy ===== *)
theory Converters
  imports GoFloat GoJson Rfc3339 Base64
begin

text \<open>
  \<open>pkg/discovery/converters.go\<close>, \<open>transform.go\<close>, \<open>helm.go\<close> and the Pod converter of \<open>service.go\<close>: the
  wire items of the inventory. The Kubernetes objects are records of the fields the code reads or
  trims; a field the code only passes on or drops is kept in its JSON form. The methods of a
  resource quantity, the accessors of an unstructured object and gzip are library code, so a
  quantity is what its methods return, a Rollout what its accessors return, and the decoding of a
  Helm release after its base64 layer is a parameter. The theory proves that trimming an object
  never changes its wire item and that every item carries the keys the collector reads.
\<close>

section \<open>Objects\<close>

type_synonym string_map = "(string, string) gomap option"

record owner_reference =
  or_Kind :: string
  or_Name :: string
  or_UID :: string
  or_Controller :: "bool option"

record object_meta =
  om_Name :: string
  om_Namespace :: string
  om_UID :: string
  om_ResourceVersion :: string
  om_CreationTimestamp :: time
  om_Labels :: string_map
  om_Annotations :: string_map
  om_OwnerReferences :: "owner_reference list"
  om_ManagedFields :: "gval list"

record quantity =
  qu_MilliValue :: int
  qu_Value :: int
  qu_AsInt64 :: "int option"
  qu_String :: string

type_synonym resource_list = "(string, quantity) gomap"

record container =
  ct_Name :: string
  ct_Image :: string
  ct_Requests :: resource_list
  ct_Limits :: resource_list
  ct_Env :: "gval list"
  ct_EnvFrom :: "gval list"
  ct_VolumeMounts :: "gval list"
  ct_VolumeDevices :: "gval list"
  ct_LivenessProbe :: "gval option"
  ct_ReadinessProbe :: "gval option"
  ct_StartupProbe :: "gval option"
  ct_Lifecycle :: "gval option"

record toleration =
  to_Key :: string
  to_Operator :: string
  to_Value :: string
  to_Effect :: string
  to_Seconds :: "int option"

record volume =
  vo_Name :: string
  vo_ClaimName :: "string option"

record pod_spec =
  sp_NodeName :: string
  sp_Containers :: "container list"
  sp_InitContainers :: "gval list"
  sp_EphemeralContainers :: "gval list"
  sp_Volumes :: "volume list"
  sp_Tolerations :: "toleration list"
  sp_Affinity :: "gmap option"
  sp_NodeSelector :: string_map
  sp_ServiceAccountName :: string

record pod_template =
  pt_Labels :: string_map
  pt_ManagedFields :: "gval list"
  pt_Spec :: pod_spec

record container_status =
  cs_Name :: string
  cs_Ready :: bool
  cs_RestartCount :: int

record k8s_pod =
  kp_Meta :: object_meta
  kp_Spec :: pod_spec
  kp_Phase :: string
  kp_QOSClass :: string
  kp_PodIP :: string
  kp_Conditions :: "(string \<times> string) list"
  kp_ContainerStatuses :: "container_status list"
  kp_Status :: gval

text \<open>Deployments, StatefulSets and ReplicaSets share their fields; a DaemonSet has its desired number.\<close>

record workload =
  wl_Meta :: object_meta
  wl_Replicas :: "int option"
  wl_Ready :: int
  wl_Template :: pod_template

record daemon_set =
  ds_Meta :: object_meta
  ds_Desired :: int
  ds_Ready :: int
  ds_Template :: pod_template

text \<open>\<open>ro_Replicas\<close> and \<open>ro_Ready\<close> are what \<open>NestedInt64\<close> finds; the template is \<open>None\<close> when absent.\<close>

record rollout =
  ro_Present :: bool
  ro_Meta :: object_meta
  ro_Replicas :: "int option"
  ro_Ready :: "int option"
  ro_Template :: "pod_template option"

record job_status =
  js_Active :: int
  js_Failed :: int
  js_Succeeded :: int
  js_CompletionTime :: "time option"
  js_Conditions :: "(string \<times> string \<times> string) list"

record k8s_job =
  jo_Meta :: object_meta
  jo_Completions :: "int option"
  jo_BackoffLimit :: "int option"
  jo_Template :: pod_template
  jo_Status :: job_status

record cron_job =
  cj_Meta :: object_meta
  cj_Schedule :: string
  cj_Suspend :: "bool option"
  cj_BackoffLimit :: "int option"
  cj_Template :: pod_template
  cj_LastScheduleTime :: "time option"

record k8s_node =
  no_Meta :: object_meta
  no_Taints :: "(string \<times> string \<times> string) list"
  no_Unschedulable :: bool
  no_Addresses :: "(string \<times> string) list"
  no_Conditions :: "(string \<times> string) list"
  no_Capacity :: resource_list
  no_Allocatable :: resource_list
  no_NodeInfo :: "(string, string) gomap"
  no_Images :: "gval list"
  no_VolumesInUse :: "gval list"
  no_VolumesAttached :: "gval list"

record k8s_namespace =
  ns_Meta :: object_meta
  ns_Phase :: string

record k8s_secret =
  se_Meta :: object_meta
  se_Type :: string
  se_Data :: "(string, string) gomap"

datatype k8s_obj =
    KPod k8s_pod | KDeployment workload | KStatefulSet workload | KDaemonSet daemon_set | KReplicaSet workload
  | KRollout rollout | KJob k8s_job | KCronJob cron_job | KNode k8s_node | KNamespace k8s_namespace
  | KSecret k8s_secret | KDeletedUnknown string k8s_obj

section \<open>Helpers\<close>

definition string_map_json :: "string_map \<Rightarrow> gval" where
  "string_map_json m = (case m of None \<Rightarrow> VNil | Some ps \<Rightarrow> VObj (map (\<lambda>p. (fst p, VStr (snd p))) ps))"

definition nonNilLabels :: "string_map \<Rightarrow> string_map" where
  "nonNilLabels m = (case m of None \<Rightarrow> Some [] | Some ps \<Rightarrow> Some ps)"

fun resource_version_loop :: "int \<Rightarrow> string \<Rightarrow> int" where
  "resource_version_loop n [] = n"
| "resource_version_loop n (c # cs) =
     (if \<not> is_digit c then n else resource_version_loop (wrap64 (wrap64 (n * 10) + int (digit_val c))) cs)"

definition parseResourceVersion :: "object_meta \<Rightarrow> int" where
  "parseResourceVersion m = resource_version_loop 0 (om_ResourceVersion m)"

definition unix_milli :: "time \<Rightarrow> int" where
  "unix_milli t = (t - unix_to_internal * second) div 1000000"

definition clampInt32 :: "int \<Rightarrow> int" where
  "clampInt32 v = (if v < 0 then 0 else if 2147483647 < v then 2147483647 else v)"

definition get_label :: "string_map \<Rightarrow> string \<Rightarrow> string" where
  "get_label m k = (case m of None \<Rightarrow> [] | Some ps \<Rightarrow> (case map_of ps k of None \<Rightarrow> [] | Some v \<Rightarrow> v))"

definition map_key_list :: "string_map \<Rightarrow> string list" where
  "map_key_list m = (case m of None \<Rightarrow> [] | Some ps \<Rightarrow> map fst ps)"

definition isHelmRelease :: "string_map \<Rightarrow> string_map \<Rightarrow> bool" where
  "isHelmRelease labels annotations \<longleftrightarrow>
     get_label labels ''app.kubernetes.io/managed-by'' = ''Helm'' \<or>
     list_ex (\<lambda>k. has_prefix k ''helm.'' \<or> has_prefix k ''meta.helm.'') (map_key_list labels) \<or>
     list_ex (\<lambda>k. has_prefix k ''helm.'' \<or> has_prefix k ''meta.helm.'') (map_key_list annotations)"

definition controllerOwner :: "owner_reference list \<Rightarrow> owner_reference option" where
  "controllerOwner refs = (case find (\<lambda>r. or_Controller r = Some True) refs of
     Some r \<Rightarrow> Some r
   | None \<Rightarrow> (case refs of [] \<Rightarrow> None | r # _ \<Rightarrow> Some r))"

text \<open>A ReplicaSet lookup gives the owner references of the cached ReplicaSet.\<close>

type_synonym rs_lookup = "string \<Rightarrow> string \<Rightarrow> owner_reference list option"

definition owner_info :: "string \<Rightarrow> rs_lookup option \<Rightarrow> owner_reference \<Rightarrow> gval" where
  "owner_info namespace rsLookup ow =
     (let plain = VObj [(''kind'', VStr (or_Kind ow)), (''name'', VStr (or_Name ow))] in
      case rsLookup of
        None \<Rightarrow> plain
      | Some look \<Rightarrow>
          if or_Kind ow = ''ReplicaSet'' then
            (case Option.bind (look namespace (or_Name ow)) controllerOwner of
               Some ctrl \<Rightarrow> VObj [(''kind'', VStr (or_Kind ctrl)), (''name'', VStr (or_Name ctrl))]
             | None \<Rightarrow> plain)
          else plain)"

definition ownerInfosWithRSLookup :: "owner_reference list \<Rightarrow> string \<Rightarrow> rs_lookup option \<Rightarrow> gval list" where
  "ownerInfosWithRSLookup owners namespace rsLookup = map (owner_info namespace rsLookup) owners"

definition ownerInfos :: "owner_reference list \<Rightarrow> gval list" where
  "ownerInfos owners = ownerInfosWithRSLookup owners [] None"

section \<open>Templates\<close>

definition serializeResourceList :: "resource_list \<Rightarrow> gmap option" where
  "serializeResourceList l =
     (let m = (case map_of l ''cpu'' of None \<Rightarrow> [] | Some q \<Rightarrow> [(''cpu'', VStr (qu_String q))])
            @ (case map_of l ''memory'' of None \<Rightarrow> [] | Some q \<Rightarrow> [(''memory'', VStr (qu_String q))])
      in if m = [] then None else Some m)"

definition resourceRequirementsDict :: "resource_list \<Rightarrow> resource_list \<Rightarrow> gmap option" where
  "resourceRequirementsDict requests limits =
     (let req = serializeResourceList requests; lim = serializeResourceList limits in
      if req = None \<and> lim = None then None
      else Some ((case req of None \<Rightarrow> [] | Some m \<Rightarrow> [(''requests'', VObj m)])
               @ (case lim of None \<Rightarrow> [] | Some m \<Rightarrow> [(''limits'', VObj m)])))"

definition container_entry :: "container \<Rightarrow> gval" where
  "container_entry c = VObj ([(''name'', VStr (ct_Name c)), (''image'', VStr (ct_Image c))]
     @ (case resourceRequirementsDict (ct_Requests c) (ct_Limits c) of None \<Rightarrow> [] | Some m \<Rightarrow> [(''resources'', VObj m)]))"

definition containersFromTemplate :: "pod_template \<Rightarrow> gval list" where
  "containersFromTemplate tpl = map container_entry (sp_Containers (pt_Spec tpl))"

definition volumesFromTemplate :: "pod_template \<Rightarrow> gval list" where
  "volumesFromTemplate tpl = map (\<lambda>v. VObj ([(''name'', VStr (vo_Name v))]
     @ (case vo_ClaimName v of None \<Rightarrow> []
        | Some claim \<Rightarrow> [(''persistent_volume_claim'', VObj [(''claim_name'', VStr claim)])])))
     (sp_Volumes (pt_Spec tpl))"

definition tolerationsFromTemplate :: "pod_template \<Rightarrow> gval list" where
  "tolerationsFromTemplate tpl = map (\<lambda>t. VObj ([(''key'', VStr (to_Key t)), (''operator'', VStr (to_Operator t)),
       (''value'', VStr (to_Value t)), (''effect'', VStr (to_Effect t))]
     @ (case to_Seconds t of None \<Rightarrow> [] | Some n \<Rightarrow> [(''toleration_seconds'', VInt n)])))
     (sp_Tolerations (pt_Spec tpl))"

definition affinityFromTemplate :: "pod_template \<Rightarrow> gmap" where
  "affinityFromTemplate tpl = (case sp_Affinity (pt_Spec tpl) of None \<Rightarrow> [] | Some m \<Rightarrow> m)"

section \<open>Services\<close>

type_synonym pod_lookup = "string \<Rightarrow> k8s_pod option"

definition serviceDict ::
  "time \<Rightarrow> string \<Rightarrow> object_meta \<Rightarrow> int \<Rightarrow> int \<Rightarrow> pod_template \<Rightarrow> owner_reference list \<Rightarrow> pod_lookup option \<Rightarrow> gmap" where
  "serviceDict now kind meta totalPods readyPods tpl owners lookup =
     (let pod = (case lookup of None \<Rightarrow> None | Some look \<Rightarrow> look (om_UID meta));
          qosClass = (case pod of Some p \<Rightarrow> if kp_QOSClass p \<noteq> [] then VStr (kp_QOSClass p) else VNil | None \<Rightarrow> VNil);
          ip = (case pod of Some p \<Rightarrow> if kp_PodIP p \<noteq> [] then VStr (kp_PodIP p) else VNil | None \<Rightarrow> VNil);
          conditions = (case pod of None \<Rightarrow> []
            | Some p \<Rightarrow> map (\<lambda>(t, s). VObj [(''type'', VStr t), (''status'', VStr s)]) (kp_Conditions p))
      in [(''name'', VStr (om_Name meta)), (''namespace'', VStr (om_Namespace meta)), (''type'', VStr kind),
          (''service_key'', VStr (om_Namespace meta @ ''/'' @ kind @ ''/'' @ om_Name meta)),
          (''resource_version'', VInt (parseResourceVersion meta)),
          (''creation_time'', VStr (format_rfc3339 (om_CreationTimestamp meta))),
          (''update_time'', VInt (unix_milli now)), (''deleted'', VBool False), (''classification'', VStr ''None''),
          (''total_pods'', VInt totalPods), (''ready_pods'', VInt readyPods),
          (''is_helm_release'', VBool (isHelmRelease (om_Labels meta) (om_Annotations meta))),
          (''status'', VNil), (''node_name'', VNil), (''restart_count'', VNil), (''status_dict'', VNil),
          (''config'', VObj
             [(''labels'', string_map_json (nonNilLabels (om_Labels meta))),
              (''template_labels'', string_map_json (nonNilLabels (pt_Labels tpl))),
              (''containers'', VArr (containersFromTemplate tpl)), (''owner'', VArr (ownerInfos owners)),
              (''volumes'', VArr (volumesFromTemplate tpl)), (''toleration'', VArr (tolerationsFromTemplate tpl)),
              (''affinity'', VObj (affinityFromTemplate tpl)),
              (''annotations'', string_map_json (nonNilLabels (om_Annotations meta))),
              (''service_account'', VStr (sp_ServiceAccountName (pt_Spec tpl))), (''qos_class'', qosClass), (''ip'', ip),
              (''conditions'', VArr conditions)])])"

definition workload_replicas :: "workload \<Rightarrow> int" where
  "workload_replicas w = (case wl_Replicas w of None \<Rightarrow> 0 | Some n \<Rightarrow> n)"

definition workload_dict :: "time \<Rightarrow> string \<Rightarrow> pod_lookup option \<Rightarrow> workload \<Rightarrow> gmap" where
  "workload_dict now kind lookup w = serviceDict now kind (wl_Meta w) (workload_replicas w) (wl_Ready w) (wl_Template w)
     (om_OwnerReferences (wl_Meta w)) lookup"

type_synonym converter = "k8s_obj \<Rightarrow> gval option"

definition newDeploymentConverter :: "time \<Rightarrow> pod_lookup option \<Rightarrow> converter" where
  "newDeploymentConverter now lookup obj = (case obj of
     KDeployment w \<Rightarrow> Some (VObj (workload_dict now ''Deployment'' lookup w)) | _ \<Rightarrow> None)"

definition newStatefulSetConverter :: "time \<Rightarrow> pod_lookup option \<Rightarrow> converter" where
  "newStatefulSetConverter now lookup obj = (case obj of
     KStatefulSet w \<Rightarrow> Some (VObj (workload_dict now ''StatefulSet'' lookup w)) | _ \<Rightarrow> None)"

definition newDaemonSetConverter :: "time \<Rightarrow> pod_lookup option \<Rightarrow> converter" where
  "newDaemonSetConverter now lookup obj = (case obj of
     KDaemonSet d \<Rightarrow> Some (VObj (serviceDict now ''DaemonSet'' (ds_Meta d) (ds_Desired d) (ds_Ready d) (ds_Template d)
       (om_OwnerReferences (ds_Meta d)) lookup))
   | _ \<Rightarrow> None)"

definition newReplicaSetConverter :: "time \<Rightarrow> pod_lookup option \<Rightarrow> converter" where
  "newReplicaSetConverter now lookup obj = (case obj of
     KReplicaSet w \<Rightarrow>
       if workload_replicas w = 0 then None else Some (VObj (workload_dict now ''ReplicaSet'' lookup w))
   | _ \<Rightarrow> None)"

definition empty_template :: pod_template where
  "empty_template = \<lparr>pt_Labels = None, pt_ManagedFields = [],
     pt_Spec = \<lparr>sp_NodeName = [], sp_Containers = [], sp_InitContainers = [], sp_EphemeralContainers = [], sp_Volumes = [],
       sp_Tolerations = [], sp_Affinity = None, sp_NodeSelector = None, sp_ServiceAccountName = []\<rparr>\<rparr>"

definition newRolloutConverter :: "time \<Rightarrow> pod_lookup option \<Rightarrow> converter" where
  "newRolloutConverter now lookup obj = (case obj of
     KRollout r \<Rightarrow>
       if \<not> ro_Present r then None
       else Some (VObj (serviceDict now ''Rollout'' (ro_Meta r)
         (case ro_Replicas r of None \<Rightarrow> 1 | Some v \<Rightarrow> clampInt32 v) (case ro_Ready r of None \<Rightarrow> 0 | Some v \<Rightarrow> clampInt32 v)
         (case ro_Template r of None \<Rightarrow> empty_template | Some t \<Rightarrow> t) (om_OwnerReferences (ro_Meta r)) lookup))
   | _ \<Rightarrow> None)"

definition podRestartCounts :: "k8s_pod \<Rightarrow> gmap" where
  "podRestartCounts p = map_from_pairs (map (\<lambda>c. (cs_Name c, VInt (cs_RestartCount c))) (kp_ContainerStatuses p))"

definition newPodConverter :: "time \<Rightarrow> rs_lookup option \<Rightarrow> converter" where
  "newPodConverter now rsLookup obj = (case obj of
     KPod p \<Rightarrow> (let meta = kp_Meta p in Some (VObj
       [(''name'', VStr (om_Name meta)), (''namespace'', VStr (om_Namespace meta)), (''type'', VStr ''Pod''),
        (''service_key'', VStr (om_Namespace meta @ ''/Pod/'' @ om_Name meta)),
        (''resource_version'', VInt (parseResourceVersion meta)),
        (''creation_time'', VStr (format_rfc3339 (om_CreationTimestamp meta))),
        (''update_time'', VInt (unix_milli now)), (''deleted'', VBool False), (''classification'', VStr ''None''),
        (''total_pods'', VInt 1), (''ready_pods'', VInt (int (length (filter cs_Ready (kp_ContainerStatuses p))))),
        (''is_helm_release'', VBool (isHelmRelease (om_Labels meta) (om_Annotations meta))),
        (''node_name'', VStr (sp_NodeName (kp_Spec p))), (''status'', VStr (kp_Phase p)),
        (''restart_count'', VObj (podRestartCounts p)), (''status_dict'', kp_Status p),
        (''config'', VObj
           [(''labels'', string_map_json (nonNilLabels (om_Labels meta))),
            (''containers'', VArr (map (\<lambda>c. VObj [(''name'', VStr (ct_Name c)), (''image'', VStr (ct_Image c))])
               (sp_Containers (kp_Spec p)))),
            (''owner'', VArr (ownerInfosWithRSLookup (om_OwnerReferences meta) (om_Namespace meta) rsLookup))])]))
   | _ \<Rightarrow> None)"

section \<open>Jobs\<close>

definition requested :: "resource_list \<Rightarrow> float64 \<times> int" where
  "requested l =
     ((case map_of l ''cpu'' of None \<Rightarrow> float_zero | Some q \<Rightarrow> float_milli (qu_MilliValue q)),
      (case map_of l ''memory'' of None \<Rightarrow> 0 | Some q \<Rightarrow> qu_Value q))"

definition containerResources :: "container \<Rightarrow> (float64 \<times> int) \<times> (float64 \<times> int)" where
  "containerResources c = (requested (ct_Requests c), requested (ct_Limits c))"

definition podSpecRequests :: "pod_spec \<Rightarrow> float64 \<times> int" where
  "podSpecRequests spec = foldl (\<lambda>acc c. (float_add (fst acc) (fst (fst (containerResources c))), wrap64 (snd acc + snd (fst (containerResources c)))))
     (float_zero, 0) (sp_Containers spec)"

definition jobStatusDict :: "job_status \<Rightarrow> time option \<Rightarrow> gmap" where
  "jobStatusDict s lastSchedule =
     [(''active'', VInt (js_Active s)), (''failed'', VInt (js_Failed s)), (''succeeded'', VInt (js_Succeeded s)),
      (''completion_time'', VStr (case js_CompletionTime s of None \<Rightarrow> [] | Some t \<Rightarrow> format_rfc3339 t)),
      (''failed_time'', VStr []),
      (''conditions'', VArr (map (\<lambda>(typ, status, msg). VObj [(''type'', VStr typ), (''message'', VStr msg)])
         (filter (\<lambda>(typ, status, msg). status = ''True'') (js_Conditions s)))),
      (''last_schedule_time'', VStr (case lastSchedule of None \<Rightarrow> [] | Some t \<Rightarrow> format_rfc3339 t))]"

definition jobDataDict ::
  "pod_spec \<Rightarrow> int option \<Rightarrow> string_map \<Rightarrow> owner_reference list \<Rightarrow> string \<Rightarrow> bool option \<Rightarrow> gmap" where
  "jobDataDict pod backoffLimit labels owners schedule suspend =
     [(''backoff_limit'', VInt (case backoffLimit of None \<Rightarrow> 0 | Some n \<Rightarrow> n)),
      (''tolerations'', VArr (map (\<lambda>t. VObj [(''key'', VStr (to_Key t)), (''value'', VStr (to_Value t)),
         (''operator'', VStr (to_Operator t)), (''effect'', VStr (to_Effect t))]) (sp_Tolerations pod))),
      (''node_selector'', string_map_json (nonNilLabels (sp_NodeSelector pod))),
      (''labels'', string_map_json (nonNilLabels labels)),
      (''containers'', VArr (map (\<lambda>c. case containerResources c of ((rc, rm), (lc, lm)) \<Rightarrow>
         VObj [(''image'', VStr (ct_Image c)), (''cpu_req'', VFloat rc), (''cpu_limit'', VFloat lc), (''mem_req'', VInt rm),
           (''mem_limit'', VInt lm)]) (sp_Containers pod))),
      (''pods'', VArr []),
      (''parents'', VArr (map (\<lambda>r. VObj [(''name'', VStr (or_Name r)), (''kind'', VStr (or_Kind r))]) owners)),
      (''schedule'', VStr schedule),
      (''suspend'', case suspend of None \<Rightarrow> VNil | Some b \<Rightarrow> VBool b)]"

definition jobDict :: "time \<Rightarrow> string \<Rightarrow> object_meta \<Rightarrow> int \<Rightarrow> gmap \<Rightarrow> gmap \<Rightarrow> float64 \<times> int \<Rightarrow> gmap" where
  "jobDict now kind meta completions status jobData req =
     [(''name'', VStr (om_Name meta)), (''namespace'', VStr (om_Namespace meta)), (''type'', VStr kind),
      (''service_key'', VStr (om_Namespace meta @ ''/'' @ kind @ ''/'' @ om_Name meta)),
      (''created_at'', VStr (format_rfc3339 (om_CreationTimestamp meta))), (''updated_at'', VInt (unix_milli now)),
      (''deleted'', VBool False), (''completions'', VInt completions), (''cpu_req'', VFloat (fst req)),
      (''mem_req'', VInt (snd req)), (''status'', VObj status), (''job_data'', VObj jobData),
      (''resource_version'', VInt (parseResourceVersion meta)),
      (''config'', VObj [(''labels'', string_map_json (nonNilLabels (om_Labels meta)))])]"

definition convertJob :: "time \<Rightarrow> converter" where
  "convertJob now obj = (case obj of
     KJob j \<Rightarrow> (let spec = pt_Spec (jo_Template j); meta = jo_Meta j in
       Some (VObj (jobDict now ''Job'' meta (case jo_Completions j of None \<Rightarrow> 0 | Some n \<Rightarrow> n) (jobStatusDict (jo_Status j) None)
         (jobDataDict spec (jo_BackoffLimit j) (om_Labels meta) (om_OwnerReferences meta) [] None) (podSpecRequests spec))))
   | _ \<Rightarrow> None)"

definition zero_job_status :: job_status where
  "zero_job_status = \<lparr>js_Active = 0, js_Failed = 0, js_Succeeded = 0, js_CompletionTime = None, js_Conditions = []\<rparr>"

definition convertCronJob :: "time \<Rightarrow> converter" where
  "convertCronJob now obj = (case obj of
     KCronJob c \<Rightarrow> (let spec = pt_Spec (cj_Template c); meta = cj_Meta c in
       Some (VObj (jobDict now ''CronJob'' meta 0 (jobStatusDict zero_job_status (cj_LastScheduleTime c))
         (jobDataDict spec (cj_BackoffLimit c) (om_Labels meta) (om_OwnerReferences meta) (cj_Schedule c) (cj_Suspend c))
         (podSpecRequests spec))))
   | _ \<Rightarrow> None)"

section \<open>Nodes and namespaces\<close>

definition nodeAddresses :: "k8s_node \<Rightarrow> string \<times> string" where
  "nodeAddresses n =
     (join '','' (map snd (filter (\<lambda>(t, a). to_lower t = ''internalip'') (no_Addresses n))),
      join '','' (map snd (filter (\<lambda>(t, a). to_lower t = ''externalip'') (no_Addresses n))))"

definition taintString :: "(string \<times> string \<times> string) list \<Rightarrow> string" where
  "taintString taints = join '','' (map (\<lambda>(k, v, e). k @ ''='' @ v @ '':'' @ e) taints)"

definition conditionString :: "(string \<times> string) list \<Rightarrow> string" where
  "conditionString conds = join '','' (map (\<lambda>(t, s). t @ '':'' @ s)
     (filter (\<lambda>(t, s). \<not> (s = ''False'' \<and> t \<noteq> ''Ready'')) conds))"

definition mbFromResourceList :: "resource_list \<Rightarrow> string \<Rightarrow> int" where
  "mbFromResourceList rl key = (case map_of rl key of
     None \<Rightarrow> 0
   | Some q \<Rightarrow> quot64 (case qu_AsInt64 q of Some b \<Rightarrow> b | None \<Rightarrow> qu_Value q) 1048576)"

definition cpuFromResourceList :: "resource_list \<Rightarrow> float64" where
  "cpuFromResourceList rl = (case map_of rl ''cpu'' of None \<Rightarrow> float_zero | Some q \<Rightarrow> float_milli (qu_MilliValue q))"

definition node_info_keys :: "string list" where
  "node_info_keys = [''architecture'', ''container_runtime_version'', ''kernel_version'', ''kubelet_version'', ''os_image'',
     ''operating_system'', ''machine_id'', ''system_uuid'', ''boot_id'']"

definition nodeInfoMap :: "k8s_node \<Rightarrow> gmap" where
  "nodeInfoMap n =
     [(''system'', VObj (map (\<lambda>k. (k, VStr (get_label (Some (no_NodeInfo n)) k))) node_info_keys)),
      (''labels'', string_map_json (nonNilLabels (om_Labels (no_Meta n)))),
      (''annotations'', string_map_json (nonNilLabels (om_Annotations (no_Meta n)))),
      (''addresses'', VArr (map (\<lambda>a. VStr (snd a)) (no_Addresses n)))]"

definition convertNode :: "time \<Rightarrow> converter" where
  "convertNode now obj = (case obj of
     KNode n \<Rightarrow> (let meta = no_Meta n in Some (VObj
       [(''name'', VStr (om_Name meta)), (''node_creation_time'', VStr (format_rfc3339 (om_CreationTimestamp meta))),
        (''updated_at'', VInt (unix_milli now)), (''internal_ip'', VStr (fst (nodeAddresses n))),
        (''external_ip'', VStr (snd (nodeAddresses n))), (''taints'', VStr (taintString (no_Taints n))),
        (''unschedulable'', VBool (no_Unschedulable n)), (''conditions'', VStr (conditionString (no_Conditions n))),
        (''memory_capacity'', VInt (mbFromResourceList (no_Capacity n) ''memory'')),
        (''memory_allocatable'', VInt (mbFromResourceList (no_Allocatable n) ''memory'')),
        (''memory_allocated'', VInt 0), (''memory_limits'', VInt 0),
        (''cpu_capacity'', VFloat (cpuFromResourceList (no_Capacity n))),
        (''cpu_allocatable'', VFloat (cpuFromResourceList (no_Allocatable n))),
        (''cpu_allocated'', VFloat float_zero), (''cpu_limits'', VFloat float_zero), (''pods_count'', VInt 0), (''pods'', VStr []),
        (''node_info'', VObj (nodeInfoMap n)), (''deleted'', VBool False),
        (''resource_version'', VInt (parseResourceVersion meta))]))
   | _ \<Rightarrow> None)"

definition convertNamespace :: "time \<Rightarrow> converter" where
  "convertNamespace now obj = (case obj of
     KNamespace n \<Rightarrow> (let meta = ns_Meta n in Some (VObj
       [(''name'', VStr (om_Name meta)), (''workload_count'', VInt 0), (''pod_count'', VInt 0),
        (''creation_time'', VStr (format_rfc3339 (om_CreationTimestamp meta))), (''updated_at'', VInt (unix_milli now)),
        (''deleted'', VBool False), (''resource_version'', VInt (parseResourceVersion meta)), (''phase'', VStr (ns_Phase n)),
        (''labels'', string_map_json (nonNilLabels (om_Labels meta))),
        (''annotations'', string_map_json (nonNilLabels (om_Annotations meta)))]))
   | _ \<Rightarrow> None)"

section \<open>Helm releases\<close>

record helm_release =
  hr_Name :: string
  hr_Namespace :: string
  hr_Version :: int
  hr_Status :: string
  hr_FirstDeployed :: string
  hr_LastDeployed :: string
  hr_Description :: string
  hr_ChartName :: string
  hr_ChartVersion :: string
  hr_AppVersion :: string

text \<open>\<open>gunzipJSON\<close> is gunzip followed by the decoding of the release.\<close>

definition decodeHelmRelease :: "(string \<Rightarrow> helm_release option) \<Rightarrow> string \<Rightarrow> helm_release option" where
  "decodeHelmRelease gunzipJSON raw = gunzipJSON (case b64_decode raw of Some d \<Rightarrow> d | None \<Rightarrow> raw)"

definition convertHelmReleaseSecret :: "(string \<Rightarrow> helm_release option) \<Rightarrow> converter" where
  "convertHelmReleaseSecret gunzipJSON obj = (case obj of
     KSecret s \<Rightarrow>
       if se_Type s \<noteq> ''helm.sh/release.v1'' then None
       else Option.bind (map_of (se_Data s) ''release'') (\<lambda>raw.
         map_option (\<lambda>rel. VObj
           [(''name'', VStr (hr_Name rel)), (''namespace'', VStr (hr_Namespace rel)), (''version'', VInt (hr_Version rel)),
            (''status'', VStr (hr_Status rel)), (''first_deployed'', VStr (hr_FirstDeployed rel)),
            (''last_deployed'', VStr (hr_LastDeployed rel)), (''description'', VStr (hr_Description rel)),
            (''chart_name'', VStr (hr_ChartName rel)), (''chart_version'', VStr (hr_ChartVersion rel)),
            (''app_version'', VStr (hr_AppVersion rel)),
            (''service_key'', VStr (hr_Namespace rel @ ''/'' @ hr_Name rel))]) (decodeHelmRelease gunzipJSON raw))
   | _ \<Rightarrow> None)"

section \<open>Trimming\<close>

definition trimMeta :: "object_meta \<Rightarrow> object_meta" where
  "trimMeta m = m\<lparr>om_ManagedFields := []\<rparr>"

definition trimContainer :: "container \<Rightarrow> container" where
  "trimContainer c = c\<lparr>ct_Env := [], ct_EnvFrom := [], ct_VolumeMounts := [], ct_VolumeDevices := [], ct_LivenessProbe := None,
     ct_ReadinessProbe := None, ct_StartupProbe := None, ct_Lifecycle := None\<rparr>"

definition trim_containers :: "pod_spec \<Rightarrow> pod_spec" where
  "trim_containers s = s\<lparr>sp_InitContainers := [], sp_EphemeralContainers := [], sp_Containers := map trimContainer (sp_Containers s)\<rparr>"

definition trimTemplate :: "pod_template \<Rightarrow> pod_template" where
  "trimTemplate t = t\<lparr>pt_ManagedFields := [], pt_Spec := trim_containers (pt_Spec t)\<rparr>"

definition trim_workload :: "workload \<Rightarrow> workload" where
  "trim_workload w = w\<lparr>wl_Meta := trimMeta (wl_Meta w), wl_Template := trimTemplate (wl_Template w)\<rparr>"

definition discoveryTransform :: "k8s_obj \<Rightarrow> k8s_obj" where
  "discoveryTransform obj = (case obj of
     KPod p \<Rightarrow> KPod (p\<lparr>kp_Meta := trimMeta (kp_Meta p),
       kp_Spec := (trim_containers (kp_Spec p))\<lparr>sp_Volumes := [], sp_Tolerations := []\<rparr>\<rparr>)
   | KDeployment w \<Rightarrow> KDeployment (trim_workload w)
   | KStatefulSet w \<Rightarrow> KStatefulSet (trim_workload w)
   | KDaemonSet d \<Rightarrow> KDaemonSet (d\<lparr>ds_Meta := trimMeta (ds_Meta d), ds_Template := trimTemplate (ds_Template d)\<rparr>)
   | KReplicaSet w \<Rightarrow> KReplicaSet (trim_workload w)
   | KJob j \<Rightarrow> KJob (j\<lparr>jo_Meta := trimMeta (jo_Meta j), jo_Template := trimTemplate (jo_Template j)\<rparr>)
   | KCronJob c \<Rightarrow> KCronJob (c\<lparr>cj_Meta := trimMeta (cj_Meta c), cj_Template := trimTemplate (cj_Template c)\<rparr>)
   | KNode n \<Rightarrow> KNode (n\<lparr>no_Meta := trimMeta (no_Meta n), no_Images := [], no_VolumesInUse := [], no_VolumesAttached := []\<rparr>)
   | KNamespace n \<Rightarrow> KNamespace (n\<lparr>ns_Meta := trimMeta (ns_Meta n)\<rparr>)
   | KSecret s \<Rightarrow> KSecret (s\<lparr>se_Meta := trimMeta (se_Meta s)\<rparr>)
   | _ \<Rightarrow> obj)"

text \<open>Every converter the service registers.\<close>

definition converters ::
  "time \<Rightarrow> pod_lookup option \<Rightarrow> rs_lookup option \<Rightarrow> (string \<Rightarrow> helm_release option) \<Rightarrow> converter list" where
  "converters now lookup rsLookup gunzipJSON =
     [newPodConverter now rsLookup, newDeploymentConverter now lookup, newStatefulSetConverter now lookup,
      newDaemonSetConverter now lookup, newReplicaSetConverter now lookup, newRolloutConverter now lookup, convertJob now,
      convertCronJob now, convertNode now, convertNamespace now, convertHelmReleaseSecret gunzipJSON]"

lemma trimMeta_simps [simp]:
  "om_Name (trimMeta m) = om_Name m" "om_Namespace (trimMeta m) = om_Namespace m" "om_UID (trimMeta m) = om_UID m"
  "om_ResourceVersion (trimMeta m) = om_ResourceVersion m" "om_CreationTimestamp (trimMeta m) = om_CreationTimestamp m"
  "om_Labels (trimMeta m) = om_Labels m" "om_Annotations (trimMeta m) = om_Annotations m"
  "om_OwnerReferences (trimMeta m) = om_OwnerReferences m" "parseResourceVersion (trimMeta m) = parseResourceVersion m"
  by (simp_all add: trimMeta_def parseResourceVersion_def)

lemma trimContainer_simps [simp]:
  "ct_Name (trimContainer c) = ct_Name c" "ct_Image (trimContainer c) = ct_Image c"
  "ct_Requests (trimContainer c) = ct_Requests c" "ct_Limits (trimContainer c) = ct_Limits c"
  "container_entry (trimContainer c) = container_entry c" "containerResources (trimContainer c) = containerResources c"
  "trimContainer (trimContainer c) = trimContainer c"
  by (simp_all add: trimContainer_def container_entry_def containerResources_def)

lemma trim_template_simps [simp]:
  "containersFromTemplate (trimTemplate t) = containersFromTemplate t" "volumesFromTemplate (trimTemplate t) = volumesFromTemplate t"
  "tolerationsFromTemplate (trimTemplate t) = tolerationsFromTemplate t" "affinityFromTemplate (trimTemplate t) = affinityFromTemplate t"
  "sp_ServiceAccountName (pt_Spec (trimTemplate t)) = sp_ServiceAccountName (pt_Spec t)" "pt_Labels (trimTemplate t) = pt_Labels t"
  "podSpecRequests (pt_Spec (trimTemplate t)) = podSpecRequests (pt_Spec t)"
  "jobDataDict (pt_Spec (trimTemplate t)) bl l ow sc su = jobDataDict (pt_Spec t) bl l ow sc su"
  "trimTemplate (trimTemplate t) = trimTemplate t"
  by (simp_all add: trimTemplate_def trim_containers_def containersFromTemplate_def volumesFromTemplate_def
      tolerationsFromTemplate_def affinityFromTemplate_def podSpecRequests_def jobDataDict_def foldl_map comp_def split_beta)

lemma serviceDict_trim [simp]:
  "serviceDict now kind (trimMeta m) n r (trimTemplate t) ow lookup = serviceDict now kind m n r t ow lookup"
  by (cases lookup) (simp_all add: serviceDict_def Let_def)

text \<open>C28: trimming is invisible. For every object and every converter the service registers, converting
  the trimmed object gives exactly the item of the untrimmed one, and trimming twice is trimming
  once: no field a converter reads is ever dropped from the cache.\<close>

theorem discoveryTransform_preserves:
  "map (\<lambda>conv. conv (discoveryTransform obj)) (converters now lookup rsLookup gunzipJSON) =
     map (\<lambda>conv. conv obj) (converters now lookup rsLookup gunzipJSON) \<and>
   discoveryTransform (discoveryTransform obj) = discoveryTransform obj"
proof
  have nodes: "nodeAddresses (n\<lparr>no_Meta := m, no_Images := a, no_VolumesInUse := b, no_VolumesAttached := c\<rparr>) = nodeAddresses n" for n m a b c
    by (simp add: nodeAddresses_def)
  show "map (\<lambda>conv. conv (discoveryTransform obj)) (converters now lookup rsLookup gunzipJSON) =
     map (\<lambda>conv. conv obj) (converters now lookup rsLookup gunzipJSON)"
    by (cases obj)
      (simp_all add: converters_def discoveryTransform_def newPodConverter_def newDeploymentConverter_def newStatefulSetConverter_def
        newDaemonSetConverter_def newReplicaSetConverter_def newRolloutConverter_def convertJob_def convertCronJob_def convertNode_def
        convertNamespace_def convertHelmReleaseSecret_def trim_workload_def workload_dict_def workload_replicas_def
        trim_containers_def comp_def Let_def jobDict_def nodes nodeInfoMap_def podRestartCounts_def)
  show "discoveryTransform (discoveryTransform obj) = discoveryTransform obj"
    by (cases obj) (simp_all add: discoveryTransform_def trim_workload_def trimMeta_def trim_containers_def comp_def)
qed

section \<open>Wire types\<close>

text \<open>The types of the wire items. An object type lists its members; every one must be present, once.\<close>

datatype wire_type =
    TStr | TInt | TFloat | TBool | TAny
  | TNullable wire_type | TArr wire_type | TMap wire_type | TObj "(string \<times> wire_type) list"

fun conforms :: "wire_type \<Rightarrow> gval \<Rightarrow> bool" where
  "conforms TStr v = (case v of VStr _ \<Rightarrow> True | _ \<Rightarrow> False)"
| "conforms TInt v = (case v of VInt _ \<Rightarrow> True | _ \<Rightarrow> False)"
| "conforms TFloat v = (case v of VFloat _ \<Rightarrow> True | _ \<Rightarrow> False)"
| "conforms TBool v = (case v of VBool _ \<Rightarrow> True | _ \<Rightarrow> False)"
| "conforms TAny v = True"
| "conforms (TNullable t) v = (case v of VNil \<Rightarrow> True | _ \<Rightarrow> conforms t v)"
| "conforms (TArr t) v = (case v of VArr xs \<Rightarrow> list_all (conforms t) xs | _ \<Rightarrow> False)"
| "conforms (TMap t) v = (case v of VObj m \<Rightarrow> list_all (\<lambda>p. conforms t (snd p)) m | _ \<Rightarrow> False)"
| "conforms (TObj fs) v = (case v of
     VObj m \<Rightarrow> map fst m = map fst fs \<and> distinct (map fst m) \<and>
       list_all (\<lambda>f. case map_of m (fst f) of None \<Rightarrow> False | Some w \<Rightarrow> conforms (snd f) w) fs
   | _ \<Rightarrow> False)"

definition service_fields :: "(string \<times> wire_type) list" where
  "service_fields =
     [(''name'', TStr), (''namespace'', TStr), (''type'', TStr), (''service_key'', TStr), (''resource_version'', TInt),
      (''creation_time'', TStr), (''update_time'', TInt), (''deleted'', TBool), (''classification'', TStr),
      (''total_pods'', TInt), (''ready_pods'', TInt), (''is_helm_release'', TBool)]"

definition owner_type :: wire_type where
  "owner_type = TArr (TObj [(''kind'', TStr), (''name'', TStr)])"

definition workload_type :: wire_type where
  "workload_type = TObj (service_fields @
     [(''status'', TAny), (''node_name'', TAny), (''restart_count'', TAny), (''status_dict'', TAny),
      (''config'', TObj
         [(''labels'', TMap TStr), (''template_labels'', TMap TStr), (''containers'', TArr (TMap TAny)), (''owner'', owner_type),
          (''volumes'', TArr (TMap TAny)), (''toleration'', TArr (TMap TAny)), (''affinity'', TMap TAny),
          (''annotations'', TMap TStr), (''service_account'', TStr), (''qos_class'', TNullable TStr), (''ip'', TNullable TStr),
          (''conditions'', TArr (TObj [(''type'', TStr), (''status'', TStr)]))])])"

definition pod_type :: wire_type where
  "pod_type = TObj (service_fields @
     [(''node_name'', TStr), (''status'', TStr), (''restart_count'', TMap TInt), (''status_dict'', TAny),
      (''config'', TObj
         [(''labels'', TMap TStr), (''containers'', TArr (TObj [(''name'', TStr), (''image'', TStr)])), (''owner'', owner_type)])])"

definition job_type :: wire_type where
  "job_type = TObj
     [(''name'', TStr), (''namespace'', TStr), (''type'', TStr), (''service_key'', TStr), (''created_at'', TStr),
      (''updated_at'', TInt), (''deleted'', TBool), (''completions'', TInt), (''cpu_req'', TFloat), (''mem_req'', TInt),
      (''status'', TObj [(''active'', TInt), (''failed'', TInt), (''succeeded'', TInt), (''completion_time'', TStr),
         (''failed_time'', TStr), (''conditions'', TArr (TObj [(''type'', TStr), (''message'', TStr)])),
         (''last_schedule_time'', TStr)]),
      (''job_data'', TObj [(''backoff_limit'', TInt), (''tolerations'', TArr (TMap TStr)), (''node_selector'', TMap TStr),
         (''labels'', TMap TStr),
         (''containers'', TArr (TObj [(''image'', TStr), (''cpu_req'', TFloat), (''cpu_limit'', TFloat), (''mem_req'', TInt),
            (''mem_limit'', TInt)])),
         (''pods'', TArr TAny), (''parents'', TArr (TObj [(''name'', TStr), (''kind'', TStr)])), (''schedule'', TStr),
         (''suspend'', TNullable TBool)]),
      (''resource_version'', TInt), (''config'', TObj [(''labels'', TMap TStr)])]"

definition node_type :: wire_type where
  "node_type = TObj
     [(''name'', TStr), (''node_creation_time'', TStr), (''updated_at'', TInt), (''internal_ip'', TStr), (''external_ip'', TStr),
      (''taints'', TStr), (''unschedulable'', TBool), (''conditions'', TStr), (''memory_capacity'', TInt),
      (''memory_allocatable'', TInt), (''memory_allocated'', TInt), (''memory_limits'', TInt), (''cpu_capacity'', TFloat),
      (''cpu_allocatable'', TFloat), (''cpu_allocated'', TFloat), (''cpu_limits'', TFloat), (''pods_count'', TInt), (''pods'', TStr),
      (''node_info'', TObj [(''system'', TMap TStr), (''labels'', TMap TStr), (''annotations'', TMap TStr), (''addresses'', TArr TStr)]),
      (''deleted'', TBool), (''resource_version'', TInt)]"

definition namespace_type :: wire_type where
  "namespace_type = TObj
     [(''name'', TStr), (''workload_count'', TInt), (''pod_count'', TInt), (''creation_time'', TStr), (''updated_at'', TInt),
      (''deleted'', TBool), (''resource_version'', TInt), (''phase'', TStr), (''labels'', TMap TStr), (''annotations'', TMap TStr)]"

definition helm_type :: wire_type where
  "helm_type = TObj
     [(''name'', TStr), (''namespace'', TStr), (''version'', TInt), (''status'', TStr), (''first_deployed'', TStr),
      (''last_deployed'', TStr), (''description'', TStr), (''chart_name'', TStr), (''chart_version'', TStr), (''app_version'', TStr),
      (''service_key'', TStr)]"

text \<open>The item types, in the order of \<^const>\<open>converters\<close>.\<close>

definition item_types :: "wire_type list" where
  "item_types = [pod_type, workload_type, workload_type, workload_type, workload_type, workload_type, job_type, job_type,
     node_type, namespace_type, helm_type]"

lemma string_map_conforms [simp]:
  "conforms (TMap TStr) (string_map_json (nonNilLabels m))"
  by (cases m) (simp_all add: string_map_json_def nonNilLabels_def list_all_iff)

lemma owner_info_conforms [simp]: "conforms owner_type (VArr (ownerInfosWithRSLookup ows ns look))"
  by (simp add: owner_type_def ownerInfosWithRSLookup_def list_all_iff owner_info_def Let_def split: option.splits)

lemma any_members_conform [simp]: "list_all (\<lambda>p. True) (m :: gmap)"
  by (simp add: list_all_iff)

lemma map_entries_conform [simp]:
  "conforms (TArr (TMap TAny)) (VArr (containersFromTemplate t))" "conforms (TArr (TMap TAny)) (VArr (volumesFromTemplate t))"
  "conforms (TArr (TMap TAny)) (VArr (tolerationsFromTemplate t))"
  by (simp_all add: containersFromTemplate_def container_entry_def volumesFromTemplate_def tolerationsFromTemplate_def list_all_iff)

lemma pairs_conform [simp]:
  "conforms (TArr (TObj [(''type'', TStr), (''status'', TStr)])) (VArr (map (\<lambda>(t, s). VObj [(''type'', VStr t), (''status'', VStr s)]) xs))"
  by (auto simp: list_all_iff)

lemma any_map_conforms [simp]: "conforms (TMap TAny) (VObj m)" "conforms (TArr t) (VArr [])"
  by (simp_all add: list_all_iff)

lemma serviceDict_conforms [simp]: "conforms workload_type (VObj (serviceDict now kind m n r t ows lookup))"
  unfolding serviceDict_def workload_type_def service_fields_def Let_def
  by (simp del: conforms.simps(7,8) add: ownerInfos_def split: option.splits)

lemma jobDict_conforms [simp]:
  "conforms job_type (VObj (jobDict now kind m n (jobStatusDict st lst) (jobDataDict pod bl l ow sc su) req))"
  unfolding jobDict_def job_type_def jobStatusDict_def jobDataDict_def
  by (auto simp del: conforms.simps(8) simp: conforms.simps(8)[of TStr "VObj m" for m] list_all_iff split: option.splits prod.splits)

lemma restart_counts_conform [simp]: "conforms (TMap TInt) (VObj (podRestartCounts p))"
  using set_map_from_pairs[of "map (\<lambda>c. (cs_Name c, VInt (cs_RestartCount c))) (kp_ContainerStatuses p)"]
  by (fastforce simp: podRestartCounts_def list_all_iff)

text \<open>C27: wire items are well typed. Whatever the object, each converter either drops it or gives
  an object with exactly the members of its item type, each once and of the member's type: labels,
  annotations and lists are never null, the keys the collector identifies and versions a resource
  by are always present, and only a Helm release carries no \<open>deleted\<close> flag.\<close>

theorem converters_well_typed:
  "list_all (\<lambda>(conv, ty). case conv obj of None \<Rightarrow> True | Some v \<Rightarrow> conforms ty v)
     (zip (converters now lookup rsLookup gunzipJSON) item_types)"
proof -
  have pod: "conforms pod_type v" if "newPodConverter now rsLookup obj = Some v" for v
    using that unfolding newPodConverter_def pod_type_def service_fields_def Let_def
    by (auto simp del: conforms.simps(8) simp: list_all_iff split: k8s_obj.splits)
  have node: "conforms node_type v" if "convertNode now obj = Some v" for v
    using that unfolding convertNode_def node_type_def nodeInfoMap_def Let_def
    by (auto simp del: conforms.simps(8) simp: conforms.simps(8)[of TStr "VObj m" for m] list_all_iff split: k8s_obj.splits)
  have namespace: "conforms namespace_type v" if "convertNamespace now obj = Some v" for v
    using that unfolding convertNamespace_def namespace_type_def Let_def
    by (auto simp del: conforms.simps(8) split: k8s_obj.splits)
  have helm: "conforms helm_type v" if "convertHelmReleaseSecret gunzipJSON obj = Some v" for v
    using that unfolding convertHelmReleaseSecret_def helm_type_def
    by (auto split: k8s_obj.splits if_splits bind_splits)
  show ?thesis
    by (auto simp: converters_def item_types_def pod node namespace helm newDeploymentConverter_def newStatefulSetConverter_def
        newDaemonSetConverter_def newReplicaSetConverter_def newRolloutConverter_def convertJob_def convertCronJob_def
        workload_dict_def Let_def split: k8s_obj.splits option.splits)
qed

end
