(* ===== verification/Sink.thy ===== *)
theory Sink
  imports GoTime GoJson Base64
begin

text \<open>
  \<open>pkg/discovery/sink.go\<close>: delivery of one discovery envelope with retries. The encoded envelope,
  gzip, the HTTP exchange and the context are the environment of a call: what each attempt ended
  with, and whether the context ended during each wait. The theory proves which attempts are
  made, and that every delivery is counted once.
\<close>

record envelope_head =
  eh_Type :: string
  eh_FullLoad :: bool

record sink =
  sk_URL :: string
  sk_AuthSecret :: string
  sk_AccountID :: string
  sk_Cluster :: string
  sk_Metrics :: bool

definition NewSink :: "string \<Rightarrow> string \<Rightarrow> string \<Rightarrow> string \<Rightarrow> sink" where
  "NewSink backendURL authSecret accountID cluster =
     \<lparr>sk_URL = rev (dropWhile (\<lambda>c. c = CHR ''/'') (rev backendURL)), sk_AuthSecret = authSecret, sk_AccountID = accountID,
      sk_Cluster = cluster, sk_Metrics = False\<rparr>"

definition postBackoff :: "duration list" where
  "postBackoff = [2 * second, 5 * second, 15 * second]"

definition isRetriableStatus :: "int \<Rightarrow> bool" where
  "isRetriableStatus code \<longleftrightarrow> code \<in> {429, 502, 503, 504}"

definition envelopeItemCount :: "gval \<Rightarrow> nat" where
  "envelopeItemCount d = (case d of VNil \<Rightarrow> 0 | VArr xs \<Rightarrow> length xs | _ \<Rightarrow> 1)"

section \<open>One attempt\<close>

text \<open>What an attempt ends with: the request cannot be built, the exchange fails (with the context
  ended or not), or the backend answers with a status and the beginning of its body.\<close>

datatype attempt = RequestInvalid | ExchangeFailed bool | AnsweredWith int string

datatype post_err = PostBuild | PostExchange | PostHTTP int string

record post_request =
  pr_URL :: string
  pr_Header :: "(string, string) gomap"
  pr_Body :: string

definition sink_request :: "sink \<Rightarrow> string \<Rightarrow> string \<Rightarrow> post_request" where
  "sink_request s body contentEncoding =
     \<lparr>pr_URL = sk_URL s @ ''/v1/k8s/discovery'',
      pr_Header = [(''Content-Type'', ''application/json'')]
        @ (if contentEncoding \<noteq> [] then [(''Content-Encoding'', contentEncoding)] else [])
        @ (if sk_AuthSecret s \<noteq> [] then [(''Authorization'', basicAuth (sk_AuthSecret s))] else [])
        @ (if sk_AccountID s \<noteq> [] then [(''X-NB-Account-Id'', sk_AccountID s)] else [])
        @ (if sk_Cluster s \<noteq> [] then [(''X-NB-Cluster'', sk_Cluster s)] else []),
      pr_Body = body\<rparr>"

definition post :: "attempt \<Rightarrow> bool \<times> post_err option" where
  "post a = (case a of
     RequestInvalid \<Rightarrow> (False, Some PostBuild)
   | ExchangeFailed ctxEnded \<Rightarrow> (\<not> ctxEnded, Some PostExchange)
   | AnsweredWith status body \<Rightarrow>
       if 400 \<le> status then (isRetriableStatus status, Some (PostHTTP status (take 1024 body))) else (False, None))"

section \<open>The delivery\<close>

datatype sink_err = NoURL | MarshalFailed | GzipFailed | AttemptFailed post_err | ContextEnded

record sink_env =
  se_attempt :: "nat \<Rightarrow> post_request \<Rightarrow> attempt"
  se_ctxEnds :: "nat \<Rightarrow> bool"
  se_gzip :: "string \<Rightarrow> string option"

datatype sink_metric = DiscoveryPost string bool | DiscoveryError string

text \<open>The loop from attempt \<open>n\<close> on: the error, if any, and the requests that were sent. Attempts after
  the first wait, and give up when the context ends first.\<close>

function attempts :: "sink_env \<Rightarrow> post_request \<Rightarrow> nat \<Rightarrow> sink_err option \<times> post_request list" where
  "attempts e req n =
     (if 0 < n \<and> se_ctxEnds e n then (Some ContextEnded, [])
      else (case post (se_attempt e n req) of
         (retriable, None) \<Rightarrow> (None, [req])
       | (retriable, Some err) \<Rightarrow>
           if \<not> retriable \<or> length postBackoff \<le> n then (Some (AttemptFailed err), [req])
           else (case attempts e req (Suc n) of (res, reqs) \<Rightarrow> (res, req # reqs))))"
  by pat_completeness auto
termination by (relation "measure (\<lambda>(e, req, n). length postBackoff - n)") (auto simp: postBackoff_def)

declare attempts.simps [simp del]

definition deliver :: "sink_env \<Rightarrow> string option \<Rightarrow> sink \<Rightarrow> sink_err option \<times> post_request list" where
  "deliver e encoded s =
     (if sk_URL s = [] then (Some NoURL, [])
      else (case encoded of
         None \<Rightarrow> (Some MarshalFailed, [])
       | Some body \<Rightarrow>
           if 16384 < length body then
             (case se_gzip e body of
                None \<Rightarrow> (Some GzipFailed, [])
              | Some packed \<Rightarrow> attempts e (sink_request s packed ''gzip'') 0)
           else attempts e (sink_request s body []) 0))"

text \<open>\<open>Post\<close>: the error, the requests sent and the metric samples.\<close>

definition Post ::
  "sink_env \<Rightarrow> envelope_head \<Rightarrow> string option \<Rightarrow> sink \<Rightarrow> sink_err option \<times> post_request list \<times> sink_metric list" where
  "Post e env encoded s = (case deliver e encoded s of (err, reqs) \<Rightarrow>
     (err, reqs,
      if sk_Metrics s then
        [case err of Some _ \<Rightarrow> DiscoveryError (eh_Type env) | None \<Rightarrow> DiscoveryPost (eh_Type env) (eh_FullLoad env)]
      else []))"

section \<open>Properties\<close>

text \<open>Attempt \<open>k\<close> ends the delivery: it is the last allowed, or is not retried, or the context ends
  before the next one.\<close>

definition settles :: "sink_env \<Rightarrow> post_request \<Rightarrow> nat \<Rightarrow> bool" where
  "settles e req k \<longleftrightarrow> k = length postBackoff \<or> \<not> fst (post (se_attempt e k req)) \<or> se_ctxEnds e (Suc k)"

definition delivery_result :: "sink_env \<Rightarrow> post_request \<Rightarrow> nat \<Rightarrow> sink_err option" where
  "delivery_result e req k = (case post (se_attempt e k req) of
     (retriable, None) \<Rightarrow> None
   | (retriable, Some err) \<Rightarrow>
       if retriable \<and> k < length postBackoff then Some ContextEnded else Some (AttemptFailed err))"

lemma post_retriable_fails: "fst (post a) \<Longrightarrow> snd (post a) \<noteq> None"
  by (auto simp: post_def split: attempt.splits if_splits)

lemma attempts_from:
  assumes "n \<le> k" "k \<le> length postBackoff" "settles e req k" "\<And>i. n \<le> i \<Longrightarrow> i < k \<Longrightarrow> \<not> settles e req i"
    and "n = 0 \<or> \<not> se_ctxEnds e n"
  shows "attempts e req n = (delivery_result e req k, replicate (Suc k - n) req)"
  using assms
proof (induction "k - n" arbitrary: n)
  case 0
  then have "n = k" by simp
  moreover have "attempts e req (Suc k) = (Some ContextEnded, [])" if "se_ctxEnds e (Suc k)"
    using that by (simp add: attempts.simps[of e req "Suc k"])
  ultimately show ?case
    using 0 post_retriable_fails[of "se_attempt e k req"]
    by (auto simp: attempts.simps[of e req k] delivery_result_def settles_def split: prod.splits option.splits)
next
  case (Suc d)
  then have n: "\<not> settles e req n" "n < k" by auto
  with Suc.hyps(2) Suc.prems have "attempts e req (Suc n) = (delivery_result e req k, replicate (Suc k - Suc n) req)"
    by (intro Suc.hyps(1)) (auto simp: settles_def)
  moreover obtain err where "post (se_attempt e n req) = (True, Some err)"
    using n post_retriable_fails[of "se_attempt e n req"] by (cases "post (se_attempt e n req)") (auto simp: settles_def)
  ultimately show ?case
    using n Suc.prems by (simp add: attempts.simps[of e req n] Suc_diff_le replicate_Suc[symmetric] settles_def del: replicate_Suc)
qed

lemma settles_first:
  obtains k where "k \<le> length postBackoff" "settles e req k" "\<And>i. i < k \<Longrightarrow> \<not> settles e req i"
proof -
  have "settles e req (length postBackoff)" by (simp add: settles_def)
  then show ?thesis
    using that[of "LEAST k. settles e req k"] by (metis (no_types, lifting) LeastI Least_le not_less_Least)
qed

text \<open>The request a delivery repeats, when there is one to send.\<close>

definition delivery_request :: "sink_env \<Rightarrow> string option \<Rightarrow> sink \<Rightarrow> post_request option" where
  "delivery_request e encoded s = (case encoded of
     None \<Rightarrow> None
   | Some body \<Rightarrow>
       if sk_URL s = [] then None
       else if 16384 < length body then map_option (\<lambda>packed. sink_request s packed ''gzip'') (se_gzip e body)
       else Some (sink_request s body []))"

text \<open>A discovery delivery. Whatever the backend, the network and the context do, \<open>Post\<close> sends
  the same request one to four times: it goes on exactly while an attempt failed with a
  transport error or one of 429, 502, 503 and 504, the context did not end during the wait, and
  fewer than four were made; it reports success exactly when the last attempt was answered below
  400. A delivery that cannot be built sends nothing and fails. Either way it is counted once,
  as a post or as an error.\<close>

lemma Post_attempts:
  "case Post e env encoded s of (err, reqs, metrics) \<Rightarrow>
     (case delivery_request e encoded s of
        None \<Rightarrow> err \<noteq> None \<and> reqs = []
      | Some req \<Rightarrow> \<exists>k \<le> 3. reqs = replicate (Suc k) req \<and> list_all (\<lambda>i. \<not> settles e req i) [0..<k] \<and> settles e req k \<and>
          err = delivery_result e req k) \<and>
     metrics = (if \<not> sk_Metrics s then [] else if err = None then [DiscoveryPost (eh_Type env) (eh_FullLoad env)]
                else [DiscoveryError (eh_Type env)])"
proof -
  have run: "\<exists>k \<le> 3. snd (attempts e req 0) = replicate (Suc k) req \<and> list_all (\<lambda>i. \<not> settles e req i) [0..<k] \<and> settles e req k \<and>
      fst (attempts e req 0) = delivery_result e req k" for req
  proof -
    obtain k where k: "k \<le> length postBackoff" "settles e req k" "\<And>i. i < k \<Longrightarrow> \<not> settles e req i"
      using settles_first[of e req] by blast
    from attempts_from[OF _ k(1,2), of 0] k(3) have "attempts e req 0 = (delivery_result e req k, replicate (Suc k) req)" by simp
    then show ?thesis using k by (auto simp: postBackoff_def list_all_iff intro!: exI[of _ k])
  qed
  show ?thesis
    using run by (auto simp: Post_def deliver_def delivery_request_def split: prod.splits option.splits)
      (metis fst_conv snd_conv)+
qed

end
