(* ===== verification/Discovery.thy ===== *)
theory Discovery
  imports Converters Sink
begin

text \<open>
  \<open>pkg/discovery/service.go\<close>: the informer-driven inventory. An informer's cache, the workqueue and the
  key function are library code: a cache is what its \<open>List\<close> and \<open>GetByKey\<close> return, operations on a
  queue are recorded in the order they are made, and the key function is a parameter. The outcome of
  the sink's \<open>n\<close>-th delivery is a function of \<open>n\<close> and the envelope; the clock is read once per
  conversion. The theory proves what a snapshot sends (complete when it ends, silent about the end
  when a batch fails), what an incremental batch sends and leaves in the queue, and that the pod
  index picks a status-bearing pod of the workload.
\<close>

section \<open>Envelopes and the sink\<close>

record discovery_envelope =
  en_Type :: string
  en_Data :: "gval list"
  en_FullLoad :: bool
  en_BatchID :: string
  en_BatchSequence :: int
  en_TotalBatches :: int
  en_IsFirstBatch :: bool
  en_IsLastBatch :: bool

type_synonym delivery = "nat \<Rightarrow> discovery_envelope \<Rightarrow> sink_err option"

text \<open>The deliveries of the process's sink: the \<open>n\<close>-th one meets its own backend behaviour.\<close>

definition sink_delivery :: "(nat \<Rightarrow> sink_env) \<Rightarrow> (discovery_envelope \<Rightarrow> string option) \<Rightarrow> sink \<Rightarrow> delivery" where
  "sink_delivery env marshal s n e =
     fst (Post (env n) \<lparr>eh_Type = en_Type e, eh_FullLoad = en_FullLoad e\<rparr> (marshal e) s)"

definition TypeService :: string where "TypeService = ''service''"
definition TypeNode :: string where "TypeNode = ''node''"
definition TypeJob :: string where "TypeJob = ''job''"
definition TypeNamespace :: string where "TypeNamespace = ''namespace''"
definition TypeHelmRelease :: string where "TypeHelmRelease = ''helm_release''"

section \<open>Handlers and the service\<close>

datatype get_result = GetErr | GetMissing | GetFound k8s_obj

record indexer =
  ix_List :: "k8s_obj list"
  ix_GetByKey :: "string \<Rightarrow> get_result"

text \<open>What a converter closes over: the time it reads, the published pod index, the ReplicaSet cache
  and the decoding of Helm releases.\<close>

record conv_env =
  ce_now :: time
  ce_podIdx :: "(string, k8s_pod) gomap option"
  ce_rs :: indexer
  ce_gunzip :: "string \<Rightarrow> helm_release option"

record resource_handler =
  rh_typ :: string
  rh_informer :: indexer
  rh_converter :: "conv_env \<Rightarrow> converter"
  rh_tomb :: "(string, gval) gomap"

definition stashTombstone :: "string \<Rightarrow> gval \<Rightarrow> resource_handler \<Rightarrow> resource_handler" where
  "stashTombstone key item h = h\<lparr>rh_tomb := map_put key item (rh_tomb h)\<rparr>"

definition popTombstone :: "string \<Rightarrow> resource_handler \<Rightarrow> gval option \<times> resource_handler" where
  "popTombstone key h = (case map_of (rh_tomb h) key of
     None \<Rightarrow> (None, h)
   | Some item \<Rightarrow> (Some item, h\<lparr>rh_tomb := map_del key (rh_tomb h)\<rparr>))"

record service_options =
  so_SnapshotBatching :: bool
  so_BatchSize :: int
  so_IncrementalBatch :: int
  so_IncrementalWindow :: duration
  so_EmitTombstones :: bool

record service =
  sv_resync :: duration
  sv_handlers :: "resource_handler list"
  sv_snapshotBatching :: bool
  sv_batchSize :: int
  sv_incrementalBatch :: int
  sv_incrementalWindow :: duration
  sv_emitTombstones :: bool
  sv_podIdx :: "(string, k8s_pod) gomap option"

definition NewService :: "duration \<Rightarrow> service" where
  "NewService resync =
     \<lparr>sv_resync = (if resync \<le> 0 then 30 * minute else resync), sv_handlers = [], sv_snapshotBatching = False,
      sv_batchSize = 1000, sv_incrementalBatch = 1, sv_incrementalWindow = 0, sv_emitTombstones = False, sv_podIdx = None\<rparr>"

definition SetOptions :: "service_options \<Rightarrow> service \<Rightarrow> service" where
  "SetOptions opt s = s\<lparr>sv_snapshotBatching := so_SnapshotBatching opt,
     sv_batchSize := (if 0 < so_BatchSize opt then so_BatchSize opt else sv_batchSize s),
     sv_incrementalBatch := (if 0 < so_IncrementalBatch opt then so_IncrementalBatch opt else sv_incrementalBatch s),
     sv_incrementalWindow := so_IncrementalWindow opt, sv_emitTombstones := so_EmitTombstones opt\<rparr>"

section \<open>Lookups\<close>

definition replicaSetLookup :: "indexer \<Rightarrow> rs_lookup" where
  "replicaSetLookup ix namespace name = (case ix_GetByKey ix (namespace @ ''/'' @ name) of
     GetFound (KReplicaSet w) \<Rightarrow> Some (om_OwnerReferences (wl_Meta w)) | _ \<Rightarrow> None)"

definition workloadOwnerUIDs :: "k8s_pod \<Rightarrow> indexer \<Rightarrow> string list" where
  "workloadOwnerUIDs pod rsIndexer = (case controllerOwner (om_OwnerReferences (kp_Meta pod)) of
     None \<Rightarrow> []
   | Some ctrl \<Rightarrow> or_UID ctrl #
       (if or_Kind ctrl = ''ReplicaSet'' then
          (case Option.bind (replicaSetLookup rsIndexer (om_Namespace (kp_Meta pod)) (or_Name ctrl)) controllerOwner of
             Some rsCtrl \<Rightarrow> [or_UID rsCtrl] | None \<Rightarrow> [])
        else []))"

definition put_absent :: "k8s_pod \<Rightarrow> (string, k8s_pod) gomap \<Rightarrow> string \<Rightarrow> (string, k8s_pod) gomap" where
  "put_absent pod idx uid = (if map_of idx uid = None then map_put uid pod idx else idx)"

definition reports_status :: "k8s_pod \<Rightarrow> bool" where
  "reports_status pod \<longleftrightarrow> \<not> (kp_QOSClass pod = [] \<and> kp_PodIP pod = [] \<and> kp_Conditions pod = [])"

definition index_pod :: "indexer \<Rightarrow> (string, k8s_pod) gomap \<Rightarrow> k8s_obj \<Rightarrow> (string, k8s_pod) gomap" where
  "index_pod rs idx raw = (case raw of
     KPod pod \<Rightarrow> if \<not> reports_status pod then idx else foldl (put_absent pod) idx (workloadOwnerUIDs pod rs)
   | _ \<Rightarrow> idx)"

definition buildPodIndex :: "indexer \<Rightarrow> indexer \<Rightarrow> (string, k8s_pod) gomap" where
  "buildPodIndex pods rs = foldl (index_pod rs) [] (ix_List pods)"

definition podLookup :: "conv_env \<Rightarrow> pod_lookup" where
  "podLookup ce uid = (case ce_podIdx ce of None \<Rightarrow> None | Some idx \<Rightarrow> map_of idx uid)"

section \<open>Registration\<close>

definition new_handler :: "string \<Rightarrow> indexer \<Rightarrow> (conv_env \<Rightarrow> converter) \<Rightarrow> resource_handler" where
  "new_handler typ informer conv = \<lparr>rh_typ = typ, rh_informer = informer, rh_converter = conv, rh_tomb = []\<rparr>"

definition register :: "indexer \<Rightarrow> string \<Rightarrow> (conv_env \<Rightarrow> converter) \<Rightarrow> service \<Rightarrow> service" where
  "register informer typ conv s = s\<lparr>sv_handlers := sv_handlers s @ [new_handler typ informer conv]\<rparr>"

text \<open>The informers of the factory.\<close>

record informer_factory =
  if_Pods :: indexer
  if_Deployments :: indexer
  if_StatefulSets :: indexer
  if_DaemonSets :: indexer
  if_ReplicaSets :: indexer
  if_Jobs :: indexer
  if_CronJobs :: indexer
  if_Nodes :: indexer
  if_Namespaces :: indexer
  if_Secrets :: indexer
  if_Rollouts :: indexer

definition RegisterPods :: "informer_factory \<Rightarrow> service \<Rightarrow> service" where
  "RegisterPods f = register (if_Pods f) TypeService (\<lambda>ce. newPodConverter (ce_now ce) (Some (replicaSetLookup (ce_rs ce))))"

definition RegisterDeployments :: "informer_factory \<Rightarrow> service \<Rightarrow> service" where
  "RegisterDeployments f = register (if_Deployments f) TypeService (\<lambda>ce. newDeploymentConverter (ce_now ce) (Some (podLookup ce)))"

definition RegisterStatefulSets :: "informer_factory \<Rightarrow> service \<Rightarrow> service" where
  "RegisterStatefulSets f = register (if_StatefulSets f) TypeService (\<lambda>ce. newStatefulSetConverter (ce_now ce) (Some (podLookup ce)))"

definition RegisterDaemonSets :: "informer_factory \<Rightarrow> service \<Rightarrow> service" where
  "RegisterDaemonSets f = register (if_DaemonSets f) TypeService (\<lambda>ce. newDaemonSetConverter (ce_now ce) (Some (podLookup ce)))"

definition RegisterReplicaSets :: "informer_factory \<Rightarrow> service \<Rightarrow> service" where
  "RegisterReplicaSets f = register (if_ReplicaSets f) TypeService (\<lambda>ce. newReplicaSetConverter (ce_now ce) (Some (podLookup ce)))"

definition RegisterNodes :: "informer_factory \<Rightarrow> service \<Rightarrow> service" where
  "RegisterNodes f = register (if_Nodes f) TypeNode (\<lambda>ce. convertNode (ce_now ce))"

definition RegisterNamespaces :: "informer_factory \<Rightarrow> service \<Rightarrow> service" where
  "RegisterNamespaces f = register (if_Namespaces f) TypeNamespace (\<lambda>ce. convertNamespace (ce_now ce))"

definition RegisterJobs :: "informer_factory \<Rightarrow> service \<Rightarrow> service" where
  "RegisterJobs f = register (if_Jobs f) TypeJob (\<lambda>ce. convertJob (ce_now ce))"

definition RegisterCronJobs :: "informer_factory \<Rightarrow> service \<Rightarrow> service" where
  "RegisterCronJobs f = register (if_CronJobs f) TypeJob (\<lambda>ce. convertCronJob (ce_now ce))"

definition RegisterHelmReleases :: "informer_factory \<Rightarrow> service \<Rightarrow> service" where
  "RegisterHelmReleases f = register (if_Secrets f) TypeHelmRelease (\<lambda>ce. convertHelmReleaseSecret (ce_gunzip ce))"

text \<open>\<open>RegisterRollouts\<close>: the dynamic client is there, the group version is served, the probe list works.\<close>

definition RegisterRollouts :: "bool \<Rightarrow> bool \<Rightarrow> bool \<Rightarrow> informer_factory \<Rightarrow> service \<Rightarrow> bool \<times> service" where
  "RegisterRollouts hasClient served probeOK f s =
     (if \<not> hasClient \<or> \<not> served \<or> \<not> probeOK then (False, s)
      else (True, register (if_Rollouts f) TypeService (\<lambda>ce. newRolloutConverter (ce_now ce) (Some (podLookup ce))) s))"

definition RegisterAll :: "informer_factory \<Rightarrow> service \<Rightarrow> service" where
  "RegisterAll f s = RegisterNamespaces f (RegisterNodes f (RegisterCronJobs f (RegisterJobs f (RegisterReplicaSets f
     (RegisterDaemonSets f (RegisterStatefulSets f (RegisterDeployments f (RegisterPods f s))))))))"

section \<open>Informer events\<close>

datatype queue_op = QAdd string | QAddRateLimited string | QForget string | QDone string

datatype informer_event = EvAdd k8s_obj | EvUpdate k8s_obj k8s_obj | EvDelete k8s_obj

definition enqueue :: "(k8s_obj \<Rightarrow> string option) \<Rightarrow> k8s_obj \<Rightarrow> queue_op list" where
  "enqueue keyFunc obj = (case keyFunc obj of None \<Rightarrow> [] | Some key \<Rightarrow> [QAdd key])"

text \<open>The resource version an accessor reads; \<open>None\<close> when the object has no metadata.\<close>

definition sameResourceVersion :: "(k8s_obj \<Rightarrow> string option) \<Rightarrow> k8s_obj \<Rightarrow> k8s_obj \<Rightarrow> bool" where
  "sameResourceVersion version oldObj newObj = (case (version oldObj, version newObj) of
     (Some o', Some n) \<Rightarrow> o' \<noteq> [] \<and> o' = n | _ \<Rightarrow> False)"

definition unwrapDeleted :: "k8s_obj \<Rightarrow> k8s_obj" where
  "unwrapDeleted obj = (case obj of KDeletedUnknown _ inner \<Rightarrow> inner | _ \<Rightarrow> obj)"

definition mark_deleted :: "gval \<Rightarrow> gval" where
  "mark_deleted item = (case item of VObj m \<Rightarrow> VObj (map_put ''deleted'' (VBool True) m) | _ \<Rightarrow> item)"

definition on_event ::
  "(k8s_obj \<Rightarrow> string option) \<Rightarrow> (k8s_obj \<Rightarrow> string option) \<Rightarrow> bool \<Rightarrow> conv_env \<Rightarrow> informer_event \<Rightarrow> resource_handler \<Rightarrow>
   resource_handler \<times> queue_op list" where
  "on_event keyFunc version tombstones ce ev h = (case ev of
     EvAdd obj \<Rightarrow> (h, enqueue keyFunc obj)
   | EvUpdate oldObj newObj \<Rightarrow> (h, if sameResourceVersion version oldObj newObj then [] else enqueue keyFunc newObj)
   | EvDelete obj \<Rightarrow>
       (if \<not> tombstones then h
        else (case keyFunc obj of
          None \<Rightarrow> h
        | Some key \<Rightarrow> (case rh_converter h ce (unwrapDeleted obj) of
            None \<Rightarrow> h
          | Some item \<Rightarrow> stashTombstone key (mark_deleted item) h)),
        enqueue keyFunc obj))"

section \<open>Snapshots\<close>

text \<open>The conversions of one pass over a list of objects with their handlers: the \<open>i\<close>-th reads the
  clock at \<open>i\<close>.\<close>

definition convert_at :: "(nat \<Rightarrow> conv_env) \<Rightarrow> nat \<Rightarrow> k8s_obj \<times> resource_handler \<Rightarrow> gval option" where
  "convert_at ce i it = rh_converter (snd it) (ce i) (fst it)"

definition raw_items :: "resource_handler list \<Rightarrow> (k8s_obj \<times> resource_handler) list" where
  "raw_items hs = concat (map (\<lambda>h. map (\<lambda>raw. (raw, h)) (ix_List (rh_informer h))) hs)"

fun group_items :: "(nat \<Rightarrow> conv_env) \<Rightarrow> nat \<Rightarrow> (k8s_obj \<times> resource_handler) list \<Rightarrow> (string, gval list) gomap \<Rightarrow>
  (string, gval list) gomap" where
  "group_items ce i [] byType = byType"
| "group_items ce i (it # its) byType = group_items ce (Suc i) its
     (case convert_at ce i it of
        None \<Rightarrow> byType
      | Some item \<Rightarrow> (let typ = rh_typ (snd it) in
          map_put typ ((case map_of byType typ of None \<Rightarrow> [] | Some xs \<Rightarrow> xs) @ [item]) byType))"

definition single_envelope :: "string \<Rightarrow> string \<Rightarrow> gval list \<Rightarrow> discovery_envelope" where
  "single_envelope batchID typ items =
     \<lparr>en_Type = typ, en_Data = items, en_FullLoad = True, en_BatchID = batchID, en_BatchSequence = 1, en_TotalBatches = 1,
      en_IsFirstBatch = True, en_IsLastBatch = True\<rparr>"

definition first_error :: "(discovery_envelope \<times> sink_err option) list \<Rightarrow> sink_err option" where
  "first_error posts = Option.bind (find (\<lambda>p. snd p \<noteq> None) posts) snd"

text \<open>Deliveries in sequence, the first of them being the \<open>n\<close>-th of the sink.\<close>

fun post_all :: "delivery \<Rightarrow> nat \<Rightarrow> discovery_envelope list \<Rightarrow> (discovery_envelope \<times> sink_err option) list" where
  "post_all send n [] = []"
| "post_all send n (e # es) = (e, send n e) # post_all send (Suc n) es"

definition snap_id :: "string \<Rightarrow> int \<Rightarrow> string" where
  "snap_id middle nanos = ''snap-'' @ middle @ int_dec nanos"

text \<open>\<open>order\<close> is the order in which Go walks the map of types.\<close>

definition emitSingle ::
  "(string list \<Rightarrow> string list) \<Rightarrow> delivery \<Rightarrow> nat \<Rightarrow> (nat \<Rightarrow> conv_env) \<Rightarrow> int \<Rightarrow> service \<Rightarrow> (discovery_envelope \<times> sink_err option) list" where
  "emitSingle order send n ce nanos s =
     (let byType = group_items ce 0 (raw_items (sv_handlers s)) [] in
      post_all send n (map (\<lambda>typ. single_envelope (snap_id [] nanos) typ (the (map_of byType typ))) (order (map_keys byType))))"

definition maxInt :: "int \<Rightarrow> int \<Rightarrow> int" where
  "maxInt a b = (if b < a then a else b)"

record batch_conf =
  bc_typ :: string
  bc_size :: int
  bc_id :: string
  bc_estimate :: int

definition batch_envelope :: "batch_conf \<Rightarrow> gval list \<Rightarrow> int \<Rightarrow> bool \<Rightarrow> discovery_envelope" where
  "batch_envelope c chunk seq last' =
     (let total = quot64 (maxInt (wrap64 (wrap64 (bc_estimate c + bc_size c) - 1)) 0) (maxInt (bc_size c) 1) in
      \<lparr>en_Type = bc_typ c, en_Data = chunk, en_FullLoad = True, en_BatchID = bc_id c, en_BatchSequence = seq,
       en_TotalBatches = (if total = 0 then 1 else total), en_IsFirstBatch = (seq = 1), en_IsLastBatch = last'\<rparr>)"

text \<open>The loop of \<open>emitTypeBatched\<close> at position \<open>i\<close>, with the chunk collected and the number of batches sent.\<close>

fun batch_loop ::
  "delivery \<Rightarrow> nat \<Rightarrow> (nat \<Rightarrow> conv_env) \<Rightarrow> batch_conf \<Rightarrow> nat \<Rightarrow> (k8s_obj \<times> resource_handler) list \<Rightarrow> gval list \<Rightarrow> nat \<Rightarrow>
   (discovery_envelope \<times> sink_err option) list" where
  "batch_loop send n ce c i [] chunk seq =
     (let e = batch_envelope c chunk (int (Suc seq)) True in [(e, send (n + seq) e)])"
| "batch_loop send n ce c i (it # its) chunk seq = (case convert_at ce i it of
     None \<Rightarrow> batch_loop send n ce c (Suc i) its chunk seq
   | Some item \<Rightarrow> (let chunk' = chunk @ [item] in
       if bc_size c \<le> int (length chunk') \<and> its \<noteq> [] then
         (let e = batch_envelope c chunk' (int (Suc seq)) False; err = send (n + seq) e in
          if err \<noteq> None then [(e, err)]
          else (e, err) # batch_loop send n ce c (Suc i) its [] (Suc seq))
       else batch_loop send n ce c (Suc i) its chunk' seq))"

definition emitTypeBatched ::
  "delivery \<Rightarrow> nat \<Rightarrow> (nat \<Rightarrow> conv_env) \<Rightarrow> int \<Rightarrow> int \<Rightarrow> string \<Rightarrow> resource_handler list \<Rightarrow> (discovery_envelope \<times> sink_err option) list" where
  "emitTypeBatched send n ce nanos batchSize0 typ hs =
     (let batchSize = (if batchSize0 \<le> 0 then 1000 else batchSize0); items = raw_items hs;
          c = \<lparr>bc_typ = typ, bc_size = batchSize, bc_id = snap_id (typ @ ''-'') nanos, bc_estimate = int (length items)\<rparr>
      in batch_loop send n ce c 0 items [] 0)"

text \<open>The types in the order their first handler was registered.\<close>

definition type_order :: "resource_handler list \<Rightarrow> string list" where
  "type_order hs = foldl (\<lambda>order h. if rh_typ h \<in> set order then order else order @ [rh_typ h]) [] hs"

fun emit_types ::
  "delivery \<Rightarrow> nat \<Rightarrow> (string \<Rightarrow> nat \<Rightarrow> conv_env) \<Rightarrow> (string \<Rightarrow> int) \<Rightarrow> service \<Rightarrow> string list \<Rightarrow> (discovery_envelope \<times> sink_err option) list" where
  "emit_types send n ce nanos s [] = []"
| "emit_types send n ce nanos s (typ # typs) =
     (let posts = emitTypeBatched send n (ce typ) (nanos typ) (sv_batchSize s) typ (filter (\<lambda>h. rh_typ h = typ) (sv_handlers s)) in
      posts @ emit_types send (n + length posts) ce nanos s typs)"

definition emitBatched ::
  "delivery \<Rightarrow> nat \<Rightarrow> (string \<Rightarrow> nat \<Rightarrow> conv_env) \<Rightarrow> (string \<Rightarrow> int) \<Rightarrow> service \<Rightarrow> (discovery_envelope \<times> sink_err option) list" where
  "emitBatched send n ce nanos s = emit_types send n ce nanos s (type_order (sv_handlers s))"

text \<open>What a snapshot reads besides the handlers: the clock per type and conversion, the index it
  publishes and the ReplicaSet cache.\<close>

definition snapshot_env ::
  "informer_factory \<Rightarrow> (string \<Rightarrow> helm_release option) \<Rightarrow> (string \<Rightarrow> nat \<Rightarrow> time) \<Rightarrow> service \<Rightarrow> string \<Rightarrow> nat \<Rightarrow> conv_env" where
  "snapshot_env f gunzipJSON clock s typ i =
     \<lparr>ce_now = clock typ i, ce_podIdx = sv_podIdx s, ce_rs = if_ReplicaSets f, ce_gunzip = gunzipJSON\<rparr>"

definition emitAllSnapshots ::
  "(string list \<Rightarrow> string list) \<Rightarrow> delivery \<Rightarrow> nat \<Rightarrow> informer_factory \<Rightarrow> (string \<Rightarrow> helm_release option) \<Rightarrow> (string \<Rightarrow> nat \<Rightarrow> time) \<Rightarrow>
   (string \<Rightarrow> int) \<Rightarrow> service \<Rightarrow> service \<times> (discovery_envelope \<times> sink_err option) list \<times> sink_err option" where
  "emitAllSnapshots order send n f gunzipJSON clock nanos s =
     (let s' = s\<lparr>sv_podIdx := Some (buildPodIndex (if_Pods f) (if_ReplicaSets f))\<rparr>;
          posts = (if sv_snapshotBatching s' then emitBatched send n (snapshot_env f gunzipJSON clock s') nanos s'
                   else emitSingle order send n (snapshot_env f gunzipJSON clock s' []) (nanos []) s')
      in (s', posts, first_error posts))"

section \<open>Incremental updates\<close>

record batch_state =
  bs_handler :: resource_handler
  bs_items :: "gval list"
  bs_converted :: "string list"
  bs_ops :: "queue_op list"

definition process_key :: "bool \<Rightarrow> (nat \<Rightarrow> conv_env) \<Rightarrow> batch_state \<Rightarrow> nat \<times> string \<Rightarrow> batch_state" where
  "process_key tombstones ce b ik = (case ik of (i, key) \<Rightarrow>
     (let h = bs_handler b in case ix_GetByKey (rh_informer h) key of
        GetErr \<Rightarrow> b\<lparr>bs_ops := bs_ops b @ [QAddRateLimited key]\<rparr>
      | GetMissing \<Rightarrow>
          (case (if tombstones then popTombstone key h else (None, h)) of (tomb, h') \<Rightarrow>
             b\<lparr>bs_handler := h', bs_items := bs_items b @ (case tomb of None \<Rightarrow> [] | Some t \<Rightarrow> [t]),
               bs_ops := bs_ops b @ [QForget key]\<rparr>)
      | GetFound raw \<Rightarrow> (case rh_converter h (ce i) raw of
          None \<Rightarrow> b\<lparr>bs_ops := bs_ops b @ [QForget key]\<rparr>
        | Some item \<Rightarrow> b\<lparr>bs_items := bs_items b @ [item], bs_converted := bs_converted b @ [key]\<rparr>)))"

definition incremental_envelope :: "string \<Rightarrow> gval list \<Rightarrow> discovery_envelope" where
  "incremental_envelope typ items =
     \<lparr>en_Type = typ, en_Data = items, en_FullLoad = False, en_BatchID = [], en_BatchSequence = 0, en_TotalBatches = 0,
      en_IsFirstBatch = False, en_IsLastBatch = False\<rparr>"

definition processBatch ::
  "bool \<Rightarrow> delivery \<Rightarrow> nat \<Rightarrow> (nat \<Rightarrow> conv_env) \<Rightarrow> resource_handler \<Rightarrow> string list \<Rightarrow>
   resource_handler \<times> (discovery_envelope \<times> sink_err option) list \<times> queue_op list" where
  "processBatch tombstones send n ce h keys =
     (let b = foldl (process_key tombstones ce) \<lparr>bs_handler = h, bs_items = [], bs_converted = [], bs_ops = []\<rparr>
            (List.enumerate 0 keys);
          e = incremental_envelope (rh_typ h) (bs_items b); err = send n e in
      if bs_items b = [] then (bs_handler b, [], bs_ops b)
      else (bs_handler b, [(e, err)], bs_ops b @ (if err = None then map QForget (bs_converted b) else [])))"

text \<open>One look of the coalescing loop at the queue: its length, the clock, and what \<open>Get\<close> would return
  (\<open>None\<close> when the queue shut down).\<close>

record queue_poll =
  qp_len :: nat
  qp_now :: time
  qp_get :: "string option"

text \<open>The keys collected, or \<open>None\<close> while the loop is still waiting when the looks run out.\<close>

fun coalesce :: "int \<Rightarrow> duration \<Rightarrow> time \<Rightarrow> string list \<Rightarrow> queue_poll list \<Rightarrow> string list option" where
  "coalesce batch window deadline keys polls =
     (if batch \<le> int (length keys) then Some keys
      else (case polls of
        [] \<Rightarrow> None
      | q # qs \<Rightarrow>
          if qp_len q = 0 then
            (if window \<le> 0 \<or> deadline \<le> qp_now q then Some keys else coalesce batch window deadline keys qs)
          else (case qp_get q of
            None \<Rightarrow> Some keys
          | Some k \<Rightarrow> coalesce batch window deadline (keys @ [k]) qs)))"

text \<open>One round of \<open>workerLoop\<close> after \<open>Get\<close> returned \<open>key\<close> at time \<open>now\<close>.\<close>

definition worker_keys :: "service \<Rightarrow> time \<Rightarrow> string \<Rightarrow> queue_poll list \<Rightarrow> string list option" where
  "worker_keys s now key polls =
     (if sv_incrementalBatch s \<le> 1 then Some [key]
      else coalesce (sv_incrementalBatch s) (sv_incrementalWindow s) (now + sv_incrementalWindow s) [key] polls)"

definition worker_round ::
  "service \<Rightarrow> delivery \<Rightarrow> nat \<Rightarrow> (nat \<Rightarrow> conv_env) \<Rightarrow> time \<Rightarrow> queue_poll list \<Rightarrow> resource_handler \<Rightarrow> string \<Rightarrow>
   (resource_handler \<times> (discovery_envelope \<times> sink_err option) list \<times> queue_op list) option" where
  "worker_round s send n ce now polls h key = map_option (\<lambda>keys.
     case processBatch (sv_emitTombstones s) send n ce h keys of (h', posts, ops) \<Rightarrow> (h', posts, ops @ map QDone keys))
     (worker_keys s now key polls)"

section \<open>What a batched snapshot sends\<close>

declare coalesce.simps [simp del]

text \<open>All items of a pass, converted in order.\<close>

fun converted_from :: "(nat \<Rightarrow> conv_env) \<Rightarrow> nat \<Rightarrow> (k8s_obj \<times> resource_handler) list \<Rightarrow> gval list" where
  "converted_from ce i [] = []"
| "converted_from ce i (it # its) =
     (case convert_at ce i it of None \<Rightarrow> [] | Some item \<Rightarrow> [item]) @ converted_from ce (Suc i) its"

lemma batch_envelope_simps [simp]:
  "en_Type (batch_envelope c xs k l) = bc_typ c" "en_Data (batch_envelope c xs k l) = xs"
  "en_FullLoad (batch_envelope c xs k l) = True" "en_BatchID (batch_envelope c xs k l) = bc_id c"
  "en_BatchSequence (batch_envelope c xs k l) = k" "en_IsFirstBatch (batch_envelope c xs k l) = (k = 1)"
  "en_IsLastBatch (batch_envelope c xs k l) = l"
  by (simp_all add: batch_envelope_def Let_def)

lemma batch_loop_ne [simp]: "batch_loop send n ce c i its chunk seq \<noteq> []"
  by (induction send n ce c i its chunk seq rule: batch_loop.induct) (auto simp: Let_def split: option.splits)

lemma batch_loop_frame:
  "list_all (\<lambda>p. en_Type (fst p) = bc_typ c \<and> en_BatchID (fst p) = bc_id c \<and> en_FullLoad (fst p)) (batch_loop send n ce c i its chunk seq)"
  by (induction send n ce c i its chunk seq rule: batch_loop.induct) (auto simp: Let_def split: option.splits)

lemma list_all_enumerate_Suc: "list_all P (List.enumerate (Suc k) xs) = list_all (\<lambda>(j, x). P (Suc j, x)) (List.enumerate k xs)"
  by (simp add: enumerate_Suc_eq list.pred_map comp_def apfst_def map_prod_def case_prod_beta')

lemma batch_loop_sent:
  "list_all (\<lambda>(k, p). en_BatchSequence (fst p) = int (Suc (seq + k)) \<and> en_IsFirstBatch (fst p) = (seq + k = 0) \<and>
       snd p = send (n + (seq + k)) (fst p))
     (List.enumerate 0 (batch_loop send n ce c i its chunk seq))"
  by (induction send n ce c i its chunk seq rule: batch_loop.induct)
    (simp_all add: Let_def list_all_enumerate_Suc split: option.split)

lemma batch_loop_progress:
  "list_all (\<lambda>p. snd p = None \<and> \<not> en_IsLastBatch (fst p)) (butlast (batch_loop send n ce c i its chunk seq)) \<and>
   (en_IsLastBatch (fst (last (batch_loop send n ce c i its chunk seq))) \<or> snd (last (batch_loop send n ce c i its chunk seq)) \<noteq> None)"
  by (induction send n ce c i its chunk seq rule: batch_loop.induct) (auto simp: Let_def split: option.splits)

lemma batch_loop_data:
  "let posts = batch_loop send n ce c i its chunk seq; sent = concat (map (\<lambda>p. en_Data (fst p)) posts); all = chunk @ converted_from ce i its in
   prefix sent all \<and> (en_IsLastBatch (fst (last posts)) \<longrightarrow> sent = all)"
  by (induction send n ce c i its chunk seq rule: batch_loop.induct) (auto simp: Let_def split: option.splits)

lemma batch_loop_sizes:
  "0 < bc_size c \<Longrightarrow> int (length chunk) \<le> bc_size c \<Longrightarrow> its = [] \<or> int (length chunk) < bc_size c \<Longrightarrow>
   list_all (\<lambda>p. int (length (en_Data (fst p))) \<le> bc_size c \<and>
     (\<not> en_IsLastBatch (fst p) \<longrightarrow> int (length (en_Data (fst p))) = bc_size c)) (batch_loop send n ce c i its chunk seq)"
  by (induction send n ce c i its chunk seq rule: batch_loop.induct) (auto simp: Let_def split: option.splits)

definition sent_items :: "(discovery_envelope \<times> sink_err option) list \<Rightarrow> gval list" where
  "sent_items posts = concat (map (\<lambda>p. en_Data (fst p)) posts)"

text \<open>C25: a batched snapshot of one type. Whatever the caches hold and the backend answers, the batches
  are numbered from one and carry at most \<open>batchSize\<close> items (exactly so many unless it is the
  closing one), in the order of the caches, under one id and type; only the first is marked
  first. No batch follows a failed one. Either the last batch is marked last, and then all converted
  items were sent and every batch before it was delivered, or the last batch sent failed, and no
  batch is marked last: the collector never reconciles against a partial snapshot.\<close>

theorem emitTypeBatched_complete_or_open:
  "let posts = emitTypeBatched send n ce nanos bsize typ hs; limit = (if bsize \<le> 0 then 1000 else bsize);
       all = converted_from ce 0 (raw_items hs) in
   posts \<noteq> [] \<and>
   list_all (\<lambda>(k, e, err). en_BatchSequence e = int (Suc k) \<and> en_IsFirstBatch e = (k = 0) \<and> err = send (n + k) e)
     (List.enumerate 0 posts) \<and>
   list_all (\<lambda>(e, err). en_Type e = typ \<and> en_BatchID e = snap_id (typ @ ''-'') nanos \<and> en_FullLoad e \<and>
     int (length (en_Data e)) \<le> limit \<and> (if en_IsLastBatch e then True else int (length (en_Data e)) = limit)) posts \<and>
   list_all (\<lambda>(e, err). err = None \<and> \<not> en_IsLastBatch e) (butlast posts) \<and>
   prefix (sent_items posts) all \<and>
   (if en_IsLastBatch (fst (last posts)) then sent_items posts = all else snd (last posts) \<noteq> None)"
proof -
  define c where "c = \<lparr>bc_typ = typ, bc_size = (if bsize \<le> 0 then 1000 else bsize), bc_id = snap_id (typ @ ''-'') nanos,
     bc_estimate = int (length (raw_items hs))\<rparr>"
  have posts: "emitTypeBatched send n ce nanos bsize typ hs = batch_loop send n ce c 0 (raw_items hs) [] 0"
    by (simp add: emitTypeBatched_def c_def Let_def)
  have bsize: "0 < bc_size c" by (simp add: c_def)
  have c: "bc_typ c = typ" "bc_id c = snap_id (typ @ ''-'') nanos" "(if bsize \<le> 0 then 1000 else bsize) = bc_size c"
    by (simp_all add: c_def)
  have numbered: "list_all (\<lambda>(k, e, err). en_BatchSequence e = int (Suc k) \<and> en_IsFirstBatch e = (k = 0) \<and> err = send (n + k) e)
     (List.enumerate 0 (batch_loop send n ce c 0 (raw_items hs) [] 0))"
    using batch_loop_sent[of 0 send n ce c 0 "raw_items hs" "[]"] by (simp add: case_prod_beta')
  have shape: "list_all (\<lambda>(e, err). en_Type e = typ \<and> en_BatchID e = snap_id (typ @ ''-'') nanos \<and> en_FullLoad e \<and>
     int (length (en_Data e)) \<le> bc_size c \<and> (if en_IsLastBatch e then True else int (length (en_Data e)) = bc_size c))
     (batch_loop send n ce c 0 (raw_items hs) [] 0)"
    using batch_loop_frame[of c send n ce 0 "raw_items hs" "[]" 0] batch_loop_sizes[OF bsize, of "[]" "raw_items hs" send n ce 0 0] bsize
    by (auto simp: list_all_iff case_prod_beta' c)
  show ?thesis
    using numbered shape batch_loop_progress[of send n ce c 0 "raw_items hs" "[]" 0] batch_loop_data[of send n ce c 0 "raw_items hs" "[]" 0]
    unfolding posts Let_def sent_items_def c(3) by (simp add: case_prod_beta') blast
qed

section \<open>What a single-envelope snapshot sends\<close>

fun converted_of :: "(nat \<Rightarrow> conv_env) \<Rightarrow> nat \<Rightarrow> (k8s_obj \<times> resource_handler) list \<Rightarrow> string \<Rightarrow> gval list" where
  "converted_of ce i [] typ = []"
| "converted_of ce i (it # its) typ =
     (if rh_typ (snd it) = typ then (case convert_at ce i it of None \<Rightarrow> [] | Some item \<Rightarrow> [item]) else [])
     @ converted_of ce (Suc i) its typ"

lemma map_of_group_items:
  "map_of (group_items ce i its m) typ =
     (if map_of m typ = None \<and> converted_of ce i its typ = [] then None
      else Some ((case map_of m typ of None \<Rightarrow> [] | Some xs \<Rightarrow> xs) @ converted_of ce i its typ))"
  by (induction ce i its m rule: group_items.induct) (auto simp: Let_def split: option.splits)

lemma wf_group_items: "wf_map m \<Longrightarrow> wf_map (group_items ce i its m)"
  by (induction ce i its m rule: group_items.induct) (auto simp: Let_def split: option.splits)

lemma post_all_envelopes [simp]: "map fst (post_all send n es) = es"
  by (induction send n es rule: post_all.induct) auto

lemma converted_of_handler: "converted_of ce i its typ \<noteq> [] \<Longrightarrow> typ \<in> (rh_typ \<circ> snd) ` set its"
  by (induction ce i its "typ" rule: converted_of.induct) (auto split: if_splits)

lemma type_order_foldl:
  "distinct acc \<Longrightarrow> distinct (foldl (\<lambda>order h. if rh_typ h \<in> set order then order else order @ [rh_typ h]) acc hs) \<and>
   set (foldl (\<lambda>order h. if rh_typ h \<in> set order then order else order @ [rh_typ h]) acc hs) = set acc \<union> rh_typ ` set hs"
  by (induction hs arbitrary: acc) auto

lemma type_order: "distinct (type_order hs)" "set (type_order hs) = rh_typ ` set hs"
  using type_order_foldl[of "[]" hs] by (simp_all add: type_order_def)

lemma raw_items_handlers: "snd ` set (raw_items hs) \<subseteq> set hs"
  by (auto simp: raw_items_def)

text \<open>A small service: a namespace cache with one object behind three handlers, one of which drops it.\<close>

definition sample_indexer :: indexer where
  "sample_indexer = \<lparr>ix_List = [KNamespace \<lparr>ns_Meta = \<lparr>om_Name = ''a'', om_Namespace = [], om_UID = ''u'', om_ResourceVersion = ''1'',
     om_CreationTimestamp = 0, om_Labels = None, om_Annotations = None, om_OwnerReferences = [], om_ManagedFields = []\<rparr>, ns_Phase = ''Active''\<rparr>],
     ix_GetByKey = (\<lambda>k. if k = ''bad'' then GetErr else GetMissing)\<rparr>"

definition sample_conv_env :: conv_env where
  "sample_conv_env = \<lparr>ce_now = 0, ce_podIdx = None, ce_rs = sample_indexer, ce_gunzip = (\<lambda>s. None)\<rparr>"

definition sample_service :: service where
  "sample_service = register sample_indexer TypeNode (\<lambda>ce obj. Some (VInt 2)) (register sample_indexer TypeJob (\<lambda>ce obj. None)
     (register sample_indexer TypeService (\<lambda>ce obj. Some (VInt 1)) (NewService 0)))"

definition sample_resource_handler :: resource_handler where
  "sample_resource_handler = new_handler TypeNamespace sample_indexer (\<lambda>ce obj. Some (VObj [(''deleted'', VBool False)]))"

text \<open>A snapshot in single envelopes. Whatever order Go walks its map in, every type with at least
  one converted item gets exactly one envelope, with all its items in cache order, marked first
  and last. A type all of whose resources are gone gets no envelope, so nothing tells the
  collector that they are.\<close>

lemma emitSingle_types:
  assumes "\<And>ks. mset (order ks) = mset ks"
  shows "mset (map (\<lambda>(e, err). (en_Type e, en_Data e)) (emitSingle order send n ce nanos s)) =
      mset (filter (\<lambda>(typ, items). items \<noteq> []) (map (\<lambda>typ. (typ, converted_of ce 0 (raw_items (sv_handlers s)) typ))
        (type_order (sv_handlers s)))) \<and>
    list_all (\<lambda>(e, err). en_FullLoad e \<and> en_IsFirstBatch e \<and> en_IsLastBatch e) (emitSingle order send n ce nanos s)"
proof -
  define its where "its = raw_items (sv_handlers s)"
  define byType where "byType = group_items ce 0 its []"
  let ?f = "\<lambda>typ. (typ, converted_of ce 0 its typ)"
  let ?env = "\<lambda>typ. single_envelope (snap_id [] nanos) typ (the (map_of byType typ))"
  have lookup: "map_of byType typ = (if converted_of ce 0 its typ = [] then None else Some (converted_of ce 0 its typ))" for "typ"
    by (simp add: byType_def map_of_group_items)
  have posts: "map fst (emitSingle order send n ce nanos s) = map ?env (order (map_keys byType))"
    by (simp add: emitSingle_def Let_def its_def byType_def)
  have distinct: "distinct (map_keys byType)"
    using wf_group_items[of "[]" ce 0 its] by (simp add: wf_map_def map_keys_def byType_def)
  have keys: "set (map_keys byType) = {typ. converted_of ce 0 its typ \<noteq> []}"
    using lookup by (force simp: map_keys_def set_eq_iff dom_map_of_conv_image_fst[symmetric] domIff split: if_splits)
  have within: "{typ. converted_of ce 0 its typ \<noteq> []} \<subseteq> set (type_order (sv_handlers s))"
    using converted_of_handler[of ce 0 its] raw_items_handlers[of "sv_handlers s"] by (fastforce simp: type_order its_def)
  have "mset (map_keys byType) = mset (filter (\<lambda>typ. converted_of ce 0 its typ \<noteq> []) (type_order (sv_handlers s)))"
    using distinct keys within type_order by (subst set_eq_iff_mset_eq_distinct[symmetric]) auto
  then have types: "mset (map ?f (order (map_keys byType))) =
      mset (map ?f (filter (\<lambda>typ. converted_of ce 0 its typ \<noteq> []) (type_order (sv_handlers s))))"
    using assms by (metis mset_map)
  have "map (\<lambda>(e, err). (en_Type e, en_Data e)) (emitSingle order send n ce nanos s) =
      map (\<lambda>e. (en_Type e, en_Data e)) (map fst (emitSingle order send n ce nanos s))"
    by (simp add: comp_def case_prod_beta')
  also have "\<dots> = map ?f (order (map_keys byType))"
    using keys mset_eq_setD[OF assms, of "map_keys byType"] unfolding posts by (simp add: single_envelope_def lookup)
  finally have data: "map (\<lambda>(e, err). (en_Type e, en_Data e)) (emitSingle order send n ce nanos s) = map ?f (order (map_keys byType))" .
  have "list_all (\<lambda>e. en_FullLoad e \<and> en_IsFirstBatch e \<and> en_IsLastBatch e) (map fst (emitSingle order send n ce nanos s))"
    unfolding posts by (simp add: single_envelope_def list_all_iff)
  then show ?thesis
    unfolding data types by (simp add: list.pred_map comp_def case_prod_beta' filter_map its_def)
qed

section \<open>The pod index\<close>

definition status_pods :: "k8s_obj list \<Rightarrow> k8s_pod list" where
  "status_pods objs = filter reports_status (concat (map (\<lambda>obj. case obj of KPod p \<Rightarrow> [p] | _ \<Rightarrow> []) objs))"

lemma map_of_put_absent:
  "map_of (foldl (put_absent pod) idx uids) uid = (case map_of idx uid of Some p \<Rightarrow> Some p | None \<Rightarrow> if uid \<in> set uids then Some pod else None)"
  by (induction uids arbitrary: idx) (auto simp: put_absent_def split: option.splits)

lemma map_of_index_pods:
  "map_of (foldl (index_pod rs) idx objs) uid =
     (case map_of idx uid of Some p \<Rightarrow> Some p | None \<Rightarrow> find (\<lambda>p. uid \<in> set (workloadOwnerUIDs p rs)) (status_pods objs))"
  by (induction objs arbitrary: idx) (auto simp: index_pod_def status_pods_def map_of_put_absent split: k8s_obj.splits option.splits)

text \<open>The pod index. For every workload the lookup through the index built in one pass gives what a
  scan of the pod cache would: the first pod that reports status and is owned by the workload,
  directly or through a cached ReplicaSet; nothing when there is none.\<close>

lemma podLookup_scan:
  "podLookup (ce\<lparr>ce_podIdx := Some (buildPodIndex pods rs)\<rparr>) uid =
     find (\<lambda>p. uid \<in> set (workloadOwnerUIDs p rs)) (status_pods (ix_List pods))"
  by (simp add: podLookup_def buildPodIndex_def map_of_index_pods)

section \<open>What an incremental batch does\<close>

text \<open>The items a key contributes and the operation its own branch makes on the queue.\<close>

definition key_items :: "bool \<Rightarrow> resource_handler \<Rightarrow> conv_env \<Rightarrow> string \<Rightarrow> gval list" where
  "key_items tombstones h ce key = (case ix_GetByKey (rh_informer h) key of
     GetErr \<Rightarrow> []
   | GetMissing \<Rightarrow> if tombstones then (case map_of (rh_tomb h) key of None \<Rightarrow> [] | Some t \<Rightarrow> [t]) else []
   | GetFound raw \<Rightarrow> (case rh_converter h ce raw of None \<Rightarrow> [] | Some item \<Rightarrow> [item]))"

definition is_converted :: "resource_handler \<Rightarrow> conv_env \<Rightarrow> string \<Rightarrow> bool" where
  "is_converted h ce key = (case ix_GetByKey (rh_informer h) key of GetFound raw \<Rightarrow> rh_converter h ce raw \<noteq> None | _ \<Rightarrow> False)"

definition key_op :: "resource_handler \<Rightarrow> conv_env \<Rightarrow> string \<Rightarrow> queue_op list" where
  "key_op h ce key = (if is_converted h ce key then []
     else if ix_GetByKey (rh_informer h) key = GetErr then [QAddRateLimited key] else [QForget key])"

definition taken :: "bool \<Rightarrow> resource_handler \<Rightarrow> string list \<Rightarrow> string \<Rightarrow> bool" where
  "taken tombstones h keys k \<longleftrightarrow> tombstones \<and> k \<in> set keys \<and> ix_GetByKey (rh_informer h) k = GetMissing"

definition drop_taken :: "bool \<Rightarrow> resource_handler \<Rightarrow> string list \<Rightarrow> resource_handler" where
  "drop_taken tombstones h keys = h\<lparr>rh_tomb := filter (\<lambda>p. \<not> taken tombstones h keys (fst p)) (rh_tomb h)\<rparr>"

lemma map_of_filter_key: "map_of (filter (\<lambda>p. P (fst p)) m) k = (if P k then map_of m k else None)"
  by (induction m) auto

lemma drop_taken_simps [simp]:
  "rh_informer (drop_taken b h ks) = rh_informer h" "rh_converter (drop_taken b h ks) = rh_converter h"
  "rh_typ (drop_taken b h ks) = rh_typ h" "drop_taken b h [] = h"
  by (simp_all add: drop_taken_def taken_def)

lemma map_of_drop_taken [simp]:
  "map_of (rh_tomb (drop_taken b h ks)) k = (if taken b h ks k then None else map_of (rh_tomb h) k)"
  by (simp add: drop_taken_def map_of_filter_key[of "\<lambda>k. \<not> taken b h ks k"])

lemma drop_taken_snoc:
  "drop_taken b h (ks @ [k]) = (if b \<and> ix_GetByKey (rh_informer h) k = GetMissing then
     (drop_taken b h ks)\<lparr>rh_tomb := map_del k (rh_tomb (drop_taken b h ks))\<rparr> else drop_taken b h ks)"
proof -
  have "filter (\<lambda>p. \<not> taken b h (ks @ [k]) (fst p)) m = (if b \<and> ix_GetByKey (rh_informer h) k = GetMissing then
      filter (\<lambda>p. fst p \<noteq> k) (filter (\<lambda>p. \<not> taken b h ks (fst p)) m) else filter (\<lambda>p. \<not> taken b h ks (fst p)) m)" for m
    by (induction m) (auto simp: taken_def)
  from this[of "rh_tomb h"] show ?thesis by (simp add: drop_taken_def map_del_def)
qed

lemma map_del_absent: "map_of m k = None \<Longrightarrow> map_del k m = m"
  by (induction m) (auto simp: map_del_def split: if_splits)

lemma popTombstone_eq: "popTombstone k h = (map_of (rh_tomb h) k, h\<lparr>rh_tomb := map_del k (rh_tomb h)\<rparr>)"
  by (auto simp: popTombstone_def map_del_absent split: option.splits)

lemma process_keys:
  "distinct keys \<Longrightarrow>
   foldl (process_key b ce) \<lparr>bs_handler = h, bs_items = [], bs_converted = [], bs_ops = []\<rparr> (List.enumerate 0 keys) =
     \<lparr>bs_handler = drop_taken b h keys,
      bs_items = concat (map (\<lambda>(i, k). key_items b h (ce i) k) (List.enumerate 0 keys)),
      bs_converted = map snd (filter (\<lambda>(i, k). is_converted h (ce i) k) (List.enumerate 0 keys)),
      bs_ops = concat (map (\<lambda>(i, k). key_op h (ce i) k) (List.enumerate 0 keys))\<rparr>"
proof (induction keys rule: rev_induct)
  case (snoc k ks)
  then have fresh: "\<not> taken b h ks k" and dist: "distinct ks" by (auto simp: taken_def)
  show ?case
    using fresh unfolding enumerate_append_eq foldl_append snoc.IH[OF dist]
    by (auto simp: process_key_def Let_def key_items_def[of _ _ _ k] key_op_def[of _ _ k] is_converted_def[of _ _ k] drop_taken_snoc popTombstone_eq
        split: get_result.splits option.splits)
qed simp

definition op_key :: "queue_op \<Rightarrow> string" where
  "op_key op = (case op of QAdd k \<Rightarrow> k | QAddRateLimited k \<Rightarrow> k | QForget k \<Rightarrow> k | QDone k \<Rightarrow> k)"

lemma op_key_simps [simp]: "op_key (QAdd k) = k" "op_key (QAddRateLimited k) = k" "op_key (QForget k) = k" "op_key (QDone k) = k"
  by (simp_all add: op_key_def)

lemma filter_key_ops:
  "distinct (map snd xs) \<Longrightarrow> (j, k) \<in> set xs \<Longrightarrow>
   filter (\<lambda>op. op_key op = k) (concat (map (\<lambda>(i, k'). if P i k' then [Q i k'] else []) xs)) =
     (if P j k then filter (\<lambda>op. op_key op = k) [Q j k] else [])" if "\<And>i k'. op_key (Q i k') = k'"
  for xs :: "(nat \<times> string) list"
proof (induction xs)
  case (Cons x xs)
  have none: "filter (\<lambda>op. op_key op = k) (concat (map (\<lambda>(i, k'). if P i k' then [Q i k'] else []) ys)) = []"
    if "k \<notin> snd ` set ys" for ys
    using that \<open>\<And>i k'. op_key (Q i k') = k'\<close> by (induction ys) auto
  show ?case
  proof (cases "x = (j, k)")
    case True then show ?thesis using Cons.prems none[of xs] by auto
  next
    case False
    then have "snd x \<noteq> k" "(j, k) \<in> set xs" using Cons.prems by (auto simp: rev_image_eqI)
    then show ?thesis using Cons by (auto simp: that split: prod.splits)
  qed
qed simp

lemma key_op_cases: "key_op h ce k = (if \<not> is_converted h ce k then
    [if ix_GetByKey (rh_informer h) k = GetErr then QAddRateLimited k else QForget k] else [])"
  by (simp add: key_op_def)

lemma converted_ops:
  "map QForget (map snd (filter (\<lambda>(i, k). P i k) xs)) = concat (map (\<lambda>(i, k). if P i k then [QForget k] else []) xs)"
  by (induction xs) auto

lemma snd_enumerate [simp]: "map snd (List.enumerate k xs) = xs"
  by (induction xs arbitrary: k) auto

text \<open>An incremental batch. For distinct keys: the items sent are those of the keys, in order: the
  converted object of a cached key, the stashed tombstone of a key that is gone; they go out in one
  envelope without batch fields, or none is sent when there are no items. A key whose lookup failed
  is queued again with back-off; every other key is forgotten exactly once, except that a
  converted key keeps its back-off when the delivery failed. A tombstone leaves the stash exactly when
  its key is handled and gone.\<close>

lemma processBatch_effects:
  assumes "distinct keys" and "j < length keys"
  shows "case processBatch tombstones send n ce h keys of (h', posts, ops) \<Rightarrow>
    (let items = concat (map (\<lambda>(i, k). key_items tombstones h (ce i) k) (List.enumerate 0 keys));
         e = incremental_envelope (rh_typ h) items in
     posts = (if items = [] then [] else [(e, send n e)]) \<and>
     filter (\<lambda>op. op_key op = keys ! j) ops =
       (if ix_GetByKey (rh_informer h) (keys ! j) = GetErr then [QAddRateLimited (keys ! j)]
        else if is_converted h (ce j) (keys ! j) \<and> send n e \<noteq> None then [] else [QForget (keys ! j)]) \<and>
     map_of (rh_tomb h') k = (if tombstones \<and> k \<in> set keys \<and> ix_GetByKey (rh_informer h) k = GetMissing then None
       else map_of (rh_tomb h) k))"
proof -
  let ?xs = "List.enumerate 0 keys" and ?k = "keys ! j"
  let ?items = "concat (map (\<lambda>(i, k). key_items tombstones h (ce i) k) ?xs)"
  have mem: "(j, ?k) \<in> set ?xs" using assms(2) by (simp add: in_set_enumerate_eq)
  have dist: "distinct (map snd ?xs)" using assms(1) by simp
  have own: "filter (\<lambda>op. op_key op = ?k) (concat (map (\<lambda>(i, k). key_op h (ce i) k) ?xs)) = key_op h (ce j) ?k"
    unfolding key_op_cases
    using filter_key_ops[OF _ dist mem, of "\<lambda>i k. if ix_GetByKey (rh_informer h) k = GetErr then QAddRateLimited k else QForget k"
        "\<lambda>i k. \<not> is_converted h (ce i) k"] by auto
  have later: "filter (\<lambda>op. op_key op = ?k) (map QForget (map snd (filter (\<lambda>(i, k). is_converted h (ce i) k) ?xs))) =
      (if is_converted h (ce j) ?k then [QForget ?k] else [])"
    unfolding converted_ops using filter_key_ops[OF _ dist mem, of "\<lambda>i k. QForget k" "\<lambda>i k. is_converted h (ce i) k"] by auto
  have some: "?items \<noteq> []" if "is_converted h (ce j) ?k"
    using that mem by (force simp: key_items_def is_converted_def split: get_result.splits)
  have err: "\<not> is_converted h (ce j) ?k" if "ix_GetByKey (rh_informer h) ?k = GetErr"
    using that by (simp add: is_converted_def)
  have ops: "key_op h (ce j) ?k = (if is_converted h (ce j) ?k then []
      else if ix_GetByKey (rh_informer h) ?k = GetErr then [QAddRateLimited ?k] else [QForget ?k])"
    by (simp add: key_op_def)
  show ?thesis
    unfolding processBatch_def process_keys[OF assms(1)] Let_def
    using own later some err ops by (simp add: taken_def) fastforce
qed

section \<open>Tombstones reach the collector\<close>

definition event_key :: "(k8s_obj \<Rightarrow> string option) \<Rightarrow> informer_event \<Rightarrow> string option" where
  "event_key keyFunc ev = (case ev of EvAdd obj \<Rightarrow> keyFunc obj | EvUpdate _ obj \<Rightarrow> keyFunc obj | EvDelete obj \<Rightarrow> keyFunc obj)"

definition on_events ::
  "(k8s_obj \<Rightarrow> string option) \<Rightarrow> (k8s_obj \<Rightarrow> string option) \<Rightarrow> bool \<Rightarrow> (conv_env \<times> informer_event) list \<Rightarrow> resource_handler \<Rightarrow> resource_handler" where
  "on_events keyFunc version tombstones evs h = foldl (\<lambda>h (ce, ev). fst (on_event keyFunc version tombstones ce ev h)) h evs"

lemma on_event_frame:
  "rh_typ (fst (on_event kf v b ce ev h)) = rh_typ h" "rh_informer (fst (on_event kf v b ce ev h)) = rh_informer h"
  "rh_converter (fst (on_event kf v b ce ev h)) = rh_converter h"
  by (auto simp: on_event_def stashTombstone_def split: informer_event.splits option.splits)

lemma on_event_other:
  "event_key kf ev \<noteq> Some key \<Longrightarrow> map_of (rh_tomb (fst (on_event kf v b ce ev h))) key = map_of (rh_tomb h) key"
  by (auto simp: on_event_def event_key_def stashTombstone_def split: informer_event.splits option.splits)

lemma on_events_other:
  "list_all (\<lambda>(ce, ev). event_key kf ev \<noteq> Some key) evs \<Longrightarrow>
   map_of (rh_tomb (on_events kf v b evs h)) key = map_of (rh_tomb h) key \<and> rh_typ (on_events kf v b evs h) = rh_typ h"
  by (induction evs arbitrary: h) (auto simp: on_events_def on_event_other on_event_frame)

text \<open>C26: a deletion is reported at once. With tombstones on, when an object that converts is deleted, its key is
  queued; and if no later event is about that key and the key is gone from the cache when a worker
  takes it, in whatever batch and after whatever other events, the batch sends the object's item with
  \<open>deleted\<close> set.\<close>

theorem deletion_reported:
  assumes "keyFunc obj = Some key" and "rh_converter h ce0 (unwrapDeleted obj) = Some (VObj m)"
    and "list_all (\<lambda>(ce, ev). event_key keyFunc ev \<noteq> Some key) evs"
    and "distinct keys" and "key \<in> set keys" and "ix_GetByKey ix key = GetMissing"
  shows "QAdd key \<in> set (snd (on_event keyFunc version True ce0 (EvDelete obj) h)) \<and>
    VObj (map_put ''deleted'' (VBool True) m) \<in> set (sent_items (fst (snd (processBatch True send n ce
      ((on_events keyFunc version True evs (fst (on_event keyFunc version True ce0 (EvDelete obj) h)))\<lparr>rh_informer := ix\<rparr>) keys))))"
proof -
  let ?g = "fst (on_event keyFunc version True ce0 (EvDelete obj) h)"
  let ?h = "(on_events keyFunc version True evs ?g)\<lparr>rh_informer := ix\<rparr>"
  have "map_of (rh_tomb ?g) key = Some (VObj (map_put ''deleted'' (VBool True) m))"
    using assms(1,2) by (simp add: on_event_def stashTombstone_def mark_deleted_def)
  then have tomb: "map_of (rh_tomb ?h) key = Some (VObj (map_put ''deleted'' (VBool True) m))"
    using on_events_other[OF assms(3), of version True ?g] by simp
  obtain j where j: "(j, key) \<in> set (List.enumerate 0 keys)"
    using assms(5) by (metis snd_enumerate imageE list.set_map prod.collapse)
  have "key_items True ?h (ce j) key = [VObj (map_put ''deleted'' (VBool True) m)]"
    using tomb assms(6) by (simp add: key_items_def)
  then have sent: "VObj (map_put ''deleted'' (VBool True) m) \<in> set (concat (map (\<lambda>(i, k). key_items True ?h (ce i) k) (List.enumerate 0 keys)))"
    using j by force
  have "sent_items (fst (snd (processBatch True send n ce ?h keys))) = concat (map (\<lambda>(i, k). key_items True ?h (ce i) k) (List.enumerate 0 keys))"
    unfolding processBatch_def process_keys[OF assms(4)] Let_def by (simp add: sent_items_def incremental_envelope_def)
  then show ?thesis using sent assms(1) by (simp add: on_event_def enqueue_def)
qed

theorem deletion_reported_witness:
  "VObj [(''deleted'', VBool True)] \<in> set (sent_items (fst (snd (processBatch True (\<lambda>n e. None) 0 (\<lambda>i. sample_conv_env)
     ((on_events (\<lambda>obj. Some ''a'') (\<lambda>obj. None) True []
        (fst (on_event (\<lambda>obj. Some ''a'') (\<lambda>obj. None) True sample_conv_env (EvDelete (hd (ix_List sample_indexer))) sample_resource_handler)))
      \<lparr>rh_informer := sample_indexer\<rparr>) [''a'']))))"
  using deletion_reported[of "\<lambda>obj. Some ''a''" "hd (ix_List sample_indexer)" "''a''" sample_resource_handler sample_conv_env
      "[(''deleted'', VBool False)]" "[]" "[''a'']" sample_indexer "\<lambda>obj. None" "\<lambda>n e. None" 0 "\<lambda>i. sample_conv_env"]
  by (simp add: sample_resource_handler_def new_handler_def sample_indexer_def map_put_def)

section \<open>Coalescing ends\<close>

lemma coalesce_total:
  "keys \<noteq> [] \<Longrightarrow> batch \<le> int (length keys + length (filter (\<lambda>q. deadline \<le> qp_now q) polls)) \<Longrightarrow>
   \<exists>more. coalesce batch window deadline keys polls = Some (keys @ more) \<and> int (length (keys @ more)) \<le> max (int (length keys)) batch"
proof (induction polls arbitrary: keys)
  case (Cons q qs)
  show ?case
  proof (cases "batch \<le> int (length keys)")
    case False
    show ?thesis
    proof (cases "qp_len q = 0")
      case True
      then show ?thesis
        using False Cons.IH[of keys] Cons.prems by (subst coalesce.simps) (auto intro: exI[of _ "[]"] split: if_splits)
    next
      case nonempty: False
      show ?thesis
      proof (cases "qp_get q")
        case None
        then show ?thesis using False nonempty by (subst coalesce.simps) (auto intro: exI[of _ "[]"])
      next
        case (Some k)
        have "\<exists>more. coalesce batch window deadline (keys @ [k]) qs = Some ((keys @ [k]) @ more) \<and>
            int (length ((keys @ [k]) @ more)) \<le> max (int (length (keys @ [k]))) batch"
          using Cons.IH[of "keys @ [k]"] Cons.prems(2) by (auto split: if_splits)
        then obtain more where "coalesce batch window deadline (keys @ [k]) qs = Some (keys @ k # more)"
          "int (length (keys @ k # more)) \<le> batch" using False by auto
        then show ?thesis using False nonempty Some by (subst coalesce.simps) auto
      qed
    qed
  qed (subst coalesce.simps, simp)
qed (subst coalesce.simps, simp)

text \<open>A worker stops coalescing: it never waits for more than the looks that fall before the deadline and
  one per item, and takes at most the configured number of keys, the first among them.\<close>

lemma worker_keys_total:
  assumes "sv_incrementalBatch s \<le> int (Suc (length (filter (\<lambda>q. now + sv_incrementalWindow s \<le> qp_now q) polls)))"
  shows "\<exists>more. worker_keys s now key polls = Some (key # more) \<and> int (length (key # more)) \<le> max 1 (sv_incrementalBatch s)"
  using coalesce_total[of "[key]" "sv_incrementalBatch s" "now + sv_incrementalWindow s" polls "sv_incrementalWindow s"] assms
  by (auto simp: worker_keys_def)

end
