(* ===== verification/Redact.thy ===== *)
theory Redact
  imports Prelude
begin

text \<open>
  \<open>pkg/redact/redact.go\<close>: removal of credentials from URLs and from free text. The two regular
  expressions of \<open>Text\<close> are written out as matchers: leftmost match, greedy repetition, and for
  the case-insensitive one the two non-ASCII letters that fold to \<open>s\<close> and \<open>k\<close>. All characters the
  expressions exclude are ASCII, so matching bytes and matching runes agree. The parser \<open>url.Parse\<close>
  is a parameter of \<open>Misparsed\<close>. The theory proves that the result of \<open>URL\<close> does not depend on the
  credentials and that no userinfo is left in the result of \<open>Text\<close>.
\<close>

abbreviation (input) at_sign :: char where "at_sign \<equiv> CHR ''@''"

section \<open>Schemes\<close>

definition is_alpha :: "char \<Rightarrow> bool" where
  "is_alpha c \<longleftrightarrow> (CHR ''A'' \<le> c \<and> c \<le> CHR ''Z'') \<or> (CHR ''a'' \<le> c \<and> c \<le> CHR ''z'')"

definition scheme_char :: "char \<Rightarrow> bool" where
  "scheme_char c \<longleftrightarrow> is_alpha c \<or> is_digit c \<or> c \<in> {CHR ''+'', CHR ''.'', CHR ''-''}"

text \<open>The expression \<open>scheme\<close>.\<close>

definition scheme :: "string \<Rightarrow> bool" where
  "scheme s \<longleftrightarrow> s \<noteq> [] \<and> is_alpha (hd s) \<and> list_all scheme_char s"

fun index_sub :: "string \<Rightarrow> string \<Rightarrow> nat option" where
  "index_sub sep [] = (if sep = [] then Some 0 else None)"
| "index_sub sep (c # s) = (if has_prefix (c # s) sep then Some 0 else map_option Suc (index_sub sep s))"

text \<open>What follows the last \<open>@\<close>.\<close>

definition after_at :: "string \<Rightarrow> string" where
  "after_at s = rev (takeWhile (\<lambda>c. c \<noteq> at_sign) (rev s))"

definition last_at :: "string \<Rightarrow> nat option" where
  "last_at s = (if at_sign \<in> set s then Some (length s - length (after_at s) - 1) else None)"

text \<open>The length of the leading scheme with its separator, when it ends before the last \<open>@\<close>.\<close>

definition scheme_end :: "string \<Rightarrow> nat \<Rightarrow> nat option" where
  "scheme_end raw at = (case index_sub ''://'' raw of
     Some i \<Rightarrow> if i + 3 \<le> at \<and> scheme (take i raw) then Some (i + 3) else None
   | None \<Rightarrow> None)"

definition URL :: "string \<Rightarrow> string" where
  "URL raw = (case last_at raw of
     None \<Rightarrow> raw
   | Some at \<Rightarrow> (case scheme_end raw at of
        Some n \<Rightarrow> take n raw @ drop (at + 1) raw
      | None \<Rightarrow> drop (at + 1) raw))"

definition Misparsed :: "(string \<Rightarrow> bool) \<Rightarrow> string \<Rightarrow> bool" where
  "Misparsed urlParses raw = (case last_at raw of
     None \<Rightarrow> False
   | Some at \<Rightarrow>
       (let (start, full) = (case scheme_end raw at of Some n \<Rightarrow> (n, raw) | None \<Rightarrow> (0, ''http://'' @ raw)) in
        list_ex (\<lambda>c. c \<in> set ''/?#'') (take (at - start) (drop start raw)) \<or> \<not> urlParses full))"

section \<open>Free text\<close>

text \<open>The characters of a token: not white space, quotes or angle brackets.\<close>

definition token_char :: "char \<Rightarrow> bool" where
  "token_char c \<longleftrightarrow> c \<notin> {CHR '' '', CHR 0x09, CHR 0x0A, CHR 0x0C, CHR 0x0D, CHR 0x22, CHR 0x27, CHR ''<'', CHR ''>''}"

text \<open>\<open>urlUserinfo\<close> at the start of a text: the first group and what follows the match.\<close>

definition match_userinfo :: "string \<Rightarrow> (string \<times> string) option" where
  "match_userinfo s =
     (let sch = takeWhile scheme_char s; rest = dropWhile scheme_char s in
      if scheme sch \<and> has_prefix rest ''://'' then
        (let tok = takeWhile token_char (drop 3 rest) in
         if at_sign \<in> set tok
         then Some (sch @ ''://'', after_at tok @ dropWhile token_char (drop 3 rest))
         else None)
      else None)"

lemma after_at_shorter: "at_sign \<in> set s \<Longrightarrow> length (after_at s) < length s"
proof -
  assume "at_sign \<in> set s"
  then have "takeWhile (\<lambda>c. c \<noteq> at_sign) (rev s) \<noteq> rev s"
    by (metis set_rev set_takeWhileD)
  then show ?thesis
    by (metis after_at_def length_rev le_neq_implies_less length_takeWhile_le takeWhile_dropWhile_id append_eq_conv_conj take_all_iff)
qed

lemma match_userinfo_shorter: "match_userinfo s = Some (g, r) \<Longrightarrow> length r < length s"
proof -
  assume m: "match_userinfo s = Some (g, r)"
  let ?rest = "drop 3 (dropWhile scheme_char s)"
  have "at_sign \<in> set (takeWhile token_char ?rest)" "r = after_at (takeWhile token_char ?rest) @ dropWhile token_char ?rest"
    using m by (auto simp: match_userinfo_def Let_def split: if_splits)
  then have "length r < length (takeWhile token_char ?rest) + length (dropWhile token_char ?rest)"
    using after_at_shorter by simp
  also have "\<dots> = length ?rest" by (metis length_append takeWhile_dropWhile_id)
  also have "\<dots> \<le> length s" using length_dropWhile_le[of scheme_char s] by simp
  finally show ?thesis .
qed

text \<open>\<open>urlUserinfo.ReplaceAllString(s, "$1")\<close>.\<close>

function replace_userinfo :: "string \<Rightarrow> string" where
  "replace_userinfo s = (case match_userinfo s of
     Some (g, r) \<Rightarrow> g @ replace_userinfo r
   | None \<Rightarrow> (case s of [] \<Rightarrow> [] | c # cs \<Rightarrow> c # replace_userinfo cs))"
  by pat_completeness auto
termination by (relation "measure length") (auto simp: match_userinfo_shorter)

declare replace_userinfo.simps [simp del]

text \<open>A literal of a case-insensitive expression: besides the other case, \<open>s\<close> matches U+017F and \<open>k\<close>
  matches U+212A. The result is what follows the match.\<close>

fun match_fold :: "string \<Rightarrow> string \<Rightarrow> string option" where
  "match_fold [] s = Some s"
| "match_fold (l # ls) s =
     (case s of
        [] \<Rightarrow> None
      | c # cs \<Rightarrow>
          if lower_char c = l then match_fold ls cs
          else if l = CHR ''s'' \<and> has_prefix s [CHR 0xC5, CHR 0xBF] then match_fold ls (drop 2 s)
          else if l = CHR ''k'' \<and> has_prefix s [CHR 0xE2, CHR 0x84, CHR 0xAA] then match_fold ls (drop 3 s)
          else None)"

definition secret_names :: "string list" where
  "secret_names = [''password'', ''passwd'', ''pwd'', ''secret'', ''token'', ''access_token'', ''api_key'', ''apikey'']"

text \<open>\<open>secretParam\<close> at the start of a text: what follows its first group.\<close>

definition match_secret :: "string \<Rightarrow> string option" where
  "match_secret s = (case s of
     [] \<Rightarrow> None
   | c # cs \<Rightarrow>
       if c \<in> {CHR ''?'', CHR ''&''} then
         Option.bind (find (\<lambda>k. match_fold (k @ ''='') cs \<noteq> None) secret_names) (\<lambda>k. match_fold (k @ ''='') cs)
       else None)"

definition value_char :: "char \<Rightarrow> bool" where
  "value_char c \<longleftrightarrow> token_char c \<and> c \<notin> {CHR ''&'', CHR ''#''}"

lemma match_fold_shorter: "match_fold ls s = Some r \<Longrightarrow> length r + length ls \<le> length s"
proof (induction ls s rule: match_fold.induct)
  case (2 l ls s)
  then show ?case by (cases s) (fastforce split: if_splits)+
qed simp

lemma match_secret_shorter: "match_secret s = Some r \<Longrightarrow> length r < length s"
  by (cases s) (auto simp: match_secret_def split: if_splits bind_splits dest!: match_fold_shorter)

text \<open>\<open>secretParam.ReplaceAllString(s, "${1}REDACTED")\<close>.\<close>

function replace_secret :: "string \<Rightarrow> string" where
  "replace_secret s = (case match_secret s of
     Some r \<Rightarrow> take (length s - length r) s @ ''REDACTED'' @ replace_secret (dropWhile value_char r)
   | None \<Rightarrow> (case s of [] \<Rightarrow> [] | c # cs \<Rightarrow> c # replace_secret cs))"
  by pat_completeness auto
termination
  by (relation "measure length") (auto dest!: match_secret_shorter intro: le_less_trans[OF length_dropWhile_le])

declare replace_secret.simps [simp del]

definition redact_Text :: "string \<Rightarrow> string" where
  "redact_Text s = replace_secret (if contains s ''@'' then replace_userinfo s else s)"

lemma Text_samples:
  "redact_Text ''get http://user:p/w@host/x?token=abc&y=1'' = ''get http://host/x?token=REDACTED&y=1''"
  "URL ''https://admin:1234/x@host'' = ''https://host''" "URL ''u:p://q@host:9000'' = ''host:9000''"
  "Misparsed (\<lambda>_. True) ''https://admin:12/x@host''" "\<not> Misparsed (\<lambda>_. True) ''https://admin:12@host''"
  by code_simp+

section \<open>URLs\<close>

lemma takeWhile_no_at: "at_sign \<notin> set v \<Longrightarrow> takeWhile (\<lambda>c. c \<noteq> at_sign) (v @ at_sign # u) = v"
  by (induction v) auto

lemma after_at_split: "at_sign \<in> set s \<Longrightarrow> \<exists>u. s = u @ [at_sign] @ after_at s"
proof -
  assume "at_sign \<in> set s"
  then obtain u v where uv: "s = u @ at_sign # v" "at_sign \<notin> set v" by (metis split_list_last)
  then have "takeWhile (\<lambda>c. c \<noteq> at_sign) (rev s) = rev v"
    using takeWhile_no_at[of "rev v" "rev u"] by simp
  with uv show ?thesis by (simp add: after_at_def)
qed

lemma after_at_eq [simp]: "at_sign \<notin> set v \<Longrightarrow> after_at (u @ at_sign # v) = v"
  using takeWhile_no_at[of "rev v" "rev u"] by (simp add: after_at_def)

lemma after_at_none [simp]: "at_sign \<notin> set (after_at s)"
  by (auto simp: after_at_def dest: set_takeWhileD)

lemma last_at_eq: "at_sign \<notin> set v \<Longrightarrow> last_at (u @ at_sign # v) = Some (length u)"
  by (simp add: last_at_def)

lemma not_scheme_char [simp]: "\<not> scheme_char (CHR '':'')" "\<not> scheme_char at_sign"
  by code_simp+

lemma index_sub_scheme: "CHR '':'' \<notin> set s \<Longrightarrow> index_sub ''://'' (s @ ''://'' @ t) = Some (length s)"
  by (induction s) (auto simp: has_prefix_iff)

lemma scheme_no_colon: "scheme s \<Longrightarrow> CHR '':'' \<notin> set s \<and> at_sign \<notin> set s"
  using not_scheme_char by (auto simp: scheme_def list_all_iff)

lemma index_sub_take: "index_sub sep s = Some i \<Longrightarrow> take (length sep) (drop i s) = sep"
proof (induction sep s arbitrary: i rule: index_sub.induct)
  case (2 sep c s)
  then show ?case by (auto simp: has_prefix_iff split: if_splits)
qed (simp split: if_splits)

lemma index_sub_sep: "index_sub ''://'' s = Some i \<Longrightarrow> take 3 (drop i s) = ''://''"
  using index_sub_take[of "''://''" s i] by (simp add: numeral_3_eq_3)

lemma contains_mid: "contains (a @ p @ b) p"
proof (induction a)
  case Nil
  have "has_prefix (p @ b) p" by simp
  then show ?case by (cases "p @ b") simp_all
qed simp

lemma URL_no_at: "at_sign \<notin> set (URL raw)"
proof (cases "at_sign \<in> set raw")
  case True
  then obtain u v where raw: "raw = u @ at_sign # v" and v: "at_sign \<notin> set v" by (metis split_list_last)
  then have last: "last_at raw = Some (length u)" "drop (length u + 1) raw = v" "at_sign \<notin> set v"
    using last_at_eq[of v u] by simp_all
  show ?thesis
  proof (cases "scheme_end raw (length u)")
    case (Some n)
    then obtain i where "index_sub ''://'' raw = Some i" "n = i + 3" "scheme (take i raw)"
      by (auto simp: scheme_end_def split: option.splits if_splits)
    then have "take n raw = take i raw @ ''://''" "at_sign \<notin> set (take i raw)"
      using index_sub_sep[of raw i] scheme_no_colon by (simp_all add: take_add)
    then show ?thesis using Some last by (simp add: URL_def)
  qed (use last in \<open>simp add: URL_def\<close>)
qed (simp add: URL_def last_at_def)

text \<open>The result does not depend on the credentials. For every userinfo, whatever bytes it holds,
  and every rest without an \<open>@\<close>, the URL with a scheme becomes the scheme and the rest, and a
  value that starts with no scheme becomes the rest alone. The result never holds an \<open>@\<close>, so
  redacting again changes nothing.\<close>

lemma URL_drops_credentials:
  assumes "at_sign \<notin> set rest"
  shows "(scheme sch \<longrightarrow> URL (sch @ ''://'' @ userinfo @ ''@'' @ rest) = sch @ ''://'' @ rest) \<and>
    ((\<forall>sch t. scheme sch \<longrightarrow> userinfo \<noteq> sch @ ''://'' @ t) \<longrightarrow> URL (userinfo @ ''@'' @ rest) = rest) \<and>
    at_sign \<notin> set (URL raw) \<and> URL (URL raw) = URL raw"
proof (intro conjI impI)
  assume sch: "scheme sch"
  define p where "p = sch @ ''://'' @ userinfo"
  define raw where "raw = p @ at_sign # rest"
  have "index_sub ''://'' raw = Some (length sch)"
    using index_sub_scheme[of sch "userinfo @ at_sign # rest"] scheme_no_colon[OF sch] by (simp add: raw_def p_def)
  moreover have "last_at raw = Some (length p)" unfolding raw_def by (rule last_at_eq[OF assms])
  moreover have "length sch + 3 \<le> length p" "take (length sch) raw = sch" "take (length sch + 3) raw = sch @ ''://''"
    by (simp_all add: raw_def p_def)
  moreover have "drop (length p + 1) raw = rest" by (simp add: raw_def)
  ultimately have "URL raw = sch @ ''://'' @ rest" using sch by (simp add: URL_def scheme_end_def)
  then show "URL (sch @ ''://'' @ userinfo @ ''@'' @ rest) = sch @ ''://'' @ rest" by (simp add: raw_def p_def)
next
  assume no: "\<forall>sch t. scheme sch \<longrightarrow> userinfo \<noteq> sch @ ''://'' @ t"
  have at: "last_at (userinfo @ ''@'' @ rest) = Some (length userinfo)" using last_at_eq[OF assms] by simp
  have "scheme_end (userinfo @ ''@'' @ rest) (length userinfo) = None"
  proof (rule ccontr)
    assume "scheme_end (userinfo @ ''@'' @ rest) (length userinfo) \<noteq> None"
    then obtain i where i: "index_sub ''://'' (userinfo @ ''@'' @ rest) = Some i" "i + 3 \<le> length userinfo" "scheme (take i userinfo)"
      by (auto simp: scheme_end_def split: option.splits if_splits)
    then have "take 3 (drop i userinfo) = ''://''" using index_sub_sep[OF i(1)] by simp
    then have "userinfo = take i userinfo @ ''://'' @ drop (i + 3) userinfo"
      by (metis append_take_drop_id drop_drop add.commute)
    with no i(3) show False by blast
  qed
  then show "URL (userinfo @ ''@'' @ rest) = rest" using at by (simp add: URL_def)
next
  show no_at: "at_sign \<notin> set (URL raw)" by (rule URL_no_at)
  then show "URL (URL raw) = URL raw" by (simp add: URL_def[of "URL raw"] last_at_def)
qed

section \<open>Text\<close>

lemma token_scheme [simp]: "scheme_char c \<Longrightarrow> token_char c" "token_char (CHR '':'')" "token_char (CHR ''/'')" "token_char at_sign"
  by (auto simp: token_char_def scheme_char_def is_alpha_def is_digit_def)

text \<open>A match, in terms of the token it is in.\<close>

lemma takeWhile_scheme: "scheme sch \<Longrightarrow> takeWhile scheme_char (sch @ ''://'' @ t) = sch"
  "scheme sch \<Longrightarrow> dropWhile scheme_char (sch @ ''://'' @ t) = ''://'' @ t"
  by (simp_all add: scheme_def list_all_iff)

lemma match_userinfo_Some_iff:
  "match_userinfo s \<noteq> None \<longleftrightarrow> (\<exists>sch t. scheme sch \<and> takeWhile token_char s = sch @ ''://'' @ t \<and> at_sign \<in> set t)"
proof
  assume "match_userinfo s \<noteq> None"
  then obtain sch rest where r: "scheme sch" "s = sch @ ''://'' @ rest" "at_sign \<in> set (takeWhile token_char rest)"
    by (auto simp: match_userinfo_def Let_def has_prefix_iff split: if_splits)
      (metis append_Cons append_Nil takeWhile_dropWhile_id)
  moreover have "takeWhile token_char s = sch @ ''://'' @ takeWhile token_char rest"
    using r(1) unfolding r(2) by (subst takeWhile_append2) (auto simp: scheme_def list_all_iff)
  ultimately show "\<exists>sch t. scheme sch \<and> takeWhile token_char s = sch @ ''://'' @ t \<and> at_sign \<in> set t" by blast
next
  assume "\<exists>sch t. scheme sch \<and> takeWhile token_char s = sch @ ''://'' @ t \<and> at_sign \<in> set t"
  then obtain sch t where t: "scheme sch" "takeWhile token_char s = sch @ ''://'' @ t" "at_sign \<in> set t" by blast
  define d where "d = dropWhile token_char s"
  have s: "s = sch @ ''://'' @ t @ d" using t(2) by (metis append.assoc d_def takeWhile_dropWhile_id)
  have tok: "list_all token_char t" using set_takeWhileD[of _ token_char s] t(2) by (auto simp: list_all_iff)
  have "at_sign \<in> set (takeWhile token_char (t @ d))"
    using tok t(3) by (subst takeWhile_append2) (auto simp: list_all_iff)
  then show "match_userinfo s \<noteq> None"
    using t(1) takeWhile_scheme[OF t(1), of "t @ d"] by (simp add: match_userinfo_def s has_prefix_iff Let_def)
qed

lemma match_userinfo_result:
  assumes "match_userinfo s = Some (g, r)"
  shows "\<exists>sch u v. scheme sch \<and> g = sch @ ''://'' \<and> takeWhile token_char s = sch @ ''://'' @ u @ at_sign # v \<and> at_sign \<notin> set v \<and>
    takeWhile token_char r = v \<and> dropWhile token_char r = dropWhile token_char s"
proof -
  define sch where "sch = takeWhile scheme_char s"
  obtain rest where r: "scheme sch" "dropWhile scheme_char s = ''://'' @ rest" "g = sch @ ''://''"
    "at_sign \<in> set (takeWhile token_char rest)" "r = after_at (takeWhile token_char rest) @ dropWhile token_char rest"
    using assms by (auto simp: match_userinfo_def Let_def has_prefix_iff sch_def split: if_splits)
  have s: "s = sch @ ''://'' @ rest" using r(2) by (metis sch_def takeWhile_dropWhile_id)
  obtain u where u: "takeWhile token_char rest = u @ at_sign # after_at (takeWhile token_char rest)"
    using after_at_split[OF r(4)] by auto
  have v: "\<forall>c \<in> set (after_at (takeWhile token_char rest)). token_char c"
    using u set_takeWhileD[of _ token_char rest] by (metis UnCI set_append set_ConsD list.set_intros(2))
  have "takeWhile token_char s = sch @ ''://'' @ takeWhile token_char rest" "dropWhile token_char s = dropWhile token_char rest"
    using r(1) unfolding s by (simp_all add: takeWhile_append2 dropWhile_append2 scheme_def list_all_iff)
  moreover have "takeWhile token_char r = after_at (takeWhile token_char rest)" "dropWhile token_char r = dropWhile token_char rest"
    using v unfolding r(5) by (simp_all add: takeWhile_append2 dropWhile_append2)
      (metis append_Nil2 dropWhile_eq_Nil_conv hd_dropWhile takeWhile_eq_Nil_iff)+
  ultimately show ?thesis using r(1,3) u by (intro exI[of _ sch] exI[of _ u] exI[of _ "after_at (takeWhile token_char rest)"]) auto
qed

text \<open>The replacement works token by token, and changes a token at most once.\<close>

definition after_token :: "string \<Rightarrow> string" where
  "after_token s = (case dropWhile token_char s of [] \<Rightarrow> [] | x # xs \<Rightarrow> x # replace_userinfo xs)"

lemma after_token_starts: "after_token s = [] \<or> \<not> token_char (hd (after_token s))"
proof (cases "dropWhile token_char s")
  case (Cons x xs)
  then have "\<not> token_char x" by (metis hd_dropWhile list.sel(1) list.simps(3))
  with Cons show ?thesis by (simp add: after_token_def)
next
  case Nil
  show ?thesis unfolding after_token_def Nil by simp
qed

lemma replace_no_at:
  "at_sign \<notin> set (takeWhile token_char s) \<Longrightarrow> replace_userinfo s = takeWhile token_char s @ after_token s"
proof (induction s)
  case Nil
  have "match_userinfo [] = None" by code_simp
  then show ?case by (simp add: replace_userinfo.simps[of "[]"] after_token_def)
next
  case (Cons c cs)
  have "match_userinfo (c # cs) = None"
    using Cons.prems match_userinfo_Some_iff[of "c # cs"] by (metis UnCI set_append)
  then show ?case
    using Cons by (cases "token_char c") (auto simp: replace_userinfo.simps[of "c # cs"] after_token_def)
qed

definition no_match_in :: "string \<Rightarrow> string \<Rightarrow> bool" where
  "no_match_in p r \<longleftrightarrow> (\<forall>x y. p = x @ y \<longrightarrow> y \<noteq> [] \<longrightarrow> match_userinfo (y @ r) = None)"

lemma replace_token:
  "\<exists>p r W. takeWhile token_char s = p @ r \<and> no_match_in p (r @ dropWhile token_char s) \<and> replace_userinfo s = W @ after_token s \<and>
     (r = [] \<and> W = p \<or>
      (\<exists>sch u v. scheme sch \<and> r = sch @ ''://'' @ u @ at_sign # v \<and> at_sign \<notin> set v \<and> W = p @ sch @ ''://'' @ v))"
proof (induction s)
  case Nil
  show ?case using replace_no_at[of "[]"] by (intro exI[of _ "[]"]) (simp add: no_match_in_def)
next
  case (Cons c cs)
  show ?case
  proof (cases "match_userinfo (c # cs)")
    case (Some gr)
    then obtain g r where m: "match_userinfo (c # cs) = Some (g, r)" by (cases gr) auto
    from match_userinfo_result[OF m] obtain sch u v where
      v: "scheme sch" "g = sch @ ''://''" "takeWhile token_char (c # cs) = sch @ ''://'' @ u @ at_sign # v" "at_sign \<notin> set v"
      "takeWhile token_char r = v" "dropWhile token_char r = dropWhile token_char (c # cs)" by blast
    have "replace_userinfo r = v @ after_token (c # cs)"
      using replace_no_at[of r] v(4-6) by (simp add: after_token_def)
    then have "replace_userinfo (c # cs) = (sch @ ''://'' @ v) @ after_token (c # cs)"
      using m v(2) by (simp add: replace_userinfo.simps[of "c # cs"])
    with v show ?thesis
      by (intro exI[of _ "[]"] exI[of _ "sch @ ''://'' @ u @ at_sign # v"] exI[of _ "sch @ ''://'' @ v"])
        (auto simp: no_match_in_def)
  next
    case None
    then have step: "replace_userinfo (c # cs) = c # replace_userinfo cs" by (simp add: replace_userinfo.simps[of "c # cs"])
    show ?thesis
    proof (cases "token_char c")
      case False
      then show ?thesis using step by (intro exI[of _ "[]"]) (simp add: no_match_in_def after_token_def)
    next
      case True
      obtain p r W where ih: "takeWhile token_char cs = p @ r" "no_match_in p (r @ dropWhile token_char cs)"
        "replace_userinfo cs = W @ after_token cs"
        "r = [] \<and> W = p \<or> (\<exists>sch u v. scheme sch \<and> r = sch @ ''://'' @ u @ at_sign # v \<and> at_sign \<notin> set v \<and> W = p @ sch @ ''://'' @ v)"
        using Cons.IH by blast
      have cs: "c # cs = (c # p) @ r @ dropWhile token_char cs"
        using ih(1) by (metis append.assoc append_Cons takeWhile_dropWhile_id)
      have "no_match_in (c # p) (r @ dropWhile token_char cs)"
        using ih(2) None cs by (auto simp: no_match_in_def Cons_eq_append_conv)
      with ih step True show ?thesis
        by (intro exI[of _ "c # p"] exI[of _ r] exI[of _ "c # W"]) (auto simp: after_token_def)
    qed
  qed
qed

lemma token_of_token:
  assumes "\<forall>c \<in> set y. token_char c" "d = [] \<or> \<not> token_char (hd d)"
  shows "takeWhile token_char (y @ d) = y"
  using assms by (subst takeWhile_append2) (auto simp: takeWhile_eq_Nil_iff)

lemma split_before: "a @ b = c @ x # d \<Longrightarrow> x \<notin> set b \<Longrightarrow> \<exists>q. a = c @ x # q"
  by (auto simp: append_eq_append_conv2 Cons_eq_append_conv append_eq_Cons_conv)

lemma replaced_token_clean:
  assumes "p @ r = takeWhile token_char s" "no_match_in p (r @ dropWhile token_char s)"
    and "r = [] \<and> W = p \<or> (\<exists>sch u v. scheme sch \<and> r = sch @ ''://'' @ u @ at_sign # v \<and> at_sign \<notin> set v \<and> W = p @ sch @ ''://'' @ v)"
    and "W = x @ sch' @ ''://'' @ t" "scheme sch'" "at_sign \<in> set t"
  shows False
proof -
  obtain t1 t2 where t: "t = t1 @ at_sign # t2" using assms(6) by (meson split_list)
  have "\<exists>q. p = x @ sch' @ ''://'' @ t1 @ at_sign # q"
  proof (cases "r = [] \<and> W = p")
    case True
    then show ?thesis using assms(4) t by auto
  next
    case False
    then obtain sch v where W: "W = p @ sch @ ''://'' @ v" "scheme sch" "at_sign \<notin> set v" using assms(3) by blast
    then have "at_sign \<notin> set (sch @ ''://'' @ v)" using scheme_no_colon by auto
    moreover have "p @ sch @ ''://'' @ v = (x @ sch' @ ''://'' @ t1) @ at_sign # t2" using W(1) assms(4) t by simp
    ultimately show ?thesis using split_before[of p "sch @ ''://'' @ v" "x @ sch' @ ''://'' @ t1" at_sign t2] by auto
  qed
  then obtain q where q: "p = x @ sch' @ ''://'' @ t1 @ at_sign # q" by blast
  let ?y = "sch' @ ''://'' @ t1 @ at_sign # q"
  have "\<forall>c \<in> set (p @ r). token_char c" unfolding assms(1) using set_takeWhileD by fast
  then have "\<forall>c \<in> set (?y @ r). token_char c" using q by auto
  moreover have "dropWhile token_char s = [] \<or> \<not> token_char (hd (dropWhile token_char s))" using hd_dropWhile by blast
  ultimately have "takeWhile token_char ((?y @ r) @ dropWhile token_char s) = ?y @ r" by (rule token_of_token)
  then have "match_userinfo (?y @ r @ dropWhile token_char s) \<noteq> None"
    unfolding match_userinfo_Some_iff using assms(5)
    by (intro exI[of _ sch'] exI[of _ "t1 @ at_sign # q @ r"]) simp
  moreover have "match_userinfo (?y @ r @ dropWhile token_char s) = None"
    using assms(2)[unfolded no_match_in_def, rule_format, OF q] by simp
  ultimately show False by blast
qed

lemma replace_userinfo_clean: "suffix t (replace_userinfo s) \<Longrightarrow> match_userinfo t = None"
proof (induction "length s" arbitrary: s t rule: less_induct)
  case less
  obtain p r W where str: "takeWhile token_char s = p @ r" "no_match_in p (r @ dropWhile token_char s)"
    "replace_userinfo s = W @ after_token s"
    "r = [] \<and> W = p \<or> (\<exists>sch u v. scheme sch \<and> r = sch @ ''://'' @ u @ at_sign # v \<and> at_sign \<notin> set v \<and> W = p @ sch @ ''://'' @ v)"
    using replace_token[of s] by blast
  have "\<forall>c \<in> set (p @ r). token_char c" using set_takeWhileD[of _ token_char s] str(1) by metis
  then have W: "\<forall>c \<in> set W. token_char c" using str(4) by (auto simp: scheme_def list_all_iff)
  have d: "after_token s = [] \<or> \<not> token_char (hd (after_token s))"
    by (rule after_token_starts)
  from less.prems str(3) consider (inside) x y where "W = x @ y" "t = y @ after_token s" "y \<noteq> []" | (after) "suffix t (after_token s)"
    by (auto simp: suffix_def append_eq_append_conv2) (metis append_Nil)
  then show ?case
  proof cases
    case inside
    have "\<forall>c \<in> set y. token_char c" using W inside(1) by simp
    then have "takeWhile token_char t = y" unfolding inside(2) using d by (rule token_of_token)
    then show ?thesis
      using replaced_token_clean[OF str(1)[symmetric] str(2,4)] inside(1) match_userinfo_Some_iff[of t] by metis
  next
    case after
    show ?thesis
    proof (cases "dropWhile token_char s")
      case Nil
      have "match_userinfo [] = None" by code_simp
      then show ?thesis using after Nil by (simp add: after_token_def)
    next
      case (Cons x xs)
      have "length xs < length s" using Cons length_dropWhile_le[of token_char s] by simp
      moreover have "match_userinfo (x # replace_userinfo xs) = None"
        using hd_dropWhile[of token_char s] Cons match_userinfo_Some_iff[of "x # replace_userinfo xs"]
        by (cases "match_userinfo (x # replace_userinfo xs)") (auto simp: scheme_def)
      ultimately show ?thesis using after less.hyps[of xs t] by (auto simp: after_token_def Cons suffix_Cons)
    qed
  qed
qed

text \<open>No userinfo is left in a text. In the text that comes out of the first replacement, no
  position starts a URL scheme with an \<open>@\<close> later in the same token: every URL of the text, quoted
  or not, has lost everything up to the last \<open>@\<close> of its token.\<close>

lemma Text_no_userinfo:
  "list_all (\<lambda>t. match_userinfo t = None) (suffixes (replace_userinfo s))"
  using replace_userinfo_clean by (auto simp: list_all_iff)

subsection \<open>Query parameters\<close>

abbreviation (input) param_start :: "char \<Rightarrow> bool" where "param_start c \<equiv> c = CHR ''?'' \<or> c = CHR ''&''"

lemma lower_char_fixed: "lower_char c = l \<Longrightarrow> (of_char l :: nat) < 97 \<Longrightarrow> c = l"
  by (cases "65 \<le> (of_char c :: nat) \<and> (of_char c :: nat) \<le> 90") (auto simp: lower_char_def of_char_of)

lemma match_fold_consumed:
  assumes "match_fold ls s = Some r" "CHR ''='' \<notin> set ls" "\<forall>l \<in> set ls. \<not> param_start l"
  shows "\<exists>p. s = p @ r \<and> CHR ''='' \<notin> set p \<and> (\<forall>c \<in> set p. \<not> param_start c)"
  using assms
proof (induction ls s rule: match_fold.induct)
  case (2 l ls s)
  show ?case
  proof (cases s)
    case (Cons c cs)
    have l: "l \<noteq> CHR ''=''" "\<not> param_start l" using "2.prems" by auto
    consider (low) "lower_char c = l" | (s) "lower_char c \<noteq> l" "l = CHR ''s''" "has_prefix s [CHR 0xC5, CHR 0xBF]"
      | (k) "lower_char c \<noteq> l" "l \<noteq> CHR ''s''" "l = CHR ''k''" "has_prefix s [CHR 0xE2, CHR 0x84, CHR 0xAA]"
      using "2.prems"(1) Cons by (auto split: if_splits)
    then show ?thesis
    proof cases
      case low
      from "2.IH"(1)[OF Cons low] "2.prems" Cons low obtain p where
        "cs = p @ r" "CHR ''='' \<notin> set p" "\<forall>c \<in> set p. \<not> param_start c" by auto
      moreover have "c \<noteq> CHR ''=''" "\<not> param_start c" using l low by auto
      ultimately show ?thesis using Cons by (intro exI[of _ "c # p"]) auto
    next
      case s
      from s(3) obtain t where t: "s = [CHR 0xC5, CHR 0xBF] @ t" by (auto simp: has_prefix_iff)
      from "2.IH"(2)[OF Cons s(1)] "2.prems" s t obtain p where
        "t = p @ r" "CHR ''='' \<notin> set p" "\<forall>c \<in> set p. \<not> param_start c" by auto
      then show ?thesis using t by (intro exI[of _ "[CHR 0xC5, CHR 0xBF] @ p"]) auto
    next
      case k
      from k(4) obtain t where t: "s = [CHR 0xE2, CHR 0x84, CHR 0xAA] @ t" by (auto simp: has_prefix_iff)
      from "2.IH"(3)[OF Cons k(1)] "2.prems" k t obtain p where
        "t = p @ r" "CHR ''='' \<notin> set p" "\<forall>c \<in> set p. \<not> param_start c" by auto
      then show ?thesis using t by (intro exI[of _ "[CHR 0xE2, CHR 0x84, CHR 0xAA] @ p"]) auto
    qed
  qed (use "2.prems" in simp)
qed auto

lemma match_fold_append: "match_fold (ls @ ms) s = Option.bind (match_fold ls s) (match_fold ms)"
  by (induction ls s rule: match_fold.induct) (auto split: list.splits)

lemma secret_names_plain: "k \<in> set secret_names \<Longrightarrow> CHR ''='' \<notin> set k \<and> (\<forall>l \<in> set k. \<not> param_start l)"
  by (auto simp: secret_names_def)

lemma match_secret_consumed:
  assumes "match_secret s = Some r"
  shows "\<exists>c p. s = c # p @ CHR ''='' # r \<and> param_start c \<and> CHR ''='' \<notin> set p \<and> (\<forall>c \<in> set p. \<not> param_start c)"
proof -
  obtain c cs k where s: "s = c # cs" "param_start c" and k: "k \<in> set secret_names" "match_fold (k @ ''='') cs = Some r"
    using assms by (cases s) (auto simp: match_secret_def split: if_splits bind_splits dest!: find_Some_in)
  then obtain r' where r': "match_fold k cs = Some r'" "match_fold ''='' r' = Some r"
    by (auto simp: match_fold_append split: bind_splits)
  from match_fold_consumed[OF r'(1)] secret_names_plain[OF k(1)] obtain p where
    p: "cs = p @ r'" "CHR ''='' \<notin> set p" "\<forall>c \<in> set p. \<not> param_start c" by blast
  obtain x where "r' = x # r" "lower_char x = CHR ''=''" using r'(2) by (cases r') (auto split: if_splits)
  then have "r' = CHR ''='' # r" using lower_char_fixed[of x "CHR ''=''"] by simp
  with s p show ?thesis by auto
qed

lemma replace_secret_Nil [simp]: "replace_secret [] = []"
  by (simp add: replace_secret.simps[of "[]"] match_secret_def)

lemma replace_secret_skip: "match_secret (c # cs) = None \<Longrightarrow> replace_secret (c # cs) = c # replace_secret cs"
  by (simp add: replace_secret.simps[of "c # cs"])

lemma replace_secret_plain: "\<not> param_start c \<Longrightarrow> replace_secret (c # cs) = c # replace_secret cs"
  by (intro replace_secret_skip) (auto simp: match_secret_def)

lemma replace_secret_match:
  assumes "match_secret s = Some r"
  shows "\<exists>p. replace_secret s = hd s # p @ ''=REDACTED'' @ replace_secret (dropWhile value_char r) \<and> CHR ''='' \<notin> set p \<and>
    (\<forall>c \<in> set p. \<not> param_start c)"
proof -
  from match_secret_consumed[OF assms] obtain c p where
    s: "s = c # p @ CHR ''='' # r" "CHR ''='' \<notin> set p" "\<forall>c \<in> set p. \<not> param_start c" by blast
  have "take (length s - length r) s = c # p @ ''=''" unfolding s(1) by simp
  moreover have "replace_secret s = take (length s - length r) s @ ''REDACTED'' @ replace_secret (dropWhile value_char r)"
    by (simp add: replace_secret.simps[of s] assms)
  moreover have "hd s = c" by (simp add: s(1))
  ultimately have "replace_secret s = hd s # p @ ''=REDACTED'' @ replace_secret (dropWhile value_char r)" by simp
  then show ?thesis using s(2,3) by blast
qed

lemma replace_secret_hd: "\<exists>X. replace_secret (c # cs) = c # X"
proof (cases "match_secret (c # cs)")
  case (Some r)
  from replace_secret_match[OF this] show ?thesis by auto
qed (simp add: replace_secret_skip)

lemma replace_secret_prefix:
  assumes "has_prefix (replace_secret s) q" "\<forall>c \<in> set q. \<not> param_start c"
  shows "\<exists>t. s = q @ t \<and> replace_secret s = q @ replace_secret t"
  using assms
proof (induction q arbitrary: s)
  case (Cons x q)
  show ?case
  proof (cases s)
    case (Cons c cs)
    then have "c = x" using Cons.prems(1) replace_secret_hd[of c cs] by (auto simp: has_prefix_iff)
    then have "replace_secret s = x # replace_secret cs" using Cons Cons.prems(2) by (simp add: replace_secret_plain)
    moreover from this Cons.prems Cons.IH[of cs] obtain t where "cs = q @ t" "replace_secret cs = q @ replace_secret t"
      by (auto simp: has_prefix_iff)
    ultimately show ?thesis using Cons \<open>c = x\<close> by auto
  qed (use Cons.prems in \<open>simp add: has_prefix_iff\<close>)
qed auto

lemma fold_long_letters:
  "match_fold (CHR ''s'' # ls) (CHR 0xC5 # CHR 0xBF # t) = match_fold ls t"
  "match_fold (CHR ''k'' # ls) (CHR 0xE2 # CHR 0x84 # CHR 0xAA # t) = match_fold ls t"
  by (simp_all add: has_prefix_iff)

lemma match_fold_replaced:
  assumes "match_fold ls (replace_secret s) = Some r" "\<forall>l \<in> set ls. \<not> param_start l"
  shows "match_fold ls s \<noteq> None"
  using assms
proof (induction ls arbitrary: s)
  case (Cons l ls)
  show ?case
  proof (cases s)
    case (Cons c cs)
    obtain X where X: "replace_secret s = c # X" using replace_secret_hd Cons by blast
    have l: "\<not> param_start l" using Cons.prems(2) by simp
    have multi: ?thesis if q: "has_prefix (replace_secret s) q" "\<forall>c \<in> set q. \<not> param_start c"
      and m: "match_fold ls (drop (length q) (replace_secret s)) = Some r"
      and go: "\<And>t. s = q @ t \<Longrightarrow> match_fold ls t \<noteq> None \<Longrightarrow> match_fold (l # ls) s \<noteq> None" for q
    proof -
      obtain t where t: "s = q @ t" "replace_secret s = q @ replace_secret t" using replace_secret_prefix[OF q] by blast
      with m have "match_fold ls (replace_secret t) = Some r" by simp
      then have "match_fold ls t \<noteq> None" using Cons.IH[of t] Cons.prems(2) by simp
      with go t(1) show ?thesis by blast
    qed
    show ?thesis
    proof (cases "lower_char c = l")
      case True
      have "\<not> param_start c" using l True by auto
      then have "match_fold ls (replace_secret cs) = Some r"
        using Cons.prems(1) True Cons by (simp add: replace_secret_plain)
      then show ?thesis using Cons.IH[of cs] Cons.prems(2) Cons True by simp
    next
      case False
      then consider "l = CHR ''s''" "has_prefix (replace_secret s) [CHR 0xC5, CHR 0xBF]" "match_fold ls (drop 2 (replace_secret s)) = Some r"
        | "l = CHR ''k''" "has_prefix (replace_secret s) [CHR 0xE2, CHR 0x84, CHR 0xAA]" "match_fold ls (drop 3 (replace_secret s)) = Some r"
        using Cons.prems(1) X by (auto split: if_splits)
      then show ?thesis
      proof cases
        case 1
        show ?thesis by (rule multi[OF 1(2)]) (use 1 in \<open>auto simp: fold_long_letters numeral_2_eq_2 simp del: match_fold.simps\<close>)
      next
        case 2
        show ?thesis by (rule multi[OF 2(2)]) (use 2 in \<open>auto simp: fold_long_letters numeral_3_eq_3 simp del: match_fold.simps\<close>)
      qed
    qed
  qed (use Cons.prems in simp)
qed simp

lemma match_secret_replaced:
  assumes "match_secret (c # replace_secret cs) \<noteq> None"
  shows "match_secret (c # cs) \<noteq> None"
proof -
  obtain k r where k: "param_start c" "k \<in> set secret_names" "match_fold (k @ ''='') (replace_secret cs) = Some r"
    using assms by (auto simp: match_secret_def split: if_splits bind_splits dest!: find_Some_in)
  have "match_fold (k @ ''='') cs \<noteq> None"
    using match_fold_replaced[OF k(3)] secret_names_plain[OF k(2)] by auto
  then obtain v where v: "find (\<lambda>k. match_fold (k @ ''='') cs \<noteq> None) secret_names = Some v"
    using k(2) find_None_all[of "\<lambda>k. match_fold (k @ ''='') cs \<noteq> None" secret_names k] by (metis option.exhaust)
  then have "match_fold (v @ ''='') cs \<noteq> None" using find_Some_in by fast
  with v k(1) show ?thesis by (simp add: match_secret_def)
qed

lemma replace_value_end: "takeWhile value_char (''REDACTED'' @ replace_secret (dropWhile value_char r)) = ''REDACTED''"
proof (cases "dropWhile value_char r")
  case (Cons x xs)
  then have x: "\<not> value_char x" by (metis hd_dropWhile list.sel(1) list.simps(3))
  obtain X where "replace_secret (x # xs) = x # X" using replace_secret_hd by blast
  then show ?thesis using x Cons by (simp add: value_char_def token_char_def)
next
  case Nil
  show ?thesis unfolding Nil by (simp add: value_char_def token_char_def)
qed

lemma first_split: "p @ x # a = p' @ x # b \<Longrightarrow> x \<notin> set p \<Longrightarrow> x \<notin> set p' \<Longrightarrow> a = b"
proof (induction p arbitrary: p')
  case (Cons y p)
  then show ?case by (cases p') auto
qed (auto simp: Cons_eq_append_conv)

definition masked :: "string \<Rightarrow> bool" where
  "masked t = (case match_secret t of None \<Rightarrow> True | Some r \<Rightarrow> takeWhile value_char r = ''REDACTED'')"

lemma masked_plain: "\<not> param_start c \<Longrightarrow> masked (c # t)"
  by (auto simp: masked_def match_secret_def)

lemma suffix_after_plain:
  assumes "suffix t (p @ q)" "\<forall>c \<in> set p. \<not> param_start c"
  shows "masked t \<or> suffix t q"
  using assms
proof (induction p)
  case (Cons c p)
  from Cons.prems(1) consider "t = c # p @ q" | "suffix t (p @ q)" by (auto simp: suffix_Cons)
  then show ?case
  proof cases
    case 1
    then show ?thesis using masked_plain Cons.prems(2) by simp
  qed (use Cons in simp)
qed simp

lemma replace_secret_masked: "suffix t (replace_secret s) \<Longrightarrow> masked t"
proof (induction s rule: replace_secret.induct)
  case (1 s)
  show ?case
  proof (cases "match_secret s")
    case None
    show ?thesis
    proof (cases s)
      case (Cons c cs)
      with None have "match_secret (c # replace_secret cs) = None" using match_secret_replaced by blast
      then have "masked (c # replace_secret cs)" by (simp add: masked_def)
      moreover have "replace_secret s = c # replace_secret cs" using None Cons by (simp add: replace_secret_skip)
      ultimately show ?thesis using "1.IH"(1)[OF None Cons] "1.prems" by (auto simp: suffix_Cons)
    qed (use "1.prems" in \<open>simp add: masked_def match_secret_def\<close>)
  next
    case (Some r)
    let ?R = "replace_secret (dropWhile value_char r)"
    define c where "c = hd s"
    from replace_secret_match[OF Some] obtain p where
      out: "replace_secret s = c # p @ ''=REDACTED'' @ ?R" "CHR ''='' \<notin> set p" "\<forall>c \<in> set p. \<not> param_start c" unfolding c_def by blast
    have "masked (c # p @ ''=REDACTED'' @ ?R)"
    proof (cases "match_secret (c # p @ ''=REDACTED'' @ ?R)")
      case (Some r')
      from match_secret_consumed[OF Some] obtain p' where
        "p @ ''=REDACTED'' @ ?R = p' @ CHR ''='' # r'" "CHR ''='' \<notin> set p'" by auto
      then have "r' = ''REDACTED'' @ ?R" using out(2) first_split[of p "CHR ''=''" "''REDACTED'' @ ?R" p' r'] by auto
      then show ?thesis using Some replace_value_end by (simp add: masked_def)
    qed (simp add: masked_def)
    moreover have "masked t \<or> suffix t ?R" if "suffix t (p @ ''=REDACTED'' @ ?R)"
      using suffix_after_plain[of t "p @ ''=REDACTED''" ?R] that out(3) by auto
    ultimately show ?thesis using "1.IH"(2)[OF Some] "1.prems" unfolding out(1) by (auto simp: suffix_Cons)
  qed
qed

text \<open>No credential is left in a query string. Wherever the result of \<open>Text\<close> holds a parameter
  of one of the eight names, in any case and with the two letters Unicode folds to ASCII ones,
  its value is the word \<open>REDACTED\<close>.\<close>

lemma Text_masks_parameters:
  "list_all masked (suffixes (redact_Text s))"
  using replace_secret_masked by (auto simp: redact_Text_def list_all_iff)

end
