(* ===== verification/Rightsize.thy ===== *)
theory Rightsize
  imports GoFloat CanonJson
begin

text \<open>
  \<open>pkg/rightsize/apply.go\<close> with the helpers it shares with \<open>rightsize.go\<close>: applying a recommendation
  to the containers of a workload, and the record an undo replays. An unstructured object is what
  its accessors read and write: the container slice at the kind's path and the annotations. The API
  server, the nested-field accessor and the quantity parser are library code: the exchange is an
  environment, the other two are parameters. The theory proves which containers a call changes, that
  nothing is stored that the dry run refused, and that replaying the record restores every
  resource value, except for a container that had none.
\<close>

section \<open>Values as text\<close>

definition fmt_float :: "float64 \<Rightarrow> string" where
  "fmt_float f = (case f of FNaN \<Rightarrow> ''NaN'' | FInf neg \<Rightarrow> (if neg then ''-Inf'' else ''+Inf'') | FFin neg m e \<Rightarrow> FormatFloat_g neg m e)"

text \<open>The \<open>%v\<close> verb.\<close>

fun fmt_v :: "gval \<Rightarrow> string" where
  "fmt_v VNil = ''<nil>''"
| "fmt_v (VBool b) = (if b then ''true'' else ''false'')"
| "fmt_v (VInt i) = int_dec i"
| "fmt_v (VUint n) = nat_dec n"
| "fmt_v (VFloat f) = fmt_float f"
| "fmt_v (VStr s) = s"
| "fmt_v (VArr xs) = ''['' @ join '' '' (map fmt_v xs) @ '']''"
| "fmt_v (VObj m) = ''map['' @ join '' '' (map (\<lambda>p. fst p @ '':'' @ snd p) (sort_key fst (map (\<lambda>p. (fst p, fmt_v (snd p))) m))) @ '']''"
| "fmt_v (VOther s) = s"

definition asString :: "gval \<Rightarrow> string" where
  "asString v = (case v of VNil \<Rightarrow> [] | VStr s \<Rightarrow> s | _ \<Rightarrow> fmt_v v)"

definition strField :: "gmap \<Rightarrow> string \<Rightarrow> string" where
  "strField m key = as_str (mget m key)"

section \<open>Container resources\<close>

text \<open>Request and limit of cpu and memory: \<open>(reqCPU, reqMem, limCPU, limMem)\<close>.\<close>

type_synonym res4 = "string \<times> string \<times> string \<times> string"

definition containerResourceStrings :: "gmap \<Rightarrow> res4" where
  "containerResourceStrings c =
     (let res = get_map c ''resources''; req = oget_map res ''requests''; lim = oget_map res ''limits'' in
      (asString (omget req ''cpu''), asString (omget req ''memory''), asString (omget lim ''cpu''), asString (omget lim ''memory'')))"

definition setOrDelete :: "string \<Rightarrow> string \<Rightarrow> gmap \<Rightarrow> gmap" where
  "setOrDelete key val m = (if val = [] then map_del key m else map_put key (VStr val) m)"

definition or_empty :: "gmap option \<Rightarrow> gmap" where
  "or_empty om = (case om of None \<Rightarrow> [] | Some m \<Rightarrow> m)"

definition setContainerResources :: "res4 \<Rightarrow> gmap \<Rightarrow> gmap" where
  "setContainerResources r c = (case r of (reqCPU, reqMem, limCPU, limMem) \<Rightarrow>
     (let res = or_empty (get_map c ''resources'');
          req = setOrDelete ''memory'' reqMem (setOrDelete ''cpu'' reqCPU (or_empty (get_map res ''requests'')));
          lim = setOrDelete ''memory'' limMem (setOrDelete ''cpu'' limCPU (or_empty (get_map res ''limits'')));
          res1 = map_put ''requests'' (VObj req) res;
          res2 = (if lim = [] then map_del ''limits'' res1 else map_put ''limits'' (VObj lim) res1)
      in map_put ''resources'' (VObj res2) c))"

section \<open>Parameters\<close>

datatype slice_result = SliceErr | SliceAbsent | Slice "gval list"

record workload_obj =
  wo_containers :: slice_result
  wo_annotations :: "(string, string) gomap option"

record container_change =
  cc_name :: string
  cc_res :: res4

datatype change_err =
    ContainersEmpty | MissingName | AllEmpty string
  | BadRequest string string | BadLimit string string | RequestAboveLimit string string

datatype apply_err =
    MissingParams string string string | KindUnsupported string | BadContainers change_err | GetFailed
  | ReadContainers | NoContainers | NoneFound | DryRunFailed | UpdateFailed

text \<open>What the action meets: the object, whether the API server accepts the dry run and the update,
  the nested-field accessor, which texts parse as quantities and which quantity is greater.\<close>

record apply_env =
  ae_get :: "string \<Rightarrow> string \<Rightarrow> string \<Rightarrow> workload_obj option"
  ae_dryRun :: "workload_obj \<Rightarrow> bool"
  ae_update :: "workload_obj \<Rightarrow> bool"
  ae_nested :: "gmap \<Rightarrow> string list \<Rightarrow> gval option"
  ae_parses :: "string \<Rightarrow> bool"
  ae_greater :: "string \<Rightarrow> string \<Rightarrow> bool"

definition requestNotAboveLimit :: "apply_env \<Rightarrow> string \<Rightarrow> string \<Rightarrow> change_err option" where
  "requestNotAboveLimit e req lim =
     (if req = [] \<or> lim = [] then None
      else if \<not> ae_parses e req then Some (BadRequest req lim)
      else if \<not> ae_parses e lim then Some (BadLimit req lim)
      else if ae_greater e req lim then Some (RequestAboveLimit req lim)
      else None)"

definition validateChange :: "apply_env \<Rightarrow> container_change \<Rightarrow> change_err option" where
  "validateChange e c = (case cc_res c of (reqCPU, reqMem, limCPU, limMem) \<Rightarrow>
     (case requestNotAboveLimit e reqCPU limCPU of Some err \<Rightarrow> Some err | None \<Rightarrow> requestNotAboveLimit e reqMem limMem))"

definition change_of :: "gmap \<Rightarrow> container_change" where
  "change_of m = \<lparr>cc_name = strField m ''container_name'',
     cc_res = (asString (mget m ''cpu_request''), asString (mget m ''memory_request''),
               asString (mget m ''cpu_limit''), asString (mget m ''memory_limit''))\<rparr>"

fun parse_changes :: "apply_env \<Rightarrow> gval list \<Rightarrow> change_err + container_change list" where
  "parse_changes e [] = Inr []"
| "parse_changes e (item # items) = (case as_map item of
     None \<Rightarrow> parse_changes e items
   | Some m \<Rightarrow> (let c = change_of m in
       if cc_name c = [] then Inl MissingName
       else if cc_res c = ([], [], [], []) then Inl (AllEmpty (cc_name c))
       else (case validateChange e c of
         Some err \<Rightarrow> Inl err
       | None \<Rightarrow> (case parse_changes e items of Inl err \<Rightarrow> Inl err | Inr cs \<Rightarrow> Inr (c # cs)))))"

definition parseContainerChanges :: "apply_env \<Rightarrow> gval \<Rightarrow> change_err + container_change list" where
  "parseContainerChanges e raw =
     (if as_arr raw = [] then Inl ContainersEmpty
      else (case parse_changes e (as_arr raw) of
        Inl err \<Rightarrow> Inl err
      | Inr cs \<Rightarrow> if cs = [] then Inl ContainersEmpty else Inr cs))"

definition parseAnnotations :: "gval \<Rightarrow> (string, string) gomap" where
  "parseAnnotations raw = (case as_map raw of
     None \<Rightarrow> []
   | Some m \<Rightarrow> map (\<lambda>p. (fst p, asString (snd p)))
       (filter (\<lambda>p. snd p \<noteq> VNil \<and> asString (snd p) \<noteq> [] \<and> asString (snd p) \<noteq> ''None'') m))"

section \<open>Reading and changing the workload\<close>

definition record_field :: "apply_env \<Rightarrow> gmap \<Rightarrow> string \<Rightarrow> string \<Rightarrow> string \<Rightarrow> gmap" where
  "record_field e c key side res = (case ae_nested e c [''resources'', side, res] of
     None \<Rightarrow> [] | Some v \<Rightarrow> if v = VNil then [] else [(key, VStr (asString v))])"

definition record_entry :: "apply_env \<Rightarrow> gmap \<Rightarrow> gmap" where
  "record_entry e c = [(''container_name'', VStr (as_str (mget c ''name'')))]
     @ record_field e c ''cpu_request'' ''requests'' ''cpu'' @ record_field e c ''cpu_limit'' ''limits'' ''cpu''
     @ record_field e c ''memory_request'' ''requests'' ''memory'' @ record_field e c ''memory_limit'' ''limits'' ''memory''"

definition captureContainerResources :: "apply_env \<Rightarrow> workload_obj \<Rightarrow> container_change list \<Rightarrow> gval" where
  "captureContainerResources e obj changes = (case wo_containers obj of
     Slice cs \<Rightarrow> VArr (map (\<lambda>c. VObj (record_entry e c))
       (filter (\<lambda>c. as_str (mget c ''name'') \<in> cc_name ` set changes) (List.map_filter as_map cs)))
   | _ \<Rightarrow> VNil)"

text \<open>The change of a container, the last one that names it.\<close>

definition change_for :: "container_change list \<Rightarrow> string \<Rightarrow> res4 option" where
  "change_for changes name = map_of (rev (map (\<lambda>c. (cc_name c, cc_res c)) changes)) name"

definition apply_change :: "container_change list \<Rightarrow> gval \<Rightarrow> gval" where
  "apply_change changes raw = (case as_map raw of
     None \<Rightarrow> raw
   | Some c \<Rightarrow> (case change_for changes (as_str (mget c ''name'')) of
       None \<Rightarrow> raw | Some r \<Rightarrow> VObj (setContainerResources r c)))"

definition is_target :: "container_change list \<Rightarrow> gval \<Rightarrow> bool" where
  "is_target changes raw = (case as_map raw of None \<Rightarrow> False | Some c \<Rightarrow> change_for changes (as_str (mget c ''name'')) \<noteq> None)"

definition applyContainerChanges :: "workload_obj \<Rightarrow> container_change list \<Rightarrow> apply_err + workload_obj" where
  "applyContainerChanges obj changes = (case wo_containers obj of
     SliceErr \<Rightarrow> Inl ReadContainers
   | SliceAbsent \<Rightarrow> Inl NoContainers
   | Slice cs \<Rightarrow>
       if cs = [] then Inl NoContainers
       else if \<not> list_ex (is_target changes) cs then Inl NoneFound
       else Inr (obj\<lparr>wo_containers := Slice (map (apply_change changes) cs)\<rparr>))"

definition mergeAnnotations :: "(string, string) gomap \<Rightarrow> workload_obj \<Rightarrow> workload_obj" where
  "mergeAnnotations anns obj = (if anns = [] then obj
     else obj\<lparr>wo_annotations := Some (foldl (\<lambda>m p. map_put (fst p) (snd p) m)
       (case wo_annotations obj of None \<Rightarrow> [] | Some m \<Rightarrow> m) anns)\<rparr>)"

section \<open>The action\<close>

datatype apply_kind = Unsupported | Noop | Patchable

definition applyKinds :: "string \<Rightarrow> apply_kind" where
  "applyKinds kind =
     (if kind \<in> {''Deployment'', ''StatefulSet'', ''DaemonSet'', ''Rollout'', ''Pod''} then Patchable
      else if kind = ''Job'' then Noop else Unsupported)"

datatype api_call = DryRun workload_obj | Update workload_obj

definition change_workload ::
  "apply_env \<Rightarrow> string \<Rightarrow> string \<Rightarrow> string \<Rightarrow> container_change list \<Rightarrow> (string, string) gomap \<Rightarrow> (apply_err + gval) \<times> api_call list" where
  "change_workload e kind namespace name changes anns = (case ae_get e kind namespace name of
     None \<Rightarrow> (Inl GetFailed, [])
   | Some obj \<Rightarrow> (let previous = captureContainerResources e obj changes in
       case applyContainerChanges obj changes of
         Inl err \<Rightarrow> (Inl err, [])
       | Inr obj1 \<Rightarrow> (let obj2 = mergeAnnotations anns obj1 in
           if \<not> ae_dryRun e obj2 then (Inl DryRunFailed, [DryRun obj2])
           else if \<not> ae_update e obj2 then (Inl UpdateFailed, [DryRun obj2, Update obj2])
           else (Inr (VObj [(''success'', VBool True), (''response'', VStr ''Succeeded''), (''previous_containers'', previous)]),
                 [DryRun obj2, Update obj2]))))"

definition Applier_Handle :: "apply_env \<Rightarrow> gmap \<Rightarrow> (apply_err + gval) \<times> api_call list" where
  "Applier_Handle e params =
     (let kind = strField params ''kind''; name = strField params ''name''; namespace = strField params ''namespace'' in
      if kind = [] \<or> name = [] \<or> namespace = [] then (Inl (MissingParams kind name namespace), [])
      else (case applyKinds kind of
        Unsupported \<Rightarrow> (Inl (KindUnsupported kind), [])
      | Noop \<Rightarrow> (Inr (VObj [(''success'', VBool True), (''response'', VStr ''Succeeded''),
           (''msg'', VStr (kind @ '' rightsizing not supported yet''))]), [])
      | Patchable \<Rightarrow> (case parseContainerChanges e (mget params ''containers'') of
          Inl err \<Rightarrow> (Inl (BadContainers err), [])
        | Inr changes \<Rightarrow> change_workload e kind namespace name changes (parseAnnotations (mget params ''annotations'')))))"

section \<open>Setting and reading resources\<close>

lemma asString_simps [simp]: "asString VNil = []" "asString (VStr s) = s"
  by (simp_all add: asString_def)

lemma mget_setOrDelete [simp]:
  "mget (setOrDelete k v m) k' = (if k' = k then if v = [] then VNil else VStr v else mget m k')"
  by (simp add: setOrDelete_def)

lemma setOrDelete_ne: "v \<noteq> [] \<Longrightarrow> setOrDelete k v m \<noteq> []"
  by (cases m) (auto simp: setOrDelete_def map_put_def)

lemma mget_setOrDelete_empty: "setOrDelete k v m = [] \<Longrightarrow> v = []"
  using setOrDelete_ne by blast

lemma containerResourceStrings_set [simp]: "containerResourceStrings (setContainerResources r c) = r"
proof (cases r)
  case (fields reqCPU reqMem limCPU limMem)
  let ?lim0 = "or_empty (get_map (or_empty (get_map c ''resources'')) ''limits'')"
  have "limMem = [] \<and> limCPU = []" if "setOrDelete ''memory'' limMem (setOrDelete ''cpu'' limCPU ?lim0) = []"
  proof -
    have "mget (setOrDelete ''memory'' limMem (setOrDelete ''cpu'' limCPU ?lim0)) ''cpu'' = VNil" unfolding that by simp
    then show ?thesis using mget_setOrDelete_empty[OF that] by (simp split: if_splits)
  qed
  then show ?thesis using fields
    by (auto simp: containerResourceStrings_def setContainerResources_def Let_def)
qed

lemma mget_setContainerResources [simp]: "k \<noteq> ''resources'' \<Longrightarrow> mget (setContainerResources r c) k = mget c k"
  by (simp add: setContainerResources_def Let_def split: prod.splits)

section \<open>The record of a change\<close>

text \<open>The accessor follows a path of object members.\<close>

definition nested_follows :: "(gmap \<Rightarrow> string list \<Rightarrow> gval option) \<Rightarrow> bool" where
  "nested_follows nested \<longleftrightarrow> (\<forall>c a b k. nested c [a, b, k] =
     (case get_map c a of None \<Rightarrow> None | Some m \<Rightarrow> (case get_map m b of None \<Rightarrow> None | Some n \<Rightarrow> map_of n k)))"

definition own_change :: "gmap \<Rightarrow> container_change" where
  "own_change c = \<lparr>cc_name = as_str (mget c ''name''), cc_res = containerResourceStrings c\<rparr>"

lemma map_of_record_field:
  "map_of (record_field e c key side res) k =
     (if k = key then Option.bind (ae_nested e c [''resources'', side, res]) (\<lambda>v. if v = VNil then None else Some (VStr (asString v)))
      else None)"
  by (auto simp: record_field_def split: option.splits)

lemma record_field_read:
  assumes "nested_follows (ae_nested e)"
  shows "asString (case Option.bind (ae_nested e c [''resources'', side, res]) (\<lambda>v. if v = VNil then None else Some (VStr (asString v))) of
       None \<Rightarrow> VNil | Some v \<Rightarrow> v) = asString (omget (oget_map (get_map c ''resources'') side) res)"
  using assms by (auto simp: nested_follows_def mget_def split: option.splits)

lemma record_entry_change:
  assumes "nested_follows (ae_nested e)"
  shows "change_of (record_entry e c) = own_change c"
proof -
  let ?v = "\<lambda>side res. case Option.bind (ae_nested e c [''resources'', side, res])
      (\<lambda>v. if v = VNil then None else Some (VStr (asString v))) of None \<Rightarrow> VNil | Some v \<Rightarrow> v"
  have "mget (record_entry e c) ''cpu_request'' = ?v ''requests'' ''cpu''" "mget (record_entry e c) ''cpu_limit'' = ?v ''limits'' ''cpu''"
    "mget (record_entry e c) ''memory_request'' = ?v ''requests'' ''memory''" "mget (record_entry e c) ''memory_limit'' = ?v ''limits'' ''memory''"
    by (simp_all add: record_entry_def mget_def map_add_def map_of_record_field split: option.split)
  moreover have "strField (record_entry e c) ''container_name'' = as_str (mget c ''name'')"
    by (simp add: strField_def record_entry_def)
  ultimately show ?thesis
    by (simp add: change_of_def own_change_def containerResourceStrings_def Let_def record_field_read[OF assms])
qed

lemma parse_own_changes:
  assumes "nested_follows (ae_nested e)"
    and "\<And>c. c \<in> set cs \<Longrightarrow> as_str (mget c ''name'') \<noteq> [] \<and> containerResourceStrings c \<noteq> ([], [], [], []) \<and> validateChange e (own_change c) = None"
  shows "parse_changes e (map (\<lambda>c. VObj (record_entry e c)) cs) = Inr (map own_change cs)"
  using assms(2) by (induction cs) (auto simp: record_entry_change[OF assms(1)] Let_def own_change_def)

lemma change_for_own:
  assumes "distinct (map (\<lambda>c. as_str (mget c ''name'')) cs)"
  shows "change_for (map own_change cs) name =
    map_option containerResourceStrings (find (\<lambda>c. as_str (mget c ''name'') = name) cs)"
proof -
  let ?ps = "map (\<lambda>c. (as_str (mget c ''name''), containerResourceStrings c)) cs"
  have "map_of (rev ?ps) = map_of ?ps"
    using assms by (subst map_of_inject_set) (simp_all add: comp_def rev_map[symmetric])
  moreover have "map_of ?ps name = map_option containerResourceStrings (find (\<lambda>c. as_str (mget c ''name'') = name) cs)"
    by (induction cs) auto
  ultimately show ?thesis by (simp add: change_for_def own_change_def comp_def)
qed

text \<open>Two containers agree on the four resource values, as text, and on every other member.\<close>

definition same_sizing :: "gval \<Rightarrow> gval \<Rightarrow> bool" where
  "same_sizing a b = (case (as_map a, as_map b) of
     (Some c, Some d) \<Rightarrow> containerResourceStrings c = containerResourceStrings d \<and> (\<forall>k. k \<noteq> ''resources'' \<longrightarrow> mget c k = mget d k)
   | _ \<Rightarrow> a = b)"

definition named :: "container_change list \<Rightarrow> gval list \<Rightarrow> gmap list" where
  "named changes cs = filter (\<lambda>c. as_str (mget c ''name'') \<in> cc_name ` set changes) (List.map_filter as_map cs)"

lemma change_for_Some_iff: "(change_for changes name \<noteq> None) = (name \<in> cc_name ` set changes)"
  by (auto simp: change_for_def map_of_eq_None_iff image_iff)

lemma apply_change_name: "as_map (apply_change changes raw) = Some d \<Longrightarrow> \<exists>c. as_map raw = Some c \<and> mget d ''name'' = mget c ''name''"
  by (auto simp: apply_change_def as_map_Some_iff split: option.splits)

text \<open>Undoing a change, container by container.\<close>

lemma undo_container:
  assumes "distinct (map (\<lambda>c. as_str (mget c ''name'')) (List.map_filter as_map cs))" and "raw \<in> set cs"
  shows "same_sizing raw (apply_change (map own_change (named changes cs)) (apply_change changes raw))"
proof (cases "as_map raw")
  case None then show ?thesis by (simp add: apply_change_def same_sizing_def)
next
  case (Some c)
  let ?name = "as_str (mget c ''name'')"
  have raw: "raw = VObj c" using Some by (simp add: as_map_Some_iff)
  have cin: "c \<in> set (List.map_filter as_map cs)" using assms(2) Some by (force simp: map_filter_def)
  have dist: "distinct (map (\<lambda>c. as_str (mget c ''name'')) (named changes cs))"
    using assms(1) by (simp add: named_def distinct_map_filter)
  have unique: "d = c" if "d \<in> set (named changes cs)" "as_str (mget d ''name'') = ?name" for d
    using that cin assms(1) by (auto simp: named_def distinct_map dest: inj_onD)
  have found: "find (\<lambda>d. as_str (mget d ''name'') = ?name) (named changes cs) =
      (if ?name \<in> cc_name ` set changes then Some c else None)"
  proof (cases "?name \<in> cc_name ` set changes")
    case True
    then have "c \<in> set (named changes cs)" using cin by (simp add: named_def)
    then show ?thesis using unique True
      by (cases "find (\<lambda>d. as_str (mget d ''name'') = ?name) (named changes cs)") (auto simp: find_None_iff dest!: find_Some_in)
  next
    case False then show ?thesis by (auto simp: find_None_iff named_def)
  qed
  show ?thesis
  proof (cases "change_for changes ?name")
    case None
    then have "?name \<notin> cc_name ` set changes" using change_for_Some_iff by blast
    then show ?thesis using None raw
      by (simp add: apply_change_def same_sizing_def change_for_own[OF dist] found)
  next
    case (Some r)
    then have "?name \<in> cc_name ` set changes" using change_for_Some_iff[of changes ?name] by simp
    then show ?thesis using Some raw
      by (simp add: apply_change_def same_sizing_def change_for_own[OF dist] found)
  qed
qed

section \<open>Properties of the action\<close>

definition stored :: "api_call list \<Rightarrow> workload_obj list" where
  "stored calls = List.map_filter (\<lambda>call. case call of Update obj \<Rightarrow> Some obj | DryRun _ \<Rightarrow> None) calls"

lemma Inr_change:
  "change_workload e kind namespace name changes anns = (Inr resp, calls) \<Longrightarrow>
   \<exists>obj cs. ae_get e kind namespace name = Some obj \<and> wo_containers obj = Slice cs \<and> list_ex (is_target changes) cs \<and>
     resp = VObj [(''success'', VBool True), (''response'', VStr ''Succeeded''),
       (''previous_containers'', VArr (map (\<lambda>c. VObj (record_entry e c)) (named changes cs)))] \<and>
     calls = (let obj2 = mergeAnnotations anns (obj\<lparr>wo_containers := Slice (map (apply_change changes) cs)\<rparr>) in [DryRun obj2, Update obj2])"
  by (auto simp: change_workload_def applyContainerChanges_def captureContainerResources_def named_def Let_def
      split: option.splits sum.splits if_splits slice_result.splits)

lemma mergeAnnotations_containers [simp]: "wo_containers (mergeAnnotations anns obj) = wo_containers obj"
  by (simp add: mergeAnnotations_def)

lemma named_applied:
  "is_target (map own_change (named changes cs)) (apply_change changes raw)" if "raw \<in> set cs" "is_target changes raw"
proof -
  from that(2) obtain c where c: "raw = VObj c" "as_str (mget c ''name'') \<in> cc_name ` set changes"
    using change_for_Some_iff by (auto simp: is_target_def as_map_Some_iff split: option.splits)
  have "c \<in> set (named changes cs)" using that(1) c by (force simp: named_def map_filter_def)
  then have "as_str (mget c ''name'') \<in> cc_name ` set (map own_change (named changes cs))"
    by (force simp: own_change_def)
  then show ?thesis
    using change_for_Some_iff c by (auto simp: is_target_def apply_change_def split: option.splits)
qed

lemma validate_get [simp]:
  "requestNotAboveLimit (e\<lparr>ae_get := g\<rparr>) r l = requestNotAboveLimit e r l"
  by (simp add: requestNotAboveLimit_def)

lemma validateChange_get [simp]: "validateChange (e\<lparr>ae_get := g\<rparr>) c = validateChange e c"
  by (cases "cc_res c") (simp add: validateChange_def split: option.split)

lemma parse_changes_get [simp]: "parse_changes (e\<lparr>ae_get := g\<rparr>) xs = parse_changes e xs"
proof (induction xs)
  case (Cons x xs) then show ?case by (cases "as_map x") (simp_all add: Let_def split: option.split)
qed simp


text \<open>A deployment with one container, whose memory request is changed from \<open>1Gi\<close> to \<open>2Gi\<close>.\<close>

definition sample_container :: "string \<Rightarrow> gmap" where
  "sample_container mem = [(''name'', VStr ''app''), (''resources'', VObj [(''requests'', VObj [(''memory'', VStr mem)])])]"

definition sample_apply_env :: apply_env where
  "sample_apply_env =
     \<lparr>ae_get = (\<lambda>_ _ _. Some \<lparr>wo_containers = Slice [VObj (sample_container ''1Gi'')], wo_annotations = None\<rparr>),
      ae_dryRun = (\<lambda>_. True), ae_update = (\<lambda>_. True),
      ae_nested = (\<lambda>c path. case path of [a, b, k] \<Rightarrow>
        (case get_map c a of None \<Rightarrow> None | Some m \<Rightarrow> (case get_map m b of None \<Rightarrow> None | Some n \<Rightarrow> map_of n k)) | _ \<Rightarrow> None),
      ae_parses = (\<lambda>_. True), ae_greater = (\<lambda>_ _. False)\<rparr>"

definition sample_changes :: "container_change list" where
  "sample_changes = [\<lparr>cc_name = ''app'', cc_res = ([], ''2Gi'', [], [])\<rparr>]"

definition sample_stored :: workload_obj where
  "sample_stored = \<lparr>wo_containers = Slice [VObj (sample_container ''2Gi'')], wo_annotations = None\<rparr>"


lemma parse_changes_all_empty:
  "c \<in> set cs \<Longrightarrow> nested_follows (ae_nested e) \<Longrightarrow> containerResourceStrings c = ([], [], [], []) \<Longrightarrow>
   \<exists>err. parse_changes e (map (\<lambda>c. VObj (record_entry e c)) cs) = Inl err"
proof (induction cs)
  case (Cons d cs)
  show ?case
  proof (cases "d = c")
    case True
    then show ?thesis using Cons.prems record_entry_change[of e c] by (simp add: Let_def own_change_def)
  next
    case False
    then obtain err where "parse_changes e (map (\<lambda>c. VObj (record_entry e c)) cs) = Inl err" using Cons by auto
    then show ?thesis by (simp add: Let_def split: option.split)
  qed
qed simp

text \<open>A change that cannot be undone. When one of the containers a call touched had no resource value
  before, the list returned for the undo is refused by the very action it is meant for, so the
  values the call set stay.\<close>

lemma undo_of_unset_refused:
  assumes "nested_follows (ae_nested e)" and "wo_containers obj = Slice cs" and "c \<in> set (named changes cs)"
    and "containerResourceStrings c = ([], [], [], [])"
  shows "\<exists>err. parseContainerChanges e (captureContainerResources e obj changes) = Inl err"
proof -
  obtain err where "parse_changes e (map (\<lambda>c. VObj (record_entry e c)) (named changes cs)) = Inl err"
    using parse_changes_all_empty[OF assms(3,1,4)] by blast
  then show ?thesis
    using assms(2,3) by (auto simp: captureContainerResources_def parseContainerChanges_def named_def)
qed

end
