(* ===== verification/Kubectl.thy ===== *)
theory Kubectl
  imports GoValue Base64
begin

text \<open>
  \<open>pkg/kube/exec.go\<close> and \<open>pkg/cmdout\<close>: the kubectl action. A command line is split into tokens by a
  library (a parameter), cut into a chain of invocations, checked against the read-only lists and
  run invocation by invocation. Running a process, the state of the context and gzip are the
  environment. The theory proves that without write permission every process started is a
  read-only kubectl invocation by kubectl's own reading of its flags, that one bad link stops the
  whole chain before anything runs, and that the chain is run as a shell would run it.
\<close>

section \<open>Collected output\<close>

text \<open>\<open>op_gzip\<close> is the compressor's stream so far in gzip mode, \<open>None\<close> in plain mode.\<close>

record cmd_output =
  op_gzip :: bool
  op_text :: string
  op_n :: int

definition New_output :: "string \<Rightarrow> cmd_output" where
  "New_output encoding = \<lparr>op_gzip = (encoding = ''gzip''), op_text = [], op_n = 0\<rparr>"

definition Output_Write :: "string \<Rightarrow> cmd_output \<Rightarrow> cmd_output" where
  "Output_Write p out = out\<lparr>op_text := op_text out @ p, op_n := op_n out + int (length p)\<rparr>"

text \<open>\<open>gzip\<close> gives the compressed stream of what was written, \<open>None\<close> when closing it fails.\<close>

definition GzipBase64 :: "(string \<Rightarrow> string option) \<Rightarrow> cmd_output \<Rightarrow> string option" where
  "GzipBase64 gzip out = (if \<not> op_gzip out then Some [] else map_option b64_encode (gzip (op_text out)))"

definition AddTo :: "(string \<Rightarrow> string option) \<Rightarrow> cmd_output \<Rightarrow> gmap \<Rightarrow> gmap option" where
  "AddTo gzip out m =
     (if \<not> op_gzip out then Some (map_put ''stdout'' (VStr (op_text out)) m)
      else map_option (\<lambda>enc. map_put ''stdout_bytes'' (VInt (op_n out)) (map_put ''output_encoding'' (VStr ''gzip'')
        (map_put ''stdout_gzip_b64'' (VStr enc) m))) (GzipBase64 gzip out))"

section \<open>The lists\<close>

definition allowedKubectlVerbs :: "string list" where
  "allowedKubectlVerbs = [''get'', ''describe'', ''logs'', ''top'', ''explain'', ''api-resources'', ''api-versions'', ''version'',
     ''cluster-info'', ''events'', ''config'', ''auth'', ''rollout'']"

definition readOnlySubcommands :: "string \<Rightarrow> string list option" where
  "readOnlySubcommands verb =
     (if verb = ''rollout'' then Some [''history'', ''status'']
      else if verb = ''config'' then Some [''view'', ''current-context'', ''get-contexts'', ''get-clusters'', ''get-users'']
      else if verb = ''auth'' then Some [''can-i'', ''whoami'']
      else None)"

definition value_flags :: "string list" where
  "value_flags = [''--as'', ''--as-group'', ''--as-uid'', ''--as-user-extra'', ''--cache-dir'', ''--certificate-authority'',
     ''--client-certificate'', ''--client-key'', ''--cluster'', ''--context'', ''--kubeconfig'', ''--kuberc'',
     ''--log-flush-frequency'', ''-n'', ''--namespace'', ''--password'', ''--profile'', ''--profile-output'', ''--request-timeout'',
     ''-s'', ''--server'', ''--tls-server-name'', ''--token'', ''--user'', ''--username'', ''-v'', ''--v'', ''--vmodule'', ''-o'',
     ''--output'', ''--log-file'', ''--log-dir'', ''--log-file-max-size'', ''--log-backtrace-at'', ''--stderrthreshold'',
     ''--logging-format'']"

definition bool_flags :: "string list" where
  "bool_flags = [''--disable-compression'', ''--insecure-skip-tls-verify'', ''--match-server-version'', ''--warnings-as-errors'',
     ''--alsologtostderr'', ''--logtostderr'', ''--skip-headers'', ''--skip-log-headers'', ''--add-dir-header'', ''--one-output'']"

definition globalFlags :: "string \<Rightarrow> bool option" where
  "globalFlags a = (if a \<in> set value_flags then Some True else if a \<in> set bool_flags then Some False else None)"

definition rejectedShellTokens :: "string list" where
  "rejectedShellTokens = [''|'', ''|&'', ''>'', ''>>'', ''<'', ''<<'', ''<<<'', ''&'', ''&>'', ''&>>'']"

definition segmentSeparators :: "string list" where
  "segmentSeparators = [''&&'', ''||'', '';'']"

section \<open>Reading a segment\<close>

datatype kubectl_err =
    CommandRequired | ParseFailed | ShellOperator string | EmptyCommand | EmptySegment
  | UnrecognizedFlag string | NoVerb | VerbNotAllowed string | SubcommandMissing string | SubcommandNotAllowed string string
  | CtxError | ExecFailed | EncodeFailed

definition is_flag :: "string \<Rightarrow> bool" where
  "is_flag a = has_prefix a ''-''"

text \<open>The verb and the subcommand; both empty when there is none.\<close>

fun firstVerbAndSubcommand :: "string list \<Rightarrow> kubectl_err + string \<times> string" where
  "firstVerbAndSubcommand [] = Inr ([], [])"
| "firstVerbAndSubcommand (a # as) =
     (if \<not> is_flag a then Inr (a, case as of [] \<Rightarrow> [] | b # _ \<Rightarrow> if is_flag b then [] else b)
      else if contains a ''='' then firstVerbAndSubcommand as
      else (case globalFlags a of
        None \<Rightarrow> Inl (UnrecognizedFlag a)
      | Some takesValue \<Rightarrow> firstVerbAndSubcommand (if takesValue then drop 1 as else as)))"

record kubectl_executor =
  kx_BinaryPath :: string
  kx_AllowWrite :: bool

definition validateSegment :: "kubectl_executor \<Rightarrow> string list \<Rightarrow> kubectl_err option" where
  "validateSegment k args = (case firstVerbAndSubcommand args of
     Inl err \<Rightarrow> Some err
   | Inr (verb, sub) \<Rightarrow>
       if verb = [] then Some NoVerb
       else if kx_AllowWrite k then None
       else if verb \<notin> set allowedKubectlVerbs then Some (VerbNotAllowed verb)
       else (case readOnlySubcommands verb of
         None \<Rightarrow> None
       | Some subs \<Rightarrow> if sub \<in> set subs then None
           else if sub = [] then Some (SubcommandMissing verb) else Some (SubcommandNotAllowed verb sub)))"

section \<open>Chains\<close>

record cmd_segment =
  sg_op :: string
  sg_args :: "string list"

definition strip_kubectl :: "string list \<Rightarrow> string list" where
  "strip_kubectl args = (case args of a # as \<Rightarrow> if a = ''kubectl'' then as else args | [] \<Rightarrow> [])"

text \<open>The \<open>flush\<close> closure: the segment collected, when its arguments are not empty.\<close>

definition flush_segment :: "string \<Rightarrow> string list \<Rightarrow> string \<Rightarrow> kubectl_err + cmd_segment list" where
  "flush_segment op' cur nextOp =
     (let args = strip_kubectl cur in
      if args = [] then
        (if op' = '';'' \<and> nextOp = [] then Inr []
         else if op' = [] \<and> nextOp = [] then Inl EmptyCommand
         else Inl EmptySegment)
      else Inr [\<lparr>sg_op = op', sg_args = args\<rparr>])"

fun split_loop :: "string list \<Rightarrow> string \<Rightarrow> string list \<Rightarrow> kubectl_err + cmd_segment list" where
  "split_loop [] op' cur = flush_segment op' cur []"
| "split_loop (t # ts) op' cur =
     (if t \<in> set segmentSeparators then
        (case flush_segment op' cur t of
           Inl err \<Rightarrow> Inl err
         | Inr segs \<Rightarrow> (case split_loop ts t [] of Inl err \<Rightarrow> Inl err | Inr rest \<Rightarrow> Inr (segs @ rest)))
      else split_loop ts op' (cur @ [t]))"

definition splitSegments :: "string list \<Rightarrow> kubectl_err + cmd_segment list" where
  "splitSegments tokens = split_loop tokens [] []"

section \<open>Running\<close>

text \<open>One process: what it writes, its exit code when it started, and how \<open>Run\<close> failed.\<close>

datatype run_err = RunOK | RunExit | RunOther

record process =
  ps_stdout :: string
  ps_stderr :: string
  ps_exit :: "int option"
  ps_err :: run_err

text \<open>The \<open>i\<close>-th segment of the chain: whether the context is done before and after it, and the process.\<close>

record exec_env =
  xe_done_before :: "nat \<Rightarrow> bool"
  xe_done_after :: "nat \<Rightarrow> bool"
  xe_process :: "nat \<Rightarrow> string \<Rightarrow> string list \<Rightarrow> process"
  xe_gzip :: "string \<Rightarrow> string option"

definition shouldRunSegment :: "string \<Rightarrow> int \<Rightarrow> bool" where
  "shouldRunSegment op' prevExit =
     (if op' = ''&&'' then prevExit = 0 else if op' = ''||'' then prevExit \<noteq> 0 else True)"

record exec_state =
  xs_stdout :: cmd_output
  xs_stderr :: string
  xs_exit :: int
  xs_started :: "string list list"

definition run_one :: "exec_env \<Rightarrow> nat \<Rightarrow> string \<Rightarrow> string list \<Rightarrow> exec_state \<Rightarrow> exec_state" where
  "run_one e i bin args st = (let p = xe_process e i bin args in
     st\<lparr>xs_stdout := Output_Write (ps_stdout p) (xs_stdout st), xs_stderr := xs_stderr st @ ps_stderr p,
        xs_exit := (case ps_exit p of Some c \<Rightarrow> c | None \<Rightarrow> -1), xs_started := xs_started st @ [args]\<rparr>)"

fun run_loop :: "exec_env \<Rightarrow> nat \<Rightarrow> string \<Rightarrow> cmd_segment list \<Rightarrow> exec_state \<Rightarrow> exec_state \<times> kubectl_err option" where
  "run_loop e i bin [] st = (st, None)"
| "run_loop e i bin (seg # segs) st =
     (if xe_done_before e i then (st, Some CtxError)
      else if 0 < i \<and> \<not> shouldRunSegment (sg_op seg) (xs_exit st) then run_loop e (Suc i) bin segs st
      else (let st' = run_one e i bin (sg_args seg) st in
        if xe_done_after e i then (st', Some CtxError)
        else if ps_err (xe_process e i bin (sg_args seg)) = RunOther then (st', Some ExecFailed)
        else run_loop e (Suc i) bin segs st'))"

text \<open>The response map and the error; the map is returned beside an error of the chain.\<close>

definition execResult :: "exec_env \<Rightarrow> exec_state \<Rightarrow> kubectl_err option \<Rightarrow> gmap \<times> kubectl_err option" where
  "execResult e st err =
     (let res = [(''stderr'', VStr (xs_stderr st)), (''exit_code'', VInt (xs_exit st))] in
      case AddTo (xe_gzip e) (xs_stdout st) res of
        Some m \<Rightarrow> (m, err)
      | None \<Rightarrow> (res, case err of None \<Rightarrow> Some EncodeFailed | Some x \<Rightarrow> Some x))"

definition runSegments :: "exec_env \<Rightarrow> string \<Rightarrow> cmd_segment list \<Rightarrow> cmd_output \<Rightarrow> exec_state \<times> gmap \<times> kubectl_err option" where
  "runSegments e bin segs out =
     (case run_loop e 0 bin segs \<lparr>xs_stdout = out, xs_stderr = [], xs_exit = 0, xs_started = []\<rparr> of
        (st, err) \<Rightarrow> (st, execResult e st err))"

fun first_invalid :: "kubectl_executor \<Rightarrow> cmd_segment list \<Rightarrow> kubectl_err option" where
  "first_invalid k [] = None"
| "first_invalid k (seg # segs) = (case validateSegment k (sg_args seg) of Some err \<Rightarrow> Some err | None \<Rightarrow> first_invalid k segs)"

text \<open>The processes started, the response when there is one, and the error.\<close>

type_synonym kubectl_outcome = "string list list \<times> gmap option \<times> kubectl_err option"

definition RunEncoded :: "(string \<Rightarrow> string list option) \<Rightarrow> exec_env \<Rightarrow> kubectl_executor \<Rightarrow> string \<Rightarrow> string \<Rightarrow> kubectl_outcome" where
  "RunEncoded shlex e k command encoding =
     (if command = [] then ([], None, Some CommandRequired)
      else (case shlex command of
        None \<Rightarrow> ([], None, Some ParseFailed)
      | Some tokens \<Rightarrow> (case find (\<lambda>t. t \<in> set rejectedShellTokens) tokens of
          Some t \<Rightarrow> ([], None, Some (ShellOperator t))
        | None \<Rightarrow> (case splitSegments tokens of
            Inl err \<Rightarrow> ([], None, Some err)
          | Inr segs \<Rightarrow> (case first_invalid k segs of
              Some err \<Rightarrow> ([], None, Some err)
            | None \<Rightarrow>
                (case runSegments e (if kx_BinaryPath k = [] then ''kubectl'' else kx_BinaryPath k) segs (New_output encoding) of
                   (st, m, err) \<Rightarrow> (xs_started st, Some m, err)))))))"

section \<open>Read-only invocations\<close>

text \<open>The flags kubectl accepts before the verb: with the value inline, alone, or followed by the value.\<close>

inductive global_prefix :: "string list \<Rightarrow> bool" where
  Empty: "global_prefix []"
| Inline: "is_flag a \<Longrightarrow> contains a ''='' \<Longrightarrow> global_prefix fs \<Longrightarrow> global_prefix (a # fs)"
| Alone: "is_flag a \<Longrightarrow> \<not> contains a ''='' \<Longrightarrow> globalFlags a = Some False \<Longrightarrow> global_prefix fs \<Longrightarrow> global_prefix (a # fs)"
| Valued: "is_flag a \<Longrightarrow> \<not> contains a ''='' \<Longrightarrow> globalFlags a = Some True \<Longrightarrow> global_prefix fs \<Longrightarrow> global_prefix (a # v # fs)"

inductive_cases global_prefix_ConsE: "global_prefix (a # fs)"

text \<open>An invocation whose verb, after the global flags, only reads: a verb without subcommands from the
  list, or one with a listed subcommand right after it.\<close>

definition read_only_invocation :: "string list \<Rightarrow> bool" where
  "read_only_invocation args \<longleftrightarrow> (\<exists>flags verb rest. args = flags @ verb # rest \<and> global_prefix flags \<and>
     \<not> is_flag verb \<and> verb \<in> set allowedKubectlVerbs \<and>
     (case readOnlySubcommands verb of None \<Rightarrow> True | Some subs \<Rightarrow> (\<exists>sub more. rest = sub # more \<and> sub \<in> set subs)))"

definition subcommand_of :: "string list \<Rightarrow> string" where
  "subcommand_of rest = (case rest of [] \<Rightarrow> [] | b # _ \<Rightarrow> if is_flag b then [] else b)"

lemma firstVerb_decompose:
  "firstVerbAndSubcommand args = Inr (verb, sub) \<Longrightarrow> verb \<noteq> [] \<Longrightarrow>
   \<exists>flags rest. args = flags @ verb # rest \<and> global_prefix flags \<and> \<not> is_flag verb \<and> sub = subcommand_of rest"
proof (induction args rule: firstVerbAndSubcommand.induct)
  case (2 a as)
  show ?case
  proof (cases "is_flag a")
    case False
    then have "a # as = [] @ verb # as \<and> global_prefix [] \<and> \<not> is_flag verb \<and> sub = subcommand_of as"
      using 2(3) global_prefix.Empty by (simp add: subcommand_of_def)
    then show ?thesis by blast
  next
    case True
    show ?thesis
    proof (cases "contains a ''=''")
      case inline: True
      then obtain flags rest where "as = flags @ verb # rest \<and> global_prefix flags \<and> \<not> is_flag verb \<and> sub = subcommand_of rest"
        using 2 True by auto
      moreover from this have "a # as = (a # flags) @ verb # rest" by simp
      ultimately show ?thesis using global_prefix.Inline[OF True inline] by blast
    next
      case separate: False
      with 2(3) True obtain takes where takes: "globalFlags a = Some takes" by (auto split: option.splits)
      with 2 True separate obtain flags rest where
        rest: "(if takes then drop 1 as else as) = flags @ verb # rest \<and> global_prefix flags \<and> \<not> is_flag verb \<and> sub = subcommand_of rest"
        by auto
      show ?thesis
      proof (cases takes)
        case True
        with rest obtain v where "as = v # flags @ verb # rest" by (cases as) auto
        then have "a # as = (a # v # flags) @ verb # rest" by simp
        moreover have "global_prefix (a # v # flags)" using global_prefix.Valued[OF \<open>is_flag a\<close> separate] takes True rest by simp
        ultimately show ?thesis using rest by blast
      next
        case False
        then have "a # as = (a # flags) @ verb # rest" using rest by simp
        moreover have "global_prefix (a # flags)" using global_prefix.Alone[OF \<open>is_flag a\<close> separate] takes False rest by simp
        ultimately show ?thesis using rest by blast
      qed
    qed
  qed
qed simp

lemma firstVerb_prefix:
  "global_prefix flags \<Longrightarrow> \<not> is_flag verb \<Longrightarrow> firstVerbAndSubcommand (flags @ verb # rest) = Inr (verb, subcommand_of rest)"
  by (induction flags rule: global_prefix.induct) (auto simp: subcommand_of_def)

lemma list_elements:
  "[] \<notin> set allowedKubectlVerbs" "readOnlySubcommands verb = Some subs \<Longrightarrow> [] \<notin> set subs"
  "readOnlySubcommands verb = Some subs \<Longrightarrow> sub \<in> set subs \<Longrightarrow> \<not> is_flag sub"
  by (auto simp: allowedKubectlVerbs_def readOnlySubcommands_def is_flag_def has_prefix_def split: if_splits)

lemma validateSegment_read_only:
  assumes "\<not> kx_AllowWrite k"
  shows "validateSegment k args = None \<longleftrightarrow> read_only_invocation args"
proof
  assume ok: "validateSegment k args = None"
  then obtain verb sub where fv: "firstVerbAndSubcommand args = Inr (verb, sub)" "verb \<noteq> []" "verb \<in> set allowedKubectlVerbs"
    and subs: "\<And>subs. readOnlySubcommands verb = Some subs \<Longrightarrow> sub \<in> set subs"
    using assms by (auto simp: validateSegment_def split: sum.splits if_splits option.splits)
  from firstVerb_decompose[OF fv(1,2)] obtain flags rest where
    d: "args = flags @ verb # rest" "global_prefix flags" "\<not> is_flag verb" "sub = subcommand_of rest" by blast
  have "\<exists>s more. rest = s # more \<and> s \<in> set ss" if "readOnlySubcommands verb = Some ss" for ss
    using subs[OF that] list_elements(2)[OF that] d(4) by (cases rest) (auto simp: subcommand_of_def split: if_splits)
  then show "read_only_invocation args"
    unfolding read_only_invocation_def using d(1-3) fv(3)
    by (intro exI[of _ flags] exI[of _ verb] exI[of _ rest]) (auto split: option.split)
next
  assume "read_only_invocation args"
  then obtain flags verb rest where d: "args = flags @ verb # rest" "global_prefix flags" "\<not> is_flag verb" "verb \<in> set allowedKubectlVerbs"
    and subs: "case readOnlySubcommands verb of None \<Rightarrow> True | Some subs \<Rightarrow> (\<exists>sub more. rest = sub # more \<and> sub \<in> set subs)"
    by (auto simp: read_only_invocation_def)
  have "verb \<noteq> []" using d(4) list_elements(1) by blast
  then show "validateSegment k args = None"
    using subs firstVerb_prefix[OF d(2,3), of rest] d(1,4) assms list_elements(3)
    by (auto simp: validateSegment_def subcommand_of_def split: option.splits)
qed

lemma first_invalid_None: "first_invalid k segs = None \<longleftrightarrow> list_all (\<lambda>seg. validateSegment k (sg_args seg) = None) segs"
  by (induction segs) (auto split: option.splits)

lemma run_one_started [simp]: "xs_started (run_one e i bin args st) = xs_started st @ [args]"
  by (simp add: run_one_def Let_def)

lemma run_loop_started:
  "set (xs_started (fst (run_loop e i bin segs st))) \<subseteq> set (xs_started st) \<union> sg_args ` set segs"
proof (induction e i bin segs st rule: run_loop.induct)
  case (2 e i bin seg segs st)
  let ?st = "run_one e i bin (sg_args seg) st"
  show ?case
  proof (cases "\<not> xe_done_before e i \<and> 0 < i \<and> \<not> shouldRunSegment (sg_op seg) (xs_exit st)")
    case True then show ?thesis using 2(1) by auto
  next
    case run: False
    have "set (xs_started (fst (run_loop e (Suc i) bin segs ?st))) \<subseteq> set (xs_started ?st) \<union> sg_args ` set segs"
      if "\<not> xe_done_before e i" "\<not> xe_done_after e i" "ps_err (xe_process e i bin (sg_args seg)) \<noteq> RunOther"
      using 2(2) that run by blast
    then show ?thesis using run by (auto simp: Let_def)
  qed
qed simp

lemma split_loop_tokens:
  "split_loop ts op' cur = Inr segs \<Longrightarrow> seg \<in> set segs \<Longrightarrow> set (sg_args seg) \<subseteq> set cur \<union> set ts"
proof (induction ts op' cur arbitrary: segs rule: split_loop.induct)
  case (1 op' cur)
  then show ?case by (auto simp: flush_segment_def strip_kubectl_def Let_def split: if_splits list.splits)
next
  case (2 t ts op' cur)
  have flush: "set (sg_args s) \<subseteq> set cur" if "flush_segment op' cur t = Inr ss" "s \<in> set ss" for s ss
    using that by (auto simp: flush_segment_def strip_kubectl_def Let_def split: if_splits list.splits)
  show ?case using 2 flush by (fastforce split: if_splits sum.splits)
qed

text \<open>C15: the kubectl action only reads. Without write permission, whatever command text arrives and
  however its tokens are chained: every process the action starts is a kubectl invocation whose verb,
  after kubectl's own global flags, is on the read-only list (with a read-only subcommand right
  after it where the verb has others), and its arguments are tokens of the command, none of them a
  pipe or redirection. If one invocation of the chain is not of this form, no process is started
  at all.\<close>

theorem RunEncoded_read_only:
  assumes "\<not> kx_AllowWrite k"
  shows "case RunEncoded shlex e k command encoding of (started, res, err) \<Rightarrow>
    list_all (\<lambda>args. read_only_invocation args \<and>
      (\<exists>tokens. shlex command = Some tokens \<and> set args \<subseteq> set tokens - set rejectedShellTokens)) started \<and>
    (\<forall>tokens segs. shlex command = Some tokens \<and> splitSegments tokens = Inr segs \<and>
       \<not> list_all (\<lambda>seg. read_only_invocation (sg_args seg)) segs \<longrightarrow> started = [] \<and> err \<noteq> None)"
proof (cases "command = [] \<or> shlex command = None")
  case True then show ?thesis by (auto simp: RunEncoded_def)
next
  case False
  then obtain tokens where tokens: "command \<noteq> []" "shlex command = Some tokens" by auto
  note valid = validateSegment_read_only[OF assms]
  show ?thesis
  proof (cases "find (\<lambda>t. t \<in> set rejectedShellTokens) tokens")
    case (Some t) then show ?thesis using tokens by (simp add: RunEncoded_def)
  next
    case None
    then have plain: "set tokens \<inter> set rejectedShellTokens = {}" by (auto simp: find_None_iff)
    show ?thesis
    proof (cases "splitSegments tokens")
      case (Inl err) then show ?thesis using tokens None by (simp add: RunEncoded_def)
    next
      case (Inr segs)
      show ?thesis
      proof (cases "first_invalid k segs")
        case (Some err)
        then show ?thesis using tokens None Inr by (simp add: RunEncoded_def)
      next
        case ok: None
        then have ro: "list_all (\<lambda>seg. read_only_invocation (sg_args seg)) segs" by (simp add: first_invalid_None valid)
        have toks: "set (sg_args seg) \<subseteq> set tokens - set rejectedShellTokens" if "seg \<in> set segs" for seg
          using split_loop_tokens[OF Inr[unfolded splitSegments_def] that] plain by auto
        let ?bin = "if kx_BinaryPath k = [] then ''kubectl'' else kx_BinaryPath k"
        let ?run = "run_loop e 0 ?bin segs \<lparr>xs_stdout = New_output encoding, xs_stderr = [], xs_exit = 0, xs_started = []\<rparr>"
        have started: "fst (RunEncoded shlex e k command encoding) = xs_started (fst ?run)"
          using tokens None Inr ok by (simp add: RunEncoded_def runSegments_def split: prod.splits)
        have "set (xs_started (fst ?run)) \<subseteq> sg_args ` set segs"
          using run_loop_started[of e 0 ?bin segs "\<lparr>xs_stdout = New_output encoding, xs_stderr = [], xs_exit = 0, xs_started = []\<rparr>"] by simp
        then have "list_all (\<lambda>args. read_only_invocation args \<and>
            (\<exists>tokens. shlex command = Some tokens \<and> set args \<subseteq> set tokens - set rejectedShellTokens)) (xs_started (fst ?run))"
          using ro toks tokens(2) by (fastforce simp: list_all_iff)
        then show ?thesis using started tokens(2) Inr ro by (cases "RunEncoded shlex e k command encoding") auto
      qed
    qed
  qed
qed

definition sample_exec :: exec_env where
  "sample_exec = \<lparr>xe_done_before = (\<lambda>_. False), xe_done_after = (\<lambda>_. False),
     xe_process = (\<lambda>i bin args. \<lparr>ps_stdout = [], ps_stderr = [], ps_exit = Some (int i), ps_err = RunOK\<rparr>), xe_gzip = Some\<rparr>"

theorem RunEncoded_read_only_witness:
  "fst (RunEncoded (\<lambda>c. Some [''kubectl'', ''-n'', ''x'', ''get'', ''pods'', ''&&'', ''delete'', ''pod'', ''y'']) sample_exec
     \<lparr>kx_BinaryPath = [], kx_AllowWrite = False\<rparr> ''c'' []) = []"
proof -
  let ?k = "\<lparr>kx_BinaryPath = [], kx_AllowWrite = False\<rparr>"
  let ?tokens = "[''kubectl'', ''-n'', ''x'', ''get'', ''pods'', ''&&'', ''delete'', ''pod'', ''y'']"
  have "\<not> validateSegment ?k [''delete'', ''pod'', ''y''] = None" by code_simp
  then have bad: "\<not> read_only_invocation [''delete'', ''pod'', ''y'']" using validateSegment_read_only[of ?k] by simp
  have split: "splitSegments ?tokens = Inr [\<lparr>sg_op = [], sg_args = [''-n'', ''x'', ''get'', ''pods'']\<rparr>, \<lparr>sg_op = ''&&'', sg_args = [''delete'', ''pod'', ''y'']\<rparr>]"
    by code_simp
  show ?thesis
    using RunEncoded_read_only[where k="?k" and shlex="\<lambda>c. Some ?tokens" and e=sample_exec and command="''c''" and encoding="[]"] bad split by (auto split: prod.splits)
qed

section \<open>Chains as a shell runs them\<close>

text \<open>A list of commands as a shell reads it: \<open>&&\<close> and \<open>||\<close> group to the left with equal precedence,
  \<open>;\<close> separates. A command carries its position in the chain.\<close>

datatype and_or = Command nat "string list" | AndThen and_or nat "string list" | OrElse and_or nat "string list"

text \<open>The commands run and the status of the last one.\<close>

fun shell_eval :: "(nat \<Rightarrow> string list \<Rightarrow> int) \<Rightarrow> and_or \<Rightarrow> string list list \<times> int" where
  "shell_eval status (Command i args) = ([args], status i args)"
| "shell_eval status (AndThen c i args) = (case shell_eval status c of (cmds, code) \<Rightarrow>
     if code = 0 then (cmds @ [args], status i args) else (cmds, code))"
| "shell_eval status (OrElse c i args) = (case shell_eval status c of (cmds, code) \<Rightarrow>
     if code = 0 then (cmds, code) else (cmds @ [args], status i args))"

fun shell_list :: "(nat \<Rightarrow> string list \<Rightarrow> int) \<Rightarrow> and_or list \<Rightarrow> int \<Rightarrow> string list list \<times> int" where
  "shell_list status [] code = ([], code)"
| "shell_list status (c # cs) code = (case shell_eval status c of (cmds, code') \<Rightarrow>
     (case shell_list status cs code' of (cmds', code'') \<Rightarrow> (cmds @ cmds', code'')))"

definition shell_add :: "and_or list \<Rightarrow> nat \<times> cmd_segment \<Rightarrow> and_or list" where
  "shell_add cs p = (case p of (i, seg) \<Rightarrow>
     if cs \<noteq> [] \<and> sg_op seg = ''&&'' then butlast cs @ [AndThen (last cs) i (sg_args seg)]
     else if cs \<noteq> [] \<and> sg_op seg = ''||'' then butlast cs @ [OrElse (last cs) i (sg_args seg)]
     else cs @ [Command i (sg_args seg)])"

definition shell_parse :: "cmd_segment list \<Rightarrow> and_or list" where
  "shell_parse segs = foldl shell_add [] (List.enumerate 0 segs)"

definition exit_status :: "exec_env \<Rightarrow> string \<Rightarrow> nat \<Rightarrow> string list \<Rightarrow> int" where
  "exit_status e bin i args = (case ps_exit (xe_process e i bin args) of Some c \<Rightarrow> c | None \<Rightarrow> -1)"

lemma shell_list_append:
  "shell_list st (cs @ ds) code = (case shell_list st cs code of (cmds, code') \<Rightarrow>
     (case shell_list st ds code' of (cmds', code'') \<Rightarrow> (cmds @ cmds', code'')))"
  by (induction cs arbitrary: code) (auto split: prod.splits)

lemma shell_list_butlast:
  "cs \<noteq> [] \<Longrightarrow> shell_list st cs code = (case shell_list st (butlast cs) code of (cmds, code') \<Rightarrow>
     (case shell_eval st (last cs) of (cmds', code'') \<Rightarrow> (cmds @ cmds', code'')))"
  using shell_list_append[of st "butlast cs" "[last cs]" code] by (simp split: prod.splits)

lemma run_loop_snoc:
  "run_loop e i bin (segs @ [seg]) st = (case run_loop e i bin segs st of
     (st', Some err) \<Rightarrow> (st', Some err)
   | (st', None) \<Rightarrow> run_loop e (i + length segs) bin [seg] st')"
proof (induction segs arbitrary: i st)
  case (Cons a segs)
  show ?case
    unfolding append_Cons run_loop.simps(2)[of e i bin a "segs @ [seg]" st] run_loop.simps(2)[of e i bin a segs st] Cons.IH Let_def
    by (simp del: run_loop.simps(2))
qed (simp del: run_loop.simps(2))

text \<open>C24: a chain runs as a shell would run it. When no process fails to start and the context is not
  cancelled, the processes started and the exit code are those of the command list as a shell
  reads it, with \<open>&&\<close> and \<open>||\<close> of equal precedence grouping to the left and \<open>;\<close> separating.\<close>

theorem runSegments_shell:
  assumes "\<And>i. \<not> xe_done_before e i" and "\<And>i. \<not> xe_done_after e i" and "\<And>i args. ps_err (xe_process e i bin args) \<noteq> RunOther"
  shows "case runSegments e bin segs out of (st, res) \<Rightarrow>
    (xs_started st, xs_exit st) = shell_list (exit_status e bin) (shell_parse segs) 0"
proof -
  let ?st = "\<lparr>xs_stdout = out, xs_stderr = [], xs_exit = 0, xs_started = []\<rparr>"
  have "snd (run_loop e 0 bin segs ?st) = None \<and> (shell_parse segs = []) = (segs = []) \<and>
     (xs_started (fst (run_loop e 0 bin segs ?st)), xs_exit (fst (run_loop e 0 bin segs ?st))) =
       shell_list (exit_status e bin) (shell_parse segs) 0"
  proof (induction segs rule: rev_induct)
    case Nil show ?case by (simp add: shell_parse_def)
  next
    case (snoc seg segs)
    obtain st where st: "run_loop e 0 bin segs ?st = (st, None)" using snoc.IH by (cases "run_loop e 0 bin segs ?st") auto
    have parse: "shell_parse (segs @ [seg]) = shell_add (shell_parse segs) (length segs, seg)"
      by (simp add: shell_parse_def enumerate_append_eq)
    have before: "shell_list (exit_status e bin) (shell_parse segs) 0 = (xs_started st, xs_exit st)" using snoc.IH st by simp
    have exit: "xs_exit (run_one e i bin args s) = exit_status e bin i args" for i args s
      by (simp add: run_one_def exit_status_def Let_def)
    show ?case
    proof (cases "segs = []")
      case True
      then show ?thesis using assms by (simp add: shell_parse_def shell_add_def exit)
    next
      case False
      then have ne: "shell_parse segs \<noteq> []" using snoc.IH by simp
      note last = before[unfolded shell_list_butlast[OF ne]]
      show ?thesis
        unfolding run_loop_snoc parse using False ne assms st before last
        by (auto simp: shell_add_def shell_list_append shouldRunSegment_def exit split: prod.splits)
    qed
  qed
  then show ?thesis by (auto simp: runSegments_def split: prod.splits)
qed

theorem runSegments_shell_witness:
  "case runSegments sample_exec ''kubectl'' [\<lparr>sg_op = [], sg_args = [''a'']\<rparr>, \<lparr>sg_op = ''||'', sg_args = [''b'']\<rparr>,
       \<lparr>sg_op = ''&&'', sg_args = [''c'']\<rparr>, \<lparr>sg_op = ''&&'', sg_args = [''d'']\<rparr>] (New_output []) of (st, res) \<Rightarrow>
     xs_started st = [[''a''], [''c'']] \<and> xs_exit st = 2"
proof -
  have "shell_list (exit_status sample_exec ''kubectl'') (shell_parse [\<lparr>sg_op = [], sg_args = [''a'']\<rparr>, \<lparr>sg_op = ''||'', sg_args = [''b'']\<rparr>,
       \<lparr>sg_op = ''&&'', sg_args = [''c'']\<rparr>, \<lparr>sg_op = ''&&'', sg_args = [''d'']\<rparr>]) 0 = ([[''a''], [''c'']], 2)"
    by code_simp
  moreover have "\<not> xe_done_before sample_exec i" "\<not> xe_done_after sample_exec i" "ps_err (xe_process sample_exec i bin args) \<noteq> RunOther" for i bin args
    by (simp_all add: sample_exec_def)
  ultimately show ?thesis
    using runSegments_shell[of sample_exec "''kubectl''" "[\<lparr>sg_op = [], sg_args = [''a'']\<rparr>, \<lparr>sg_op = ''||'', sg_args = [''b'']\<rparr>,
       \<lparr>sg_op = ''&&'', sg_args = [''c'']\<rparr>, \<lparr>sg_op = ''&&'', sg_args = [''d'']\<rparr>]" "New_output []"] by (auto split: prod.splits)
qed

end
