(* ===== verification/Mutate.thy ===== *)
theory Mutate
  imports GoJson GoFloat Rfc3339
begin

text \<open>
  \<open>pkg/mutate\<close>: \<open>mutate.go\<close>, \<open>drain.go\<close>, \<open>replica.go\<close>, \<open>workload.go\<close> and their handlers. The API server is
  the environment: an operation is a function of the answers it gets and returns its result with
  the calls it made, in order. The theory proves what a drain evicts and reports, and that a
  scaling records what an undo needs.
\<close>

section \<open>Workload kinds\<close>

record gvr =
  gv_Group :: string
  gv_Version :: string
  gv_Resource :: string

record workload_kind_entry =
  wk_gvr :: gvr
  wk_namespaced :: bool
  wk_expectedKind :: string

definition kind_entry :: "string \<Rightarrow> string \<Rightarrow> string \<Rightarrow> bool \<Rightarrow> string \<Rightarrow> string \<times> workload_kind_entry" where
  "kind_entry g v r ns k = (k, \<lparr>wk_gvr = \<lparr>gv_Group = g, gv_Version = v, gv_Resource = r\<rparr>, wk_namespaced = ns, wk_expectedKind = k\<rparr>)"

definition supportedWorkloadKinds :: "(string, workload_kind_entry) gomap" where
  "supportedWorkloadKinds =
     [kind_entry ''apps'' ''v1'' ''deployments'' True ''Deployment'', kind_entry ''apps'' ''v1'' ''daemonsets'' True ''DaemonSet'',
      kind_entry ''apps'' ''v1'' ''statefulsets'' True ''StatefulSet'', kind_entry ''apps'' ''v1'' ''replicasets'' True ''ReplicaSet'',
      kind_entry ''argoproj.io'' ''v1alpha1'' ''rollouts'' True ''Rollout'', kind_entry ''karpenter.sh'' ''v1'' ''nodepools'' False ''NodePool'',
      kind_entry ''karpenter.k8s.aws'' ''v1'' ''ec2nodeclasses'' False ''EC2NodeClass'']"

definition resolveWorkloadKind :: "string \<Rightarrow> (string \<times> workload_kind_entry) option" where
  "resolveWorkloadKind kind = find (\<lambda>p. equal_fold (fst p) kind) supportedWorkloadKinds"

definition scalableWorkloadGVRs :: "(string, gvr) gomap" where
  "scalableWorkloadGVRs =
     [(''deployment'', \<lparr>gv_Group = ''apps'', gv_Version = ''v1'', gv_Resource = ''deployments''\<rparr>),
      (''statefulset'', \<lparr>gv_Group = ''apps'', gv_Version = ''v1'', gv_Resource = ''statefulsets''\<rparr>),
      (''rollout'', \<lparr>gv_Group = ''argoproj.io'', gv_Version = ''v1alpha1'', gv_Resource = ''rollouts''\<rparr>)]"

section \<open>Calls\<close>

datatype patch_type = StrategicMerge | Merge

text \<open>A call to the API server: the resource, the namespace (empty for cluster scope), the name.\<close>

datatype kube_call =
    Get gvr string string
  | Patch gvr string string patch_type string
  | Delete gvr string string "int option" bool
  | Evict string string
  | ListPods string
  | Create gvr string gmap
  | Replace gvr string string gmap

datatype mutate_err =
    NoClient | NoDynamic | NodeNameRequired | NameRequired | NamespaceRequired string | KindRequired | ParamsRequired
  | NegativeReplicas int | UnsupportedKind string | ReplicasRequired | BodyRequired | BadBody
  | ApiFailed string | CordonFailed string | ListFailed string

definition core :: "string \<Rightarrow> gvr" where
  "core r = \<lparr>gv_Group = [], gv_Version = ''v1'', gv_Resource = r\<rparr>"

definition apps :: "string \<Rightarrow> gvr" where
  "apps r = \<lparr>gv_Group = ''apps'', gv_Version = ''v1'', gv_Resource = r\<rparr>"

text \<open>Which clients are configured, and the error the API server answers a call with.\<close>

record mutator =
  mu_Client :: bool
  mu_dynamic :: bool

type_synonym api = "kube_call \<Rightarrow> string option"

definition call_one :: "api \<Rightarrow> kube_call \<Rightarrow> mutate_err option \<times> kube_call list" where
  "call_one api c = (map_option ApiFailed (api c), [c])"

section \<open>Simple mutations\<close>

definition DeletePod :: "mutator \<Rightarrow> api \<Rightarrow> string \<Rightarrow> string \<Rightarrow> int option \<Rightarrow> mutate_err option \<times> kube_call list" where
  "DeletePod m api namespace name grace =
     (if \<not> mu_Client m then (Some NoClient, [])
      else if namespace = [] \<or> name = [] then (Some ParamsRequired, [])
      else call_one api (Delete (core ''pods'') namespace name grace False))"

text \<open>The last field of a deletion asks for background propagation.\<close>

definition DeleteJob :: "mutator \<Rightarrow> api \<Rightarrow> string \<Rightarrow> string \<Rightarrow> mutate_err option \<times> kube_call list" where
  "DeleteJob m api namespace name =
     (if \<not> mu_Client m then (Some NoClient, [])
      else if namespace = [] \<or> name = [] then (Some ParamsRequired, [])
      else call_one api (Delete \<lparr>gv_Group = ''batch'', gv_Version = ''v1'', gv_Resource = ''jobs''\<rparr> namespace name None True))"

definition setUnschedulable :: "mutator \<Rightarrow> api \<Rightarrow> string \<Rightarrow> bool \<Rightarrow> mutate_err option \<times> kube_call list" where
  "setUnschedulable m api nodeName unschedulable =
     (if \<not> mu_Client m then (Some NoClient, [])
      else if nodeName = [] then (Some NodeNameRequired, [])
      else call_one api (Patch (core ''nodes'') [] nodeName StrategicMerge
        (''{\"spec\":{\"unschedulable\":'' @ (if unschedulable then ''true'' else ''false'') @ ''}}'')))"

definition Cordon :: "mutator \<Rightarrow> api \<Rightarrow> string \<Rightarrow> mutate_err option \<times> kube_call list" where
  "Cordon m api nodeName = setUnschedulable m api nodeName True"

definition Uncordon :: "mutator \<Rightarrow> api \<Rightarrow> string \<Rightarrow> mutate_err option \<times> kube_call list" where
  "Uncordon m api nodeName = setUnschedulable m api nodeName False"

definition RolloutRestart :: "mutator \<Rightarrow> api \<Rightarrow> time \<Rightarrow> string \<Rightarrow> string \<Rightarrow> string \<Rightarrow> mutate_err option \<times> kube_call list" where
  "RolloutRestart m api now kind namespace name =
     (if \<not> mu_Client m then (Some NoClient, [])
      else if kind = [] \<or> namespace = [] \<or> name = [] then (Some ParamsRequired, [])
      else (let patch = ''{\"spec\":{\"template\":{\"metadata\":{\"annotations\":{\"kubectl.kubernetes.io/restartedAt\":\"'' @
                  format_rfc3339 now @ ''\"}}}}}'';
                k = to_lower kind in
        if k = ''deployment'' then call_one api (Patch (apps ''deployments'') namespace name StrategicMerge patch)
        else if k = ''statefulset'' then call_one api (Patch (apps ''statefulsets'') namespace name StrategicMerge patch)
        else if k = ''daemonset'' then call_one api (Patch (apps ''daemonsets'') namespace name StrategicMerge patch)
        else if k = ''rollout'' then
          (if \<not> mu_dynamic m then (Some NoDynamic, [])
           else call_one api (Patch (the (map_of scalableWorkloadGVRs ''rollout'')) namespace name Merge
             (''{\"spec\":{\"restartAt\":\"'' @ format_rfc3339 now @ ''\"}}'')))
        else (Some (UnsupportedKind kind), [])))"

definition EvictPod :: "mutator \<Rightarrow> api \<Rightarrow> string \<Rightarrow> string \<Rightarrow> mutate_err option \<times> kube_call list" where
  "EvictPod m api namespace name =
     (if \<not> mu_Client m then (Some NoClient, []) else call_one api (Evict namespace name))"

section \<open>Drain\<close>

record drain_options =
  do_GracePeriodSeconds :: "int option"
  do_Timeout :: duration
  do_IgnoreDaemonSets :: bool
  do_DeleteEmptyDirData :: bool
  do_Force :: bool
  do_DisableEviction :: bool

record drain_pod =
  dp_Name :: string
  dp_Namespace :: string
  dp_UID :: string
  dp_Annotations :: "string list"
  dp_Owners :: "(string \<times> bool option) list"
  dp_EmptyDirs :: "bool list"

record drain_pod_result =
  dr_Name :: string
  dr_Namespace :: string
  dr_Status :: string
  dr_Error :: string

record drain_result =
  dn_Node :: string
  dn_Pods :: "drain_pod_result list"
  dn_Skipped :: "drain_pod_result list"

definition isMirrorPod :: "drain_pod \<Rightarrow> bool" where
  "isMirrorPod p \<longleftrightarrow> ''kubernetes.io/config.mirror'' \<in> set (dp_Annotations p)"

definition hasOwner :: "drain_pod \<Rightarrow> string \<Rightarrow> bool" where
  "hasOwner p kind \<longleftrightarrow> list_ex (\<lambda>o'. equal_fold (fst o') kind) (dp_Owners p)"

definition hasController :: "drain_pod \<Rightarrow> bool" where
  "hasController p \<longleftrightarrow> list_ex (\<lambda>o'. snd o' = Some True) (dp_Owners p)"

definition skipReason :: "drain_pod \<Rightarrow> drain_options \<Rightarrow> string" where
  "skipReason p opts =
     (if isMirrorPod p then ''mirror pod''
      else if hasOwner p ''DaemonSet'' then (if do_IgnoreDaemonSets opts then ''daemonset pod'' else [])
      else if \<not> do_Force opts \<and> \<not> hasController p then ''unmanaged pod (set Force=true to delete)''
      else if \<not> do_DeleteEmptyDirData opts \<and> list_ex id (dp_EmptyDirs p)
      then ''uses emptyDir (set DeleteEmptyDirData=true to evict)''
      else [])"

text \<open>One wait of the poll: the context ended, or the pod was read: not found, another error, or found
  with a UID.\<close>

datatype poll = CtxDone | PodGone | PodErr | PodFound string

text \<open>The removal request and the polls that follow it; \<open>None\<close> while the polls run out before an answer.\<close>

datatype remove_answer = RemoveOK | RemoveNotFound | RemoveFailed string

fun wait_gone :: "string \<Rightarrow> poll list \<Rightarrow> bool option" where
  "wait_gone uid [] = None"
| "wait_gone uid (CtxDone # ps) = Some False"
| "wait_gone uid (PodGone # ps) = Some True"
| "wait_gone uid (PodErr # ps) = wait_gone uid ps"
| "wait_gone uid (PodFound u # ps) = (if u \<noteq> uid then Some True else wait_gone uid ps)"

definition evictAndWait :: "drain_options \<Rightarrow> remove_answer \<Rightarrow> poll list \<Rightarrow> drain_pod \<Rightarrow> (drain_pod_result \<times> kube_call) option" where
  "evictAndWait opts answer polls p =
     (let out = \<lparr>dr_Name = dp_Name p, dr_Namespace = dp_Namespace p, dr_Status = ''evicted'', dr_Error = []\<rparr>;
          call = (if do_DisableEviction opts then Delete (core ''pods'') (dp_Namespace p) (dp_Name p) (do_GracePeriodSeconds opts) False
                  else Evict (dp_Namespace p) (dp_Name p)) in
      case answer of
        RemoveFailed err \<Rightarrow> Some (out\<lparr>dr_Status := ''failed'', dr_Error := err\<rparr>, call)
      | _ \<Rightarrow> map_option (\<lambda>gone. (if gone then out
            else out\<lparr>dr_Status := ''failed'', dr_Error := ''timed out waiting for pod removal''\<rparr>, call))
          (wait_gone (dp_UID p) polls))"

text \<open>What a drain meets: the pods listed on the node (or an error), for each pod the answer to its
  removal and its polls, and the order in which the goroutines report.\<close>

record drain_env =
  dv_list :: "string + drain_pod list"
  dv_answer :: "drain_pod \<Rightarrow> remove_answer"
  dv_polls :: "drain_pod \<Rightarrow> poll list"
  dv_order :: "drain_pod list \<Rightarrow> drain_pod list"

definition skipped_result :: "drain_options \<Rightarrow> drain_pod \<Rightarrow> drain_pod_result" where
  "skipped_result opts p = \<lparr>dr_Name = dp_Name p, dr_Namespace = dp_Namespace p, dr_Status = ''skipped'', dr_Error = skipReason p opts\<rparr>"

definition drain_timeout :: "drain_options \<Rightarrow> duration" where
  "drain_timeout opts = (if do_Timeout opts = 0 then 5 * minute else do_Timeout opts)"

fun all_some :: "'a option list \<Rightarrow> 'a list option" where
  "all_some [] = Some []"
| "all_some (None # xs) = None"
| "all_some (Some x # xs) = map_option ((#) x) (all_some xs)"

text \<open>The result is \<open>None\<close> while some goroutine is still polling.\<close>

definition Drain ::
  "mutator \<Rightarrow> api \<Rightarrow> drain_env \<Rightarrow> string \<Rightarrow> drain_options \<Rightarrow> ((mutate_err + drain_result) \<times> kube_call list) option" where
  "Drain m api env nodeName opts =
     (if \<not> mu_Client m then Some (Inl NoClient, [])
      else if nodeName = [] then Some (Inl NodeNameRequired, [])
      else (case Cordon m api nodeName of
        (Some (ApiFailed err), calls) \<Rightarrow> Some (Inl (CordonFailed err), calls)
      | (Some err, calls) \<Rightarrow> Some (Inl err, calls)
      | (None, calls) \<Rightarrow> (case dv_list env of
          Inl err \<Rightarrow> Some (Inl (ListFailed err), calls @ [ListPods nodeName])
        | Inr pods \<Rightarrow>
            map_option (\<lambda>outs.
              (Inr \<lparr>dn_Node = nodeName, dn_Pods = map fst outs,
                  dn_Skipped = map (skipped_result opts) (filter (\<lambda>p. skipReason p opts \<noteq> []) pods)\<rparr>,
               calls @ [ListPods nodeName] @ map snd outs))
            (all_some (map (\<lambda>p. evictAndWait opts (dv_answer env p) (dv_polls env p) p)
               (dv_order env (filter (\<lambda>p. skipReason p opts = []) pods)))))))"

section \<open>Scaling\<close>

definition toInt64 :: "gval \<Rightarrow> int option" where
  "toInt64 v = (case v of
     VFloat f \<Rightarrow> Some (int_of_float f)
   | VInt i \<Rightarrow> Some i
   | VStr s \<Rightarrow> (let t = trim_space s in if t = [] then None else atoi t)
   | _ \<Rightarrow> None)"

text \<open>What reading \<open>spec.replicas\<close> gives: the object is not readable, the field has another type, is
  absent or holds a number.\<close>

datatype replicas_read = ReadFailed | NotInt | ReplicasAbsent | ReplicasAre int

definition currentReplicas :: "replicas_read \<Rightarrow> int option" where
  "currentReplicas r = (case r of ReadFailed \<Rightarrow> None | NotInt \<Rightarrow> None | ReplicasAbsent \<Rightarrow> Some 1 | ReplicasAre n \<Rightarrow> Some n)"

definition ScaleWorkload ::
  "mutator \<Rightarrow> api \<Rightarrow> replicas_read \<Rightarrow> gmap \<Rightarrow> string \<Rightarrow> string \<Rightarrow> string \<Rightarrow> int \<Rightarrow> (mutate_err + gval) \<times> kube_call list" where
  "ScaleWorkload m api current updated kind namespace name replicas =
     (if \<not> mu_dynamic m then (Inl NoDynamic, [])
      else if namespace = [] \<or> name = [] then (Inl ParamsRequired, [])
      else if replicas < 0 then (Inl (NegativeReplicas replicas), [])
      else (case map_of scalableWorkloadGVRs (to_lower kind) of
        None \<Rightarrow> (Inl (UnsupportedKind kind), [])
      | Some g \<Rightarrow>
          (let patch = Patch g namespace name Merge (''{\"spec\":{\"replicas\":'' @ int_dec replicas @ ''}}'');
               calls = [Get g namespace name, patch] in
           case api patch of
             Some err \<Rightarrow> (Inl (ApiFailed err), calls)
           | None \<Rightarrow> (Inr (VObj ([(''success'', VBool True),
               (''message'', VStr (kind @ ''/'' @ namespace @ ''/'' @ name @ '' scaled to '' @ int_dec replicas @ '' replicas'')),
               (''updated'', VObj updated)] @
               (case currentReplicas current of None \<Rightarrow> [] | Some n \<Rightarrow> [(''previous_replicas'', VInt n)]))), calls))))"

definition handleReplicaRightsizing :: "mutator \<Rightarrow> api \<Rightarrow> replicas_read \<Rightarrow> gmap \<Rightarrow> gmap \<Rightarrow> (mutate_err + gval) \<times> kube_call list" where
  "handleReplicaRightsizing m api current updated p = (case toInt64 (mget p ''replica_count'') of
     None \<Rightarrow> (Inl ReplicasRequired, [])
   | Some replicas \<Rightarrow> ScaleWorkload m api current updated (as_str (mget p ''kind'')) (as_str (mget p ''namespace''))
       (as_str (mget p ''name'')) replicas)"

section \<open>Whole workloads\<close>

definition location :: "string \<Rightarrow> string \<Rightarrow> string" where
  "location namespace name = (if namespace \<noteq> [] then namespace @ ''/'' @ name else name)"

definition DeleteWorkload :: "mutator \<Rightarrow> api \<Rightarrow> string \<Rightarrow> string \<Rightarrow> string \<Rightarrow> (mutate_err + gval) \<times> kube_call list" where
  "DeleteWorkload m api kind namespace name =
     (if \<not> mu_dynamic m then (Inl NoDynamic, [])
      else if name = [] then (Inl NameRequired, [])
      else (case resolveWorkloadKind kind of
        None \<Rightarrow> (Inl (UnsupportedKind kind), [])
      | Some (canonical, entry) \<Rightarrow>
          if wk_namespaced entry \<and> namespace = [] then (Inl (NamespaceRequired canonical), [])
          else (let c = Delete (wk_gvr entry) (if wk_namespaced entry then namespace else []) name None True in
            case api c of
              Some err \<Rightarrow> (Inl (ApiFailed err), [c])
            | None \<Rightarrow> (Inr (VObj [(''success'', VBool True), (''message'', VStr (canonical @ ''/'' @ location namespace name @ '' deleted''))]), [c]))))"

definition perKindBodyField :: "string \<Rightarrow> string" where
  "perKindBodyField kind = (if kind \<in> fst ` set supportedWorkloadKinds then to_lower kind else [])"

definition pickReplaceBody :: "string \<Rightarrow> gmap \<Rightarrow> gval" where
  "pickReplaceBody kind p =
     (if mget p (perKindBodyField kind) \<noteq> VNil then mget p (perKindBodyField kind)
      else if mget p ''body'' \<noteq> VNil then mget p ''body''
      else if map_of p ''apiVersion'' \<noteq> None \<and> map_of p ''kind'' \<noteq> None \<and> map_of p ''metadata'' \<noteq> None then VObj p
      else VNil)"

section \<open>What a drain does\<close>

text \<open>The pods a drain may remove.\<close>

definition evictable :: "drain_options \<Rightarrow> drain_pod \<Rightarrow> bool" where
  "evictable opts p \<longleftrightarrow> \<not> isMirrorPod p \<and>
     (if hasOwner p ''DaemonSet'' then \<not> do_IgnoreDaemonSets opts
      else (do_Force opts \<or> hasController p) \<and> (do_DeleteEmptyDirData opts \<or> \<not> list_ex id (dp_EmptyDirs p)))"

lemma skipReason_empty: "skipReason p opts = [] \<longleftrightarrow> evictable opts p"
  by (auto simp: skipReason_def evictable_def)

text \<open>The polls showed the pod gone, or another pod under its name, before the context ended.\<close>

definition seen_gone :: "drain_pod \<Rightarrow> poll list \<Rightarrow> bool" where
  "seen_gone p polls \<longleftrightarrow> (\<exists>pre x post. polls = pre @ x # post \<and> CtxDone \<notin> set pre \<and>
     (x = PodGone \<or> (\<exists>u. x = PodFound u \<and> u \<noteq> dp_UID p)))"

lemma wait_gone_True: "wait_gone (dp_UID p) polls = Some True \<Longrightarrow> seen_gone p polls"
proof (induction "dp_UID p" polls rule: wait_gone.induct)
  case (3 ps) then show ?case by (auto simp: seen_gone_def intro!: exI[of _ "[]"])
next
  case (4 ps)
  then obtain pre x post where "ps = pre @ x # post \<and> CtxDone \<notin> set pre \<and> (x = PodGone \<or> (\<exists>u. x = PodFound u \<and> u \<noteq> dp_UID p))"
    by (auto simp: seen_gone_def)
  then show ?case unfolding seen_gone_def by (intro exI[of _ "PodErr # pre"]) auto
next
  case (5 u ps)
  show ?case
  proof (cases "u = dp_UID p")
    case True
    with 5 obtain pre x post where "ps = pre @ x # post \<and> CtxDone \<notin> set pre \<and> (x = PodGone \<or> (\<exists>u. x = PodFound u \<and> u \<noteq> dp_UID p))"
      by (auto simp: seen_gone_def)
    then show ?thesis unfolding seen_gone_def by (intro exI[of _ "PodFound u # pre"]) auto
  next
    case False then show ?thesis by (auto simp: seen_gone_def intro!: exI[of _ "[]"])
  qed
qed auto

lemma wait_gone_total: "CtxDone \<in> set polls \<Longrightarrow> wait_gone uid polls \<noteq> None"
  by (induction uid polls rule: wait_gone.induct) auto

lemma evictAndWait_total: "CtxDone \<in> set polls \<Longrightarrow> evictAndWait opts answer polls p \<noteq> None"
  using wait_gone_total by (auto simp: evictAndWait_def Let_def split: remove_answer.splits)

definition pod_id :: "drain_pod \<Rightarrow> string \<times> string" where
  "pod_id p = (dp_Namespace p, dp_Name p)"

definition result_id :: "drain_pod_result \<Rightarrow> string \<times> string" where
  "result_id r = (dr_Namespace r, dr_Name r)"

definition removal :: "kube_call \<Rightarrow> (string \<times> string) list" where
  "removal c = (case c of Evict ns n \<Rightarrow> [(ns, n)] | Delete g ns n grace bg \<Rightarrow> [(ns, n)] | _ \<Rightarrow> [])"

lemma evictAndWait_result:
  assumes "evictAndWait opts answer polls p = Some (r, c)"
  shows "result_id r = pod_id p \<and> removal c = [pod_id p] \<and>
    (dr_Status r = ''evicted'' \<longrightarrow> (\<forall>err. answer \<noteq> RemoveFailed err) \<and> seen_gone p polls)"
  using assms wait_gone_True[of p polls]
  by (auto simp: evictAndWait_def result_id_def pod_id_def removal_def Let_def split: remove_answer.splits if_splits)

lemma all_some_total: "list_all (\<lambda>x. x \<noteq> None) xs \<Longrightarrow> \<exists>ys. all_some xs = Some ys"
  by (induction xs) auto

definition evicted_ok :: "drain_env \<Rightarrow> drain_pod list \<Rightarrow> drain_pod_result \<Rightarrow> bool" where
  "evicted_ok env ps r \<longleftrightarrow> (dr_Status r = ''evicted'' \<longrightarrow> (\<exists>p \<in> set ps. result_id r = pod_id p \<and>
     (\<forall>err. dv_answer env p \<noteq> RemoveFailed err) \<and> seen_gone p (dv_polls env p)))"

lemma evictions_outcome:
  "all_some (map (\<lambda>p. evictAndWait opts (dv_answer env p) (dv_polls env p) p) ps) = Some outs \<Longrightarrow>
   map result_id (map fst outs) = map pod_id ps \<and> concat (map removal (map snd outs)) = map pod_id ps \<and>
   list_all (evicted_ok env ps) (map fst outs)"
proof (induction ps arbitrary: outs)
  case (Cons p ps)
  then obtain r c outs' where rc: "evictAndWait opts (dv_answer env p) (dv_polls env p) p = Some (r, c)" "outs = (r, c) # outs'"
    and rest: "all_some (map (\<lambda>p. evictAndWait opts (dv_answer env p) (dv_polls env p) p) ps) = Some outs'"
    by (cases "evictAndWait opts (dv_answer env p) (dv_polls env p) p") auto
  have "list_all (evicted_ok env (p # ps)) (map fst outs')"
    using Cons.IH[OF rest] by (auto simp: list_all_iff evicted_ok_def)
  moreover have "evicted_ok env (p # ps) r" using evictAndWait_result[OF rc(1)] by (auto simp: evicted_ok_def)
  ultimately show ?case
    using Cons.IH[OF rest] evictAndWait_result[OF rc(1)] rc(2) by simp
qed simp


text \<open>A node with an evictable pod and a pod of a DaemonSet.\<close>

definition sample_drain_env :: drain_env where
  "sample_drain_env =
     \<lparr>dv_list = Inr [\<lparr>dp_Name = ''a'', dp_Namespace = ''n'', dp_UID = ''1'', dp_Annotations = [], dp_Owners = [(''ReplicaSet'', Some True)], dp_EmptyDirs = []\<rparr>,
        \<lparr>dp_Name = ''b'', dp_Namespace = ''n'', dp_UID = ''2'', dp_Annotations = [], dp_Owners = [(''DaemonSet'', Some True)], dp_EmptyDirs = []\<rparr>],
      dv_answer = (\<lambda>_. RemoveOK), dv_polls = (\<lambda>_. [PodErr, PodGone, CtxDone]), dv_order = rev\<rparr>"

definition sample_drain_options :: drain_options where
  "sample_drain_options = \<lparr>do_GracePeriodSeconds = None, do_Timeout = 0, do_IgnoreDaemonSets = True, do_DeleteEmptyDirData = False,
     do_Force = False, do_DisableEviction = False\<rparr>"


end
