(* ===== verification/Revert.thy ===== *)
theory Revert
  imports Mutate Diff
begin

text \<open>
  \<open>pkg/mutate/revert.go\<close>: undoing a recorded configuration change by writing the previous value back
  at each changed path. The paths are the texts the spec diff of the trigger engine puts into its
  evidence (theory \<open>Diff\<close>); they are read against the live object. The API server is the
  environment. The theory proves that a path text is read back as the path it was made from, that a
  reverted change has its old value again while everything beside the path is untouched, and what the
  retries on conflicts send.
\<close>

section \<open>Paths\<close>

datatype path_step = PKey string | PIndex int

definition flatKeyMapFields :: "string list" where
  "flatKeyMapFields = [''labels'', ''annotations'', ''matchLabels'', ''nodeSelector'', ''limits'', ''requests'', ''data'',
     ''stringData'', ''binaryData'']"

definition isFlatKeyMap :: "string \<Rightarrow> bool" where
  "isFlatKeyMap field \<longleftrightarrow> field \<in> set flatKeyMapFields"

definition key_matches :: "string \<Rightarrow> string \<Rightarrow> bool" where
  "key_matches rest k \<longleftrightarrow> rest = k \<or> has_prefix rest (k @ ''.'') \<or> has_prefix rest (k @ ''['')"

definition best_key :: "string \<Rightarrow> gmap \<Rightarrow> string" where
  "best_key rest obj = foldl (\<lambda>best p. if length (fst p) \<le> length best then best else if key_matches rest (fst p) then fst p else best) [] obj"

text \<open>The key an unquoted segment refers to; its length is what is consumed of the path.\<close>

definition matchKey :: "gval \<Rightarrow> string \<Rightarrow> string" where
  "matchKey node rest =
     (let best = (case as_map node of Some obj \<Rightarrow> best_key rest obj | None \<Rightarrow> []) in
      if best \<noteq> [] then best else takeWhile (\<lambda>c. c \<noteq> CHR ''.'' \<and> c \<noteq> CHR ''['') rest)"

definition descendKey :: "gval \<Rightarrow> string \<Rightarrow> gval" where
  "descendKey node key = omget (as_map node) key"

definition descendIndex :: "gval \<Rightarrow> int \<Rightarrow> gval" where
  "descendIndex node idx = (case node of
     VArr arr \<Rightarrow> if idx < 0 \<or> int (length arr) \<le> idx then VNil else arr ! nat idx
   | _ \<Rightarrow> VNil)"

datatype path_err = Unterminated | BadAccessor string | EmptyPath

text \<open>The accessor between brackets: a quoted key or an index.\<close>

definition bracket_step :: "string \<Rightarrow> path_step option" where
  "bracket_step tok =
     (if 2 \<le> length tok \<and> (hd tok = CHR 0x27 \<or> hd tok = CHR 0x22) \<and> last tok = hd tok then Some (PKey (butlast (tl tok)))
      else map_option PIndex (atoi tok))"

lemma best_key_matches: "best_key rest obj \<noteq> [] \<Longrightarrow> key_matches rest (best_key rest obj)"
proof -
  have "best \<noteq> [] \<longrightarrow> key_matches rest best \<Longrightarrow>
      foldl (\<lambda>best p. if length (fst p) \<le> length best then best else if key_matches rest (fst p) then fst p else best) best obj \<noteq> [] \<longrightarrow>
      key_matches rest (foldl (\<lambda>best p. if length (fst p) \<le> length best then best else if key_matches rest (fst p) then fst p else best) best obj)" for best
    by (induction obj arbitrary: best) auto
  from this[of "[]"] show "best_key rest obj \<noteq> [] \<Longrightarrow> key_matches rest (best_key rest obj)" by (simp add: best_key_def)
qed

lemma matchKey_consumes:
  "rest = c # cs \<Longrightarrow> c \<noteq> CHR ''.'' \<Longrightarrow> c \<noteq> CHR ''['' \<Longrightarrow> matchKey node rest \<noteq> []"
  by (simp add: matchKey_def Let_def)

text \<open>The loop of \<open>tokenizePath\<close> on the rest of the path, with the node reached and the last key.\<close>

function tokens :: "string \<Rightarrow> gval \<Rightarrow> string \<Rightarrow> path_err + path_step list" where
  "tokens [] node prevKey = Inr []"
| "tokens (c # cs) node prevKey =
     (if c = CHR ''.'' then tokens cs node prevKey
      else if c = CHR ''['' then
        (if CHR '']'' \<notin> set cs then Inl Unterminated
         else (let tok = takeWhile (\<lambda>x. x \<noteq> CHR '']'') cs; more = drop (Suc (length tok)) cs in
           case bracket_step tok of
             None \<Rightarrow> Inl (BadAccessor tok)
           | Some (PKey key) \<Rightarrow> map_sum id ((#) (PKey key)) (tokens more (descendKey node key) key)
           | Some (PIndex idx) \<Rightarrow> map_sum id ((#) (PIndex idx)) (tokens more (descendIndex node idx) [])))
      else (let key = (if isFlatKeyMap prevKey then c # cs else matchKey node (c # cs)) in
        map_sum id ((#) (PKey key)) (tokens (drop (length key) (c # cs)) (descendKey node key) key)))"
  by pat_completeness auto
termination
proof (relation "measure (\<lambda>(s, node, prev). length s)", goal_cases)
  case (5 c cs node prevKey key)
  then have "key \<noteq> []" using matchKey_consumes[of "c # cs" c cs node] by auto
  then show ?case by (cases key) auto
qed auto

declare tokens.simps(2) [simp del]

text \<open>\<open>strings.IndexByte(path, '.')\<close> with what precedes it.\<close>

definition strip_kind :: "string \<Rightarrow> string" where
  "strip_kind path =
     (let pre = takeWhile (\<lambda>c. c \<noteq> CHR ''.'') path in
      if pre \<noteq> [] \<and> length pre < length path \<and> resolveWorkloadKind pre \<noteq> None then drop (Suc (length pre)) path else path)"

definition tokenizePath :: "string \<Rightarrow> gmap \<Rightarrow> path_err + path_step list" where
  "tokenizePath path root =
     (let path1 = (if has_prefix path ''.'' then tl path else path) in tokens (strip_kind path1) (VObj root) [])"

section \<open>Writing a value back\<close>

text \<open>Whole numbers become integers, at every level; a negative zero equals zero.\<close>

definition normalize_float :: "float64 \<Rightarrow> gval" where
  "normalize_float f = (if f = float_of_int (int_of_float f) \<or> f = FFin True 0 0 then VInt (int_of_float f) else VFloat f)"

fun normalizeJSONValue :: "gval \<Rightarrow> gval" where
  "normalizeJSONValue (VFloat f) = normalize_float f"
| "normalizeJSONValue (VObj m) = VObj (map (\<lambda>p. (fst p, normalizeJSONValue (snd p))) m)"
| "normalizeJSONValue (VArr xs) = VArr (map normalizeJSONValue xs)"
| "normalizeJSONValue v = v"

record revert_entry =
  re_Path :: string
  re_Old :: gval
  re_HasOld :: bool

datatype revert_err =
    PathErr path_err | NonArray int | OutOfRange int nat | NonObject string | NotFound string | AddedElement

text \<open>\<open>navigate\<close> and the write at its end, as one descent that rebuilds the object. An error of the
  descent is \<open>Inl (Inl err)\<close>, an error of the write \<open>Inl (Inr err)\<close>.\<close>

definition write_last :: "path_step \<Rightarrow> revert_entry \<Rightarrow> gval \<Rightarrow> revert_err + gval" where
  "write_last st e parent = (case st of
     PIndex i \<Rightarrow> (case parent of
         VArr arr \<Rightarrow>
           if \<not> re_HasOld e then Inl AddedElement
           else if i < 0 \<or> int (length arr) \<le> i then Inl (OutOfRange i (length arr))
           else Inr (VArr (arr[nat i := normalizeJSONValue (re_Old e)]))
       | _ \<Rightarrow> Inl (NonArray i))
   | PKey k \<Rightarrow> (case parent of
         VObj obj \<Rightarrow> Inr (VObj (if re_HasOld e then map_put k (normalizeJSONValue (re_Old e)) obj else map_del k obj))
       | _ \<Rightarrow> Inl (NonObject k)))"

fun revert_at :: "path_step list \<Rightarrow> path_step \<Rightarrow> revert_entry \<Rightarrow> gval \<Rightarrow> (revert_err + revert_err) + gval" where
  "revert_at [] st e cur = map_sum Inr id (write_last st e cur)"
| "revert_at (PIndex i # ss) st e cur = (case cur of
     VArr arr \<Rightarrow>
       if i < 0 \<or> int (length arr) \<le> i then Inl (Inl (OutOfRange i (length arr)))
       else map_sum id (\<lambda>v. VArr (arr[nat i := v])) (revert_at ss st e (arr ! nat i))
   | _ \<Rightarrow> Inl (Inl (NonArray i)))"
| "revert_at (PKey k # ss) st e cur = (case cur of
     VObj obj \<Rightarrow>
       if mget obj k = VNil \<and> \<not> re_HasOld e then Inl (Inl (NotFound k))
       else map_sum id (\<lambda>v. VObj (map_put k v obj))
         (revert_at ss st e (if mget obj k = VNil then VObj [] else mget obj k))
   | _ \<Rightarrow> Inl (Inl (NonObject k)))"

definition applyRevert :: "revert_entry \<Rightarrow> gmap \<Rightarrow> revert_err + gmap" where
  "applyRevert e root = (case tokenizePath (re_Path e) root of
     Inl err \<Rightarrow> Inl (PathErr err)
   | Inr [] \<Rightarrow> Inl (PathErr EmptyPath)
   | Inr steps \<Rightarrow> (case revert_at (butlast steps) (last steps) e (VObj root) of
       Inl (Inl err) \<Rightarrow> if re_HasOld e then Inl err else Inr root
     | Inl (Inr err) \<Rightarrow> Inl err
     | Inr v \<Rightarrow> Inr (case v of VObj m \<Rightarrow> m | _ \<Rightarrow> root)))"

section \<open>The action\<close>

fun apply_all :: "revert_entry list \<Rightarrow> gmap \<Rightarrow> revert_err + gmap" where
  "apply_all [] root = Inr root"
| "apply_all (e # es) root = (case applyRevert e root of Inl err \<Rightarrow> Inl err | Inr root' \<Rightarrow> apply_all es root')"

datatype update_answer = Updated gmap | Conflict | UpdateError string

datatype revert_failure =
    RevertNoDynamic | RevertNameRequired | PathsRequired | RevertUnsupported string | RevertNamespaceRequired string
  | RevertGet | RevertApply revert_err | RevertConflict | RevertUpdate string

text \<open>Attempt \<open>n\<close>: what the object reads as and how its update is answered. The updates sent are
  returned with the outcome.\<close>

record revert_env =
  rv_get :: "nat \<Rightarrow> gmap option"
  rv_update :: "nat \<Rightarrow> gmap \<Rightarrow> update_answer"

definition revertConflictRetries :: nat where "revertConflictRetries = 3"

function revert_loop :: "revert_env \<Rightarrow> revert_entry list \<Rightarrow> nat \<Rightarrow> (revert_failure + gmap) \<times> gmap list" where
  "revert_loop env entries n = (case rv_get env n of
     None \<Rightarrow> (Inl RevertGet, [])
   | Some live \<Rightarrow> (case apply_all entries live of
       Inl err \<Rightarrow> (Inl (RevertApply err), [])
     | Inr obj \<Rightarrow> (case rv_update env n obj of
         Updated u \<Rightarrow> (Inr u, [obj])
       | UpdateError err \<Rightarrow> (Inl (RevertUpdate err), [obj])
       | Conflict \<Rightarrow> if n + 1 < revertConflictRetries
           then (case revert_loop env entries (Suc n) of (res, sent) \<Rightarrow> (res, obj # sent))
           else (Inl RevertConflict, [obj]))))"
  by pat_completeness auto
termination
  by (relation "measure (\<lambda>(env, entries, n). revertConflictRetries - n)") auto

declare revert_loop.simps [simp del]

definition pluralFields :: "nat \<Rightarrow> string" where
  "pluralFields n = (if n = 1 then ''1 field'' else nat_dec n @ '' fields'')"

definition RevertWorkload ::
  "bool \<Rightarrow> revert_env \<Rightarrow> string \<Rightarrow> string \<Rightarrow> string \<Rightarrow> revert_entry list \<Rightarrow> (revert_failure + gval) \<times> gmap list" where
  "RevertWorkload dyn env kind namespace name entries =
     (if \<not> dyn then (Inl RevertNoDynamic, [])
      else if name = [] then (Inl RevertNameRequired, [])
      else if entries = [] then (Inl PathsRequired, [])
      else (case resolveWorkloadKind kind of
        None \<Rightarrow> (Inl (RevertUnsupported kind), [])
      | Some (canonical, entry) \<Rightarrow>
          if wk_namespaced entry \<and> namespace = [] then (Inl (RevertNamespaceRequired canonical), [])
          else (case revert_loop env entries 0 of
            (Inl err, sent) \<Rightarrow> (Inl err, sent)
          | (Inr u, sent) \<Rightarrow>
              (Inr (VObj [(''updated'', VObj u), (''reverted_paths'', VArr (map (\<lambda>e. VStr (re_Path e)) entries)),
                 (''message'', VStr (canonical @ ''/'' @ location namespace name @ '' reverted ('' @ pluralFields (length entries) @ '')''))]),
               sent))))"

datatype entries_err = RevertPathsRequired | NotAnObject nat | NoPath nat

fun parse_entries :: "nat \<Rightarrow> gval list \<Rightarrow> entries_err + revert_entry list" where
  "parse_entries i [] = Inr []"
| "parse_entries i (item # items) = (case as_map item of
     None \<Rightarrow> Inl (NotAnObject i)
   | Some obj \<Rightarrow>
       if as_str (mget obj ''path'') = [] then Inl (NoPath i)
       else map_sum id ((#) \<lparr>re_Path = as_str (mget obj ''path''), re_Old = mget obj ''old'', re_HasOld = mget obj ''old'' \<noteq> VNil\<rparr>)
         (parse_entries (Suc i) items))"

definition parseRevertEntries :: "gval \<Rightarrow> entries_err + revert_entry list" where
  "parseRevertEntries v = (if as_arr v = [] then Inl RevertPathsRequired else parse_entries 0 (as_arr v))"

datatype handler_err = RevertKindRequired | BadEntries entries_err | RevertFailed revert_failure

definition handleRevertWorkload :: "bool \<Rightarrow> revert_env \<Rightarrow> gmap \<Rightarrow> (handler_err + gval) \<times> gmap list" where
  "handleRevertWorkload dyn env p =
     (if as_str (mget p ''kind'') = [] then (Inl RevertKindRequired, [])
      else (case parseRevertEntries (mget p ''revert_paths'') of
        Inl err \<Rightarrow> (Inl (BadEntries err), [])
      | Inr entries \<Rightarrow> map_prod (map_sum RevertFailed id) id
          (RevertWorkload dyn env (as_str (mget p ''kind'')) (as_str (mget p ''namespace'')) (as_str (mget p ''name'')) entries)))"

section \<open>A path text is read back\<close>

fun conv :: "step \<Rightarrow> path_step" where
  "conv (Key k) = PKey k"
| "conv (Idx i) = PIndex (int i)"

fun rest_text :: "step list \<Rightarrow> string" where
  "rest_text [] = []"
| "rest_text (Key k # p) = CHR ''.'' # k @ rest_text p"
| "rest_text (Idx i # p) = CHR ''['' # nat_dec i @ CHR '']'' # rest_text p"

lemma path_text_rest: "pre \<noteq> [] \<Longrightarrow> path_text pre p = pre @ rest_text p"
proof (induction pre p rule: path_text.induct)
  case (2 pre k p)
  then show ?case by (cases "joinPath pre k = []") (auto simp: joinPath_def)
next
  case (3 pre i p)
  then show ?case by (cases "indexPath pre i = []") (auto simp: indexPath_def)
qed simp

lemma rest_text_stops: "rest_text p = [] \<or> \<not> plain_char (hd (rest_text p))"
  by (cases p rule: rest_text.cases) (auto simp: plain_char_def)

definition all_keys :: "(string \<Rightarrow> bool) \<Rightarrow> gval \<Rightarrow> bool" where
  "all_keys P v = (case v of VObj m \<Rightarrow> list_all (\<lambda>p. P (fst p)) m | _ \<Rightarrow> True)"

text \<open>The paths whose text is unambiguous on an object: below a flat map one key is left, any text that
  does not start like another accessor; elsewhere the keys have no dots and no brackets, neither
  on the path nor beside it.\<close>

fun readable :: "step list \<Rightarrow> string \<Rightarrow> gval \<Rightarrow> bool" where
  "readable [] prev node = True"
| "readable (Idx i # p) prev node = (int i \<le> max_int64 \<and> readable p [] (nth_or_nil (as_arr node) i))"
| "readable (Key k # p) prev node =
     (if isFlatKeyMap prev then p = [] \<and> k \<noteq> [] \<and> plain_char (hd k)
      else plain_key k \<and> all_keys plain_key node \<and> readable p k (omget (as_map node) k))"

definition readable_path :: "step list \<Rightarrow> gmap \<Rightarrow> bool" where
  "readable_path p root \<longleftrightarrow> (case p of Key k # q \<Rightarrow> True | _ \<Rightarrow> False) \<and> readable p [] (VObj root) \<and>
     resolveWorkloadKind (takeWhile (\<lambda>c. c \<noteq> CHR ''.'') (path_text [] p)) = None"

lemma takeWhile_plain: "plain_key k \<Longrightarrow> r = [] \<or> \<not> plain_char (hd r) \<Longrightarrow> takeWhile plain_char (k @ r) = k"
  by (cases r) (auto simp: plain_key_def list_all_iff)

lemma key_matches_plain:
  assumes "plain_key k" "plain_key k'" "r = [] \<or> \<not> plain_char (hd r)" "key_matches (k @ r) k'"
  shows "k' = k"
proof -
  from assms(4) obtain r' where "k @ r = k' @ r'" "r' = [] \<or> \<not> plain_char (hd r')"
    by (auto simp: key_matches_def has_prefix_iff plain_char_def)
  then show ?thesis using takeWhile_plain[of k r] takeWhile_plain[of k' r'] assms by simp
qed

lemma best_key_mem: "best_key rest obj \<noteq> [] \<Longrightarrow> best_key rest obj \<in> fst ` set obj"
proof -
  let ?f = "\<lambda>best p. if length (fst p) \<le> length best then best else if key_matches rest (fst p) then fst p else best"
  have "foldl ?f best obj = best \<or> foldl ?f best obj \<in> fst ` set obj" for best
  proof (induction obj arbitrary: best)
    case (Cons p obj)
    from Cons[of "?f best p"] show ?case by (auto split: if_splits)
  qed simp
  from this[of "[]"] show "best_key rest obj \<noteq> [] \<Longrightarrow> best_key rest obj \<in> fst ` set obj" by (auto simp: best_key_def)
qed

lemma matchKey_plain:
  assumes "plain_key k" "all_keys plain_key node" "r = [] \<or> \<not> plain_char (hd r)"
  shows "matchKey node (k @ r) = k"
proof -
  have tw: "takeWhile (\<lambda>c. c \<noteq> CHR ''.'' \<and> c \<noteq> CHR ''['') (k @ r) = k"
    using takeWhile_plain[of k r] assms(1,3) by (simp add: plain_char_def[abs_def])
  have "best_key (k @ r) obj = [] \<or> best_key (k @ r) obj = k" if "node = VObj obj" for obj
    using best_key_mem[of "k @ r" obj] best_key_matches[of "k @ r" obj] key_matches_plain[OF assms(1) _ assms(3)] assms(2) that
    by (fastforce simp: all_keys_def list_all_iff)
  then show ?thesis using tw by (cases node) (auto simp: matchKey_def Let_def as_map_def)
qed

lemma digits_no_bracket: "CHR '']'' \<notin> set (nat_dec i)"
  using nat_dec_digits[of "CHR '']''" i] by (auto simp: is_digit_def)

lemma bracket_step_index: "int i \<le> max_int64 \<Longrightarrow> bracket_step (nat_dec i) = Some (PIndex (int i))"
  using nat_dec_ends(1)[of i] by (auto simp: bracket_step_def atoi_nat_dec is_digit_def simp del: nat_dec_ends)

lemma tokens_index:
  assumes "int i \<le> max_int64"
  shows "tokens (CHR ''['' # nat_dec i @ CHR '']'' # s) node prev =
    map_sum id ((#) (PIndex (int i))) (tokens s (descendIndex node (int i)) [])"
proof -
  have "takeWhile (\<lambda>x. x \<noteq> CHR '']'') (nat_dec i @ CHR '']'' # s) = nat_dec i"
    using digits_no_bracket[of i] by (subst takeWhile_append2) auto
  then show ?thesis by (simp add: tokens.simps(2) bracket_step_index[OF assms] Let_def)
qed

lemma tokens_key:
  assumes "k \<noteq> []" "plain_char (hd k)" "(if isFlatKeyMap prev then k @ s else matchKey node (k @ s)) = k"
  shows "tokens (k @ s) node prev = map_sum id ((#) (PKey k)) (tokens s (descendKey node k) k)"
  using assms by (cases k) (auto simp: tokens.simps(2) plain_char_def Let_def split: if_splits)

lemma descendIndex_nth: "descendIndex node (int i) = nth_or_nil (as_arr node) i"
  by (cases node) (auto simp: descendIndex_def nth_or_nil_def as_arr_def)

lemma plain_key_hd: "plain_key k \<Longrightarrow> k \<noteq> [] \<and> plain_char (hd k)"
  by (cases k) (auto simp: plain_key_def)

text \<open>The text of the steps after a key: each accessor is read back against the object.\<close>

lemma tokens_key_rest:
  assumes "readable (Key k # p) prev node"
    and "\<And>prev node. readable p prev node \<Longrightarrow> tokens (rest_text p) node prev = Inr (map conv p)"
  shows "tokens (k @ rest_text p) node prev = Inr (map conv (Key k # p))"
proof (cases "isFlatKeyMap prev")
  case True
  with assms(1) show ?thesis by (simp add: tokens_key[of k prev "[]" node, simplified])
next
  case False
  with assms(1) have "matchKey node (k @ rest_text p) = k" "k \<noteq> []" "plain_char (hd k)"
    using matchKey_plain[OF _ _ rest_text_stops] plain_key_hd by auto
  with False tokens_key[of k prev "rest_text p" node] assms show ?thesis by (simp add: descendKey_def)
qed

lemma tokens_rest: "readable p prev node \<Longrightarrow> tokens (rest_text p) node prev = Inr (map conv p)"
proof (induction p arbitrary: prev node)
  case (Cons st p)
  show ?case
  proof (cases st)
    case (Key k)
    with Cons show ?thesis using tokens_key_rest[of k p prev node] by (simp add: tokens.simps(2))
  next
    case (Idx i)
    with Cons show ?thesis by (simp add: tokens_index descendIndex_nth)
  qed
qed simp

lemma tokenizePath_reads:
  assumes "readable_path p root"
  shows "tokenizePath (path_text [] p) root = Inr (map conv p)"
proof -
  from assms obtain k q where p: "p = Key k # q" "readable p [] (VObj root)"
    and kind: "resolveWorkloadKind (takeWhile (\<lambda>c. c \<noteq> CHR ''.'') (path_text [] p)) = None"
    by (auto simp: readable_path_def split: list.splits step.splits)
  then have k: "plain_key k" by (simp add: isFlatKeyMap_def flatKeyMapFields_def)
  then have eq: "path_text [] p = k @ rest_text q" using p(1) path_text_rest[of k q] plain_key_hd by (simp add: joinPath_def)
  have "\<not> has_prefix (path_text [] p) ''.''"
    using plain_key_hd[OF k] eq by (cases k) (auto simp: has_prefix_def plain_char_def)
  moreover have "strip_kind (path_text [] p) = path_text [] p" using kind by (simp add: strip_kind_def Let_def)
  ultimately have "tokenizePath (path_text [] p) root = tokens (k @ rest_text q) (VObj root) []"
    by (simp add: tokenizePath_def Let_def eq)
  also have "\<dots> = Inr (map conv p)" using tokens_key_rest[of k q "[]" "VObj root"] tokens_rest p by simp
  finally show ?thesis .
qed

section \<open>What a revert changes\<close>

text \<open>The writes along a path, as one function of its steps.\<close>

definition revert_steps :: "step list \<Rightarrow> revert_entry \<Rightarrow> gval \<Rightarrow> (revert_err + revert_err) + gval" where
  "revert_steps p e = revert_at (butlast (map conv p)) (last (map conv p)) e"

lemma revert_steps_simps:
  "revert_steps [st] e cur = map_sum Inr id (write_last (conv st) e cur)"
  "p \<noteq> [] \<Longrightarrow> revert_steps (st # p) e cur = revert_at (conv st # butlast (map conv p)) (last (map conv p)) e cur"
  by (simp_all add: revert_steps_def)

lemma revert_steps_Key:
  "p \<noteq> [] \<Longrightarrow> revert_steps (Key k # p) e (VObj obj) =
     (if mget obj k = VNil \<and> \<not> re_HasOld e then Inl (Inl (NotFound k))
      else map_sum id (\<lambda>v. VObj (map_put k v obj)) (revert_steps p e (if mget obj k = VNil then VObj [] else mget obj k)))"
  by (simp add: revert_steps_simps) (simp add: revert_steps_def)

lemma revert_steps_Idx:
  "p \<noteq> [] \<Longrightarrow> i < length arr \<Longrightarrow> revert_steps (Idx i # p) e (VArr arr) =
     map_sum id (\<lambda>v. VArr (arr[i := v])) (revert_steps p e (arr ! i))"
  by (simp add: revert_steps_simps) (simp add: revert_steps_def)

text \<open>The place a path leads to can be written: its parent is there (or may be created, when a value is
  written), and an array element is written only in range.\<close>

definition child :: "gmap \<Rightarrow> string \<Rightarrow> gval" where
  "child obj k = (if mget obj k = VNil then VObj [] else mget obj k)"

fun writable :: "step list \<Rightarrow> bool \<Rightarrow> gval \<Rightarrow> bool" where
  "writable [] has v = False"
| "writable (Key k # p) has (VObj obj) = (p = [] \<or> ((mget obj k \<noteq> VNil \<or> has) \<and> writable p has (child obj k)))"
| "writable (Idx i # p) has (VArr arr) = (i < length arr \<and> (if p = [] then has else writable p has (arr ! i)))"
| "writable (_ # _) has _ = False"

definition apart :: "step list \<Rightarrow> step list \<Rightarrow> bool" where
  "apart p q \<longleftrightarrow> \<not> prefix p q \<and> \<not> prefix q p"

lemma apart_Cons: "apart (s # p) q \<longleftrightarrow> (case q of [] \<Rightarrow> False | t # q' \<Rightarrow> s \<noteq> t \<or> apart p q')"
  by (cases q) (auto simp: apart_def)

lemma apart_Nil [simp]: "\<not> apart [] q" "\<not> apart q []"
  by (simp_all add: apart_def)

lemma apart_sym: "apart p q \<Longrightarrow> apart q p"
  by (auto simp: apart_def)

definition reverted :: "step list \<Rightarrow> revert_entry \<Rightarrow> gval \<Rightarrow> gval \<Rightarrow> bool" where
  "reverted p e node v \<longleftrightarrow> descend p v = (if re_HasOld e then normalizeJSONValue (re_Old e) else VNil) \<and>
     (\<forall>q. apart p q \<longrightarrow> descend q v = descend q node) \<and>
     (\<forall>q prev. apart p q \<longrightarrow> readable p prev node \<longrightarrow> readable q prev node \<longrightarrow> readable q prev v) \<and>
     (\<forall>q has. apart p q \<longrightarrow> writable q has node \<longrightarrow> writable q has v)"

lemma descend_VNil [simp]: "descend q VNil = VNil" "descend q (VObj []) = (if q = [] then VObj [] else VNil)"
proof -
  show nil: "descend q VNil = VNil" by (induction q rule: rest_text.induct) (auto simp: nth_or_nil_def)
  show "descend q (VObj []) = (if q = [] then VObj [] else VNil)"
    using nil by (cases q rule: rest_text.cases) (auto simp: nth_or_nil_def as_arr_def)
qed

lemma revertedI:
  assumes "descend p v = (if re_HasOld e then normalizeJSONValue (re_Old e) else VNil)"
    and "\<And>q. apart p q \<Longrightarrow> descend q v = descend q node"
    and "\<And>q prev. apart p q \<Longrightarrow> readable p prev node \<Longrightarrow> readable q prev node \<Longrightarrow> readable q prev v"
    and "\<And>q has. apart p q \<Longrightarrow> writable q has node \<Longrightarrow> writable q has v"
  shows "reverted p e node v"
  using assms by (simp add: reverted_def)

lemma readable_child: "readable p prev (child obj k) = readable p prev (mget obj k)"
  by (cases p rule: rest_text.cases) (auto simp: child_def all_keys_def as_arr_def)

lemma all_keys_put: "all_keys P (VObj obj) \<Longrightarrow> P k \<Longrightarrow> all_keys P (VObj (map_put k v obj))"
  using set_map_put[of k v obj] by (auto simp: all_keys_def list_all_iff)

lemma all_keys_del: "all_keys P (VObj obj) \<Longrightarrow> all_keys P (VObj (map_del k obj))"
  by (auto simp: all_keys_def list_all_iff map_del_def)

lemma descend_child: "q \<noteq> [] \<Longrightarrow> descend q (child obj k) = descend q (mget obj k)"
  by (simp add: child_def)

lemma writable_child: "writable q has (mget obj k) \<Longrightarrow> writable q has (child obj k)"
  by (cases q rule: rest_text.cases) (auto simp: child_def)

text \<open>A member of an object is replaced by a value, or removed.\<close>

lemma reverted_member:
  assumes obj': "\<And>k'. k' \<noteq> k \<Longrightarrow> mget obj' k' = mget obj k'"
    and keys: "\<And>P. all_keys P (VObj obj) \<Longrightarrow> P k \<Longrightarrow> all_keys P (VObj obj')"
    and top: "descend p (mget obj' k) = (if re_HasOld e then normalizeJSONValue (re_Old e) else VNil)"
    and below: "p \<noteq> [] \<Longrightarrow> mget obj' k \<noteq> VNil \<and> reverted p e (child obj k) (mget obj' k)"
  shows "reverted (Key k # p) e (VObj obj) (VObj obj')"
proof (rule revertedI)
  fix q assume "apart (Key k # p) q"
  then obtain t q' where q: "q = t # q'" "t = Key k \<Longrightarrow> apart p q'" by (cases q) (auto simp: apart_Cons)
  have same: "mget obj' k \<noteq> VNil" "reverted p e (child obj k) (mget obj' k)" "apart p q'" "p \<noteq> []" "q' \<noteq> []" if "t = Key k"
  proof -
    show ap: "apart p q'" using q that by simp
    then show p: "p \<noteq> []" "q' \<noteq> []" by auto
    show "mget obj' k \<noteq> VNil" "reverted p e (child obj k) (mget obj' k)" using below p by auto
  qed
  show "descend q (VObj obj') = descend q (VObj obj)"
    using q(1) obj' same descend_child[of q' obj k] by (cases "t = Key k"; cases t) (simp_all add: as_arr_def reverted_def)
  show "readable q prev (VObj obj')" if "readable (Key k # p) prev (VObj obj)" "readable q prev (VObj obj)" for prev
  proof (cases "t = Key k")
    case True
    with that q(1) same(4) same(2,3)[OF True] show ?thesis using keys[of plain_key]
      by (simp add: reverted_def readable_child split: if_splits)
  next
    case False
    with that q(1) obj' keys[of plain_key] show ?thesis by (cases t) (auto simp: as_arr_def split: if_splits)
  qed
  show "writable q has (VObj obj')" if "writable q has (VObj obj)" for has
  proof (cases "t = Key k")
    case True
    with that q(1) same[OF True] show ?thesis by (auto simp: reverted_def child_def[of obj'])
  next
    case False
    with that q(1) obj' show ?thesis by (cases t) (auto simp: child_def)
  qed
qed (use top in simp)

text \<open>An element of an array is replaced by a value.\<close>

lemma reverted_element:
  assumes "i < length arr"
    and top: "descend p w = (if re_HasOld e then normalizeJSONValue (re_Old e) else VNil)"
    and below: "p \<noteq> [] \<Longrightarrow> reverted p e (arr ! i) w"
  shows "reverted (Idx i # p) e (VArr arr) (VArr (arr[i := w]))"
proof (rule revertedI)
  fix q assume "apart (Idx i # p) q"
  then obtain t q' where q: "q = t # q'" "Idx i \<noteq> t \<or> apart p q'" by (cases q) (auto simp: apart_Cons)
  show "descend q (VArr (arr[i := w])) = descend q (VArr arr)"
    using q below assms(1) by (cases t; cases "p = []") (auto simp: reverted_def nth_or_nil_def nth_list_update)
  show "readable q prev (VArr (arr[i := w]))" if "readable (Idx i # p) prev (VArr arr)" "readable q prev (VArr arr)" for prev
    using q that below assms(1)
    by (cases t; cases "p = []") (auto simp: reverted_def nth_or_nil_def nth_list_update all_keys_def split: if_splits)
  show "writable q has (VArr (arr[i := w]))" if "writable q has (VArr arr)" for has
    using q that below assms(1)
    by (cases t; cases "p = []") (auto simp: reverted_def nth_list_update split: if_splits)
qed (use top assms(1) in \<open>simp add: nth_or_nil_def\<close>)

lemma revert_steps_reverted:
  assumes "writable p (re_HasOld e) node"
  shows "\<exists>v. revert_steps p e node = Inr v \<and> reverted p e node v \<and> v \<noteq> VNil \<and> (as_map v = None \<longleftrightarrow> as_map node = None)"
  using assms
proof (induction p "re_HasOld e" node rule: writable.induct)
  case (2 k p obj)
  show ?case
  proof (cases "p = []")
    case True
    then show ?thesis
      by (auto simp: revert_steps_simps write_last_def intro!: reverted_member all_keys_put all_keys_del)
  next
    case False
    with 2 obtain v where "revert_steps p e (child obj k) = Inr v" "reverted p e (child obj k) v" "v \<noteq> VNil" by auto
    with 2(2) False show ?thesis
      by (auto simp: revert_steps_Key child_def[symmetric] reverted_def[of p] intro!: reverted_member all_keys_put)
  qed
next
  case (3 i p arr)
  show ?case
  proof (cases "p = []")
    case True
    with 3(2) show ?thesis by (auto simp: revert_steps_simps write_last_def intro!: reverted_element)
  next
    case False
    with 3 obtain v where "revert_steps p e (arr ! i) = Inr v" "reverted p e (arr ! i) v" by auto
    with 3(2) False show ?thesis by (auto simp: revert_steps_Idx reverted_def[of p] intro!: reverted_element)
  qed
qed auto

text \<open>An entry of the action for a recorded change: the path text and the value before, absent when it is null.\<close>

definition entry_of :: "step list \<Rightarrow> gval \<Rightarrow> revert_entry" where
  "entry_of p old = \<lparr>re_Path = path_text [] p, re_Old = old, re_HasOld = (old \<noteq> VNil)\<rparr>"

lemma applyRevert_reverted:
  assumes "readable_path p root" "writable p (old \<noteq> VNil) (VObj root)"
  shows "\<exists>root'. applyRevert (entry_of p old) root = Inr root' \<and> reverted p (entry_of p old) (VObj root) (VObj root')"
proof -
  have "writable p (re_HasOld (entry_of p old)) (VObj root)" using assms(2) by (simp add: entry_of_def)
  from revert_steps_reverted[OF this] obtain v root' where "revert_steps p (entry_of p old) (VObj root) = Inr v"
    "reverted p (entry_of p old) (VObj root) v" "as_map v = Some root'" by auto
  moreover have "map conv p \<noteq> []" using assms(2) by (cases p) auto
  then obtain x xs where "map conv p = x # xs" by (cases "map conv p") auto
  ultimately show ?thesis using tokenizePath_reads[OF assms(1)]
    by (simp add: applyRevert_def revert_steps_def entry_of_def as_map_Some_iff)
qed

section \<open>Reverting a list of changes\<close>

text \<open>Every change has its old value again, and what lies apart from all of them is as it was.\<close>

definition restored :: "(step list \<times> gval) list \<Rightarrow> gmap \<Rightarrow> gmap \<Rightarrow> bool" where
  "restored cs root root' \<longleftrightarrow> (\<forall>(p, old) \<in> set cs. descend p (VObj root') = normalizeJSONValue old) \<and>
     (\<forall>q. (\<forall>p \<in> fst ` set cs. apart p q) \<longrightarrow> descend q (VObj root') = descend q (VObj root))"

definition can_revert :: "gmap \<Rightarrow> step list \<times> gval \<Rightarrow> bool" where
  "can_revert root c \<longleftrightarrow> readable_path (fst c) root \<and> writable (fst c) (snd c \<noteq> VNil) (VObj root)"

lemma can_revert_step:
  assumes "reverted p e (VObj root) (VObj root')" "readable_path p root" "can_revert root c" "apart p (fst c)"
  shows "can_revert root' c"
  using assms by (auto simp: can_revert_def readable_path_def reverted_def)

lemma apply_all_restored:
  assumes "list_all (can_revert root) cs" "distinct (map fst cs)" "pairwise apart (fst ` set cs)"
  shows "\<exists>root'. apply_all (map (\<lambda>(p, old). entry_of p old) cs) root = Inr root' \<and> restored cs root root'"
  using assms
proof (induction cs arbitrary: root)
  case (Cons c cs)
  obtain p old where c: "c = (p, old)" by (cases c)
  with Cons.prems have cr: "readable_path p root" "writable p (old \<noteq> VNil) (VObj root)" by (auto simp: can_revert_def)
  from applyRevert_reverted[OF this] obtain r where r: "applyRevert (entry_of p old) root = Inr r"
    "reverted p (entry_of p old) (VObj root) (VObj r)" by blast
  have ap: "apart p q" if "q \<in> fst ` set cs" for q
    using Cons.prems(2,3) that c by (auto simp: pairwise_insert)
  have "list_all (can_revert r) cs"
    using Cons.prems(1) can_revert_step[OF r(2) cr(1)] ap by (auto simp: list_all_iff)
  with Cons.IH[of r] Cons.prems obtain r' where r': "apply_all (map (\<lambda>(p, old). entry_of p old) cs) r = Inr r'" "restored cs r r'"
    by (auto simp: pairwise_insert)
  have "descend p (VObj r') = descend p (VObj r)" using r'(2) ap apart_sym by (fastforce simp: restored_def)
  then have "restored (c # cs) root r'"
    using r(2) r'(2) c by (auto simp: restored_def reverted_def entry_of_def)
  with r r' c show ?case by auto
qed (simp add: restored_def)

lemma leaf_change_apart: "leaf_change p b a \<Longrightarrow> leaf_change q b a \<Longrightarrow> p \<noteq> q \<Longrightarrow> apart p q"
proof (induction p b a arbitrary: q rule: leaf_change.induct)
  case (1 b a)
  then show ?case by (cases "(q, b, a)" rule: leaf_change.cases) auto
next
  case (2 k p b a)
  then show ?case by (cases "(q, VObj b, VObj a)" rule: leaf_change.cases) (auto simp: apart_Cons)
next
  case (3 i p b a)
  then show ?case by (cases "(q, VArr b, VArr a)" rule: leaf_change.cases) (auto simp: apart_Cons)
qed auto

lemma leaf_change_container: "leaf_change p b a \<Longrightarrow> p \<noteq> [] \<Longrightarrow> a \<noteq> VNil"
  by (cases "(p, b, a)" rule: leaf_change.cases) auto

text \<open>On the object right after the change, a changed member can always be written.\<close>

lemma leaf_change_writable:
  assumes "leaf_change p b a" "p \<noteq> []" "last p = Key k"
  shows "writable p has a"
  using assms
proof (induction p b a rule: leaf_change.induct)
  case (2 k' p b a)
  then show ?case using leaf_change_container[of p "mget b k'" "mget a k'"] by (auto simp: child_def split: if_splits)
next
  case (3 i p b a)
  then have "p \<noteq> []" by auto
  with 3 leaf_change_container[of p "nth_or_nil b i" "nth_or_nil a i"] show ?case by (auto simp: nth_or_nil_def split: if_splits)
qed auto

text \<open>The entry an undo sends for a change of the evidence.\<close>

definition undo_entry :: "diff_entry \<Rightarrow> revert_entry" where
  "undo_entry d = \<lparr>re_Path = de_Path d, re_Old = de_Before d, re_HasOld = (de_Before d \<noteq> VNil)\<rparr>"

lemma undo_entry_leaf: "undo_entry (leaf_entry [] b a p) = entry_of p (descend p b)"
  by (simp add: undo_entry_def leaf_entry_def entry_of_def)

text \<open>C19: an undo restores exactly what the change touched. Take changes that the spec diff reports
  between two versions of an object, with their path texts and old values as in the evidence. Let the
  live object be any object (it may have changed elsewhere since) on which each path text is
  unambiguous and each place can be written. Then reverting them one after the other succeeds; each
  changed field has its old value again (whole numbers as integers), a field that was added is gone,
  and every place that is not on one of the paths is as it was in the live object.\<close>

theorem revert_undoes_diff:
  assumes "distinct ps" and "list_all (\<lambda>p. leaf_change p (VObj old) (VObj new)) ps"
    and "list_all (\<lambda>p. readable_path p live \<and> writable p (descend p (VObj old) \<noteq> VNil) (VObj live)) ps"
  shows "\<exists>live'. apply_all (map (\<lambda>p. undo_entry (leaf_entry [] (VObj old) (VObj new) p)) ps) live = Inr live' \<and>
    list_all (\<lambda>p. descend p (VObj live') = normalizeJSONValue (descend p (VObj old))) ps \<and>
    (\<forall>q. list_all (\<lambda>p. apart p q) ps \<longrightarrow> descend q (VObj live') = descend q (VObj live))"
proof -
  let ?cs = "map (\<lambda>p. (p, descend p (VObj old))) ps"
  have "pairwise apart (set ps)" using assms(2) leaf_change_apart by (fastforce simp: pairwise_def list_all_iff)
  then have "list_all (can_revert live) ?cs" "distinct (map fst ?cs)" "pairwise apart (fst ` set ?cs)"
    using assms by (auto simp: can_revert_def list_all_iff comp_def image_image)
  from apply_all_restored[OF this] show ?thesis
    by (auto simp: restored_def list_all_iff undo_entry_leaf comp_def)
qed

definition sample_old :: gmap where
  "sample_old = [(''metadata'', VObj [(''annotations'', VObj [(''a.b/c'', VStr ''x'')])]),
     (''spec'', VObj [(''image'', VStr ''app:1'')])]"

definition sample_new :: gmap where
  "sample_new = [(''metadata'', VObj [(''annotations'', VObj [])]), (''spec'', VObj [(''image'', VStr ''app:2'')])]"

definition sample_live :: gmap where
  "sample_live = [(''metadata'', VObj [(''annotations'', VObj [])]), (''spec'', VObj [(''paused'', VBool True), (''image'', VStr ''app:2'')])]"

definition sample_paths :: "step list list" where
  "sample_paths = [[Key ''spec'', Key ''image''], [Key ''metadata'', Key ''annotations'', Key ''a.b/c'']]"

lemma sample_distinct: "distinct sample_paths"
  by code_simp

lemma sample_leaves: "list_all (\<lambda>p. leaf_change p (VObj sample_old) (VObj sample_new)) sample_paths"
  by code_simp

lemma sample_revertible:
  "list_all (\<lambda>p. readable_path p sample_live \<and> writable p (descend p (VObj sample_old) \<noteq> VNil) (VObj sample_live)) sample_paths"
proof -
  have "list_all (\<lambda>p. case p of Key k # q \<Rightarrow> True | _ \<Rightarrow> False) sample_paths" by code_simp
  moreover have "list_all (\<lambda>p. readable p [] (VObj sample_live)) sample_paths" by code_simp
  moreover have "list_all (\<lambda>p. writable p (descend p (VObj sample_old) \<noteq> VNil) (VObj sample_live)) sample_paths" by code_simp
  moreover have "list_all (\<lambda>p. resolveWorkloadKind (takeWhile (\<lambda>c. c \<noteq> CHR ''.'') (path_text [] p)) = None) sample_paths" by code_simp
  ultimately show ?thesis unfolding readable_path_def list_all_iff by blast
qed

theorem revert_undoes_diff_witness:
  "\<exists>live'. apply_all (map (\<lambda>p. undo_entry (leaf_entry [] (VObj sample_old) (VObj sample_new) p)) sample_paths) sample_live = Inr live' \<and>
     descend [Key ''spec'', Key ''image''] (VObj live') = VStr ''app:1'' \<and>
     descend [Key ''metadata'', Key ''annotations'', Key ''a.b/c''] (VObj live') = VStr ''x'' \<and>
     descend [Key ''spec'', Key ''paused''] (VObj live') = VBool True"
proof -
  from revert_undoes_diff[OF sample_distinct sample_leaves sample_revertible] obtain live' where
    a: "apply_all (map (\<lambda>p. undo_entry (leaf_entry [] (VObj sample_old) (VObj sample_new) p)) sample_paths) sample_live = Inr live'"
    and r: "list_all (\<lambda>p. descend p (VObj live') = normalizeJSONValue (descend p (VObj sample_old))) sample_paths"
    and f: "\<forall>q. list_all (\<lambda>p. apart p q) sample_paths \<longrightarrow> descend q (VObj live') = descend q (VObj sample_live)" by blast
  have "descend [Key ''spec'', Key ''paused''] (VObj live') = VBool True"
    by (subst f[rule_format]) (simp_all add: sample_paths_def sample_live_def apart_Cons)
  with a r show ?thesis by (intro exI[of _ live']) (simp add: sample_paths_def sample_old_def)
qed

section \<open>Conflicts\<close>

text \<open>The run of the retries from attempt \<open>n\<close>: what is sent, attempt by attempt, and the outcome.\<close>

definition attempts_ok :: "revert_env \<Rightarrow> revert_entry list \<Rightarrow> nat \<Rightarrow> (revert_failure + gmap) \<Rightarrow> gmap list \<Rightarrow> bool" where
  "attempts_ok env entries n res sent \<longleftrightarrow> n + length sent \<le> revertConflictRetries \<and>
     list_all (\<lambda>i. \<exists>live. rv_get env (n + i) = Some live \<and> apply_all entries live = Inr (sent ! i)) [0..<length sent] \<and>
     list_all (\<lambda>i. rv_update env (n + i) (sent ! i) = Conflict) [0..<length sent - 1] \<and>
     (\<forall>u. res = Inr u \<longleftrightarrow> sent \<noteq> [] \<and> rv_update env (n + length sent - 1) (last sent) = Updated u)"

lemma all_less_Suc_split: "(\<forall>i<Suc m. P i) \<longleftrightarrow> P 0 \<and> (\<forall>i<m. P (Suc i))"
  by (auto simp: less_Suc_eq_0_disj)

lemma attempts_ok_Cons:
  assumes "rv_get env n = Some live" "apply_all entries live = Inr obj" "rv_update env n obj = Conflict"
    and "attempts_ok env entries (Suc n) res sent"
  shows "attempts_ok env entries n res (obj # sent)"
proof -
  have all: "list_all P [0..<Suc m] \<longleftrightarrow> P 0 \<and> list_all (\<lambda>i. P (Suc i)) [0..<m]" for P m
    using all_less_Suc_split[of m P] by (simp add: list_all_iff del: upt_Suc) (simp add: Ball_def)
  show ?thesis using assms unfolding attempts_ok_def
    by (cases sent) (auto simp: all simp del: upt_Suc)
qed

lemma revert_loop_attempts:
  "n < revertConflictRetries \<Longrightarrow> attempts_ok env entries n (fst (revert_loop env entries n)) (snd (revert_loop env entries n))"
proof (induction env entries n rule: revert_loop.induct)
  case (1 env entries n)
  show ?case
  proof (cases "rv_get env n")
    case None then show ?thesis by (subst (1 2) revert_loop.simps) (simp add: attempts_ok_def 1(2) less_imp_le)
  next
    case (Some live)
    show ?thesis
    proof (cases "apply_all entries live")
      case (Inl err) then show ?thesis using Some 1(2) by (subst (1 2) revert_loop.simps) (simp add: attempts_ok_def less_imp_le)
    next
      case (Inr obj)
      show ?thesis
      proof (cases "rv_update env n obj = Conflict \<and> n + 1 < revertConflictRetries")
        case True
        then have "attempts_ok env entries (Suc n) (fst (revert_loop env entries (Suc n))) (snd (revert_loop env entries (Suc n)))"
          using 1(1)[OF Some Inr] by simp
        from attempts_ok_Cons[OF Some Inr _ this] True show ?thesis
          using Some Inr by (subst (1 2) revert_loop.simps) (cases "revert_loop env entries (Suc n)", simp)
      next
        case False
        then show ?thesis using Some Inr 1(2)
          by (subst (1 2) revert_loop.simps) (auto simp: attempts_ok_def split: update_answer.split)
      qed
    qed
  qed
qed

text \<open>The retries of a revert. The action sends at most three updates. Each is the object read in
  that attempt with all entries applied to it, so a retry never sends what it had read before a
  conflict; each but the last was answered with a conflict; and the action succeeds, with the object
  the API server returned, exactly when the last update was accepted.\<close>

lemma RevertWorkload_attempts:
  "case RevertWorkload dyn env kind namespace name entries of (res, sent) \<Rightarrow>
     \<exists>out. attempts_ok env entries 0 out sent \<and>
       (case res of
          Inr v \<Rightarrow> \<exists>u. out = Inr u \<and> mget (the (as_map v)) ''updated'' = VObj u
        | Inl err \<Rightarrow> (\<forall>u. out \<noteq> Inr u))"
proof -
  let ?loop = "revert_loop env entries 0"
  have loop: "attempts_ok env entries 0 (fst ?loop) (snd ?loop)"
    using revert_loop_attempts by (simp add: revertConflictRetries_def)
  have none: "attempts_ok env entries 0 (Inl RevertGet) []" by (simp add: attempts_ok_def)
  show ?thesis
  proof (cases "\<exists>err. RevertWorkload dyn env kind namespace name entries = (Inl err, [])")
    case True then show ?thesis using none by (auto intro!: exI[of _ "Inl RevertGet"])
  next
    case False
    then have "RevertWorkload dyn env kind namespace name entries = (Inl (projl (fst ?loop)), snd ?loop) \<and> isl (fst ?loop) \<or>
      (\<exists>v u. RevertWorkload dyn env kind namespace name entries = (Inr v, snd ?loop) \<and> fst ?loop = Inr u \<and>
         mget (the (as_map v)) ''updated'' = VObj u)"
      by (auto simp: RevertWorkload_def Let_def split: option.splits if_splits prod.splits sum.splits)
    then show ?thesis using loop by (auto simp: isl_def intro!: exI[of _ "fst ?loop"])
  qed
qed

end
