(* ===== verification/GoParse.thy ===== *)
theory GoParse
  imports GoFloat
begin

text \<open>
  Ordering of floats, the other operations of floats and of package \<open>math\<close> the code uses, the verbs \<open>%.1f\<close>
  and \<open>%.0f\<close>, \<open>strconv.ParseFloat\<close> and \<open>strings.ReplaceAll\<close>. A parsed float is the one nearest to the
  number written; an error of syntax or range is \<open>None\<close>.
\<close>

section \<open>Comparison\<close>

definition float_less :: "float64 \<Rightarrow> float64 \<Rightarrow> bool" where
  "float_less x y = (case (x, y) of
     (FFin s1 m1 e1, FFin s2 m2 e2) \<Rightarrow>
       (let e = min e1 e2 in
        (if s1 then -1 else 1) * int m1 * 2 ^ nat (e1 - e) < (if s2 then -1 else 1) * int m2 * 2 ^ nat (e2 - e))
   | (FInf s1, FInf s2) \<Rightarrow> s1 \<and> \<not> s2
   | (FInf s1, FFin _ _ _) \<Rightarrow> s1
   | (FFin _ _ _, FInf s2) \<Rightarrow> \<not> s2
   | _ \<Rightarrow> False)"

definition is_finite :: "float64 \<Rightarrow> bool" where
  "is_finite f = (case f of FFin _ _ _ \<Rightarrow> True | _ \<Rightarrow> False)"

lemma float_less_irrefl [simp]: "\<not> float_less x x"
  by (cases x) (auto simp: float_less_def Let_def)

lemma is_finite_simps [simp]: "is_finite (FFin s m e)" "\<not> is_finite FNaN" "\<not> is_finite (FInf s)"
  by (simp_all add: is_finite_def)

section \<open>\<open>ParseFloat\<close>\<close>

text \<open>The last character seen: none yet, a digit or a base prefix, an underscore, something else.\<close>

datatype seen = SeenNone | SeenDigit | SeenUnderscore | SeenOther

definition is_hex_digit :: "char \<Rightarrow> bool" where
  "is_hex_digit c \<longleftrightarrow> is_digit c \<or> lower_char c \<in> set ''abcdef''"

fun underscore_loop :: "bool \<Rightarrow> seen \<Rightarrow> string \<Rightarrow> bool" where
  "underscore_loop hex saw [] = (saw \<noteq> SeenUnderscore)"
| "underscore_loop hex saw (c # cs) =
     (if is_digit c \<or> hex \<and> is_hex_digit c then underscore_loop hex SeenDigit cs
      else if c = CHR ''_'' then saw = SeenDigit \<and> underscore_loop hex SeenUnderscore cs
      else saw \<noteq> SeenUnderscore \<and> underscore_loop hex SeenOther cs)"

definition strip_sign :: "string \<Rightarrow> bool \<times> string" where
  "strip_sign s = (case s of c # cs \<Rightarrow> if c = CHR ''-'' then (True, cs) else if c = CHR ''+'' then (False, cs) else (False, s) | [] \<Rightarrow> (False, []))"

definition has_base :: "char set \<Rightarrow> string \<Rightarrow> bool" where
  "has_base bs s = (case s of a # b # r \<Rightarrow> a = CHR ''0'' \<and> lower_char b \<in> bs | _ \<Rightarrow> False)"

definition underscoreOK :: "string \<Rightarrow> bool" where
  "underscoreOK s0 = (let s = snd (strip_sign s0) in
     if has_base {CHR ''b'', CHR ''o'', CHR ''x''} s then underscore_loop (has_base {CHR ''x''} s) SeenDigit (drop 2 s)
     else underscore_loop False SeenNone s)"

definition hex_val :: "char \<Rightarrow> nat" where
  "hex_val c = (if is_digit c then of_char c - 48 else of_char (lower_char c) - 87)"

definition digits_val :: "nat \<Rightarrow> string \<Rightarrow> nat" where
  "digits_val b s = foldl (\<lambda>n c. n * b + hex_val c) 0 s"

text \<open>The exponent stops growing once it is out of any range.\<close>

definition exponent_val :: "string \<Rightarrow> int" where
  "exponent_val s = foldl (\<lambda>e c. if e < 10000 then e * 10 + int (hex_val c) else e) 0 s"

text \<open>After the mantissa: nothing, or the exponent letter, a sign and digits.\<close>

definition read_exponent :: "char \<Rightarrow> bool \<Rightarrow> string \<Rightarrow> int option" where
  "read_exponent letter required s = (case s of
     [] \<Rightarrow> if required then None else Some 0
   | c # cs \<Rightarrow>
       if lower_char c \<noteq> letter then None
       else (case strip_sign cs of (neg, ds) \<Rightarrow>
         if ds = [] \<or> \<not> list_all is_digit ds then None else Some (if neg then - exponent_val ds else exponent_val ds)))"

definition read_number :: "(char \<Rightarrow> bool) \<Rightarrow> char \<Rightarrow> bool \<Rightarrow> string \<Rightarrow> (string \<times> nat \<times> int) option" where
  "read_number dig letter required s =
     (let ip = takeWhile dig s; r = dropWhile dig s;
          fp = (case r of c # cs \<Rightarrow> if c = CHR ''.'' then takeWhile dig cs else [] | [] \<Rightarrow> []);
          r2 = (case r of c # cs \<Rightarrow> if c = CHR ''.'' then dropWhile dig cs else r | [] \<Rightarrow> [])
      in if ip @ fp = [] then None
         else map_option (\<lambda>e. (ip @ fp, length fp, e)) (read_exponent letter required r2))"

definition scaled_float :: "bool \<Rightarrow> nat \<Rightarrow> nat \<Rightarrow> int \<Rightarrow> float64" where
  "scaled_float neg n b e = float_of_ratio neg (n * b ^ nat e) (b ^ nat (- e))"

definition parse_digits :: "bool \<Rightarrow> string \<Rightarrow> float64 option" where
  "parse_digits neg s =
     (if has_base {CHR ''x''} s
      then map_option (\<lambda>(ds, k, e). scaled_float neg (digits_val 16 ds) 2 (e - 4 * int k)) (read_number is_hex_digit (CHR ''p'') True (drop 2 s))
      else map_option (\<lambda>(ds, k, e). scaled_float neg (digits_val 10 ds) 10 (e - int k)) (read_number is_digit (CHR ''e'') False s))"

text \<open>A value beyond the largest float is an error of range.\<close>

definition parse_float :: "string \<Rightarrow> float64 option" where
  "parse_float s = (case strip_sign s of (neg, body) \<Rightarrow>
     if to_lower body \<in> {''inf'', ''infinity''} then Some (FInf neg)
     else if to_lower s = ''nan'' then Some FNaN
     else if CHR ''_'' \<in> set s \<and> \<not> underscoreOK s then None
     else (case parse_digits neg (filter (\<lambda>c. c \<noteq> CHR ''_'') body) of
       None \<Rightarrow> None | Some f \<Rightarrow> if is_finite f then Some f else None))"

section \<open>\<open>ReplaceAll\<close>\<close>

fun replace_loop :: "string \<Rightarrow> string \<Rightarrow> nat \<Rightarrow> string \<Rightarrow> string" where
  "replace_loop old new skip [] = []"
| "replace_loop old new (Suc skip) (c # cs) = replace_loop old new skip cs"
| "replace_loop old new 0 (c # cs) =
     (if has_prefix (c # cs) old then new @ replace_loop old new (length old - 1) cs else c # replace_loop old new 0 cs)"

text \<open>For a pattern that is not empty.\<close>

definition replace_all :: "string \<Rightarrow> string \<Rightarrow> string \<Rightarrow> string" where
  "replace_all s old new = replace_loop old new 0 s"

section \<open>Arithmetic\<close>

definition float_neg :: "float64 \<Rightarrow> float64" where
  "float_neg x = (case x of FNaN \<Rightarrow> FNaN | FInf s \<Rightarrow> FInf (\<not> s) | FFin s m e \<Rightarrow> FFin (\<not> s) m e)"

definition float_abs :: "float64 \<Rightarrow> float64" where
  "float_abs x = (case x of FNaN \<Rightarrow> FNaN | FInf s \<Rightarrow> FInf False | FFin s m e \<Rightarrow> FFin False m e)"

definition float_sub :: "float64 \<Rightarrow> float64 \<Rightarrow> float64" where
  "float_sub x y = float_add x (float_neg y)"

definition float_mul :: "float64 \<Rightarrow> float64 \<Rightarrow> float64" where
  "float_mul x y = (case (x, y) of
     (FFin s1 m1 e1, FFin s2 m2 e2) \<Rightarrow> float_of_ratio (s1 \<noteq> s2) (m1 * m2 * 2 ^ nat (e1 + e2)) (2 ^ nat (- (e1 + e2)))
   | (FInf s1, FInf s2) \<Rightarrow> FInf (s1 \<noteq> s2)
   | (FInf s1, FFin s2 m e) \<Rightarrow> if m = 0 then FNaN else FInf (s1 \<noteq> s2)
   | (FFin s1 m e, FInf s2) \<Rightarrow> if m = 0 then FNaN else FInf (s1 \<noteq> s2)
   | _ \<Rightarrow> FNaN)"

definition float_div :: "float64 \<Rightarrow> float64 \<Rightarrow> float64" where
  "float_div x y = (case (x, y) of
     (FFin s1 m1 e1, FFin s2 m2 e2) \<Rightarrow>
       if m2 = 0 then (if m1 = 0 then FNaN else FInf (s1 \<noteq> s2))
       else float_of_ratio (s1 \<noteq> s2) (m1 * 2 ^ nat (e1 - e2)) (m2 * 2 ^ nat (e2 - e1))
   | (FInf s1, FFin s2 m e) \<Rightarrow> FInf (s1 \<noteq> s2)
   | (FFin s1 m e, FInf s2) \<Rightarrow> FFin (s1 \<noteq> s2) 0 0
   | _ \<Rightarrow> FNaN)"

definition float_eq :: "float64 \<Rightarrow> float64 \<Rightarrow> bool" where
  "float_eq x y = (case (x, y) of (FNaN, _) \<Rightarrow> False | (_, FNaN) \<Rightarrow> False | _ \<Rightarrow> \<not> float_less x y \<and> \<not> float_less y x)"

definition float_le :: "float64 \<Rightarrow> float64 \<Rightarrow> bool" where
  "float_le x y \<longleftrightarrow> float_less x y \<or> float_eq x y"

text \<open>\<open>math.Max\<close>: an infinity wins over a NaN, a positive zero over a negative one.\<close>

definition float_max :: "float64 \<Rightarrow> float64 \<Rightarrow> float64" where
  "float_max x y =
     (if x = FInf False \<or> y = FInf False then FInf False
      else if x = FNaN \<or> y = FNaN then FNaN
      else if float_less y x then x
      else if float_less x y then y
      else (case x of FFin True 0 e \<Rightarrow> y | _ \<Rightarrow> x))"

text \<open>The magnitude in units of one, rounded down, and whether something was cut off.\<close>

definition whole_part :: "nat \<Rightarrow> int \<Rightarrow> nat \<times> bool" where
  "whole_part m e = (if 0 \<le> e then (m * 2 ^ nat e, False) else (m div 2 ^ nat (- e), m mod 2 ^ nat (- e) \<noteq> 0))"

definition float_round_with :: "(bool \<Rightarrow> nat \<Rightarrow> int \<Rightarrow> bool) \<Rightarrow> float64 \<Rightarrow> float64" where
  "float_round_with up x = (case x of
     FFin s m e \<Rightarrow> (case whole_part m e of (q, rest) \<Rightarrow> float_of_ratio s (if rest \<and> up s m e then q + 1 else q) 1)
   | _ \<Rightarrow> x)"

definition float_ceil :: "float64 \<Rightarrow> float64" where
  "float_ceil = float_round_with (\<lambda>s m e. \<not> s)"

definition float_floor :: "float64 \<Rightarrow> float64" where
  "float_floor = float_round_with (\<lambda>s m e. s)"

text \<open>\<open>math.Round\<close> rounds half away from zero.\<close>

definition float_round :: "float64 \<Rightarrow> float64" where
  "float_round = float_round_with (\<lambda>s m e. 2 ^ nat (- e) \<le> 2 * (m mod 2 ^ nat (- e)))"

text \<open>\<open>%.kf\<close>: the exact value rounded half to even at \<open>k\<close> digits.\<close>

definition fmt_fixed :: "nat \<Rightarrow> float64 \<Rightarrow> string" where
  "fmt_fixed k x = (case x of
     FNaN \<Rightarrow> ''NaN''
   | FInf s \<Rightarrow> if s then ''-Inf'' else ''+Inf''
   | FFin s m e \<Rightarrow>
       (let n = round_half_even (m * 10 ^ k * 2 ^ nat e) (2 ^ nat (- e)); q = nat_dec (n div 10 ^ k); r = nat_dec (n mod 10 ^ k) in
        (if s then ''-'' else []) @ q @ (if k = 0 then [] else ''.'' @ replicate (k - length r) CHR ''0'' @ r)))"

lemma float_max_finite: "is_finite x \<Longrightarrow> is_finite y \<Longrightarrow> float_max x y = x \<or> float_max x y = y"
  by (cases x) (auto simp: float_max_def split: bool.splits nat.splits)

lemma float_less_asym: "float_less x y \<Longrightarrow> \<not> float_less y x"
  by (cases x; cases y) (auto simp: float_less_def Let_def min.commute)

lemma float_max_zero:
  assumes "float_less float_zero y"
  shows "float_max float_zero y = y"
  using assms float_less_asym[OF assms] by (cases y) (auto simp: float_max_def float_less_def[of _ FNaN])

end
