(* ===== verification/ServiceMap.thy ===== *)
theory ServiceMap
  imports GoParse Owner Rfc3339
begin

text \<open>
  \<open>pkg/servicemap\<close>: the map of applications and the traffic between them. Query results are parsed
  (\<open>parser.go\<close>), accumulated into a graph (\<open>world.go\<close>, \<open>build.go\<close>) and rendered (\<open>render.go\<close>); the window,
  the filters and the query texts come from \<open>service.go\<close> and \<open>queries.go\<close>. Prometheus and ClickHouse are
  the environment. A nil pointer dereference is \<open>None\<close>. Where the result depends on the order in which
  Go iterates over a map, that order is the parameter \<open>it\<close>. The theory proves that building never
  panics, that the rendered map is a closed graph whose two sides agree, and that a failing
  ClickHouse gives the map that Prometheus alone gives.
\<close>

section \<open>Results of queries\<close>

type_synonym labels = "(string, string) gomap"

record prom_result =
  pr_Metric :: labels
  pr_Last :: float64
  pr_HasVal :: bool

text \<open>A decoded response: the status, and per series its labels, the single sample when there is one,
  and the samples.\<close>

record prom_raw =
  rw_Metric :: labels
  rw_Value :: "gval list option"
  rw_Values :: "gval list list"

type_synonym prom_response = "string \<times> prom_raw list"

definition lastValue :: "gval list list \<Rightarrow> float64 option" where
  "lastValue values =
     (if values = [] then None
      else (case last values of
        [ts, VStr s] \<Rightarrow> (case parse_float s of None \<Rightarrow> None | Some v \<Rightarrow> if is_finite v then Some v else None)
      | _ \<Rightarrow> None))"

definition parse_series :: "prom_raw \<Rightarrow> prom_result" where
  "parse_series r =
     (let values = (case rw_Value r of None \<Rightarrow> rw_Values r | Some v \<Rightarrow> [v]) in
      case lastValue values of
        None \<Rightarrow> \<lparr>pr_Metric = rw_Metric r, pr_Last = float_zero, pr_HasVal = False\<rparr>
      | Some v \<Rightarrow> \<lparr>pr_Metric = rw_Metric r, pr_Last = v, pr_HasVal = True\<rparr>)"

text \<open>\<open>decode\<close> is the JSON decoder; \<open>None\<close> is its error.\<close>

definition parsePromResponse :: "(string \<Rightarrow> prom_response option) \<Rightarrow> string \<Rightarrow> prom_result list option" where
  "parsePromResponse decode raw =
     (if raw = [] then Some []
      else (case decode raw of
        None \<Rightarrow> None
      | Some (status, rs) \<Rightarrow> Some (if status \<noteq> ''success'' then [] else map parse_series rs)))"

definition labelOr :: "labels \<Rightarrow> string \<Rightarrow> string \<Rightarrow> string" where
  "labelOr l key fallback = (case map_of l key of Some v \<Rightarrow> if v \<noteq> [] then v else fallback | None \<Rightarrow> fallback)"

section \<open>The world\<close>

record app_id =
  ai_Name :: string
  ai_Kind :: string
  ai_Namespace :: string

record pod_instance =
  in_ID :: app_id
  in_IsFailed :: bool

record application =
  ap_id :: app_id
  ap_labels :: labels
  ap_instances :: "(string, pod_instance) gomap"
  ap_desired :: int

record container_sums =
  cs_oomKills :: float64
  cs_restarts :: float64
  cs_cpuThrottlingTime :: float64
  cs_volumeSize :: float64
  cs_volumeUsed :: float64

record link_accum =
  la_connects :: float64
  la_requests :: float64
  la_failures :: float64
  la_latency :: float64
  la_bytesSent :: float64
  la_bytesRecv :: float64
  la_protocol :: string
  la_protocolRequests :: float64

record world =
  w_applications :: "(string, application) gomap"
  w_podIPToApp :: "(string, string) gomap"
  w_podApp :: "(string, string) gomap"
  w_serviceIPToApp :: "(string, string) gomap"
  w_containerStats :: "(string, container_sums) gomap"
  w_edges :: "(string, (string, link_accum) gomap) gomap"

definition link_zero :: link_accum where
  "link_zero = \<lparr>la_connects = float_zero, la_requests = float_zero, la_failures = float_zero, la_latency = float_zero,
     la_bytesSent = float_zero, la_bytesRecv = float_zero, la_protocol = [], la_protocolRequests = float_zero\<rparr>"

definition requestRate :: "link_accum \<Rightarrow> float64" where
  "requestRate la = (if la_protocol la \<noteq> [] then la_requests la else la_connects la)"

definition newWorld :: world where
  "newWorld = \<lparr>w_applications = [], w_podIPToApp = [], w_podApp = [], w_serviceIPToApp = [], w_containerStats = [], w_edges = []\<rparr>"

definition appKey :: "app_id \<Rightarrow> string" where
  "appKey i = ai_Kind i @ ''/'' @ ai_Namespace i @ ''/'' @ ai_Name i"

definition upsertApp :: "app_id \<Rightarrow> world \<Rightarrow> world" where
  "upsertApp i w = (case map_of (w_applications w) (appKey i) of
     Some a \<Rightarrow> w
   | None \<Rightarrow> w\<lparr>w_applications := map_put (appKey i) \<lparr>ap_id = i, ap_labels = [], ap_instances = [], ap_desired = 0\<rparr> (w_applications w)\<rparr>)"

text \<open>A write through the pointer that \<open>upsertApp\<close> or the map returned.\<close>

definition update_app :: "string \<Rightarrow> (application \<Rightarrow> application) \<Rightarrow> world \<Rightarrow> world" where
  "update_app k f w = (case map_of (w_applications w) k of
     None \<Rightarrow> w | Some a \<Rightarrow> w\<lparr>w_applications := map_put k (f a) (w_applications w)\<rparr>)"

definition containerStatsFor :: "world \<Rightarrow> string \<Rightarrow> container_sums" where
  "containerStatsFor w k = (case map_of (w_containerStats w) k of
     Some s \<Rightarrow> s
   | None \<Rightarrow> \<lparr>cs_oomKills = float_zero, cs_restarts = float_zero, cs_cpuThrottlingTime = float_zero, cs_volumeSize = float_zero,
       cs_volumeUsed = float_zero\<rparr>)"

definition edge_at :: "world \<Rightarrow> string \<Rightarrow> string \<Rightarrow> link_accum option" where
  "edge_at w s d = (case map_of (w_edges w) s of None \<Rightarrow> None | Some dsts \<Rightarrow> map_of dsts d)"

definition put_edge :: "string \<Rightarrow> string \<Rightarrow> link_accum \<Rightarrow> world \<Rightarrow> world" where
  "put_edge s d la w = w\<lparr>w_edges := map_put s (map_put d la (case map_of (w_edges w) s of None \<Rightarrow> [] | Some dsts \<Rightarrow> dsts)) (w_edges w)\<rparr>"

definition addEdge :: "string \<Rightarrow> string \<Rightarrow> world \<Rightarrow> world" where
  "addEdge s d w = (case edge_at w s d of Some la \<Rightarrow> w | None \<Rightarrow> put_edge s d link_zero w)"

definition update_edge :: "string \<times> string \<Rightarrow> (link_accum \<Rightarrow> link_accum) \<Rightarrow> world \<Rightarrow> world" where
  "update_edge e f w = (case edge_at w (fst e) (snd e) of None \<Rightarrow> w | Some la \<Rightarrow> put_edge (fst e) (snd e) (f la) w)"

definition resolveAppByIP :: "world \<Rightarrow> string \<Rightarrow> string" where
  "resolveAppByIP w ip =
     (if ip = [] then []
      else (case map_of (w_podIPToApp w) ip of
        Some k \<Rightarrow> k
      | None \<Rightarrow> (case map_of (w_serviceIPToApp w) ip of Some k \<Rightarrow> k | None \<Rightarrow> [])))"

section \<open>Names\<close>

definition podTemplateHashRe :: "string \<Rightarrow> bool" where
  "podTemplateHashRe t \<longleftrightarrow> list_all (\<lambda>c. c \<in> hash_alphabet) t \<and> 6 \<le> length t \<and> length t \<le> 11"

definition workloadID :: "string \<Rightarrow> string \<Rightarrow> string \<Rightarrow> app_id" where
  "workloadID kind name namespace =
     (let plain = \<lparr>ai_Name = name, ai_Kind = kind, ai_Namespace = namespace\<rparr> in
      if kind = ''ReplicaSet'' then
        (case cut_last (CHR ''-'') name of
           Some (pre, suf) \<Rightarrow> if pre \<noteq> [] \<and> podTemplateHashRe suf
             then \<lparr>ai_Name = pre, ai_Kind = ''Deployment'', ai_Namespace = namespace\<rparr> else plain
         | None \<Rightarrow> plain)
      else plain)"

definition orDefault :: "string \<Rightarrow> string \<Rightarrow> string" where
  "orDefault s fallback = (if s = [] then fallback else s)"

definition with_default_kind :: "app_id \<Rightarrow> app_id" where
  "with_default_kind i = i\<lparr>ai_Kind := orDefault (ai_Kind i) ''Deployment''\<rparr>"

definition nonWorkloadKinds :: "string list" where
  "nonWorkloadKinds = [''localhost'', ''node'', ''external'']"

definition podFromContainerID :: "string \<Rightarrow> (string \<times> string) option" where
  "podFromContainerID i = (case split1 (CHR ''/'') i of
     [a, b, ns, pod, c] \<Rightarrow> if a \<noteq> [] \<or> b \<noteq> ''k8s'' \<or> ns = [] \<or> pod = [] then None else Some (ns, pod)
   | _ \<Rightarrow> None)"

definition podRef :: "string \<Rightarrow> string \<Rightarrow> string" where
  "podRef namespace pod = namespace @ ''/'' @ pod"

definition directOwner :: "labels \<Rightarrow> app_id" where
  "directOwner l =
     (let ns = labelOr l ''namespace'' []; name = labelOr l ''created_by_name'' [] in
      if name = [] then \<lparr>ai_Name = labelOr l ''pod'' [], ai_Kind = ''Pod'', ai_Namespace = ns\<rparr>
      else workloadID (labelOr l ''created_by_kind'' []) name ns)"

definition pod_workload :: "labels \<Rightarrow> (string \<times> app_id) option" where
  "pod_workload l = (case podFromContainerID (labelOr l ''container_id'' []) of
     None \<Rightarrow> None
   | Some (ns, pod) \<Rightarrow>
       (let kind = labelOr l ''src_workload_kind'' []; name = labelOr l ''src_workload_name'' [] in
        if name = [] \<or> kind \<in> set nonWorkloadKinds then None
        else Some (podRef ns pod, with_default_kind (workloadID kind name (labelOr l ''src_workload_namespace'' ns)))))"

definition podWorkloads :: "prom_result list \<Rightarrow> (string, app_id) gomap" where
  "podWorkloads rs = map_from_pairs (List.map_filter (\<lambda>r. pod_workload (pr_Metric r)) rs)"

definition matchesLabelPrefix :: "string \<Rightarrow> bool" where
  "matchesLabelPrefix name \<longleftrightarrow> 6 < length name \<and> take 6 name = ''label_''"

definition stripLabelPrefix :: "string \<Rightarrow> string" where
  "stripLabelPrefix name = drop 6 name"

section \<open>Building: pods and services\<close>

definition add_pod :: "(string, app_id) gomap \<Rightarrow> world \<Rightarrow> prom_result \<Rightarrow> world" where
  "add_pod podWorkload w r =
     (let l = pr_Metric r; ns = labelOr l ''namespace'' []; podName = labelOr l ''pod'' []; podIP = labelOr l ''pod_ip'' [];
          i = (case map_of podWorkload (podRef ns podName) of Some i \<Rightarrow> i | None \<Rightarrow> directOwner l);
          w1 = upsertApp i w;
          w2 = (if podName \<noteq> [] then
                 (update_app (appKey i) (\<lambda>a. a\<lparr>ap_instances := map_put podName
                    \<lparr>in_ID = \<lparr>ai_Name = podName, ai_Kind = ai_Kind i, ai_Namespace = ns\<rparr>, in_IsFailed = False\<rparr> (ap_instances a)\<rparr>) w1)
                 \<lparr>w_podApp := map_put (podRef ns podName) (appKey i) (w_podApp w1)\<rparr>
               else w1)
      in if podIP \<noteq> [] then w2\<lparr>w_podIPToApp := map_put podIP (appKey i) (w_podIPToApp w2)\<rparr> else w2)"

definition add_labels :: "labels \<Rightarrow> application \<Rightarrow> application" where
  "add_labels l a = a\<lparr>ap_labels := foldl (\<lambda>m p. map_put (stripLabelPrefix (fst p)) (snd p) m) (ap_labels a)
     (filter (\<lambda>p. matchesLabelPrefix (fst p)) l)\<rparr>"

definition add_pod_labels :: "world \<Rightarrow> prom_result \<Rightarrow> world" where
  "add_pod_labels w r =
     (let l = pr_Metric r in
      case map_of (w_podApp w) (podRef (labelOr l ''namespace'' []) (labelOr l ''pod'' [])) of
        Some k \<Rightarrow> update_app k (add_labels l) w
      | None \<Rightarrow>
          if labelOr l ''created_by_name'' [] \<noteq> [] then update_app (appKey (directOwner l)) (add_labels l) (upsertApp (directOwner l) w)
          else w)"

text \<open>An instance that is not there reads as the zero value.\<close>

definition set_ready :: "prom_result \<Rightarrow> string \<Rightarrow> application \<Rightarrow> application" where
  "set_ready r podName app =
     (let inst = (case map_of (ap_instances app) podName of
            Some x \<Rightarrow> x | None \<Rightarrow> \<lparr>in_ID = \<lparr>ai_Name = [], ai_Kind = [], ai_Namespace = []\<rparr>, in_IsFailed = False\<rparr>)
      in app\<lparr>ap_instances := map_put podName
           (inst\<lparr>in_IsFailed := (\<not> pr_HasVal r \<or> pr_Last r \<in> {FFin False 0 0, FFin True 0 0})\<rparr>) (ap_instances app)\<rparr>)"

definition add_readiness :: "world \<Rightarrow> prom_result \<Rightarrow> world option" where
  "add_readiness w r =
     (let l = pr_Metric r; podName = labelOr l ''pod'' [] in
      case map_of (w_podApp w) (podRef (labelOr l ''namespace'' []) podName) of
        None \<Rightarrow> Some w
      | Some k \<Rightarrow> (case map_of (w_applications w) k of None \<Rightarrow> None | Some app \<Rightarrow> Some (update_app k (set_ready r podName) w)))"

fun fold_option :: "('s \<Rightarrow> 'a \<Rightarrow> 's option) \<Rightarrow> 's \<Rightarrow> 'a list \<Rightarrow> 's option" where
  "fold_option f s [] = Some s"
| "fold_option f s (x # xs) = (case f s x of None \<Rightarrow> None | Some s' \<Rightarrow> fold_option f s' xs)"

definition add_service :: "world \<Rightarrow> prom_result \<Rightarrow> world" where
  "add_service w r =
     (let l = pr_Metric r; clusterIP = labelOr l ''cluster_ip'' []; svcName = labelOr l ''service'' [];
          i = \<lparr>ai_Name = svcName, ai_Kind = ''Service'', ai_Namespace = labelOr l ''namespace'' []\<rparr> in
      if clusterIP = [] \<or> svcName = [] then w
      else (upsertApp i w)\<lparr>w_serviceIPToApp := map_put clusterIP (appKey i) (w_serviceIPToApp w)\<rparr>)"

definition add_replicas :: "string \<Rightarrow> string \<Rightarrow> world \<Rightarrow> prom_result \<Rightarrow> world" where
  "add_replicas kind labelKey w r =
     (let name = labelOr (pr_Metric r) labelKey [];
          i = \<lparr>ai_Name = name, ai_Kind = kind, ai_Namespace = labelOr (pr_Metric r) ''namespace'' []\<rparr> in
      if name = [] then w
      else if pr_HasVal r then update_app (appKey i) (\<lambda>a. a\<lparr>ap_desired := int_of_float (pr_Last r)\<rparr>) (upsertApp i w)
      else upsertApp i w)"

definition applyReplicaCount :: "prom_result list \<Rightarrow> string \<Rightarrow> string \<Rightarrow> world \<Rightarrow> world" where
  "applyReplicaCount rs kind labelKey w = foldl (add_replicas kind labelKey) w rs"

definition add_stat :: "(container_sums \<Rightarrow> float64 \<Rightarrow> container_sums) \<Rightarrow> world \<Rightarrow> prom_result \<Rightarrow> world" where
  "add_stat accumulate w r =
     (if \<not> pr_HasVal r then w
      else (case podFromContainerID (labelOr (pr_Metric r) ''container_id'' []) of
        None \<Rightarrow> w
      | Some (ns, pod) \<Rightarrow> (case map_of (w_podApp w) (podRef ns pod) of
          None \<Rightarrow> w
        | Some k \<Rightarrow> w\<lparr>w_containerStats := map_put k (accumulate (containerStatsFor w k) (pr_Last r)) (w_containerStats w)\<rparr>)))"

definition addContainerStat :: "prom_result list \<Rightarrow> (container_sums \<Rightarrow> float64 \<Rightarrow> container_sums) \<Rightarrow> world \<Rightarrow> world" where
  "addContainerStat rs accumulate w = foldl (add_stat accumulate) w rs"

section \<open>Building: edges\<close>

type_synonym app_order = "(string, application) gomap \<Rightarrow> (string, application) gomap"

definition resolveApp :: "app_order \<Rightarrow> world \<Rightarrow> string \<Rightarrow> string \<Rightarrow> string \<Rightarrow> string option" where
  "resolveApp it w kind name namespace =
     (let i = workloadID kind name namespace in
      if ai_Kind i \<noteq> [] \<and> map_of (w_applications w) (appKey i) \<noteq> None then Some (appKey i)
      else map_option fst (find (\<lambda>p. ai_Name (ap_id (snd p)) = ai_Name i \<and> ai_Namespace (ap_id (snd p)) = namespace) (it (w_applications w))))"

text \<open>The key of a named end of a connection; an unknown workload is registered.\<close>

definition named_end :: "app_order \<Rightarrow> world \<Rightarrow> string \<Rightarrow> string \<Rightarrow> string \<Rightarrow> world \<times> string" where
  "named_end it w kind name namespace = (case resolveApp it w kind name namespace of
     Some k \<Rightarrow> (w, k)
   | None \<Rightarrow> (let i = with_default_kind (workloadID kind name namespace) in (upsertApp i w, appKey i)))"

definition edgeFromConnectionLabels :: "app_order \<Rightarrow> world \<Rightarrow> labels \<Rightarrow> world \<times> (string \<times> string) option" where
  "edgeFromConnectionLabels it w l =
     (let srcKind = labelOr l ''src_workload_kind'' (labelOr l ''src_kind'' []);
          srcName = labelOr l ''src_workload_name'' [] in
      if srcName = [] \<or> srcKind \<in> set nonWorkloadKinds then (w, None)
      else (case named_end it w srcKind srcName (labelOr l ''src_workload_namespace'' []) of
        (w1, srcK) \<Rightarrow>
          (let dstName = labelOr l ''destination_workload_name'' [] in
           case (if dstName \<noteq> [] then named_end it w1 (labelOr l ''destination_workload_kind'' []) dstName
                   (labelOr l ''destination_workload_namespace'' [])
                 else (w1, resolveAppByIP w1 (labelOr l ''destination_ip'' []))) of
             (w2, dstK) \<Rightarrow> if dstK = [] \<or> dstK = srcK then (w2, None) else (addEdge srcK dstK w2, Some (srcK, dstK)))))"

text \<open>The function given to \<open>forEachEdge\<close> works on the world, the edge and a state of the caller.\<close>

definition edge_series ::
  "app_order \<Rightarrow> (string \<times> string \<Rightarrow> prom_result \<Rightarrow> 's \<Rightarrow> 's) \<Rightarrow> (prom_result \<Rightarrow> link_accum \<Rightarrow> link_accum) \<Rightarrow> world \<times> 's \<Rightarrow> prom_result \<Rightarrow> world \<times> 's" where
  "edge_series it g fn ws r =
     (if \<not> pr_HasVal r then ws
      else (case edgeFromConnectionLabels it (fst ws) (pr_Metric r) of
        (w', None) \<Rightarrow> (w', snd ws)
      | (w', Some e) \<Rightarrow> (update_edge e (fn r) w', g e r (snd ws))))"

definition forEachEdge :: "app_order \<Rightarrow> (prom_result \<Rightarrow> link_accum \<Rightarrow> link_accum) \<Rightarrow> prom_result list \<Rightarrow> world \<Rightarrow> world" where
  "forEachEdge it fn rs w = fst (foldl (edge_series it (\<lambda>_ _ u. u) fn) (w, ()) rs)"

section \<open>Protocols and queries\<close>

record l7_protocol =
  lp_name :: string
  lp_requests :: string
  lp_latency :: string
  lp_failed :: "string \<Rightarrow> bool"

definition httpFailed :: "string \<Rightarrow> bool" where
  "httpFailed status \<longleftrightarrow> length status = 3 \<and> (hd status = CHR ''4'' \<or> hd status = CHR ''5'')"

definition statusFailed :: "string \<Rightarrow> bool" where
  "statusFailed status \<longleftrightarrow> status = ''failed''"

definition dnsFailed :: "string \<Rightarrow> bool" where
  "dnsFailed status \<longleftrightarrow> status \<noteq> ''ok'' \<and> status \<noteq> ''nxdomain''"

definition l7 :: "string \<Rightarrow> string \<Rightarrow> bool \<Rightarrow> (string \<Rightarrow> bool) \<Rightarrow> l7_protocol" where
  "l7 name what timed failed = \<lparr>lp_name = name, lp_requests = ''container_'' @ what @ ''_total'',
     lp_latency = (if timed then ''container_'' @ what @ ''_duration_seconds_total'' else []), lp_failed = failed\<rparr>"

definition l7Protocols :: "l7_protocol list" where
  "l7Protocols =
     [l7 ''HTTP'' ''http_requests'' True httpFailed, l7 ''Postgres'' ''postgres_queries'' True statusFailed,
      l7 ''MySQL'' ''mysql_queries'' True statusFailed, l7 ''MongoDB'' ''mongo_queries'' True statusFailed,
      l7 ''Redis'' ''redis_queries'' True statusFailed, l7 ''Memcached'' ''memcached_queries'' True statusFailed,
      l7 ''Cassandra'' ''cassandra_queries'' True statusFailed, l7 ''ClickHouse'' ''clickhouse_queries'' True statusFailed,
      l7 ''FoundationDB'' ''foundationdb_requests'' True statusFailed, l7 ''Zookeeper'' ''zookeeper_requests'' True statusFailed,
      l7 ''Kafka'' ''kafka_requests'' True statusFailed, l7 ''RabbitMQ'' ''rabbitmq_messages'' False statusFailed,
      l7 ''NATS'' ''nats_messages'' False statusFailed, l7 ''Dubbo'' ''dubbo_requests'' True statusFailed,
      l7 ''DNS'' ''dns_requests'' True dnsFailed]"

definition l7RequestsKey :: "l7_protocol \<Rightarrow> string" where "l7RequestsKey p = ''l7_requests:'' @ lp_name p"
definition l7LatencyKey :: "l7_protocol \<Rightarrow> string" where "l7LatencyKey p = ''l7_latency:'' @ lp_name p"

section \<open>Building\<close>

type_synonym prom_metrics = "(string, prom_result list) gomap"

definition series :: "prom_metrics \<Rightarrow> string \<Rightarrow> prom_result list" where
  "series metrics key = (case map_of metrics key of None \<Rightarrow> [] | Some rs \<Rightarrow> rs)"

definition count_requests :: "string \<times> string \<Rightarrow> prom_result \<Rightarrow> (string \<times> string, float64) gomap \<Rightarrow> (string \<times> string, float64) gomap" where
  "count_requests e r perEdge =
     map_put e (float_add (case map_of perEdge e of None \<Rightarrow> float_zero | Some n \<Rightarrow> n) (pr_Last r)) perEdge"

definition count_failures :: "l7_protocol \<Rightarrow> prom_result \<Rightarrow> link_accum \<Rightarrow> link_accum" where
  "count_failures p r la =
     (if lp_failed p (labelOr (pr_Metric r) ''status'' []) then la\<lparr>la_failures := float_add (la_failures la) (pr_Last r)\<rparr> else la)"

definition busiest :: "l7_protocol \<Rightarrow> float64 \<Rightarrow> link_accum \<Rightarrow> link_accum" where
  "busiest p n la =
     (let la1 = la\<lparr>la_requests := float_add (la_requests la) n\<rparr> in
      if float_less (la_protocolRequests la) n then la1\<lparr>la_protocol := lp_name p, la_protocolRequests := n\<rparr> else la1)"

definition slowest :: "prom_result \<Rightarrow> link_accum \<Rightarrow> link_accum" where
  "slowest r la = (if float_less (la_latency la) (pr_Last r) then la\<lparr>la_latency := pr_Last r\<rparr> else la)"

definition add_protocol :: "app_order \<Rightarrow> prom_metrics \<Rightarrow> world \<Rightarrow> l7_protocol \<Rightarrow> world" where
  "add_protocol it metrics w p =
     (case foldl (edge_series it count_requests (count_failures p)) (w, []) (series metrics (l7RequestsKey p)) of
        (w1, perEdge) \<Rightarrow>
          forEachEdge it slowest (series metrics (l7LatencyKey p)) (foldl (\<lambda>w e. update_edge (fst e) (busiest p (snd e)) w) w1 perEdge))"

definition add_replica_counts :: "prom_metrics \<Rightarrow> world \<Rightarrow> world" where
  "add_replica_counts metrics w =
     applyReplicaCount (series metrics ''kube_daemonset_status_desired_number_scheduled'') ''DaemonSet'' ''daemonset''
      (applyReplicaCount (series metrics ''kube_statefulset_replicas'') ''StatefulSet'' ''statefulset''
       (applyReplicaCount (series metrics ''kube_deployment_spec_replicas'') ''Deployment'' ''deployment'' w))"

definition add_container_stats :: "prom_metrics \<Rightarrow> world \<Rightarrow> world" where
  "add_container_stats metrics w =
     addContainerStat (series metrics ''container_volume_used'') (\<lambda>s v. s\<lparr>cs_volumeUsed := float_add (cs_volumeUsed s) v\<rparr>)
      (addContainerStat (series metrics ''container_volume_size'') (\<lambda>s v. s\<lparr>cs_volumeSize := float_add (cs_volumeSize s) v\<rparr>)
       (addContainerStat (series metrics ''container_throttled_time'') (\<lambda>s v. s\<lparr>cs_cpuThrottlingTime := float_add (cs_cpuThrottlingTime s) v\<rparr>)
        (addContainerStat (series metrics ''container_restarts'') (\<lambda>s v. s\<lparr>cs_restarts := float_add (cs_restarts s) v\<rparr>)
         (addContainerStat (series metrics ''container_oom_kills_total'') (\<lambda>s v. s\<lparr>cs_oomKills := float_add (cs_oomKills s) v\<rparr>) w))))"

definition add_edges :: "app_order \<Rightarrow> prom_metrics \<Rightarrow> world \<Rightarrow> world" where
  "add_edges it metrics w =
     (let w1 = forEachEdge it (\<lambda>r la. la\<lparr>la_connects := float_add (la_connects la) (pr_Last r)\<rparr>)
                 (series metrics ''container_net_tcp_successful_connects'') w;
          w2 = foldl (add_protocol it metrics) w1 l7Protocols;
          w3 = forEachEdge it (\<lambda>r la. la\<lparr>la_bytesSent := float_add (la_bytesSent la) (pr_Last r)\<rparr>)
                 (series metrics ''container_net_tcp_bytes_sent'') w2
      in forEachEdge it (\<lambda>r la. la\<lparr>la_bytesRecv := float_add (la_bytesRecv la) (pr_Last r)\<rparr>)
           (series metrics ''container_net_tcp_bytes_received'') w3)"

definition build :: "app_order \<Rightarrow> prom_metrics \<Rightarrow> world option" where
  "build it metrics =
     (let w1 = foldl (add_pod (podWorkloads (series metrics ''pod_workload''))) newWorld (series metrics ''kube_pod_info'');
          w2 = foldl add_pod_labels w1 (series metrics ''kube_pod_labels'') in
      case fold_option add_readiness w2 (series metrics ''kube_pod_status_ready'') of
        None \<Rightarrow> None
      | Some w3 \<Rightarrow>
          Some (add_edges it metrics (add_container_stats metrics (add_replica_counts metrics
            (foldl add_service w3 (series metrics ''kube_service_info''))))))"

section \<open>Rendering\<close>

record link_body =
  lk_Weight :: float64
  lk_Latency :: float64
  lk_RequestCount :: float64
  lk_FailureCount :: float64
  lk_Protocol :: string
  lk_BytesSent :: float64
  lk_BytesReceived :: float64

record upstream_link = link_body +
  ul_ID :: string

record downstream_link = link_body +
  dl_ID :: app_id

record rendered_app =
  ra_ID :: app_id
  ra_Labels :: labels
  ra_Upstreams :: "upstream_link list"
  ra_Downstreams :: "downstream_link list"
  ra_Instances :: "pod_instance list"
  ra_DesiredInstances :: int
  ra_FailedInstances :: nat
  ra_OOMKills :: int
  ra_Restarts :: int
  ra_CPUThrottlingTime :: float64
  ra_VolumeSize :: float64
  ra_VolumeUsed :: float64
  ra_IsHealthy :: bool
  ra_HealthReason :: string

text \<open>The members that are constant (\<open>Status\<close>, \<open>Stats\<close>, \<open>Indicators\<close>, \<open>Type\<close>, \<open>Category\<close>) are left out.\<close>

definition idToText :: "app_id \<Rightarrow> string" where
  "idToText i = ai_Namespace i @ '':'' @ ai_Kind i @ '':'' @ ai_Name i"

definition saneFloat :: "float64 \<Rightarrow> float64" where
  "saneFloat v = (if is_finite v then v else float_zero)"

definition saneInt :: "float64 \<Rightarrow> int" where
  "saneInt v = (if is_finite v then int_of_float v else 0)"

definition protocolOrDefault :: "string \<Rightarrow> string" where
  "protocolOrDefault p = (if p = [] then ''Unknown'' else p)"

definition upstream_of :: "app_id \<Rightarrow> link_accum \<Rightarrow> upstream_link" where
  "upstream_of dst la = \<lparr>lk_Weight = saneFloat (requestRate la), lk_Latency = saneFloat (la_latency la),
     lk_RequestCount = saneFloat (requestRate la), lk_FailureCount = saneFloat (la_failures la), lk_Protocol = protocolOrDefault (la_protocol la),
     lk_BytesSent = saneFloat (la_bytesSent la), lk_BytesReceived = saneFloat (la_bytesRecv la), ul_ID = idToText dst\<rparr>"

definition downstream_of :: "app_id \<Rightarrow> link_accum \<Rightarrow> downstream_link" where
  "downstream_of src la = \<lparr>lk_Weight = saneFloat (requestRate la), lk_Latency = saneFloat (la_latency la),
     lk_RequestCount = saneFloat (requestRate la), lk_FailureCount = saneFloat (la_failures la), lk_Protocol = protocolOrDefault (la_protocol la),
     lk_BytesSent = saneFloat (la_bytesSent la), lk_BytesReceived = saneFloat (la_bytesRecv la), dl_ID = src\<rparr>"

text \<open>The destinations of an application, with the registered application at the other end; and its
  sources, read through the inverse index.\<close>

definition out_links :: "world \<Rightarrow> string \<Rightarrow> (string \<times> application \<times> link_accum) list" where
  "out_links w k = (case map_of (w_edges w) k of
     None \<Rightarrow> []
   | Some dsts \<Rightarrow> List.map_filter (\<lambda>(d, la). map_option (\<lambda>dst. (d, dst, la)) (map_of (w_applications w) d)) dsts)"

definition in_links :: "world \<Rightarrow> string \<Rightarrow> (string \<times> application \<times> link_accum) list" where
  "in_links w k = List.map_filter (\<lambda>(s, dsts). case map_of dsts k of
       None \<Rightarrow> None | Some la \<Rightarrow> map_option (\<lambda>src. (s, src, la)) (map_of (w_applications w) s)) (w_edges w)"

definition render_app :: "world \<Rightarrow> string \<Rightarrow> application \<Rightarrow> rendered_app" where
  "render_app w k a =
     (let failed = length (filter (\<lambda>p. in_IsFailed (snd p)) (ap_instances a));
          st = map_of (w_containerStats w) k;
          oom = (case st of None \<Rightarrow> 0 | Some s \<Rightarrow> saneInt (cs_oomKills s));
          restarts = (case st of None \<Rightarrow> 0 | Some s \<Rightarrow> saneInt (cs_restarts s))
      in \<lparr>ra_ID = ap_id a, ra_Labels = ap_labels a,
          ra_Upstreams = map (\<lambda>(d, dst, la). upstream_of (ap_id dst) la) (out_links w k),
          ra_Downstreams = map (\<lambda>(s, src, la). downstream_of (ap_id src) la) (in_links w k),
          ra_Instances = map snd (ap_instances a), ra_DesiredInstances = ap_desired a, ra_FailedInstances = failed,
          ra_OOMKills = oom, ra_Restarts = restarts,
          ra_CPUThrottlingTime = (case st of None \<Rightarrow> float_zero | Some s \<Rightarrow> saneFloat (cs_cpuThrottlingTime s)),
          ra_VolumeSize = (case st of None \<Rightarrow> float_zero | Some s \<Rightarrow> saneFloat (cs_volumeSize s)),
          ra_VolumeUsed = (case st of None \<Rightarrow> float_zero | Some s \<Rightarrow> saneFloat (cs_volumeUsed s)),
          ra_IsHealthy = (\<not> 0 < oom \<and> \<not> 0 < restarts \<and> \<not> 0 < failed),
          ra_HealthReason = (if 0 < failed then ''FailedInstances'' else if 0 < restarts then ''Restarts'' else if 0 < oom then ''OOMKills'' else [])\<rparr>)"

text \<open>The keys marked by the links of all applications.\<close>

definition used_keys :: "world \<Rightarrow> string set" where
  "used_keys w = (\<Union>(k, a) \<in> set (w_applications w).
     (if out_links w k \<noteq> [] \<or> in_links w k \<noteq> [] then {k} else {}) \<union> fst ` set (out_links w k) \<union> fst ` set (in_links w k))"

definition render :: "world \<Rightarrow> rendered_app list" where
  "render w = filter (\<lambda>a. appKey (ra_ID a) \<in> used_keys w) (map (\<lambda>(k, a). render_app w k a) (w_applications w))"

section \<open>Query texts\<close>

definition edgeGroupBy :: string where
  "edgeGroupBy = ''src_workload_kind, src_kind, src_workload_name, '' @ ''src_workload_namespace, destination_workload_kind, '' @
     ''destination_workload_name, destination_workload_namespace, destination_ip''"

definition nodeQueries :: "(string, string) gomap" where
  "nodeQueries =
     [(''kube_pod_info'', ''kube_pod_info{__CLUSTER__} unless on (cluster, namespace, pod) (kube_pod_status_phase{__CLUSTER__ phase=\"Succeeded\"} == 1)''),
      (''pod_workload'', ''count by (container_id, src_workload_kind, src_workload_name, src_workload_namespace) (container_net_tcp_bytes_sent_total{__CLUSTER__})''),
      (''kube_pod_labels'', ''kube_pod_labels{__CLUSTER__}''),
      (''kube_pod_status_ready'', ''kube_pod_status_ready{__CLUSTER__ condition=\"true\"}''),
      (''kube_service_info'', ''kube_service_info{__CLUSTER__}''),
      (''kube_deployment_spec_replicas'', ''kube_deployment_spec_replicas{__CLUSTER__}''),
      (''kube_daemonset_status_desired_number_scheduled'', ''kube_daemonset_status_desired_number_scheduled{__CLUSTER__}''),
      (''kube_statefulset_replicas'', ''kube_statefulset_replicas{__CLUSTER__}''),
      (''container_oom_kills_total'', ''increase(container_oom_kills_total{__CLUSTER__}[$RANGE]) % 10000000''),
      (''container_restarts'', ''increase(container_restarts_total{__CLUSTER__}[$RANGE]) % 10000000''),
      (''container_throttled_time'', ''rate(container_resources_cpu_throttled_seconds_total{__CLUSTER__}[$RANGE])''),
      (''container_volume_size'', ''container_resources_disk_size_bytes{__CLUSTER__}''),
      (''container_volume_used'', ''container_resources_disk_used_bytes{__CLUSTER__}'')]"

record edge_metric =
  em_key :: string
  em_agg :: string
  em_by :: string
  em_expr :: string

definition protocol_metrics :: "l7_protocol \<Rightarrow> edge_metric list" where
  "protocol_metrics p =
     \<lparr>em_key = l7RequestsKey p, em_agg = ''sum'', em_by = ''status'', em_expr = ''rate('' @ lp_requests p @ ''{__EDGE__}[$RANGE])''\<rparr> #
     (if lp_latency p \<noteq> [] then
        [\<lparr>em_key = l7LatencyKey p, em_agg = ''max'', em_by = [],
          em_expr = ''rate('' @ lp_latency p @ ''_sum{__EDGE__}[$RANGE]) / (rate('' @ lp_latency p @ ''_count{__EDGE__}[$RANGE]) > 0)''\<rparr>]
      else [])"

definition tcp_metric :: "string \<Rightarrow> edge_metric" where
  "tcp_metric key = \<lparr>em_key = key, em_agg = ''sum'', em_by = [], em_expr = ''rate('' @ key @ ''_total{__EDGE__}[$RANGE])''\<rparr>"

definition edgeMetrics :: "edge_metric list" where
  "edgeMetrics =
     map tcp_metric [''container_net_tcp_successful_connects'', ''container_net_tcp_bytes_sent'', ''container_net_tcp_bytes_received''] @
     concat (map protocol_metrics l7Protocols)"

definition edgeQuery :: "edge_metric \<Rightarrow> bool \<Rightarrow> string" where
  "edgeQuery m filtered =
     (let edge = (\<lambda>r. replace_all (em_expr m) ''__EDGE__'' r);
          inner = (if filtered then ''('' @ edge ''__CLUSTER__ $SRC_FILTER,'' @ '') or ('' @ edge ''__CLUSTER__ $DST_FILTER,'' @ '')''
                   else edge ''__CLUSTER__'');
          by' = (if em_by m \<noteq> [] then edgeGroupBy @ '', '' @ em_by m else edgeGroupBy)
      in em_agg m @ '' by ('' @ by' @ '') ('' @ inner @ '') > 0'')"

definition buildQueries :: "bool \<Rightarrow> (string, string) gomap" where
  "buildQueries filtered = foldl (\<lambda>out m. map_put (em_key m) (edgeQuery m filtered) out) nodeQueries edgeMetrics"

definition expandPlaceholders :: "string \<Rightarrow> string \<Rightarrow> string \<Rightarrow> string \<Rightarrow> string \<Rightarrow> string \<Rightarrow> string \<Rightarrow> string" where
  "expandPlaceholders query rangeStep srcFilter dstFilter podFilter nsFilter clusterFilter =
     replace_all (replace_all (replace_all (replace_all (replace_all (replace_all query ''$RANGE'' rangeStep) ''$SRC_FILTER'' srcFilter)
       ''$DST_FILTER'' dstFilter) ''$POD_FILTER'' podFilter) ''$NAMESPACE_FILTER'' nsFilter) ''__CLUSTER__'' clusterFilter"

definition dictToPrometheusFilter :: "(string, string) gomap \<Rightarrow> string" where
  "dictToPrometheusFilter m =
     join '','' (map (\<lambda>p. fst p @ ''=~\"'' @ (if contains (snd p) ''%'' then replace_all (snd p) ''%'' ''.*'' else snd p) @ ''\"'') m)"

section \<open>The action\<close>

record filter_params =
  fp_WorkloadName :: string
  fp_WorkloadNamespace :: string
  fp_StartTime :: string
  fp_EndTime :: string
  fp_Duration :: int

definition parseFilterParams :: "gmap \<Rightarrow> filter_params" where
  "parseFilterParams p =
     (let wf = get_map p ''workload_filter''; name = as_str (mget p ''workload_name''); ns = as_str (mget p ''workload_namespace'') in
      \<lparr>fp_WorkloadName = (if name = [] then oget_str wf ''workload_name'' else name),
       fp_WorkloadNamespace = (if ns = [] then oget_str wf ''workload_namespace'' else ns),
       fp_StartTime = as_str (mget p ''r_start_time''), fp_EndTime = as_str (mget p ''r_end_time''),
       fp_Duration = (case mget p ''duration'' of VFloat f \<Rightarrow> int_of_float f | _ \<Rightarrow> 0)\<rparr>)"

definition minWindow :: duration where "minWindow = 5 * minute"

text \<open>The end of the window and its length.\<close>

definition map_window :: "time \<Rightarrow> filter_params \<Rightarrow> time \<times> duration" where
  "map_window now p =
     (let e = (case parse_rfc3339 (fp_EndTime p) of Some t \<Rightarrow> t | None \<Rightarrow> now);
          durationMin = (if fp_Duration p \<le> 0 then 1440 else fp_Duration p);
          start = (case parse_rfc3339 (fp_StartTime p) of Some t \<Rightarrow> t | None \<Rightarrow> time_add e (wrap64 (- durationMin * minute)))
      in (e, max minWindow (time_sub e start)))"

text \<open>\<open>int64(d.Seconds())\<close>, which goes through a float.\<close>

definition whole_seconds :: "duration \<Rightarrow> int" where
  "whole_seconds d = int_of_float (float_add (float_of_int (d div second)) (float_div_nat (float_of_int (d mod second)) 1000000000))"

definition expand_query :: "string \<Rightarrow> filter_params \<Rightarrow> duration \<Rightarrow> string \<Rightarrow> string" where
  "expand_query cluster p window q =
     (let named = fp_WorkloadName p \<noteq> []; spaced = fp_WorkloadNamespace p \<noteq> [];
          side = (\<lambda>pre. if named then dictToPrometheusFilter [(pre @ ''_workload_name'', fp_WorkloadName p), (pre @ ''_workload_namespace'', fp_WorkloadNamespace p)]
             else if spaced then dictToPrometheusFilter [(pre @ ''_workload_namespace'', fp_WorkloadNamespace p)] else []);
          pod = (if named then dictToPrometheusFilter [(''pod'', fp_WorkloadName p @ ''%'')] else ''pod=~\".*\"'');
          ns = (if named \<or> spaced then dictToPrometheusFilter [(''namespace'', fp_WorkloadNamespace p)] else []);
          cl = (if cluster \<noteq> [] then ''cluster=\"'' @ cluster @ ''\",'' else [])
      in expandPlaceholders q (int_dec (whole_seconds window) @ ''s'') (side ''src'') (side ''destination'') pod ns cl)"

definition query_list :: "filter_params \<Rightarrow> (string, string) gomap" where
  "query_list p = buildQueries (fp_WorkloadName p \<noteq> [] \<or> fp_WorkloadNamespace p \<noteq> [])"

datatype source = SourcePrometheus | SourceClickHouse | SourceShadow

definition ParseSource :: "string \<Rightarrow> source \<times> bool" where
  "ParseSource v = (let s = to_lower (trim_space v) in
     if s = [] \<or> s = ''prometheus'' then (SourcePrometheus, True)
     else if s = ''clickhouse'' then (SourceClickHouse, True)
     else if s = ''shadow'' then (SourceShadow, True)
     else (SourcePrometheus, False))"

record map_service =
  ms_Prom :: bool
  ms_ClusterName :: string
  ms_CH :: bool
  ms_Source :: source

text \<open>What a build meets: the answer to a query at a time (\<open>None\<close> on any error), what ClickHouse has for the
  window, and whether the context ended by the time the metrics are there.\<close>

record map_env =
  me_query :: "string \<Rightarrow> string \<Rightarrow> prom_result list option"
  me_summary :: "time \<Rightarrow> time \<Rightarrow> filter_params \<Rightarrow> prom_metrics option"
  me_done :: bool

definition fetchProm :: "map_env \<Rightarrow> (string \<Rightarrow> string) \<Rightarrow> string \<Rightarrow> (string, string) gomap \<Rightarrow> prom_metrics" where
  "fetchProm env expand endStr queryList =
     List.map_filter (\<lambda>p. map_option (Pair (fst p)) (me_query env (expand (snd p)) endStr)) queryList"

definition kubeKeys :: "(string, 'v) gomap \<Rightarrow> (string, 'v) gomap" where
  "kubeKeys m = filter (\<lambda>p. has_prefix (fst p) ''kube_'') m"

definition maps_Copy :: "('k, 'v) gomap \<Rightarrow> ('k, 'v) gomap \<Rightarrow> ('k, 'v) gomap" where
  "maps_Copy dst src = foldl (\<lambda>m p. map_put (fst p) (snd p) m) dst src"

definition clickhouseMetrics :: "prom_metrics option \<Rightarrow> (string, string) gomap \<Rightarrow> ((string, string) gomap \<Rightarrow> prom_metrics) \<Rightarrow> prom_metrics" where
  "clickhouseMetrics summary queryList fetch =
     (let kube = kubeKeys queryList; metrics = fetch kube in
      case summary of
        Some ch \<Rightarrow> maps_Copy metrics ch
      | None \<Rightarrow> maps_Copy metrics (fetch (filter (\<lambda>p. map_of kube (fst p) = None) queryList)))"

definition service_source :: "map_service \<Rightarrow> source" where
  "service_source s = (if \<not> ms_CH s then SourcePrometheus else ms_Source s)"

datatype map_err = PromNotConfigured | CtxEnded

text \<open>\<open>None\<close> is a panic.\<close>

definition Build :: "app_order \<Rightarrow> map_env \<Rightarrow> time \<Rightarrow> map_service \<Rightarrow> filter_params \<Rightarrow> (map_err + rendered_app list) option" where
  "Build it env now s p =
     (if \<not> ms_Prom s then Some (Inl PromNotConfigured)
      else (case map_window now p of (e, window) \<Rightarrow>
        (let fetch = fetchProm env (expand_query (ms_ClusterName s) p window) (int_dec (time_unix e));
             metrics = (if service_source s = SourceClickHouse
               then clickhouseMetrics (me_summary env (time_add e (- window)) e p) (query_list p) fetch
               else fetch (query_list p))
         in if me_done env then Some (Inl CtxEnded) else map_option (\<lambda>w. Inr (render w)) (build it metrics))))"

section \<open>The graph is well formed\<close>

definition known :: "world \<Rightarrow> string set" where
  "known w = dom (map_of (w_applications w))"

text \<open>Every application stands under its key, every index points to an application, and every edge joins
  two different applications.\<close>

definition wf_world :: "world \<Rightarrow> bool" where
  "wf_world w \<longleftrightarrow> wf_map (w_applications w) \<and> (\<forall>k a. map_of (w_applications w) k = Some a \<longrightarrow> appKey (ap_id a) = k) \<and>
     ran (map_of (w_podIPToApp w)) \<subseteq> known w \<and> ran (map_of (w_podApp w)) \<subseteq> known w \<and> ran (map_of (w_serviceIPToApp w)) \<subseteq> known w \<and>
     wf_map (w_edges w) \<and> (\<forall>s dsts. map_of (w_edges w) s = Some dsts \<longrightarrow> wf_map dsts) \<and>
     (\<forall>s d la. edge_at w s d = Some la \<longrightarrow> s \<in> known w \<and> d \<in> known w \<and> s \<noteq> d)"

definition iterates :: "app_order \<Rightarrow> bool" where
  "iterates it \<longleftrightarrow> (\<forall>m. set (it m) = set m)"

lemma appKey_ne [simp]: "appKey i \<noteq> []"
  by (simp add: appKey_def)

lemma wf_newWorld: "wf_world newWorld"
  by (simp add: wf_world_def newWorld_def known_def edge_at_def)

lemma known_upsert [simp]: "known (upsertApp i w) = insert (appKey i) (known w)"
  by (auto simp: known_def upsertApp_def split: option.splits)

lemma edge_at_upsert [simp]: "edge_at (upsertApp i w) = edge_at w"
  by (auto simp: fun_eq_iff edge_at_def upsertApp_def split: option.splits)

lemma upsert_fields [simp]:
  "w_podIPToApp (upsertApp i w) = w_podIPToApp w" "w_podApp (upsertApp i w) = w_podApp w"
  "w_serviceIPToApp (upsertApp i w) = w_serviceIPToApp w" "w_edges (upsertApp i w) = w_edges w"
  by (simp_all add: upsertApp_def split: option.splits)

lemma upsert_keys:
  "map_of (w_applications (upsertApp i w)) k = Some a \<Longrightarrow> map_of (w_applications w) k = Some a \<or> k = appKey i \<and> ap_id a = i"
  by (auto simp: upsertApp_def split: option.splits if_splits)

lemma wf_upsert [simp]: "wf_world w \<Longrightarrow> wf_world (upsertApp i w)"
proof -
  assume w: "wf_world w"
  then have "wf_map (w_applications (upsertApp i w))" by (simp add: wf_world_def upsertApp_def split: option.splits)
  with w show ?thesis unfolding wf_world_def known_upsert edge_at_upsert upsert_fields
    using upsert_keys[of i w] by blast
qed

lemma wf_update_app:
  assumes "wf_world w" "\<And>a. ap_id (f a) = ap_id a"
  shows "wf_world (update_app k f w)" "known (update_app k f w) = known w"
proof -
  show kn: "known (update_app k f w) = known w" by (auto simp: update_app_def known_def split: option.splits)
  show "wf_world (update_app k f w)"
    using assms kn unfolding wf_world_def by (auto simp: update_app_def edge_at_def split: option.splits if_splits)
qed

lemma update_app_fields [simp]:
  "w_podIPToApp (update_app k f w) = w_podIPToApp w" "w_podApp (update_app k f w) = w_podApp w"
  "w_serviceIPToApp (update_app k f w) = w_serviceIPToApp w"
  by (simp_all add: update_app_def split: option.splits)

lemma wf_index:
  assumes "wf_world w" "k \<in> known w"
  shows "wf_world (w\<lparr>w_podApp := map_put p k (w_podApp w)\<rparr>)" "wf_world (w\<lparr>w_podIPToApp := map_put p k (w_podIPToApp w)\<rparr>)"
    "wf_world (w\<lparr>w_serviceIPToApp := map_put p k (w_serviceIPToApp w)\<rparr>)"
  using assms by (auto simp: wf_world_def known_def edge_at_def ran_def split: if_splits)

lemma known_index [simp]:
  "known (w\<lparr>w_podApp := x\<rparr>) = known w" "known (w\<lparr>w_podIPToApp := x\<rparr>) = known w" "known (w\<lparr>w_serviceIPToApp := x\<rparr>) = known w"
  "known (w\<lparr>w_containerStats := y\<rparr>) = known w" "known (w\<lparr>w_edges := z\<rparr>) = known w"
  by (simp_all add: known_def)

lemma wf_add_pod: "wf_world w \<Longrightarrow> wf_world (add_pod pw w r)"
proof -
  assume w: "wf_world w"
  let ?l = "pr_Metric r"
  define i where "i = (case map_of pw (podRef (labelOr ?l ''namespace'' []) (labelOr ?l ''pod'' [])) of Some i \<Rightarrow> i | None \<Rightarrow> directOwner ?l)"
  define f where "f = (\<lambda>a :: application. a\<lparr>ap_instances := map_put (labelOr ?l ''pod'' [])
      \<lparr>in_ID = \<lparr>ai_Name = labelOr ?l ''pod'' [], ai_Kind = ai_Kind i, ai_Namespace = labelOr ?l ''namespace'' []\<rparr>, in_IsFailed = False\<rparr> (ap_instances a)\<rparr>)"
  have f: "ap_id (f a) = ap_id a" for a by (simp add: f_def)
  have u: "wf_world (update_app (appKey i) f (upsertApp i w))" "appKey i \<in> known (update_app (appKey i) f (upsertApp i w))"
    using wf_update_app[of "upsertApp i w" f "appKey i"] w f by simp_all
  have p: "wf_world ((update_app (appKey i) f (upsertApp i w))\<lparr>w_podApp := map_put q (appKey i) (w_podApp w)\<rparr>)" for q
    using wf_index(1)[OF u, of q] by simp
  show ?thesis
    unfolding add_pod_def Let_def i_def[symmetric] f_def[symmetric]
    using w p u(2) wf_index(2)[OF p] wf_index(2)[of "upsertApp i w" "appKey i"] by simp
qed

lemma wf_add_pod_labels: "wf_world w \<Longrightarrow> wf_world (add_pod_labels w r)"
  using wf_update_app(1)[of _ "add_labels (pr_Metric r)"]
  by (auto simp: add_pod_labels_def Let_def add_labels_def split: option.splits)

lemma add_readiness_total: "wf_world w \<Longrightarrow> \<exists>w'. add_readiness w r = Some w' \<and> wf_world w'"
proof -
  assume w: "wf_world w"
  have "map_of (w_podApp w) p = Some k \<Longrightarrow> \<exists>a. map_of (w_applications w) k = Some a" for p k
    using w by (auto simp: wf_world_def known_def ran_def)
  then show ?thesis
    using w wf_update_app(1)[OF w, of "set_ready r (labelOr (pr_Metric r) ''pod'' [])"]
    by (auto simp: add_readiness_def Let_def set_ready_def split: option.splits) fastforce+
qed

lemma wf_add_service: "wf_world w \<Longrightarrow> wf_world (add_service w r)"
  using wf_index(3)[of "upsertApp i w" "appKey i" for i] by (auto simp: add_service_def Let_def)

lemma wf_add_replicas: "wf_world w \<Longrightarrow> wf_world (add_replicas kind labelKey w r)"
  by (auto simp: add_replicas_def Let_def intro!: wf_update_app(1))

lemma wf_add_stat: "wf_world w \<Longrightarrow> wf_world (add_stat acc w r)"
  by (auto simp: add_stat_def wf_world_def edge_at_def split: option.splits)

lemma edge_at_put: "edge_at (put_edge s d la w) s' d' = (if s' = s \<and> d' = d then Some la else edge_at w s' d')"
  by (simp add: edge_at_def put_edge_def split: option.split)

lemma wf_put_edge:
  assumes "wf_world w" "s \<in> known w" "d \<in> known w" "s \<noteq> d"
  shows "wf_world (put_edge s d la w)" "known (put_edge s d la w) = known w"
proof -
  show kn: "known (put_edge s d la w) = known w" by (simp add: put_edge_def)
  have "wf_map (w_edges (put_edge s d la w))" "map_of (w_edges (put_edge s d la w)) x = Some ds \<Longrightarrow> wf_map ds" for x ds
    using assms(1) by (auto simp: wf_world_def put_edge_def split: if_splits option.splits)
  with assms kn show "wf_world (put_edge s d la w)"
    unfolding wf_world_def by (auto simp: edge_at_put put_edge_def[of s d la w, THEN arg_cong[where f=w_applications]]
      put_edge_def[of s d la w, THEN arg_cong[where f=w_podApp]] put_edge_def[of s d la w, THEN arg_cong[where f=w_podIPToApp]]
      put_edge_def[of s d la w, THEN arg_cong[where f=w_serviceIPToApp]] split: if_splits)
qed

lemma wf_addEdge: "wf_world w \<Longrightarrow> s \<in> known w \<Longrightarrow> d \<in> known w \<Longrightarrow> s \<noteq> d \<Longrightarrow> wf_world (addEdge s d w)"
  by (simp add: addEdge_def wf_put_edge split: option.split)

lemma wf_edge_ends: "wf_world w \<Longrightarrow> edge_at w s d = Some la \<Longrightarrow> s \<in> known w \<and> d \<in> known w \<and> s \<noteq> d"
  unfolding wf_world_def by blast

lemma wf_update_edge: "wf_world w \<Longrightarrow> wf_world (update_edge e f w)"
  using wf_edge_ends[of w "fst e" "snd e"] wf_put_edge(1)[of w "fst e" "snd e"]
  by (cases "edge_at w (fst e) (snd e)") (auto simp: update_edge_def)

lemma resolveApp_known: "iterates it \<Longrightarrow> resolveApp it w kind name ns = Some k \<Longrightarrow> k \<in> known w"
proof -
  assume it: "iterates it" and r: "resolveApp it w kind name ns = Some k"
  have "x \<in> set (w_applications w)" if "find P (it (w_applications w)) = Some x" for P x
    using that it nth_mem by (fastforce simp: find_Some_iff iterates_def)
  then show "k \<in> known w"
    using r by (auto simp: resolveApp_def Let_def known_def dom_map_of_conv_image_fst map_of_eq_None_iff image_iff split: if_splits) force+
qed

lemma named_end_ok:
  assumes "iterates it" "wf_world w" "named_end it w kind name ns = (w', k)"
  shows "wf_world w' \<and> k \<in> known w' \<and> known w \<subseteq> known w'"
  using assms resolveApp_known[OF assms(1)] by (auto simp: named_end_def Let_def split: option.splits)

lemma resolveAppByIP_known: "wf_world w \<Longrightarrow> resolveAppByIP w ip = [] \<or> resolveAppByIP w ip \<in> known w"
  by (auto simp: resolveAppByIP_def wf_world_def ran_def split: option.splits)

lemma wf_edgeFromConnectionLabels:
  assumes "iterates it" "wf_world w"
  shows "wf_world (fst (edgeFromConnectionLabels it w l))"
proof -
  let ?src = "named_end it w (labelOr l ''src_workload_kind'' (labelOr l ''src_kind'' [])) (labelOr l ''src_workload_name'' [])
      (labelOr l ''src_workload_namespace'' [])"
  obtain w1 sk where src: "?src = (w1, sk)" by (cases ?src)
  have s: "wf_world w1" "sk \<in> known w1" using named_end_ok[OF assms src] by auto
  let ?dst = "if labelOr l ''destination_workload_name'' [] \<noteq> [] then named_end it w1 (labelOr l ''destination_workload_kind'' [])
       (labelOr l ''destination_workload_name'' []) (labelOr l ''destination_workload_namespace'' [])
     else (w1, resolveAppByIP w1 (labelOr l ''destination_ip'' []))"
  obtain w2 dk where dst: "?dst = (w2, dk)" by (cases ?dst)
  have d: "wf_world w2 \<and> sk \<in> known w2 \<and> (dk = [] \<or> dk \<in> known w2)"
  proof (cases "labelOr l ''destination_workload_name'' [] = []")
    case True with dst s resolveAppByIP_known[OF s(1), of "labelOr l ''destination_ip'' []"] show ?thesis by auto
  next
    case False
    with dst have "named_end it w1 (labelOr l ''destination_workload_kind'' []) (labelOr l ''destination_workload_name'' [])
        (labelOr l ''destination_workload_namespace'' []) = (w2, dk)" by simp
    from named_end_ok[OF assms(1) s(1) this] s(2) show ?thesis by blast
  qed
  then show ?thesis using assms(2) wf_addEdge[of w2 sk dk] src dst
    by (auto simp: edgeFromConnectionLabels_def Let_def)
qed

lemma foldl_invariant: "I s \<Longrightarrow> (\<And>s x. I s \<Longrightarrow> I (f s x)) \<Longrightarrow> I (foldl f s xs)"
  by (induction xs arbitrary: s) auto

lemma fold_option_invariant:
  "I s \<Longrightarrow> (\<And>s x. I s \<Longrightarrow> \<exists>s'. f s x = Some s' \<and> I s') \<Longrightarrow> \<exists>s'. fold_option f s xs = Some s' \<and> I s'"
proof (induction xs arbitrary: s)
  case (Cons x xs)
  then obtain s' where "f s x = Some s'" "I s'" by blast
  with Cons.IH[of s'] Cons.prems(2) show ?case by simp
qed simp

lemma wf_edge_series:
  assumes "iterates it" "wf_world (fst ws)"
  shows "wf_world (fst (edge_series it g fn ws r))"
  using wf_edgeFromConnectionLabels[OF assms, of "pr_Metric r"] assms(2) wf_update_edge
  by (cases "edgeFromConnectionLabels it (fst ws) (pr_Metric r)") (auto simp: edge_series_def split: option.split)

lemma wf_edge_fold: "iterates it \<Longrightarrow> wf_world w \<Longrightarrow> wf_world (fst (foldl (edge_series it g fn) (w, s) rs))"
  by (rule foldl_invariant[where I="\<lambda>ws. wf_world (fst ws)"]) (auto intro: wf_edge_series)

lemma wf_forEachEdge: "iterates it \<Longrightarrow> wf_world w \<Longrightarrow> wf_world (forEachEdge it fn rs w)"
  by (simp add: forEachEdge_def wf_edge_fold)

lemma wf_add_protocol: "iterates it \<Longrightarrow> wf_world w \<Longrightarrow> wf_world (add_protocol it metrics w p)"
  unfolding add_protocol_def
proof (split prod.split, intro allI impI wf_forEachEdge foldl_invariant[where I=wf_world] wf_update_edge)
  fix w1 perEdge
  assume "iterates it" "wf_world w" "foldl (edge_series it count_requests (count_failures p)) (w, []) (series metrics (l7RequestsKey p)) = (w1, perEdge)"
  then show "wf_world w1" using wf_edge_fold[of it w count_requests "count_failures p" "[]" "series metrics (l7RequestsKey p)"] by simp
qed

lemma wf_add_edges: "iterates it \<Longrightarrow> wf_world w \<Longrightarrow> wf_world (add_edges it metrics w)"
  by (simp add: add_edges_def Let_def wf_forEachEdge foldl_invariant[where I=wf_world] wf_add_protocol)

lemma build_total:
  assumes "iterates it"
  shows "\<exists>w. build it metrics = Some w \<and> wf_world w"
proof -
  let ?w1 = "foldl (add_pod (podWorkloads (series metrics ''pod_workload''))) newWorld (series metrics ''kube_pod_info'')"
  let ?w2 = "foldl add_pod_labels ?w1 (series metrics ''kube_pod_labels'')"
  have "wf_world ?w2" by (intro foldl_invariant[where I=wf_world] wf_newWorld wf_add_pod wf_add_pod_labels)
  then obtain w3 where w3: "fold_option add_readiness ?w2 (series metrics ''kube_pod_status_ready'') = Some w3" "wf_world w3"
    using fold_option_invariant[where I=wf_world and f=add_readiness] add_readiness_total by blast
  have "wf_world (add_container_stats metrics (add_replica_counts metrics (foldl add_service w3 (series metrics ''kube_service_info''))))"
    unfolding add_container_stats_def add_replica_counts_def addContainerStat_def applyReplicaCount_def
    by (intro foldl_invariant[where I=wf_world] wf_add_stat wf_add_replicas wf_add_service w3(2))
  from wf_add_edges[OF assms this] w3(1) show ?thesis by (auto simp: build_def Let_def)
qed

section \<open>The rendered map\<close>

lemma map_filter_set: "set (List.map_filter f xs) = {y. \<exists>x \<in> set xs. f x = Some y}"
  by (induction xs) (auto simp: List.map_filter_def split: option.splits)

lemma set_out_links:
  assumes "wf_world w"
  shows "(d, dst, la) \<in> set (out_links w k) \<longleftrightarrow> edge_at w k d = Some la \<and> map_of (w_applications w) d = Some dst"
proof (cases "map_of (w_edges w) k")
  case None then show ?thesis by (simp add: out_links_def edge_at_def)
next
  case (Some dsts)
  then have "wf_map dsts" using assms unfolding wf_world_def by blast
  then have "(x, y) \<in> set dsts \<longleftrightarrow> map_of dsts x = Some y" for x y by (simp add: wf_map_def)
  with Some show ?thesis by (auto simp: out_links_def edge_at_def map_filter_set intro!: bexI[of _ "(d, la)"])
qed

lemma set_in_links:
  assumes "wf_world w"
  shows "(s, src, la) \<in> set (in_links w k) \<longleftrightarrow> edge_at w s k = Some la \<and> map_of (w_applications w) s = Some src"
proof -
  have "wf_map (w_edges w)" using assms unfolding wf_world_def by blast
  then have "(x, y) \<in> set (w_edges w) \<longleftrightarrow> map_of (w_edges w) x = Some y" for x y by (simp add: wf_map_def)
  then show ?thesis by (cases "map_of (w_edges w) s")
    (auto simp: in_links_def edge_at_def map_filter_set split: option.splits intro: bexI[of _ "(s, the (map_of (w_edges w) s))"])
qed

lemma wf_known: "wf_world w \<Longrightarrow> k \<in> known w \<Longrightarrow> \<exists>a. map_of (w_applications w) k = Some a \<and> appKey (ap_id a) = k"
  unfolding wf_world_def known_def by blast

lemma used_keys_edge:
  assumes "wf_world w" "edge_at w s d = Some la"
  shows "s \<in> used_keys w" "d \<in> used_keys w"
proof -
  from wf_edge_ends[OF assms] obtain a b where ab: "map_of (w_applications w) s = Some a" "map_of (w_applications w) d = Some b"
    using wf_known[OF assms(1)] by blast
  then have "(d, b, la) \<in> set (out_links w s)" "(s, a, la) \<in> set (in_links w d)"
    using set_out_links[OF assms(1)] set_in_links[OF assms(1)] assms(2) by auto
  moreover have "(s, a) \<in> set (w_applications w)" "(d, b) \<in> set (w_applications w)" using ab map_of_SomeD by metis+
  ultimately show "s \<in> used_keys w" "d \<in> used_keys w" unfolding used_keys_def by force+
qed

lemma used_keys_linked:
  assumes "wf_world w" "k \<in> used_keys w"
  shows "\<exists>x la. edge_at w k x = Some la \<or> edge_at w x k = Some la"
proof -
  from assms(2) obtain j a where "k \<in> (if out_links w j \<noteq> [] \<or> in_links w j \<noteq> [] then {j} else {}) \<union> fst ` set (out_links w j) \<union> fst ` set (in_links w j)"
    unfolding used_keys_def by blast
  then have "k = j \<and> (out_links w j \<noteq> [] \<or> in_links w j \<noteq> []) \<or> k \<in> fst ` set (out_links w j) \<or> k \<in> fst ` set (in_links w j)"
    by (simp split: if_splits)
  moreover have "\<exists>x la. edge_at w j x = Some la" if "out_links w j \<noteq> []"
    using that set_out_links[OF assms(1)] by (cases "out_links w j") (auto, metis list.set_intros(1))
  moreover have "\<exists>x la. edge_at w x j = Some la" if "in_links w j \<noteq> []"
    using that set_in_links[OF assms(1)] by (cases "in_links w j") (auto, metis list.set_intros(1))
  ultimately show ?thesis using set_out_links[OF assms(1), of _ _ _ j] set_in_links[OF assms(1), of _ _ _ j] by fastforce
qed

lemma set_render:
  assumes "wf_world w"
  shows "set (render w) = {render_app w k a | k a. map_of (w_applications w) k = Some a \<and> k \<in> used_keys w}"
proof -
  have "wf_map (w_applications w)" using assms unfolding wf_world_def by blast
  then have mem: "(k, a) \<in> set (w_applications w) \<longleftrightarrow> map_of (w_applications w) k = Some a" for k a by (simp add: wf_map_def)
  have key: "appKey (ap_id a) = k" if "map_of (w_applications w) k = Some a" for k a
    using assms that unfolding wf_world_def by blast
  have "appKey (ra_ID (render_app w k a)) = k" if "map_of (w_applications w) k = Some a" for k a
    using key[OF that] by (simp add: render_app_def Let_def)
  then show ?thesis unfolding render_def set_filter set_map using mem by fastforce
qed

text \<open>The two sides of every link: the caller's entry and the callee's entry carry the same numbers.\<close>

definition has_downstream :: "rendered_app \<Rightarrow> rendered_app \<Rightarrow> upstream_link \<Rightarrow> bool" where
  "has_downstream a b u \<longleftrightarrow> ul_ID u = idToText (ra_ID b) \<and> ra_ID b \<noteq> ra_ID a \<and>
     (\<exists>d \<in> set (ra_Downstreams b). dl_ID d = ra_ID a \<and> link_body.truncate d = link_body.truncate u)"

definition has_upstream :: "rendered_app \<Rightarrow> rendered_app \<Rightarrow> downstream_link \<Rightarrow> bool" where
  "has_upstream b a d \<longleftrightarrow> dl_ID d = ra_ID a \<and> ra_ID a \<noteq> ra_ID b \<and>
     (\<exists>u \<in> set (ra_Upstreams a). ul_ID u = idToText (ra_ID b) \<and> link_body.truncate u = link_body.truncate d)"

definition finite_body :: "'a link_body_scheme \<Rightarrow> bool" where
  "finite_body l \<longleftrightarrow> is_finite (lk_Weight l) \<and> is_finite (lk_Latency l) \<and> is_finite (lk_RequestCount l) \<and> is_finite (lk_FailureCount l) \<and>
     is_finite (lk_BytesSent l) \<and> is_finite (lk_BytesReceived l)"

definition closed_map :: "rendered_app list \<Rightarrow> bool" where
  "closed_map out \<longleftrightarrow> distinct (map ra_ID out) \<and>
     (\<forall>a \<in> set out. (ra_Upstreams a \<noteq> [] \<or> ra_Downstreams a \<noteq> []) \<and>
        (\<forall>u \<in> set (ra_Upstreams a). finite_body u \<and> (\<exists>b \<in> set out. has_downstream a b u)) \<and>
        (\<forall>d \<in> set (ra_Downstreams a). finite_body d \<and> (\<exists>b \<in> set out. has_upstream a b d)))"

lemma is_finite_sane [simp]: "is_finite (saneFloat v)"
  by (simp add: saneFloat_def)

lemma link_sides:
  "link_body.truncate (upstream_of i la) = link_body.truncate (downstream_of j la)"
  "finite_body (upstream_of i la)" "finite_body (downstream_of j la)" "ul_ID (upstream_of i la) = idToText i" "dl_ID (downstream_of j la) = j"
  by (simp_all add: upstream_of_def downstream_of_def link_body.truncate_def finite_body_def)

lemma render_links:
  assumes "wf_world w" "map_of (w_applications w) k = Some a"
  shows "u \<in> set (ra_Upstreams (render_app w k a)) \<longleftrightarrow>
      (\<exists>d b la. edge_at w k d = Some la \<and> map_of (w_applications w) d = Some b \<and> u = upstream_of (ap_id b) la)"
    "x \<in> set (ra_Downstreams (render_app w k a)) \<longleftrightarrow>
      (\<exists>s b la. edge_at w s k = Some la \<and> map_of (w_applications w) s = Some b \<and> x = downstream_of (ap_id b) la)"
proof -
  have up: "ra_Upstreams (render_app w k a) = map (\<lambda>t. upstream_of (ap_id (fst (snd t))) (snd (snd t))) (out_links w k)"
    "ra_Downstreams (render_app w k a) = map (\<lambda>t. downstream_of (ap_id (fst (snd t))) (snd (snd t))) (in_links w k)"
    by (simp_all add: render_app_def Let_def split_def)
  show "u \<in> set (ra_Upstreams (render_app w k a)) \<longleftrightarrow>
      (\<exists>d b la. edge_at w k d = Some la \<and> map_of (w_applications w) d = Some b \<and> u = upstream_of (ap_id b) la)"
    unfolding conj_assoc[symmetric] up set_map image_iff set_out_links[OF assms(1), symmetric] by force
  show "x \<in> set (ra_Downstreams (render_app w k a)) \<longleftrightarrow>
      (\<exists>s b la. edge_at w s k = Some la \<and> map_of (w_applications w) s = Some b \<and> x = downstream_of (ap_id b) la)"
    unfolding conj_assoc[symmetric] up set_map image_iff set_in_links[OF assms(1), symmetric] by force
qed

lemma render_ids:
  assumes "wf_world w" "map_of (w_applications w) k = Some a" "map_of (w_applications w) j = Some b" "k \<noteq> j"
  shows "ra_ID (render_app w k a) \<noteq> ra_ID (render_app w j b)"
proof -
  have "appKey (ap_id a) = k" "appKey (ap_id b) = j" using assms unfolding wf_world_def by blast+
  then show ?thesis using assms(4) by (auto simp: render_app_def Let_def)
qed

lemma distinct_render:
  assumes "wf_world w"
  shows "distinct (map ra_ID (render w))"
proof -
  have wf: "distinct (map fst (w_applications w))" using assms unfolding wf_world_def wf_map_def by blast
  have mem: "map_of (w_applications w) (fst p) = Some (snd p)" if "p \<in> set (w_applications w)" for p
    using that wf by (metis map_of_eq_Some_iff prod.collapse)
  have "inj_on (\<lambda>p. ra_ID (render_app w (fst p) (snd p))) (set (w_applications w))"
    using render_ids[OF assms mem mem] wf mem by (intro inj_onI) (metis option.inject prod.expand)
  moreover have "distinct (w_applications w)" using wf by (simp add: distinct_map)
  ultimately have "distinct (map (\<lambda>p. ra_ID (render_app w (fst p) (snd p))) (w_applications w))" by (simp add: distinct_map)
  then show ?thesis unfolding render_def by (simp add: split_def distinct_map_filter comp_def)
qed

lemma render_closed:
  assumes "wf_world w"
  shows "closed_map (render w)"
proof -
  have side: "\<exists>b \<in> set (render w). has_downstream (render_app w s a) b (upstream_of (ap_id b') la)"
    "\<exists>c \<in> set (render w). has_upstream (render_app w d b') c (downstream_of (ap_id a) la)"
    if e: "edge_at w s d = Some la" and a: "map_of (w_applications w) s = Some a" and b: "map_of (w_applications w) d = Some b'" for s d la a b'
  proof -
    have ends: "render_app w s a \<in> set (render w)" "render_app w d b' \<in> set (render w)"
      using used_keys_edge[OF assms e] a b unfolding set_render[OF assms] by blast+
    have ids: "ra_ID (render_app w s a) = ap_id a" "ra_ID (render_app w d b') = ap_id b'" by (simp_all add: render_app_def Let_def)
    have ne: "ap_id b' \<noteq> ap_id a" using render_ids[OF assms b a] wf_edge_ends[OF assms e] ids by auto
    have "upstream_of (ap_id b') la \<in> set (ra_Upstreams (render_app w s a))"
      "downstream_of (ap_id a) la \<in> set (ra_Downstreams (render_app w d b'))"
      using render_links[OF assms a] render_links[OF assms b] e a b by blast+
    then have "has_downstream (render_app w s a) (render_app w d b') (upstream_of (ap_id b') la)"
      "has_upstream (render_app w d b') (render_app w s a) (downstream_of (ap_id a) la)"
      unfolding has_downstream_def has_upstream_def ids using ne link_sides by (metis, metis)
    with ends show "\<exists>b \<in> set (render w). has_downstream (render_app w s a) b (upstream_of (ap_id b') la)"
      "\<exists>c \<in> set (render w). has_upstream (render_app w d b') c (downstream_of (ap_id a) la)" by blast+
  qed
  have some: "ra_Upstreams r \<noteq> [] \<or> ra_Downstreams r \<noteq> []" if r: "r = render_app w k a" "map_of (w_applications w) k = Some a" "k \<in> used_keys w" for r k a
  proof -
    from used_keys_linked[OF assms r(3)] obtain x la where "edge_at w k x = Some la \<or> edge_at w x k = Some la" by blast
    with render_links[OF assms r(2)] wf_edge_ends[OF assms] wf_known[OF assms] show ?thesis unfolding r(1) by (metis empty_iff list.set(1))
  qed
  show ?thesis unfolding closed_map_def
  proof (intro conjI ballI distinct_render[OF assms])
    fix r assume "r \<in> set (render w)"
    then obtain k a where r: "r = render_app w k a" "map_of (w_applications w) k = Some a" "k \<in> used_keys w" unfolding set_render[OF assms] by blast
    show "ra_Upstreams r \<noteq> [] \<or> ra_Downstreams r \<noteq> []" using some[OF r] .
    { fix u assume "u \<in> set (ra_Upstreams r)"
      then obtain d b la where u: "edge_at w k d = Some la" "map_of (w_applications w) d = Some b" "u = upstream_of (ap_id b) la"
        using render_links(1)[OF assms r(2)] r(1) by blast
      show "finite_body u" "\<exists>b \<in> set (render w). has_downstream r b u" using side(1)[OF u(1) r(2) u(2)] u(3) r(1) link_sides by simp_all }
    { fix x assume "x \<in> set (ra_Downstreams r)"
      then obtain s b la where x: "edge_at w s k = Some la" "map_of (w_applications w) s = Some b" "x = downstream_of (ap_id b) la"
        using render_links(2)[OF assms r(2)] r(1) by blast
      show "finite_body x" "\<exists>b \<in> set (render w). has_upstream r b x" using side(2)[OF x(1) x(2) r(2)] x(3) r(1) link_sides by simp_all }
  qed
qed

text \<open>C29: the service map is a closed graph. Whatever Prometheus and ClickHouse answer, whatever the
  filter and in whatever order maps are iterated, the action does not panic; it fails only without
  a Prometheus client or when its context ended. Otherwise the applications have different
  identities, each has a link, no application is linked to itself, every link of a caller leads to
  an application of the map that lists the caller with the same numbers, every link of a callee
  likewise, and every number of a link is finite.\<close>

theorem service_map_closed:
  assumes "iterates it"
  shows "case Build it env now s p of
      None \<Rightarrow> False
    | Some (Inl err) \<Rightarrow> (if ms_Prom s then err = CtxEnded \<and> me_done env else err = PromNotConfigured)
    | Some (Inr out) \<Rightarrow> closed_map out"
proof -
  have ok: "build it m \<noteq> None" "build it m = Some w \<Longrightarrow> closed_map (render w)" for m w
    using build_total[OF assms, of m] render_closed by auto
  obtain e window where win: "map_window now p = (e, window)" by (cases "map_window now p")
  show ?thesis
  proof (cases "ms_Prom s \<and> \<not> me_done env")
    case True
    then obtain m where "Build it env now s p = map_option (\<lambda>w. Inr (render w)) (build it m)"
      using win by (auto simp: Build_def Let_def)
    with ok[of m] show ?thesis by (cases "build it m") auto
  next
    case False
    with win show ?thesis by (auto simp: Build_def Let_def)
  qed
qed

definition sample_map_env :: map_env where
  "sample_map_env = \<lparr>me_query = (\<lambda>q t. if has_prefix q ''sum'' then
       Some [\<lparr>pr_Metric = [(''src_workload_name'', ''a''), (''destination_workload_name'', ''b'')], pr_Last = FFin False 1 0, pr_HasVal = True\<rparr>]
     else None), me_summary = (\<lambda>_ _ _. None), me_done = False\<rparr>"

definition sample_map_service :: map_service where
  "sample_map_service = \<lparr>ms_Prom = True, ms_ClusterName = [], ms_CH = True, ms_Source = SourceClickHouse\<rparr>"

definition sample_filter :: filter_params where
  "sample_filter = \<lparr>fp_WorkloadName = [], fp_WorkloadNamespace = [], fp_StartTime = [], fp_EndTime = [], fp_Duration = 0\<rparr>"

lemma iterates_rev: "iterates rev"
  by (simp add: iterates_def)

theorem service_map_closed_witness:
  "\<exists>out. Build rev sample_map_env 0 sample_map_service sample_filter = Some (Inr out) \<and> closed_map out"
  using service_map_closed[OF iterates_rev, where env=sample_map_env and now=0 and s=sample_map_service and p=sample_filter]
  by (auto simp: sample_map_env_def sample_map_service_def split: option.splits sum.splits)

section \<open>Falling back to Prometheus\<close>

lemma build_cong: "series m = series m' \<Longrightarrow> build it m = build it m'"
  by (simp add: build_def add_edges_def add_container_stats_def add_replica_counts_def add_protocol_def[abs_def] split: option.split)

lemma fetchProm_simps [simp]:
  "fetchProm env expand e [] = []"
  "fetchProm env expand e (p # qs) = (case me_query env (expand (snd p)) e of
     None \<Rightarrow> fetchProm env expand e qs | Some r \<Rightarrow> (fst p, r) # fetchProm env expand e qs)"
  by (simp_all add: fetchProm_def List.map_filter_def split: option.split)

lemma fetchProm_keys: "fst ` set (fetchProm env expand e qs) \<subseteq> fst ` set qs"
  by (induction qs) (auto split: option.splits)

lemma wf_fetchProm: "wf_map qs \<Longrightarrow> wf_map (fetchProm env expand e qs)"
proof (induction qs)
  case (Cons p qs)
  then show ?case using fetchProm_keys[of env expand e qs] by (auto simp: wf_map_def split: option.splits)
qed simp

lemma map_of_fetchProm:
  "wf_map qs \<Longrightarrow> map_of (fetchProm env expand e qs) k = Option.bind (map_of qs k) (\<lambda>q. me_query env (expand q) e)"
proof (induction qs)
  case (Cons p qs)
  then have "map_of qs (fst p) = None" by (simp add: wf_map_def map_of_eq_None_iff)
  with Cons show ?case by (auto simp: wf_map_def split: option.splits)
qed simp

lemma map_of_maps_Copy: "wf_map src \<Longrightarrow> map_of (maps_Copy dst src) k = (case map_of src k of Some v \<Rightarrow> Some v | None \<Rightarrow> map_of dst k)"
proof (induction src arbitrary: dst)
  case (Cons p src)
  then have "map_of src (fst p) = None" by (simp add: wf_map_def map_of_eq_None_iff)
  with Cons show ?case by (auto simp: maps_Copy_def wf_map_def split: option.splits)
qed (simp add: maps_Copy_def)

lemma wf_query_list: "wf_map (query_list p)"
proof -
  have "wf_map nodeQueries" by (simp add: wf_map_def nodeQueries_def)
  then show ?thesis unfolding query_list_def buildQueries_def by (rule foldl_invariant[where I=wf_map]) simp
qed

lemma clickhouseMetrics_fallback:
  assumes "wf_map qs"
  shows "map_of (clickhouseMetrics None qs (fetchProm env expand e)) = map_of (fetchProm env expand e qs)"
proof
  fix k
  let ?rest = "filter (\<lambda>p. map_of (kubeKeys qs) (fst p) = None) qs"
  have wf: "wf_map (kubeKeys qs)" "wf_map ?rest" using assms by (simp_all add: kubeKeys_def)
  have kube: "map_of (kubeKeys qs) k = (if has_prefix k ''kube_'' then map_of qs k else None)" for k
    using map_of_filter_wf[OF assms, of "\<lambda>p. has_prefix (fst p) ''kube_''" k] by (auto simp: kubeKeys_def split: option.splits)
  have rest: "map_of ?rest k = (if has_prefix k ''kube_'' then None else map_of qs k)"
    using map_of_filter_wf[OF assms, of "\<lambda>p. map_of (kubeKeys qs) (fst p) = None" k] kube by (auto split: option.splits)
  have copy: "map_of (clickhouseMetrics None qs (fetchProm env expand e)) k =
      (case map_of (fetchProm env expand e ?rest) k of Some v \<Rightarrow> Some v | None \<Rightarrow> map_of (fetchProm env expand e (kubeKeys qs)) k)"
    by (simp only: clickhouseMetrics_def Let_def option.case map_of_maps_Copy[OF wf_fetchProm[OF wf(2)]])
  show "map_of (clickhouseMetrics None qs (fetchProm env expand e)) k = map_of (fetchProm env expand e qs) k"
    unfolding copy map_of_fetchProm[OF wf(1)] map_of_fetchProm[OF wf(2)] map_of_fetchProm[OF assms] rest kube[of k]
    by (simp split: option.split)
qed

text \<open>Falling back loses nothing. When ClickHouse cannot serve the window, the ClickHouse source
  gives exactly the map that the Prometheus source gives.\<close>

lemma clickhouse_fallback_same:
  assumes "me_summary env = (\<lambda>_ _ _. None)"
  shows "Build it env now s p = Build it env now (s\<lparr>ms_Source := SourcePrometheus\<rparr>) p"
proof -
  have "build it (clickhouseMetrics None (query_list p) (fetchProm env expand e)) = build it (fetchProm env expand e (query_list p))" for expand e
    by (rule build_cong) (simp add: series_def[abs_def] clickhouseMetrics_fallback[OF wf_query_list])
  then show ?thesis by (auto simp: Build_def service_source_def assms Let_def split: prod.split)
qed

section \<open>Two defects\<close>

text \<open>A workload without a namespace in the filter asks for an empty namespace, which no connection of a
  workload has.\<close>

lemma filter_without_namespace:
  "expand_query cluster \<lparr>fp_WorkloadName = ''api'', fp_WorkloadNamespace = [], fp_StartTime = [], fp_EndTime = [], fp_Duration = 0\<rparr> w ''$SRC_FILTER'' =
   ''src_workload_name=~\"api\",src_workload_namespace=~\"\"''"
  by (simp add: expand_query_def expandPlaceholders_def dictToPrometheusFilter_def replace_all_def has_prefix_def Let_def)

text \<open>When the labels give no kind, a workload and a service of one name are told apart by the iteration
  order of a map.\<close>

lemma resolveApp_order_dependent:
  assumes "i = \<lparr>ai_Name = ''api'', ai_Kind = ''Deployment'', ai_Namespace = ''n''\<rparr>" "j = \<lparr>ai_Name = ''api'', ai_Kind = ''Service'', ai_Namespace = ''n''\<rparr>"
  shows "resolveApp id (upsertApp j (upsertApp i newWorld)) [] ''api'' ''n'' = Some (appKey i)"
    "resolveApp rev (upsertApp j (upsertApp i newWorld)) [] ''api'' ''n'' = Some (appKey j)"
  by (simp_all add: assms resolveApp_def upsertApp_def newWorld_def workloadID_def appKey_def map_put_def Let_def)

end
