(* ===== verification/Rightsizer.thy ===== *)
theory Rightsizer
  imports Rightsize GoParse GoJson Rfc3339
begin

text \<open>
  The continuous right-sizer: \<open>pkg/rightsize/rightsize.go\<close>, \<open>units.go\<close>, \<open>inplace.go\<close> and \<open>handlers.go\<close>.
  For each workload it samples Prometheus, computes a recommendation per container, and writes it
  to the running pods or to the pod template. The API server, Prometheus, the JSON decoder and the
  quantity parser are an environment, one per workload. The theory proves what may be written and
  when, that a change that is due reaches the pods or the template, and what a missing memory
  series does.
\<close>

section \<open>Settings\<close>

record settings =
  MinCPU :: float64
  MinMemoryBytes :: float64
  OOMKillFactor :: float64
  ChangeThreshold :: float64
  MaxChangeThreshold :: float64
  CPUPercentile :: float64
  MemoryPercentile :: float64
  AnalysisDuration :: int
  RecommendOnly :: bool
  InPlace :: bool
  ResizePolicy :: string
  Identifier :: string

record sizing_app =
  ap_Name :: string
  ap_Namespace :: string
  ap_Kind :: string

definition defaultMinCPU :: float64 where "defaultMinCPU = float_of_ratio False 1 100"
definition defaultMinMemoryBytes :: float64 where "defaultMinMemoryBytes = float_of_nat (5 * 10 * 1024 * 1024)"
definition defaultOOMKillFactor :: float64 where "defaultOOMKillFactor = float_of_ratio False 14 10"
definition defaultChangeThreshold :: float64 where "defaultChangeThreshold = float_of_nat 15"
definition defaultMaxChangeThreshold :: float64 where "defaultMaxChangeThreshold = float_of_nat 100"
definition defaultPercentile :: float64 where "defaultPercentile = float_of_ratio False 9999 100"
definition memoryLimitHeadroom :: float64 where "memoryLimitHeadroom = float_of_ratio False 14 10"

definition defaultAnalysisDuration :: nat where
  "defaultAnalysisDuration = 24"

definition annotationKey :: string where
  "annotationKey = ''workloads.nudgebee.com/V1.continuous-rightsize.vertical-scaler''"

definition numOr :: "gmap \<Rightarrow> string \<Rightarrow> float64 \<Rightarrow> float64" where
  "numOr m key dflt = (case mget m key of
     VFloat f \<Rightarrow> f
   | VInt i \<Rightarrow> float_of_int i
   | VStr s \<Rightarrow> (case parse_float s of Some f \<Rightarrow> f | None \<Rightarrow> dflt)
   | _ \<Rightarrow> dflt)"

definition boolOr :: "gmap \<Rightarrow> string \<Rightarrow> bool \<Rightarrow> bool" where
  "boolOr m key dflt = (case mget m key of VBool b \<Rightarrow> b | _ \<Rightarrow> dflt)"

datatype size_err =
    MissingSettings | ApplicationsNotList | ApplicationFields gmap | NoApplications
  | SizeUnsupported string | SizeGet | SizeNoContainers | CPUQuery string | MemoryQuery string | SizeApply

text \<open>A setting that is not positive is replaced by its default.\<close>

definition positive_or :: "float64 \<Rightarrow> float64 \<Rightarrow> float64" where
  "positive_or dflt x = (if float_le x float_zero then dflt else x)"

definition parseSettings :: "gval \<Rightarrow> size_err + settings" where
  "parseSettings raw = (case as_map raw of
     None \<Rightarrow> Inl MissingSettings
   | Some m \<Rightarrow> (let hours = int_of_float (numOr m ''default_analysis_duration_hour'' (float_of_nat defaultAnalysisDuration)) in
       Inr \<lparr>MinCPU = numOr m ''default_min_cpu'' defaultMinCPU,
         MinMemoryBytes = positive_or defaultMinMemoryBytes
           (float_mul (float_mul (numOr m ''default_min_memory'' float_zero) (float_of_nat 1024)) (float_of_nat 1024)),
         OOMKillFactor = positive_or defaultOOMKillFactor (numOr m ''oom_kill_increase_factor'' defaultOOMKillFactor),
         ChangeThreshold = numOr m ''change_threshold'' defaultChangeThreshold,
         MaxChangeThreshold = positive_or defaultMaxChangeThreshold (numOr m ''max_change_threshold'' defaultMaxChangeThreshold),
         CPUPercentile = positive_or defaultPercentile (numOr m ''cpu_analysis_percentile'' float_zero),
         MemoryPercentile = positive_or defaultPercentile (numOr m ''memory_analysis_percentile'' float_zero),
         AnalysisDuration = (if hours \<le> 0 then int defaultAnalysisDuration else hours),
         RecommendOnly = boolOr m ''recommend_only'' False,
         InPlace = boolOr m ''in_place'' True,
         ResizePolicy = strField m ''resize_policy'',
         Identifier = strField m ''identifier''\<rparr>))"

fun parse_apps :: "gval list \<Rightarrow> size_err + sizing_app list" where
  "parse_apps [] = Inr []"
| "parse_apps (item # items) = (case as_map item of
     None \<Rightarrow> parse_apps items
   | Some m \<Rightarrow>
       (let app = \<lparr>ap_Name = strField m ''name'', ap_Namespace = strField m ''namespace'', ap_Kind = strField m ''kind''\<rparr> in
        if ap_Name app = [] \<or> ap_Namespace app = [] \<or> ap_Kind app = [] then Inl (ApplicationFields m)
        else (case parse_apps items of Inl err \<Rightarrow> Inl err | Inr apps \<Rightarrow> Inr (app # apps))))"

definition parseApplications :: "gval \<Rightarrow> size_err + sizing_app list" where
  "parseApplications raw = (case raw of VArr items \<Rightarrow> parse_apps items | _ \<Rightarrow> Inl ApplicationsNotList)"

section \<open>Units\<close>

text \<open>\<open>quantity\<close> is the Kubernetes parser followed by the conversion to a float.\<close>

definition parse_amount :: "(string \<Rightarrow> float64 option) \<Rightarrow> string \<Rightarrow> float64" where
  "parse_amount quantity s0 = (let s = trim_space s0 in
     if s = [] then float_zero else (case quantity s of None \<Rightarrow> float_zero | Some f \<Rightarrow> f))"

definition parseCPUCores :: "(string \<Rightarrow> float64 option) \<Rightarrow> string \<Rightarrow> float64" where
  "parseCPUCores = parse_amount"

definition units_parseMemBytes :: "(string \<Rightarrow> float64 option) \<Rightarrow> string \<Rightarrow> float64" where
  "units_parseMemBytes = parse_amount"

text \<open>\<open>math.Pow(1024, i)\<close>, exact for the exponents in use.\<close>

definition pow1024 :: "nat \<Rightarrow> float64" where
  "pow1024 i = FFin False 1 (10 * int i)"

fun unit_loop :: "float64 \<Rightarrow> nat \<Rightarrow> string list \<Rightarrow> string" where
  "unit_loop xi i [] = int_dec (int_of_float xi)"
| "unit_loop xi i (unit # units) =
     (if float_less xi (pow1024 (i + 1)) \<or> units = [] \<or> float_less (float_div xi (pow1024 (i + 1))) (float_of_nat 10)
      then fmt_fixed 0 (float_mul (float_ceil (float_div (float_div xi (pow1024 i)) (float_of_nat 10))) (float_of_nat 10)) @ unit
      else unit_loop xi (i + 1) units)"

definition formatAndRoundUnit :: "float64 \<Rightarrow> string" where
  "formatAndRoundUnit x =
     (if float_less x (float_of_nat 1) then int_dec (int_of_float (float_mul x (float_of_nat 1000))) @ ''m''
      else if float_less x (float_of_nat 500) then fmt_float x
      else unit_loop (float_floor x) 0 [[], ''Ki'', ''Mi'', ''Gi'', ''Ti'', ''Pi'', ''Ei''])"

section \<open>Usage\<close>

definition quantileFraction :: "float64 \<Rightarrow> string" where
  "quantileFraction percentile =
     (let f = float_div (float_round percentile) (float_of_nat 100);
          f1 = (if float_less (float_of_nat 1) f then float_of_nat 1 else f);
          f2 = (if float_less f1 float_zero then float_zero else f1)
      in fmt_float f2)"

text \<open>The selector of a workload's containers, and the subquery over the analysis window.\<close>

definition quoted :: "string \<Rightarrow> string" where
  "quoted s = [CHR 0x22] @ s @ [CHR 0x22]"

definition container_selector :: "sizing_app \<Rightarrow> string \<Rightarrow> string" where
  "container_selector app container =
     ''namespace='' @ quoted (ap_Namespace app) @ '',pod=~'' @ quoted (ap_Name app @ ''-.*'') @ '',container='' @ quoted container"

definition duration_hours :: "settings \<Rightarrow> string" where
  "duration_hours s = int_dec (AnalysisDuration s) @ ''h''"

definition cpuUsageQuery :: "settings \<Rightarrow> sizing_app \<Rightarrow> string \<Rightarrow> string" where
  "cpuUsageQuery s app container =
     ''quantile_over_time('' @ quantileFraction (CPUPercentile s) @ '', max(rate(container_cpu_usage_seconds_total{'' @
     container_selector app container @ ''}[1m])) by (container, pod, job, namespace)['' @ duration_hours s @ '':1m])''"

definition memoryUsageQuery :: "settings \<Rightarrow> sizing_app \<Rightarrow> string \<Rightarrow> string" where
  "memoryUsageQuery s app container =
     ''quantile_over_time('' @ quantileFraction (MemoryPercentile s) @ '', max(container_memory_usage_bytes{'' @
     container_selector app container @ ''}) by (container, pod, job, namespace)['' @ duration_hours s @ '':1m])''"

definition oomKillQuery :: "settings \<Rightarrow> sizing_app \<Rightarrow> string \<Rightarrow> string" where
  "oomKillQuery s app container =
     ''max_over_time((max(kube_pod_container_resource_limits{resource='' @ quoted ''memory'' @ '','' @
     container_selector app container @ ''}) by (pod, container, namespace, job) '' @
     ''* on(pod, container, namespace, job) group_left(reason) '' @
     ''max(kube_pod_container_status_last_terminated_reason{reason='' @ quoted ''OOMKilled'' @ '','' @
     container_selector app container @ ''}) by (pod, container, job, namespace, reason))['' @ duration_hours s @ '':1m])''"

text \<open>What one workload meets: the workload and its label selector, the server version, Prometheus with
  the decoder of its answers (status and sample values), the pod list, the resize requests, the
  polled pod conditions (type, status, reason) and the ended context, both per attempt, the update,
  the clock and the quantity parser.\<close>

record sized_obj =
  so_obj :: workload_obj
  so_labels :: "(string, string) gomap"

type_synonym condition = "string \<times> string \<times> string"

record sizer_env =
  se_client :: bool
  se_get :: "string \<Rightarrow> string \<Rightarrow> string \<Rightarrow> sized_obj option"
  se_query :: "string \<Rightarrow> string option"
  se_decode :: "string \<Rightarrow> (string \<times> gval list list) option"
  se_pods :: "string \<Rightarrow> string \<Rightarrow> string list option"
  se_resize :: "string \<Rightarrow> string \<Rightarrow> string \<Rightarrow> bool"
  se_poll :: "nat \<Rightarrow> string \<Rightarrow> condition list option"
  se_done :: "nat \<Rightarrow> bool"
  se_update :: "workload_obj \<Rightarrow> bool"
  se_now :: time
  se_quantity :: "string \<Rightarrow> float64 option"

definition toFloat :: "gval \<Rightarrow> float64 option" where
  "toFloat v = (case v of VFloat f \<Rightarrow> Some f | VStr s \<Rightarrow> parse_float s | _ \<Rightarrow> None)"

text \<open>One series: the greatest sample so far, a NaN when there is none.\<close>

definition max_sample :: "float64 \<Rightarrow> gval list \<Rightarrow> float64" where
  "max_sample mx value = (case value of
     ts # v # _ \<Rightarrow> (case toFloat v of
       None \<Rightarrow> mx
     | Some f \<Rightarrow> if f = FNaN then mx else if mx = FNaN \<or> float_less mx f then f else mx)
   | _ \<Rightarrow> mx)"

definition queryMax :: "sizer_env \<Rightarrow> string \<Rightarrow> (float64 \<times> bool) option" where
  "queryMax env promQL = (case se_query env promQL of
     None \<Rightarrow> None
   | Some raw \<Rightarrow> (case se_decode env raw of
       None \<Rightarrow> None
     | Some (status, series) \<Rightarrow>
         if status \<noteq> ''success'' then None
         else (let mx = foldl max_sample FNaN series in
           if mx = FNaN then Some (float_zero, series \<noteq> []) else Some (mx, True))))"

record container_stat =
  cpuP99 :: float64
  memoryMax :: float64
  oomKill :: float64
  hasData :: bool

definition getResourceUsage :: "sizer_env \<Rightarrow> settings \<Rightarrow> sizing_app \<Rightarrow> string \<Rightarrow> size_err + container_stat" where
  "getResourceUsage env s app container =
     (case queryMax env (cpuUsageQuery s app container) of
        None \<Rightarrow> Inl (CPUQuery container)
      | Some (cpu, cpuOK) \<Rightarrow> (case queryMax env (memoryUsageQuery s app container) of
          None \<Rightarrow> Inl (MemoryQuery container)
        | Some (mem, memOK) \<Rightarrow>
            Inr \<lparr>cpuP99 = cpu, memoryMax = mem,
              oomKill = (case queryMax env (oomKillQuery s app container) of None \<Rightarrow> float_zero | Some (oom, _) \<Rightarrow> oom),
              hasData = (cpuOK \<or> memOK)\<rparr>))"

section \<open>Recommendation\<close>

definition getRecommendedCPU :: "settings \<Rightarrow> float64 \<Rightarrow> float64" where
  "getRecommendedCPU s cpu =
     float_max (float_div (float_ceil (float_mul cpu (float_of_nat 1000))) (float_of_nat 1000)) (MinCPU s)"

definition getRecommendedMemory :: "settings \<Rightarrow> float64 \<Rightarrow> float64 \<Rightarrow> float64" where
  "getRecommendedMemory s memory oomKillLimit =
     (let rec = (if float_less float_zero oomKillLimit then float_max memory (float_mul oomKillLimit (OOMKillFactor s)) else memory)
      in float_max rec (MinMemoryBytes s))"

definition pctChange :: "float64 \<Rightarrow> float64 \<Rightarrow> float64" where
  "pctChange rec current =
     (if float_eq current float_zero then float_of_nat 100
      else float_mul (float_div (float_abs (float_sub rec current)) current) (float_of_nat 100))"

text \<open>The recommendation as it would be written: cpu request, memory request, memory limit.\<close>

definition recommended :: "sizer_env \<Rightarrow> settings \<Rightarrow> container_stat \<Rightarrow> res4 \<Rightarrow> string \<times> string \<times> string" where
  "recommended env s stat cur = (case cur of (reqCPU, reqMem, limCPU, limMem) \<Rightarrow>
     (let recMem = getRecommendedMemory s (memoryMax stat) (oomKill stat);
          lim = float_mul recMem memoryLimitHeadroom;
          currentMem = units_parseMemBytes (se_quantity env) reqMem;
          recMemLimit = (if float_less lim currentMem then currentMem else lim)
      in (formatAndRoundUnit (getRecommendedCPU s (cpuP99 stat)), formatAndRoundUnit recMem, formatAndRoundUnit recMemLimit)))"

datatype decision = Within | TooLarge | Due

definition decide :: "settings \<Rightarrow> float64 \<Rightarrow> decision" where
  "decide s pct =
     (if float_le pct (ChangeThreshold s) then Within else if float_le (MaxChangeThreshold s) pct then TooLarge else Due)"

definition cpu_pct :: "sizer_env \<Rightarrow> string \<Rightarrow> string \<Rightarrow> float64" where
  "cpu_pct env rec current = pctChange (parseCPUCores (se_quantity env) rec) (parseCPUCores (se_quantity env) current)"

definition mem_pct :: "sizer_env \<Rightarrow> string \<Rightarrow> string \<Rightarrow> float64" where
  "mem_pct env rec current = pctChange (units_parseMemBytes (se_quantity env) rec) (units_parseMemBytes (se_quantity env) current)"

definition orZero :: "string \<Rightarrow> string" where
  "orZero s = (if s = [] then ''0'' else s)"

definition skip_note :: "settings \<Rightarrow> string \<Rightarrow> float64 \<Rightarrow> string \<Rightarrow> string \<Rightarrow> string" where
  "skip_note s what pct current rec =
     what @ '' change '' @ fmt_fixed 1 pct @ ''% >= max '' @ fmt_fixed 0 (MaxChangeThreshold s) @ ''% (current '' @ orZero current @
     [CHR '' '', CHR 0xE2, CHR 0x86, CHR 0x92, CHR '' ''] @ ''recommended '' @ rec @ '')''"

definition nullable :: "string \<Rightarrow> gval" where
  "nullable s = (if s = [] then VNil else VStr s)"

definition resources_of :: "string \<Rightarrow> string \<Rightarrow> string \<Rightarrow> string \<Rightarrow> gval" where
  "resources_of reqCPU reqMem limCPU limMem =
     VObj [(''requests'', VObj [(''cpu'', VStr reqCPU), (''memory'', VStr reqMem)]),
           (''limits'', VObj [(''cpu'', VStr limCPU), (''memory'', VStr limMem)])]"

section \<open>One container\<close>

record in_place_target =
  it_name :: string
  it_res :: res4

definition resizePolicyList :: "string \<Rightarrow> gval option" where
  "resizePolicyList mode0 = (let mode = to_lower (trim_space mode0) in
     if mode \<in> {''disabled'', ''off'', ''no'', ''false''} then None
     else Some (VArr
       [VObj [(''resourceName'', VStr ''cpu''), (''restartPolicy'', VStr ''NotRequired'')],
        VObj [(''resourceName'', VStr ''memory''),
          (''restartPolicy'', VStr (if mode = ''restart-memory'' then ''RestartContainer'' else ''NotRequired''))]]))"

definition stamp_policy :: "settings \<Rightarrow> bool \<Rightarrow> gmap \<Rightarrow> gmap" where
  "stamp_policy s inPlaceEligible c =
     (if inPlaceEligible \<and> map_of c ''resizePolicy'' = None
      then (case resizePolicyList (ResizePolicy s) of None \<Rightarrow> c | Some rp \<Rightarrow> map_put ''resizePolicy'' rp c)
      else c)"

text \<open>The four values after the decisions.\<close>

definition new_values :: "decision \<Rightarrow> decision \<Rightarrow> string \<times> string \<times> string \<Rightarrow> res4 \<Rightarrow> res4" where
  "new_values dm dc rec cur = (case (rec, cur) of ((recCPU, recMem, recMemLimit), (reqCPU, reqMem, limCPU, limMem)) \<Rightarrow>
     (if dc = Due then recCPU else reqCPU, if dm = Due then recMem else reqMem,
      if dc = Due then [] else limCPU, if dm = Due then recMemLimit else limMem))"

text \<open>What a container with usage data contributes: the container as the template would hold it, the
  in-place target when it changed, the result entry and the annotation entry.\<close>

record container_size =
  cz_new :: gval
  cz_target :: "in_place_target option"
  cz_result :: gval
  cz_change :: gval

definition size_container :: "sizer_env \<Rightarrow> settings \<Rightarrow> bool \<Rightarrow> container_stat \<Rightarrow> gmap \<Rightarrow> container_size" where
  "size_container env s inPlaceEligible stat c =
     (let name = as_str (mget c ''name''); cur = containerResourceStrings c in
      case (cur, recommended env s stat cur) of ((reqCPU, reqMem, limCPU, limMem), (recCPU, recMem, recMemLimit)) \<Rightarrow>
       (let cpuPct = cpu_pct env recCPU reqCPU; memPct = mem_pct env recMem reqMem;
            dm = decide s memPct; dc = decide s cpuPct;
            changed = (dm = Due \<or> dc = Due);
            vals = new_values dm dc (recCPU, recMem, recMemLimit) cur;
            skipped = (if dm = TooLarge then [skip_note s ''memory'' memPct reqMem recMem] else []) @
                      (if dc = TooLarge then [skip_note s ''cpu'' cpuPct reqCPU recCPU] else [])
        in \<lparr>cz_new = VObj (if changed then stamp_policy s inPlaceEligible (setContainerResources vals c) else c),
            cz_target = (if changed then Some \<lparr>it_name = name, it_res = vals\<rparr> else None),
            cz_result = VObj ([(''name'', VStr name), (''resources'', resources_of reqCPU reqMem limCPU limMem),
              (''recommended_resources'', resources_of recCPU recMem [] recMemLimit), (''changed'', VBool changed)] @
              (if skipped = [] then [] else [(''skipped'', VArr (map VStr skipped))])),
            cz_change = VObj [(''container_name'', VStr name), (''cpu_request'', VStr recCPU), (''cpu_limit'', VNil),
              (''memory_request'', VStr recMem), (''memory_limit'', VStr recMemLimit),
              (''prev_cpu_request'', nullable reqCPU), (''prev_cpu_limit'', nullable limCPU),
              (''prev_memory_request'', nullable reqMem), (''prev_memory_limit'', nullable limMem)]\<rparr>))"

text \<open>One turn of the loop over the containers: the container as the template would hold it and, for one
  with usage data, its sizing.\<close>

definition size_one :: "sizer_env \<Rightarrow> settings \<Rightarrow> sizing_app \<Rightarrow> bool \<Rightarrow> gval \<Rightarrow> size_err + (gval \<times> container_size option)" where
  "size_one env s app eligible raw = (case as_map raw of
     None \<Rightarrow> Inr (raw, None)
   | Some c \<Rightarrow> (case getResourceUsage env s app (as_str (mget c ''name'')) of
       Inl err \<Rightarrow> Inl err
     | Inr stat \<Rightarrow> Inr (if hasData stat
         then (let z = size_container env s eligible stat c in (cz_new z, Some z)) else (raw, None))))"

fun size_loop :: "sizer_env \<Rightarrow> settings \<Rightarrow> sizing_app \<Rightarrow> bool \<Rightarrow> gval list \<Rightarrow> size_err + (gval \<times> container_size option) list" where
  "size_loop env s app eligible [] = Inr []"
| "size_loop env s app eligible (raw # cs) = (case size_one env s app eligible raw of
     Inl err \<Rightarrow> Inl err
   | Inr r \<Rightarrow> (case size_loop env s app eligible cs of Inl err \<Rightarrow> Inl err | Inr rs \<Rightarrow> Inr (r # rs)))"

section \<open>Resizing in place\<close>

definition inPlaceMinMajor :: int where "inPlaceMinMajor = 1"
definition inPlaceMinMinor :: int where "inPlaceMinMinor = 35"
definition resizePollAttempts :: nat where "resizePollAttempts = 20"

text \<open>The numbers of \<open>^v?(\d+)\.(\d+)\<close>; \<open>Atoi\<close> gives the greatest integer for a number out of range.\<close>

definition version_numbers :: "string \<Rightarrow> (int \<times> int) option" where
  "version_numbers s0 =
     (let s = (case s0 of c # cs \<Rightarrow> if c = CHR ''v'' then cs else s0 | [] \<Rightarrow> []);
          major = takeWhile is_digit s; r = dropWhile is_digit s;
          minor = (case r of c # cs \<Rightarrow> if c = CHR ''.'' then takeWhile is_digit cs else [] | [] \<Rightarrow> [])
      in if major = [] \<or> minor = [] then None else Some (min (int (dec_val major)) max_int64, min (int (dec_val minor)) max_int64))"

definition k8sAtLeastInPlace :: "string \<Rightarrow> bool" where
  "k8sAtLeastInPlace gitVersion = (case version_numbers (trim_space gitVersion) of
     None \<Rightarrow> False
   | Some (major, minor) \<Rightarrow> inPlaceMinMajor < major \<or> (major = inPlaceMinMajor \<and> inPlaceMinMinor \<le> minor))"

text \<open>The server version is \<open>None\<close> when discovery fails.\<close>

definition supportsInPlaceResize :: "bool \<Rightarrow> string option \<Rightarrow> bool" where
  "supportsInPlaceResize client version = (client \<and> (case version of None \<Rightarrow> False | Some v \<Rightarrow> k8sAtLeastInPlace v))"

datatype resize_state = ResizeDone | ResizeInfeasible | ResizePending | ResizeInProgress

fun resizeState :: "condition list \<Rightarrow> resize_state" where
  "resizeState [] = ResizeDone"
| "resizeState ((type, status, reason) # cs) =
     (if status \<noteq> ''True'' then resizeState cs
      else if type = ''PodResizePending'' then (if equal_fold reason ''Infeasible'' then ResizeInfeasible else ResizePending)
      else if type = ''PodResizeInProgress'' then (if equal_fold reason ''Error'' then ResizeInfeasible else ResizeInProgress)
      else resizeState cs)"

definition set_values :: "(string \<times> string) list \<Rightarrow> gmap" where
  "set_values kvs = map (\<lambda>p. (fst p, VStr (snd p))) (filter (\<lambda>p. snd p \<noteq> []) kvs)"

definition patch_container :: "in_place_target \<Rightarrow> gval option" where
  "patch_container t = (case it_res t of (reqCPU, reqMem, limCPU, limMem) \<Rightarrow>
     (let requests = set_values [(''cpu'', reqCPU), (''memory'', reqMem)];
          limits = set_values [(''cpu'', limCPU), (''memory'', limMem)];
          resources = (if requests = [] then [] else [(''requests'', VObj requests)]) @
                      (if limits = [] then [] else [(''limits'', VObj limits)])
      in if resources = [] then None else Some (VObj [(''name'', VStr (it_name t)), (''resources'', VObj resources)])))"

definition buildResizePatch :: "in_place_target list \<Rightarrow> string option" where
  "buildResizePatch targets = (let containers = List.map_filter patch_container targets in
     if containers = [] then None else json_marshal (VObj [(''spec'', VObj [(''containers'', VArr containers)])]))"

text \<open>One round over the pending pods, in the order \<open>it\<close> in which Go iterates over them: the pods that
  stay pending, \<open>None\<close> for an infeasible one.\<close>

fun poll_pods :: "sizer_env \<Rightarrow> nat \<Rightarrow> string list \<Rightarrow> string list option" where
  "poll_pods env k [] = Some []"
| "poll_pods env k (p # ps) = (case map_option resizeState (se_poll env k p) of
     Some ResizeDone \<Rightarrow> poll_pods env k ps
   | Some ResizeInfeasible \<Rightarrow> None
   | _ \<Rightarrow> map_option (Cons p) (poll_pods env k ps))"

fun poll_loop :: "(string list \<Rightarrow> string list) \<Rightarrow> sizer_env \<Rightarrow> nat \<Rightarrow> nat \<Rightarrow> string list \<Rightarrow> bool" where
  "poll_loop it env k 0 pending = False"
| "poll_loop it env k (Suc n) pending = (case poll_pods env k (it pending) of
     None \<Rightarrow> False
   | Some rest \<Rightarrow> rest = [] \<or> (\<not> se_done env k \<and> poll_loop it env (Suc k) n rest))"

text \<open>The resize requests up to the first refusal.\<close>

datatype sizer_call = ResizePod string string string | UpdateWorkload string string string workload_obj

fun patch_pods :: "sizer_env \<Rightarrow> string \<Rightarrow> string \<Rightarrow> string list \<Rightarrow> bool \<times> sizer_call list" where
  "patch_pods env namespace patch [] = (True, [])"
| "patch_pods env namespace patch (p # ps) =
     (if \<not> se_resize env namespace p patch then (False, [ResizePod namespace p patch])
      else (case patch_pods env namespace patch ps of (ok, calls) \<Rightarrow> (ok, ResizePod namespace p patch # calls)))"

definition selector_of :: "(string, string) gomap \<Rightarrow> string" where
  "selector_of labels = join '','' (sort_strings (map (\<lambda>p. fst p @ ''='' @ snd p) labels))"

definition applyInPlace ::
  "(string list \<Rightarrow> string list) \<Rightarrow> sizer_env \<Rightarrow> sizing_app \<Rightarrow> sized_obj \<Rightarrow> in_place_target list \<Rightarrow> bool \<times> sizer_call list" where
  "applyInPlace it env app obj targets =
     (if \<not> se_client env \<or> targets = [] \<or> so_labels obj = [] then (False, [])
      else (case se_pods env (ap_Namespace app) (selector_of (so_labels obj)) of
        None \<Rightarrow> (False, [])
      | Some pods \<Rightarrow>
          if pods = [] then (False, [])
          else (case buildResizePatch targets of
            None \<Rightarrow> (False, [])
          | Some patch \<Rightarrow> (case patch_pods env (ap_Namespace app) patch pods of (ok, calls) \<Rightarrow>
              (ok \<and> poll_loop it env 0 resizePollAttempts (remdups pods), calls)))))"

section \<open>One workload\<close>

definition format_micro :: "time \<Rightarrow> string" where
  "format_micro t =
     (let us = nat_dec (nat (t mod second div 1000)) in
      butlast (format_rfc3339 t) @ ''.'' @ replicate (6 - length us) CHR ''0'' @ us)"

definition annotationValue :: "time \<Rightarrow> string \<Rightarrow> gval list \<Rightarrow> string option" where
  "annotationValue now identifier changes =
     json_marshal (VObj [(''identifier'', VStr identifier), (''time'', VStr (format_micro now)), (''container_changes'', VArr changes)])"

definition writeAnnotation :: "time \<Rightarrow> string \<Rightarrow> gval list \<Rightarrow> workload_obj \<Rightarrow> workload_obj" where
  "writeAnnotation now identifier changes obj = (case annotationValue now identifier changes of
     None \<Rightarrow> obj
   | Some value \<Rightarrow> obj\<lparr>wo_annotations := Some (map_put annotationKey value
       (case wo_annotations obj of None \<Rightarrow> [] | Some m \<Rightarrow> m))\<rparr>)"

definition supportedKinds :: "string set" where
  "supportedKinds = {''Deployment'', ''StatefulSet'', ''DaemonSet'', ''ReplicaSet'', ''Rollout''}"

text \<open>Writing the change: to the pods and, for the backend, the annotation; or to the template. Storing
  the slice in the path it was read from cannot fail.\<close>

definition store_change ::
  "(string list \<Rightarrow> string list) \<Rightarrow> sizer_env \<Rightarrow> settings \<Rightarrow> sizing_app \<Rightarrow> bool \<Rightarrow> sized_obj \<Rightarrow> (gval \<times> container_size option) list \<Rightarrow>
   size_err option \<times> sizer_call list" where
  "store_change it env s app eligible obj rs =
     (let zs = List.map_filter snd rs;
          note = writeAnnotation (se_now env) (Identifier s) (map cz_change zs);
          send = UpdateWorkload (ap_Kind app) (ap_Namespace app) (ap_Name app)
      in case (if eligible then applyInPlace it env app obj (List.map_filter cz_target zs) else (False, [])) of (inPlace, calls) \<Rightarrow>
        if inPlace then (None, calls @ [send (note (so_obj obj))])
        else (let obj1 = note ((so_obj obj)\<lparr>wo_containers := Slice (map fst rs)\<rparr>) in
          (if se_update env obj1 then None else Some SizeApply, calls @ [send obj1])))"

definition rightsizeWorkload ::
  "(string list \<Rightarrow> string list) \<Rightarrow> sizer_env \<Rightarrow> settings \<Rightarrow> sizing_app \<Rightarrow> bool \<Rightarrow> (size_err + gval) \<times> sizer_call list" where
  "rightsizeWorkload it env s app eligible =
     (if ap_Kind app \<notin> supportedKinds then (Inl (SizeUnsupported (ap_Kind app)), [])
      else (case se_get env (ap_Kind app) (ap_Namespace app) (ap_Name app) of
        None \<Rightarrow> (Inl SizeGet, [])
      | Some obj \<Rightarrow> (case wo_containers (so_obj obj) of
          Slice (c # cs) \<Rightarrow> (case size_loop env s app eligible (c # cs) of
            Inl err \<Rightarrow> (Inl err, [])
          | Inr rs \<Rightarrow>
              (let zs = List.map_filter snd rs;
                   result = VObj [(''name'', VStr (ap_Name app)), (''namespace'', VStr (ap_Namespace app)), (''kind'', VStr (ap_Kind app)),
                     (''containers'', VArr (map cz_result zs))]
               in if list_ex (\<lambda>z. cz_target z \<noteq> None) zs \<and> \<not> RecommendOnly s
                  then (case store_change it env s app eligible obj rs of
                    (None, calls) \<Rightarrow> (Inr result, calls) | (Some err, calls) \<Rightarrow> (Inl err, calls))
                  else (Inr result, [])))
        | _ \<Rightarrow> (Inl SizeNoContainers, []))))"

section \<open>The action\<close>

text \<open>Each workload has its own environment; the run ends at the first error.\<close>

fun size_apps ::
  "(string list \<Rightarrow> string list) \<Rightarrow> settings \<Rightarrow> bool \<Rightarrow> (sizing_app \<times> sizer_env) list \<Rightarrow> (size_err + gval list) \<times> sizer_call list" where
  "size_apps it s eligible [] = (Inr [], [])"
| "size_apps it s eligible ((app, env) # rest) = (case rightsizeWorkload it env s app eligible of
     (Inl err, calls) \<Rightarrow> (Inl err, calls)
   | (Inr res, calls) \<Rightarrow> (case size_apps it s eligible rest of
       (Inl err, later) \<Rightarrow> (Inl err, calls @ later) | (Inr rs, later) \<Rightarrow> (Inr (res # rs), calls @ later)))"

definition Run ::
  "(string list \<Rightarrow> string list) \<Rightarrow> bool \<Rightarrow> string option \<Rightarrow> (nat \<Rightarrow> sizer_env) \<Rightarrow> settings \<Rightarrow> sizing_app list \<Rightarrow>
   (size_err + gval list) \<times> sizer_call list" where
  "Run it client version envs s apps =
     size_apps it s (InPlace s \<and> supportsInPlaceResize client version) (zip apps (map envs [0..<length apps]))"

text \<open>\<open>show_err\<close> is the text of an error.\<close>

definition failure :: "(size_err \<Rightarrow> string) \<Rightarrow> size_err \<Rightarrow> gval" where
  "failure show_err err = VObj [(''success'', VBool False), (''data'', VNil), (''msg'', VStr (show_err err))]"

definition handle_rightsizing ::
  "(size_err \<Rightarrow> string) \<Rightarrow> (string list \<Rightarrow> string list) \<Rightarrow> bool \<Rightarrow> string option \<Rightarrow> (nat \<Rightarrow> sizer_env) \<Rightarrow> gmap \<Rightarrow> gval \<times> sizer_call list" where
  "handle_rightsizing show_err it client version envs params = (case parseSettings (mget params ''settings'') of
     Inl err \<Rightarrow> (failure show_err err, [])
   | Inr s \<Rightarrow> (case parseApplications (mget params ''applications'') of
       Inl err \<Rightarrow> (failure show_err err, [])
     | Inr apps \<Rightarrow>
         if apps = [] then (failure show_err NoApplications, [])
         else (case Run it client version envs s apps of
           (Inl err, calls) \<Rightarrow> (failure show_err err, calls)
         | (Inr results, calls) \<Rightarrow> (VObj [(''success'', VBool True), (''data'', VArr results)], calls))))"

section \<open>What may be written\<close>

text \<open>A change is in bounds when it is neither within the tolerance nor at the guard; for numbers that are
  not NaN it lies strictly between the two.\<close>

definition in_bounds :: "settings \<Rightarrow> float64 \<Rightarrow> bool" where
  "in_bounds s pct \<longleftrightarrow> \<not> float_le pct (ChangeThreshold s) \<and> \<not> float_le (MaxChangeThreshold s) pct"

lemma not_float_le: "x \<noteq> FNaN \<Longrightarrow> y \<noteq> FNaN \<Longrightarrow> \<not> float_le x y \<longleftrightarrow> float_less y x"
  using float_less_asym[of x y] by (cases x; cases y) (auto simp: float_le_def float_eq_def)

lemma in_bounds_between:
  "pct \<noteq> FNaN \<Longrightarrow> ChangeThreshold s \<noteq> FNaN \<Longrightarrow> MaxChangeThreshold s \<noteq> FNaN \<Longrightarrow>
   in_bounds s pct \<longleftrightarrow> float_less (ChangeThreshold s) pct \<and> float_less pct (MaxChangeThreshold s)"
  by (simp add: in_bounds_def not_float_le)

lemma decide_Due: "decide s pct = Due \<longleftrightarrow> in_bounds s pct"
  by (simp add: decide_def in_bounds_def)

text \<open>The values written for a container: each of cpu and memory is kept, or takes the recommendation for
  a change in bounds; and only with usage data.\<close>

definition guarded_values :: "sizer_env \<Rightarrow> settings \<Rightarrow> sizing_app \<Rightarrow> gmap \<Rightarrow> res4 \<Rightarrow> bool" where
  "guarded_values env s app c vals \<longleftrightarrow>
     (\<exists>stat. getResourceUsage env s app (as_str (mget c ''name'')) = Inr stat \<and> hasData stat \<and>
       (case (containerResourceStrings c, vals, recommended env s stat (containerResourceStrings c)) of
          ((reqCPU, reqMem, limCPU, limMem), (reqCPU', reqMem', limCPU', limMem'), (recCPU, recMem, recMemLimit)) \<Rightarrow>
            ((reqCPU', limCPU') = (reqCPU, limCPU) \<or> (reqCPU', limCPU') = (recCPU, []) \<and> in_bounds s (cpu_pct env recCPU reqCPU)) \<and>
            ((reqMem', limMem') = (reqMem, limMem) \<or> (reqMem', limMem') = (recMem, recMemLimit) \<and> in_bounds s (mem_pct env recMem reqMem))))"

definition guarded_container :: "sizer_env \<Rightarrow> settings \<Rightarrow> sizing_app \<Rightarrow> bool \<Rightarrow> gval \<Rightarrow> gval \<Rightarrow> bool" where
  "guarded_container env s app eligible old new \<longleftrightarrow> new = old \<or>
     (\<exists>c d. old = VObj c \<and> new = VObj d \<and> guarded_values env s app c (containerResourceStrings d) \<and>
       (\<forall>k. k \<noteq> ''resources'' \<longrightarrow> mget d k = mget c k \<or> k = ''resizePolicy'' \<and> eligible \<and> map_of c k = None))"

definition guarded_target :: "sizer_env \<Rightarrow> settings \<Rightarrow> sizing_app \<Rightarrow> gval list \<Rightarrow> in_place_target \<Rightarrow> bool" where
  "guarded_target env s app cs t \<longleftrightarrow>
     (\<exists>c. VObj c \<in> set cs \<and> it_name t = as_str (mget c ''name'') \<and> guarded_values env s app c (it_res t))"

definition other_annotations :: "workload_obj \<Rightarrow> (string, string) gomap" where
  "other_annotations obj = filter (\<lambda>p. fst p \<noteq> annotationKey) (case wo_annotations obj of None \<Rightarrow> [] | Some m \<Rightarrow> m)"

text \<open>A request the right-sizer may make for a workload.\<close>

definition allowed_call :: "sizer_env \<Rightarrow> settings \<Rightarrow> sizing_app \<Rightarrow> bool \<Rightarrow> sizer_call \<Rightarrow> bool" where
  "allowed_call env s app eligible call \<longleftrightarrow> \<not> RecommendOnly s \<and>
     (\<exists>obj cs. se_get env (ap_Kind app) (ap_Namespace app) (ap_Name app) = Some obj \<and> wo_containers (so_obj obj) = Slice cs \<and>
       (case call of
          UpdateWorkload kind namespace name obj' \<Rightarrow>
            (kind, namespace, name) = (ap_Kind app, ap_Namespace app, ap_Name app) \<and>
            other_annotations obj' = other_annotations (so_obj obj) \<and>
            (\<exists>cs'. wo_containers obj' = Slice cs' \<and> list_all2 (guarded_container env s app eligible) cs cs')
        | ResizePod namespace pod patch \<Rightarrow>
            eligible \<and> namespace = ap_Namespace app \<and>
            (\<exists>pods. se_pods env namespace (selector_of (so_labels obj)) = Some pods \<and> pod \<in> set pods) \<and>
            (\<exists>targets. buildResizePatch targets = Some patch \<and> list_all (guarded_target env s app cs) targets)))"

lemma new_values_guarded:
  assumes "getResourceUsage env s app (as_str (mget c ''name'')) = Inr stat" "hasData stat"
    and "recommended env s stat (containerResourceStrings c) = (recCPU, recMem, recMemLimit)"
    and "containerResourceStrings c = (reqCPU, reqMem, limCPU, limMem)"
  shows "guarded_values env s app c
     (new_values (decide s (mem_pct env recMem reqMem)) (decide s (cpu_pct env recCPU reqCPU)) (recCPU, recMem, recMemLimit) (containerResourceStrings c))"
  unfolding guarded_values_def using assms by (auto simp: new_values_def decide_Due)

lemma containerResourceStrings_stamp [simp]: "containerResourceStrings (stamp_policy s e c) = containerResourceStrings c"
  by (simp add: stamp_policy_def containerResourceStrings_def Let_def split: option.split)

lemma map_of_setContainerResources: "k \<noteq> ''resources'' \<Longrightarrow> map_of (setContainerResources r c) k = map_of c k"
  by (simp add: setContainerResources_def Let_def split: prod.splits)

lemma mget_stamp: "mget (stamp_policy s e c) k = mget c k \<or> k = ''resizePolicy'' \<and> e \<and> map_of c k = None"
  by (auto simp: stamp_policy_def split: option.split)

lemma size_container_guarded:
  assumes "getResourceUsage env s app (as_str (mget c ''name'')) = Inr stat" "hasData stat"
  shows "guarded_container env s app e (VObj c) (cz_new (size_container env s e stat c))"
    and "cz_target (size_container env s e stat c) = Some t \<Longrightarrow> it_name t = as_str (mget c ''name'') \<and> guarded_values env s app c (it_res t)"
proof -
  obtain recCPU recMem recMemLimit where rec: "recommended env s stat (containerResourceStrings c) = (recCPU, recMem, recMemLimit)"
    by (cases "recommended env s stat (containerResourceStrings c)")
  obtain reqCPU reqMem limCPU limMem where cur: "containerResourceStrings c = (reqCPU, reqMem, limCPU, limMem)"
    by (cases "containerResourceStrings c")
  note g = new_values_guarded[OF assms rec cur]
  have "mget (stamp_policy s e (setContainerResources r c)) k = mget c k \<or> k = ''resizePolicy'' \<and> e \<and> map_of c k = None"
    if "k \<noteq> ''resources''" for k r
    using mget_stamp[of s e "setContainerResources r c" k] that by (auto simp: map_of_setContainerResources)
  then show "guarded_container env s app e (VObj c) (cz_new (size_container env s e stat c))"
    using g rec cur by (auto simp: guarded_container_def size_container_def Let_def)
  show "cz_target (size_container env s e stat c) = Some t \<Longrightarrow> it_name t = as_str (mget c ''name'') \<and> guarded_values env s app c (it_res t)"
    using g rec cur by (auto simp: size_container_def Let_def split: if_splits)
qed

lemma size_one_guarded:
  assumes "size_one env s app e raw = Inr r"
  shows "guarded_container env s app e raw (fst r)"
    and "snd r = Some z \<Longrightarrow> cz_target z = Some t \<Longrightarrow> guarded_target env s app (raw # cs) t"
proof -
  consider "r = (raw, None)" | c stat where "raw = VObj c" "getResourceUsage env s app (as_str (mget c ''name'')) = Inr stat" "hasData stat"
      "r = (cz_new (size_container env s e stat c), Some (size_container env s e stat c))"
    using assms by (auto simp: size_one_def Let_def as_map_Some_iff split: option.splits sum.splits if_splits)
  note cases = this
  show "guarded_container env s app e raw (fst r)"
    using cases by cases (simp_all add: guarded_container_def[of _ _ _ _ raw raw] size_container_guarded)
  show "snd r = Some z \<Longrightarrow> cz_target z = Some t \<Longrightarrow> guarded_target env s app (raw # cs) t"
    using cases by cases (auto simp: guarded_target_def dest: size_container_guarded(2))
qed

lemma size_loop_guarded:
  "size_loop env s app e cs = Inr rs \<Longrightarrow>
     list_all2 (guarded_container env s app e) cs (map fst rs) \<and>
     list_all (guarded_target env s app cs) (List.map_filter cz_target (List.map_filter snd rs))"
proof (induction cs arbitrary: rs)
  case (Cons raw cs)
  then obtain r rs' where r: "size_one env s app e raw = Inr r" "size_loop env s app e cs = Inr rs'" "rs = r # rs'"
    by (auto split: sum.splits)
  have later: "guarded_target env s app (raw # cs) t" if "guarded_target env s app cs t" for t
    using that by (auto simp: guarded_target_def)
  show ?case
    using Cons.IH[OF r(2)] later size_one_guarded[OF r(1)] r(3)
    by (auto simp: map_filter_simps list_all_iff split: option.split)
qed (simp add: map_filter_simps)

lemma filter_update_key [simp]: "filter (\<lambda>p. fst p \<noteq> k) (AList.update k v m) = filter (\<lambda>p. fst p \<noteq> k) m"
  by (induction m) auto

lemma other_annotations_note [simp]: "other_annotations (writeAnnotation now i changes obj) = other_annotations obj"
  by (simp add: other_annotations_def writeAnnotation_def map_put_def split: option.split)

lemma writeAnnotation_containers [simp]: "wo_containers (writeAnnotation now i changes obj) = wo_containers obj"
  by (simp add: writeAnnotation_def split: option.split)

lemma other_annotations_containers [simp]: "other_annotations (obj\<lparr>wo_containers := cs\<rparr>) = other_annotations obj"
  by (simp add: other_annotations_def)

lemma patch_pods_calls: "call \<in> set (snd (patch_pods env ns patch pods)) \<Longrightarrow> \<exists>p\<in>set pods. call = ResizePod ns p patch"
  by (induction pods) (auto split: if_splits prod.splits)

lemma applyInPlace_calls:
  "call \<in> set (snd (applyInPlace it env app obj targets)) \<Longrightarrow>
   \<exists>pods p patch. se_pods env (ap_Namespace app) (selector_of (so_labels obj)) = Some pods \<and> p \<in> set pods \<and>
     buildResizePatch targets = Some patch \<and> call = ResizePod (ap_Namespace app) p patch"
  by (auto simp: applyInPlace_def split_beta dest!: patch_pods_calls split: if_splits option.splits)

lemma store_change_allowed:
  assumes "se_get env (ap_Kind app) (ap_Namespace app) (ap_Name app) = Some obj" "wo_containers (so_obj obj) = Slice cs"
    and "size_loop env s app e cs = Inr rs" "\<not> RecommendOnly s" "call \<in> set (snd (store_change it env s app e obj rs))"
  shows "allowed_call env s app e call"
proof -
  let ?targets = "List.map_filter cz_target (List.map_filter snd rs)"
  note g = size_loop_guarded[OF assms(3)]
  have same: "list_all2 (guarded_container env s app e) cs cs" by (simp add: list_all2_same guarded_container_def)
  have inplace: "allowed_call env s app e call" if "call \<in> set (snd (applyInPlace it env app obj ?targets))" "e"
    using applyInPlace_calls[OF that(1)] assms(1,2,4) that(2) g by (auto simp: allowed_call_def)
  have update: "allowed_call env s app e (UpdateWorkload (ap_Kind app) (ap_Namespace app) (ap_Name app) (writeAnnotation now i changes obj'))"
    if "obj' = so_obj obj \<or> obj' = (so_obj obj)\<lparr>wo_containers := Slice (map fst rs)\<rparr>" for obj' now i changes
    using that assms(1,2,4) g same by (auto simp: allowed_call_def)
  consider "e" "call \<in> set (snd (applyInPlace it env app obj ?targets))"
    | obj' now i changes where "call = UpdateWorkload (ap_Kind app) (ap_Namespace app) (ap_Name app) (writeAnnotation now i changes obj')"
      "obj' = so_obj obj \<or> obj' = (so_obj obj)\<lparr>wo_containers := Slice (map fst rs)\<rparr>"
    using assms(5) by (auto simp: store_change_def Let_def split_beta split: if_splits)
  then show ?thesis using inplace update by cases auto
qed

lemma rightsizeWorkload_allowed:
  assumes "call \<in> set (snd (rightsizeWorkload it env s app e))"
  shows "allowed_call env s app e call"
proof -
  obtain obj cs rs where o: "se_get env (ap_Kind app) (ap_Namespace app) (ap_Name app) = Some obj" "wo_containers (so_obj obj) = Slice cs"
    "size_loop env s app e cs = Inr rs" "\<not> RecommendOnly s" "call \<in> set (snd (store_change it env s app e obj rs))"
    using assms by (auto simp: rightsizeWorkload_def Let_def simp del: size_loop.simps
        split: if_splits option.splits slice_result.splits list.splits sum.splits prod.splits)
  then show ?thesis by (rule store_change_allowed)
qed

lemma size_apps_allowed:
  "call \<in> set (snd (size_apps it s e ps)) \<Longrightarrow> \<exists>(app, env)\<in>set ps. allowed_call env s app e call"
proof (induction it s e ps rule: size_apps.induct)
  case (2 it s e app env rest)
  then have "call \<in> set (snd (rightsizeWorkload it env s app e)) \<or> call \<in> set (snd (size_apps it s e rest)) \<and> \<not> isl (fst (rightsizeWorkload it env s app e))"
    by (auto split: prod.splits sum.splits)
  then show ?case
  proof
    assume "call \<in> set (snd (rightsizeWorkload it env s app e))"
    then show ?thesis using rightsizeWorkload_allowed by fastforce
  next
    assume later: "call \<in> set (snd (size_apps it s e rest)) \<and> \<not> isl (fst (rightsizeWorkload it env s app e))"
    then obtain res calls where "rightsizeWorkload it env s app e = (Inr res, calls)"
      by (cases "rightsizeWorkload it env s app e") (auto simp: isl_def split: sum.splits intro: sum.exhaust)
    with later 2(1) show ?thesis by fastforce
  qed
qed simp

lemma zip_envs: "(app, env) \<in> set (zip apps (map envs [0..<length apps])) \<Longrightarrow> \<exists>i<length apps. app = apps ! i \<and> env = envs i"
  by (auto simp: set_zip)


section \<open>A change that is due is made\<close>

definition pod_state :: "sizer_env \<Rightarrow> nat \<Rightarrow> string \<Rightarrow> resize_state option" where
  "pod_state env k p = map_option resizeState (se_poll env k p)"

text \<open>Attempts \<open>k\<close> to \<open>m\<close> settle the pods: each is seen done, and none was infeasible before.\<close>

definition settled :: "sizer_env \<Rightarrow> nat \<Rightarrow> nat \<Rightarrow> string set \<Rightarrow> bool" where
  "settled env k m pods \<longleftrightarrow> (\<forall>j\<in>{k..<m}. \<not> se_done env j) \<and>
     (\<forall>p\<in>pods. \<exists>j\<in>{k..m}. pod_state env j p = Some ResizeDone \<and> (\<forall>i\<in>{k..<j}. pod_state env i p \<notin> {Some ResizeDone, Some ResizeInfeasible}))"

lemma poll_pods_spec:
  "poll_pods env k ps = (if \<exists>p\<in>set ps. pod_state env k p = Some ResizeInfeasible then None
     else Some (filter (\<lambda>p. pod_state env k p \<noteq> Some ResizeDone) ps))"
  by (induction ps) (auto simp: pod_state_def split: option.split resize_state.split)

lemma settled_now: "settled env k k P \<longleftrightarrow> (\<forall>p\<in>P. pod_state env k p = Some ResizeDone)"
  by (simp add: settled_def)

lemma settled_step:
  assumes "k < m"
  shows "settled env k m P \<longleftrightarrow> \<not> se_done env k \<and> (\<forall>p\<in>P. pod_state env k p \<noteq> Some ResizeInfeasible) \<and>
    settled env (Suc k) m {p \<in> P. pod_state env k p \<noteq> Some ResizeDone}"
proof -
  have lo: "{k..<j} = insert k {Suc k..<j}" if "k < j" for j using that by auto
  have hi: "{k..m} = insert k {Suc k..m}" using assms by auto
  have pod: "(\<exists>j\<in>{k..m}. pod_state env j p = Some ResizeDone \<and> (\<forall>i\<in>{k..<j}. pod_state env i p \<notin> {Some ResizeDone, Some ResizeInfeasible})) \<longleftrightarrow>
      pod_state env k p = Some ResizeDone \<or> pod_state env k p \<noteq> Some ResizeInfeasible \<and> pod_state env k p \<noteq> Some ResizeDone \<and>
        (\<exists>j\<in>{Suc k..m}. pod_state env j p = Some ResizeDone \<and> (\<forall>i\<in>{Suc k..<j}. pod_state env i p \<notin> {Some ResizeDone, Some ResizeInfeasible}))" for p
    unfolding hi by (auto simp: lo)
  show ?thesis unfolding settled_def pod lo[OF assms] by auto
qed

lemma ex_from: "(\<exists>m\<ge>k. m < k + Suc n \<and> P m) \<longleftrightarrow> P k \<or> (\<exists>m\<ge>Suc k. m < Suc k + n \<and> P m)"
proof
  assume "\<exists>m\<ge>k. m < k + Suc n \<and> P m"
  then obtain m where "k \<le> m" "m < k + Suc n" "P m" by blast
  then show "P k \<or> (\<exists>m\<ge>Suc k. m < Suc k + n \<and> P m)" by (cases "m = k") (auto intro!: exI[of _ m])
next
  assume "P k \<or> (\<exists>m\<ge>Suc k. m < Suc k + n \<and> P m)"
  then show "\<exists>m\<ge>k. m < k + Suc n \<and> P m"
  proof
    assume "P k" then show ?thesis by (intro exI[of _ k]) simp
  next
    assume "\<exists>m\<ge>Suc k. m < Suc k + n \<and> P m"
    then obtain m where "Suc k \<le> m" "m < Suc k + n" "P m" by blast
    then show ?thesis by (intro exI[of _ m]) simp
  qed
qed

lemma poll_loop_settled:
  assumes "\<And>xs. set (it xs) = set xs"
  shows "poll_loop it env k n pods \<longleftrightarrow> (\<exists>m\<ge>k. m < k + n \<and> settled env k m (set pods))"
proof (induction n arbitrary: k pods)
  case (Suc n)
  let ?rest = "filter (\<lambda>p. pod_state env k p \<noteq> Some ResizeDone) (it pods)"
  have rest: "set ?rest = {p \<in> set pods. pod_state env k p \<noteq> Some ResizeDone}" using assms by auto
  have "(\<exists>m\<ge>k. m < k + Suc n \<and> settled env k m (set pods)) \<longleftrightarrow>
      settled env k k (set pods) \<or> (\<exists>m\<ge>Suc k. m < Suc k + n \<and> settled env k m (set pods))"
    by (rule ex_from)
  also have "\<dots> \<longleftrightarrow> (\<forall>p\<in>set pods. pod_state env k p \<noteq> Some ResizeInfeasible) \<and>
      (?rest = [] \<or> \<not> se_done env k \<and> (\<exists>m\<ge>Suc k. m < Suc k + n \<and> settled env (Suc k) m (set ?rest)))"
    unfolding rest using assms by (auto simp: settled_now settled_step Suc_le_eq filter_empty_conv)
  finally show ?case using assms Suc.IH[of "Suc k" ?rest] by (auto simp: poll_pods_spec)
qed simp

lemma patch_pods_ok: "fst (patch_pods env ns patch pods) \<longleftrightarrow> (\<forall>p\<in>set pods. se_resize env ns p patch)"
  by (induction pods) (auto split: prod.splits)

lemma patch_pods_all: "fst (patch_pods env ns patch pods) \<Longrightarrow> snd (patch_pods env ns patch pods) = map (\<lambda>p. ResizePod ns p patch) pods"
  by (induction pods) (auto split: prod.splits if_splits)

text \<open>The pods a workload selects were all resized in place: each accepted the patch and was seen done in
  one of the twenty rounds.\<close>

definition resized_in_place :: "sizer_env \<Rightarrow> sizing_app \<Rightarrow> sized_obj \<Rightarrow> in_place_target list \<Rightarrow> string list \<Rightarrow> string \<Rightarrow> bool" where
  "resized_in_place env app obj targets pods patch \<longleftrightarrow>
     se_pods env (ap_Namespace app) (selector_of (so_labels obj)) = Some pods \<and> pods \<noteq> [] \<and> buildResizePatch targets = Some patch \<and>
     (\<forall>p\<in>set pods. se_resize env (ap_Namespace app) p patch) \<and> (\<exists>m<20. settled env 0 m (set pods))"

lemma applyInPlace_True:
  assumes "\<And>xs. set (it xs) = set xs"
  shows "fst (applyInPlace it env app obj targets) \<longleftrightarrow> se_client env \<and> targets \<noteq> [] \<and> so_labels obj \<noteq> [] \<and>
      (\<exists>pods patch. resized_in_place env app obj targets pods patch)"
  by (auto simp: applyInPlace_def resized_in_place_def split_beta patch_pods_ok poll_loop_settled[OF assms] resizePollAttempts_def split: option.split)

lemma applyInPlace_patches:
  assumes "\<And>xs. set (it xs) = set xs" "fst (applyInPlace it env app obj targets)"
  shows "\<exists>pods patch. resized_in_place env app obj targets pods patch \<and>
      snd (applyInPlace it env app obj targets) = map (\<lambda>p. ResizePod (ap_Namespace app) p patch) pods"
proof -
  obtain pods patch where r: "se_client env" "targets \<noteq> []" "so_labels obj \<noteq> []" "resized_in_place env app obj targets pods patch"
    using assms applyInPlace_True by blast
  then have "snd (applyInPlace it env app obj targets) = snd (patch_pods env (ap_Namespace app) patch pods)"
    by (auto simp: applyInPlace_def resized_in_place_def split_beta)
  then show ?thesis using r patch_pods_all[of env "ap_Namespace app" patch pods] by (auto simp: resized_in_place_def patch_pods_ok)
qed

lemma targets_empty_iff: "List.map_filter cz_target zs = [] \<longleftrightarrow> \<not> list_ex (\<lambda>z. cz_target z \<noteq> None) zs"
  by (induction zs) (auto simp: map_filter_simps split: option.split)

text \<open>How a due change was made: in the pods, or in the template.\<close>

definition made_in_place :: "sizer_env \<Rightarrow> settings \<Rightarrow> sizing_app \<Rightarrow> sized_obj \<Rightarrow> in_place_target list \<Rightarrow> sizer_call list \<Rightarrow> bool" where
  "made_in_place env s app obj targets calls \<longleftrightarrow> (\<exists>pods patch obj'. resized_in_place env app obj targets pods patch \<and>
     wo_containers obj' = wo_containers (so_obj obj) \<and>
     calls = map (\<lambda>p. ResizePod (ap_Namespace app) p patch) pods @ [UpdateWorkload (ap_Kind app) (ap_Namespace app) (ap_Name app) obj'])"

definition sent_to_template :: "(workload_obj \<Rightarrow> bool) \<Rightarrow> sizing_app \<Rightarrow> gval list \<Rightarrow> sizer_call list \<Rightarrow> bool" where
  "sent_to_template answer app cs calls \<longleftrightarrow> (\<exists>resizes obj'. wo_containers obj' = Slice cs \<and> answer obj' \<and>
     calls = resizes @ [UpdateWorkload (ap_Kind app) (ap_Namespace app) (ap_Name app) obj'])"

lemma store_change_made:
  assumes "\<And>xs. set (it xs) = set xs"
  shows "case store_change it env s app e obj rs of
      (None, calls) \<Rightarrow> e \<and> made_in_place env s app obj (List.map_filter cz_target (List.map_filter snd rs)) calls \<or>
        sent_to_template (se_update env) app (map fst rs) calls
    | (Some err, calls) \<Rightarrow> err = SizeApply \<and> sent_to_template (\<lambda>obj'. \<not> se_update env obj') app (map fst rs) calls"
proof (cases "e \<and> fst (applyInPlace it env app obj (List.map_filter cz_target (List.map_filter snd rs)))")
  case True
  let ?r = "applyInPlace it env app obj (List.map_filter cz_target (List.map_filter snd rs))"
  obtain pods patch where r: "resized_in_place env app obj (List.map_filter cz_target (List.map_filter snd rs)) pods patch"
    "snd ?r = map (\<lambda>p. ResizePod (ap_Namespace app) p patch) pods"
    using applyInPlace_patches[OF assms] True by blast
  then show ?thesis using True by (fastforce simp: store_change_def made_in_place_def Let_def split_beta)
next
  case False
  then obtain calls where
    "(if e then applyInPlace it env app obj (List.map_filter cz_target (List.map_filter snd rs)) else (False, [])) = (False, calls)"
    by (cases "applyInPlace it env app obj (List.map_filter cz_target (List.map_filter snd rs))") (cases e; auto)
  then show ?thesis by (simp add: store_change_def sent_to_template_def Let_def)
qed


text \<open>A deployment with one pod, whose container has no usage series.\<close>

definition sample_sizer_env :: sizer_env where
  "sample_sizer_env =
     \<lparr>se_client = True,
      se_get = (\<lambda>_ _ _. Some \<lparr>so_obj = \<lparr>wo_containers = Slice [VObj (sample_container ''1Gi'')], wo_annotations = None\<rparr>, so_labels = [(''app'', ''d'')]\<rparr>),
      se_query = (\<lambda>_. Some []), se_decode = (\<lambda>_. Some (''success'', [])), se_pods = (\<lambda>_ _. Some [''d-1'']),
      se_resize = (\<lambda>_ _ _. True), se_poll = (\<lambda>_ _. Some []), se_done = (\<lambda>_. False), se_update = (\<lambda>_. True), se_now = 0,
      se_quantity = (\<lambda>_. None)\<rparr>"

definition sample_settings :: settings where
  "sample_settings = (case parseSettings (VObj []) of Inr s \<Rightarrow> s)"

definition sample_application :: sizing_app where
  "sample_application = \<lparr>ap_Name = ''d'', ap_Namespace = ''n'', ap_Kind = ''Deployment''\<rparr>"


section \<open>A missing series\<close>

text \<open>A container with a cpu series but no memory series counts as having data, and its memory is
  recommended down to the floor.\<close>

lemma memory_floor_without_series:
  assumes "queryMax env (cpuUsageQuery s app c) = Some (cpu, True)"
    and "queryMax env (memoryUsageQuery s app c) = Some (float_zero, False)"
    and "queryMax env (oomKillQuery s app c) = Some (float_zero, False)" and "float_less float_zero (MinMemoryBytes s)"
  shows "\<exists>stat. getResourceUsage env s app c = Inr stat \<and> hasData stat \<and>
    fst (snd (recommended env s stat cur)) = formatAndRoundUnit (MinMemoryBytes s)"
proof -
  have "getRecommendedMemory s float_zero float_zero = MinMemoryBytes s"
    using assms(4) by (simp add: getRecommendedMemory_def float_max_zero)
  then show ?thesis using assms(1-3) by (cases cur) (simp add: getResourceUsage_def recommended_def Let_def)
qed

end
