(* ===== verification/Pvc.thy ===== *)
theory Pvc
  imports GoTime GoValue
begin

text \<open>
  Resizing and deleting volumes: \<open>pkg/mutate/pvc.go\<close>, \<open>pvcdownsize.go\<close> and \<open>pvcdownsize_helpers.go\<close>. Every
  request to the API server, every reading of the clock and every sleep is an entry of a history; the
  environment answers from the history so far, so it may fail any request at any time. A program
  that polls may not end, which is \<open>None\<close>. All requests are made in the namespace of the claim, which
  is left out of them. \<open>PvcSafety\<close> proves what happens to the data.
\<close>

section \<open>Objects\<close>

datatype reclaim = ReclaimRetain | ReclaimDelete | ReclaimRecycle

text \<open>A claim; sizes are quantities in their smallest unit, \<open>0\<close> for an absent one. The selector and the
  two data sources are opaque texts.\<close>

record pvc_obj =
  pc_phase :: string
  pc_volume :: string
  pc_class :: "string option"
  pc_mode :: "string option"
  pc_modes :: "string list"
  pc_labels :: "(string, string) gomap"
  pc_annotations :: "(string, string) gomap"
  pc_request :: int
  pc_capacity :: int
  pc_selector :: "string option"
  pc_dataSource :: "string option"
  pc_dataSourceRef :: "string option"

record pv_obj =
  pv_name :: string
  pv_hostPath :: bool
  pv_reclaim :: reclaim
  pv_claim :: "(string \<times> string) option"

datatype wkind = Deployment | StatefulSet

text \<open>A workload: the claims its volumes name, the names of its claim templates, its selector.\<close>

record pvc_workload =
  wl_name :: string
  wl_volumes :: "string option list"
  wl_templates :: "string list"
  wl_selector :: "(string, string) gomap option"

datatype vcall =
    GetPVC string | GetPV string | GetClass string | ListDeployments | ListStatefulSets
  | GetReplicas wkind string | SetReplicas wkind string int | ListPods string
  | CreatePVC string pvc_obj | CreatePod string string string string | GetPod string | ExecCopy string int | RemovePod string
  | GetVolumes string | SetVolumes string "string option list"
  | PatchReclaim string reclaim | DeletePVC string | DeletePV string | DeleteClaim string string | PatchSize string int
  | Now | Sleep duration

datatype vanswer =
    ADone | ANotFound | AConflict | AFailed | ACtx | APVC pvc_obj | APV pv_obj | AClass "bool option"
  | AWorkloads "pvc_workload list" | AReplicas "int option" | APods nat | APhase string | AExec int string
  | AVolumes "string option list" | ATime time

type_synonym history = "(vcall \<times> vanswer) list"
type_synonym vol_env = "history \<Rightarrow> vcall \<Rightarrow> vanswer"

datatype vol_err =
    NoVolClient | NoPodExec | VolParams | BadSize | PvcGet | PvcNotBound | PvcNoVolume | PvGet | PvHostPath | PvcNoClass | ClassGet
  | ClassNoExpansion | PvcPatch | WorkloadList | NoWorkload | ScaleErr | ScaleRetries | PodsList | PodsTimeout | CtxErr
  | PvcCreate | MoverCreate | MoverGet | MoverFailed | MoverTimeout | CopyExec | CopyExit int | CopyMarker
  | PvcReread | ParityFailed | DepGet | DepNoVolume | DepRepoint | DepRetries | PvPatch | PvcDelete | PvcPoll | PvcDeleteTimeout | PvDelete

section \<open>Programs\<close>

text \<open>The history, newest first, and the variables that the deferred rollback of a migration reads: the
  old replica count, whether the reclaim policy was patched, whether the second claim was created,
  and whether the point of no return has passed.\<close>

record vstate =
  vs_hist :: history
  vs_old :: "int option"
  vs_patched :: bool
  vs_made :: bool
  vs_past :: bool

type_synonym 'a vprog = "vstate \<Rightarrow> ((vol_err + 'a) \<times> vstate) option"

definition vret :: "'a \<Rightarrow> 'a vprog" where
  "vret x = (\<lambda>s. Some (Inr x, s))"

definition vfail :: "vol_err \<Rightarrow> 'a vprog" where
  "vfail e = (\<lambda>s. Some (Inl e, s))"

definition vbind :: "'a vprog \<Rightarrow> ('a \<Rightarrow> 'b vprog) \<Rightarrow> 'b vprog" where
  "vbind m f = (\<lambda>s. case m s of None \<Rightarrow> None | Some (Inl e, t) \<Rightarrow> Some (Inl e, t) | Some (Inr x, t) \<Rightarrow> f x t)"

definition vseq :: "'a vprog \<Rightarrow> 'b vprog \<Rightarrow> 'b vprog" where
  "vseq m n = vbind m (\<lambda>_. n)"

definition ask :: "vol_env \<Rightarrow> vcall \<Rightarrow> vanswer vprog" where
  "ask env c = (\<lambda>s. let a = env (vs_hist s) c in Some (Inr a, s\<lparr>vs_hist := (c, a) # vs_hist s\<rparr>))"

definition vset :: "(vstate \<Rightarrow> vstate) \<Rightarrow> unit vprog" where
  "vset f = (\<lambda>s. Some (Inr (), f s))"

text \<open>A deferred call that ignores its own outcome, and one that runs on failure only.\<close>

definition vfinally :: "'a vprog \<Rightarrow> 'b vprog \<Rightarrow> 'a vprog" where
  "vfinally m n = (\<lambda>s. case m s of None \<Rightarrow> None | Some (r, t) \<Rightarrow> (case n t of None \<Rightarrow> None | Some (_, u) \<Rightarrow> Some (r, u)))"

definition vrollback :: "'a vprog \<Rightarrow> 'b vprog \<Rightarrow> 'a vprog" where
  "vrollback m n = (\<lambda>s. case m s of None \<Rightarrow> None | Some (Inr x, t) \<Rightarrow> Some (Inr x, t)
     | Some (Inl e, t) \<Rightarrow> (case n t of None \<Rightarrow> None | Some (_, u) \<Rightarrow> Some (Inl e, u)))"

definition ask_done :: "vol_env \<Rightarrow> vcall \<Rightarrow> vol_err \<Rightarrow> unit vprog" where
  "ask_done env c err = vbind (ask env c) (\<lambda>a. if a = ADone then vret () else vfail err)"

definition vnow :: "vol_env \<Rightarrow> time vprog" where
  "vnow env = vbind (ask env Now) (\<lambda>a. vret (case a of ATime t \<Rightarrow> t | _ \<Rightarrow> 0))"

definition sleepCtx :: "vol_env \<Rightarrow> duration \<Rightarrow> unit vprog" where
  "sleepCtx env d = vbind (ask env (Sleep d)) (\<lambda>a. if a = ACtx then vfail CtxErr else vret ())"

section \<open>Settings\<close>

text \<open>The overrides of the mutator (\<open>0\<close> or empty when unset), the variable \<open>MOVER_IMAGE\<close> and the deadline of
  the context.\<close>

record vol_config =
  vc_client :: bool
  vc_exec :: bool
  vc_image :: string
  vc_envImage :: string
  vc_copy :: duration
  vc_op :: duration
  vc_podTerm :: duration
  vc_poll :: duration
  vc_deadline :: "time option"

definition defaultMoverImage :: string where "defaultMoverImage = ''ubuntu''"
definition pvcScalerAnnotation :: string where "pvcScalerAnnotation = ''NudgebeeDiskScaler''"
definition defaultOpTimeout :: duration where "defaultOpTimeout = 300 * second"
definition defaultPodTermTimeout :: duration where "defaultPodTermTimeout = 300 * second"
definition defaultPollInterval :: duration where "defaultPollInterval = 5 * second"
definition defaultCopyTimeout :: duration where "defaultCopyTimeout = 30 * 60 * second"

definition moverImageName :: "vol_config \<Rightarrow> string" where
  "moverImageName cfg = (if vc_image cfg \<noteq> [] then vc_image cfg else if vc_envImage cfg \<noteq> [] then vc_envImage cfg else defaultMoverImage)"

definition opTimeout :: "vol_config \<Rightarrow> duration" where
  "opTimeout cfg = (if 0 < vc_op cfg then vc_op cfg else defaultOpTimeout)"

definition podTermTimeout :: "vol_config \<Rightarrow> duration" where
  "podTermTimeout cfg = (if 0 < vc_podTerm cfg then vc_podTerm cfg else defaultPodTermTimeout)"

definition pollInterval :: "vol_config \<Rightarrow> duration" where
  "pollInterval cfg = (if 0 < vc_poll cfg then vc_poll cfg else defaultPollInterval)"

definition copyTimeout :: "vol_env \<Rightarrow> vol_config \<Rightarrow> duration vprog" where
  "copyTimeout env cfg =
     (if 0 < vc_copy cfg then vret (vc_copy cfg)
      else (case vc_deadline cfg of
        None \<Rightarrow> vret defaultCopyTimeout
      | Some dl \<Rightarrow> vbind (vnow env) (\<lambda>now. let d = wrap64 (time_sub dl now - 60 * second) in
          vret (if 0 < d then d else defaultCopyTimeout))))"

section \<open>Waiting\<close>

text \<open>One round of the three waiting loops: ask, and stop well (\<open>True\<close>) or with an error; otherwise, unless
  the deadline has passed, sleep and go on (\<open>False\<close>). \<open>classify\<close> gives \<open>Inr True\<close> for an answer that ends
  the wait well.\<close>

definition poll_round :: "vol_env \<Rightarrow> duration \<Rightarrow> vcall \<Rightarrow> (vanswer \<Rightarrow> vol_err + bool) \<Rightarrow> vol_err \<Rightarrow> time \<Rightarrow> bool vprog" where
  "poll_round env interval c classify timeout deadline = vbind (ask env c) (\<lambda>a. case classify a of
     Inl e \<Rightarrow> vfail e
   | Inr ended \<Rightarrow>
       if ended then vret True
       else vbind (vnow env) (\<lambda>now.
         if deadline < now then vfail timeout else vseq (sleepCtx env interval) (vret False)))"

partial_function (option) poll_until ::
  "vol_env \<Rightarrow> duration \<Rightarrow> vcall \<Rightarrow> (vanswer \<Rightarrow> vol_err + bool) \<Rightarrow> vol_err \<Rightarrow> time \<Rightarrow> vstate \<Rightarrow> ((vol_err + unit) \<times> vstate) option" where
  "poll_until env interval c classify timeout deadline s =
     (case poll_round env interval c classify timeout deadline s of
        None \<Rightarrow> None
      | Some r \<Rightarrow>
          if fst r = Inr False then poll_until env interval c classify timeout deadline (snd r)
          else Some (map_sum id (\<lambda>_. ()) (fst r), snd r))"

definition wait_for :: "vol_env \<Rightarrow> vol_config \<Rightarrow> duration \<Rightarrow> vcall \<Rightarrow> (vanswer \<Rightarrow> vol_err + bool) \<Rightarrow> vol_err \<Rightarrow> unit vprog" where
  "wait_for env cfg limit c classify timeout =
     vbind (vnow env) (\<lambda>now. poll_until env (pollInterval cfg) c classify timeout (time_add now limit))"

definition waitForPodsTerminated :: "vol_env \<Rightarrow> vol_config \<Rightarrow> string \<Rightarrow> unit vprog" where
  "waitForPodsTerminated env cfg selector = wait_for env cfg (podTermTimeout cfg) (ListPods selector)
     (\<lambda>a. case a of APods n \<Rightarrow> Inr (n = 0) | _ \<Rightarrow> Inl PodsList) PodsTimeout"

definition waitForPodRunning :: "vol_env \<Rightarrow> vol_config \<Rightarrow> string \<Rightarrow> unit vprog" where
  "waitForPodRunning env cfg podName = wait_for env cfg (opTimeout cfg) (GetPod podName)
     (\<lambda>a. case a of APhase p \<Rightarrow> if p = ''Running'' then Inr True else if p = ''Failed'' then Inl MoverFailed else Inr False | _ \<Rightarrow> Inl MoverGet)
     MoverTimeout"

definition waitForPVCDeletion :: "vol_env \<Rightarrow> vol_config \<Rightarrow> string \<Rightarrow> unit vprog" where
  "waitForPVCDeletion env cfg name = wait_for env cfg (opTimeout cfg) (GetPVC name)
     (\<lambda>a. case a of ANotFound \<Rightarrow> Inr True | APVC p \<Rightarrow> Inr False | _ \<Rightarrow> Inl PvcPoll) PvcDeleteTimeout"

section \<open>The workload of a claim\<close>

definition podSpecMountsPVC :: "pvc_workload \<Rightarrow> string \<Rightarrow> bool" where
  "podSpecMountsPVC w pvcName = list_ex (\<lambda>v. v = Some pvcName) (wl_volumes w)"

definition isAllDigits :: "string \<Rightarrow> bool" where
  "isAllDigits s \<longleftrightarrow> s \<noteq> [] \<and> list_all is_digit s"

definition template_claim :: "pvc_workload \<Rightarrow> string \<Rightarrow> bool" where
  "template_claim w pvcName = list_ex (\<lambda>tpl. let prefix = tpl @ ''-'' @ wl_name w @ ''-'' in
     has_prefix pvcName prefix \<and> isAllDigits (drop (length prefix) pvcName)) (wl_templates w)"

definition getWorkloadByPVC :: "vol_env \<Rightarrow> string \<Rightarrow> (wkind \<times> pvc_workload) option vprog" where
  "getWorkloadByPVC env pvcName = vbind (ask env ListDeployments) (\<lambda>a. case a of
     AWorkloads deps \<Rightarrow> (case find (\<lambda>w. podSpecMountsPVC w pvcName) deps of
       Some w \<Rightarrow> vret (Some (Deployment, w))
     | None \<Rightarrow> vbind (ask env ListStatefulSets) (\<lambda>b. case b of
         AWorkloads stss \<Rightarrow> vret (map_option (Pair StatefulSet) (find (\<lambda>w. podSpecMountsPVC w pvcName \<or> template_claim w pvcName) stss))
       | _ \<Rightarrow> vfail WorkloadList))
   | _ \<Rightarrow> vfail WorkloadList)"

definition labelSelectorString :: "(string, string) gomap option \<Rightarrow> string" where
  "labelSelectorString sel = (case sel of None \<Rightarrow> []
     | Some m \<Rightarrow> join '','' (map (\<lambda>k. k @ ''='' @ (case map_of m k of Some v \<Rightarrow> v | None \<Rightarrow> [])) (sort_strings (map_keys m))))"

definition derefReplicas :: "int option \<Rightarrow> int" where
  "derefReplicas r = (case r of None \<Rightarrow> 1 | Some n \<Rightarrow> n)"

text \<open>Up to three attempts; the replica count of the first read is kept.\<close>

fun scale_loop :: "vol_env \<Rightarrow> wkind \<Rightarrow> string \<Rightarrow> int \<Rightarrow> nat \<Rightarrow> nat \<Rightarrow> int option \<Rightarrow> int vprog" where
  "scale_loop env kind name replicas 0 attempt old = vfail ScaleRetries"
| "scale_loop env kind name replicas (Suc n) attempt old =
     vbind (ask env (GetReplicas kind name)) (\<lambda>a.
       let old1 = (case (old, a) of (None, AReplicas r) \<Rightarrow> Some (derefReplicas r) | _ \<Rightarrow> old) in
       vbind (case a of AReplicas r \<Rightarrow> ask env (SetReplicas kind name replicas) | _ \<Rightarrow> vret (if a = AConflict then AConflict else AFailed)) (\<lambda>b.
         if b = ADone then vret (case old1 of Some r \<Rightarrow> r | None \<Rightarrow> 0)
         else if b = AConflict \<and> attempt < 2
         then vseq (sleepCtx env (2 ^ attempt * second)) (scale_loop env kind name replicas n (attempt + 1) old1)
         else vfail ScaleErr))"

definition scaleWorkloadTyped :: "vol_env \<Rightarrow> wkind \<Rightarrow> string \<Rightarrow> int \<Rightarrow> int vprog" where
  "scaleWorkloadTyped env kind name replicas = scale_loop env kind name replicas 3 0 None"

section \<open>Claims and copies\<close>

text \<open>\<open>\.(beta\.)?kubernetes\.io(/.*)?$\<close>, found anywhere in the key.\<close>

definition after_domain :: "string \<Rightarrow> string \<Rightarrow> bool" where
  "after_domain s domain = (has_prefix s domain \<and> (let r = drop (length domain) s in r = [] \<or> hd r = CHR ''/'' \<and> CHR 0x0A \<notin> set r))"

definition k8sInternalAnnotation :: "string \<Rightarrow> bool" where
  "k8sInternalAnnotation key = list_ex (\<lambda>s. after_domain s ''.kubernetes.io'' \<or> after_domain s ''.beta.kubernetes.io'') (suffixes key)"

definition filterUserAnnotations :: "(string, string) gomap \<Rightarrow> (string, string) gomap" where
  "filterUserAnnotations m = filter (\<lambda>p. fst p \<noteq> pvcScalerAnnotation \<and> \<not> k8sInternalAnnotation (fst p)) m"

definition pvc_from_spec :: "pvc_obj \<Rightarrow> int \<Rightarrow> pvc_obj" where
  "pvc_from_spec src amount = src\<lparr>pc_phase := [], pc_capacity := 0, pc_request := amount, pc_volume := [], pc_selector := None,
     pc_dataSource := None, pc_dataSourceRef := None,
     pc_annotations := map_put pvcScalerAnnotation pvcScalerAnnotation (filterUserAnnotations (pc_annotations src))\<rparr>"

definition createPVCFromSpec :: "vol_env \<Rightarrow> string \<Rightarrow> pvc_obj \<Rightarrow> int \<Rightarrow> unit vprog" where
  "createPVCFromSpec env pvcName src amount = ask_done env (CreatePVC pvcName (pvc_from_spec src amount)) PvcCreate"

text \<open>The pod is deleted in any case once it was created. \<open>rnd\<close> is the random part of its name.\<close>

definition copyData :: "vol_env \<Rightarrow> vol_config \<Rightarrow> string \<Rightarrow> string \<Rightarrow> string \<Rightarrow> string \<Rightarrow> unit vprog" where
  "copyData env cfg srcPVC dstPVC role rnd = (let podName = srcPVC @ ''-'' @ role @ ''-'' @ rnd in
     vseq (ask_done env (CreatePod podName srcPVC dstPVC (moverImageName cfg)) MoverCreate)
       (vfinally
         (vseq (waitForPodRunning env cfg podName)
           (vbind (copyTimeout env cfg) (\<lambda>ct.
             vbind (ask env (ExecCopy podName (ct div second))) (\<lambda>a. case a of
               AExec code stdout \<Rightarrow>
                 if code \<noteq> 0 then vfail (CopyExit code)
                 else if \<not> contains stdout ''COPY_SUCCESS'' then vfail CopyMarker
                 else vret ()
             | _ \<Rightarrow> vfail CopyExec))))
         (ask env (RemovePod podName))))"

definition repoint_volume :: "string \<Rightarrow> string \<Rightarrow> string option \<Rightarrow> string option" where
  "repoint_volume oldPVC newPVC v = (if v = Some oldPVC then Some newPVC else v)"

fun repoint_loop :: "vol_env \<Rightarrow> string \<Rightarrow> string \<Rightarrow> string \<Rightarrow> nat \<Rightarrow> nat \<Rightarrow> unit vprog" where
  "repoint_loop env name oldPVC newPVC 0 attempt = vfail DepRetries"
| "repoint_loop env name oldPVC newPVC (Suc n) attempt =
     vbind (ask env (GetVolumes name)) (\<lambda>a. case a of
       AVolumes vs \<Rightarrow>
         if Some oldPVC \<notin> set vs then (if Some newPVC \<in> set vs then vret () else vfail DepNoVolume)
         else vbind (ask env (SetVolumes name (map (repoint_volume oldPVC newPVC) vs))) (\<lambda>b.
           if b = ADone then vret ()
           else if b = AConflict \<and> attempt < 4
           then vseq (sleepCtx env (2 ^ attempt * second)) (repoint_loop env name oldPVC newPVC n (attempt + 1))
           else vfail DepRepoint)
     | _ \<Rightarrow> vfail DepGet)"

definition repointDeploymentPVC :: "vol_env \<Rightarrow> string \<Rightarrow> string \<Rightarrow> string \<Rightarrow> unit vprog" where
  "repointDeploymentPVC env name oldPVC newPVC = repoint_loop env name oldPVC newPVC 5 0"

definition patchPVReclaim :: "vol_env \<Rightarrow> string \<Rightarrow> reclaim \<Rightarrow> unit vprog" where
  "patchPVReclaim env pvName policy = ask_done env (PatchReclaim pvName policy) PvPatch"

definition deletePVC :: "vol_env \<Rightarrow> string \<Rightarrow> unit vprog" where
  "deletePVC env name = vbind (ask env (DeletePVC name)) (\<lambda>a. if a = ADone \<or> a = ANotFound then vret () else vfail PvcDelete)"

definition deletePVBestEffort :: "vol_env \<Rightarrow> string \<Rightarrow> unit vprog" where
  "deletePVBestEffort env name = vseq (ask env (DeletePV name)) (vret ())"

section \<open>Parity\<close>

record pvc_snapshot =
  sn_labels :: "(string, string) gomap"
  sn_annotations :: "(string, string) gomap"
  sn_modes :: "string list"
  sn_class :: string
  sn_mode :: string

definition or_blank :: "string option \<Rightarrow> string" where
  "or_blank v = (case v of None \<Rightarrow> [] | Some s \<Rightarrow> s)"

definition newPVCSnapshot :: "pvc_obj \<Rightarrow> pvc_snapshot" where
  "newPVCSnapshot p = \<lparr>sn_labels = pc_labels p, sn_annotations = filterUserAnnotations (pc_annotations p),
     sn_modes = sort_strings (pc_modes p), sn_class = or_blank (pc_class p), sn_mode = or_blank (pc_mode p)\<rparr>"

text \<open>The parts that do not match, by name.\<close>

definition differing :: "(string, string) gomap \<Rightarrow> (string, string) gomap \<Rightarrow> string list" where
  "differing want got = map fst (filter (\<lambda>p. (case map_of got (fst p) of Some v \<Rightarrow> v | None \<Rightarrow> []) \<noteq> snd p) want)"

definition verifyParity :: "pvc_snapshot \<Rightarrow> pvc_obj \<Rightarrow> int \<Rightarrow> string list" where
  "verifyParity s p expected =
     differing (sn_labels s) (pc_labels p) @ differing (sn_annotations s) (filterUserAnnotations (pc_annotations p)) @
     (if join '','' (sort_strings (pc_modes p)) \<noteq> join '','' (sn_modes s) then [''accessModes''] else []) @
     (if or_blank (pc_class p) \<noteq> sn_class s then [''storageClassName''] else []) @
     (if or_blank (pc_mode p) \<noteq> sn_mode s then [''volumeMode''] else []) @
     (if pc_request p \<noteq> expected then [''storage''] else [])"

definition check_parity :: "vol_env \<Rightarrow> pvc_snapshot \<Rightarrow> string \<Rightarrow> int \<Rightarrow> unit vprog" where
  "check_parity env snap name target = vbind (ask env (GetPVC name)) (\<lambda>a. case a of
     APVC p \<Rightarrow> if verifyParity snap p target \<noteq> [] then vfail ParityFailed else vret ()
   | _ \<Rightarrow> vfail PvcReread)"

section \<open>The two migrations\<close>

text \<open>A step of a rollback whose error is only logged, and the restoring of the replicas.\<close>

definition vtry :: "'a vprog \<Rightarrow> unit vprog" where
  "vtry m = (\<lambda>s. map_option (\<lambda>r. (Inr (), snd r)) (m s))"

definition restore_replicas :: "vol_env \<Rightarrow> wkind \<Rightarrow> string \<Rightarrow> unit vprog" where
  "restore_replicas env kind name = (\<lambda>s. case vs_old s of None \<Rightarrow> vret () s | Some r \<Rightarrow> vtry (scaleWorkloadTyped env kind name r) s)"

definition rollback_deployment :: "vol_env \<Rightarrow> string \<Rightarrow> string \<Rightarrow> unit vprog" where
  "rollback_deployment env name newPVCName = (\<lambda>s.
     if vs_past s then vret () s
     else vseq (if vs_made s then vtry (deletePVC env newPVCName) else vret ()) (restore_replicas env Deployment name) s)"

text \<open>The names of the pods and claims end in random texts, which are arguments.\<close>

definition downsizeDeployment ::
  "vol_env \<Rightarrow> vol_config \<Rightarrow> string \<Rightarrow> string \<Rightarrow> string \<Rightarrow> pvc_obj \<Rightarrow> pv_obj \<Rightarrow> int \<Rightarrow> pvc_snapshot \<Rightarrow> unit vprog" where
  "downsizeDeployment env cfg rnd1 rnd2 pvcName pvc pv target snap =
     vbind (\<lambda>s. map_option (\<lambda>r. (Inr (fst r), snd r)) (getWorkloadByPVC env pvcName s)) (\<lambda>found. case found of
       Inr (Some (Deployment, w)) \<Rightarrow>
         (let name = wl_name w; selector = labelSelectorString (wl_selector w); newPVCName = pvcName @ ''-downsized-'' @ rnd1 in
          vrollback
            (vseq (vbind (scaleWorkloadTyped env Deployment name 0) (\<lambda>r. vset (\<lambda>s. s\<lparr>vs_old := Some r\<rparr>)))
            (vseq (waitForPodsTerminated env cfg selector)
            (vseq (createPVCFromSpec env newPVCName pvc target)
            (vseq (vset (\<lambda>s. s\<lparr>vs_made := True\<rparr>))
            (vseq (copyData env cfg pvcName newPVCName ''copier'' rnd2)
            (vseq (check_parity env snap newPVCName target)
            (vseq (repointDeploymentPVC env name pvcName newPVCName)
            (vseq (vset (\<lambda>s. s\<lparr>vs_past := True\<rparr>))
            (vseq (\<lambda>s. scaleWorkloadTyped env Deployment name (case vs_old s of Some r \<Rightarrow> r | None \<Rightarrow> 0) s)
            (vseq (vset (\<lambda>s. s\<lparr>vs_old := None\<rparr>))
            (vseq (deletePVC env pvcName)
            (vseq (waitForPVCDeletion env cfg pvcName)
            (if pv_reclaim pv = ReclaimRetain then deletePVBestEffort env (pv_name pv) else vret ())))))))))))))
            (rollback_deployment env name newPVCName))
     | _ \<Rightarrow> vfail NoWorkload)"

definition rollback_statefulset :: "vol_env \<Rightarrow> string \<Rightarrow> string \<Rightarrow> pv_obj \<Rightarrow> unit vprog" where
  "rollback_statefulset env name tempPVCName pv = (\<lambda>s.
     if vs_past s then vret () s
     else vseq (if vs_made s then vtry (deletePVC env tempPVCName) else vret ())
       (vseq (if vs_patched s then vtry (patchPVReclaim env (pv_name pv) (pv_reclaim pv)) else vret ())
         (restore_replicas env StatefulSet name)) s)"

definition downsizeStatefulSet ::
  "vol_env \<Rightarrow> vol_config \<Rightarrow> string \<Rightarrow> string \<Rightarrow> string \<Rightarrow> string \<Rightarrow> pvc_obj \<Rightarrow> pv_obj \<Rightarrow> int \<Rightarrow> pvc_snapshot \<Rightarrow> unit vprog" where
  "downsizeStatefulSet env cfg rnd1 rnd2 rnd3 pvcName pvc pv target snap =
     vbind (\<lambda>s. map_option (\<lambda>r. (Inr (fst r), snd r)) (getWorkloadByPVC env pvcName s)) (\<lambda>found. case found of
       Inr (Some (StatefulSet, w)) \<Rightarrow>
         (let name = wl_name w; selector = labelSelectorString (wl_selector w); tempPVCName = pvcName @ ''-tmp-'' @ rnd1 in
          vrollback
            (vseq (vbind (scaleWorkloadTyped env StatefulSet name 0) (\<lambda>r. vset (\<lambda>s. s\<lparr>vs_old := Some r\<rparr>)))
            (vseq (waitForPodsTerminated env cfg selector)
            (vseq (if pv_reclaim pv \<noteq> ReclaimRetain
                   then vseq (patchPVReclaim env (pv_name pv) ReclaimRetain) (vset (\<lambda>s. s\<lparr>vs_patched := True\<rparr>)) else vret ())
            (vseq (createPVCFromSpec env tempPVCName pvc target)
            (vseq (vset (\<lambda>s. s\<lparr>vs_made := True\<rparr>))
            (vseq (copyData env cfg pvcName tempPVCName ''cp1'' rnd2)
            (vseq (deletePVC env pvcName)
            (vseq (waitForPVCDeletion env cfg pvcName)
            (vseq (vset (\<lambda>s. s\<lparr>vs_past := True\<rparr>))
            (vseq (createPVCFromSpec env pvcName pvc target)
            (vseq (copyData env cfg tempPVCName pvcName ''cp2'' rnd3)
            (vseq (check_parity env snap pvcName target)
            (vseq (\<lambda>s. scaleWorkloadTyped env StatefulSet name (case vs_old s of Some r \<Rightarrow> r | None \<Rightarrow> 0) s)
            (vseq (vset (\<lambda>s. s\<lparr>vs_old := None\<rparr>))
            (vseq (deletePVC env tempPVCName)
            (vseq (waitForPVCDeletion env cfg tempPVCName)
            (vseq (vset (\<lambda>s. s\<lparr>vs_made := False\<rparr>))
            (deletePVBestEffort env (pv_name pv)))))))))))))))))))
            (rollback_statefulset env name tempPVCName pv))
     | _ \<Rightarrow> vfail NoWorkload)"

section \<open>The actions\<close>

definition validateDownsizePrereqs :: "vol_env \<Rightarrow> string \<Rightarrow> (pvc_obj \<times> pv_obj) vprog" where
  "validateDownsizePrereqs env pvcName = vbind (ask env (GetPVC pvcName)) (\<lambda>a. case a of
     APVC pvc \<Rightarrow>
       if pc_phase pvc \<noteq> ''Bound'' then vfail PvcNotBound
       else if pc_volume pvc = [] then vfail PvcNoVolume
       else vbind (ask env (GetPV (pc_volume pvc))) (\<lambda>b. case b of
         APV pv \<Rightarrow>
           if pv_hostPath pv then vfail PvHostPath
           else if or_blank (pc_class pvc) = [] then vfail PvcNoClass
           else vbind (ask env (GetClass (or_blank (pc_class pvc)))) (\<lambda>c. case c of
             AClass e \<Rightarrow> vret (pvc, pv) | _ \<Rightarrow> vfail ClassGet)
       | _ \<Rightarrow> vfail PvGet)
   | _ \<Rightarrow> vfail PvcGet)"

definition DownsizePVC :: "vol_env \<Rightarrow> vol_config \<Rightarrow> string \<times> string \<times> string \<Rightarrow> string \<Rightarrow> int \<Rightarrow> unit vprog" where
  "DownsizePVC env cfg rnds pvcName target = (case rnds of (rnd1, rnd2, rnd3) \<Rightarrow>
     if \<not> vc_client cfg then vfail NoVolClient
     else if \<not> vc_exec cfg then vfail NoPodExec
     else vbind (validateDownsizePrereqs env pvcName) (\<lambda>(pvc, pv).
       let snap = newPVCSnapshot pvc in
       vbind (getWorkloadByPVC env pvcName) (\<lambda>found. case found of
         Some (Deployment, w) \<Rightarrow> downsizeDeployment env cfg rnd1 rnd2 pvcName pvc pv target snap
       | Some (StatefulSet, w) \<Rightarrow> downsizeStatefulSet env cfg rnd1 rnd2 rnd3 pvcName pvc pv target snap
       | None \<Rightarrow> vfail NoWorkload)))"

datatype resize_outcome = AlreadyAt int | Downsized | ExpansionRequested

text \<open>\<open>parse\<close> is the quantity parser.\<close>

definition RightsizePVC :: "vol_env \<Rightarrow> vol_config \<Rightarrow> (string \<Rightarrow> int option) \<Rightarrow> string \<times> string \<times> string \<Rightarrow> string \<Rightarrow> string \<Rightarrow> string \<Rightarrow> resize_outcome vprog" where
  "RightsizePVC env cfg parse rnds namespace name wanted =
     (if \<not> vc_client cfg then vfail NoVolClient
      else if namespace = [] \<or> name = [] \<or> wanted = [] then vfail VolParams
      else (case parse wanted of
        None \<Rightarrow> vfail BadSize
      | Some target \<Rightarrow> vbind (ask env (GetPVC name)) (\<lambda>a. case a of
          APVC pvc \<Rightarrow>
            (let current = (if pc_capacity pvc = 0 then pc_request pvc else pc_capacity pvc) in
             if target = current then vret (AlreadyAt current)
             else if target < current then vseq (DownsizePVC env cfg rnds name target) (vret Downsized)
             else vseq (if or_blank (pc_class pvc) = [] then vret ()
                 else vbind (ask env (GetClass (or_blank (pc_class pvc)))) (\<lambda>c. case c of
                   AClass e \<Rightarrow> if e = Some True then vret () else vfail ClassNoExpansion | _ \<Rightarrow> vfail ClassGet))
               (vseq (ask_done env (PatchSize name target) PvcPatch) (vret ExpansionRequested)))
        | _ \<Rightarrow> vfail PvcGet)))"

definition DeleteVolume :: "vol_env \<Rightarrow> vol_config \<Rightarrow> string \<Rightarrow> string vprog" where
  "DeleteVolume env cfg pvName =
     (if \<not> vc_client cfg then vfail NoVolClient
      else if pvName = [] then vfail VolParams
      else vbind (ask env (GetPV pvName)) (\<lambda>a. case a of
        ANotFound \<Rightarrow> vret (''pv '' @ pvName @ '' already deleted'')
      | APV pv \<Rightarrow>
          vbind (case pv_claim pv of
              Some (ns, claim) \<Rightarrow> if claim = [] then vret []
                else vbind (ask env (DeleteClaim ns claim)) (\<lambda>b. if b = ADone \<or> b = ANotFound then vret (ns @ ''/'' @ claim) else vfail PvcDelete)
            | None \<Rightarrow> vret []) (\<lambda>deleted.
            vbind (ask env (DeletePV pvName)) (\<lambda>b. if b = ADone \<or> b = ANotFound
              then vret (if deleted = [] then ''pv '' @ pvName @ '' deleted'' else ''pv '' @ pvName @ '' and bound pvc '' @ deleted @ '' deleted'')
              else vfail PvDelete))
      | _ \<Rightarrow> vfail PvGet))"

end
