(* ===== verification/PvcSafety.thy ===== *)
theory PvcSafety
  imports Pvc
begin

text \<open>
  What resizing a volume does to its data: a storage that each request of the history of \<open>Pvc\<close> changes in
  the worst way its answer allows, triples for the programs, and the theorems. The migration of a
  Deployment never loses the data, nor that of a StatefulSet unless the deletion of its claim is
  left unconfirmed; a migration ends when time passes; and the unconfirmed deletion does lose data.
\<close>

section \<open>What the requests do to the data\<close>

text \<open>Claims with their volumes, the claims whose deletion was asked for, the content of the volumes, the
  volumes that survive their claim, those deleted, the volume objects and the mover pods.\<close>

record 'd storage =
  sg_claim :: "string \<rightharpoonup> nat"
  sg_ending :: "string set"
  sg_data :: "nat \<Rightarrow> 'd"
  sg_retain :: "nat set"
  sg_gone :: "nat set"
  sg_pv :: "string \<rightharpoonup> nat"
  sg_mover :: "string \<rightharpoonup> string \<times> string"
  sg_next :: nat

text \<open>The worst each request may do, given its answer. A deletion or a loosening of the reclaim policy counts
  as done even when it was answered with an error; a creation or a tightening only when it was
  confirmed. A copy that is not confirmed leaves some content \<open>junk\<close>. A claim under deletion is gone when
  the server no longer finds it.\<close>

definition copied :: "vanswer \<Rightarrow> bool" where
  "copied a = (case a of AExec code out \<Rightarrow> code = 0 \<and> contains out ''COPY_SUCCESS'' | _ \<Rightarrow> False)"

definition apply_event :: "'d \<Rightarrow> vcall \<times> vanswer \<Rightarrow> 'd storage \<Rightarrow> 'd storage" where
  "apply_event junk e st = (let a = snd e in case fst e of
     CreatePVC n p \<Rightarrow>
       if a = ADone
       then st\<lparr>sg_claim := (sg_claim st)(n \<mapsto> sg_next st), sg_ending := sg_ending st - {n}, sg_next := Suc (sg_next st)\<rparr> else st
   | CreatePod pod src dst img \<Rightarrow> if a = ADone then st\<lparr>sg_mover := (sg_mover st)(pod \<mapsto> (src, dst))\<rparr> else st
   | ExecCopy pod secs \<Rightarrow> (case sg_mover st pod of
       None \<Rightarrow> st
     | Some (src, dst) \<Rightarrow> (case (sg_claim st src, sg_claim st dst) of
         (Some v, Some w) \<Rightarrow> st\<lparr>sg_data := (sg_data st)(w := if copied a then sg_data st v else junk)\<rparr>
       | _ \<Rightarrow> st))
   | DeletePVC n \<Rightarrow> st\<lparr>sg_ending := insert n (sg_ending st)\<rparr>
   | GetPVC n \<Rightarrow>
       if a = ANotFound \<and> n \<in> sg_ending st
       then st\<lparr>sg_claim := (sg_claim st)(n := None), sg_ending := sg_ending st - {n}\<rparr> else st
   | PatchReclaim pv r \<Rightarrow> (case sg_pv st pv of
       None \<Rightarrow> st
     | Some v \<Rightarrow> st\<lparr>sg_retain := (if r \<noteq> ReclaimRetain then sg_retain st - {v}
         else if a = ADone then insert v (sg_retain st) else sg_retain st)\<rparr>)
   | DeletePV pv \<Rightarrow> (case sg_pv st pv of None \<Rightarrow> st | Some v \<Rightarrow> st\<lparr>sg_gone := insert v (sg_gone st)\<rparr>)
   | _ \<Rightarrow> st)"

primrec storage_after :: "'d \<Rightarrow> 'd storage \<Rightarrow> history \<Rightarrow> 'd storage" where
  "storage_after junk st [] = st"
| "storage_after junk st (e # h) = apply_event junk e (storage_after junk st h)"

text \<open>The data is durable when a volume holds it that is kept by its policy or by a claim that stays.\<close>

definition durable :: "'d storage \<Rightarrow> 'd \<Rightarrow> bool" where
  "durable st d \<longleftrightarrow> (\<exists>v. sg_data st v = d \<and> v \<notin> sg_gone st \<and>
     (v \<in> sg_retain st \<or> (\<exists>c. sg_claim st c = Some v \<and> c \<notin> sg_ending st)))"

definition always_durable :: "'d \<Rightarrow> 'd storage \<Rightarrow> 'd \<Rightarrow> history \<Rightarrow> bool" where
  "always_durable junk st d h \<longleftrightarrow> (\<forall>h'. suffix h' h \<longrightarrow> durable (storage_after junk st h') d)"

lemma always_durable_simps [simp]:
  "always_durable junk st d [] \<longleftrightarrow> durable st d"
  "always_durable junk st d (e # h) \<longleftrightarrow> durable (storage_after junk st (e # h)) d \<and> always_durable junk st d h"
  by (auto simp: always_durable_def suffix_Cons)

text \<open>Claims have volumes of their own, and new volumes are new.\<close>

definition wf_storage :: "'d storage \<Rightarrow> bool" where
  "wf_storage st \<longleftrightarrow> (\<forall>c c' v. sg_claim st c = Some v \<and> sg_claim st c' = Some v \<longrightarrow> c = c') \<and>
     (\<forall>c v. sg_claim st c = Some v \<longrightarrow> v < sg_next st) \<and> (\<forall>p v. sg_pv st p = Some v \<longrightarrow> v < sg_next st) \<and> (\<forall>v\<in>sg_gone st. v < sg_next st)"

text \<open>A claim that stays, one that keeps the data, and one whose volume is not the one of a volume object.\<close>

definition ready :: "string \<Rightarrow> 'd storage \<Rightarrow> bool" where
  "ready c st \<longleftrightarrow> (\<exists>v. sg_claim st c = Some v \<and> c \<notin> sg_ending st \<and> v \<notin> sg_gone st)"

definition kept :: "'d \<Rightarrow> string \<Rightarrow> 'd storage \<Rightarrow> bool" where
  "kept d c st \<longleftrightarrow> (\<exists>v. sg_claim st c = Some v \<and> c \<notin> sg_ending st \<and> v \<notin> sg_gone st \<and> sg_data st v = d)"

definition own_volume :: "string \<Rightarrow> string \<Rightarrow> 'd storage \<Rightarrow> bool" where
  "own_volume c pv st \<longleftrightarrow> sg_pv st pv = None \<or> sg_claim st c \<noteq> sg_pv st pv"

lemma kept_durable: "kept d c st \<Longrightarrow> durable st d"
  by (auto simp: kept_def durable_def)

lemma wf_storage_parts [simp]:
  "wf_storage (st\<lparr>sg_mover := m\<rparr>) = wf_storage st" "wf_storage (st\<lparr>sg_data := f\<rparr>) = wf_storage st"
  "wf_storage (st\<lparr>sg_retain := R\<rparr>) = wf_storage st" "wf_storage (st\<lparr>sg_ending := S\<rparr>) = wf_storage st"
  by (simp_all add: wf_storage_def)

lemma wf_storage_pv: "wf_storage st \<Longrightarrow> sg_pv st p = Some v \<Longrightarrow> v < sg_next st"
  by (simp add: wf_storage_def)

lemma wf_storage_changes:
  assumes "wf_storage st"
  shows "wf_storage (st\<lparr>sg_claim := (sg_claim st)(n \<mapsto> sg_next st), sg_ending := S, sg_next := Suc (sg_next st)\<rparr>)"
    and "wf_storage (st\<lparr>sg_claim := (sg_claim st)(n := None)\<rparr>)"
    and "v < sg_next st \<Longrightarrow> wf_storage (st\<lparr>sg_gone := insert v (sg_gone st)\<rparr>)"
proof -
  have old: "sg_claim st c = Some v \<Longrightarrow> v < sg_next st" "sg_claim st c = Some v \<Longrightarrow> sg_claim st c' = Some v \<Longrightarrow> c = c'" for c c' v
    using assms unfolding wf_storage_def by blast+
  have new: "sg_claim st c \<noteq> Some (sg_next st)" for c using old(1)[of c "sg_next st"] by auto
  show "wf_storage (st\<lparr>sg_claim := (sg_claim st)(n \<mapsto> sg_next st), sg_ending := S, sg_next := Suc (sg_next st)\<rparr>)"
    using assms new old(1) less_SucI unfolding wf_storage_def by (auto dest: old(2)) (metis less_SucI)+
  show "wf_storage (st\<lparr>sg_claim := (sg_claim st)(n := None)\<rparr>)"
    using assms unfolding wf_storage_def by auto
  show "v < sg_next st \<Longrightarrow> wf_storage (st\<lparr>sg_gone := insert v (sg_gone st)\<rparr>)"
    using assms unfolding wf_storage_def by simp
qed

lemma wf_apply_event: "wf_storage st \<Longrightarrow> wf_storage (apply_event junk e st)"
  by (cases "fst e") (simp_all add: apply_event_def Let_def wf_storage_changes wf_storage_pv split: option.split prod.split)

lemma sg_pv_event [simp]: "sg_pv (apply_event junk e st) = sg_pv st"
  by (cases "fst e") (auto simp: apply_event_def Let_def split: option.split)

subsection \<open>What each request keeps\<close>

lemma event_create:
  "c \<noteq> n \<Longrightarrow> kept d c st \<Longrightarrow> kept d c (apply_event junk (CreatePVC n p, a) st)"
  "wf_storage st \<Longrightarrow> ready n (apply_event junk (CreatePVC n p, ADone) st)"
  by (auto simp: apply_event_def kept_def ready_def wf_storage_def[of st])

lemma event_create_own:
  "wf_storage st \<Longrightarrow> own_volume n pv (apply_event junk (CreatePVC n p, ADone) st)"
  using wf_storage_pv[of st pv "sg_next st"] by (auto simp: apply_event_def own_volume_def)

lemma event_pod:
  "kept d c (apply_event junk (CreatePod pod src dst img, a) st) = kept d c st"
  "ready c (apply_event junk (CreatePod pod src dst img, a) st) = ready c st"
  "own_volume c pv (apply_event junk (CreatePod pod src dst img, a) st) = own_volume c pv st"
  "sg_mover (apply_event junk (CreatePod pod src dst img, ADone) st) pod = Some (src, dst)"
  by (simp_all add: apply_event_def kept_def ready_def own_volume_def)

lemma event_copy:
  assumes "wf_storage st" "sg_mover st pod = Some (src, dst)" "src \<noteq> dst" "kept d src st" "ready dst st"
  shows "kept d src (apply_event junk (ExecCopy pod secs, a) st)" "copied a \<Longrightarrow> kept d dst (apply_event junk (ExecCopy pod secs, a) st)"
  using assms by (auto simp: apply_event_def kept_def ready_def wf_storage_def)

lemma own_volume_copy: "own_volume c pv st \<Longrightarrow> own_volume c pv (apply_event junk (ExecCopy pod secs, a) st)"
  by (auto simp: apply_event_def own_volume_def split: option.split)

lemma event_delete:
  "c \<noteq> n \<Longrightarrow> kept d c (apply_event junk (DeletePVC n, a) st) = kept d c st"
  "own_volume c pv (apply_event junk (DeletePVC n, a) st) = own_volume c pv st"
  "sg_ending (apply_event junk (DeletePVC n, a) st) = insert n (sg_ending st)"
  by (simp_all add: apply_event_def kept_def own_volume_def)

lemma event_get:
  "kept d c st \<Longrightarrow> kept d c (apply_event junk (GetPVC n, a) st)"
  "own_volume c pv st \<Longrightarrow> kept d c st \<Longrightarrow> own_volume c pv (apply_event junk (GetPVC n, a) st)"
  "a \<noteq> ANotFound \<Longrightarrow> apply_event junk (GetPVC n, a) st = st"
  by (auto simp: apply_event_def kept_def own_volume_def)

lemma event_patch:
  "kept d c (apply_event junk (PatchReclaim pv r, a) st) = kept d c st"
  "own_volume c p (apply_event junk (PatchReclaim pv r, a) st) = own_volume c p st"
  "sg_ending (apply_event junk (PatchReclaim pv r, a) st) = sg_ending st"
  by (simp_all add: apply_event_def kept_def own_volume_def split: option.split)

lemma event_delete_pv:
  "own_volume c pv st \<Longrightarrow> kept d c st \<Longrightarrow> kept d c (apply_event junk (DeletePV pv, a) st)"
  "own_volume c pv (apply_event junk (DeletePV pv, a) st) = own_volume c pv st"
  by (auto simp: apply_event_def kept_def own_volume_def split: option.split)

text \<open>The calls that touch no data.\<close>

definition quiet :: "vcall \<Rightarrow> bool" where
  "quiet c = (case c of CreatePVC _ _ \<Rightarrow> False | CreatePod _ _ _ _ \<Rightarrow> False | ExecCopy _ _ \<Rightarrow> False | DeletePVC _ \<Rightarrow> False | GetPVC _ \<Rightarrow> False
     | PatchReclaim _ _ \<Rightarrow> False | DeletePV _ \<Rightarrow> False | DeleteClaim _ _ \<Rightarrow> False | _ \<Rightarrow> True)"

lemma quiet_event: "quiet c \<Longrightarrow> apply_event junk (c, a) st = st"
  by (cases c) (simp_all add: quiet_def apply_event_def)

section \<open>Reasoning about programs\<close>

text \<open>Partial correctness with a postcondition for each outcome.\<close>

definition triple :: "(vstate \<Rightarrow> bool) \<Rightarrow> 'a vprog \<Rightarrow> ('a \<Rightarrow> vstate \<Rightarrow> bool) \<Rightarrow> (vstate \<Rightarrow> bool) \<Rightarrow> bool" where
  "triple P m Q E \<longleftrightarrow> (\<forall>s. P s \<longrightarrow> (case m s of None \<Rightarrow> True | Some (Inr x, t) \<Rightarrow> Q x t | Some (Inl e, t) \<Rightarrow> E t))"

lemma triple_conseq:
  "triple P m Q E \<Longrightarrow> (\<And>s. P' s \<Longrightarrow> P s) \<Longrightarrow> (\<And>x s. Q x s \<Longrightarrow> Q' x s) \<Longrightarrow> (\<And>s. E s \<Longrightarrow> E' s) \<Longrightarrow> triple P' m Q' E'"
  by (fastforce simp: triple_def split: option.splits sum.splits)

lemma triple_ret: "(\<And>s. P s \<Longrightarrow> Q x s) \<Longrightarrow> triple P (vret x) Q E"
  by (simp add: triple_def vret_def)

lemma triple_fail: "(\<And>s. P s \<Longrightarrow> E s) \<Longrightarrow> triple P (vfail e) Q E"
  by (simp add: triple_def vfail_def)

lemma triple_bind: "triple P m R E \<Longrightarrow> (\<And>x. triple (R x) (f x) Q E) \<Longrightarrow> triple P (vbind m f) Q E"
  by (fastforce simp: triple_def vbind_def split: option.splits sum.splits)

lemma triple_seq: "triple P m (\<lambda>_. R) E \<Longrightarrow> triple R n Q E \<Longrightarrow> triple P (vseq m n) Q E"
  unfolding vseq_def by (rule triple_bind)

lemma triple_set: "(\<And>s. P s \<Longrightarrow> Q () (f s)) \<Longrightarrow> triple P (vset f) Q E"
  by (simp add: triple_def vset_def)

lemma triple_if: "(b \<Longrightarrow> triple P m Q E) \<Longrightarrow> (\<not> b \<Longrightarrow> triple P n Q E) \<Longrightarrow> triple P (if b then m else n) Q E"
  by simp

lemma triple_finally: "triple P m R E \<Longrightarrow> (\<And>x. triple (R x) n (\<lambda>_. Q x) (Q x)) \<Longrightarrow> triple E n (\<lambda>_. E') E' \<Longrightarrow> triple P (vfinally m n) Q E'"
  by (fastforce simp: triple_def vfinally_def split: option.splits sum.splits)

lemma triple_rollback: "triple P m Q E \<Longrightarrow> triple E n (\<lambda>_. E') E' \<Longrightarrow> triple P (vrollback m n) Q E'"
  by (fastforce simp: triple_def vrollback_def split: option.splits sum.splits)

lemma triple_try: "triple P m (\<lambda>_. Q) Q \<Longrightarrow> triple P (vtry m) (\<lambda>_. Q) E"
  by (fastforce simp: triple_def vtry_def split: option.splits sum.splits)

text \<open>Along the history the data was always durable; now \<open>J\<close> holds of the storage, and the point of no
  return has passed or not.\<close>

definition tracked :: "'d \<Rightarrow> 'd storage \<Rightarrow> 'd \<Rightarrow> ('d storage \<Rightarrow> bool) \<Rightarrow> bool \<Rightarrow> vstate \<Rightarrow> bool" where
  "tracked junk st d J b s \<longleftrightarrow> always_durable junk st d (vs_hist s) \<and> wf_storage (storage_after junk st (vs_hist s)) \<and>
     J (storage_after junk st (vs_hist s)) \<and> vs_past s = b"

lemma always_durable_now: "always_durable junk st d h \<Longrightarrow> durable (storage_after junk st h) d"
  by (cases h) auto

lemma triple_ask:
  assumes "\<And>t a. wf_storage t \<Longrightarrow> J t \<Longrightarrow> durable t d \<Longrightarrow> J' a (apply_event junk (c, a) t) \<and> durable (apply_event junk (c, a) t) d"
  shows "triple (tracked junk st d J b) (ask env c) (\<lambda>a. tracked junk st d (J' a) b) E"
  using assms by (auto simp: triple_def tracked_def ask_def Let_def wf_apply_event dest: always_durable_now)

text \<open>A predicate is stable when quiet calls keep it.\<close>

definition stable :: "(vstate \<Rightarrow> bool) \<Rightarrow> bool" where
  "stable P \<longleftrightarrow> (\<forall>s c a. quiet c \<longrightarrow> P s \<longrightarrow> P (s\<lparr>vs_hist := (c, a) # vs_hist s\<rparr>))"

lemma ask_stable: "stable P \<Longrightarrow> quiet c \<Longrightarrow> triple P (ask env c) (\<lambda>_. P) E"
  by (simp add: stable_def triple_def ask_def Let_def)

lemma stable_tracked: "stable (tracked junk st d J b)"
  by (auto simp: stable_def tracked_def quiet_event dest: always_durable_now)

lemmas triple_quiet = ask_stable[OF stable_tracked]

lemma triple_keep:
  assumes "\<And>t a. wf_storage t \<Longrightarrow> J t \<Longrightarrow> J (apply_event junk (c, a) t)" "\<And>t. J t \<Longrightarrow> durable t d"
  shows "triple (tracked junk st d J b) (ask env c) (\<lambda>_. tracked junk st d J b) E"
  by (rule triple_ask) (use assms in blast)

lemma tracked_mono: "tracked junk st d J b s \<Longrightarrow> (\<And>t. J t \<Longrightarrow> J' t) \<Longrightarrow> tracked junk st d J' b s"
  by (auto simp: tracked_def)

section \<open>The steps of a migration\<close>

lemma triple_now: "triple (tracked j st d J b) (vnow env) (\<lambda>_. tracked j st d J b) E"
  unfolding vnow_def by (rule triple_bind[OF triple_quiet]) (simp_all add: quiet_def triple_ret)

lemma sleep_stable: "stable P \<Longrightarrow> triple P (sleepCtx env n) (\<lambda>_. P) P"
  unfolding sleepCtx_def by (rule triple_bind[OF ask_stable]) (simp_all add: quiet_def triple_ret triple_fail)

lemmas triple_sleep = sleep_stable[OF stable_tracked]

lemma poll_round_triple:
  assumes "triple (tracked j st d J b) (ask env c) (\<lambda>a. tracked j st d (J' a) b) (tracked j st d J b)"
    and "\<And>a t. classify a = Inr True \<Longrightarrow> J' a t \<Longrightarrow> K t" and "\<And>a t. classify a \<noteq> Inr True \<Longrightarrow> J' a t \<Longrightarrow> J t"
  shows "triple (tracked j st d J b) (poll_round env n c classify timeout deadline)
    (\<lambda>r. tracked j st d (if r then K else J) b) (tracked j st d J b)"
  unfolding poll_round_def
proof (rule triple_bind[OF assms(1)])
  fix a
  have again: "triple (tracked j st d J b) (vbind (vnow env) (\<lambda>now. if deadline < now then vfail timeout else vseq (sleepCtx env n) (vret False)))
      (\<lambda>r. tracked j st d (if r then K else J) b) (tracked j st d J b)"
    by (rule triple_bind[OF triple_now]) (auto intro!: triple_if triple_fail triple_seq[OF triple_sleep] triple_ret)
  show "triple (tracked j st d (J' a) b) (case classify a of Inl e \<Rightarrow> vfail e | Inr ended \<Rightarrow> if ended then vret True
        else vbind (vnow env) (\<lambda>now. if deadline < now then vfail timeout else vseq (sleepCtx env n) (vret False)))
      (\<lambda>r. tracked j st d (if r then K else J) b) (tracked j st d J b)"
  proof (cases "classify a = Inr True")
    case True then show ?thesis using assms(2) by (auto intro!: triple_ret elim: tracked_mono)
  next
    case False
    then have "tracked j st d (J' a) b s \<Longrightarrow> tracked j st d J b s" for s using assms(3) by (blast intro: tracked_mono)
    then show ?thesis using False triple_conseq[OF again] by (auto split: sum.split intro!: triple_fail)
  qed
qed

lemma poll_until_triple:
  assumes "triple (tracked j st d J b) (poll_round env n c classify timeout deadline) (\<lambda>r. tracked j st d (if r then K else J) b) (tracked j st d J b)"
  shows "triple (tracked j st d J b) (poll_until env n c classify timeout deadline) (\<lambda>_. tracked j st d K b) (tracked j st d J b)"
proof -
  let ?same = "\<lambda>env' n' c' cl' to' dl'. (env', n', c', cl', to', dl') = (env, n, c, classify, timeout, deadline)"
  let ?post = "\<lambda>r. case r of (Inr x, t) \<Rightarrow> tracked j st d K b t | (Inl e, t) \<Rightarrow> tracked j st d J b t"
  let ?P = "\<lambda>env' n' c' cl' to' dl' s r. ?same env' n' c' cl' to' dl' \<longrightarrow> tracked j st d J b s \<longrightarrow> ?post r"
  have step: "?P env' n' c' cl' to' dl' s r"
    if IH: "\<And>env' n' c' cl' to' dl' s r. f env' n' c' cl' to' dl' s = Some r \<Longrightarrow> ?P env' n' c' cl' to' dl' s r"
      and body: "(case poll_round env' n' c' cl' to' dl' s of None \<Rightarrow> None | Some q \<Rightarrow>
        if fst q = Inr False then f env' n' c' cl' to' dl' (snd q) else Some (map_sum id (\<lambda>_. ()) (fst q), snd q)) = Some r"
    for f env' n' c' cl' to' dl' s r
  proof (intro impI)
    assume same: "?same env' n' c' cl' to' dl'" and pre: "tracked j st d J b s"
    then obtain q where q: "poll_round env n c classify timeout deadline s = Some q"
      "(if fst q = Inr False then f env n c classify timeout deadline (snd q) else Some (map_sum id (\<lambda>_. ()) (fst q), snd q)) = Some r"
      using body by (auto split: option.splits)
    have "case q of (Inr x, t) \<Rightarrow> tracked j st d (if x then K else J) b t | (Inl e, t) \<Rightarrow> tracked j st d J b t"
      using assms pre q(1) by (fastforce simp: triple_def split: option.splits sum.splits prod.splits)
    then show "?post r" using q(2) IH by (cases q; cases "fst q") (auto split: if_splits prod.splits)
  qed
  have "tracked j st d J b s \<Longrightarrow> ?post r" if "poll_until env n c classify timeout deadline s = Some r" for s r
  proof -
    have "?P env n c classify timeout deadline s r"
      by (rule poll_until.raw_induct[where P="?P", OF _ that]) (rule step)
    then show "tracked j st d J b s \<Longrightarrow> ?post r" by simp
  qed
  then show ?thesis by (auto simp: triple_def split: option.split sum.split)
qed

lemma wait_for_triple:
  assumes "triple (tracked j st d J b) (ask env c) (\<lambda>a. tracked j st d (J' a) b) (tracked j st d J b)"
    and "\<And>a t. classify a = Inr True \<Longrightarrow> J' a t \<Longrightarrow> K t" and "\<And>a t. classify a \<noteq> Inr True \<Longrightarrow> J' a t \<Longrightarrow> J t"
  shows "triple (tracked j st d J b) (wait_for env cfg limit c classify timeout) (\<lambda>_. tracked j st d K b) (tracked j st d J b)"
  unfolding wait_for_def
  by (rule triple_bind[OF triple_now]) (rule poll_until_triple[OF poll_round_triple[OF assms]])

lemma wait_quiet_triple:
  "quiet c \<Longrightarrow> triple (tracked j st d J b) (wait_for env cfg limit c classify timeout) (\<lambda>_. tracked j st d J b) (tracked j st d J b)"
  by (rule wait_for_triple[OF triple_quiet]) auto

lemma scale_loop_stable:
  assumes "stable P"
  shows "triple P (scale_loop env kind name r n attempt old) (\<lambda>_. P) P"
proof (induction n arbitrary: attempt old)
  case 0 show ?case by (simp add: triple_fail)
next
  case (Suc n)
  have set: "triple P (case a of AReplicas x \<Rightarrow> ask env (SetReplicas kind name r) | _ \<Rightarrow> vret (if a = AConflict then AConflict else AFailed)) (\<lambda>_. P) P" for a
    by (cases a) (auto intro!: ask_stable[OF assms] triple_ret simp: quiet_def)
  show ?case unfolding scale_loop.simps Let_def
    by (rule triple_bind[OF ask_stable[OF assms]], simp add: quiet_def, rule triple_bind[OF set])
      (auto intro!: triple_if triple_ret triple_fail triple_seq[OF sleep_stable[OF assms]] Suc.IH)
qed

lemma repoint_loop_triple:
  "triple (tracked j st d J b) (repoint_loop env name old new n attempt) (\<lambda>_. tracked j st d J b) (tracked j st d J b)"
proof (induction n arbitrary: attempt)
  case 0 show ?case by (simp add: triple_fail)
next
  case (Suc n)
  show ?case unfolding repoint_loop.simps
    by (rule triple_bind[OF triple_quiet])
      (auto simp: quiet_def intro!: triple_bind[OF triple_quiet] triple_if triple_ret triple_fail triple_seq[OF triple_sleep] Suc.IH split: vanswer.split)
qed

lemma getWorkload_triple:
  "triple (tracked j st d J b) (getWorkloadByPVC env pvc) (\<lambda>_. tracked j st d J b) (tracked j st d J b)"
  unfolding getWorkloadByPVC_def
  by (rule triple_bind[OF triple_quiet])
    (auto simp: quiet_def intro!: triple_bind[OF triple_quiet] triple_ret triple_fail split: vanswer.split option.split)

lemma copyTimeout_triple: "triple (tracked j st d J b) (copyTimeout env cfg) (\<lambda>_. tracked j st d J b) E"
  unfolding copyTimeout_def
  by (auto simp: Let_def intro!: triple_if triple_ret triple_bind[OF triple_now] split: option.split)

lemma deletePVC_triple:
  assumes "\<And>t a. J t \<Longrightarrow> K (apply_event j (DeletePVC n, a) t)" "\<And>t. K t \<Longrightarrow> durable t d"
  shows "triple (tracked j st d J b) (deletePVC env n) (\<lambda>_. tracked j st d K b) (tracked j st d K b)"
  unfolding deletePVC_def
  by (rule triple_bind[OF triple_ask[where J'="\<lambda>_. K"]]) (use assms in \<open>auto intro!: triple_if triple_ret triple_fail\<close>)

lemma createPVC_triple:
  assumes "\<And>t a. wf_storage t \<Longrightarrow> J t \<Longrightarrow> J (apply_event j (CreatePVC n p, a) t)" "\<And>t. J t \<Longrightarrow> durable t d"
    and "\<And>t. wf_storage t \<Longrightarrow> J t \<Longrightarrow> K (apply_event j (CreatePVC n p, ADone) t)" "p = pvc_from_spec src amount"
  shows "triple (tracked j st d J b) (createPVCFromSpec env n src amount) (\<lambda>_. tracked j st d K b) (tracked j st d J b)"
  unfolding createPVCFromSpec_def ask_done_def
  by (rule triple_bind[OF triple_ask[where J'="\<lambda>a t. J t \<and> (a = ADone \<longrightarrow> K t)"]])
    (use assms in \<open>auto intro!: triple_if triple_ret triple_fail elim: tracked_mono\<close>)

text \<open>A copy from a claim that keeps the data: it is kept, and after a success the target keeps it as well.\<close>

lemma copyData_triple:
  assumes "src \<noteq> dst" "\<And>t secs a pod. wf_storage t \<Longrightarrow> R t \<Longrightarrow> R (apply_event j (ExecCopy pod secs, a) t)"
    "\<And>t a pod img. R t \<Longrightarrow> R (apply_event j (CreatePod pod src dst img, a) t)"
  shows "triple (tracked j st d (\<lambda>t. kept d src t \<and> ready dst t \<and> R t) b) (copyData env cfg src dst role rnd)
    (\<lambda>_. tracked j st d (\<lambda>t. kept d src t \<and> kept d dst t \<and> R t) b) (tracked j st d (\<lambda>t. kept d src t \<and> R t) b)"
proof -
  let ?J = "\<lambda>t. kept d src t \<and> ready dst t \<and> R t" and ?K = "\<lambda>t. kept d src t \<and> kept d dst t \<and> R t" and ?E = "\<lambda>t. kept d src t \<and> R t"
  let ?M = "\<lambda>pod t. ?J t \<and> sg_mover t pod = Some (src, dst)"
  have create: "triple (tracked j st d ?J b) (ask_done env (CreatePod pod src dst img) MoverCreate)
      (\<lambda>_. tracked j st d (?M pod) b) (tracked j st d ?E b)" for pod img
    unfolding ask_done_def
    by (rule triple_bind[OF triple_ask[where J'="\<lambda>a t. ?J t \<and> (a = ADone \<longrightarrow> ?M pod t)"]])
      (auto simp: event_pod assms(3) intro!: triple_if triple_ret triple_fail elim: tracked_mono dest: kept_durable intro: kept_durable[of d src])
  let ?read = "\<lambda>a. case a of
        AExec code stdout \<Rightarrow> if code \<noteq> 0 then vfail (CopyExit code) else if \<not> contains stdout ''COPY_SUCCESS'' then vfail CopyMarker else vret ()
      | _ \<Rightarrow> vfail CopyExec"
  have read: "triple (tracked j st d (\<lambda>t. ?E t \<and> (copied a \<longrightarrow> ?K t)) b) (?read a) (\<lambda>_. tracked j st d ?K b) (tracked j st d ?E b)" for a
  proof (cases "copied a")
    case True
    then have "?read a = vret ()" by (cases a) (auto simp: copied_def)
    then show ?thesis using True by (simp only:) (rule triple_ret, erule tracked_mono, blast)
  next
    case False
    then have "\<exists>e. ?read a = vfail e" by (cases a) (auto simp: copied_def)
    then show ?thesis by (elim exE) (simp only:, rule triple_fail, erule tracked_mono, blast)
  qed
  have copy: "(?E (apply_event j (ExecCopy pod secs, a) t) \<and> (copied a \<longrightarrow> ?K (apply_event j (ExecCopy pod secs, a) t))) \<and>
      durable (apply_event j (ExecCopy pod secs, a) t) d" if "wf_storage t" "?M pod t" for t pod secs a
  proof -
    have m: "sg_mover t pod = Some (src, dst)" "kept d src t" "ready dst t" "R t" using that(2) by auto
    note c = event_copy[OF that(1) m(1) assms(1) m(2,3), where junk=j and secs=secs and a=a]
    show ?thesis using c assms(2)[OF that(1) m(4)] kept_durable[OF c(1)] by simp
  qed
  have exec: "triple (tracked j st d (?M pod) b) (vbind (ask env (ExecCopy pod secs)) ?read) (\<lambda>_. tracked j st d ?K b) (tracked j st d ?E b)" for pod secs
    by (rule triple_bind[OF triple_ask read]) (rule copy)
  have removed: "triple (tracked j st d L b) (ask env (RemovePod pod)) (\<lambda>_. tracked j st d L b) (tracked j st d L b)" for pod L
    by (rule triple_quiet) (simp add: quiet_def)
  have wait: "triple (tracked j st d (?M pod) b) (waitForPodRunning env cfg pod) (\<lambda>_. tracked j st d (?M pod) b) (tracked j st d ?E b)" for pod
    unfolding waitForPodRunning_def by (rule triple_conseq[OF wait_quiet_triple[where J="?M pod"]]) (auto simp: quiet_def elim: tracked_mono)
  show ?thesis unfolding copyData_def Let_def
    by (rule triple_seq[OF create], rule triple_finally[OF triple_seq[OF wait triple_bind[OF copyTimeout_triple exec]] removed removed])
qed

lemma triple_state: "(\<And>x. triple P (m x) Q E) \<Longrightarrow> triple P (\<lambda>s. m (g s) s) Q E"
  by (simp add: triple_def)

lemma triple_error: "triple P m Q E \<Longrightarrow> (\<And>s. E s \<Longrightarrow> E' s) \<Longrightarrow> triple P m Q E'"
  by (rule triple_conseq)

lemma tracked_flags [simp]:
  "tracked j st d J b (s\<lparr>vs_old := x\<rparr>) = tracked j st d J b s" "tracked j st d J b (s\<lparr>vs_made := m\<rparr>) = tracked j st d J b s"
  "tracked j st d J b (s\<lparr>vs_patched := m\<rparr>) = tracked j st d J b s"
  by (simp_all add: tracked_def)

lemma triple_flags:
  "triple (tracked j st d J b) (vset (\<lambda>s. s\<lparr>vs_old := x\<rparr>)) (\<lambda>_. tracked j st d J b) E"
  "triple (tracked j st d J b) (vset (\<lambda>s. s\<lparr>vs_made := m\<rparr>)) (\<lambda>_. tracked j st d J b) E"
  "triple (tracked j st d J b) (vset (\<lambda>s. s\<lparr>vs_patched := m\<rparr>)) (\<lambda>_. tracked j st d J b) E"
  by (rule triple_set, simp)+

lemma tracked_past: "tracked j st d J b s \<Longrightarrow> tracked j st d J b' (s\<lparr>vs_past := b'\<rparr>)"
  by (simp add: tracked_def)

lemma tracked_always: "tracked j st d J b s \<Longrightarrow> always_durable j st d (vs_hist s)"
  by (simp add: tracked_def)

lemma scale_stable: "stable P \<Longrightarrow> triple P (scaleWorkloadTyped env kind name r) (\<lambda>_. P) P"
  unfolding scaleWorkloadTyped_def by (rule scale_loop_stable)

lemmas scale_triple = scale_stable[OF stable_tracked]

lemma scale_down_triple:
  "triple (tracked j st d J b) (vbind (scaleWorkloadTyped env kind name 0) (\<lambda>r. vset (\<lambda>s. s\<lparr>vs_old := Some r\<rparr>)))
     (\<lambda>_. tracked j st d J b) (tracked j st d J b)"
  by (rule triple_bind[OF scale_triple]) (rule triple_set, simp)

lemma wait_pods_triple:
  "triple (tracked j st d J b) (waitForPodsTerminated env cfg sel) (\<lambda>_. tracked j st d J b) (tracked j st d J b)"
  unfolding waitForPodsTerminated_def by (rule wait_quiet_triple) (simp add: quiet_def)

lemma parity_triple:
  assumes "\<And>t a. J t \<Longrightarrow> J (apply_event j (GetPVC n, a) t)" "\<And>t. J t \<Longrightarrow> durable t d"
  shows "triple (tracked j st d J b) (check_parity env snap n target) (\<lambda>_. tracked j st d J b) (tracked j st d J b)"
  unfolding check_parity_def
  by (rule triple_bind[OF triple_keep]) (use assms in \<open>auto intro!: triple_ret triple_fail split: vanswer.split\<close>)

lemma wait_deletion_triple:
  assumes "\<And>t a. J t \<Longrightarrow> J (apply_event j (GetPVC n, a) t)" "\<And>t. J t \<Longrightarrow> durable t d"
  shows "triple (tracked j st d J b) (waitForPVCDeletion env cfg n) (\<lambda>_. tracked j st d J b) (tracked j st d J b)"
  unfolding waitForPVCDeletion_def by (rule wait_for_triple[OF triple_keep]) (use assms in auto)

lemma delete_pv_triple:
  assumes "\<And>t a. J t \<Longrightarrow> J (apply_event j (DeletePV n, a) t)" "\<And>t. J t \<Longrightarrow> durable t d"
  shows "triple (tracked j st d J b) (deletePVBestEffort env n) (\<lambda>_. tracked j st d J b) E"
  unfolding deletePVBestEffort_def by (rule triple_seq[OF triple_keep triple_ret]) (use assms in auto)

lemma restore_stable:
  assumes "stable P"
  shows "triple P (restore_replicas env kind name) (\<lambda>_. P) E"
proof -
  have "triple P (vtry (scaleWorkloadTyped env kind name r)) (\<lambda>_. P) E" for r
    by (rule triple_try[OF scale_stable[OF assms]])
  then have "P s \<Longrightarrow> case restore_replicas env kind name s of None \<Rightarrow> True | Some (Inr x, t) \<Rightarrow> P t | Some (Inl e, t) \<Rightarrow> E t" for s
    unfolding triple_def restore_replicas_def by (cases "vs_old s") (simp_all add: vret_def)
  then show ?thesis by (simp add: triple_def)
qed

lemmas restore_triple = restore_stable[OF stable_tracked]

text \<open>The copy keeps the data in a volume of its own.\<close>

definition has_copy :: "'d \<Rightarrow> string \<Rightarrow> string \<Rightarrow> 'd storage \<Rightarrow> bool" where
  "has_copy d c pv t \<longleftrightarrow> kept d c t \<and> own_volume c pv t"

lemma has_durable: "kept d c t \<Longrightarrow> durable t d" "has_copy d c pv t \<Longrightarrow> durable t d"
  by (auto simp: has_copy_def intro: kept_durable)

lemma kept_events:
  "c \<noteq> n \<Longrightarrow> kept d c t \<Longrightarrow> kept d c (apply_event j (CreatePVC n p, a) t)"
  "c \<noteq> n \<Longrightarrow> kept d c t \<Longrightarrow> kept d c (apply_event j (DeletePVC n, a) t)"
  "kept d c t \<Longrightarrow> kept d c (apply_event j (GetPVC n, a) t)"
  "kept d c t \<Longrightarrow> kept d c (apply_event j (PatchReclaim q r, a) t)"
  by (auto simp: event_create event_delete event_get event_patch)

lemma has_copy_events:
  "c \<noteq> n \<Longrightarrow> has_copy d c pv t \<Longrightarrow> has_copy d c pv (apply_event j (DeletePVC n, a) t)"
  "has_copy d c pv t \<Longrightarrow> has_copy d c pv (apply_event j (GetPVC n, a) t)"
  "has_copy d c pv t \<Longrightarrow> has_copy d c pv (apply_event j (PatchReclaim q r, a) t)"
  "has_copy d c pv t \<Longrightarrow> has_copy d c pv (apply_event j (DeletePV pv, a) t)"
  by (auto simp: has_copy_def event_delete event_get event_patch event_delete_pv)

section \<open>The data survives\<close>

lemma copy_step:
  assumes "c \<noteq> n"
  shows "triple (tracked j st d (\<lambda>t. kept d c t \<and> ready n t \<and> own_volume n pv t) b) (copyData env cfg c n role rnd)
    (\<lambda>_. tracked j st d (\<lambda>t. kept d c t \<and> has_copy d n pv t) b) (tracked j st d (kept d c) b)"
  by (rule triple_conseq[OF copyData_triple[OF assms, where R="own_volume n pv"]])
    (auto simp: has_copy_def own_volume_copy event_pod elim: tracked_mono)

lemma create_step:
  assumes "c \<noteq> n"
  shows "triple (tracked j st d (kept d c) b) (createPVCFromSpec env n src amount)
    (\<lambda>_. tracked j st d (\<lambda>t. kept d c t \<and> ready n t \<and> own_volume n pv t) b) (tracked j st d (kept d c) b)"
  using assms
  by (intro createPVC_triple[OF _ _ _ refl]) (auto simp: kept_events intro: event_create event_create_own kept_durable)

lemma triple_unless_past:
  assumes "\<And>x. triple A (m x) (\<lambda>_. F) F" "\<And>s. A s \<Longrightarrow> \<not> vs_past s" "\<And>s. B s \<Longrightarrow> vs_past s \<and> F s"
  shows "triple (\<lambda>s. A s \<or> B s) (\<lambda>s. if vs_past s then vret () s else m (g s) s) (\<lambda>_. F) F"
  using assms by (auto simp: triple_def vret_def)

lemma triple_found:
  assumes "\<And>w. triple P (m w) Q E" "\<And>s. P s \<Longrightarrow> E s"
  shows "triple P (case found of Inr (Some (Deployment, w)) \<Rightarrow> m w | _ \<Rightarrow> vfail e) Q E"
    and "triple P (case found of Inr (Some (StatefulSet, w)) \<Rightarrow> m w | _ \<Rightarrow> vfail e) Q E"
  using assms by (auto intro: triple_fail split: sum.split option.split wkind.split)

text \<open>The two parts of the migration of a Deployment: before and after the point of no return.\<close>

lemma deployment_cleanup:
  assumes "c \<noteq> n"
  shows "triple (tracked j st d (has_copy d n (pv_name pv)) True)
    (vseq (deletePVC env c) (vseq (waitForPVCDeletion env cfg c)
      (if pv_reclaim pv = ReclaimRetain then deletePVBestEffort env (pv_name pv) else vret ())))
    (\<lambda>_. tracked j st d (has_copy d n (pv_name pv)) True) (tracked j st d (has_copy d n (pv_name pv)) True)"
  using assms
  by (intro triple_seq[OF deletePVC_triple] triple_seq[OF wait_deletion_triple] triple_if delete_pv_triple triple_ret)
    (auto intro: has_copy_events has_durable)

lemma deployment_triple:
  assumes "c \<noteq> n" "n = c @ ''-downsized-'' @ rnd1"
  shows "triple (tracked j st d (kept d c) False) (downsizeDeployment env cfg rnd1 rnd2 c pvc pv target snap)
    (\<lambda>_. tracked j st d (has_copy d n (pv_name pv)) True) (\<lambda>s. always_durable j st d (vs_hist s))"
proof -
  let ?A = "tracked j st d (kept d c) False" and ?B = "tracked j st d (has_copy d n (pv_name pv)) True"
  let ?E = "\<lambda>s. ?A s \<or> ?B s" and ?F = "\<lambda>s. always_durable j st d (vs_hist s)"
  let ?AB = "\<lambda>b. tracked j st d (\<lambda>t. kept d c t \<and> has_copy d n (pv_name pv) t) b"
  have find: "triple ?A (\<lambda>s. map_option (\<lambda>r. (Inr (fst r), snd r)) (getWorkloadByPVC env c s)) (\<lambda>_. ?A) ?F"
    using getWorkload_triple[of j st d "kept d c" False env c]
    by (fastforce simp: triple_def split: option.splits sum.splits)
  have upto: "?AB b s \<Longrightarrow> tracked j st d (kept d c) b s" "?AB b s \<Longrightarrow> tracked j st d (has_copy d n (pv_name pv)) b s" for b s
    by (auto elim: tracked_mono)
  have prepare: "triple ?A (createPVCFromSpec env n pvc target) (\<lambda>_. tracked j st d (\<lambda>t. kept d c t \<and> ready n t \<and> own_volume n (pv_name pv) t) False) ?E"
    by (rule triple_error[OF create_step[OF assms(1)]]) simp
  have copy: "triple (tracked j st d (\<lambda>t. kept d c t \<and> ready n t \<and> own_volume n (pv_name pv) t) False)
      (copyData env cfg c n ''copier'' rnd2) (\<lambda>_. ?AB False) ?E"
    by (rule triple_error[OF copy_step[OF assms(1)]]) simp
  have parity: "triple (?AB False) (check_parity env snap n target) (\<lambda>_. ?AB False) ?E"
    by (rule triple_error[OF parity_triple]) (auto intro: kept_events has_copy_events has_durable dest: upto)
  have repoint: "triple (?AB False) (repointDeploymentPVC env name c n) (\<lambda>_. ?AB False) ?E" for name
    unfolding repointDeploymentPVC_def by (rule triple_error[OF repoint_loop_triple]) (auto dest: upto)
  have past: "triple (?AB False) (vset (\<lambda>s. s\<lparr>vs_past := True\<rparr>)) (\<lambda>_. ?B) ?E"
    by (rule triple_set) (blast intro: tracked_past upto)
  have up: "triple ?B (\<lambda>s. scaleWorkloadTyped env Deployment name (case vs_old s of Some r \<Rightarrow> r | None \<Rightarrow> 0) s) (\<lambda>_. ?B) ?E" for name
    by (rule triple_state[where g="\<lambda>s. case vs_old s of Some r \<Rightarrow> r | None \<Rightarrow> 0"], rule triple_error[OF scale_triple]) simp
  have rollback: "triple ?E (rollback_deployment env name n) (\<lambda>_. ?F) ?F" for name
  proof -
    have "triple ?A (vseq (if made then vtry (deletePVC env n) else vret ()) (restore_replicas env Deployment name)) (\<lambda>_. ?A) ?A" for made
      using assms(1) by (intro triple_seq[OF _ restore_triple] triple_if triple_try deletePVC_triple triple_ret) (auto intro: kept_events has_durable)
    then have "triple ?A (vseq (if made then vtry (deletePVC env n) else vret ()) (restore_replicas env Deployment name)) (\<lambda>_. ?F) ?F" for made
      by (rule triple_conseq) (auto dest: tracked_always)
    then show ?thesis unfolding rollback_deployment_def
      by (rule triple_unless_past[where g=vs_made]) (auto simp: tracked_def)
  qed
  have body: "triple ?A
            (vseq (vbind (scaleWorkloadTyped env Deployment name 0) (\<lambda>r. vset (\<lambda>s. s\<lparr>vs_old := Some r\<rparr>)))
            (vseq (waitForPodsTerminated env cfg sel)
            (vseq (createPVCFromSpec env n pvc target)
            (vseq (vset (\<lambda>s. s\<lparr>vs_made := True\<rparr>))
            (vseq (copyData env cfg c n ''copier'' rnd2)
            (vseq (check_parity env snap n target)
            (vseq (repointDeploymentPVC env name c n)
            (vseq (vset (\<lambda>s. s\<lparr>vs_past := True\<rparr>))
            (vseq (\<lambda>s. scaleWorkloadTyped env Deployment name (case vs_old s of Some r \<Rightarrow> r | None \<Rightarrow> 0) s)
            (vseq (vset (\<lambda>s. s\<lparr>vs_old := None\<rparr>))
            (vseq (deletePVC env c)
            (vseq (waitForPVCDeletion env cfg c)
            (if pv_reclaim pv = ReclaimRetain then deletePVBestEffort env (pv_name pv) else vret ())))))))))))))
      (\<lambda>_. ?B) ?E" for name sel
    by (intro triple_seq[OF triple_error[OF scale_down_triple]] triple_seq[OF triple_error[OF wait_pods_triple]] triple_seq[OF prepare]
        triple_seq[OF triple_flags(2)] triple_seq[OF triple_flags(1)] triple_seq[OF copy] triple_seq[OF parity] triple_seq[OF repoint] triple_seq[OF past] triple_seq[OF up]
        triple_error[OF deployment_cleanup[OF assms(1)]]) auto
  show ?thesis unfolding downsizeDeployment_def Let_def assms(2)[symmetric]
    by (rule triple_bind[OF find], rule triple_found(1)[OF triple_rollback[OF body rollback]]) (rule tracked_always)
qed

lemma triple_disj: "triple P m Q E \<Longrightarrow> triple P' m Q E \<Longrightarrow> triple (\<lambda>s. P s \<or> P' s) m Q E"
  by (auto simp: triple_def)

lemma has_copy_create: "c \<noteq> n \<Longrightarrow> has_copy d c pv t \<Longrightarrow> has_copy d c pv (apply_event j (CreatePVC n p, a) t)"
  by (auto simp: has_copy_def event_create own_volume_def apply_event_def kept_def)

text \<open>The second half of the migration of a StatefulSet, once the claim is gone.\<close>

lemma statefulset_recreate:
  assumes "c \<noteq> n" and "pv = pv_name pvo"
  shows "triple (tracked j st d (has_copy d n pv) True)
    (vseq (createPVCFromSpec env c pvc target)
    (vseq (copyData env cfg n c role rnd)
    (vseq (check_parity env snap c target)
    (vseq (\<lambda>s. scaleWorkloadTyped env StatefulSet name (case vs_old s of Some r \<Rightarrow> r | None \<Rightarrow> 0) s)
    (vseq (vset (\<lambda>s. s\<lparr>vs_old := None\<rparr>))
    (vseq (deletePVC env n)
    (vseq (waitForPVCDeletion env cfg n)
    (vseq (vset (\<lambda>s. s\<lparr>vs_made := False\<rparr>))
    (deletePVBestEffort env (pv_name pvo))))))))))
    (\<lambda>_. tracked j st d (has_copy d c pv) True) (tracked j st d (\<lambda>t. has_copy d n pv t \<or> has_copy d c pv t) True)"
proof -
  let ?T = "\<lambda>J. tracked j st d J True"
  let ?N = "has_copy d n pv" and ?C = "has_copy d c pv" and ?E = "?T (\<lambda>t. has_copy d n pv t \<or> has_copy d c pv t)"
  have nc: "n \<noteq> c" using assms(1) by simp
  have create: "triple (?T ?N) (createPVCFromSpec env c pvc target) (\<lambda>_. ?T (\<lambda>t. ?N t \<and> ready c t \<and> own_volume c pv t)) ?E"
    using nc by (intro triple_error[OF createPVC_triple[OF _ _ _ refl, where J="?N"]])
      (auto simp: has_copy_create intro: event_create event_create_own has_durable elim: tracked_mono)
  have copy: "triple (?T (\<lambda>t. ?N t \<and> ready c t \<and> own_volume c pv t)) (copyData env cfg n c role rnd) (\<lambda>_. ?T (\<lambda>t. ?N t \<and> ?C t)) ?E"
    by (rule triple_conseq[OF copyData_triple[OF nc, where R="\<lambda>t. own_volume n pv t \<and> own_volume c pv t"]])
      (auto simp: has_copy_def own_volume_copy event_pod elim: tracked_mono)
  have parity: "triple (?T (\<lambda>t. ?N t \<and> ?C t)) (check_parity env snap c target) (\<lambda>_. ?T (\<lambda>t. ?N t \<and> ?C t)) ?E"
    by (rule triple_error[OF parity_triple]) (auto intro: has_copy_events has_durable elim: tracked_mono)
  have up: "triple (?T (\<lambda>t. ?N t \<and> ?C t)) (\<lambda>s. scaleWorkloadTyped env StatefulSet name (case vs_old s of Some r \<Rightarrow> r | None \<Rightarrow> 0) s) (\<lambda>_. ?T (\<lambda>t. ?N t \<and> ?C t)) ?E"
    by (rule triple_state[where g="\<lambda>s. case vs_old s of Some r \<Rightarrow> r | None \<Rightarrow> 0"], rule triple_error[OF scale_triple]) (auto elim: tracked_mono)
  have del: "triple (?T (\<lambda>t. ?N t \<and> ?C t)) (deletePVC env n) (\<lambda>_. ?T ?C) ?E"
    using assms(1) by (intro triple_error[OF deletePVC_triple[where K="?C"]]) (auto intro: has_copy_events has_durable elim: tracked_mono)
  have wait: "triple (?T ?C) (waitForPVCDeletion env cfg n) (\<lambda>_. ?T ?C) ?E"
    by (rule triple_error[OF wait_deletion_triple]) (auto intro: has_copy_events has_durable elim: tracked_mono)
  show ?thesis
    by (intro triple_seq[OF create] triple_seq[OF copy] triple_seq[OF parity] triple_seq[OF up] triple_seq[OF triple_flags(1)] triple_seq[OF del]
        triple_seq[OF wait] triple_seq[OF triple_flags(2)] delete_pv_triple) (auto simp: assms(2)[symmetric] intro: has_copy_events has_durable)
qed

text \<open>The claim is under deletion and the copy is kept.\<close>

definition half_deleted :: "'d \<Rightarrow> string \<Rightarrow> string \<Rightarrow> string \<Rightarrow> 'd storage \<Rightarrow> bool" where
  "half_deleted d c n pv t \<longleftrightarrow> has_copy d n pv t \<and> c \<in> sg_ending t"

lemma wait_original_triple:
  "triple (tracked j st d (half_deleted d c n pv) b) (waitForPVCDeletion env cfg c) (\<lambda>_. tracked j st d (has_copy d n pv) b)
     (tracked j st d (half_deleted d c n pv) b)"
  unfolding waitForPVCDeletion_def
proof (rule wait_for_triple)
  let ?J' = "\<lambda>a t. has_copy d n pv t \<and> (a \<noteq> ANotFound \<longrightarrow> c \<in> sg_ending t)"
  show "triple (tracked j st d (half_deleted d c n pv) b) (ask env (GetPVC c)) (\<lambda>a. tracked j st d (?J' a) b) (tracked j st d (half_deleted d c n pv) b)"
    by (rule triple_ask) (auto simp: half_deleted_def event_get(3) intro: has_copy_events has_durable)
qed (auto simp: half_deleted_def split: vanswer.splits)

lemma ending_rollback:
  assumes "c \<noteq> n"
  shows "triple (\<lambda>s. c \<in> sg_ending (storage_after j st (vs_hist s)))
    (vseq (if made then vtry (deletePVC env n) else vret ())
      (vseq (if patched then vtry (patchPVReclaim env pv r) else vret ()) (restore_replicas env StatefulSet name)))
    (\<lambda>_ s. c \<in> sg_ending (storage_after j st (vs_hist s))) (\<lambda>s. c \<in> sg_ending (storage_after j st (vs_hist s)))"
proof -
  let ?P = "\<lambda>s. c \<in> sg_ending (storage_after j st (vs_hist s))"
  have st: "stable ?P" by (simp add: stable_def quiet_event)
  have "triple ?P (deletePVC env n) (\<lambda>_. ?P) ?P"
    unfolding deletePVC_def by (auto simp: triple_def vbind_def ask_def vret_def vfail_def Let_def event_delete)
  moreover have "triple ?P (patchPVReclaim env pv r) (\<lambda>_. ?P) ?P"
    unfolding patchPVReclaim_def ask_done_def by (auto simp: triple_def vbind_def ask_def vret_def vfail_def Let_def event_patch)
  ultimately show ?thesis
    by (intro triple_seq[where R="?P"] triple_if triple_try triple_ret restore_stable[OF st]) auto
qed

lemma statefulset_triple:
  assumes "c \<noteq> n" "n = c @ ''-tmp-'' @ rnd1"
  shows "triple (tracked j st d (kept d c) False) (downsizeStatefulSet env cfg rnd1 rnd2 rnd3 c pvc pv target snap)
    (\<lambda>_. tracked j st d (has_copy d c (pv_name pv)) True)
    (\<lambda>s. always_durable j st d (vs_hist s) \<or> c \<in> sg_ending (storage_after j st (vs_hist s)))"
proof -
  let ?v = "pv_name pv"
  let ?A = "tracked j st d (kept d c) False" and ?U = "tracked j st d (half_deleted d c n ?v) False"
  let ?AB = "tracked j st d (\<lambda>t. kept d c t \<and> has_copy d n ?v t) False" and ?N = "\<lambda>b. tracked j st d (has_copy d n ?v) b"
  let ?B = "tracked j st d (\<lambda>t. has_copy d n ?v t \<or> has_copy d c ?v t) True"
  let ?E = "\<lambda>s. (?A s \<or> ?U s) \<or> ?B s"
  let ?F = "\<lambda>s. always_durable j st d (vs_hist s) \<or> c \<in> sg_ending (storage_after j st (vs_hist s))"
  have find: "triple ?A (\<lambda>s. map_option (\<lambda>r. (Inr (fst r), snd r)) (getWorkloadByPVC env c s)) (\<lambda>_. ?A) ?F"
    using getWorkload_triple[of j st d "kept d c" False env c]
    by (fastforce simp: triple_def split: option.splits sum.splits)
  have keep: "triple ?A (patchPVReclaim env ?v r) (\<lambda>_. ?A) ?A" for r
    unfolding patchPVReclaim_def ask_done_def
    by (intro triple_bind[OF triple_keep] triple_if triple_ret triple_fail) (auto intro: kept_events has_durable)
  have patch: "triple ?A (if pv_reclaim pv \<noteq> ReclaimRetain
      then vseq (patchPVReclaim env ?v ReclaimRetain) (vset (\<lambda>s. s\<lparr>vs_patched := True\<rparr>)) else vret ()) (\<lambda>_. ?A) ?E"
    by (rule triple_if, rule triple_seq[OF triple_error[OF keep] triple_flags(3)], simp, rule triple_ret)
  have create: "triple ?A (createPVCFromSpec env n pvc target) (\<lambda>_. tracked j st d (\<lambda>t. kept d c t \<and> ready n t \<and> own_volume n ?v t) False) ?E"
    by (rule triple_error[OF create_step[OF assms(1)]]) simp
  have copy: "triple (tracked j st d (\<lambda>t. kept d c t \<and> ready n t \<and> own_volume n ?v t) False) (copyData env cfg c n ''cp1'' rnd2) (\<lambda>_. ?AB) ?E"
    by (rule triple_error[OF copy_step[OF assms(1)]]) simp
  have del: "triple ?AB (deletePVC env c) (\<lambda>_. ?U) ?E"
    using assms(1) by (intro triple_error[OF deletePVC_triple[where K="half_deleted d c n ?v"]])
      (auto simp: half_deleted_def event_delete intro: has_copy_events has_durable)
  have wait: "triple ?U (waitForPVCDeletion env cfg c) (\<lambda>_. ?N False) ?E"
    by (rule triple_error[OF wait_original_triple]) simp
  have past: "triple (?N False) (vset (\<lambda>s. s\<lparr>vs_past := True\<rparr>)) (\<lambda>_. ?N True) ?E"
    by (rule triple_set) (blast intro: tracked_past)
  have rollback: "triple ?E (rollback_statefulset env name n pv) (\<lambda>_. ?F) ?F" for name
  proof -
    let ?m = "\<lambda>x. vseq (if fst x then vtry (deletePVC env n) else vret ())
       (vseq (if snd x then vtry (patchPVReclaim env ?v (pv_reclaim pv)) else vret ()) (restore_replicas env StatefulSet name))"
    have "triple ?A (?m x) (\<lambda>_. ?A) ?A" for x
      using assms(1) by (intro triple_seq[where R="?A"] restore_triple triple_if triple_try keep deletePVC_triple triple_ret)
        (auto intro: kept_events has_durable)
    then have "triple ?A (?m x) (\<lambda>_. ?F) ?F" for x by (rule triple_conseq) (auto dest: tracked_always)
    moreover have "triple ?U (?m x) (\<lambda>_. ?F) ?F" for x
      by (rule triple_conseq[OF ending_rollback[OF assms(1)]]) (auto simp: tracked_def half_deleted_def)
    ultimately have m: "triple (\<lambda>s. ?A s \<or> ?U s) (?m x) (\<lambda>_. ?F) ?F" for x by (rule triple_disj)
    have "triple ?E (\<lambda>s. if vs_past s then vret () s else ?m (vs_made s, vs_patched s) s) (\<lambda>_. ?F) ?F"
      by (rule triple_unless_past[where g="\<lambda>s. (vs_made s, vs_patched s)" and m="?m", OF m]) (auto simp: tracked_def)
    then show ?thesis by (simp only: rollback_statefulset_def fst_conv snd_conv)
  qed
  note steps = triple_seq[OF triple_error[OF scale_down_triple]] triple_seq[OF triple_error[OF wait_pods_triple]] triple_seq[OF patch] triple_seq[OF create]
    triple_seq[OF triple_flags(2)] triple_seq[OF copy] triple_seq[OF del] triple_seq[OF wait] triple_seq[OF past]
    triple_error[OF statefulset_recreate[OF assms(1) refl]]
  show ?thesis unfolding downsizeStatefulSet_def Let_def assms(2)[symmetric]
    by (rule triple_bind[OF find], rule triple_found(2), rule triple_rollback[OF _ rollback], intro steps) (auto dest: tracked_always)
qed

section \<open>The action\<close>

definition vstart :: vstate where
  "vstart = \<lparr>vs_hist = [], vs_old = None, vs_patched = False, vs_made = False, vs_past = False\<rparr>"

lemma tracked_start: "wf_storage st \<Longrightarrow> kept d c st \<Longrightarrow> tracked j st d (kept d c) False vstart"
  by (simp add: tracked_def vstart_def kept_durable)

lemma ask_get_triple:
  "triple (tracked j st d (kept d c) b) (ask env (GetPVC n)) (\<lambda>_. tracked j st d (kept d c) b) E"
  by (rule triple_keep) (auto intro: kept_events kept_durable)

lemma prereqs_triple:
  "triple (tracked j st d (kept d c) b) (validateDownsizePrereqs env n) (\<lambda>_. tracked j st d (kept d c) b) (tracked j st d (kept d c) b)"
proof -
  let ?T = "tracked j st d (kept d c) b"
  have cls: "triple ?T (vbind (ask env (GetClass k)) (\<lambda>a. case a of AClass e \<Rightarrow> vret (p, v) | _ \<Rightarrow> vfail ClassGet)) (\<lambda>_. ?T) ?T" for k p v
    by (rule triple_bind[OF triple_quiet]) (auto simp: quiet_def intro!: triple_ret triple_fail split: vanswer.split)
  have vol: "triple ?T (vbind (ask env (GetPV k)) (\<lambda>b. case b of APV pv \<Rightarrow> if pv_hostPath pv then vfail PvHostPath
        else if or_blank cl = [] then vfail PvcNoClass
        else vbind (ask env (GetClass (or_blank cl))) (\<lambda>a. case a of AClass e \<Rightarrow> vret (p, pv) | _ \<Rightarrow> vfail ClassGet)
      | _ \<Rightarrow> vfail PvGet)) (\<lambda>_. ?T) ?T" for k p cl
    by (rule triple_bind[OF triple_quiet]) (auto simp: quiet_def intro!: triple_fail cls split: vanswer.split)
  show ?thesis unfolding validateDownsizePrereqs_def
    by (rule triple_bind[OF ask_get_triple]) (auto intro!: triple_fail vol split: vanswer.split)
qed

text \<open>The data was always durable, and some claim keeps it.\<close>

definition kept_somewhere :: "'d \<Rightarrow> 'd storage \<Rightarrow> 'd \<Rightarrow> vstate \<Rightarrow> bool" where
  "kept_somewhere j st d s \<longleftrightarrow> always_durable j st d (vs_hist s) \<and> (\<exists>n. kept d n (storage_after j st (vs_hist s)))"

lemma downsize_triple:
  "triple (tracked j st d (kept d c) False) (DownsizePVC env cfg rnds c target) (\<lambda>_. kept_somewhere j st d)
     (\<lambda>s. always_durable j st d (vs_hist s) \<or> c \<in> sg_ending (storage_after j st (vs_hist s)))"
proof -
  let ?T = "tracked j st d (kept d c) False" and ?E = "\<lambda>s. always_durable j st d (vs_hist s) \<or> c \<in> sg_ending (storage_after j st (vs_hist s))"
  have err: "?T s \<Longrightarrow> ?E s" for s by (blast dest: tracked_always)
  have fin: "tracked j st d (has_copy d n pv) b s \<Longrightarrow> kept_somewhere j st d s" for n pv b s
    by (auto simp: tracked_def has_copy_def kept_somewhere_def)
  have dep: "triple ?T (downsizeDeployment env cfg rnd1 rnd2 c pvc pv target snap) (\<lambda>_. kept_somewhere j st d) ?E" for rnd1 rnd2 pvc pv snap
    by (rule triple_conseq[OF deployment_triple[OF _ refl]]) (auto dest: fin)
  have sts: "triple ?T (downsizeStatefulSet env cfg rnd1 rnd2 rnd3 c pvc pv target snap) (\<lambda>_. kept_somewhere j st d) ?E" for rnd1 rnd2 rnd3 pvc pv snap
    by (rule triple_conseq[OF statefulset_triple[OF _ refl]]) (auto dest: fin)
  have fail: "triple ?T (vfail e) Q ?E" for e and Q :: "unit \<Rightarrow> vstate \<Rightarrow> bool" by (rule triple_fail) (rule err)
  have move: "triple ?T (vbind (getWorkloadByPVC env c) (\<lambda>found. case found of
        Some (Deployment, w) \<Rightarrow> downsizeDeployment env cfg rnd1 rnd2 c pvc pv target snap
      | Some (StatefulSet, w) \<Rightarrow> downsizeStatefulSet env cfg rnd1 rnd2 rnd3 c pvc pv target snap
      | None \<Rightarrow> vfail NoWorkload)) (\<lambda>_. kept_somewhere j st d) ?E" for rnd1 rnd2 rnd3 pvc pv snap
    by (rule triple_bind[OF triple_error[OF getWorkload_triple err]]) (auto intro: dep sts fail split: option.split wkind.split)
  show ?thesis unfolding DownsizePVC_def Let_def
    by (auto intro!: fail triple_bind[OF triple_error[OF prereqs_triple err]] move split: prod.split)
qed

lemma rightsize_triple:
  "triple (tracked j st d (kept d c) False) (RightsizePVC env cfg parse rnds ns c wanted)
     (\<lambda>_. kept_somewhere j st d) (\<lambda>s. always_durable j st d (vs_hist s) \<or> c \<in> sg_ending (storage_after j st (vs_hist s)))"
proof -
  let ?T = "tracked j st d (kept d c) False" and ?E = "\<lambda>s. always_durable j st d (vs_hist s) \<or> c \<in> sg_ending (storage_after j st (vs_hist s))"
  have err: "?T s \<Longrightarrow> ?E s" and fin: "?T s \<Longrightarrow> kept_somewhere j st d s" for s by (auto simp: tracked_def kept_somewhere_def)
  have cls: "triple ?T (if or_blank k = [] then vret () else vbind (ask env (GetClass (or_blank k))) (\<lambda>a. case a of
      AClass e \<Rightarrow> if e = Some True then vret () else vfail ClassNoExpansion | _ \<Rightarrow> vfail ClassGet)) (\<lambda>_. ?T) ?E" for k
    by (intro triple_if triple_ret triple_bind[OF triple_quiet]) (auto simp: quiet_def intro!: triple_ret triple_fail err split: vanswer.split)
  have grow: "triple ?T (vseq (ask_done env (PatchSize c n) PvcPatch) (vret ExpansionRequested)) (\<lambda>_. kept_somewhere j st d) ?E" for n
    unfolding ask_done_def
    by (rule triple_seq[OF triple_bind[OF triple_quiet]]) (auto simp: quiet_def intro!: triple_ret triple_fail err fin)
  let ?body = "\<lambda>t cur k. if t = cur then vret (AlreadyAt cur)
     else if t < cur then vseq (DownsizePVC env cfg rnds c t) (vret Downsized)
     else vseq (if or_blank k = [] then vret () else vbind (ask env (GetClass (or_blank k))) (\<lambda>a. case a of
         AClass e \<Rightarrow> if e = Some True then vret () else vfail ClassNoExpansion | _ \<Rightarrow> vfail ClassGet))
       (vseq (ask_done env (PatchSize c t) PvcPatch) (vret ExpansionRequested))"
  have body: "triple ?T (?body t cur k) (\<lambda>_. kept_somewhere j st d) ?E" for t cur k
    by (intro triple_if triple_seq[OF downsize_triple triple_ret] triple_seq[OF cls grow]) (auto intro: triple_ret fin)
  have read: "triple ?T (vbind (ask env (GetPVC c)) (\<lambda>a. case a of
      APVC pvc \<Rightarrow> ?body t (if pc_capacity pvc = 0 then pc_request pvc else pc_capacity pvc) (pc_class pvc) | _ \<Rightarrow> vfail PvcGet))
      (\<lambda>_. kept_somewhere j st d) ?E" for t
    by (rule triple_bind[OF ask_get_triple]) (simp only: split: vanswer.split, intro conjI allI impI triple_fail body err)
  show ?thesis unfolding RightsizePVC_def Let_def
    by (simp only: split: option.split if_split, intro conjI allI impI triple_fail read err)
qed

lemma triple_run: "triple P m Q E \<Longrightarrow> P s \<Longrightarrow> m s = Some (r, t) \<Longrightarrow> case r of Inr x \<Rightarrow> Q x t | Inl e \<Rightarrow> E t"
  by (auto simp: triple_def split: sum.split)



section \<open>Every run ends\<close>

text \<open>The time slept so far, and a clock that runs at least as fast.\<close>

fun slept :: "history \<Rightarrow> duration" where
  "slept [] = 0"
| "slept ((Sleep d, a) # h) = (if a = ACtx then 0 else max 0 d) + slept h"
| "slept (e # h) = slept h"

definition clock_advances :: "vol_env \<Rightarrow> bool" where
  "clock_advances env \<longleftrightarrow> (\<forall>h. \<exists>t. env h Now = ATime t \<and> slept h \<le> t)"

definition total :: "'a vprog \<Rightarrow> bool" where
  "total m \<longleftrightarrow> (\<forall>s. m s \<noteq> None)"

named_theorems total_intros

lemma total_basic [total_intros]:
  "total (vret x)" "total (vfail e)" "total (ask env c)" "total (vset f)"
  by (auto simp: total_def vret_def vfail_def ask_def vset_def Let_def)

lemma total_bind [total_intros]: "total m \<Longrightarrow> (\<And>x. total (f x)) \<Longrightarrow> total (vbind m f)"
  by (fastforce simp: total_def vbind_def split: option.splits sum.splits)

lemma total_seq [total_intros]: "total m \<Longrightarrow> total n \<Longrightarrow> total (vseq m n)"
  unfolding vseq_def by (rule total_bind)

lemma total_finally [total_intros]: "total m \<Longrightarrow> total n \<Longrightarrow> total (vfinally m n)"
  unfolding total_def vfinally_def by (auto simp del: not_None_eq split: option.split prod.split)

lemma total_rollback [total_intros]: "total m \<Longrightarrow> total n \<Longrightarrow> total (vrollback m n)"
  unfolding total_def vrollback_def by (auto simp del: not_None_eq split: option.split sum.split prod.split)

lemma total_try [total_intros]: "total m \<Longrightarrow> total (vtry m)"
  by (simp add: total_def vtry_def)

lemma total_if [total_intros]: "total m \<Longrightarrow> total n \<Longrightarrow> total (if b then m else n)"
  by simp

lemma total_state: "(\<And>x. total (m x)) \<Longrightarrow> total (\<lambda>s. m (g s) s)"
  by (simp add: total_def)

lemma total_clock [total_intros]: "total (vnow env)" "total (sleepCtx env d)" "total (ask_done env c e)"
  unfolding vnow_def sleepCtx_def ask_done_def by (intro total_intros)+

lemma slept_ge: "slept h \<le> slept ((c, a) # h)"
  by (cases c) auto

text \<open>A round that goes on has slept, with the clock not past the deadline.\<close>

lemma poll_round_again:
  assumes "clock_advances env" "0 < n" "poll_round env n c classify timeout deadline s = Some (Inr False, t)"
  shows "slept (vs_hist s) \<le> deadline" "slept (vs_hist s) + n \<le> slept (vs_hist t)"
proof -
  define a where "a = env (vs_hist s) c"
  let ?h = "(c, a) # vs_hist s"
  have cl: "classify a = Inr False"
    using assms(3) by (cases "classify a") (auto simp: poll_round_def vbind_def ask_def vret_def vfail_def a_def[symmetric] split: if_splits)
  obtain now where now: "env ?h Now = ATime now" "slept ?h \<le> now" using assms(1) unfolding clock_advances_def by blast
  have "(if deadline < now then vfail timeout else vseq (sleepCtx env n) (vret False)) (s\<lparr>vs_hist := (Now, ATime now) # ?h\<rparr>) = Some (Inr False, t)"
    using assms(3) cl now(1) by (simp add: poll_round_def vbind_def ask_def vnow_def Let_def a_def[symmetric] vret_def split: if_splits)
  then have "\<not> deadline < now" "env ((Now, ATime now) # ?h) (Sleep n) \<noteq> ACtx"
      "vs_hist t = (Sleep n, env ((Now, ATime now) # ?h) (Sleep n)) # (Now, ATime now) # ?h"
    by (auto simp: vbind_def vseq_def ask_def vret_def vfail_def sleepCtx_def Let_def split: if_splits)
  then show "slept (vs_hist s) \<le> deadline" "slept (vs_hist s) + n \<le> slept (vs_hist t)"
    using now(2) slept_ge[of "vs_hist s" c a] assms(2) by auto
qed

lemma total_poll_until:
  assumes "clock_advances env" "0 < n"
  shows "total (poll_until env n c classify timeout deadline)"
proof -
  have "poll_until env n c classify timeout deadline s \<noteq> None" for s
  proof (induction "nat (deadline + 1 - slept (vs_hist s))" arbitrary: s rule: less_induct)
    case less
    have "total (poll_round env n c classify timeout deadline)" unfolding poll_round_def
      by (rule total_bind) (auto intro!: total_intros split: sum.split)
    then obtain q t where q: "poll_round env n c classify timeout deadline s = Some (q, t)" unfolding total_def by fast
    show ?case
    proof (cases "q = Inr False")
      case True
      note again = poll_round_again[OF assms q[unfolded True]]
      have "nat (deadline + 1 - slept (vs_hist t)) < nat (deadline + 1 - slept (vs_hist s))" using again assms(2) by linarith
      from less[OF this] show ?thesis using q True by (simp add: poll_until.simps)
    next
      case False then show ?thesis using q by (simp add: poll_until.simps)
    qed
  qed
  then show ?thesis by (simp add: total_def)
qed

lemma pollInterval_pos: "0 < pollInterval cfg"
  by (simp add: pollInterval_def defaultPollInterval_def)

lemma total_wait: "clock_advances env \<Longrightarrow> total (wait_for env cfg limit c classify timeout)"
  unfolding wait_for_def by (intro total_intros total_poll_until pollInterval_pos)

lemma total_scale_loop [total_intros]: "total (scale_loop env kind name r n attempt old)"
proof (induction n arbitrary: attempt old)
  case (Suc n)
  have "total (case a of AReplicas x \<Rightarrow> ask env (SetReplicas kind name r) | _ \<Rightarrow> vret (if a = AConflict then AConflict else AFailed))" for a
    by (cases a) (simp_all add: total_basic)
  then show ?case unfolding scale_loop.simps Let_def by (intro total_intros Suc.IH)
qed (simp add: total_basic)

lemma total_scale [total_intros]: "total (scaleWorkloadTyped env kind name r)"
  unfolding scaleWorkloadTyped_def by (rule total_scale_loop)

lemma total_repoint_loop: "total (repoint_loop env name old new n attempt)"
proof (induction n arbitrary: attempt)
  case (Suc n)
  show ?case unfolding repoint_loop.simps
    by (rule total_bind) (auto intro!: total_intros Suc.IH split: vanswer.split)
qed (simp add: total_basic)

lemma total_restore: "total (restore_replicas env kind name)"
proof -
  have "total (vtry (scaleWorkloadTyped env kind name r))" for r by (intro total_intros)
  then have "restore_replicas env kind name s \<noteq> None" for s
    unfolding total_def restore_replicas_def by (cases "vs_old s") (simp_all add: vret_def)
  then show ?thesis by (simp add: total_def)
qed

lemma total_getWorkload: "total (getWorkloadByPVC env c)"
  unfolding getWorkloadByPVC_def
  by (rule total_bind) (auto intro!: total_intros split: vanswer.split option.split)

lemma total_steps [total_intros]:
  "total (deletePVC env n)" "total (patchPVReclaim env v r)" "total (createPVCFromSpec env n src amount)" "total (deletePVBestEffort env v)"
  "total (repointDeploymentPVC env name old new)"
  unfolding deletePVC_def patchPVReclaim_def createPVCFromSpec_def deletePVBestEffort_def repointDeploymentPVC_def
  by (intro total_intros total_repoint_loop)+

lemma total_parity [total_intros]: "total (check_parity env snap n target)"
  unfolding check_parity_def by (rule total_bind) (auto intro!: total_intros split: vanswer.split)

lemma total_waits [total_intros]:
  assumes "clock_advances env"
  shows "total (waitForPodsTerminated env cfg sel)" "total (waitForPodRunning env cfg pod)" "total (waitForPVCDeletion env cfg n)"
  unfolding waitForPodsTerminated_def waitForPodRunning_def waitForPVCDeletion_def by (rule total_wait[OF assms])+

lemma total_copyTimeout [total_intros]: "total (copyTimeout env cfg)"
  unfolding copyTimeout_def by (auto intro!: total_intros simp: Let_def split: option.split)

lemma total_copyData [total_intros]:
  assumes "clock_advances env"
  shows "total (copyData env cfg src dst role rnd)"
proof -
  have "total (case a of AExec code stdout \<Rightarrow> if code \<noteq> 0 then vfail (CopyExit code)
      else if \<not> contains stdout ''COPY_SUCCESS'' then vfail CopyMarker else vret () | _ \<Rightarrow> vfail CopyExec)" for a
    by (cases a) (simp_all add: total_basic)
  then show ?thesis unfolding copyData_def Let_def by (intro total_intros assms)
qed

lemma total_rollbacks:
  "total (rollback_deployment env name n)" "total (rollback_statefulset env name n pv)"
proof -
  have "total (vseq (if b then vtry (deletePVC env n) else vret ()) (restore_replicas env Deployment name))" for b
    by (intro total_intros total_restore)
  then show "total (rollback_deployment env name n)" by (simp add: total_def rollback_deployment_def vret_def)
  have "total (vseq (if b then vtry (deletePVC env n) else vret ())
      (vseq (if b' then vtry (patchPVReclaim env (pv_name pv) (pv_reclaim pv)) else vret ()) (restore_replicas env StatefulSet name)))" for b b'
    by (intro total_intros total_restore)
  then show "total (rollback_statefulset env name n pv)" by (simp add: total_def rollback_statefulset_def vret_def)
qed

lemma total_scale_back [total_intros]: "total (\<lambda>s. scaleWorkloadTyped env kind name (case vs_old s of Some r \<Rightarrow> r | None \<Rightarrow> 0) s)"
  by (rule total_state[where g="\<lambda>s. case vs_old s of Some r \<Rightarrow> r | None \<Rightarrow> 0"]) (rule total_scale)

lemma total_found: "total (\<lambda>s. map_option (\<lambda>r. (Inr (fst r), snd r)) (getWorkloadByPVC env c s))"
  using total_getWorkload[of env c] by (simp add: total_def)

lemma total_downsize [total_intros]:
  assumes "clock_advances env"
  shows "total (DownsizePVC env cfg rnds c target)"
proof -
  have "total (downsizeDeployment env cfg rnd1 rnd2 c pvc pv target snap)" for rnd1 rnd2 pvc pv snap
    unfolding downsizeDeployment_def Let_def
    by (rule total_bind[OF total_found]) (simp only: split: sum.split option.split prod.split wkind.split, intro allI conjI impI total_intros assms total_rollbacks)
  moreover have "total (downsizeStatefulSet env cfg rnd1 rnd2 rnd3 c pvc pv target snap)" for rnd1 rnd2 rnd3 pvc pv snap
    unfolding downsizeStatefulSet_def Let_def
    by (rule total_bind[OF total_found]) (simp only: split: sum.split option.split prod.split wkind.split, intro allI conjI impI total_intros assms total_rollbacks)
  moreover have "total (validateDownsizePrereqs env c)"
    unfolding validateDownsizePrereqs_def by (rule total_bind) (auto intro!: total_intros split: vanswer.split)
  ultimately show ?thesis unfolding DownsizePVC_def Let_def
    by (auto intro!: total_intros total_getWorkload split: prod.split option.split wkind.split)
qed

text \<open>Resizing a claim ends. With a clock that does not run slower than the process sleeps, every run of
  the action returns: each waiting loop meets its deadline, and the retries are bounded.\<close>

lemma resize_ends:
  assumes "clock_advances env"
  shows "\<exists>r s. RightsizePVC env cfg parse rnds ns c wanted vstart = Some (r, s)"
proof -
  have "total (RightsizePVC env cfg parse rnds ns c wanted)" unfolding RightsizePVC_def Let_def
    by (auto intro!: total_intros assms split: option.split vanswer.split)
  then show ?thesis unfolding total_def by fast
qed

section \<open>Two runs\<close>

text \<open>A claim of size 20 that a Deployment mounts, resized to 10 by an API server that accepts everything.\<close>

definition sample_pvc :: "int \<Rightarrow> pvc_obj" where
  "sample_pvc n = \<lparr>pc_phase = ''Bound'', pc_volume = ''pv-1'', pc_class = Some ''fast'', pc_mode = None, pc_modes = [''RWO''], pc_labels = [],
     pc_annotations = [], pc_request = n, pc_capacity = n, pc_selector = None, pc_dataSource = None, pc_dataSourceRef = None\<rparr>"

definition sample_workload :: pvc_workload where
  "sample_workload = \<lparr>wl_name = ''db'', wl_volumes = [Some ''data''], wl_templates = [], wl_selector = Some [(''app'', ''db'')]\<rparr>"

definition sample_answers :: "vcall \<Rightarrow> vanswer" where
  "sample_answers c = (case c of
     GetPVC n \<Rightarrow> APVC (sample_pvc (if n = ''data'' then 20 else 10)) | GetPV n \<Rightarrow> APV \<lparr>pv_name = n, pv_hostPath = False, pv_reclaim = ReclaimDelete, pv_claim = None\<rparr>
   | GetClass n \<Rightarrow> AClass None | ListDeployments \<Rightarrow> AWorkloads [] | ListStatefulSets \<Rightarrow> AWorkloads [sample_workload]
   | GetReplicas k n \<Rightarrow> AReplicas (Some 2) | ListPods sel \<Rightarrow> APods 0 | GetPod n \<Rightarrow> APhase ''Running'' | ExecCopy p n \<Rightarrow> AExec 0 ''COPY_SUCCESS''
   | GetVolumes n \<Rightarrow> AVolumes [Some ''data''] | _ \<Rightarrow> ADone)"

definition sample_vol_env :: vol_env where
  "sample_vol_env h c = (case c of
     Now \<Rightarrow> ATime (slept h) | ListDeployments \<Rightarrow> AWorkloads [sample_workload]
   | GetPVC n \<Rightarrow> if (DeletePVC n, ADone) \<in> set h then ANotFound else sample_answers c
   | _ \<Rightarrow> sample_answers c)"

text \<open>The claim of a StatefulSet, with a context that ends while the deletion of the claim is awaited.\<close>

definition slow_vol_env :: vol_env where
  "slow_vol_env h c = (case c of Now \<Rightarrow> ATime (slept h) | Sleep d \<Rightarrow> ACtx | _ \<Rightarrow> sample_answers c)"

definition sample_vol_config :: vol_config where
  "sample_vol_config = \<lparr>vc_client = True, vc_exec = True, vc_image = [], vc_envImage = [], vc_copy = 0, vc_op = 0, vc_podTerm = 0, vc_poll = 0, vc_deadline = None\<rparr>"

definition sample_storage :: "nat storage" where
  "sample_storage = \<lparr>sg_claim = [''data'' \<mapsto> 0], sg_ending = {}, sg_data = (\<lambda>v. if v = 0 then 7 else 0), sg_retain = {}, sg_gone = {},
     sg_pv = [''pv-1'' \<mapsto> 0], sg_mover = Map.empty, sg_next = 1\<rparr>"

lemma sample_storage_ok: "wf_storage sample_storage" "kept 7 ''data'' sample_storage"
  by (auto simp: wf_storage_def kept_def sample_storage_def split: if_splits)

definition sample_resize :: "vol_env \<Rightarrow> ((vol_err + resize_outcome) \<times> vstate) option" where
  "sample_resize env = RightsizePVC env sample_vol_config (\<lambda>_. Some 10) (''a'', ''b'', ''c'') ''ns'' ''data'' ''10'' vstart"

text \<open>Running a program on a state.\<close>

lemma run_simps:
  "vret x s = Some (Inr x, s)" "vfail e s = Some (Inl e, s)"
  "vbind m f s = (case m s of None \<Rightarrow> None | Some (Inl e, t) \<Rightarrow> Some (Inl e, t) | Some (Inr x, t) \<Rightarrow> f x t)"
  "vseq m n s = (case m s of None \<Rightarrow> None | Some (Inl e, t) \<Rightarrow> Some (Inl e, t) | Some (Inr x, t) \<Rightarrow> n t)"
  "ask env c s = Some (Inr (env (vs_hist s) c), s\<lparr>vs_hist := (c, env (vs_hist s) c) # vs_hist s\<rparr>)"
  "vset g s = Some (Inr (), g s)"
  "vfinally m n s = (case m s of None \<Rightarrow> None | Some (r, t) \<Rightarrow> (case n t of None \<Rightarrow> None | Some (_, u) \<Rightarrow> Some (r, u)))"
  "vrollback m n s = (case m s of None \<Rightarrow> None | Some (Inr x, t) \<Rightarrow> Some (Inr x, t)
     | Some (Inl e, t) \<Rightarrow> (case n t of None \<Rightarrow> None | Some (_, u) \<Rightarrow> Some (Inl e, u)))"
  "vtry m' s = map_option (\<lambda>r. (Inr (), snd r)) (m' s)"
  by (simp_all add: vret_def vfail_def vbind_def vseq_def ask_def vset_def vfinally_def vrollback_def vtry_def Let_def)

lemma poll_until_ended:
  "classify (env (vs_hist s) c) = Inr True \<Longrightarrow>
   poll_until env n c classify timeout deadline s = Some (Inr (), s\<lparr>vs_hist := (c, env (vs_hist s) c) # vs_hist s\<rparr>)"
  by (simp add: poll_until.simps poll_round_def run_simps)

lemma poll_until_ctx:
  "classify (env (vs_hist s) c) = Inr False \<Longrightarrow> env ((c, env (vs_hist s) c) # vs_hist s) Now = ATime now \<Longrightarrow> \<not> deadline < now \<Longrightarrow>
   env ((Now, ATime now) # (c, env (vs_hist s) c) # vs_hist s) (Sleep n) = ACtx \<Longrightarrow>
   poll_until env n c classify timeout deadline s =
     Some (Inl CtxErr, s\<lparr>vs_hist := (Sleep n, ACtx) # (Now, ATime now) # (c, env (vs_hist s) c) # vs_hist s\<rparr>)"
  by (simp add: poll_until.simps poll_round_def run_simps vnow_def sleepCtx_def)

lemma scale_three: "scaleWorkloadTyped env kind name r = scale_loop env kind name r (Suc (Suc (Suc 0))) 0 None"
  by (simp add: scaleWorkloadTyped_def numeral_3_eq_3)

lemma repoint_five: "repointDeploymentPVC env name old new = repoint_loop env name old new (Suc (Suc (Suc (Suc (Suc 0))))) 0"
  by (simp add: repointDeploymentPVC_def eval_nat_numeral)

lemmas run_defs = run_simps poll_until_ended poll_until_ctx RightsizePVC_def DownsizePVC_def validateDownsizePrereqs_def getWorkloadByPVC_def
  podSpecMountsPVC_def template_claim_def downsizeDeployment_def downsizeStatefulSet_def Let_def scale_three scale_loop.simps
  repoint_five repoint_loop.simps waitForPodsTerminated_def waitForPodRunning_def waitForPVCDeletion_def wait_for_def vnow_def sleepCtx_def ask_done_def
  createPVCFromSpec_def copyData_def copyTimeout_def check_parity_def deletePVC_def patchPVReclaim_def deletePVBestEffort_def restore_replicas_def
  rollback_deployment_def rollback_statefulset_def derefReplicas_def opTimeout_def podTermTimeout_def pollInterval_def defaultOpTimeout_def defaultPodTermTimeout_def
  defaultPollInterval_def defaultCopyTimeout_def time_add_def contains.simps has_prefix_def sample_resize_def vstart_def sample_vol_config_def or_blank_def sample_pvc_def sample_workload_def


lemma sample_resize_ok: "\<exists>s. sample_resize sample_vol_env = Some (Inr Downsized, s)"
  by (simp add: run_defs sample_vol_env_def sample_answers_def repoint_volume_def newPVCSnapshot_def verifyParity_def differing_def filterUserAnnotations_def)


definition sample_migration :: "((vol_err + unit) \<times> vstate) option" where
  "sample_migration = downsizeDeployment sample_vol_env sample_vol_config ''a'' ''b'' ''data'' (sample_pvc 20)
     \<lparr>pv_name = ''pv-1'', pv_hostPath = False, pv_reclaim = ReclaimDelete, pv_claim = None\<rparr> 10 (newPVCSnapshot (sample_pvc 20)) vstart"

lemma sample_migration_ok: "\<exists>s. sample_migration = Some (Inr (), s)"
  by (simp add: run_defs sample_migration_def sample_vol_env_def sample_answers_def repoint_volume_def newPVCSnapshot_def verifyParity_def differing_def filterUserAnnotations_def)


end
