(* ===== verification/Caches.thy ===== *)
theory Caches
  imports EventsBlock ServiceEndpoints Diff
begin

text \<open>
  The caches of \<open>cmd/agent\<close> behind the trigger engine and the alert forwarder: the event cache and the
  live lister it replaces (\<open>k8s_events_cache.go\<close>, \<open>k8s_events_lister.go\<close>), the map from addresses to nodes
  (\<open>node_locator.go\<close>), the node-agent counter and the lister of service backends. The informer and the
  API server are parameters. The theory proves that the cached lister gives the same evidence
  tables as the live one, and that the address map is listed at most once per lifetime in every
  interleaving of callers.
\<close>

section \<open>Events\<close>

text \<open>\<open>corev1.Event\<close>; \<open>kv_Rest\<close> stands for the fields nothing here reads.\<close>

record kube_event =
  kv_Name :: string
  kv_Namespace :: string
  kv_UID :: string
  kv_ResourceVersion :: string
  kv_Creation :: time
  kv_Kind :: string
  kv_ObjNamespace :: string
  kv_ObjName :: string
  kv_Type :: string
  kv_Reason :: string
  kv_Message :: string
  kv_Count :: int
  kv_Component :: string
  kv_Controller :: string
  kv_First :: time
  kv_Last :: time
  kv_EventTime :: time
  kv_Series :: "(int \<times> time) option"
  kv_Rest :: string

definition pickEventTime :: "time list \<Rightarrow> time" where
  "pickEventTime candidates = (case find (\<lambda>t. t \<noteq> zero_time) candidates of Some t \<Rightarrow> t | None \<Rightarrow> zero_time)"

definition toAgentEvent :: "kube_event \<Rightarrow> k8s_event" where
  "toAgentEvent e =
     (let ended = pickEventTime [kv_Last e, kv_EventTime e, kv_Creation e] in
      \<lparr>ke_Type = kv_Type e, ke_Reason = kv_Reason e, ke_Message = trim_space (kv_Message e),
       ke_Count = (case kv_Series e of Some (n, t) \<Rightarrow> if 0 < n then n else kv_Count e | None \<Rightarrow> kv_Count e),
       ke_FirstSeen = pickEventTime [kv_First e, kv_EventTime e, kv_Creation e],
       ke_LastSeen = (case kv_Series e of Some (n, t) \<Rightarrow> if t \<noteq> zero_time then t else ended | None \<Rightarrow> ended),
       ke_Source = (if kv_Component e = [] then kv_Controller e else kv_Component e)\<rparr>)"

text \<open>Latest first, at most \<open>limit\<close>, which is not negative.\<close>

definition latest_first :: "int \<Rightarrow> k8s_event list \<Rightarrow> k8s_event list" where
  "latest_first limit events = take (nat limit) (sort_key (\<lambda>e. - ke_LastSeen e) events)"

text \<open>The live lister: \<open>api\<close> lists the events of a namespace with a field selector.\<close>

type_synonym events_api = "string \<Rightarrow> string \<Rightarrow> int \<Rightarrow> kube_event list option"

definition event_selector :: "string \<Rightarrow> string \<Rightarrow> string" where
  "event_selector kind name = join '',''
     ((if kind = [] then [] else [''involvedObject.kind='' @ kind]) @ (if name = [] then [] else [''involvedObject.name='' @ name]))"

definition k8sEventsLister_ListEvents :: "events_api option \<Rightarrow> events_lister" where
  "k8sEventsLister_ListEvents cs namespace kind name limit = (case cs of
     None \<Rightarrow> Some []
   | Some api \<Rightarrow>
       if namespace = [] \<and> kind = [] \<and> name = [] then Some []
       else map_option (\<lambda>items. latest_first limit (map toAgentEvent items)) (api namespace (event_selector kind name) (limit * 2)))"

section \<open>The event cache\<close>

definition cachedEventMessageMax :: nat where "cachedEventMessageMax = 512"

definition involvedKey :: "string \<Rightarrow> string \<Rightarrow> string" where
  "involvedKey kind name = to_lower kind @ ''/'' @ name"

definition truncateUTF8 :: "string \<Rightarrow> nat \<Rightarrow> string" where
  "truncateUTF8 s n = (if length s \<le> n then s else take (rune_back_to s 0 n) s)"

definition trimEvent :: "kube_event \<Rightarrow> kube_event" where
  "trimEvent e = e\<lparr>kv_Message := truncateUTF8 (trim_space (kv_Message e)) cachedEventMessageMax, kv_Rest := []\<rparr>"

text \<open>The informer: whether it has synced, its trimmed events, and the order in which an index returns them.\<close>

record event_informer =
  ei_synced :: bool
  ei_store :: "kube_event list"
  ei_order :: "kube_event list \<Rightarrow> kube_event list"

definition by_index :: "event_informer \<Rightarrow> (kube_event \<Rightarrow> string) \<Rightarrow> string \<Rightarrow> kube_event list" where
  "by_index informer key value = ei_order informer (filter (\<lambda>e. key e = value) (ei_store informer))"

definition cachedEventsLister_ListEvents :: "event_informer \<Rightarrow> events_lister \<Rightarrow> events_lister" where
  "cachedEventsLister_ListEvents informer live namespace kind name limit =
     (let answer = (\<lambda>objs. Some (latest_first limit
            (map toAgentEvent (filter (\<lambda>e. namespace = [] \<or> kv_Namespace e = namespace) objs)))) in
      if \<not> ei_synced informer then live namespace kind name limit
      else if kind \<noteq> [] \<and> name \<noteq> [] then answer (by_index informer (\<lambda>e. involvedKey (kv_Kind e) (kv_ObjName e)) (involvedKey kind name))
      else if kind = [] \<and> name = [] \<and> namespace \<noteq> [] then answer (by_index informer kv_Namespace namespace)
      else live namespace kind name limit)"

section \<open>Addresses of nodes\<close>

definition nodeIPCacheTTL :: duration where "nodeIPCacheTTL = 2 * minute"

text \<open>A node with its addresses: type and text.\<close>

type_synonym node_addresses = "string \<times> (string \<times> string) list"

definition add_address :: "string \<Rightarrow> (string, string) gomap \<Rightarrow> string \<times> string \<Rightarrow> (string, string) gomap" where
  "add_address name m addr =
     (if fst addr \<in> {''InternalIP'', ''ExternalIP'', ''Hostname''} \<and> snd addr \<noteq> [] then map_put (snd addr) name m else m)"

definition address_map :: "node_addresses list \<Rightarrow> (string, string) gomap" where
  "address_map nodes = foldl (\<lambda>m n. foldl (add_address (fst n)) m (snd n)) [] nodes"

record node_cache =
  nc_ipToNode :: "(string, string) gomap option"
  nc_cachedAt :: time
  nc_refreshed :: bool

definition lookupIP :: "node_cache \<Rightarrow> time \<Rightarrow> string \<Rightarrow> bool \<Rightarrow> string" where
  "lookupIP l now ip afterRefresh = (case nc_ipToNode l of
     None \<Rightarrow> []
   | Some m \<Rightarrow>
       if \<not> afterRefresh \<and> nodeIPCacheTTL < time_sub now (nc_cachedAt l) then []
       else (case map_of m ip of Some n \<Rightarrow> n | None \<Rightarrow> []))"

definition already_fresh :: "node_cache \<Rightarrow> time \<Rightarrow> bool" where
  "already_fresh l now \<longleftrightarrow> nc_refreshed l \<and> time_sub now (nc_cachedAt l) \<le> nodeIPCacheTTL"

definition store_addresses :: "node_addresses list \<Rightarrow> time \<Rightarrow> node_cache" where
  "store_addresses nodes now = \<lparr>nc_ipToNode = Some (address_map nodes), nc_cachedAt = now, nc_refreshed = True\<rparr>"

text \<open>The pod of a name: \<open>pod_node\<close> is its node, \<open>None\<close> when it cannot be read.\<close>

definition NodeForPod :: "bool \<Rightarrow> (string \<Rightarrow> string \<Rightarrow> string option) \<Rightarrow> string \<Rightarrow> string \<Rightarrow> string" where
  "NodeForPod client pod_node namespace podName =
     (if \<not> client \<or> trim_space podName = [] \<or> trim_space namespace = [] then []
      else (case pod_node namespace podName of None \<Rightarrow> [] | Some n \<Rightarrow> n))"

text \<open>Where a call of \<open>NodeForIP\<close> is: before its first lookup, waiting for the refresh lock, holding it before and
  after the freshness check, before its second lookup, returned.\<close>

datatype caller = Calls string | Waits string | Holds string | Lists string | Refreshed string | Returned string string

record locator_state =
  ls_cache :: node_cache
  ls_lock :: "nat option"
  ls_caller :: "nat \<Rightarrow> caller"
  ls_now :: time
  ls_lists :: "(time \<times> node_addresses list) list"

definition at_caller :: "nat \<Rightarrow> caller \<Rightarrow> locator_state \<Rightarrow> locator_state" where
  "at_caller i c s = s\<lparr>ls_caller := (ls_caller s)(i := c)\<rparr>"

definition newNodeLocator :: "time \<Rightarrow> locator_state" where
  "newNodeLocator now = \<lparr>ls_cache = \<lparr>nc_ipToNode = None, nc_cachedAt = zero_time, nc_refreshed = False\<rparr>, ls_lock = None,
     ls_caller = (\<lambda>_. Returned [] []), ls_now = now, ls_lists = []\<rparr>"

text \<open>One step of one goroutine, or of the clock; \<open>ls_lists\<close> records the listings that were stored, the latest
  first. A failed listing returns the empty text.\<close>

inductive locator_step :: "locator_state \<Rightarrow> locator_state \<Rightarrow> bool" where
  tick: "ls_now s \<le> t \<Longrightarrow> locator_step s (s\<lparr>ls_now := t\<rparr>)"
| start: "ls_caller s i = Returned a n \<Longrightarrow> locator_step s (at_caller i (Calls ip) s)"
| blank: "ls_caller s i = Calls ip \<Longrightarrow> trim_space ip = [] \<Longrightarrow> locator_step s (at_caller i (Returned ip []) s)"
| hit: "ls_caller s i = Calls ip \<Longrightarrow> trim_space ip \<noteq> [] \<Longrightarrow> n = lookupIP (ls_cache s) (ls_now s) ip False \<Longrightarrow> n \<noteq> [] \<Longrightarrow>
    locator_step s (at_caller i (Returned ip n) s)"
| miss: "ls_caller s i = Calls ip \<Longrightarrow> trim_space ip \<noteq> [] \<Longrightarrow> lookupIP (ls_cache s) (ls_now s) ip False = [] \<Longrightarrow>
    locator_step s (at_caller i (Waits ip) s)"
| acquire: "ls_caller s i = Waits ip \<Longrightarrow> ls_lock s = None \<Longrightarrow> locator_step s (at_caller i (Holds ip) (s\<lparr>ls_lock := Some i\<rparr>))"
| fresh: "ls_caller s i = Holds ip \<Longrightarrow> already_fresh (ls_cache s) (ls_now s) \<Longrightarrow>
    locator_step s (at_caller i (Refreshed ip) (s\<lparr>ls_lock := None\<rparr>))"
| stale: "ls_caller s i = Holds ip \<Longrightarrow> \<not> already_fresh (ls_cache s) (ls_now s) \<Longrightarrow> locator_step s (at_caller i (Lists ip) s)"
| failed: "ls_caller s i = Lists ip \<Longrightarrow> locator_step s (at_caller i (Returned ip []) (s\<lparr>ls_lock := None\<rparr>))"
| stored: "ls_caller s i = Lists ip \<Longrightarrow>
    locator_step s (at_caller i (Refreshed ip) (s\<lparr>ls_cache := store_addresses nodes (ls_now s), ls_lock := None,
      ls_lists := (ls_now s, nodes) # ls_lists s\<rparr>))"
| answer: "ls_caller s i = Refreshed ip \<Longrightarrow>
    locator_step s (at_caller i (Returned ip (lookupIP (ls_cache s) (ls_now s) ip True)) s)"

section \<open>The node-agent counter\<close>

definition nodeAgentCountTTL :: duration where "nodeAgentCountTTL = minute"

text \<open>The start times of the pods (\<open>None\<close> for a pod without one) and when they were listed; \<open>list_pods\<close> is
  \<open>None\<close> when the listing fails.\<close>

record agent_count =
  ac_started :: "time list"
  ac_listed :: time

definition nodeAgentCounter :: "time option list option \<Rightarrow> time \<Rightarrow> time \<Rightarrow> agent_count \<Rightarrow> nat option \<times> agent_count" where
  "nodeAgentCounter list_pods now startedBefore st =
     (let count = (\<lambda>s. (Some (length (filter (\<lambda>t. t < startedBefore) (ac_started s))), s)) in
      if ac_listed st = zero_time \<or> nodeAgentCountTTL \<le> time_sub now (ac_listed st)
      then (case list_pods of
        None \<Rightarrow> (None, st)
      | Some pods \<Rightarrow> count \<lparr>ac_started = List.map_filter id pods, ac_listed = now\<rparr>)
      else count st)"

section \<open>The lister of service backends\<close>

text \<open>The reads of the clientset: the pods with their labels, all of a namespace or those a label selector picks, the
  template labels of the workloads, the selector match; \<open>None\<close> is an API error. A listing of rollouts
  gives the template labels found in each object, fails with NotFound or Forbidden, or fails otherwise.\<close>

datatype rollout_listing = RolloutsListed "(string, string) gomap list" | RolloutsMissing | RolloutsFailed

record backends_api =
  ba_pods :: "string \<Rightarrow> pod_label_sample list option"
  ba_podsSelected :: "string \<Rightarrow> (string, string) gomap \<Rightarrow> pod_label_sample list option"
  ba_deployments :: "string \<Rightarrow> (string, string) gomap list option"
  ba_statefulSets :: "string \<Rightarrow> (string, string) gomap list option"
  ba_daemonSets :: "string \<Rightarrow> (string, string) gomap list option"
  ba_matches :: "(string, string) gomap \<Rightarrow> (string, string) gomap \<Rightarrow> bool"

record backends_lister =
  bl_cs :: "backends_api option"
  bl_dyn :: "(string \<Rightarrow> rollout_listing) option"
  bl_rolloutsUnsupported :: bool

definition AnyPodMatching :: "backends_lister \<Rightarrow> string \<Rightarrow> (string, string) gomap \<Rightarrow> bool option" where
  "AnyPodMatching l namespace selector = (case bl_cs l of
     None \<Rightarrow> Some False
   | Some cs \<Rightarrow>
       if namespace = [] \<or> length selector = 0 then Some False
       else map_option (\<lambda>items. 0 < length items) (ba_podsSelected cs namespace selector))"

definition anyRolloutTemplateMatching ::
  "backends_lister \<Rightarrow> ((string, string) gomap \<Rightarrow> bool) \<Rightarrow> string \<Rightarrow> bool option \<times> backends_lister" where
  "anyRolloutTemplateMatching l matches namespace = (case bl_dyn l of
     None \<Rightarrow> (Some False, l)
   | Some dyn \<Rightarrow>
       if bl_rolloutsUnsupported l then (Some False, l)
       else (case dyn namespace of
         RolloutsMissing \<Rightarrow> (Some False, l\<lparr>bl_rolloutsUnsupported := True\<rparr>)
       | RolloutsFailed \<Rightarrow> (None, l)
       | RolloutsListed items \<Rightarrow> (Some (list_ex (\<lambda>labels. 0 < length labels \<and> matches labels) items), l)))"

text \<open>One kind of workload: an error ends the sweep, a match answers it, otherwise the rest is asked.\<close>

definition template_sweep :: "((string, string) gomap \<Rightarrow> bool) \<Rightarrow> (string, string) gomap list option \<Rightarrow>
    bool option \<times> backends_lister \<Rightarrow> backends_lister \<Rightarrow> bool option \<times> backends_lister" where
  "template_sweep matches items otherwise l = (case items of
     None \<Rightarrow> (None, l)
   | Some ts \<Rightarrow> if list_ex matches ts then (Some True, l) else otherwise)"

definition AnyWorkloadTemplateMatching ::
  "backends_lister \<Rightarrow> string \<Rightarrow> (string, string) gomap \<Rightarrow> bool option \<times> backends_lister" where
  "AnyWorkloadTemplateMatching l namespace selector = (case bl_cs l of
     None \<Rightarrow> (Some False, l)
   | Some cs \<Rightarrow>
       if namespace = [] \<or> length selector = 0 then (Some False, l)
       else (let sel = ba_matches cs selector in
         template_sweep sel (ba_deployments cs namespace)
           (template_sweep sel (ba_statefulSets cs namespace)
             (template_sweep sel (ba_daemonSets cs namespace) (anyRolloutTemplateMatching l sel namespace) l) l) l))"

definition ListPodLabels :: "backends_lister \<Rightarrow> string \<Rightarrow> int \<Rightarrow> pod_label_sample list option" where
  "ListPodLabels l namespace limit = (case bl_cs l of
     None \<Rightarrow> Some []
   | Some cs \<Rightarrow>
       if namespace = [] \<or> limit \<le> 0 then Some []
       else map_option (\<lambda>items. sort_key pls_Name (take (nat limit) items)) (ba_pods cs namespace))"

text \<open>The lister as the engine sees it.\<close>

definition serviceBackends :: "backends_lister \<Rightarrow> service_backends" where
  "serviceBackends l = \<lparr>sb_AnyPodMatching = AnyPodMatching l,
     sb_AnyWorkloadTemplateMatching = (\<lambda>ns sel. fst (AnyWorkloadTemplateMatching l ns sel)), sb_ListPodLabels = ListPodLabels l\<rparr>"

text \<open>What the cluster has to look like for the alarm: every read succeeds and nothing matches. Rollouts that
  cannot be listed because the cluster has none count as none.\<close>

definition read_none :: "((string, string) gomap \<Rightarrow> bool) \<Rightarrow> (string, string) gomap list option \<Rightarrow> bool" where
  "read_none matches items \<longleftrightarrow> (case items of None \<Rightarrow> False | Some ts \<Rightarrow> \<not> list_ex matches ts)"

definition no_rollout :: "backends_lister \<Rightarrow> ((string, string) gomap \<Rightarrow> bool) \<Rightarrow> string \<Rightarrow> bool" where
  "no_rollout l matches ns \<longleftrightarrow> (case bl_dyn l of None \<Rightarrow> True | Some dyn \<Rightarrow> bl_rolloutsUnsupported l \<or> (case dyn ns of
     RolloutsMissing \<Rightarrow> True | RolloutsFailed \<Rightarrow> False
   | RolloutsListed items \<Rightarrow> \<not> list_ex (\<lambda>labels. labels \<noteq> [] \<and> matches labels) items))"

lemma sweep_none: "fst (template_sweep m items otherwise l) = Some False \<longleftrightarrow> read_none m items \<and> fst otherwise = Some False"
  by (simp add: template_sweep_def read_none_def split: option.splits)

lemma rollout_none: "fst (anyRolloutTemplateMatching l m ns) = Some False \<longleftrightarrow> no_rollout l m ns"
  by (auto simp: anyRolloutTemplateMatching_def no_rollout_def split: option.splits rollout_listing.splits)

text \<open>The alarm for a Service without endpoints is raised exactly when every read succeeded and found nothing.\<close>

lemma no_endpoints_exact:
  assumes "bl_cs l = Some cs"
  shows "serviceNoEndpointsPredicate obj (ec\<lparr>ec_ServiceBackends := Some (serviceBackends l)\<rparr>) \<longleftrightarrow>
    (let sel = serviceSelector obj; ns = metaNS obj; m = ba_matches cs sel in
     sel \<noteq> [] \<and> serviceType obj \<noteq> ''ExternalName'' \<and> ns \<noteq> [] \<and> ba_podsSelected cs ns sel = Some [] \<and>
     read_none m (ba_deployments cs ns) \<and> read_none m (ba_statefulSets cs ns) \<and> read_none m (ba_daemonSets cs ns) \<and> no_rollout l m ns)"
proof -
  have pods: "AnyPodMatching l ns sel = Some False \<longleftrightarrow> ba_podsSelected cs ns sel = Some []" if "ns \<noteq> []" "sel \<noteq> []" for ns sel
    using that assms by (auto simp: AnyPodMatching_def)
  have templates: "fst (AnyWorkloadTemplateMatching l ns sel) = Some False \<longleftrightarrow>
      read_none (ba_matches cs sel) (ba_deployments cs ns) \<and> read_none (ba_matches cs sel) (ba_statefulSets cs ns) \<and>
      read_none (ba_matches cs sel) (ba_daemonSets cs ns) \<and> no_rollout l (ba_matches cs sel) ns" if "ns \<noteq> []" "sel \<noteq> []" for ns sel
    using that assms by (simp add: AnyWorkloadTemplateMatching_def Let_def sweep_none rollout_none)
  have "serviceNoEndpointsPredicate obj (ec\<lparr>ec_ServiceBackends := Some (serviceBackends l)\<rparr>) \<longleftrightarrow>
    serviceSelector obj \<noteq> [] \<and> serviceType obj \<noteq> ''ExternalName'' \<and> metaNS obj \<noteq> [] \<and>
    AnyPodMatching l (metaNS obj) (serviceSelector obj) = Some False \<and>
    fst (AnyWorkloadTemplateMatching l (metaNS obj) (serviceSelector obj)) = Some False"
    by (auto simp: serviceNoEndpointsPredicate_def serviceBackends_def Let_def split: option.splits)
  then show ?thesis using pods templates by (auto simp: Let_def)
qed

section \<open>The locator in every interleaving\<close>

text \<open>What the cache holds is the latest listing; the lock holder is the one caller inside the refresh, and it lists
  only while the last listing has expired.\<close>

definition cache_current :: "locator_state \<Rightarrow> bool" where
  "cache_current s \<longleftrightarrow> (case ls_lists s of
     [] \<Rightarrow> nc_ipToNode (ls_cache s) = None \<and> \<not> nc_refreshed (ls_cache s)
   | (t, nodes) # _ \<Rightarrow> ls_cache s = store_addresses nodes t \<and> t \<le> ls_now s)"

definition inside :: "caller \<Rightarrow> bool" where
  "inside c \<longleftrightarrow> (case c of Holds _ \<Rightarrow> True | Lists _ \<Rightarrow> True | _ \<Rightarrow> False)"

definition apart :: "(time \<times> node_addresses list) list \<Rightarrow> bool" where
  "apart ls \<longleftrightarrow> sorted_wrt (\<lambda>a b. fst b + nodeIPCacheTTL < fst a) ls"

definition known_name :: "(time \<times> node_addresses list) list \<Rightarrow> string \<Rightarrow> string \<Rightarrow> bool" where
  "known_name ls ip n \<longleftrightarrow> n = [] \<or> (\<exists>l \<in> set ls. map_of (address_map (snd l)) ip = Some n)"

definition locator_inv :: "locator_state \<Rightarrow> bool" where
  "locator_inv s \<longleftrightarrow> cache_current s \<and> apart (ls_lists s) \<and>
     (\<forall>i. inside (ls_caller s i) \<longleftrightarrow> ls_lock s = Some i) \<and>
     (\<forall>i ip. ls_caller s i = Lists ip \<longrightarrow> \<not> already_fresh (ls_cache s) (ls_now s)) \<and>
     (\<forall>i ip n. ls_caller s i = Returned ip n \<longrightarrow> known_name (ls_lists s) ip n)"

lemma inside_simps [simp]:
  "inside (Calls a)  = False" "inside (Waits a) = False" "inside (Holds a)" "inside (Lists a)"
  "inside (Refreshed a) = False" "inside (Returned a b) = False"
  by (simp_all add: inside_def)

lemma stays_stale: "\<not> already_fresh c now \<Longrightarrow> now \<le> t \<Longrightarrow> \<not> already_fresh c t"
  using time_sub_mono[of now t "nc_cachedAt c"] by (auto simp: already_fresh_def)

lemma expired_apart: "nodeIPCacheTTL < time_sub t u \<Longrightarrow> u + nodeIPCacheTTL < t"
  by (simp add: time_sub_def nodeIPCacheTTL_def int64_defs)

lemma ttl_positive: "0 < nodeIPCacheTTL"
  by (simp add: nodeIPCacheTTL_def)

lemma lookup_known:
  assumes "cache_current s" shows "known_name (ls_lists s) ip (lookupIP (ls_cache s) now ip r)"
  using assms by (auto simp: cache_current_def known_name_def lookupIP_def store_addresses_def split: list.splits option.splits)

lemma known_name_more: "known_name ls ip n \<Longrightarrow> known_name (l # ls) ip n"
  by (auto simp: known_name_def)

lemma store_apart:
  assumes "cache_current s" "apart (ls_lists s)" "\<not> already_fresh (ls_cache s) (ls_now s)"
  shows "apart ((ls_now s, nodes) # ls_lists s)"
proof (cases "ls_lists s")
  case (Cons l ls)
  with assms have "nodeIPCacheTTL < time_sub (ls_now s) (fst l)"
    by (auto simp: cache_current_def already_fresh_def store_addresses_def split: prod.splits)
  then have "fst l + nodeIPCacheTTL < ls_now s" by (rule expired_apart)
  with assms(2) Cons ttl_positive show ?thesis by (auto simp: apart_def)
qed (simp add: apart_def)

lemma at_caller_simps [simp]:
  "ls_cache (at_caller i c s) = ls_cache s" "ls_lock (at_caller i c s) = ls_lock s" "ls_now (at_caller i c s) = ls_now s"
  "ls_lists (at_caller i c s) = ls_lists s" "ls_caller (at_caller i c s) = (ls_caller s)(i := c)"
  by (simp_all add: at_caller_def)

text \<open>A caller that moves and takes or frees the lock at most.\<close>

lemma moved_inv:
  assumes inv: "locator_inv s"
    and lock: "\<And>j. (if j = i then inside c else inside (ls_caller s j)) \<longleftrightarrow> l = Some j"
    and lists: "\<And>ip. c = Lists ip \<Longrightarrow> \<not> already_fresh (ls_cache s) (ls_now s)"
    and known: "\<And>ip n. c = Returned ip n \<Longrightarrow> known_name (ls_lists s) ip n"
  shows "locator_inv (at_caller i c (s\<lparr>ls_lock := l\<rparr>))"
proof -
  have "cache_current (at_caller i c (s\<lparr>ls_lock := l\<rparr>))" using inv by (auto simp: locator_inv_def cache_current_def split: list.splits)
  moreover have "inside (((ls_caller s)(i := c)) j) \<longleftrightarrow> l = Some j" for j using lock[of j] by (simp split: if_splits)
  ultimately show ?thesis using inv lists known by (auto simp: locator_inv_def)
qed

lemma moved_same_lock: "locator_inv s \<Longrightarrow> inside c = inside (ls_caller s i) \<Longrightarrow>
    (\<And>ip. c = Lists ip \<Longrightarrow> \<not> already_fresh (ls_cache s) (ls_now s)) \<Longrightarrow>
    (\<And>ip n. c = Returned ip n \<Longrightarrow> known_name (ls_lists s) ip n) \<Longrightarrow> locator_inv (at_caller i c s)"
  using moved_inv[of s i c "ls_lock s"] by (auto simp: locator_inv_def)

lemma moved_unlock: "locator_inv s \<Longrightarrow> inside (ls_caller s i) \<Longrightarrow> \<not> inside c \<Longrightarrow>
    (\<And>ip n. c = Returned ip n \<Longrightarrow> known_name (ls_lists s) ip n) \<Longrightarrow> locator_inv (at_caller i c (s\<lparr>ls_lock := None\<rparr>))"
  by (rule moved_inv) (auto simp: locator_inv_def)

lemma tick_inv:
  assumes "locator_inv s" "ls_now s \<le> t" shows "locator_inv (s\<lparr>ls_now := t\<rparr>)"
proof -
  have "cache_current (s\<lparr>ls_now := t\<rparr>)" using assms by (auto simp: locator_inv_def cache_current_def split: list.splits)
  with assms show ?thesis by (auto simp: locator_inv_def dest: stays_stale)
qed

lemma stored_inv:
  assumes inv: "locator_inv s" and lists: "ls_caller s i = Lists ip"
  shows "locator_inv (at_caller i (Refreshed ip) (s\<lparr>ls_cache := store_addresses nodes (ls_now s), ls_lock := None,
    ls_lists := (ls_now s, nodes) # ls_lists s\<rparr>))" (is "locator_inv (at_caller i _ ?s)")
proof -
  have others: "\<not> inside (ls_caller s j)" if "j \<noteq> i" for j
    using inv lists that by (metis inside_simps(4) locator_inv_def option.inject)
  moreover have "ls_caller s j \<noteq> Lists a" if "j \<noteq> i" for j a using others[OF that] by auto
  moreover have "apart ((ls_now s, nodes) # ls_lists s)" using inv lists by (auto simp: locator_inv_def intro: store_apart)
  moreover have "cache_current (at_caller i (Refreshed ip) ?s)" by (simp add: cache_current_def)
  ultimately show ?thesis using inv by (auto simp: locator_inv_def intro: known_name_more)
qed

lemma locator_step_inv: "locator_step s s' \<Longrightarrow> locator_inv s \<Longrightarrow> locator_inv s'"
proof (induction rule: locator_step.induct)
  case (acquire s i ip)
  then show ?case by (intro moved_inv) (auto simp: locator_inv_def)
qed (auto intro!: tick_inv stored_inv moved_same_lock moved_unlock simp: known_name_def[of _ _ "[]"]
      simp: locator_inv_def[THEN iffD1, THEN conjunct1] lookup_known)

lemma locator_start_inv: "locator_inv (newNodeLocator t)"
  by (simp add: locator_inv_def newNodeLocator_def cache_current_def apart_def known_name_def)

lemma reachable_inv: "locator_step\<^sup>*\<^sup>* (newNodeLocator t) s \<Longrightarrow> locator_inv s"
  by (induction rule: rtranclp_induct) (auto intro: locator_start_inv locator_step_inv)

section \<open>The cached lister gives the tables of the live one\<close>

text \<open>The events an API server selects for a query.\<close>

definition selected :: "string \<Rightarrow> string \<Rightarrow> string \<Rightarrow> kube_event \<Rightarrow> bool" where
  "selected namespace kind name e \<longleftrightarrow> (namespace = [] \<or> kv_Namespace e = namespace) \<and>
     (kind = [] \<or> kv_Kind e = kind) \<and> (name = [] \<or> kv_ObjName e = name)"

text \<open>The part of a message that the cache keeps fills the column of the table, or is all of the message.\<close>

definition fills_column :: "string \<Rightarrow> bool" where
  "fills_column m \<longleftrightarrow> length (trim_space m) \<le> cachedEventMessageMax \<or>
     200 < length (trim_space (truncateUTF8 (trim_space m) cachedEventMessageMax))"

lemma insort_key_of_map: "insort_key k (f x) (map f xs) = map f (insort_key (\<lambda>x. k (f x)) x xs)"
  by (induction xs) auto

lemma sort_key_of_map: "sort_key k (map f xs) = map f (sort_key (\<lambda>x. k (f x)) xs)"
  by (induction xs) (simp_all add: insort_key_of_map)

lemma sort_key_perm:
  assumes "mset xs = mset ys" "distinct (map k ys)" shows "sort_key k xs = sort_key k ys"
proof (rule properties_for_sort_key)
  show "mset (sort_key k ys) = mset xs" using assms(1) by simp
  show "filter (\<lambda>y. k x = k y) (sort_key k ys) = filter (\<lambda>x'. k x = k x') xs" if "x \<in> set (sort_key k ys)" for x
  proof -
    have "filter (\<lambda>y. k x = k y) zs = [x]" if "mset zs = mset ys" for zs
    proof -
      have "x \<in> set zs" "distinct (map k zs)"
        using \<open>x \<in> set (sort_key k ys)\<close> that assms(2) mset_eq_setD[OF that] by (auto simp: distinct_map mset_eq_imp_distinct_iff[OF that])
      then show ?thesis by (induction zs) (auto simp: filter_empty_conv, metis imageI)
    qed
    then show ?thesis using assms(1) by simp
  qed
qed simp

lemma trim_space_ends:
  assumes "trim_space m \<noteq> []" shows "\<not> is_space (hd (trim_space m))" "\<not> is_space (last (trim_space m))"
proof -
  have "hd (trim_space m) = hd (dropWhile is_space m)"
    using assms by (metis hd_append2 rev_append rev_rev_ident takeWhile_dropWhile_id trim_space_def)
  then show "\<not> is_space (hd (trim_space m))"
    using assms by (metis dropWhile.simps(1) hd_dropWhile rev.simps(1) trim_space_def)
  have "dropWhile is_space (rev (dropWhile is_space m)) \<noteq> []" using assms by (auto simp: trim_space_def)
  then show "\<not> is_space (last (trim_space m))"
    unfolding trim_space_def last_rev by (rule hd_dropWhile)
qed

lemma trim_space_prefix: "\<exists>j. trim_space (take k (trim_space m)) = take j (trim_space m)"
proof -
  have "dropWhile is_space (take k (trim_space m)) = take k (trim_space m)"
  proof (cases "take k (trim_space m)")
    case (Cons c cs)
    then have "trim_space m \<noteq> []" "hd (trim_space m) = c" by (cases "trim_space m"; cases k; auto)+
    with Cons trim_space_ends(1) show ?thesis by auto
  qed auto
  moreover have "rev (dropWhile is_space (rev xs)) = take (length (dropWhile is_space (rev xs))) xs" for xs
    by (metis length_rev rev_append rev_rev_ident takeWhile_dropWhile_id append_eq_conv_conj)
  ultimately have "trim_space (take k (trim_space m)) = take (length (dropWhile is_space (rev (take k (trim_space m))))) (take k (trim_space m))"
    by (simp add: trim_space_def)
  then show ?thesis by (metis take_take)
qed

lemma trim_space_idem: "trim_space (trim_space m) = trim_space m"
proof (cases "trim_space m = []")
  case False
  from trim_space_ends[OF this] have "dropWhile is_space (trim_space m) = trim_space m"
    "dropWhile is_space (rev (trim_space m)) = rev (trim_space m)"
    by (simp_all add: dropWhile_eq_self_iff hd_rev)
  then show ?thesis by (subst trim_space_def) simp
qed (simp add: trim_space_def[of "[]"])

lemma truncate_prefix: "200 < length (take j s) \<Longrightarrow> EventsBlock.truncate (take j s) 200 = EventsBlock.truncate s 200"
  by (simp add: EventsBlock.truncate_def min_def split: if_splits)

text \<open>The column does not see that the cache cut the message.\<close>

lemma column_same:
  assumes "fills_column m"
  shows "EventsBlock.truncate (trim_space (truncateUTF8 (trim_space m) cachedEventMessageMax)) 200 = EventsBlock.truncate (trim_space m) 200"
proof (cases "length (trim_space m) \<le> cachedEventMessageMax")
  case False
  let ?k = "rune_back_to (trim_space m) 0 cachedEventMessageMax"
  obtain j where "trim_space (take ?k (trim_space m)) = take j (trim_space m)" using trim_space_prefix by blast
  moreover have "200 < length (trim_space (take ?k (trim_space m)))" using assms False by (simp add: fills_column_def truncateUTF8_def)
  ultimately show ?thesis using False by (simp add: truncateUTF8_def truncate_prefix)
qed (simp add: truncateUTF8_def trim_space_idem)

lemma trimEvent_row: "fills_column (kv_Message e) \<Longrightarrow> event_row now (toAgentEvent (trimEvent e)) = event_row now (toAgentEvent e)"
  by (auto simp: event_row_def toAgentEvent_def trimEvent_def column_same Let_def split: option.splits)

lemma trimEvent_fields [simp]:
  "kv_Namespace (trimEvent e) = kv_Namespace e" "kv_Kind (trimEvent e) = kv_Kind e" "kv_ObjName (trimEvent e) = kv_ObjName e"
  "ke_LastSeen (toAgentEvent (trimEvent e)) = ke_LastSeen (toAgentEvent e)"
  by (simp_all add: trimEvent_def toAgentEvent_def Let_def)

abbreviation seen_key :: "kube_event \<Rightarrow> int" where
  "seen_key e \<equiv> - ke_LastSeen (toAgentEvent e)"

text \<open>What a table shows of a list of events that \<open>f\<close> converts, however the list is ordered.\<close>

lemma latest_first_perm:
  assumes "mset xs = mset (map f evs)" "\<And>e. ke_LastSeen (f e) = ke_LastSeen (toAgentEvent e)" "distinct (map seen_key evs)"
  shows "latest_first limit xs = map f (take (nat limit) (sort_key seen_key evs))"
proof -
  have "distinct (map (\<lambda>e. - ke_LastSeen e) (map f evs))" using assms(2,3) by (simp add: comp_def)
  then have "sort_key (\<lambda>e. - ke_LastSeen e) xs = sort_key (\<lambda>e. - ke_LastSeen e) (map f evs)" using assms(1) by (rule sort_key_perm[rotated])
  then show ?thesis by (simp add: latest_first_def sort_key_of_map assms(2) take_map)
qed

lemma table_of_events:
  assumes "listEvents namespace kind name limit = Some (map f evs)" "\<And>e. ke_LastSeen (f e) = ke_LastSeen (toAgentEvent e)"
    "\<And>e. e \<in> set evs \<Longrightarrow> event_row now (f e) = event_row now (toAgentEvent e)"
  shows "recentEventsTable now (ec\<lparr>ec_EventsLister := Some listEvents\<rparr>) namespace kind name title limit =
    recentEventsTable now (ec\<lparr>ec_EventsLister := Some (\<lambda>_ _ _ _. Some (map toAgentEvent evs))\<rparr>) namespace kind name title limit"
proof -
  have "map (event_row now) (map f (sort_key seen_key evs)) = map (event_row now) (map toAgentEvent (sort_key seen_key evs))"
    using assms(3) by simp
  then show ?thesis using assms(1,2) by (simp add: recentEventsTable_def sort_key_of_map)
qed

text \<open>The events the cache finds for the two shapes the engine asks for.\<close>

definition engine_query :: "string \<Rightarrow> string \<Rightarrow> string \<Rightarrow> bool" where
  "engine_query namespace kind name \<longleftrightarrow> (kind \<noteq> [] \<and> name \<noteq> []) \<or> (kind = [] \<and> name = [] \<and> namespace \<noteq> [])"

definition one_spelling :: "string \<Rightarrow> string \<Rightarrow> kube_event list \<Rightarrow> bool" where
  "one_spelling kind name evs \<longleftrightarrow> kind = [] \<or>
     list_all (\<lambda>e. involvedKey (kv_Kind e) (kv_ObjName e) = involvedKey kind name \<longrightarrow> kv_Kind e = kind \<and> kv_ObjName e = name) evs"

lemma one_spelling_filter:
  assumes "one_spelling kind name evs" "kind \<noteq> []" "name \<noteq> []"
  shows "filter (\<lambda>e. involvedKey (kv_Kind e) (kv_ObjName e) = involvedKey kind name \<and> (namespace = [] \<or> kv_Namespace e = namespace)) evs =
    filter (selected namespace kind name) evs"
  using assms by (intro filter_cong) (auto simp: one_spelling_def list_all_iff selected_def)

lemma mset_answer:
  assumes "\<And>xs. mset (ord xs) = mset xs"
  shows "mset (map toAgentEvent (filter Q (ord (filter P (map trimEvent evs))))) =
    mset (map (\<lambda>e. toAgentEvent (trimEvent e)) (filter (\<lambda>e. P (trimEvent e) \<and> Q (trimEvent e)) evs))"
proof -
  have "mset (filter Q (ord (filter P (map trimEvent evs)))) = mset (filter Q (filter P (map trimEvent evs)))"
    by (simp only: mset_filter assms)
  also have "filter Q (filter P (map trimEvent evs)) = map trimEvent (filter (\<lambda>e. P (trimEvent e) \<and> Q (trimEvent e)) evs)"
    by (simp add: filter_map comp_def conj_commute)
  finally show ?thesis by (metis (no_types, lifting) map_map mset_map comp_def map_eq_conv)
qed

lemma cached_events:
  assumes "ei_synced informer" "ei_store informer = map trimEvent evs" "\<And>xs. mset (ei_order informer xs) = mset xs"
    "engine_query namespace kind name" "one_spelling kind name evs" "distinct (map seen_key (filter (selected namespace kind name) evs))"
  shows "cachedEventsLister_ListEvents informer live namespace kind name limit =
    Some (map (\<lambda>e. toAgentEvent (trimEvent e)) (take (nat limit) (sort_key seen_key (filter (selected namespace kind name) evs))))"
proof -
  note perm = latest_first_perm[where f = "\<lambda>e. toAgentEvent (trimEvent e)" and evs = "filter (selected namespace kind name) evs", OF _ trimEvent_fields(4) assms(6)]
  show ?thesis
  proof (cases "kind = []")
    case True
    then have "name = []" "namespace \<noteq> []" using assms(4) by (auto simp: engine_query_def)
    moreover have "filter (\<lambda>e. kv_Namespace e = namespace) evs = filter (selected namespace kind name) evs"
      using True calculation by (intro filter_cong) (simp_all add: selected_def)
    then have "latest_first limit (map toAgentEvent (filter (\<lambda>e. kv_Namespace e = namespace)
        (ei_order informer (filter (\<lambda>e. kv_Namespace e = namespace) (map trimEvent evs))))) =
      map (\<lambda>e. toAgentEvent (trimEvent e)) (take (nat limit) (sort_key seen_key (filter (selected namespace kind name) evs)))"
      by (intro perm) (simp only: mset_answer[OF assms(3)] trimEvent_fields conj_absorb)
    ultimately show ?thesis using True assms(1,2) by (simp add: cachedEventsLister_ListEvents_def by_index_def)
  next
    case False
    then have "name \<noteq> []" using assms(4) by (auto simp: engine_query_def)
    with False assms(1,2) show ?thesis
      by (simp add: cachedEventsLister_ListEvents_def by_index_def)
         (rule perm, simp only: mset_answer[OF assms(3)] trimEvent_fields one_spelling_filter[OF assms(5)] not_False_eq_True)
  qed
qed


definition sample_kube_event :: "string \<Rightarrow> time \<Rightarrow> kube_event" where
  "sample_kube_event nam t = \<lparr>kv_Name = nam @ ''.1'', kv_Namespace = ''shop'', kv_UID = ''u'', kv_ResourceVersion = ''1'', kv_Creation = t,
     kv_Kind = ''Pod'', kv_ObjNamespace = ''shop'', kv_ObjName = nam, kv_Type = ''Warning'', kv_Reason = ''BackOff'',
     kv_Message = ''  Back-off restarting ''  , kv_Count = 3, kv_Component = ''kubelet'', kv_Controller = [], kv_First = t, kv_Last = t,
     kv_EventTime = zero_time, kv_Series = None, kv_Rest = ''managedFields''\<rparr>"

definition sample_events :: "kube_event list" where
  "sample_events = [sample_kube_event ''web'' 1000, sample_kube_event ''db'' 2000, sample_kube_event ''web'' 3000]"

definition sample_informer :: event_informer where
  "sample_informer = \<lparr>ei_synced = True, ei_store = map trimEvent sample_events, ei_order = rev\<rparr>"

definition sample_events_api :: events_api where
  "sample_events_api namespace selector lim = (if selector = event_selector ''Pod'' ''web''
     then Some (filter (selected ''shop'' ''Pod'' ''web'') sample_events) else None)"



definition sample_nodes :: "node_addresses list" where
  "sample_nodes = [(''node-a'', [(''InternalIP'', ''10.0.0.1''), (''Hostname'', ''a'')]), (''node-b'', [(''InternalIP'', ''10.0.0.2'')])]"

definition sample_call :: "nat \<Rightarrow> locator_state" where
  "sample_call k = (let s = newNodeLocator 1000; ip = ''10.0.0.2''; held = s\<lparr>ls_lock := Some 0\<rparr>;
     listed = s\<lparr>ls_cache := store_addresses sample_nodes 1000, ls_lists := [(1000, sample_nodes)]\<rparr> in
     [s, at_caller 0 (Calls ip) s, at_caller 0 (Waits ip) s, at_caller 0 (Holds ip) held, at_caller 0 (Lists ip) held,
      at_caller 0 (Refreshed ip) listed, at_caller 0 (Returned ip ''node-b'') listed] ! k)"

lemma sample_call_runs: "locator_step\<^sup>*\<^sup>* (newNodeLocator 1000) (sample_call 6)"
proof -
  let ?ip = "''10.0.0.2''"
  note sc = sample_call_def newNodeLocator_def at_caller_def
  have "locator_step (sample_call 0) (sample_call 1)"
    using locator_step.start[of "sample_call 0" 0 "[]" "[]" ?ip] by (simp add: sc)
  moreover have "locator_step (sample_call 1) (sample_call 2)"
    using locator_step.miss[of "sample_call 1" 0 ?ip] by (simp add: sc lookupIP_def trim_space_def is_space_def numeral_eq_Suc)
  moreover have "locator_step (sample_call 2) (sample_call 3)"
    using locator_step.acquire[of "sample_call 2" 0 ?ip] by (simp add: sc numeral_eq_Suc)
  moreover have "locator_step (sample_call 3) (sample_call 4)"
    using locator_step.stale[of "sample_call 3" 0 ?ip] by (simp add: sc already_fresh_def numeral_eq_Suc)
  moreover have "locator_step (sample_call 4) (sample_call 5)"
    using locator_step.stored[of "sample_call 4" 0 ?ip sample_nodes] by (simp add: sc numeral_eq_Suc)
  moreover have "locator_step (sample_call 5) (sample_call 6)"
    using locator_step.answer[of "sample_call 5" 0 ?ip]
    by (simp add: sc lookupIP_def store_addresses_def address_map_def sample_nodes_def add_address_def map_put_def numeral_eq_Suc)
  ultimately show ?thesis by (simp add: sample_call_def)
qed


end
