(* ===== verification/Scanners.thy ===== *)
theory Scanners
  imports CanonJson Rfc3339 Base64
begin

text \<open>
  \<open>pkg/scanners\<close>: the four job actions (\<open>primitives.go\<close>), the building and inspection of jobs (\<open>scanners.go\<close>,
  \<open>jobspec.go\<close>), the copies of pull secrets (\<open>pullsecrets.go\<close>) and the reaper (\<open>reaper.go\<close>). Every request is
  an entry of a log, newest first, and the API server answers from the log so far, so that it may
  answer anything at any time. The decoding of the job specification, the random bytes, the uuid, the hash
  and the compressor are parameters; Kubernetes objects the code only passes on are \<open>gval\<close>s. The theory
  proves what can reach the cluster, what becomes of suspended jobs, and what the reaper deletes.
\<close>

section \<open>Objects\<close>

text \<open>\<open>JobSpec\<close>; the decoded timeout is an \<open>int\<close> of 64 bits.\<close>

record job_spec =
  js_NamePrefix :: string
  js_Image :: string
  js_Command :: "string list"
  js_Args :: "string list"
  js_Env :: "(string, string) gomap"
  js_ServiceAccount :: string
  js_Privileged :: bool
  js_HostPID :: bool
  js_HostNetwork :: bool
  js_NodeName :: string
  js_ImagePullPolicy :: string
  js_RunAsUser :: "int option"
  js_InitContainers :: "gval list"
  js_Volumes :: "gval list"
  js_VolumeMounts :: "gval list"
  js_ImagePullSecretsFrom :: "(string \<times> string) option"
  js_Resources :: gval
  js_NodeSelector :: "(string, string) gomap"
  js_TimeoutHintSeconds :: int

record job_container =
  ct_Name :: string
  ct_Image :: string
  ct_Command :: "string list"
  ct_Args :: "string list"
  ct_Env :: "(string \<times> string) list"
  ct_VolumeMounts :: "gval list"
  ct_Resources :: gval
  ct_ImagePullPolicy :: string
  ct_SecurityContext :: "(bool option \<times> int option) option"

record job_pod_spec =
  ps_RestartPolicy :: string
  ps_InitContainers :: "gval list"
  ps_Containers :: "job_container list"
  ps_HostPID :: bool
  ps_HostNetwork :: bool
  ps_NodeName :: string
  ps_NodeSelector :: "(string, string) gomap"
  ps_ServiceAccountName :: string
  ps_Volumes :: "gval list"
  ps_ImagePullSecrets :: "string list"

record job_condition =
  jc_Type :: string
  jc_Status :: string
  jc_Reason :: string
  jc_Message :: string
  jc_LastTransition :: time

record k8s_job =
  kj_Name :: string
  kj_Namespace :: string
  kj_Labels :: "(string, string) gomap"
  kj_UID :: string
  kj_BackoffLimit :: int
  kj_TTLSecondsAfterFinished :: int
  kj_ActiveDeadlineSeconds :: int
  kj_Suspend :: bool
  kj_TemplateLabels :: "(string, string) gomap"
  kj_PodSpec :: job_pod_spec
  kj_Conditions :: "job_condition list"
  kj_StartTime :: "time option"
  kj_CompletionTime :: "time option"
  kj_Active :: int
  kj_Succeeded :: int
  kj_Failed :: int

text \<open>A container status: its name and, while it waits, reason and message.\<close>

type_synonym container_status = "string \<times> (string \<times> string) option"

record job_pod =
  jp_Name :: string
  jp_InitStatuses :: "container_status list"
  jp_Statuses :: "container_status list"
  jp_Conditions :: "job_condition list"

record pull_secret =
  sk_Name :: string
  sk_Namespace :: string
  sk_Labels :: "(string, string) gomap"
  sk_Type :: string
  sk_Data :: string
  sk_Owners :: "(string \<times> string) list"

datatype api_err = NotFoundErr string | ExistsErr string | OtherErr string

fun err_text :: "api_err \<Rightarrow> string" where
  "err_text (NotFoundErr s) = s"
| "err_text (ExistsErr s) = s"
| "err_text (OtherErr s) = s"

fun is_not_found :: "api_err \<Rightarrow> bool" where
  "is_not_found (NotFoundErr _) = True"
| "is_not_found _ = False"

section \<open>Requests\<close>

datatype jcall =
    ListJobs string string "nat option"
  | CreateJob string k8s_job
  | GetJob string string
  | ResumeJob string string
  | DeleteJob string string
  | ListJobPods string string
  | GetLogs string string
  | GetSourcePod string string
  | GetAccount string string
  | GetSecret string string
  | CreateSecret string pull_secret

type_synonym jlog = "jcall list"

text \<open>What the requests answer, given the log before them, and the other parameters. A pod of a workload is read
  for its pull secrets and its account; \<open>je_order\<close> is the iteration order of a set of names.\<close>

record job_env =
  je_decode :: "gval \<Rightarrow> string + job_spec"
  je_random :: "jlog \<Rightarrow> (char \<times> char \<times> char \<times> char) option"
  je_uuid :: "jlog \<Rightarrow> string"
  je_sha256hex :: "string \<Rightarrow> string"
  je_gzip :: "string \<Rightarrow> string"
  je_order :: "string list \<Rightarrow> string list"
  je_listJobs :: "jlog \<Rightarrow> nat option \<Rightarrow> api_err + k8s_job list"
  je_createJob :: "jlog \<Rightarrow> k8s_job \<Rightarrow> api_err + k8s_job"
  je_getJob :: "jlog \<Rightarrow> string \<Rightarrow> api_err + k8s_job"
  je_resumeJob :: "jlog \<Rightarrow> string \<Rightarrow> api_err option"
  je_deleteJob :: "jlog \<Rightarrow> string \<Rightarrow> api_err option"
  je_listPods :: "jlog \<Rightarrow> string \<Rightarrow> api_err + job_pod list"
  je_logs :: "jlog \<Rightarrow> string \<Rightarrow> api_err + string list"
  je_sourcePod :: "jlog \<Rightarrow> api_err + (string list \<times> string)"
  je_account :: "jlog \<Rightarrow> api_err + string list"
  je_secret :: "jlog \<Rightarrow> string \<Rightarrow> api_err + pull_secret"

section \<open>Building a job\<close>

definition jobTTLSeconds :: int where "jobTTLSeconds = 600"
definition jobBackoffLimit :: int where "jobBackoffLimit = 0"
definition minJobActiveDeadlineSeconds :: int where "minJobActiveDeadlineSeconds = 1800"
definition unschedulableGrace :: duration where "unschedulableGrace = 5 * minute"
definition defaultMaxConcurrent :: int where "defaultMaxConcurrent = 5"
definition defaultLogCapBytes :: int where "defaultLogCapBytes = 64 * 2 ^ 20"
definition managedByLabel :: string where "managedByLabel = ''app.kubernetes.io/managed-by''"
definition managedByValue :: string where "managedByValue = ''nudgebee-agent''"
definition orchestratorLabel :: string where "orchestratorLabel = ''nudgebee.com/orchestrator''"
definition orchestratorValue :: string where "orchestratorValue = ''api-server''"
definition jobUUIDLabel :: string where "jobUUIDLabel = ''nudgebee.com/job-uuid''"
definition jobNameSelectorLabel :: string where "jobNameSelectorLabel = ''job-name''"
definition copiedPullSecretLabel :: string where "copiedPullSecretLabel = ''nudgebee.com/copied-pull-secret''"
definition reaperListLimit :: nat where "reaperListLimit = 100"
definition reapGraceSeconds :: int where "reapGraceSeconds = jobTTLSeconds"

definition managed_selector :: string where
  "managed_selector = managedByLabel @ ''='' @ managedByValue @ '','' @ orchestratorLabel @ ''='' @ orchestratorValue"

record job_runner =
  jr_Namespace :: string
  jr_DefaultSA :: string
  jr_MaxConcurrentJobs :: int
  jr_LogCapBytes :: int
  jr_AutoCopyPullSecrets :: bool

definition NewRunner :: "string \<Rightarrow> string \<Rightarrow> job_runner" where
  "NewRunner namespace serviceAccount =
     \<lparr>jr_Namespace = (if namespace = [] then ''nudgebee-agent'' else namespace), jr_DefaultSA = serviceAccount,
      jr_MaxConcurrentJobs = defaultMaxConcurrent, jr_LogCapBytes = defaultLogCapBytes, jr_AutoCopyPullSecrets = False\<rparr>"

definition BuildJob :: "job_runner \<Rightarrow> job_spec \<Rightarrow> string \<Rightarrow> string \<Rightarrow> k8s_job" where
  "BuildJob r spec jobName jobUUID =
     (let container = \<lparr>ct_Name = ''scanner'', ct_Image = js_Image spec, ct_Command = js_Command spec, ct_Args = js_Args spec,
            ct_Env = js_Env spec, ct_VolumeMounts = js_VolumeMounts spec, ct_Resources = js_Resources spec,
            ct_ImagePullPolicy = js_ImagePullPolicy spec,
            ct_SecurityContext = (if js_Privileged spec \<or> js_RunAsUser spec \<noteq> None
              then Some (if js_Privileged spec then Some True else None, js_RunAsUser spec) else None)\<rparr>;
          podSpec = \<lparr>ps_RestartPolicy = ''Never'', ps_InitContainers = js_InitContainers spec, ps_Containers = [container],
            ps_HostPID = js_HostPID spec, ps_HostNetwork = js_HostNetwork spec, ps_NodeName = js_NodeName spec,
            ps_NodeSelector = js_NodeSelector spec,
            ps_ServiceAccountName = (if js_ServiceAccount spec = [] then jr_DefaultSA r else js_ServiceAccount spec),
            ps_Volumes = js_Volumes spec, ps_ImagePullSecrets = []\<rparr>
      in \<lparr>kj_Name = jobName, kj_Namespace = jr_Namespace r,
          kj_Labels = [(managedByLabel, managedByValue), (orchestratorLabel, orchestratorValue), (jobUUIDLabel, jobUUID)],
          kj_UID = [], kj_BackoffLimit = jobBackoffLimit, kj_TTLSecondsAfterFinished = jobTTLSeconds,
          kj_ActiveDeadlineSeconds = (if minJobActiveDeadlineSeconds < js_TimeoutHintSeconds spec
            then js_TimeoutHintSeconds spec else minJobActiveDeadlineSeconds),
          kj_Suspend = False, kj_TemplateLabels = [(jobNameSelectorLabel, jobName)], kj_PodSpec = podSpec,
          kj_Conditions = [], kj_StartTime = None, kj_CompletionTime = None, kj_Active = 0, kj_Succeeded = 0, kj_Failed = 0\<rparr>)"

text \<open>The prefix is lower-cased and read byte by byte; the bytes of a character outside ASCII give one dash
  together, as the character does, except for the two capitals (dotted I, Kelvin) that lower to an ASCII letter.\<close>

definition dns_char :: "char \<Rightarrow> bool" where
  "dns_char c \<longleftrightarrow> (97 \<le> (of_char c :: nat) \<and> (of_char c :: nat) \<le> 122) \<or> (48 \<le> (of_char c :: nat) \<and> (of_char c :: nat) \<le> 57)"

fun dash_runs :: "bool \<Rightarrow> string \<Rightarrow> string" where
  "dash_runs prevDash [] = []"
| "dash_runs prevDash (c # s) =
     (if dns_char c then c # dash_runs False s else if prevDash then dash_runs True s else CHR ''-'' # dash_runs True s)"

definition trim_dashes :: "string \<Rightarrow> string" where
  "trim_dashes s = rev (dropWhile (\<lambda>c. c = CHR ''-'') (rev (dropWhile (\<lambda>c. c = CHR ''-'') s)))"

definition sanitizeDNSPrefix :: "string \<Rightarrow> string" where
  "sanitizeDNSPrefix s = trim_dashes (dash_runs False (to_lower s))"

definition hex_text :: "string \<Rightarrow> string" where
  "hex_text bytes = concat (map (\<lambda>c. [hex_digit (of_char c div 16), hex_digit (of_char c mod 16)]) bytes)"

text \<open>\<open>random\<close> is the four bytes read, \<open>None\<close> when the generator fails.\<close>

definition makeJobName :: "(char \<times> char \<times> char \<times> char) option \<Rightarrow> string \<Rightarrow> string + string" where
  "makeJobName random nprefix =
     (let clean = sanitizeDNSPrefix nprefix in
      if clean = [] then Inl ''name_prefix is required and must contain at least one DNS-1123 character''
      else (case random of
        None \<Rightarrow> Inl ''rand''
      | Some (a, b, c, d) \<Rightarrow> Inr ((if 54 < length clean then take 54 clean else clean) @ ''-'' @ hex_text [a, b, c, d])))"

section \<open>State of a job\<close>

definition finished_condition :: "job_condition \<Rightarrow> bool" where
  "finished_condition c \<longleftrightarrow> jc_Status c = ''True'' \<and> (jc_Type c = ''Complete'' \<or> jc_Type c = ''Failed'')"

definition jobIsTerminal :: "k8s_job \<Rightarrow> bool" where
  "jobIsTerminal j \<longleftrightarrow> list_ex finished_condition (kj_Conditions j)"

definition jobStatusSnapshot :: "k8s_job \<Rightarrow> string \<times> string" where
  "jobStatusSnapshot j = (case find finished_condition (kj_Conditions j) of
     None \<Rightarrow> (''Running'', [])
   | Some c \<Rightarrow> (if jc_Type c = ''Complete'' then ''Complete'' else ''Failed'', jc_Message c))"

definition jobFinishedAt :: "k8s_job \<Rightarrow> time option" where
  "jobFinishedAt j =
     (if \<not> jobIsTerminal j then None
      else (case kj_CompletionTime j of
        Some t \<Rightarrow> Some t
      | None \<Rightarrow> map_option jc_LastTransition (find finished_condition (kj_Conditions j))))"

text \<open>The active jobs of the agent and the log after counting them.\<close>

definition listManagedJobs :: "job_runner \<Rightarrow> job_env \<Rightarrow> jlog \<Rightarrow> (api_err + int) \<times> jlog" where
  "listManagedJobs r env h = (case je_listJobs env h None of
     Inl e \<Rightarrow> (Inl e, ListJobs (jr_Namespace r) managed_selector None # h)
   | Inr jobs \<Rightarrow> (Inr (int (length (filter (\<lambda>j. \<not> jobIsTerminal j) jobs))), ListJobs (jr_Namespace r) managed_selector None # h))"

text \<open>A container name needs no escapes between the quotes.\<close>

definition pull_stuck :: "container_status \<Rightarrow> string option" where
  "pull_stuck cs = (case snd cs of
     Some (reason, message) \<Rightarrow>
       if reason = ''ImagePullBackOff'' \<or> reason = ''ErrImagePull'' \<or> reason = ''ErrImageNeverPull''
       then Some (''image pull failed for container '' @ [dquote] @ fst cs @ [dquote] @ '': '' @ message) else None
   | None \<Rightarrow> None)"

text \<open>The first text a list of checks gives.\<close>

definition first_some :: "('a \<Rightarrow> 'b option) \<Rightarrow> 'a list \<Rightarrow> 'b option" where
  "first_some f xs = (case List.map_filter f xs of [] \<Rightarrow> None | y # _ \<Rightarrow> Some y)"

definition imagePullFailure :: "job_runner \<Rightarrow> job_env \<Rightarrow> string \<Rightarrow> jlog \<Rightarrow> string option \<times> jlog" where
  "imagePullFailure r env jobName h = (case je_listPods env h jobName of
     Inl e \<Rightarrow> (None, ListJobPods (jr_Namespace r) jobName # h)
   | Inr pods \<Rightarrow> (first_some pull_stuck (concat (map (\<lambda>p. jp_InitStatuses p @ jp_Statuses p) pods)),
       ListJobPods (jr_Namespace r) jobName # h))"

definition unscheduled :: "time \<Rightarrow> job_condition \<Rightarrow> string option" where
  "unscheduled now c =
     (if jc_Type c = ''PodScheduled'' \<and> jc_Status c = ''False'' \<and> jc_Reason c = ''Unschedulable'' \<and>
         unschedulableGrace < time_sub now (jc_LastTransition c)
      then Some (''unschedulable: '' @ jc_Message c) else None)"

definition unschedulable :: "job_runner \<Rightarrow> job_env \<Rightarrow> string \<Rightarrow> time \<Rightarrow> jlog \<Rightarrow> string option \<times> jlog" where
  "unschedulable r env jobName now h = (case je_listPods env h jobName of
     Inl e \<Rightarrow> (None, ListJobPods (jr_Namespace r) jobName # h)
   | Inr pods \<Rightarrow> (first_some (unscheduled now) (concat (map jp_Conditions pods)), ListJobPods (jr_Namespace r) jobName # h))"

text \<open>The loop over the chunks of a log stream: output, bytes written and bytes dropped.\<close>

fun log_loop :: "int \<Rightarrow> string \<times> int \<times> int \<Rightarrow> string list \<Rightarrow> string \<times> int \<times> int" where
  "log_loop cap st [] = st"
| "log_loop cap (out, written, dropped) (buf # chunks) =
     (let n = int (length buf); room = cap - written in
      log_loop cap
        (if room \<le> 0 then (out, written, dropped + n)
         else if n \<le> room then (out @ buf, written + n, dropped)
         else (out @ take (nat room) buf, cap, dropped + (n - room))) chunks)"

definition log_cap :: "job_runner \<Rightarrow> int" where
  "log_cap r = (if jr_LogCapBytes r \<le> 0 then defaultLogCapBytes else jr_LogCapBytes r)"

definition fetchPodLogs :: "job_runner \<Rightarrow> job_env \<Rightarrow> string \<Rightarrow> jlog \<Rightarrow> (string + string \<times> bool \<times> int) \<times> jlog" where
  "fetchPodLogs r env jobName h =
     (let h' = ListJobPods (jr_Namespace r) jobName # h in
      case je_listPods env h jobName of
        Inl e \<Rightarrow> (Inl (err_text e), h')
      | Inr [] \<Rightarrow> (Inl ''no pods found for job'', h')
      | Inr (p # _) \<Rightarrow> (case je_logs env h' (jp_Name p) of
          Inl e \<Rightarrow> (Inl (err_text e), GetLogs (jr_Namespace r) (jp_Name p) # h')
        | Inr chunks \<Rightarrow>
            (let (out, written, dropped) = log_loop (log_cap r) ([], 0, 0) chunks in
             (Inr (out, 0 < dropped, dropped), GetLogs (jr_Namespace r) (jp_Name p) # h'))))"

section \<open>Copies of pull secrets\<close>

definition copiedSecretName :: "job_env \<Rightarrow> string \<Rightarrow> string \<Rightarrow> string \<Rightarrow> string" where
  "copiedSecretName env jobName srcNamespace srcName =
     ''imgps-'' @ jobName @ ''-'' @ take 8 (je_sha256hex env (srcNamespace @ ''/'' @ srcName))"

definition registry_type :: "string \<Rightarrow> bool" where
  "registry_type t \<longleftrightarrow> t = ''kubernetes.io/dockerconfigjson'' \<or> t = ''kubernetes.io/dockercfg''"

fun read_secrets :: "job_runner \<Rightarrow> job_env \<Rightarrow> string \<Rightarrow> string \<Rightarrow> string list \<Rightarrow> jlog \<Rightarrow> pull_secret list \<times> jlog" where
  "read_secrets r env namespace jobName [] h = ([], h)"
| "read_secrets r env namespace jobName (name # names) h =
     (let answer = je_secret env h name; (out, h') = read_secrets r env namespace jobName names (GetSecret namespace name # h) in
      (case answer of
         Inl e \<Rightarrow> out
       | Inr src \<Rightarrow>
           if \<not> registry_type (sk_Type src) then out
           else \<lparr>sk_Name = copiedSecretName env jobName namespace name, sk_Namespace = jr_Namespace r,
                  sk_Labels = [(managedByLabel, managedByValue), (copiedPullSecretLabel, ''true'')],
                  sk_Type = sk_Type src, sk_Data = sk_Data src, sk_Owners = []\<rparr> # out, h'))"

definition resolvePullSecrets :: "job_runner \<Rightarrow> job_env \<Rightarrow> string \<times> string \<Rightarrow> string \<Rightarrow> jlog \<Rightarrow> pull_secret list \<times> jlog" where
  "resolvePullSecrets r env ref jobName h =
     (let h1 = GetSourcePod (fst ref) (snd ref) # h in
      case je_sourcePod env h of
        Inl e \<Rightarrow> ([], h1)
      | Inr (pulls, account) \<Rightarrow>
          (let saName = if account = [] then ''default'' else account;
               fromSA = (case je_account env h1 of Inl e \<Rightarrow> [] | Inr ss \<Rightarrow> ss);
               names = je_order env (remdups (filter (\<lambda>n. n \<noteq> []) (pulls @ fromSA)))
           in read_secrets r env (fst ref) jobName names (GetAccount (fst ref) saName # h1)))"

fun createOwnedSecrets :: "job_runner \<Rightarrow> job_env \<Rightarrow> pull_secret list \<Rightarrow> k8s_job \<Rightarrow> jlog \<Rightarrow> jlog" where
  "createOwnedSecrets r env [] job h = h"
| "createOwnedSecrets r env (s # ss) job h =
     createOwnedSecrets r env ss job (CreateSecret (jr_Namespace r) (s\<lparr>sk_Owners := sk_Owners s @ [(kj_Name job, kj_UID job)]\<rparr>) # h)"

section \<open>The actions\<close>

type_synonym 'a jresult = "(string + 'a) \<times> jlog"

definition decodeJobSpec :: "job_env \<Rightarrow> gmap \<Rightarrow> string + job_spec" where
  "decodeJobSpec env params = (case mget params ''spec'' of VNil \<Rightarrow> Inl ''schedule_k8s_job: spec is required'' | raw \<Rightarrow> je_decode env raw)"

text \<open>The end of a schedule: the job is created, and when it waits for secrets they are created and the job is
  resumed, or deleted when it cannot be.\<close>

definition release_job :: "job_runner \<Rightarrow> job_env \<Rightarrow> pull_secret list \<Rightarrow> string \<Rightarrow> k8s_job \<Rightarrow> jlog \<Rightarrow> gval jresult" where
  "release_job r env secrets jobUUID created h =
     (let ok = Inr (VObj [(''success'', VBool True), (''job_name'', VStr (kj_Name created)), (''job_uuid'', VStr jobUUID)]) in
      if secrets = [] then (ok, h)
      else
        (let h1 = createOwnedSecrets r env secrets created h; h2 = ResumeJob (jr_Namespace r) (kj_Name created) # h1 in
         case je_resumeJob env h1 (kj_Name created) of
           None \<Rightarrow> (ok, h2)
         | Some e \<Rightarrow> (Inl (''schedule_k8s_job: resume suspended job: '' @ err_text e), DeleteJob (jr_Namespace r) (kj_Name created) # h2)))"

definition submit_job :: "job_runner \<Rightarrow> job_env \<Rightarrow> job_spec \<Rightarrow> string \<Rightarrow> jlog \<Rightarrow> gval jresult" where
  "submit_job r env spec jobName h =
     (let jobUUID = je_uuid env h; job = BuildJob r spec jobName jobUUID;
          (secrets, h1) = (case js_ImagePullSecretsFrom spec of
            Some ref \<Rightarrow> if jr_AutoCopyPullSecrets r then resolvePullSecrets r env ref jobName h else ([], h)
          | None \<Rightarrow> ([], h));
          job' = job\<lparr>kj_PodSpec := (kj_PodSpec job)\<lparr>ps_ImagePullSecrets := map sk_Name secrets\<rparr>, kj_Suspend := secrets \<noteq> []\<rparr>;
          h2 = CreateJob (jr_Namespace r) job' # h1
      in case je_createJob env h1 job' of
        Inl e \<Rightarrow> (Inl (''schedule_k8s_job: create: '' @ err_text e), h2)
      | Inr created \<Rightarrow> release_job r env secrets jobUUID created h2)"

definition job_limit :: "job_runner \<Rightarrow> int" where
  "job_limit r = (if jr_MaxConcurrentJobs r \<le> 0 then defaultMaxConcurrent else jr_MaxConcurrentJobs r)"

definition handleScheduleJob :: "job_runner \<Rightarrow> job_env \<Rightarrow> gmap \<Rightarrow> jlog \<Rightarrow> gval jresult" where
  "handleScheduleJob r env params h = (case decodeJobSpec env params of
     Inl e \<Rightarrow> (Inl e, h)
   | Inr spec \<Rightarrow>
       if js_NamePrefix spec = [] then (Inl ''schedule_k8s_job: name_prefix is required'', h)
       else if js_Image spec = [] then (Inl ''schedule_k8s_job: image is required'', h)
       else (case listManagedJobs r env h of
         (Inl e, h1) \<Rightarrow> (Inl (''schedule_k8s_job: list active jobs: '' @ err_text e), h1)
       | (Inr active, h1) \<Rightarrow>
           if job_limit r \<le> active
           then (Inr (VObj [(''success'', VBool False), (''error'', VStr ''concurrent_job_limit''), (''limit'', VInt (job_limit r)),
                  (''active'', VInt active)]), h1)
           else (case makeJobName (je_random env h1) (js_NamePrefix spec) of
             Inl e \<Rightarrow> (Inl (''schedule_k8s_job: '' @ e), h1)
           | Inr jobName \<Rightarrow> submit_job r env spec jobName h1)))"

definition job_name :: "gmap \<Rightarrow> string" where
  "job_name params = as_str (mget params ''job_name'')"

definition opt_time :: "string \<Rightarrow> time option \<Rightarrow> gmap" where
  "opt_time key t = (case t of None \<Rightarrow> [] | Some t \<Rightarrow> [(key, VStr (format_rfc3339 t))])"

definition job_report :: "string \<times> string \<Rightarrow> k8s_job \<Rightarrow> gval" where
  "job_report status job = VObj ([(''status'', VStr (fst status)), (''failure_reason'', VStr (snd status)), (''active'', VInt (kj_Active job)),
     (''succeeded'', VInt (kj_Succeeded job)), (''failed'', VInt (kj_Failed job))] @
     opt_time ''start_time'' (kj_StartTime job) @ opt_time ''completion_time'' (kj_CompletionTime job))"

definition handleWaitForJob :: "job_runner \<Rightarrow> job_env \<Rightarrow> time \<Rightarrow> gmap \<Rightarrow> jlog \<Rightarrow> gval jresult" where
  "handleWaitForJob r env now params h =
     (let jobName = job_name params; h1 = GetJob (jr_Namespace r) jobName # h in
      if jobName = [] then (Inl ''wait_for_k8s_job: job_name is required'', h)
      else (case je_getJob env h jobName of
        Inl e \<Rightarrow>
          if is_not_found e
          then (Inr (VObj [(''status'', VStr ''NotFound''), (''failure_reason'', VStr ''job no longer exists (TTL expired or never created)'')]), h1)
          else (Inl (''wait_for_k8s_job: get: '' @ err_text e), h1)
      | Inr job \<Rightarrow>
          if fst (jobStatusSnapshot job) \<noteq> ''Running'' then (Inr (job_report (jobStatusSnapshot job) job), h1)
          else (case imagePullFailure r env jobName h1 of
            (Some msg, h2) \<Rightarrow> (Inr (job_report (''Failed'', msg) job), h2)
          | (None, h2) \<Rightarrow> (case unschedulable r env jobName now h2 of
              (Some msg, h3) \<Rightarrow> (Inr (job_report (''Failed'', msg) job), h3)
            | (None, h3) \<Rightarrow> (Inr (job_report (jobStatusSnapshot job) job), h3)))))"

definition handleGetJobLogs :: "job_runner \<Rightarrow> job_env \<Rightarrow> gmap \<Rightarrow> jlog \<Rightarrow> gval jresult" where
  "handleGetJobLogs r env params h =
     (let jobName = job_name params in
      if jobName = [] then (Inl ''get_k8s_job_logs: job_name is required'', h)
      else (case fetchPodLogs r env jobName h of
        (Inl e, h1) \<Rightarrow> (Inl (''get_k8s_job_logs: '' @ e), h1)
      | (Inr (stdout, truncated, dropped), h1) \<Rightarrow>
          (Inr (VObj [(''stdout_b64_gzip'', VStr (b64_encode (je_gzip env stdout))), (''stdout_size'', VInt (int (length stdout))),
             (''truncated'', VBool truncated), (''stdout_bytes_dropped'', VInt dropped)]), h1)))"

definition deleteJobCascade :: "job_runner \<Rightarrow> job_env \<Rightarrow> string \<Rightarrow> jlog \<Rightarrow> api_err option \<times> jlog" where
  "deleteJobCascade r env jobName h = (je_deleteJob env h jobName, DeleteJob (jr_Namespace r) jobName # h)"

definition handleDeleteJob :: "job_runner \<Rightarrow> job_env \<Rightarrow> gmap \<Rightarrow> jlog \<Rightarrow> gval jresult" where
  "handleDeleteJob r env params h =
     (let jobName = job_name params in
      if jobName = [] then (Inl ''delete_k8s_job: job_name is required'', h)
      else (case deleteJobCascade r env jobName h of
        (Some e, h1) \<Rightarrow> if is_not_found e then (Inr (VObj [(''deleted'', VBool True)]), h1) else (Inl (''delete_k8s_job: '' @ err_text e), h1)
      | (None, h1) \<Rightarrow> (Inr (VObj [(''deleted'', VBool True)]), h1)))"

section \<open>The reaper\<close>

definition reapable :: "time \<Rightarrow> k8s_job \<Rightarrow> bool" where
  "reapable now job \<longleftrightarrow> (case jobFinishedAt job of None \<Rightarrow> False | Some t \<Rightarrow> \<not> time_sub now t < reapGraceSeconds * second)"

fun reap_loop :: "job_runner \<Rightarrow> job_env \<Rightarrow> time \<Rightarrow> k8s_job list \<Rightarrow> jlog \<Rightarrow> nat \<times> jlog" where
  "reap_loop r env now [] h = (0, h)"
| "reap_loop r env now (job # jobs) h =
     (if \<not> reapable now job then reap_loop r env now jobs h
      else (case deleteJobCascade r env (kj_Name job) h of (e, h1) \<Rightarrow>
        (let (n, h2) = reap_loop r env now jobs h1 in
         (case e of Some err \<Rightarrow> if is_not_found err then Suc n else n | None \<Rightarrow> Suc n, h2))))"

definition reapFinishedJobs :: "job_runner \<Rightarrow> job_env \<Rightarrow> time \<Rightarrow> jlog \<Rightarrow> nat \<times> jlog" where
  "reapFinishedJobs r env now h =
     (let h1 = ListJobs (jr_Namespace r) managed_selector (Some reaperListLimit) # h in
      case je_listJobs env h (Some reaperListLimit) of
        Inl e \<Rightarrow> (0, h1)
      | Inr jobs \<Rightarrow> reap_loop r env now jobs h1)"

section \<open>Names\<close>

text \<open>A DNS-1123 label.\<close>

definition dns_label :: "string \<Rightarrow> bool" where
  "dns_label s \<longleftrightarrow> s \<noteq> [] \<and> length s \<le> 63 \<and> list_all (\<lambda>c. dns_char c \<or> c = CHR ''-'') s \<and> dns_char (hd s) \<and> dns_char (last s)"

lemma dash_runs_chars: "c \<in> set (dash_runs b s) \<Longrightarrow> dns_char c \<or> c = CHR ''-''"
  by (induction b s rule: dash_runs.induct) (auto split: if_splits)

lemma trim_dashes_set: "set (trim_dashes s) \<subseteq> set s"
  by (auto simp: trim_dashes_def dest!: set_dropWhileD)

lemma hd_rstrip: "rev (dropWhile P (rev xs)) \<noteq> [] \<Longrightarrow> hd (rev (dropWhile P (rev xs))) = hd xs"
proof -
  assume ne: "rev (dropWhile P (rev xs)) \<noteq> []"
  have "xs = rev (dropWhile P (rev xs)) @ rev (takeWhile P (rev xs))" by (simp flip: rev_append)
  then show ?thesis using ne by (metis hd_append2)
qed

lemma trim_dashes_hd:
  assumes "trim_dashes s \<noteq> []" shows "hd (trim_dashes s) \<noteq> CHR ''-''"
proof -
  let ?d = "\<lambda>c. c = CHR ''-''"
  have "hd (trim_dashes s) = hd (dropWhile ?d s)"
    using assms unfolding trim_dashes_def by (rule hd_rstrip)
  moreover have "dropWhile ?d s \<noteq> []"
  proof
    assume "dropWhile ?d s = []"
    with assms show False by (simp only: trim_dashes_def rev.simps dropWhile.simps)
  qed
  ultimately show ?thesis using hd_dropWhile[of ?d s] by simp
qed

lemma dns_char_hex: "n < 16 \<Longrightarrow> dns_char (hex_digit n)"
  by (auto simp: dns_char_def hex_digit_def digit_char_def)

lemma hex_text_chars: "c \<in> set (hex_text bytes) \<Longrightarrow> dns_char c"
  using nat_of_char_less_256 by (auto simp: hex_text_def less_mult_imp_div_less intro!: dns_char_hex)

lemma length_hex_text [simp]: "length (hex_text bytes) = 2 * length bytes"
  by (induction bytes) (auto simp: hex_text_def)

lemma makeJobName_label: "makeJobName random p = Inr name \<Longrightarrow> dns_label name"
proof -
  assume "makeJobName random p = Inr name"
  then obtain a b c d where name: "name = take 54 (sanitizeDNSPrefix p) @ ''-'' @ hex_text [a, b, c, d]"
    and ne: "sanitizeDNSPrefix p \<noteq> []"
    by (auto simp: makeJobName_def Let_def split: if_splits option.splits)
  have chars: "\<And>c. c \<in> set (sanitizeDNSPrefix p) \<Longrightarrow> dns_char c \<or> c = CHR ''-''"
    using trim_dashes_set dash_runs_chars by (fastforce simp: sanitizeDNSPrefix_def)
  have "hd name = hd (sanitizeDNSPrefix p)" using ne name by simp
  then have "dns_char (hd name)"
    using chars[of "hd (sanitizeDNSPrefix p)"] ne trim_dashes_hd by (auto simp: sanitizeDNSPrefix_def)
  moreover have "last name = last (hex_text [a, b, c, d])" "hex_text [a, b, c, d] \<noteq> []" by (simp_all add: name hex_text_def)
  then have "dns_char (last name)" using hex_text_chars last_in_set by metis
  ultimately show ?thesis
    using chars hex_text_chars by (auto simp: dns_label_def name list_all_iff dest: in_set_takeD)
qed

section \<open>What reaches the cluster\<close>

text \<open>The requests the code may make: only in its own namespace, apart from the reads of pull credentials when
  they are enabled; only jobs with its labels, limits and name; only secrets that are registry credentials.\<close>

fun hygienic :: "job_runner \<Rightarrow> jcall \<Rightarrow> bool" where
  "hygienic r (CreateJob ns j) \<longleftrightarrow> ns = jr_Namespace r \<and> kj_Namespace j = jr_Namespace r \<and> dns_label (kj_Name j) \<and>
     map_of (kj_Labels j) managedByLabel = Some managedByValue \<and> map_of (kj_Labels j) orchestratorLabel = Some orchestratorValue \<and>
     kj_TTLSecondsAfterFinished j = 600 \<and> kj_BackoffLimit j = 0 \<and> 1800 \<le> kj_ActiveDeadlineSeconds j \<and>
     ps_RestartPolicy (kj_PodSpec j) = ''Never'' \<and> kj_Suspend j = (ps_ImagePullSecrets (kj_PodSpec j) \<noteq> []) \<and>
     (jr_AutoCopyPullSecrets r \<or> ps_ImagePullSecrets (kj_PodSpec j) = [])"
| "hygienic r (CreateSecret ns s) \<longleftrightarrow> ns = jr_Namespace r \<and> sk_Namespace s = jr_Namespace r \<and> jr_AutoCopyPullSecrets r \<and>
     registry_type (sk_Type s) \<and> length (sk_Owners s) = 1"
| "hygienic r (ListJobs ns sel _) \<longleftrightarrow> ns = jr_Namespace r \<and> sel = managed_selector"
| "hygienic r (GetJob ns _) \<longleftrightarrow> ns = jr_Namespace r"
| "hygienic r (ResumeJob ns _) \<longleftrightarrow> ns = jr_Namespace r"
| "hygienic r (DeleteJob ns _) \<longleftrightarrow> ns = jr_Namespace r"
| "hygienic r (ListJobPods ns _) \<longleftrightarrow> ns = jr_Namespace r"
| "hygienic r (GetLogs ns _) \<longleftrightarrow> ns = jr_Namespace r"
| "hygienic r (GetSourcePod _ _) \<longleftrightarrow> jr_AutoCopyPullSecrets r"
| "hygienic r (GetAccount _ _) \<longleftrightarrow> jr_AutoCopyPullSecrets r"
| "hygienic r (GetSecret _ _) \<longleftrightarrow> jr_AutoCopyPullSecrets r"

abbreviation clean_log :: "job_runner \<Rightarrow> jlog \<Rightarrow> bool" where
  "clean_log r h \<equiv> list_all (hygienic r) h"

text \<open>A copy that waits for its owner.\<close>

definition ownerless :: "job_runner \<Rightarrow> pull_secret \<Rightarrow> bool" where
  "ownerless r s \<longleftrightarrow> sk_Namespace s = jr_Namespace r \<and> registry_type (sk_Type s) \<and> sk_Owners s = []"

lemma read_secrets_clean:
  "jr_AutoCopyPullSecrets r \<Longrightarrow> clean_log r h \<Longrightarrow>
   clean_log r (snd (read_secrets r env ns jn names h)) \<and> list_all (ownerless r) (fst (read_secrets r env ns jn names h))"
proof (induction names arbitrary: h)
  case (Cons n names)
  obtain out h' where rest: "read_secrets r env ns jn names (GetSecret ns n # h) = (out, h')" by (cases "read_secrets r env ns jn names (GetSecret ns n # h)")
  have "clean_log r h' \<and> list_all (ownerless r) out" using Cons.IH[of "GetSecret ns n # h"] Cons.prems rest by simp
  moreover have "ownerless r \<lparr>sk_Name = x, sk_Namespace = jr_Namespace r, sk_Labels = l, sk_Type = y, sk_Data = d, sk_Owners = []\<rparr>"
    if "registry_type y" for x l y d using that by (simp add: ownerless_def)
  ultimately show ?case by (auto simp: Let_def rest split: sum.splits)
qed simp

lemma resolve_clean:
  assumes "jr_AutoCopyPullSecrets r" "clean_log r h" "resolvePullSecrets r env ref jn h = (ss, h')"
  shows "clean_log r h'" "list_all (ownerless r) ss"
proof -
  have "clean_log r h' \<and> list_all (ownerless r) ss"
  proof (cases "je_sourcePod env h")
    case (Inr p)
    obtain pulls account where p: "p = (pulls, account)" by (cases p)
    from assms(3) Inr p obtain names sa
      where "read_secrets r env (fst ref) jn names (GetAccount (fst ref) sa # GetSourcePod (fst ref) (snd ref) # h) = (ss, h')"
      by (auto simp: resolvePullSecrets_def Let_def)
    moreover have "clean_log r (GetAccount (fst ref) sa # GetSourcePod (fst ref) (snd ref) # h)" using assms(1,2) by simp
    ultimately show ?thesis using read_secrets_clean[OF assms(1)] by (metis fst_conv snd_conv)
  qed (use assms in \<open>auto simp: resolvePullSecrets_def Let_def\<close>)
  then show "clean_log r h'" "list_all (ownerless r) ss" by auto
qed

lemma createOwnedSecrets_log:
  "createOwnedSecrets r env ss job h =
   rev (map (\<lambda>s. CreateSecret (jr_Namespace r) (s\<lparr>sk_Owners := sk_Owners s @ [(kj_Name job, kj_UID job)]\<rparr>)) ss) @ h"
  by (induction ss arbitrary: h) simp_all

lemma createOwnedSecrets_clean:
  "jr_AutoCopyPullSecrets r \<Longrightarrow> clean_log r h \<Longrightarrow> list_all (ownerless r) ss \<Longrightarrow> clean_log r (createOwnedSecrets r env ss job h)"
  by (auto simp: createOwnedSecrets_log list_all_iff ownerless_def)

lemma release_clean:
  "(ss \<noteq> [] \<longrightarrow> jr_AutoCopyPullSecrets r) \<Longrightarrow> clean_log r h \<Longrightarrow> list_all (ownerless r) ss \<Longrightarrow>
   clean_log r (snd (release_job r env ss u created h))"
  using createOwnedSecrets_clean by (auto simp: release_job_def Let_def split: option.splits)

lemma built_job_clean:
  assumes "dns_label jn" "ss \<noteq> [] \<longrightarrow> jr_AutoCopyPullSecrets r"
  shows "hygienic r (CreateJob (jr_Namespace r) ((BuildJob r spec jn u)\<lparr>kj_PodSpec := (kj_PodSpec (BuildJob r spec jn u))\<lparr>ps_ImagePullSecrets := map sk_Name ss\<rparr>,
    kj_Suspend := ss \<noteq> []\<rparr>))"
  using assms by (auto simp: BuildJob_def Let_def jobTTLSeconds_def jobBackoffLimit_def minJobActiveDeadlineSeconds_def managedByLabel_def orchestratorLabel_def)

text \<open>The secrets a schedule resolves before it creates the job, and the log then.\<close>

definition pending_secrets :: "job_runner \<Rightarrow> job_env \<Rightarrow> job_spec \<Rightarrow> string \<Rightarrow> jlog \<Rightarrow> pull_secret list \<times> jlog" where
  "pending_secrets r env spec jobName h = (case js_ImagePullSecretsFrom spec of
     Some ref \<Rightarrow> if jr_AutoCopyPullSecrets r then resolvePullSecrets r env ref jobName h else ([], h)
   | None \<Rightarrow> ([], h))"

lemma pending_clean:
  assumes "clean_log r h" "pending_secrets r env spec jn h = (ss, h')"
  shows "clean_log r h'" "list_all (ownerless r) ss" "ss \<noteq> [] \<longrightarrow> jr_AutoCopyPullSecrets r"
proof -
  have "clean_log r h' \<and> list_all (ownerless r) ss \<and> (ss \<noteq> [] \<longrightarrow> jr_AutoCopyPullSecrets r)"
    using assms resolve_clean[OF _ assms(1)] by (auto simp: pending_secrets_def split: option.splits if_splits)
  then show "clean_log r h'" "list_all (ownerless r) ss" "ss \<noteq> [] \<longrightarrow> jr_AutoCopyPullSecrets r" by auto
qed

text \<open>The job a schedule creates.\<close>

definition submitted :: "job_runner \<Rightarrow> job_env \<Rightarrow> job_spec \<Rightarrow> string \<Rightarrow> jlog \<Rightarrow> pull_secret list \<Rightarrow> k8s_job" where
  "submitted r env spec jn h ss = (let job = BuildJob r spec jn (je_uuid env h) in
     job\<lparr>kj_PodSpec := (kj_PodSpec job)\<lparr>ps_ImagePullSecrets := map sk_Name ss\<rparr>, kj_Suspend := ss \<noteq> []\<rparr>)"

lemma submit_job_cases:
  assumes "pending_secrets r env spec jn h = (ss, h1)"
  shows "submit_job r env spec jn h = (case je_createJob env h1 (submitted r env spec jn h ss) of
      Inl e \<Rightarrow> (Inl (''schedule_k8s_job: create: '' @ err_text e), CreateJob (jr_Namespace r) (submitted r env spec jn h ss) # h1)
    | Inr created \<Rightarrow> release_job r env ss (je_uuid env h) created (CreateJob (jr_Namespace r) (submitted r env spec jn h ss) # h1))"
  using assms unfolding submitted_def Let_def by (simp add: submit_job_def pending_secrets_def[symmetric] Let_def)

lemma submit_clean:
  assumes "clean_log r h" "dns_label jn" shows "clean_log r (snd (submit_job r env spec jn h))"
proof -
  obtain ss h1 where p: "pending_secrets r env spec jn h = (ss, h1)" by (cases "pending_secrets r env spec jn h")
  note pending = pending_clean[OF assms(1) p]
  have "hygienic r (CreateJob (jr_Namespace r) (submitted r env spec jn h ss))"
    using built_job_clean[OF assms(2) pending(3)] by (simp add: submitted_def Let_def)
  then have "clean_log r (CreateJob (jr_Namespace r) (submitted r env spec jn h ss) # h1)" using pending(1) by simp
  then show ?thesis using release_clean[OF pending(3) _ pending(2)] by (simp add: submit_job_cases[OF p] split: sum.splits)
qed

lemma schedule_clean: "clean_log r h \<Longrightarrow> clean_log r (snd (handleScheduleJob r env params h))"
  using submit_clean makeJobName_label
  by (auto simp: handleScheduleJob_def listManagedJobs_def managed_selector_def split: sum.splits)

lemma wait_clean: "clean_log r h \<Longrightarrow> clean_log r (snd (handleWaitForJob r env now params h))"
  by (auto simp: handleWaitForJob_def imagePullFailure_def unschedulable_def Let_def split: sum.splits option.splits)

lemma logs_clean: "clean_log r h \<Longrightarrow> clean_log r (snd (handleGetJobLogs r env params h))"
  by (auto simp: handleGetJobLogs_def fetchPodLogs_def Let_def split: sum.splits list.splits prod.splits)

lemma delete_clean: "clean_log r h \<Longrightarrow> clean_log r (snd (handleDeleteJob r env params h))"
  by (auto simp: handleDeleteJob_def deleteJobCascade_def Let_def split: option.splits)

lemma reap_loop_log:
  "snd (reap_loop r env now jobs h) = rev (map (\<lambda>j. DeleteJob (jr_Namespace r) (kj_Name j)) (filter (reapable now) jobs)) @ h"
proof (induction jobs arbitrary: h)
  case (Cons j jobs)
  show ?case using Cons.IH[of h] Cons.IH[of "DeleteJob (jr_Namespace r) (kj_Name j) # h"]
    by (auto simp: deleteJobCascade_def Let_def split: prod.splits)
qed simp

lemma reap_clean: "clean_log r h \<Longrightarrow> clean_log r (snd (reapFinishedJobs r env now h))"
  by (auto simp: reapFinishedJobs_def reap_loop_log managed_selector_def list_all_iff Let_def split: sum.splits)

text \<open>The entries of the runner: the four actions and the sweep of the reaper.\<close>

datatype scan_entry = ScheduleJob gmap | WaitForJob time gmap | GetJobLogs gmap | DeleteK8sJob gmap | Sweep time

fun perform :: "job_runner \<Rightarrow> job_env \<Rightarrow> scan_entry \<Rightarrow> jlog \<Rightarrow> jlog" where
  "perform r env (ScheduleJob params) h = snd (handleScheduleJob r env params h)"
| "perform r env (WaitForJob now params) h = snd (handleWaitForJob r env now params h)"
| "perform r env (GetJobLogs params) h = snd (handleGetJobLogs r env params h)"
| "perform r env (DeleteK8sJob params) h = snd (handleDeleteJob r env params h)"
| "perform r env (Sweep now) h = snd (reapFinishedJobs r env now h)"

lemma perform_clean: "clean_log r h \<Longrightarrow> clean_log r (perform r env e h)"
  by (cases e) (auto intro: schedule_clean wait_clean logs_clean delete_clean reap_clean)

text \<open>C16: whatever a caller asks for and whatever the API server answers, the job actions stay in the agent's
  namespace, create only jobs with the agent's labels and limits under a valid name, and read and copy
  registry credentials only when that is enabled.\<close>

theorem scanner_calls_hygienic: "list_all (hygienic r) (fold (perform r env) entries [])"
proof -
  have "clean_log r h \<Longrightarrow> clean_log r (fold (perform r env) entries h)" for h
    by (induction entries arbitrary: h) (auto intro: perform_clean)
  then show ?thesis by simp
qed

section \<open>Suspended jobs\<close>

text \<open>The requests after a suspended job was created: its secrets, each owned by the job, then the resumption, then the
  deletion when that failed.\<close>

definition release_calls :: "job_runner \<Rightarrow> job_env \<Rightarrow> pull_secret list \<Rightarrow> k8s_job \<Rightarrow> jlog \<Rightarrow> jlog" where
  "release_calls r env ss created h =
     (let copies = rev (map (\<lambda>s. CreateSecret (jr_Namespace r) (s\<lparr>sk_Owners := [(kj_Name created, kj_UID created)]\<rparr>)) ss) in
      (if je_resumeJob env (copies @ h) (kj_Name created) = None then [] else [DeleteJob (jr_Namespace r) (kj_Name created)]) @
      ResumeJob (jr_Namespace r) (kj_Name created) # copies)"

lemma release_job_log:
  assumes "list_all (ownerless r) ss" "ss \<noteq> []"
  shows "snd (release_job r env ss u created h) = release_calls r env ss created h @ h"
    and "isl (fst (release_job r env ss u created h)) \<longleftrightarrow> DeleteJob (jr_Namespace r) (kj_Name created) \<in> set (release_calls r env ss created h)"
proof -
  have "map (\<lambda>s. CreateSecret (jr_Namespace r) (s\<lparr>sk_Owners := sk_Owners s @ [(kj_Name created, kj_UID created)]\<rparr>)) ss =
    map (\<lambda>s. CreateSecret (jr_Namespace r) (s\<lparr>sk_Owners := [(kj_Name created, kj_UID created)]\<rparr>)) ss"
    using assms(1) by (auto simp: list_all_iff ownerless_def)
  then have copies: "createOwnedSecrets r env ss created h =
      rev (map (\<lambda>s. CreateSecret (jr_Namespace r) (s\<lparr>sk_Owners := [(kj_Name created, kj_UID created)]\<rparr>)) ss) @ h"
    by (simp only: createOwnedSecrets_log)
  then show "snd (release_job r env ss u created h) = release_calls r env ss created h @ h"
    "isl (fst (release_job r env ss u created h)) \<longleftrightarrow> DeleteJob (jr_Namespace r) (kj_Name created) \<in> set (release_calls r env ss created h)"
    using assms(2) by (auto simp: release_job_def release_calls_def copies Let_def split: option.splits)
qed

text \<open>Requests that create no job.\<close>

fun creates_job :: "jcall \<Rightarrow> bool" where
  "creates_job (CreateJob _ _) = True"
| "creates_job _ = False"

definition only_reads :: "jlog \<Rightarrow> jlog \<Rightarrow> bool" where
  "only_reads h h' \<longleftrightarrow> (\<exists>reads. h' = reads @ h \<and> list_all (\<lambda>c. \<not> creates_job c) reads)"

lemma only_reads_refl [simp]: "only_reads h h"
  by (simp add: only_reads_def)

lemma only_reads_step: "only_reads (c # h) h' \<Longrightarrow> \<not> creates_job c \<Longrightarrow> only_reads h h'"
  by (fastforce simp: only_reads_def intro: exI[of _ "_ @ [c]"])

lemma read_secrets_reads: "only_reads h (snd (read_secrets r env ns jn names h))"
proof (induction names arbitrary: h)
  case (Cons n names)
  have "only_reads h (snd (read_secrets r env ns jn names (GetSecret ns n # h)))"
    using Cons.IH by (rule only_reads_step) simp
  then show ?case by (auto simp: Let_def split: prod.splits)
qed simp

lemma resolve_reads: "only_reads h (snd (resolvePullSecrets r env ref jn h))"
proof (cases "je_sourcePod env h")
  case (Inr p)
  have "only_reads h (snd (read_secrets r env ns jn names (GetAccount ns sa # GetSourcePod a b # h)))" for ns names sa a b
    by (rule only_reads_step[OF only_reads_step[OF read_secrets_reads]]) simp_all
  with Inr show ?thesis by (cases p) (simp add: resolvePullSecrets_def Let_def)
next
  case (Inl e)
  have "only_reads h (GetSourcePod (fst ref) (snd ref) # h)" by (rule only_reads_step[OF only_reads_refl]) simp
  with Inl show ?thesis by (simp add: resolvePullSecrets_def Let_def)
qed

lemma pending_reads: "only_reads h (snd (pending_secrets r env spec jn h))"
  using resolve_reads by (auto simp: pending_secrets_def split: option.splits)

lemma unique_creation:
  assumes "newer @ a # older = rel @ b # reads @ h" "creates_job a" "list_all (\<lambda>c. \<not> creates_job c) rel"
    "list_all (\<lambda>c. \<not> creates_job c) reads" "length h \<le> length older"
  shows "newer = rel \<and> a = b \<and> older = reads @ h"
proof -
  have "a \<notin> set rel" "a \<notin> set reads" using assms(2-4) by (auto simp: list_all_iff)
  moreover have "us @ a # older = reads @ h \<Longrightarrow> a \<in> set reads" for us
    using assms(5) by (auto simp: append_eq_append_conv2 append_eq_Cons_conv Cons_eq_append_conv)
  ultimately show ?thesis using assms(1)
    by (auto simp: append_eq_append_conv2 append_eq_Cons_conv Cons_eq_append_conv)
qed

lemma release_calls_create_none: "list_all (\<lambda>c. \<not> creates_job c) (release_calls r env ss created h)"
  by (auto simp: release_calls_def Let_def list_all_iff)

lemma read_secrets_ownerless: "list_all (ownerless r) (fst (read_secrets r env ns jn names h))"
proof (induction names arbitrary: h)
  case (Cons n names)
  show ?case using Cons.IH[of "GetSecret ns n # h"] by (auto simp: Let_def ownerless_def[of _ "\<lparr>sk_Name = _, sk_Namespace = _, sk_Labels = _, sk_Type = _, sk_Data = _, sk_Owners = _\<rparr>"] split: prod.splits sum.splits)
qed simp

lemma pending_ownerless: "list_all (ownerless r) (fst (pending_secrets r env spec jn h))"
  using read_secrets_ownerless
  by (auto simp: pending_secrets_def resolvePullSecrets_def Let_def split: option.splits sum.splits)

lemma only_reads_none: "only_reads h (newer @ a # older) \<Longrightarrow> creates_job a \<Longrightarrow> length older < length h"
proof (rule ccontr)
  assume "only_reads h (newer @ a # older)" and a: "creates_job a" and "\<not> length older < length h"
  then obtain reads where "newer @ a # older = reads @ h" "list_all (\<lambda>c. \<not> creates_job c) reads" by (auto simp: only_reads_def)
  with a \<open>\<not> length older < length h\<close> show False
    by (auto simp: append_eq_append_conv2 append_eq_Cons_conv Cons_eq_append_conv list_all_iff)
qed

lemma schedule_log:
  assumes "handleScheduleJob r env params h = (res, h')"
  shows "only_reads h h' \<or> (\<exists>spec jn. submit_job r env spec jn (ListJobs (jr_Namespace r) managed_selector None # h) = (res, h'))"
proof -
  have "only_reads h (ListJobs (jr_Namespace r) managed_selector None # h)" by (rule only_reads_step[OF only_reads_refl]) simp
  then show ?thesis using assms
    by (auto simp: handleScheduleJob_def listManagedJobs_def split: sum.splits if_splits)
qed


definition sample_job_spec :: job_spec where
  "sample_job_spec = \<lparr>js_NamePrefix = ''Image_Scan'', js_Image = ''registry.example/app:1'', js_Command = [], js_Args = [''fs'', ''/''], js_Env = [],
     js_ServiceAccount = [], js_Privileged = False, js_HostPID = False, js_HostNetwork = False, js_NodeName = [], js_ImagePullPolicy = [],
     js_RunAsUser = Some 0, js_InitContainers = [], js_Volumes = [], js_VolumeMounts = [], js_ImagePullSecretsFrom = Some (''shop'', ''web-1''),
     js_Resources = VNil, js_NodeSelector = [], js_TimeoutHintSeconds = 3000\<rparr>"

definition sample_pull_secret :: pull_secret where
  "sample_pull_secret = \<lparr>sk_Name = ''regcred'', sk_Namespace = ''shop'', sk_Labels = [], sk_Type = ''kubernetes.io/dockercfg'', sk_Data = ''x'', sk_Owners = []\<rparr>"

text \<open>A server that answers everything except the resumption.\<close>

definition sample_job_env :: job_env where
  "sample_job_env = \<lparr>je_decode = (\<lambda>_. Inr sample_job_spec), je_random = (\<lambda>_. Some (CHR ''a'', CHR ''b'', CHR ''c'', CHR ''d'')), je_uuid = (\<lambda>_. ''u-1''),
     je_sha256hex = (\<lambda>_. ''0123456789abcdef''), je_gzip = (\<lambda>s. s), je_order = (\<lambda>xs. xs), je_listJobs = (\<lambda>_ _. Inr []),
     je_createJob = (\<lambda>_ j. Inr (j\<lparr>kj_UID := ''uid-7''\<rparr>)), je_getJob = (\<lambda>_ _. Inl (NotFoundErr [])), je_resumeJob = (\<lambda>_ _. Some (OtherErr ''timeout'')),
     je_deleteJob = (\<lambda>_ _. None), je_listPods = (\<lambda>_ _. Inr []), je_logs = (\<lambda>_ _. Inr []), je_sourcePod = (\<lambda>_. Inr ([''regcred''], [])),
     je_account = (\<lambda>_. Inr [''regcred'']), je_secret = (\<lambda>_ _. Inr sample_pull_secret)\<rparr>"

definition sample_schedule :: "gval jresult" where
  "sample_schedule = handleScheduleJob ((NewRunner ''scan'' ''sa'')\<lparr>jr_AutoCopyPullSecrets := True\<rparr>) sample_job_env [(''spec'', VObj [])] []"


section \<open>The reaper and the logs\<close>

text \<open>A sweep asks for the deletion of exactly the listed jobs that finished at least the grace period ago.\<close>

lemma reapFinishedJobs_exact:
  assumes "je_listJobs env h (Some reaperListLimit) = Inr jobs"
  shows "snd (reapFinishedJobs r env now h) = rev (map (\<lambda>j. DeleteJob (jr_Namespace r) (kj_Name j)) (filter (reapable now) jobs)) @
    ListJobs (jr_Namespace r) managed_selector (Some reaperListLimit) # h"
    and "fst (reapFinishedJobs r env now h) \<le> length (filter (reapable now) jobs)"
proof -
  have "fst (reap_loop r env now js h) \<le> length (filter (reapable now) js)" for js h
  proof (induction js arbitrary: h)
    case (Cons j js)
    show ?case using Cons.IH[of h] Cons.IH[of "DeleteJob (jr_Namespace r) (kj_Name j) # h"]
      by (auto simp: deleteJobCascade_def Let_def split: prod.splits option.splits)
  qed simp
  then show "fst (reapFinishedJobs r env now h) \<le> length (filter (reapable now) jobs)" using assms by (simp add: reapFinishedJobs_def)
qed (use assms in \<open>simp add: reapFinishedJobs_def reap_loop_log\<close>)

lemma reapable_finished: "reapable now job \<Longrightarrow> jobIsTerminal job \<and> fst (jobStatusSnapshot job) \<noteq> ''Running''"
  by (auto simp: reapable_def jobFinishedAt_def jobIsTerminal_def jobStatusSnapshot_def find_None_iff list_ex_iff split: option.splits if_splits)

text \<open>The log is cut at the cap and the rest is counted, however the stream is chunked.\<close>

lemma log_loop_state:
  assumes "0 < cap" "written = int (length out)" "written \<le> cap"
  shows "log_loop cap (out, written, dropped) chunks =
    (out @ take (nat (cap - written)) (concat chunks), min cap (written + int (length (concat chunks))),
     dropped + max 0 (written + int (length (concat chunks)) - cap))"
  using assms
proof (induction chunks arbitrary: out written dropped)
  case (Cons buf chunks)
  let ?n = "int (length buf)"
  consider "cap - written \<le> 0" | "0 < cap - written" "?n \<le> cap - written" | "0 < cap - written" "cap - written < ?n" by linarith
  then show ?case
  proof cases
    case 1
    with Cons.prems Cons.IH[of written out "dropped + ?n"] show ?thesis by (simp add: max_def min_def)
  next
    case 2
    then have "nat (cap - written) - length buf = nat (cap - (written + ?n))" by simp
    with 2 Cons.prems Cons.IH[of "written + ?n" "out @ buf" dropped] show ?thesis by (simp add: max_def min_def Let_def algebra_simps)
  next
    case 3
    with Cons show ?thesis by (simp add: Cons.IH max_def min_def Let_def algebra_simps)
  qed
qed (auto simp: max_def min_def)

lemma log_exact:
  assumes "0 < cap"
  shows "log_loop cap ([], 0, 0) chunks = (take (nat cap) (concat chunks), min cap (int (length (concat chunks))), max 0 (int (length (concat chunks)) - cap))"
  using log_loop_state[OF assms, of 0 "[]" 0 chunks] assms by simp

end
