(* ===== verification/PodRunner.thy ===== *)
theory PodRunner
  imports GoParse GoJson Base64 Scanners
begin

text \<open>
  \<open>pkg/podrunner/runner.go\<close>: a script is run in a pod of its own, from a config map, and both are removed again;
  with the finding-shaped answers of \<open>pkg/enrichers/finding.go\<close>. Requests, readings of the clock and pauses
  are entries of a log, newest first, and the environment answers from the log so far. The theory
  proves that nothing the run created is left behind or started twice, and that every run ends.
\<close>

section \<open>Findings\<close>

definition PrometheusBlock :: "gmap \<Rightarrow> string \<Rightarrow> gmap" where
  "PrometheusBlock data query = [(''type'', VStr ''prometheus''), (''data'', VObj data),
     (''metadata'', VObj [(''query-result-version'', VStr ''1.0''), (''query'', VStr query)]),
     (''version'', VFloat (float_of_nat 1)), (''additional_info'', VNil)]"

definition JSONBlock :: "gval \<Rightarrow> gmap option" where
  "JSONBlock payload = map_option (\<lambda>b. [(''type'', VStr ''json''), (''data'', VStr b), (''additional_info'', VNil)]) (json_marshal payload)"

definition file_ext :: "string \<Rightarrow> string" where
  "file_ext filename = (if CHR ''.'' \<in> set filename then rev (takeWhile (\<lambda>c. c \<noteq> CHR ''.'') (rev filename)) else [])"

definition FileBlock :: "string \<Rightarrow> string \<Rightarrow> gmap" where
  "FileBlock filename contents = [(''type'', VStr (file_ext filename)), (''filename'', VStr filename),
     (''data'', VStr (''b'' @ [CHR 39] @ b64_encode contents @ [CHR 39])), (''additional_info'', VNil)]"

definition MarkdownBlock :: "string \<Rightarrow> gmap" where
  "MarkdownBlock body = [(''type'', VStr ''markdown''), (''data'', VStr body), (''additional_info'', VNil)]"

text \<open>\<open>fresh\<close> is the uuid used when none is given.\<close>

definition FindingResponse :: "string \<Rightarrow> string \<Rightarrow> string option \<Rightarrow> gmap list \<Rightarrow> gmap option" where
  "FindingResponse fresh accountID findingID blocks =
     (let i = (case findingID of Some i \<Rightarrow> i | None \<Rightarrow> fresh) in
      map_option (\<lambda>encoded. [(''success'', VBool True), (''findings'', VArr [VObj [(''id'', VStr i), (''evidence'', VArr [VObj
        [(''issue_id'', VStr i), (''file_type'', VStr ''structured_data''), (''data'', VStr encoded), (''account_id'', VStr accountID)]])]])])
        (json_marshal (VArr (map VObj blocks))))"

definition ErrorResponse :: "string \<Rightarrow> int \<Rightarrow> gmap" where
  "ErrorResponse msg code = [(''success'', VBool False), (''msg'', VStr msg), (''error_code'', VInt code)]"

section \<open>Durations as texts\<close>

text \<open>\<open>Duration.String\<close> of a positive duration: \<open>u\<close> in units of ten to the minus \<open>prec\<close>.\<close>

definition frac_text :: "nat \<Rightarrow> nat \<Rightarrow> string" where
  "frac_text u prec = (let ds = nat_dec (u mod 10 ^ prec);
      padded = replicate (prec - length ds) CHR ''0'' @ ds;
      cleaned = rev (dropWhile (\<lambda>c. c = CHR ''0'') (rev padded)) in
    if u mod 10 ^ prec = 0 then [] else ''.'' @ cleaned)"

definition duration_text :: "duration \<Rightarrow> string" where
  "duration_text d =
     (let u = nat d; secs = u div 10 ^ 9; s = nat_dec (secs mod 60) @ frac_text u 9 @ ''s''; m = secs div 60 in
      if u = 0 then ''0s''
      else if u < 1000 then nat_dec u @ ''ns''
      else if u < 1000000 then nat_dec (u div 1000) @ frac_text u 3 @ map char_of [0xC2, 0xB5 :: nat] @ ''s''
      else if u < 1000000000 then nat_dec (u div 1000000) @ frac_text u 6 @ ''ms''
      else if m = 0 then s
      else if m < 60 then nat_dec m @ ''m'' @ s
      else nat_dec (m div 60) @ ''h'' @ nat_dec (m mod 60) @ ''m'' @ s)"

section \<open>The runner\<close>

record script_pod =
  sp_Namespace :: string
  sp_Name :: string
  sp_ServiceAccount :: string
  sp_RestartPolicy :: string
  sp_Image :: string
  sp_ImagePullPolicy :: string
  sp_Command :: "string list"
  sp_EnvFrom :: "string list"
  sp_Env :: "(string \<times> string) list"
  sp_ConfigMap :: string
  sp_MountPath :: string

text \<open>A pod read back: its phase and the statuses of its containers and init containers.\<close>

record pod_state =
  pt_Phase :: string
  pt_Statuses :: "container_status list"
  pt_InitStatuses :: "container_status list"

datatype pcall =
    MakeConfigMap string string "(string, string) gomap" | MakePod script_pod | ReadPod string string | ReadLogs string string
  | RemovePod string string | RemoveConfigMap string string | ReadClock | ReadCtx | Pause duration | DrawUUID

type_synonym plog = "pcall list"

text \<open>\<open>pe_ctx\<close> is the error of the context, \<open>pe_pause\<close> the one that ended a pause; \<open>pe_read\<close> is one reading of a log stream.\<close>

record pod_env =
  pe_makeConfigMap :: "plog \<Rightarrow> string option"
  pe_makePod :: "plog \<Rightarrow> string option"
  pe_pod :: "plog \<Rightarrow> api_err + pod_state"
  pe_logs :: "plog \<Rightarrow> string + string list"
  pe_now :: "plog \<Rightarrow> time"
  pe_ctx :: "plog \<Rightarrow> string option"
  pe_pause :: "plog \<Rightarrow> string option"
  pe_uuid :: "plog \<Rightarrow> string"

record pod_runner =
  pr_Client :: bool
  pr_DefaultNamespace :: string
  pr_ServiceAccount :: string
  pr_AccountID :: string
  pr_PollInterval :: duration

definition New_runner :: "bool \<Rightarrow> string \<Rightarrow> string \<Rightarrow> string \<Rightarrow> pod_runner" where
  "New_runner cs defaultNS sa accountID = \<lparr>pr_Client = cs, pr_DefaultNamespace = defaultNS, pr_ServiceAccount = sa, pr_AccountID = accountID,
     pr_PollInterval = 5 * second\<rparr>"

definition failFastReasons :: "string list" where
  "failFastReasons = [''ImagePullBackOff'', ''ErrImagePull'', ''CreateContainerConfigError'', ''InvalidImageName'', ''CreateContainerError'',
     ''RunContainerError'']"

definition long_dash :: string where
  "long_dash = map char_of [0xE2, 0x80, 0x94 :: nat]"

definition fails_fast :: "container_status \<Rightarrow> string option" where
  "fails_fast cs = (case snd cs of
     Some (reason, message) \<Rightarrow>
       if reason \<in> set failFastReasons
       then Some (''container '' @ fst cs @ '' waiting: '' @ reason @ '' '' @ long_dash @ '' '' @ message) else None
   | None \<Rightarrow> None)"

definition detectUnrecoverable :: "pod_state \<Rightarrow> string option" where
  "detectUnrecoverable pod = first_some fails_fast (pt_Statuses pod @ pt_InitStatuses pod)"

definition readPodLogs :: "pod_env \<Rightarrow> string \<Rightarrow> string \<Rightarrow> plog \<Rightarrow> (string + string) \<times> plog" where
  "readPodLogs env ns name h = (case pe_logs env h of
     Inl e \<Rightarrow> (Inl (''open log stream: '' @ e), ReadLogs ns name # h)
   | Inr chunks \<Rightarrow> (Inr (concat chunks), ReadLogs ns name # h))"

text \<open>One round of the wait: a result, or the pause is over and the next round starts.\<close>

definition wait_pause :: "pod_env \<Rightarrow> string \<Rightarrow> string \<Rightarrow> duration \<Rightarrow> duration \<Rightarrow> time \<Rightarrow> plog \<Rightarrow> (string + string) option \<times> plog" where
  "wait_pause env ns name timeout poll deadline h =
     (if deadline < pe_now env h
      then (Some (Inl (''pod '' @ ns @ ''/'' @ name @ '' did not complete within '' @ duration_text timeout)), ReadClock # h)
      else (case pe_pause env (ReadClock # h) of
        Some e \<Rightarrow> (Some (Inl e), Pause poll # ReadClock # h)
      | None \<Rightarrow> (None, Pause poll # ReadClock # h)))"

definition wait_round :: "pod_env \<Rightarrow> string \<Rightarrow> string \<Rightarrow> duration \<Rightarrow> duration \<Rightarrow> time \<Rightarrow> plog \<Rightarrow> (string + string) option \<times> plog" where
  "wait_round env ns name timeout poll deadline h =
     (let h1 = ReadCtx # h; h2 = ReadPod ns name # h1 in
      case pe_ctx env h of
        Some e \<Rightarrow> (Some (Inl e), h1)
      | None \<Rightarrow> (case pe_pod env h1 of
          Inl e \<Rightarrow>
            if is_not_found e then (Some (Inl (''pod '' @ ns @ ''/'' @ name @ '' disappeared during wait'')), h2)
            else wait_pause env ns name timeout poll deadline h2
        | Inr pod \<Rightarrow> (case detectUnrecoverable pod of
            Some reason \<Rightarrow> (Some (Inl reason), h2)
          | None \<Rightarrow>
              if pt_Phase pod = ''Succeeded'' \<or> pt_Phase pod = ''Failed''
              then (case readPodLogs env ns name h2 of (res, h3) \<Rightarrow> (Some res, h3))
              else wait_pause env ns name timeout poll deadline h2)))"

partial_function (option) wait_loop ::
  "pod_env \<Rightarrow> string \<Rightarrow> string \<Rightarrow> duration \<Rightarrow> duration \<Rightarrow> time \<Rightarrow> plog \<Rightarrow> ((string + string) \<times> plog) option" where
  "wait_loop env ns name timeout poll deadline h = (case wait_round env ns name timeout poll deadline h of
     (Some res, h1) \<Rightarrow> Some (res, h1)
   | (None, h1) \<Rightarrow> wait_loop env ns name timeout poll deadline h1)"

definition poll_interval :: "pod_runner \<Rightarrow> duration" where
  "poll_interval r = (if pr_PollInterval r \<le> 0 then 5 * second else pr_PollInterval r)"

definition waitAndReadLogs :: "pod_runner \<Rightarrow> pod_env \<Rightarrow> string \<Rightarrow> string \<Rightarrow> duration \<Rightarrow> plog \<Rightarrow> ((string + string) \<times> plog) option" where
  "waitAndReadLogs r env ns name timeout h =
     (let timeout' = (if timeout \<le> 0 then minute else timeout) in
      wait_loop env ns name timeout' (poll_interval r) (time_add (pe_now env h) timeout') (ReadClock # h))"

definition decodeStringMap :: "gval \<Rightarrow> (string, string) gomap" where
  "decodeStringMap v = (case v of
     VObj m \<Rightarrow> foldl (\<lambda>out p. case snd p of VStr s \<Rightarrow> map_put (fst p) s out | _ \<Rightarrow> out) [] m
   | _ \<Rightarrow> [])"

definition shortUUID :: "string \<Rightarrow> string" where
  "shortUUID u = take 8 (filter (\<lambda>c. c \<noteq> CHR ''-'') u)"

text \<open>The answer: the parameters are echoed with the output, or with the error in its place.\<close>

definition echo :: "gmap \<Rightarrow> string \<Rightarrow> gmap" where
  "echo params key = (if mhas (Some params) key then [(key, mget params key)] else [])"

definition respond_script :: "pod_runner \<Rightarrow> string \<Rightarrow> gmap \<Rightarrow> string \<Rightarrow> string \<Rightarrow> string \<Rightarrow> string \<Rightarrow> string \<Rightarrow> string \<Rightarrow> string \<Rightarrow> gmap" where
  "respond_script r fresh params ns pod img command secret logs errMsg =
     (let dict = [(''type'', VStr ''pod_script_run_enricher''), (''namespace'', VStr ns), (''pod_name'', VStr pod), (''image'', VStr img),
            (''command'', VStr command), (''secret'', VStr secret), (''response'', VStr (if errMsg = [] then logs else errMsg))] @
            echo params ''env_from_secret_keys'' @ echo params ''env_variables'' @ echo params ''wait_threshold'' @
            (if errMsg = [] then [] else [(''error'', VStr errMsg)])
      in case JSONBlock (VObj dict) of
        None \<Rightarrow> ErrorResponse ''podrunner: marshal response'' 500
      | Some block \<Rightarrow> (case FindingResponse fresh (pr_AccountID r) None [block] of
          None \<Rightarrow> ErrorResponse ''podrunner: build finding'' 500
        | Some resp \<Rightarrow> resp))"

text \<open>What the parameters ask for: image, command, pod name, namespace, secret, minutes.\<close>

definition wait_minutes :: "gval \<Rightarrow> int" where
  "wait_minutes v = (case v of
     VFloat f \<Rightarrow> if float_le (float_of_nat 1) f then int_of_float f else 1
   | VInt n \<Rightarrow> if 1 \<le> n then n else 1
   | _ \<Rightarrow> 1)"

definition split_secret :: "string \<Rightarrow> string \<Rightarrow> string \<times> string" where
  "split_secret namespace secret =
     (if CHR ''/'' \<in> set secret
      then (if namespace = [] then takeWhile (\<lambda>c. c \<noteq> CHR ''/'') secret else namespace, tl (dropWhile (\<lambda>c. c \<noteq> CHR ''/'') secret))
      else (namespace, secret))"

definition script_command :: "string list" where
  "script_command = [''sh'', ''-c'', ''base64 -d /mnt/script > /tmp/script.sh && sh /tmp/script.sh'']"

definition buildPod :: "pod_runner \<Rightarrow> string \<Rightarrow> string \<Rightarrow> string \<Rightarrow> string \<Rightarrow> string \<Rightarrow> (string, string) gomap \<Rightarrow> script_pod" where
  "buildPod r ns name img cmName secret env = \<lparr>sp_Namespace = ns, sp_Name = name, sp_ServiceAccount = pr_ServiceAccount r, sp_RestartPolicy = ''Never'',
     sp_Image = img, sp_ImagePullPolicy = ''IfNotPresent'', sp_Command = script_command, sp_EnvFrom = (if secret = [] then [] else [secret]),
     sp_Env = env, sp_ConfigMap = cmName, sp_MountPath = ''/mnt''\<rparr>"

text \<open>The deferred removals run after everything else, the pod first.\<close>

definition run_script :: "pod_runner \<Rightarrow> pod_env \<Rightarrow> gmap \<Rightarrow> string \<Rightarrow> string \<Rightarrow> string \<Rightarrow> string \<Rightarrow> string \<Rightarrow> plog \<Rightarrow> (gmap \<times> plog) option" where
  "run_script r env params ns podName img command secret h =
     (let cmName = ''nb-script-'' @ shortUUID (pe_uuid env h); h0 = DrawUUID # h;
          answer = (\<lambda>logs err hh. respond_script r (pe_uuid env hh) params ns podName img command secret logs err);
          h1 = MakeConfigMap ns cmName [(''script'', b64_encode command)] # h0 in
      case pe_makeConfigMap env h0 of
        Some e \<Rightarrow> Some (answer [] (''create configmap: '' @ e) h1, h1)
      | None \<Rightarrow>
          (let h2 = MakePod (buildPod r ns podName img cmName secret (decodeStringMap (mget params ''env_variables''))) # h1 in
           case pe_makePod env h1 of
             Some e \<Rightarrow> Some (answer [] (''create pod: '' @ e) h2, RemoveConfigMap ns cmName # h2)
           | None \<Rightarrow> (case waitAndReadLogs r env ns podName (wrap64 (wait_minutes (mget params ''wait_threshold'') * minute)) h2 of
               None \<Rightarrow> None
             | Some (res, h3) \<Rightarrow>
                 Some (case res of Inl e \<Rightarrow> answer [] e h3 | Inr logs \<Rightarrow> answer logs [] h3, RemoveConfigMap ns cmName # RemovePod ns podName # h3))))"

definition Handle_script :: "pod_runner \<Rightarrow> pod_env \<Rightarrow> gmap \<Rightarrow> plog \<Rightarrow> (gmap \<times> plog) option" where
  "Handle_script r env params h =
     (let img = as_str (mget params ''image''); command = as_str (mget params ''command'');
          (ns0, secret) = split_secret (as_str (mget params ''namespace'')) (as_str (mget params ''secret''));
          ns = (if ns0 = [] then pr_DefaultNamespace r else ns0); given = as_str (mget params ''pod_name'') in
      if \<not> pr_Client r then Some (ErrorResponse ''podrunner: kubernetes client not configured'' 500, h)
      else if img = [] then Some (ErrorResponse ''pod_script_run_enricher: image is required'' 400, h)
      else if command = [] then Some (ErrorResponse ''pod_script_run_enricher: command is required'' 400, h)
      else if given = [] then run_script r env params ns (''nb-pod-'' @ pe_uuid env h) img command secret (DrawUUID # h)
      else run_script r env params ns given img command secret h)"

section \<open>The file block\<close>

text \<open>What the interface reads back from a file block, dropping two characters in front and one behind, is the file.\<close>

lemma FileBlock_roundtrip:
  "b64_decode (butlast (drop 2 (as_str (mget (FileBlock filename contents) ''data'')))) = Some contents"
  using basicAuth_roundtrip[of contents] by (simp add: FileBlock_def mget_def as_str_def basicAuth_def butlast_append)

section \<open>Every run ends and cleans up\<close>

text \<open>Requests that create and remove nothing.\<close>

fun quiet :: "pcall \<Rightarrow> bool" where
  "quiet (MakeConfigMap _ _ _) = False"
| "quiet (MakePod _) = False"
| "quiet (RemovePod _ _) = False"
| "quiet (RemoveConfigMap _ _) = False"
| "quiet (ReadPod _ _) = True"
| "quiet (ReadLogs _ _) = True"
| "quiet ReadClock = True"
| "quiet ReadCtx = True"
| "quiet (Pause _) = True"
| "quiet DrawUUID = True"

fun paused :: "plog \<Rightarrow> int" where
  "paused [] = 0"
| "paused (Pause d # h) = d + paused h"
| "paused (_ # h) = paused h"

text \<open>The clock does not run slower than the process pauses.\<close>

definition clock_runs :: "pod_env \<Rightarrow> bool" where
  "clock_runs env \<longleftrightarrow> (\<forall>h. paused h \<le> pe_now env h)"

definition quietly :: "plog \<Rightarrow> plog \<Rightarrow> bool" where
  "quietly h h' \<longleftrightarrow> (\<exists>new. h' = new @ h \<and> list_all quiet new)"

lemma quietly_refl [simp]: "quietly h h"
  by (simp add: quietly_def)

lemma quietly_Cons: "quietly h h' \<Longrightarrow> quiet c \<Longrightarrow> quietly h (c # h')"
  by (auto simp: quietly_def)

lemma quietly_trans: "quietly h h' \<Longrightarrow> quietly h' h'' \<Longrightarrow> quietly h h''"
  by (auto simp: quietly_def)

lemma wait_pause_log:
  assumes "clock_runs env" "wait_pause env ns name timeout poll deadline h = (x, h')"
  shows "quietly h h'" "x = None \<Longrightarrow> paused h \<le> deadline \<and> paused h' = paused h + poll"
proof -
  have "paused h \<le> pe_now env h" using assms(1) by (simp add: clock_runs_def)
  then show "quietly h h'" "x = None \<Longrightarrow> paused h \<le> deadline \<and> paused h' = paused h + poll"
    using assms(2) by (auto simp: wait_pause_def intro!: quietly_Cons split: if_splits option.splits)
qed

lemma wait_round_log:
  assumes "clock_runs env" "wait_round env ns name timeout poll deadline h = (x, h')"
  shows "quietly h h'" "x = None \<Longrightarrow> paused h \<le> deadline \<and> paused h' = paused h + poll"
proof -
  let ?h2 = "ReadPod ns name # ReadCtx # h"
  have q: "quietly h ?h2" by (intro quietly_Cons) simp_all
  have "wait_pause env ns name timeout poll deadline ?h2 = (x, h') \<or> (x \<noteq> None \<and> quietly h h')"
    using assms(2) by (auto simp: wait_round_def readPodLogs_def Let_def intro!: quietly_Cons split: option.splits sum.splits if_splits)
  then show "quietly h h'" "x = None \<Longrightarrow> paused h \<le> deadline \<and> paused h' = paused h + poll"
    using wait_pause_log[OF assms(1), of ns name timeout poll deadline ?h2 x h'] quietly_trans[OF q] by auto
qed

lemma wait_loop_ends:
  assumes "clock_runs env" "0 < poll"
  shows "\<exists>res h'. wait_loop env ns name timeout poll deadline h = Some (res, h') \<and> quietly h h'"
proof (induction "nat (deadline + 1 - paused h)" arbitrary: h rule: less_induct)
  case less
  obtain x h1 where round: "wait_round env ns name timeout poll deadline h = (x, h1)" by (cases "wait_round env ns name timeout poll deadline h")
  note log = wait_round_log[OF assms(1) round]
  show ?case
  proof (cases x)
    case None
    then have "nat (deadline + 1 - paused h1) < nat (deadline + 1 - paused h)" using log(2) assms(2) by auto
    from less[OF this] obtain res h' where "wait_loop env ns name timeout poll deadline h1 = Some (res, h')" "quietly h1 h'" by blast
    with None round quietly_trans[OF log(1)] show ?thesis by (subst wait_loop.simps) auto
  next
    case (Some res)
    with round log(1) show ?thesis by (subst wait_loop.simps) auto
  qed
qed

lemma waitAndReadLogs_ends:
  assumes "clock_runs env"
  shows "\<exists>res h'. waitAndReadLogs r env ns name timeout h = Some (res, h') \<and> quietly h h'"
proof -
  have "0 < poll_interval r" by (simp add: poll_interval_def)
  from wait_loop_ends[OF assms this] obtain res h'
    where "waitAndReadLogs r env ns name timeout h = Some (res, h')" "quietly (ReadClock # h) h'"
    unfolding waitAndReadLogs_def Let_def by blast
  moreover have "quietly h (ReadClock # h)" by (simp add: quietly_Cons)
  ultimately show ?thesis using quietly_trans by blast
qed

text \<open>What a run may do to the cluster, as the entries \<open>new\<close> on top of \<open>h\<close>: each object it was told exists is removed
  later, and it removes no pod but its own.\<close>

definition cleaned_up :: "pod_env \<Rightarrow> plog \<Rightarrow> plog \<Rightarrow> bool" where
  "cleaned_up env h new \<longleftrightarrow>
     (\<forall>newer ns cm d older. new = newer @ MakeConfigMap ns cm d # older \<and> pe_makeConfigMap env (older @ h) = None \<longrightarrow> RemoveConfigMap ns cm \<in> set newer) \<and>
     (\<forall>newer p older. new = newer @ MakePod p # older \<and> pe_makePod env (older @ h) = None \<longrightarrow> RemovePod (sp_Namespace p) (sp_Name p) \<in> set newer) \<and>
     (\<forall>newer ns n older. new = newer @ RemovePod ns n # older \<longrightarrow>
        (\<exists>mid p rest. older = mid @ MakePod p # rest \<and> sp_Namespace p = ns \<and> sp_Name p = n \<and> pe_makePod env (rest @ h) = None))"

lemma cleaned_up_quiet: "list_all quiet new \<Longrightarrow> cleaned_up env h new"
  by (auto simp: cleaned_up_def)

text \<open>The split of a log at one entry: it is the first, or it is in the rest.\<close>

lemma split_Cons: "c # xs = newer @ x # older \<longleftrightarrow> (newer = [] \<and> c = x \<and> xs = older) \<or> (\<exists>n. newer = c # n \<and> xs = n @ x # older)"
  by (cases newer) auto

lemma split_quiet:
  assumes "list_all quiet w" "\<not> quiet x"
  shows "w @ xs = newer @ x # older \<longleftrightarrow> (\<exists>n. newer = w @ n \<and> xs = n @ x # older)"
  using assms
proof (induction w arbitrary: newer)
  case (Cons c w)
  then show ?case by (cases newer) auto
qed simp

lemma cleaned_up_refused:
  assumes "list_all quiet draws"
  shows "pe_makeConfigMap env (draws @ h) \<noteq> None \<Longrightarrow> cleaned_up env h (MakeConfigMap ns cm d # draws)"
    and "pe_makePod env (MakeConfigMap ns cm d # draws @ h) \<noteq> None \<Longrightarrow>
      cleaned_up env h (RemoveConfigMap ns cm # MakePod p # MakeConfigMap ns cm d # draws)"
  using split_quiet[OF assms, of _ "[]"] by (auto simp: cleaned_up_def split_Cons)

lemma cleaned_up_done:
  assumes "list_all quiet w" "list_all quiet draws" "pe_makePod env (MakeConfigMap ns cm d # draws @ h) = None" "sp_Namespace p = ns" "sp_Name p = n"
  shows "cleaned_up env h (RemoveConfigMap ns cm # RemovePod ns n # w @ MakePod p # MakeConfigMap ns cm d # draws)"
  using split_quiet[OF assms(2), of _ "[]"] split_quiet[OF assms(1)] assms(3-5) by (auto simp: cleaned_up_def split_Cons)

lemma run_script_ends:
  assumes "clock_runs env" "list_all quiet draws"
  shows "\<exists>resp new. run_script r env params ns podName img command secret (draws @ h) = Some (resp, new @ h) \<and> cleaned_up env h new"
proof -
  let ?cm = "''nb-script-'' @ shortUUID (pe_uuid env (draws @ h))" and ?d = "[(''script'', b64_encode command)]"
  let ?p = "buildPod r ns podName img ?cm secret (decodeStringMap (mget params ''env_variables''))"
  let ?h1 = "MakeConfigMap ns ?cm ?d # DrawUUID # draws @ h"
  have q: "list_all quiet (DrawUUID # draws)" using assms(2) by simp
  consider "pe_makeConfigMap env (DrawUUID # draws @ h) \<noteq> None"
    | "pe_makeConfigMap env (DrawUUID # draws @ h) = None" "pe_makePod env ?h1 \<noteq> None"
    | "pe_makeConfigMap env (DrawUUID # draws @ h) = None" "pe_makePod env ?h1 = None" by blast
  then show ?thesis
  proof cases
    case 1
    then show ?thesis using cleaned_up_refused(1)[OF q, of env h ns ?cm ?d] by (auto simp: run_script_def Let_def)
  next
    case 2
    then show ?thesis using cleaned_up_refused(2)[OF q, of env ns ?cm ?d h ?p] by (auto simp: run_script_def Let_def)
  next
    case 3
    obtain res w where "waitAndReadLogs r env ns podName (wrap64 (wait_minutes (mget params ''wait_threshold'') * minute)) (MakePod ?p # ?h1) =
        Some (res, w @ MakePod ?p # ?h1)" "list_all quiet w"
      using waitAndReadLogs_ends[OF assms(1)] unfolding quietly_def by blast
    with 3 cleaned_up_done[OF this(2) q, of env ns ?cm ?d h ?p podName] show ?thesis
      by (auto simp: run_script_def Let_def buildPod_def split: sum.splits)
  qed
qed

text \<open>C18: running a script ends, and leaves nothing behind: each object it created is removed again, and a pod of the same
  name that was there before is not touched.\<close>

theorem script_ends_clean:
  assumes "clock_runs env"
  shows "\<exists>resp new. Handle_script r env params h = Some (resp, new @ h) \<and>
     (\<forall>newer ns cm d older. new = newer @ MakeConfigMap ns cm d # older \<and> pe_makeConfigMap env (older @ h) = None \<longrightarrow> RemoveConfigMap ns cm \<in> set newer) \<and>
     (\<forall>newer p older. new = newer @ MakePod p # older \<and> pe_makePod env (older @ h) = None \<longrightarrow> RemovePod (sp_Namespace p) (sp_Name p) \<in> set newer) \<and>
     (\<forall>newer ns n older. new = newer @ RemovePod ns n # older \<longrightarrow>
        (\<exists>mid p rest. older = mid @ MakePod p # rest \<and> sp_Namespace p = ns \<and> sp_Name p = n \<and> pe_makePod env (rest @ h) = None))"
proof -
  have "\<exists>resp new. Handle_script r env params h = Some (resp, new @ h) \<and> cleaned_up env h new"
    using run_script_ends[OF assms, of "[]"] run_script_ends[OF assms, of "[DrawUUID]"] cleaned_up_quiet[of "[]" env h]
    by (simp add: Handle_script_def Let_def split: prod.splits)
  then show ?thesis by (simp only: cleaned_up_def)
qed

definition sample_pod_env :: pod_env where
  "sample_pod_env = \<lparr>pe_makeConfigMap = (\<lambda>_. None), pe_makePod = (\<lambda>_. None), pe_pod = (\<lambda>h. if paused h < 10 * second
       then Inr \<lparr>pt_Phase = ''Pending'', pt_Statuses = [], pt_InitStatuses = []\<rparr> else Inr \<lparr>pt_Phase = ''Succeeded'', pt_Statuses = [], pt_InitStatuses = []\<rparr>),
     pe_logs = (\<lambda>_. Inr [''ok'']), pe_now = paused, pe_ctx = (\<lambda>_. None), pe_pause = (\<lambda>_. None), pe_uuid = (\<lambda>_. ''0b-1'')\<rparr>"

theorem script_ends_clean_witness:
  "\<exists>resp new. Handle_script (New_runner True ''agent'' ''sa'' ''acc'') sample_pod_env [(''image'', VStr ''alpine''), (''command'', VStr ''date'')] [] = Some (resp, new @ []) \<and>
     (\<forall>newer p older. new = newer @ MakePod p # older \<and> pe_makePod sample_pod_env (older @ []) = None \<longrightarrow> RemovePod (sp_Namespace p) (sp_Name p) \<in> set newer)"
proof -
  have "clock_runs sample_pod_env" by (simp add: clock_runs_def sample_pod_env_def)
  from script_ends_clean[OF this, of "New_runner True ''agent'' ''sa'' ''acc''" "[(''image'', VStr ''alpine''), (''command'', VStr ''date'')]" "[]"] show ?thesis by blast
qed

end
