(* ===== verification/KubeRead.thy ===== *)
theory KubeRead
  imports PodRunner Snake Mutate
begin

text \<open>
  The read actions of \<open>pkg/kube\<close>: \<open>dynamic.go\<close>, \<open>kind_resolver.go\<close> and \<open>handlers.go\<close>. The API server lists the objects of a
  resource with a namespace (empty for all) and two selectors, or fails; YAML marshalling is a parameter. The theory proves that a
  read returns exactly the objects that were asked for, whichever way the request is scoped, and
  that the table of kinds agrees with the one of the mutations.
\<close>

section \<open>Kinds\<close>

definition mk_gvr :: "string \<Rightarrow> string \<Rightarrow> string \<Rightarrow> gvr" where
  "mk_gvr g v r = \<lparr>gv_Group = g, gv_Version = v, gv_Resource = r\<rparr>"

definition kindToGVR :: "(string, gvr) gomap" where
  "kindToGVR =
     [(''pod'', mk_gvr [] ''v1'' ''pods''),
      (''service'', mk_gvr [] ''v1'' ''services''),
      (''configmap'', mk_gvr [] ''v1'' ''configmaps''),
      (''secret'', mk_gvr [] ''v1'' ''secrets''),
      (''persistentvolumeclaim'', mk_gvr [] ''v1'' ''persistentvolumeclaims''),
      (''persistentvolume'', mk_gvr [] ''v1'' ''persistentvolumes''),
      (''node'', mk_gvr [] ''v1'' ''nodes''),
      (''namespace'', mk_gvr [] ''v1'' ''namespaces''),
      (''serviceaccount'', mk_gvr [] ''v1'' ''serviceaccounts''),
      (''endpoints'', mk_gvr [] ''v1'' ''endpoints''),
      (''event'', mk_gvr [] ''v1'' ''events''),
      (''replicationcontroller'', mk_gvr [] ''v1'' ''replicationcontrollers''),
      (''limitrange'', mk_gvr [] ''v1'' ''limitranges''),
      (''resourcequota'', mk_gvr [] ''v1'' ''resourcequotas''),
      (''deployment'', mk_gvr ''apps'' ''v1'' ''deployments''),
      (''daemonset'', mk_gvr ''apps'' ''v1'' ''daemonsets''),
      (''statefulset'', mk_gvr ''apps'' ''v1'' ''statefulsets''),
      (''replicaset'', mk_gvr ''apps'' ''v1'' ''replicasets''),
      (''job'', mk_gvr ''batch'' ''v1'' ''jobs''),
      (''cronjob'', mk_gvr ''batch'' ''v1'' ''cronjobs''),
      (''ingress'', mk_gvr ''networking.k8s.io'' ''v1'' ''ingresses''),
      (''ingressclass'', mk_gvr ''networking.k8s.io'' ''v1'' ''ingressclasses''),
      (''networkpolicy'', mk_gvr ''networking.k8s.io'' ''v1'' ''networkpolicies''),
      (''horizontalpodautoscaler'', mk_gvr ''autoscaling'' ''v2'' ''horizontalpodautoscalers''),
      (''poddisruptionbudget'', mk_gvr ''policy'' ''v1'' ''poddisruptionbudgets''),
      (''role'', mk_gvr ''rbac.authorization.k8s.io'' ''v1'' ''roles''),
      (''rolebinding'', mk_gvr ''rbac.authorization.k8s.io'' ''v1'' ''rolebindings''),
      (''clusterrole'', mk_gvr ''rbac.authorization.k8s.io'' ''v1'' ''clusterroles''),
      (''clusterrolebinding'', mk_gvr ''rbac.authorization.k8s.io'' ''v1'' ''clusterrolebindings''),
      (''storageclass'', mk_gvr ''storage.k8s.io'' ''v1'' ''storageclasses''),
      (''rollout'', mk_gvr ''argoproj.io'' ''v1alpha1'' ''rollouts''),
      (''nodepool'', mk_gvr ''karpenter.sh'' ''v1'' ''nodepools''),
      (''ec2nodeclass'', mk_gvr ''karpenter.k8s.aws'' ''v1'' ''ec2nodeclasses'')]"

definition resolveKind :: "string \<Rightarrow> gvr option" where
  "resolveKind kind = map_of kindToGVR (to_lower (trim_space kind))"

section \<open>Parameters\<close>

record get_params =
  gp_Group :: string
  gp_Version :: string
  gp_ResourceType :: string
  gp_Namespace :: string
  gp_Namespaces :: "string list"
  gp_Name :: string
  gp_Names :: "string list"
  gp_LabelSelector :: string
  gp_FieldSelector :: string
  gp_AllNamespaces :: bool

definition strParam :: "gmap \<Rightarrow> string \<Rightarrow> string" where
  "strParam m k = as_str (mget m k)"

definition boolParam :: "gmap \<Rightarrow> string \<Rightarrow> bool" where
  "boolParam m k = as_bool (mget m k)"

definition non_blank :: "string list \<Rightarrow> string list" where
  "non_blank xs = filter (\<lambda>s. s \<noteq> []) (map trim_space xs)"

definition strListParam :: "gmap \<Rightarrow> string \<Rightarrow> string list" where
  "strListParam m k = (case mget m k of
     VStr s \<Rightarrow> non_blank [s]
   | VArr xs \<Rightarrow> non_blank (List.map_filter (\<lambda>x. case x of VStr s \<Rightarrow> Some s | _ \<Rightarrow> None) xs)
   | _ \<Rightarrow> [])"

definition single :: "string list \<Rightarrow> string" where
  "single values = (case values of [v] \<Rightarrow> v | _ \<Rightarrow> [])"

definition ParseGetParams :: "gmap \<Rightarrow> get_params" where
  "ParseGetParams p =
     (let namespaces = strListParam p ''namespace''; names = strListParam p ''name'';
          gp = \<lparr>gp_Group = strParam p ''group'', gp_Version = strParam p ''version'', gp_ResourceType = strParam p ''resource_type'',
            gp_Namespace = single namespaces, gp_Namespaces = namespaces, gp_Name = single names, gp_Names = names,
            gp_LabelSelector = strParam p ''label_selector'', gp_FieldSelector = strParam p ''field_selector'', gp_AllNamespaces = boolParam p ''all_namespaces''\<rparr>
      in if gp_ResourceType gp \<noteq> [] then gp
         else (case resolveKind (strParam p ''kind'') of
           None \<Rightarrow> gp
         | Some g \<Rightarrow> gp\<lparr>gp_ResourceType := gv_Resource g, gp_Group := (if gp_Group gp = [] then gv_Group g else gp_Group gp),
             gp_Version := (if gp_Version gp = [] then gv_Version g else gp_Version gp)\<rparr>))"

definition splitCSV :: "string \<Rightarrow> string list" where
  "splitCSV s = non_blank (split1 CHR '','' s)"

section \<open>Reads\<close>

record kube_obj =
  ko_Name :: string
  ko_Namespace :: string
  ko_Content :: gval

text \<open>A listing: resource, namespace, label selector, field selector.\<close>

type_synonym list_api = "gvr \<Rightarrow> string \<Rightarrow> string \<Rightarrow> string \<Rightarrow> api_err + kube_obj list"

definition list_scope :: "get_params \<Rightarrow> string" where
  "list_scope p = (if gp_Namespace p \<noteq> [] \<and> \<not> gp_AllNamespaces p then gp_Namespace p else [])"

definition wanted :: "get_params \<Rightarrow> kube_obj \<Rightarrow> bool" where
  "wanted p item \<longleftrightarrow> \<not> (0 < length (gp_Names p) \<and> ko_Name item \<notin> set (gp_Names p)) \<and>
     \<not> (0 < length (gp_Namespaces p) \<and> ko_Namespace item \<noteq> [] \<and> ko_Namespace item \<notin> set (gp_Namespaces p))"

definition listOne :: "list_api \<Rightarrow> gvr \<Rightarrow> get_params \<Rightarrow> string + gval list" where
  "listOne api g p =
     (let listing = (\<lambda>scope. api g scope (gp_LabelSelector p) (gp_FieldSelector p));
          answer = (case listing (list_scope p) of
            Inl e \<Rightarrow> if gp_Namespace p \<noteq> [] \<and> is_not_found e then listing (list_scope (p\<lparr>gp_Namespace := []\<rparr>)) else Inl e
          | Inr items \<Rightarrow> Inr items)
      in case answer of
        Inl e \<Rightarrow> Inl (''list '' @ gv_Resource g @ '': '' @ err_text e)
      | Inr items \<Rightarrow> Inr (map ko_Content (filter (wanted p) items)))"

fun list_types :: "list_api \<Rightarrow> get_params \<Rightarrow> bool \<Rightarrow> string list \<Rightarrow> string + gval list" where
  "list_types api p alone [] = Inr []"
| "list_types api p alone (t # types) = (case listOne api (mk_gvr (gp_Group p) (gp_Version p) t) p of
     Inl e \<Rightarrow> if alone then Inl e else list_types api p alone types
   | Inr items \<Rightarrow> map_sum id (\<lambda>rest. items @ rest) (list_types api p alone types))"

definition GetResource :: "list_api option \<Rightarrow> get_params \<Rightarrow> string + gval list" where
  "GetResource client p = (case client of
     None \<Rightarrow> Inl ''kube: dynamic client not configured''
   | Some api \<Rightarrow>
       if gp_Version p = [] \<or> gp_ResourceType p = [] then Inl ''kube: version and resource_type are required''
       else list_types api p (length (splitCSV (gp_ResourceType p)) = 1) (splitCSV (gp_ResourceType p)))"

definition GetResourceYAML :: "(gval \<Rightarrow> string + string) \<Rightarrow> list_api option \<Rightarrow> get_params \<Rightarrow> string + string" where
  "GetResourceYAML yaml client p = (case GetResource client p of Inl e \<Rightarrow> Inl e | Inr items \<Rightarrow> yaml (VArr items))"

definition ListResourceNames :: "list_api option \<Rightarrow> get_params \<Rightarrow> string + gval" where
  "ListResourceNames client p = (case client of
     None \<Rightarrow> Inl ''kube: dynamic client not configured''
   | Some api \<Rightarrow>
       if gp_Version p = [] \<or> gp_ResourceType p = [] then Inl ''kube: version and resource_type are required''
       else (case api (mk_gvr (gp_Group p) (gp_Version p) (gp_ResourceType p)) (list_scope p) [] [] of
         Inl e \<Rightarrow> Inl (err_text e)
       | Inr items \<Rightarrow> Inr (VArr (map (\<lambda>o'. VObj ([(''name'', VStr (ko_Name o'))] @
           (if ko_Namespace o' = [] then [] else [(''namespace'', VStr (ko_Namespace o'))]))) items))))"

section \<open>Actions\<close>

definition wrapAsFinding :: "string \<Rightarrow> string \<Rightarrow> gval \<Rightarrow> string + gmap" where
  "wrapAsFinding fresh accountID payload = (case JSONBlock payload of
     None \<Rightarrow> Inl ''json''
   | Some block \<Rightarrow> (case FindingResponse fresh accountID None [block] of None \<Rightarrow> Inl ''json'' | Some r \<Rightarrow> Inr r))"

definition handle_get_resource :: "string \<Rightarrow> string \<Rightarrow> list_api option \<Rightarrow> gmap \<Rightarrow> string + gmap" where
  "handle_get_resource fresh accountID client p = (case GetResource client (ParseGetParams p) of
     Inl e \<Rightarrow> Inl e
   | Inr data \<Rightarrow> wrapAsFinding fresh accountID (SnakeKeysDeep (VArr data)))"

definition handle_get_resource_yaml :: "(gval \<Rightarrow> string + string) \<Rightarrow> string \<Rightarrow> string \<Rightarrow> list_api option \<Rightarrow> gmap \<Rightarrow> string + gmap" where
  "handle_get_resource_yaml yaml fresh accountID client p =
     (let params = ParseGetParams p; shown = (if gp_Name params = [] then gp_ResourceType params else gp_Name params) in
      case GetResource client params of
        Inl e \<Rightarrow> Inl e
      | Inr data \<Rightarrow> (case yaml (SnakeKeysDeep (VArr data)) of
          Inl e \<Rightarrow> Inl e
        | Inr y \<Rightarrow> (case FindingResponse fresh accountID None
              [MarkdownBlock (''Your YAML file for '' @ gp_ResourceType params @ '' '' @ gp_Namespace params @ ''/'' @ shown), FileBlock (shown @ ''.yaml'') y] of
            None \<Rightarrow> Inl ''json'' | Some r \<Rightarrow> Inr r)))"

definition handle_list_resource_names :: "string \<Rightarrow> string \<Rightarrow> list_api option \<Rightarrow> gmap \<Rightarrow> string + gmap" where
  "handle_list_resource_names fresh accountID client p = (case ListResourceNames client (ParseGetParams p) of
     Inl e \<Rightarrow> Inl e
   | Inr data \<Rightarrow> wrapAsFinding fresh accountID data)"

section \<open>A read returns what was asked for\<close>

text \<open>How an API server lists a cluster: \<open>objs\<close> are the objects of a resource that two selectors pick and \<open>scoped\<close> says which
  resources live in namespaces. A cluster-scoped resource asked for in a namespace is not found.\<close>

definition serves :: "list_api \<Rightarrow> (gvr \<Rightarrow> string \<Rightarrow> string \<Rightarrow> kube_obj list) \<Rightarrow> (gvr \<Rightarrow> bool) \<Rightarrow> bool" where
  "serves api objs scoped \<longleftrightarrow> (\<forall>g l f. api g [] l f = Inr (objs g l f) \<and> list_all (\<lambda>o'. (ko_Namespace o' \<noteq> []) = scoped g) (objs g l f) \<and>
     (\<forall>ns. ns \<noteq> [] \<longrightarrow> (if scoped g then api g ns l f = Inr (filter (\<lambda>o'. ko_Namespace o' = ns) (objs g l f))
       else (\<exists>e. api g ns l f = Inl (NotFoundErr e)))))"

lemma single_props: "single xs \<noteq> [] \<Longrightarrow> xs = [single xs]"
  by (auto simp: single_def split: list.splits)

lemma ParseGetParams_scope: "gp_Namespace (ParseGetParams p) = single (gp_Namespaces (ParseGetParams p))"
  by (auto simp: ParseGetParams_def Let_def split: option.splits)

lemma listOne_exact:
  assumes "serves api objs scoped" "gp_Namespace p = single (gp_Namespaces p)"
  shows "listOne api g p = Inr (map ko_Content (filter (wanted p) (objs g (gp_LabelSelector p) (gp_FieldSelector p))))"
proof -
  let ?l = "gp_LabelSelector p" and ?f = "gp_FieldSelector p" and ?ns = "gp_Namespace p"
  have all: "api g [] ?l ?f = Inr (objs g ?l ?f)" using assms(1) by (simp add: serves_def)
  show ?thesis
  proof (cases "list_scope p = []")
    case True
    with all show ?thesis by (simp add: listOne_def)
  next
    case False
    then have ns: "list_scope p = ?ns" "?ns \<noteq> []" by (auto simp: list_scope_def split: if_splits)
    then have one: "gp_Namespaces p = [?ns]" using single_props assms(2) by metis
    show ?thesis
    proof (cases "scoped g")
      case True
      have "filter (wanted p) (filter (\<lambda>o'. ko_Namespace o' = ?ns) (objs g ?l ?f)) = filter (wanted p) (objs g ?l ?f)"
        unfolding filter_filter
      proof (rule filter_cong[OF refl])
        fix o' assume "o' \<in> set (objs g ?l ?f)"
        then have "ko_Namespace o' \<noteq> []" using assms(1) True by (auto simp: serves_def list_all_iff)
        then show "(ko_Namespace o' = ?ns \<and> wanted p o') = wanted p o'" using one by (auto simp: wanted_def)
      qed
      moreover have "api g ?ns ?l ?f = Inr (filter (\<lambda>o'. ko_Namespace o' = ?ns) (objs g ?l ?f))" using assms(1) True ns(2) by (simp add: serves_def)
      ultimately show ?thesis by (simp add: listOne_def ns(1))
    next
      case False
      then obtain e where "api g ?ns ?l ?f = Inl (NotFoundErr e)" using assms(1) ns(2) unfolding serves_def by metis
      with all show ?thesis by (simp add: listOne_def ns list_scope_def[of "p\<lparr>gp_Namespace := []\<rparr>"])
    qed
  qed
qed


definition sample_objs :: "gvr \<Rightarrow> string \<Rightarrow> string \<Rightarrow> kube_obj list" where
  "sample_objs g l f = (if gv_Resource g = ''pods''
     then [\<lparr>ko_Name = ''web'', ko_Namespace = ''shop'', ko_Content = VInt 1\<rparr>, \<lparr>ko_Name = ''web'', ko_Namespace = ''demo'', ko_Content = VInt 2\<rparr>] else [])"

definition sample_list_api :: list_api where
  "sample_list_api g ns l f = (if ns = [] then Inr (sample_objs g l f) else Inr (filter (\<lambda>o'. ko_Namespace o' = ns) (sample_objs g l f)))"


text \<open>The kinds that can be changed by kind can be read by kind, under the same resource.\<close>

lemma kinds_in_sync: "list_all (\<lambda>k. resolveKind (fst k) = Some (wk_gvr (snd k))) supportedWorkloadKinds"
  by code_simp

end
