(* ===== verification/AlertRules.thy ===== *)
theory AlertRules
  imports Mutate
begin

text \<open>
  \<open>pkg/mutate/alertrules.go\<close>, \<open>promruleselector.go\<close>, \<open>silence.go\<close>, \<open>lokirules.go\<close> and their handlers: alert rules inside
  PrometheusRule objects that several writers share, and the proxied requests to AlertManager and Loki. An object is seen through
  the accessors of the Kubernetes library: what \<open>NestedSlice\<close> finds under \<open>spec.groups\<close>, whether \<open>SetNestedSlice\<close> can put it
  back, the labels, and the rest. The theory proves that a rule write is atomic however
  other writers interfere and leaves every other rule alone.
\<close>

section \<open>Objects\<close>

record rule_cr =
  rc_version :: string
  rc_groups :: "gval list"
  rc_settable :: bool
  rc_labels :: "(string, string) gomap"
  rc_rest :: gval

record legacy_params =
  lp_Alert :: string
  lp_Expr :: string
  lp_Duration :: string
  lp_Annotations :: "gmap option"
  lp_Labels :: "gmap option"

record rule_locator =
  rl_Namespace :: string
  rl_Name :: string
  rl_Group :: string
  rl_Alert :: string

definition LegacyAlertRuleCRDName :: string where "LegacyAlertRuleCRDName = ''nudgebee-prometheus.rules''"
definition LegacyAlertRuleGroupName :: string where "LegacyAlertRuleGroupName = ''kubernetes-apps''"
definition LegacyAlertRuleLabelKey :: string where "LegacyAlertRuleLabelKey = ''release.app''"
definition LegacyAlertRuleLabelValue :: string where "LegacyAlertRuleLabelValue = ''nudgebee-resource-management''"

section \<open>Rules in groups\<close>

definition named :: "string \<Rightarrow> gval \<Rightarrow> bool" where
  "named alert v \<longleftrightarrow> (case v of VObj r \<Rightarrow> as_str (mget r ''alert'') = alert | _ \<Rightarrow> False)"

definition rules_in :: "gmap \<Rightarrow> gval list" where
  "rules_in g = as_arr (mget g ''rules'')"

definition with_rules :: "gmap \<Rightarrow> gval list \<Rightarrow> gval" where
  "with_rules g rules = VObj (map_put ''rules'' (VArr rules) g)"

fun replace_first :: "string \<Rightarrow> gval \<Rightarrow> gval list \<Rightarrow> gval list option" where
  "replace_first alert rule [] = None"
| "replace_first alert rule (r # rules) =
     (if named alert r then Some (rule # rules) else map_option ((#) r) (replace_first alert rule rules))"

text \<open>\<open>None\<close> when no rule has the name.\<close>

fun replaceLegacyRuleInPlace :: "gval list \<Rightarrow> string \<Rightarrow> gval \<Rightarrow> gval list option" where
  "replaceLegacyRuleInPlace [] alert rule = None"
| "replaceLegacyRuleInPlace (g # groups) alert rule =
     (let rest = map_option ((#) g) (replaceLegacyRuleInPlace groups alert rule) in
      case g of
        VObj m \<Rightarrow> (case replace_first alert rule (rules_in m) of Some rules \<Rightarrow> Some (with_rules m rules # groups) | None \<Rightarrow> rest)
      | _ \<Rightarrow> rest)"

definition legacy_rule :: "legacy_params \<Rightarrow> gval" where
  "legacy_rule p = VObj ([(''alert'', VStr (lp_Alert p)), (''expr'', VStr (lp_Expr p)),
     (''annotations'', (case lp_Annotations p of None \<Rightarrow> VNil | Some a \<Rightarrow> VObj a)), (''labels'', (case lp_Labels p of None \<Rightarrow> VNil | Some l \<Rightarrow> VObj l))] @
     (if lp_Duration p = [] then [] else [(''for'', VStr (lp_Duration p))]))"

definition new_group :: "string \<Rightarrow> gval list \<Rightarrow> gval" where
  "new_group name rules = VObj [(''name'', VStr name), (''rules'', VArr rules)]"

definition legacy_groups :: "gval list \<Rightarrow> string \<Rightarrow> gval \<Rightarrow> gval list" where
  "legacy_groups groups alert rule = (case groups of
     [] \<Rightarrow> [new_group LegacyAlertRuleGroupName [rule]]
   | g # gs \<Rightarrow> (case replaceLegacyRuleInPlace groups alert rule of
       Some groups' \<Rightarrow> groups'
     | None \<Rightarrow> (let first = (case g of VObj m \<Rightarrow> m | _ \<Rightarrow> [(''name'', VStr LegacyAlertRuleGroupName)]) in
         with_rules first (rules_in first @ [rule]) # gs)))"

definition delete_in_group :: "string \<Rightarrow> gval \<Rightarrow> gval" where
  "delete_in_group alert g = (case g of VObj m \<Rightarrow> with_rules m (filter (\<lambda>r. \<not> named alert r) (rules_in m)) | _ \<Rightarrow> g)"

definition group_rules :: "gval \<Rightarrow> gval list" where
  "group_rules g = (case g of VObj m \<Rightarrow> rules_in m | _ \<Rightarrow> [])"

definition all_rules :: "gval list \<Rightarrow> gval list" where
  "all_rules groups = concat (map group_rules groups)"

text \<open>Positions of the rules a locator matches, and the group it appends to.\<close>

definition in_group :: "rule_locator \<Rightarrow> gmap \<Rightarrow> bool" where
  "in_group loc g \<longleftrightarrow> rl_Group loc = [] \<or> as_str (mget g ''name'') = rl_Group loc"

definition findLocatedRules :: "gval list \<Rightarrow> rule_locator \<Rightarrow> (nat \<times> nat) list" where
  "findLocatedRules groups loc = concat (map (\<lambda>(gi, raw). case raw of
     VObj g \<Rightarrow> if in_group loc g then map (\<lambda>(ri, r). (gi, ri)) (filter (\<lambda>(ri, r). named (rl_Alert loc) r) (enumerate 0 (rules_in g))) else []
   | _ \<Rightarrow> []) (enumerate 0 groups))"

fun appendRuleToGroup :: "gval list \<Rightarrow> string \<Rightarrow> gval \<Rightarrow> gval list" where
  "appendRuleToGroup [] name rule = [new_group name [rule]]"
| "appendRuleToGroup (g # groups) name rule = (case g of
     VObj m \<Rightarrow> if as_str (mget m ''name'') = name then with_rules m (rules_in m @ [rule]) # groups else g # appendRuleToGroup groups name rule
   | _ \<Rightarrow> g # appendRuleToGroup groups name rule)"

definition restored_rule :: "rule_locator \<Rightarrow> legacy_params \<Rightarrow> gval" where
  "restored_rule loc p = VObj ([(''alert'', VStr (rl_Alert loc)), (''expr'', VStr (lp_Expr p))] @
     (if lp_Duration p = [] then [] else [(''for'', VStr (lp_Duration p))]) @
     (case lp_Annotations p of Some a \<Rightarrow> if a = [] then [] else [(''annotations'', VObj a)] | None \<Rightarrow> []) @
     (case lp_Labels p of Some l \<Rightarrow> if l = [] then [] else [(''labels'', VObj l)] | None \<Rightarrow> []))"

definition patched_rule :: "legacy_params \<Rightarrow> gval \<Rightarrow> gval" where
  "patched_rule p v = (case v of
     VObj r \<Rightarrow> (let r' = map_put ''expr'' (VStr (lp_Expr p)) r in VObj (if lp_Duration p = [] then r' else map_put ''for'' (VStr (lp_Duration p)) r'))
   | _ \<Rightarrow> v)"

text \<open>The rules of one group changed.\<close>

definition at_group :: "nat \<Rightarrow> (gval list \<Rightarrow> gval list) \<Rightarrow> gval list \<Rightarrow> gval list" where
  "at_group gi f groups = groups[gi := (case groups ! gi of VObj m \<Rightarrow> with_rules m (f (rules_in m)) | v \<Rightarrow> v)]"

section \<open>Writers\<close>

text \<open>One attempt against the shared object: what the read gives, the state when the write arrives, and an error the write
  may meet on the way.\<close>

datatype cr_read = CrNotFound | CrFailed string | CrFound rule_cr

record cr_round =
  rd_read :: cr_read
  rd_state :: "rule_cr option"
  rd_err :: "string option"

datatype round_result = Stored rule_cr | Unchanged | Conflict | Failed string

text \<open>An update is refused unless it carries the version of the stored object.\<close>

definition cr_create :: "rule_cr \<Rightarrow> cr_round \<Rightarrow> round_result" where
  "cr_create new rd = (case rd_err rd of Some e \<Rightarrow> Failed e | None \<Rightarrow> if rd_state rd = None then Stored new else Conflict)"

definition cr_update :: "rule_cr \<Rightarrow> cr_round \<Rightarrow> round_result" where
  "cr_update new rd = (case rd_err rd of
     Some e \<Rightarrow> Failed e
   | None \<Rightarrow> (case rd_state rd of
       None \<Rightarrow> Failed ''not found''
     | Some cur \<Rightarrow> if rc_version cur = rc_version new then Stored new else Conflict))"

text \<open>\<open>retry.RetryOnConflict\<close> with the number of steps of its backoff: the index of the attempt that ended it and its result.\<close>

fun retry_loop :: "nat \<Rightarrow> nat \<Rightarrow> (cr_round \<Rightarrow> round_result) \<Rightarrow> (nat \<Rightarrow> cr_round) \<Rightarrow> string + (nat \<times> round_result)" where
  "retry_loop 0 k f rounds = Inl ''conflict''"
| "retry_loop (Suc n) k f rounds = (case f (rounds k) of
     Conflict \<Rightarrow> retry_loop n (Suc k) f rounds
   | Failed e \<Rightarrow> Inl e
   | res \<Rightarrow> Inr (k, res))"

definition put_groups :: "gval list \<Rightarrow> rule_cr \<Rightarrow> cr_round \<Rightarrow> round_result" where
  "put_groups groups cr rd = (if rc_settable cr then cr_update (cr\<lparr>rc_groups := groups\<rparr>) rd else Failed ''set groups'')"

definition applySelectorLabels :: "(string, string) gomap \<Rightarrow> (string, string) gomap \<Rightarrow> (string, string) gomap" where
  "applySelectorLabels labels sel = foldl (\<lambda>ls p. if map_of ls (fst p) = None then map_put (fst p) (snd p) ls else ls) labels sel"

definition newLegacyAlertRuleCR :: "string \<Rightarrow> gval list \<Rightarrow> (string, string) gomap \<Rightarrow> rule_cr" where
  "newLegacyAlertRuleCR namespace rules sel =
     \<lparr>rc_version = [], rc_groups = [new_group LegacyAlertRuleGroupName rules], rc_settable = True,
      rc_labels = foldl (\<lambda>ls p. map_put (fst p) (snd p) ls) [(LegacyAlertRuleLabelKey, LegacyAlertRuleLabelValue), (''role'', ''alert-rules'')] sel,
      rc_rest = VObj [(''apiVersion'', VStr ''monitoring.coreos.com/v1''), (''kind'', VStr ''PrometheusRule''),
        (''name'', VStr LegacyAlertRuleCRDName), (''namespace'', VStr namespace)]\<rparr>"

text \<open>The labels a Prometheus selects rules by: of each Prometheus its namespace, name and selector labels.\<close>

definition ruleSelectorLabels :: "string \<Rightarrow> (string \<times> string \<times> (string, string) gomap) list option \<Rightarrow> (string, string) gomap" where
  "ruleSelectorLabels namespace items = (case items of
     None \<Rightarrow> []
   | Some ps \<Rightarrow> (case find (\<lambda>p. snd (snd p) \<noteq> []) (sort_key (\<lambda>p. (if fst p = namespace then 0 else (1 :: nat))) (sort_key fst (sort_key (\<lambda>p. fst (snd p)) ps))) of
       None \<Rightarrow> [] | Some p \<Rightarrow> snd (snd p)))"

record rules_mutator =
  rm_dynamic :: bool
  rm_Namespace :: string

definition legacy_attempt :: "string \<Rightarrow> (string, string) gomap \<Rightarrow> legacy_params \<Rightarrow> cr_round \<Rightarrow> round_result" where
  "legacy_attempt namespace sel p rd = (case rd_read rd of
     CrNotFound \<Rightarrow> cr_create (newLegacyAlertRuleCR namespace [legacy_rule p] sel) rd
   | CrFailed e \<Rightarrow> Failed e
   | CrFound cr \<Rightarrow> put_groups (legacy_groups (rc_groups cr) (lp_Alert p) (legacy_rule p)) (cr\<lparr>rc_labels := applySelectorLabels (rc_labels cr) sel\<rparr>) rd)"

definition CreateOrReplaceAlertRule ::
  "rules_mutator \<Rightarrow> nat \<Rightarrow> (string \<times> string \<times> (string, string) gomap) list option \<Rightarrow> legacy_params \<Rightarrow> (nat \<Rightarrow> cr_round) \<Rightarrow> string + (nat \<times> round_result)" where
  "CreateOrReplaceAlertRule m steps proms p rounds =
     (if \<not> rm_dynamic m then Inl ''mutate: dynamic client not configured''
      else if rm_Namespace m = [] then Inl ''mutate: agent namespace not configured (set INSTALLATION_NAMESPACE)''
      else if lp_Alert p = [] \<or> lp_Expr p = [] then Inl ''mutate: alert and expr required''
      else retry_loop steps 0 (legacy_attempt (rm_Namespace m) (ruleSelectorLabels (rm_Namespace m) proms) p) rounds)"

definition delete_attempt :: "string \<Rightarrow> cr_round \<Rightarrow> round_result" where
  "delete_attempt alert rd = (case rd_read rd of
     CrNotFound \<Rightarrow> Unchanged
   | CrFailed e \<Rightarrow> Failed e
   | CrFound cr \<Rightarrow>
       if \<not> list_ex (named alert) (all_rules (rc_groups cr)) then Unchanged
       else put_groups (map (delete_in_group alert) (rc_groups cr)) cr rd)"

definition DeleteAlertRule :: "rules_mutator \<Rightarrow> nat \<Rightarrow> string \<Rightarrow> (nat \<Rightarrow> cr_round) \<Rightarrow> string + (nat \<times> round_result)" where
  "DeleteAlertRule m steps alert rounds =
     (if \<not> rm_dynamic m then Inl ''mutate: dynamic client not configured''
      else if rm_Namespace m = [] then Inl ''mutate: agent namespace not configured (set INSTALLATION_NAMESPACE)''
      else if alert = [] then Inl ''mutate: alert name required''
      else retry_loop steps 0 (delete_attempt alert) rounds)"

text \<open>The namespace of a located object, or why there is none.\<close>

definition locatedRuleClient :: "rules_mutator \<Rightarrow> rule_locator \<Rightarrow> string + string" where
  "locatedRuleClient m loc =
     (let ns = (if rl_Namespace loc = [] then rm_Namespace m else rl_Namespace loc) in
      if \<not> rm_dynamic m then Inl ''mutate: dynamic client not configured''
      else if rl_Name loc = [] \<or> rl_Alert loc = [] then Inl ''mutate: PrometheusRule name and alert are required''
      else if ns = [] then Inl ''mutate: PrometheusRule namespace required''
      else Inr ns)"

definition patch_attempt :: "rule_locator \<Rightarrow> legacy_params \<Rightarrow> cr_round \<Rightarrow> round_result" where
  "patch_attempt loc p rd = (case rd_read rd of
     CrNotFound \<Rightarrow> Failed ''not found''
   | CrFailed e \<Rightarrow> Failed e
   | CrFound cr \<Rightarrow> (case findLocatedRules (rc_groups cr) loc of
       [] \<Rightarrow>
         if rl_Group loc = []
         then Failed (''mutate: alert rule not found in PrometheusRule: '' @ rl_Alert loc @ ''; a rule group is required to add it back'')
         else put_groups (appendRuleToGroup (rc_groups cr) (rl_Group loc) (restored_rule loc p)) cr rd
     | [(gi, ri)] \<Rightarrow> put_groups (at_group gi (\<lambda>rules. rules[ri := patched_rule p (rules ! ri)]) (rc_groups cr)) cr rd
     | _ \<Rightarrow> Failed (''mutate: more than one rule matches; give the rule group: '' @ rl_Alert loc)))"

definition PatchAlertRuleInCR :: "rules_mutator \<Rightarrow> nat \<Rightarrow> rule_locator \<Rightarrow> legacy_params \<Rightarrow> (nat \<Rightarrow> cr_round) \<Rightarrow> string + (nat \<times> round_result)" where
  "PatchAlertRuleInCR m steps loc p rounds = (case locatedRuleClient m loc of
     Inl e \<Rightarrow> Inl e
   | Inr ns \<Rightarrow> if lp_Expr p = [] then Inl ''mutate: expr required'' else retry_loop steps 0 (patch_attempt loc p) rounds)"

definition remove_attempt :: "rule_locator \<Rightarrow> cr_round \<Rightarrow> round_result" where
  "remove_attempt loc rd = (case rd_read rd of
     CrNotFound \<Rightarrow> Failed ''not found''
   | CrFailed e \<Rightarrow> Failed e
   | CrFound cr \<Rightarrow> (case findLocatedRules (rc_groups cr) loc of
       [] \<Rightarrow> Failed (''mutate: alert rule not found in PrometheusRule: '' @ rl_Alert loc)
     | [(gi, ri)] \<Rightarrow> put_groups (at_group gi (\<lambda>rules. take ri rules @ drop (Suc ri) rules) (rc_groups cr)) cr rd
     | _ \<Rightarrow> Failed (''mutate: more than one rule matches; give the rule group: '' @ rl_Alert loc)))"

definition DeleteAlertRuleInCR :: "rules_mutator \<Rightarrow> nat \<Rightarrow> rule_locator \<Rightarrow> (nat \<Rightarrow> cr_round) \<Rightarrow> string + (nat \<times> round_result)" where
  "DeleteAlertRuleInCR m steps loc rounds = (case locatedRuleClient m loc of
     Inl e \<Rightarrow> Inl e
   | Inr ns \<Rightarrow> retry_loop steps 0 (remove_attempt loc) rounds)"

text \<open>A whole manifest: its name and namespace, and the object.\<close>

record rule_manifest =
  mf_name :: string
  mf_namespace :: string
  mf_object :: rule_cr

definition CreateOrReplacePrometheusRule :: "rules_mutator \<Rightarrow> (gval \<Rightarrow> string + rule_manifest) \<Rightarrow> gval \<Rightarrow> cr_round \<Rightarrow> string + rule_cr" where
  "CreateOrReplacePrometheusRule m decode rule rd =
     (if \<not> rm_dynamic m then Inl ''mutate: dynamic client not configured''
      else (case decode rule of
        Inl e \<Rightarrow> Inl e
      | Inr u \<Rightarrow>
          if mf_name u = [] \<or> mf_namespace u = [] then Inl ''mutate: rule.metadata.name and namespace are required''
          else (case (case rd_read rd of
              CrNotFound \<Rightarrow> cr_create (mf_object u) rd
            | CrFailed e \<Rightarrow> Failed e
            | CrFound existing \<Rightarrow> cr_update ((mf_object u)\<lparr>rc_version := rc_version existing\<rparr>) rd) of
              Stored cr \<Rightarrow> Inr cr | Failed e \<Rightarrow> Inl e | Unchanged \<Rightarrow> Inl [] | Conflict \<Rightarrow> Inl ''conflict'')))"

text \<open>\<open>answer\<close> is how the API server takes the deletion.\<close>

definition DeletePrometheusRule :: "rules_mutator \<Rightarrow> string \<Rightarrow> string \<Rightarrow> (string \<Rightarrow> string \<Rightarrow> bool \<times> string option) \<Rightarrow> string option \<times> (string \<times> string) list" where
  "DeletePrometheusRule m namespace name answer =
     (if \<not> rm_dynamic m then (Some ''mutate: dynamic client not configured'', [])
      else if namespace = [] \<or> name = [] then (Some ''mutate: namespace and name required'', [])
      else (case answer namespace name of (notFound, e) \<Rightarrow> (if notFound then None else e, [(namespace, name)])))"

section \<open>Dispatch\<close>

definition str_param :: "gmap \<Rightarrow> string \<Rightarrow> string" where
  "str_param p k = as_str (mget p k)"

definition alertRuleLocator :: "gmap \<Rightarrow> rule_locator option" where
  "alertRuleLocator p = (if str_param p ''name'' = [] then None
     else Some \<lparr>rl_Namespace = str_param p ''namespace'', rl_Name = str_param p ''name'', rl_Group = str_param p ''group'', rl_Alert = str_param p ''alert''\<rparr>)"

definition isLegacyAlertRulePayload :: "gmap \<Rightarrow> bool" where
  "isLegacyAlertRulePayload p \<longleftrightarrow> \<not> mhas (Some p) ''rule'' \<and> \<not> mhas (Some p) ''apiVersion'' \<and> str_param p ''alert'' \<noteq> []"

definition parseLegacyAlertRuleParams :: "gmap \<Rightarrow> legacy_params" where
  "parseLegacyAlertRuleParams p = \<lparr>lp_Alert = str_param p ''alert'', lp_Expr = str_param p ''expr'', lp_Duration = str_param p ''duration'',
     lp_Annotations = get_map p ''annotations'', lp_Labels = get_map p ''labels''\<rparr>"

text \<open>What a request asks for.\<close>

datatype rule_request =
    PatchInCR rule_locator legacy_params | WriteRule legacy_params | WriteManifest gval
  | DeleteCR string string | RemoveFromCR rule_locator | RemoveRule string | Refused string

definition handleCreateOrReplacePromRule :: "gmap \<Rightarrow> rule_request" where
  "handleCreateOrReplacePromRule p =
     (if isLegacyAlertRulePayload p
      then (case alertRuleLocator p of Some loc \<Rightarrow> PatchInCR loc (parseLegacyAlertRuleParams p) | None \<Rightarrow> WriteRule (parseLegacyAlertRuleParams p))
      else WriteManifest (if mhas (Some p) ''rule'' then mget p ''rule'' else VObj p))"

definition handleDeletePromRule :: "gmap \<Rightarrow> rule_request" where
  "handleDeletePromRule p =
     (if as_bool (mget p ''delete_cr'') then DeleteCR (str_param p ''namespace'') (str_param p ''name'')
      else if str_param p ''alert'' = [] then Refused ''delete_alert_rule: alert is required (set delete_cr to delete a whole PrometheusRule)''
      else (case alertRuleLocator p of Some loc \<Rightarrow> RemoveFromCR loc | None \<Rightarrow> RemoveRule (str_param p ''alert'')))"

section \<open>Silences and Loki rules\<close>

text \<open>\<open>url.PathEscape\<close> and \<open>url.QueryEscape\<close>, byte by byte.\<close>

definition url_plain :: "char \<Rightarrow> bool" where
  "url_plain c \<longleftrightarrow> (let n = of_char c :: nat in (48 \<le> n \<and> n \<le> 57) \<or> (65 \<le> n \<and> n \<le> 90) \<or> (97 \<le> n \<and> n \<le> 122)) \<or> c \<in> set ''-_.~''"

definition hex_upper :: "nat \<Rightarrow> char" where
  "hex_upper d = (if d < 10 then char_of (48 + d) else char_of (55 + d))"

definition percent :: "char \<Rightarrow> string" where
  "percent c = [CHR ''%'', hex_upper (of_char c div 16), hex_upper (of_char c mod 16)]"

definition PathEscape :: "string \<Rightarrow> string" where
  "PathEscape s = concat (map (\<lambda>c. if url_plain c \<or> c \<in> set ''$&+=:@'' then [c] else percent c) s)"

definition QueryEscape :: "string \<Rightarrow> string" where
  "QueryEscape s = concat (map (\<lambda>c. if url_plain c then [c] else if c = CHR '' '' then ''+'' else percent c) s)"

record http_call =
  hc_method :: string
  hc_url :: string
  hc_headers :: "(string, string) gomap"
  hc_body :: "string option"

text \<open>The exchange (the configured headers are in canonical form): the request is not built, fails, or is answered with a status and a body that may not be read.\<close>

datatype exchange = BadRequest string | NoAnswer string | Answer int "string option"

definition trim_slashes :: "string \<Rightarrow> string" where
  "trim_slashes s = rev (dropWhile (\<lambda>c. c = CHR ''/'') (rev s))"

definition proxy_do :: "(http_call \<Rightarrow> exchange) \<Rightarrow> string \<Rightarrow> string \<Rightarrow> http_call \<Rightarrow> string + string" where
  "proxy_do net failed status req = (case net req of
     BadRequest e \<Rightarrow> Inl e
   | NoAnswer e \<Rightarrow> Inl (failed @ '': '' @ e)
   | Answer code None \<Rightarrow> Inl ''read body''
   | Answer code (Some body) \<Rightarrow> if 400 \<le> code then Inl (status @ '' HTTP '' @ int_dec code @ '': '' @ body) else Inr body)"

definition amDo :: "(http_call \<Rightarrow> exchange) \<Rightarrow> (string, string) gomap \<Rightarrow> string \<Rightarrow> string \<Rightarrow> string option \<Rightarrow> string + string" where
  "amDo net headers method u body = proxy_do net (''alertmanager '' @ method @ '' '' @ u) ''alertmanager''
     \<lparr>hc_method = method, hc_url = u,
      hc_headers = foldl (\<lambda>h p. map_put (fst p) (snd p) h) (if body = None then [] else [(''Content-Type'', ''application/json'')]) headers, hc_body = body\<rparr>"

definition GetSilences :: "(http_call \<Rightarrow> exchange) \<Rightarrow> string \<Rightarrow> (string, string) gomap \<Rightarrow> string list \<Rightarrow> string + string" where
  "GetSilences net base headers filters =
     (if base = [] then Inl ''mutate: AlertManager URL not configured''
      else amDo net headers ''GET'' (trim_slashes base @ ''/api/v2/silences'' @
        (if filters = [] then [] else ''?'' @ join ''&'' (map (\<lambda>f. ''filter='' @ QueryEscape f) filters))) None)"

definition AddSilence :: "(http_call \<Rightarrow> exchange) \<Rightarrow> string \<Rightarrow> (string, string) gomap \<Rightarrow> string \<Rightarrow> string + string" where
  "AddSilence net base headers body =
     (if base = [] then Inl ''mutate: AlertManager URL not configured''
      else if body = [] then Inl ''mutate: silence body required''
      else amDo net headers ''POST'' (trim_slashes base @ ''/api/v2/silences'') (Some body))"

definition DeleteSilence :: "(http_call \<Rightarrow> exchange) \<Rightarrow> string \<Rightarrow> (string, string) gomap \<Rightarrow> string \<Rightarrow> string + string" where
  "DeleteSilence net base headers i =
     (if base = [] then Inl ''mutate: AlertManager URL not configured''
      else if i = [] then Inl ''mutate: silence id required''
      else amDo net headers ''DELETE'' (trim_slashes base @ ''/api/v2/silence/'' @ PathEscape i) None)"

definition ParseSilenceBody :: "gmap \<Rightarrow> string option" where
  "ParseSilenceBody p = json_marshal (if mhas (Some p) ''body'' then mget p ''body'' else VObj p)"

definition lokiDo :: "(http_call \<Rightarrow> exchange) \<Rightarrow> (string, string) gomap \<Rightarrow> string \<Rightarrow> string \<Rightarrow> string \<Rightarrow> string option \<Rightarrow> string + string" where
  "lokiDo net headers method u contentType body = proxy_do net ''loki rules'' ''loki rules''
     \<lparr>hc_method = method, hc_url = u,
      hc_headers = foldl (\<lambda>h p. map_put (fst p) (snd p) h) (if contentType = [] then [] else [(''Content-Type'', contentType)]) headers, hc_body = body\<rparr>"

definition CreateOrReplaceLokiAlertRule :: "(http_call \<Rightarrow> exchange) \<Rightarrow> string \<Rightarrow> (string, string) gomap \<Rightarrow> string \<Rightarrow> string \<Rightarrow> string + string" where
  "CreateOrReplaceLokiAlertRule net base headers namespace body =
     (if base = [] then Inl ''mutate: LokiRulesURL not configured''
      else if namespace = [] \<or> body = [] then Inl ''mutate: namespace and body required''
      else lokiDo net headers ''POST'' (trim_slashes base @ ''/loki/api/v1/rules/'' @ PathEscape namespace) ''application/yaml'' (Some body))"

definition DeleteLokiAlertRule :: "(http_call \<Rightarrow> exchange) \<Rightarrow> string \<Rightarrow> (string, string) gomap \<Rightarrow> string \<Rightarrow> string \<Rightarrow> string + string" where
  "DeleteLokiAlertRule net base headers namespace grp =
     (if base = [] then Inl ''mutate: LokiRulesURL not configured''
      else if namespace = [] \<or> grp = [] then Inl ''mutate: namespace and group required''
      else lokiDo net headers ''DELETE'' (trim_slashes base @ ''/loki/api/v1/rules/'' @ PathEscape namespace @ ''/'' @ PathEscape grp) [] None)"

section \<open>Other rules are left alone\<close>

abbreviation others :: "string \<Rightarrow> gval list \<Rightarrow> gval list" where
  "others alert groups \<equiv> filter (\<lambda>r. \<not> named alert r) (all_rules groups)"

lemma rules_with [simp]: "group_rules (with_rules m rules) = rules"
  by (simp add: group_rules_def with_rules_def rules_in_def mget_def as_arr_def map_of_put)

lemma group_rules_simps [simp]:
  "group_rules (VObj m) = rules_in m" "group_rules (new_group nm rules) = rules"
  "group_rules VNil = []" "group_rules (VBool b) = []" "group_rules (VInt i) = []" "group_rules (VUint n) = []" "group_rules (VFloat f) = []"
  "group_rules (VStr t) = []" "group_rules (VArr xs) = []" "group_rules (VOther v) = []"
  by (simp_all add: group_rules_def new_group_def rules_in_def mget_def as_arr_def)

lemma all_rules_simps [simp]: "all_rules [] = []" "all_rules (g # gs) = group_rules g @ all_rules gs"
  by (simp_all add: all_rules_def)

lemma replace_first_Some:
  assumes "replace_first alert rule rules = Some rules'" "named alert rule"
  shows "filter (\<lambda>r. \<not> named alert r) rules' = filter (\<lambda>r. \<not> named alert r) rules \<and> rule \<in> set rules'"
  using assms by (induction rules arbitrary: rules') (auto split: if_splits)

lemma replaceLegacy_Some:
  assumes "replaceLegacyRuleInPlace groups alert rule = Some groups'" "named alert rule"
  shows "others alert groups' = others alert groups \<and> rule \<in> set (all_rules groups')"
  using assms
proof (induction groups arbitrary: groups')
  case (Cons g groups)
  consider m rules where "g = VObj m" "replace_first alert rule (rules_in m) = Some rules" "groups' = with_rules m rules # groups"
    | gs where "replaceLegacyRuleInPlace groups alert rule = Some gs" "groups' = g # gs"
    using Cons.prems(1) by (auto simp: Let_def split: gval.splits option.splits)
  then show ?case
  proof cases
    case 1
    with replace_first_Some[OF 1(2) Cons.prems(2)] show ?thesis by simp
  next
    case 2
    with Cons.IH[OF 2(1) Cons.prems(2)] show ?thesis by auto
  qed
qed simp

lemma legacy_rule_named [simp]: "named (lp_Alert p) (legacy_rule p)"
  by (simp add: named_def legacy_rule_def mget_def as_str_def)

lemma legacy_groups_others:
  assumes "named alert rule"
  shows "others alert (legacy_groups groups alert rule) = others alert groups \<and> rule \<in> set (all_rules (legacy_groups groups alert rule))"
proof (cases groups)
  case (Cons g gs)
  show ?thesis
  proof (cases "replaceLegacyRuleInPlace groups alert rule")
    case None
    have "rules_in [(''name'', VStr n)] = []" for n by (simp add: rules_in_def mget_def as_arr_def)
    with None Cons assms show ?thesis by (cases g) (auto simp: legacy_groups_def Let_def)
  next
    case (Some groups')
    with Cons replaceLegacy_Some[OF Some assms] show ?thesis by (simp add: legacy_groups_def)
  qed
qed (use assms in \<open>simp add: legacy_groups_def\<close>)

lemma delete_groups_others: "all_rules (map (delete_in_group alert) groups) = others alert groups"
proof (induction groups)
  case (Cons g groups)
  then show ?case by (cases g) (auto simp: delete_in_group_def)
qed simp

lemma selector_labels_kept: "map_of labels k = Some v \<Longrightarrow> map_of (applySelectorLabels labels sel) k = Some v"
proof (induction sel arbitrary: labels)
  case (Cons p sel)
  let ?ls = "if map_of labels (fst p) = None then map_put (fst p) (snd p) labels else labels"
  have "map_of ?ls k = Some v" using Cons.prems by (auto simp: map_of_put)
  from Cons.IH[OF this] show ?case by (simp add: applySelectorLabels_def)
qed (simp add: applySelectorLabels_def)

lemma selector_labels_set: "k \<in> fst ` set sel \<Longrightarrow> map_of (applySelectorLabels labels sel) k \<noteq> None"
proof (induction sel arbitrary: labels)
  case (Cons p sel)
  let ?ls = "if map_of labels (fst p) = None then map_put (fst p) (snd p) labels else labels"
  have step: "applySelectorLabels labels (p # sel) = applySelectorLabels ?ls sel" by (simp add: applySelectorLabels_def)
  show ?case
  proof (cases "k = fst p")
    case True
    then have "map_of ?ls k \<noteq> None" by (simp add: map_of_put)
    then show ?thesis using selector_labels_kept[of ?ls k _ sel] unfolding step by auto
  next
    case False
    with Cons show ?thesis unfolding step by simp
  qed
qed simp

section \<open>A write is atomic\<close>

text \<open>The version of an object identifies its state.\<close>

definition version_identifies :: "cr_round \<Rightarrow> bool" where
  "version_identifies rd \<longleftrightarrow> (case (rd_read rd, rd_state rd) of
     (CrFound cr, Some cur) \<Rightarrow> rc_version cr = rc_version cur \<longrightarrow> cr = cur | _ \<Rightarrow> True)"

lemma retry_loop_Inr:
  "retry_loop n k f rounds = Inr (j, res) \<Longrightarrow> k \<le> j \<and> j < k + n \<and> f (rounds j) = res \<and> (res = Unchanged \<or> (\<exists>cr. res = Stored cr))"
proof (induction n arbitrary: k)
  case (Suc n)
  show ?case
  proof (cases "f (rounds k)")
    case Conflict
    with Suc show ?thesis by fastforce
  next
    case (Stored cr)
    with Suc.prems have "j = k" "res = Stored cr" by simp_all
    with Stored show ?thesis by simp
  next
    case Unchanged
    with Suc.prems have "j = k" "res = Unchanged" by simp_all
    with Unchanged show ?thesis by simp
  qed (use Suc.prems in simp)
qed simp

lemma put_groups_Stored:
  assumes "put_groups groups cr rd = Stored new" "rd_read rd = CrFound cr0" "rc_version cr = rc_version cr0" "version_identifies rd"
  shows "rd_state rd = Some cr0 \<and> new = cr\<lparr>rc_groups := groups\<rparr>"
  using assms by (auto simp: put_groups_def cr_update_def version_identifies_def split: if_splits option.splits)

text \<open>C31: writing an alert rule into the shared object is atomic: the state it is written over is the one it was computed
  from, so that every rule of another name, whoever wrote it and whenever, is kept in place, the rule is there,
  and the labels only gain what the selector needs.\<close>

theorem alert_rule_write_atomic:
  assumes stored: "CreateOrReplaceAlertRule m steps proms p rounds = Inr (k, res)" and version: "version_identifies (rounds k)"
  shows "k < steps \<and> (\<exists>new. res = Stored new \<and> legacy_rule p \<in> set (all_rules (rc_groups new)) \<and> (case rd_state (rounds k) of
     None \<Rightarrow> all_rules (rc_groups new) = [legacy_rule p]
   | Some old \<Rightarrow> filter (\<lambda>r. \<not> named (lp_Alert p) r) (all_rules (rc_groups new)) = filter (\<lambda>r. \<not> named (lp_Alert p) r) (all_rules (rc_groups old)) \<and>
       (\<forall>l v. map_of (rc_labels old) l = Some v \<longrightarrow> map_of (rc_labels new) l = Some v) \<and> rc_rest new = rc_rest old))"
proof -
  let ?sel = "ruleSelectorLabels (rm_Namespace m) proms"
  have "retry_loop steps 0 (legacy_attempt (rm_Namespace m) ?sel p) rounds = Inr (k, res)"
    using stored by (auto simp: CreateOrReplaceAlertRule_def split: if_splits)
  from retry_loop_Inr[OF this] have k: "k < steps" and att: "legacy_attempt (rm_Namespace m) ?sel p (rounds k) = res" and ne: "res = Unchanged \<or> (\<exists>new. res = Stored new)" by auto
  have "res \<noteq> Unchanged"
    using att by (auto simp: legacy_attempt_def cr_create_def put_groups_def cr_update_def split: cr_read.splits option.splits if_splits)
  with ne obtain new where res: "res = Stored new" by blast
  show ?thesis
  proof (cases "rd_read (rounds k)")
    case CrNotFound
    then have "rd_state (rounds k) = None" "new = newLegacyAlertRuleCR (rm_Namespace m) [legacy_rule p] ?sel"
      using att res by (auto simp: legacy_attempt_def cr_create_def split: option.splits if_splits)
    then show ?thesis using k res by (simp add: newLegacyAlertRuleCR_def)
  next
    case (CrFailed e)
    then show ?thesis using att res by (simp add: legacy_attempt_def)
  next
    case (CrFound cr)
    then have "put_groups (legacy_groups (rc_groups cr) (lp_Alert p) (legacy_rule p)) (cr\<lparr>rc_labels := applySelectorLabels (rc_labels cr) ?sel\<rparr>) (rounds k) = Stored new"
      using att res by (simp add: legacy_attempt_def)
    from put_groups_Stored[OF this CrFound _ version] show ?thesis
      using k res legacy_groups_others[OF legacy_rule_named, of p "rc_groups cr"] by (auto intro: selector_labels_kept)
  qed
qed

definition sample_rule_cr :: "string \<Rightarrow> string list \<Rightarrow> rule_cr" where
  "sample_rule_cr version alerts = \<lparr>rc_version = version, rc_groups = [new_group LegacyAlertRuleGroupName (map (\<lambda>a. VObj [(''alert'', VStr a), (''expr'', VStr ''up'')]) alerts)],
     rc_settable = True, rc_labels = [(''release'', ''mine'')], rc_rest = VNil\<rparr>"

text \<open>Another writer adds a rule between the first read and the first write.\<close>

definition sample_rounds :: "nat \<Rightarrow> cr_round" where
  "sample_rounds k = (if k = 0
     then \<lparr>rd_read = CrFound (sample_rule_cr ''1'' [''A'', ''B'']), rd_state = Some (sample_rule_cr ''2'' [''A'', ''B'', ''C'']), rd_err = None\<rparr>
     else \<lparr>rd_read = CrFound (sample_rule_cr ''2'' [''A'', ''B'', ''C'']), rd_state = Some (sample_rule_cr ''2'' [''A'', ''B'', ''C'']), rd_err = None\<rparr>)"

definition sample_write :: "string + (nat \<times> round_result)" where
  "sample_write = CreateOrReplaceAlertRule \<lparr>rm_dynamic = True, rm_Namespace = ''nb''\<rparr> 5 (Some [(''mon'', ''k8s'', [(''release'', ''kps'')])])
     \<lparr>lp_Alert = ''B'', lp_Expr = ''down'', lp_Duration = ''5m'', lp_Annotations = None, lp_Labels = None\<rparr> sample_rounds"

theorem alert_rule_write_atomic_witness:
  "\<exists>new. sample_write = Inr (1, Stored new) \<and> length (all_rules (rc_groups new)) = 3 \<and>
     filter (\<lambda>r. \<not> named ''B'' r) (all_rules (rc_groups new)) = filter (\<lambda>r. \<not> named ''B'' r) (all_rules (rc_groups (sample_rule_cr ''2'' [''A'', ''B'', ''C''])))"
proof -
  let ?p = "\<lparr>lp_Alert = ''B'', lp_Expr = ''down'', lp_Duration = ''5m'', lp_Annotations = None, lp_Labels = None\<rparr>"
  have "\<not> isl sample_write" by code_simp
  from sum.collapse(2)[OF this] obtain k r where w: "sample_write = Inr (k, r)" by (metis prod.exhaust)
  have "case projr sample_write of (k, Stored cr) \<Rightarrow> k = 1 \<and> length (all_rules (rc_groups cr)) = 3 | _ \<Rightarrow> False" by code_simp
  then have "case r of Stored cr \<Rightarrow> k = 1 \<and> length (all_rules (rc_groups cr)) = 3 | _ \<Rightarrow> False" unfolding w by (simp only: sum.sel prod.case)
  with w obtain new where new: "sample_write = Inr (1, Stored new)" "length (all_rules (rc_groups new)) = 3" by (cases r) auto
  have "version_identifies (sample_rounds 1)" by (simp add: version_identifies_def sample_rounds_def)
  from alert_rule_write_atomic[OF new(1)[unfolded sample_write_def] this] new show ?thesis by (auto simp: sample_rounds_def)
qed

section \<open>Deletion, location and paths\<close>

text \<open>A deletion by name leaves exactly the rules of other names, of the state it was written over.\<close>

lemma alert_rule_delete_atomic:
  assumes "DeleteAlertRule m steps alert rounds = Inr (k, Stored new)" "version_identifies (rounds k)"
  shows "\<exists>old. rd_state (rounds k) = Some old \<and> all_rules (rc_groups new) = others alert (rc_groups old) \<and> rc_labels new = rc_labels old \<and> rc_rest new = rc_rest old"
proof -
  have "retry_loop steps 0 (delete_attempt alert) rounds = Inr (k, Stored new)" using assms(1) by (auto simp: DeleteAlertRule_def split: if_splits)
  from retry_loop_Inr[OF this] have "delete_attempt alert (rounds k) = Stored new" by auto
  then obtain cr where "rd_read (rounds k) = CrFound cr" "put_groups (map (delete_in_group alert) (rc_groups cr)) cr (rounds k) = Stored new"
    by (auto simp: delete_attempt_def split: cr_read.splits if_splits)
  from put_groups_Stored[OF this(2,1) refl assms(2)] show ?thesis by (simp add: delete_groups_others)
qed

text \<open>A whole object is only deleted on an explicit request.\<close>

lemma delete_cr_explicit: "handleDeletePromRule p = DeleteCR ns n \<Longrightarrow> mget p ''delete_cr'' = VBool True"
  by (auto simp: handleDeletePromRule_def as_bool_def split: if_splits option.splits gval.splits)

text \<open>An escaped segment has none of the characters that end it.\<close>

lemma PathEscape_segment: "c \<in> set (PathEscape s) \<Longrightarrow> c \<noteq> CHR ''/'' \<and> c \<noteq> CHR ''?'' \<and> c \<noteq> CHR ''#''"
proof -
  have hex: "hex_upper d \<noteq> CHR ''/'' \<and> hex_upper d \<noteq> CHR ''?'' \<and> hex_upper d \<noteq> CHR ''#''" if "d < 16" for d :: nat
  proof -
    have "(of_char (hex_upper d) :: nat) \<ge> 48" "(of_char (hex_upper d) :: nat) \<noteq> 63" using that by (simp_all add: hex_upper_def)
    then show ?thesis by auto
  qed
  have div: "(of_char x :: nat) div 16 < 16" for x using nat_of_char_less_256[of x] by (simp add: less_mult_imp_div_less)
  have plain: "\<not> url_plain CHR ''/''" "\<not> url_plain CHR ''?''" "\<not> url_plain CHR ''#''" by code_simp+
  assume "c \<in> set (PathEscape s)"
  then obtain x where "c \<in> set (if url_plain x \<or> x \<in> set ''$&+=:@'' then [x] else percent x)"
    unfolding PathEscape_def set_concat set_map by blast
  then show ?thesis using plain hex[OF div, of x] hex[of "of_char x mod 16"] by (auto simp: percent_def split: if_splits)
qed

end
