(* ===== verification/Workloads.thy ===== *)
theory Workloads
  imports Mutate
begin

text \<open>
  Creating and replacing workloads: the rest of \<open>pkg/mutate/workload.go\<close> and its handlers in \<open>handlers.go\<close>. A manifest is seen through
  the accessors of the Kubernetes library: group, version and kind, name, namespace, resource version, and the rest;
  the decoding of a body is a parameter. The theory proves that a write goes to the object the request names, whatever
  the body says, and over the version just read.
\<close>

section \<open>Manifests\<close>

record manifest =
  wm_gvk :: "string \<times> string \<times> string"
  wm_Name :: string
  wm_Namespace :: string
  wm_ResourceVersion :: string
  wm_Rest :: gval

datatype workload_call =
    GetWorkload gvr string string | CreateIn gvr string manifest | UpdateIn gvr string manifest

text \<open>What the API server answers: an error, or the object; the answer to a read may differ from that to the write after it.\<close>

type_synonym workload_api = "workload_call \<Rightarrow> string + manifest"

definition unstructuredFromBody :: "(gval \<Rightarrow> manifest option) \<Rightarrow> gval \<Rightarrow> mutate_err + manifest" where
  "unstructuredFromBody decode body = (if body = VNil then Inl BodyRequired
     else (case decode body of None \<Rightarrow> Inl BadBody | Some u \<Rightarrow> Inr u))"

definition entry_gvk :: "workload_kind_entry \<Rightarrow> string \<times> string \<times> string" where
  "entry_gvk e = (gv_Group (wk_gvr e), gv_Version (wk_gvr e), wk_expectedKind e)"

definition scope_of :: "workload_kind_entry \<Rightarrow> string \<Rightarrow> string" where
  "scope_of e namespace = (if wk_namespaced e then namespace else [])"

definition CreateWorkload ::
  "mutator \<Rightarrow> workload_api \<Rightarrow> (gval \<Rightarrow> manifest option) \<Rightarrow> string \<Rightarrow> string \<Rightarrow> string \<Rightarrow> gval \<Rightarrow> (mutate_err + manifest) \<times> workload_call list" where
  "CreateWorkload m api decode kind namespace name body =
     (if \<not> mu_dynamic m then (Inl NoDynamic, [])
      else (case resolveWorkloadKind kind of
        None \<Rightarrow> (Inl (UnsupportedKind kind), [])
      | Some (canonical, e) \<Rightarrow>
          if wk_namespaced e \<and> namespace = [] then (Inl (NamespaceRequired canonical), [])
          else (case unstructuredFromBody decode body of
            Inl err \<Rightarrow> (Inl err, [])
          | Inr u0 \<Rightarrow>
              (let u1 = u0\<lparr>wm_gvk := entry_gvk e\<rparr>; u2 = (if name = [] then u1 else u1\<lparr>wm_Name := name\<rparr>);
                   u = (if wk_namespaced e then u2\<lparr>wm_Namespace := namespace\<rparr> else u2); c = CreateIn (wk_gvr e) (scope_of e namespace) u in
               (map_sum (\<lambda>t. ApiFailed (''mutate: create '' @ canonical @ ''/'' @ wm_Name u @ '': '' @ t)) id (api c), [c])))))"

definition ReplaceWorkload ::
  "mutator \<Rightarrow> workload_api \<Rightarrow> (gval \<Rightarrow> manifest option) \<Rightarrow> string \<Rightarrow> string \<Rightarrow> string \<Rightarrow> gval \<Rightarrow> (mutate_err + manifest) \<times> workload_call list" where
  "ReplaceWorkload m api decode kind namespace name body =
     (if \<not> mu_dynamic m then (Inl NoDynamic, [])
      else if name = [] then (Inl NameRequired, [])
      else (case map_of supportedWorkloadKinds kind of
        None \<Rightarrow> (Inl (UnsupportedKind kind), [])
      | Some e \<Rightarrow>
          if wk_namespaced e \<and> namespace = [] then (Inl (NamespaceRequired kind), [])
          else (case unstructuredFromBody decode body of
            Inl err \<Rightarrow> (Inl err, [])
          | Inr u0 \<Rightarrow>
              (let u1 = u0\<lparr>wm_gvk := entry_gvk e, wm_Name := name\<rparr>; u = (if wk_namespaced e then u1\<lparr>wm_Namespace := namespace\<rparr> else u1);
                   g = GetWorkload (wk_gvr e) (scope_of e namespace) name in
               case api g of
                 Inl t \<Rightarrow> (Inl (ApiFailed (''mutate: get existing '' @ kind @ ''/'' @ name @ '': '' @ t)), [g])
               | Inr existing \<Rightarrow>
                   (let c = UpdateIn (wk_gvr e) (scope_of e namespace) (u\<lparr>wm_ResourceVersion := wm_ResourceVersion existing\<rparr>) in
                    (map_sum (\<lambda>t. ApiFailed (''mutate: replace '' @ kind @ ''/'' @ name @ '': '' @ t)) id (api c), [g, c]))))))"

section \<open>Handlers\<close>

definition done_message :: "string \<Rightarrow> string \<Rightarrow> string \<Rightarrow> string \<Rightarrow> gval \<Rightarrow> gval" where
  "done_message key kind loc verb obj = VObj [(key, obj), (''message'', VStr (kind @ ''/'' @ loc @ '' '' @ verb))]"

text \<open>\<open>content\<close> is \<open>UnstructuredContent\<close>, \<open>revert\<close> the handler of a recorded change, which wins over a body.\<close>

definition handleReplaceWorkload ::
  "mutator \<Rightarrow> workload_api \<Rightarrow> (gval \<Rightarrow> manifest option) \<Rightarrow> (manifest \<Rightarrow> gval) \<Rightarrow> (gmap \<Rightarrow> mutate_err + gval) \<Rightarrow> gmap \<Rightarrow> (mutate_err + gval) \<times> workload_call list" where
  "handleReplaceWorkload m api decode content revert p =
     (let kind = as_str (mget p ''kind''); name = as_str (mget p ''name''); namespace = as_str (mget p ''namespace''); body = pickReplaceBody kind p in
      if kind = [] then (Inl KindRequired, [])
      else if mhas (Some p) ''revert_paths'' then (revert p, [])
      else if body = VNil then (Inl BodyRequired, [])
      else (case ReplaceWorkload m api decode kind namespace name body of (r, cs) \<Rightarrow>
        (map_sum id (\<lambda>u. done_message ''updated'' kind (location namespace name) ''updated'' (content u)) r, cs)))"

definition handleCreateWorkload ::
  "mutator \<Rightarrow> workload_api \<Rightarrow> (gval \<Rightarrow> manifest option) \<Rightarrow> (manifest \<Rightarrow> gval) \<Rightarrow> gmap \<Rightarrow> (mutate_err + gval) \<times> workload_call list" where
  "handleCreateWorkload m api decode content p =
     (let kind = as_str (mget p ''kind''); name = as_str (mget p ''name''); namespace = as_str (mget p ''namespace'');
          bodyKind = (case resolveWorkloadKind kind of Some (canonical, _) \<Rightarrow> canonical | None \<Rightarrow> kind); body = pickReplaceBody bodyKind p in
      if kind = [] then (Inl KindRequired, [])
      else if body = VNil then (Inl BodyRequired, [])
      else (case CreateWorkload m api decode kind namespace name body of (r, cs) \<Rightarrow>
        (map_sum id (\<lambda>u. done_message ''created'' kind (location namespace name) ''created'' (content u)) r, cs)))"

section \<open>Writes go where the request says\<close>

text \<open>Whatever its body says, a replacement addresses the object named by the request, with the kind of the request, over the version
  that was read just before.\<close>

lemma replace_targets_request:
  assumes "UpdateIn g ns u \<in> set (snd (ReplaceWorkload m api decode kind namespace name body))"
  shows "\<exists>e existing. map_of supportedWorkloadKinds kind = Some e \<and> g = wk_gvr e \<and> ns = scope_of e namespace \<and> wm_gvk u = entry_gvk e \<and>
    wm_Name u = name \<and> (wk_namespaced e \<longrightarrow> wm_Namespace u = namespace \<and> namespace \<noteq> []) \<and>
    api (GetWorkload g ns name) = Inr existing \<and> wm_ResourceVersion u = wm_ResourceVersion existing"
  using assms by (auto simp: ReplaceWorkload_def Let_def split: if_splits option.splits sum.splits)

lemma create_targets_request:
  assumes "CreateIn g ns u \<in> set (snd (CreateWorkload m api decode kind namespace name body))"
  shows "\<exists>canonical e. resolveWorkloadKind kind = Some (canonical, e) \<and> g = wk_gvr e \<and> ns = scope_of e namespace \<and> wm_gvk u = entry_gvk e \<and>
    (name \<noteq> [] \<longrightarrow> wm_Name u = name) \<and> (wk_namespaced e \<longrightarrow> wm_Namespace u = namespace \<and> namespace \<noteq> [])"
  using assms by (auto simp: CreateWorkload_def Let_def split: if_splits option.splits sum.splits)

text \<open>The three operations do not agree on the spelling of a kind: what can be created and deleted as \<open>deployment\<close> cannot be replaced.\<close>

lemma replace_kind_case_sensitive:
  "resolveWorkloadKind ''deployment'' \<noteq> None" "fst (ReplaceWorkload \<lparr>mu_Client = True, mu_dynamic = True\<rparr> api decode ''deployment'' ns ''web'' body) = Inl (UnsupportedKind ''deployment'')"
proof -
  show "resolveWorkloadKind ''deployment'' \<noteq> None" by code_simp
  have "map_of supportedWorkloadKinds ''deployment'' = None" by code_simp
  then show "fst (ReplaceWorkload \<lparr>mu_Client = True, mu_dynamic = True\<rparr> api decode ''deployment'' ns ''web'' body) = Inl (UnsupportedKind ''deployment'')"
    by (simp add: ReplaceWorkload_def)
qed

end
