(* ===== verification/Spec2Isabelle.thy ===== *)
theory Spec2Isabelle
  imports Intake Snake Control Tasks PodShell Discovery Redact Rightsize Kubectl Revert ServiceMap Rightsizer PvcSafety Caches KubeRead AlertRules Workloads
begin

text \<open>
  The NudgeBee Kubernetes agent (\<open>src/runner\<close>): a process in the cluster that keeps a WebSocket to
  a relay, runs the actions the relay asks for, watches Kubernetes objects and reports problems.

  \<^bold>\<open>Parts and theories.\<close> The action path, in the order a message takes: the relay client
  (\<open>pkg/relay\<close>, theory \<open>Relay\<close>) reads a message and starts a handler or sheds it; the
  dispatcher (\<open>pkg/dispatch\<close>, \<open>Dispatch\<close>) decodes, routes and answers it; the validator
  (\<open>pkg/auth\<close>, \<open>Auth\<close>) authenticates it, with the relay signature (\<open>pkg/relaysig\<close>, \<open>RelaySig\<close>) over
  the raw body and the canonical encoding (\<open>pkg/canonjson\<close>, \<open>CanonJson\<close>) under the HMAC and
  partial-key modes; the playbook refresh (\<open>pkg/control\<close>, \<open>Control\<close>) swaps the list of light
  actions; the pod shell (\<open>pkg/podshell\<close>, \<open>PodShell\<close>) answers the terminal messages; the task poller
  (\<open>pkg/tasks\<close>, \<open>Tasks\<close>) pulls queued actions and runs them through the dispatcher's trusted entry. The trigger path (\<open>pkg/triggers\<close>): the engine (\<open>engine.go\<close>, \<open>overrides.go\<close>, \<open>Engine\<close>)
  runs the built-in matchers (\<open>predicates.go\<close>, \<open>service_endpoints.go\<close>: \<open>Predicates\<close>,
  \<open>ServiceEndpoints\<close>) on each Kubernetes event, limited by the rate limiter (\<open>ratelimit.go\<close>,
  \<open>RateLimit\<close>) and the churn suppressor (\<open>churn.go\<close>, \<open>Churn\<close>), both over the recency store \<open>Lru\<close>; the
  matchers use the structural diff (\<open>diff.go\<close>, \<open>Diff\<close>), the owner resolution (\<open>owner.go\<close>, \<open>Owner\<close>)
  and the events table (\<open>events_block.go\<close>, \<open>EventsBlock\<close>) on the types of \<open>types.go\<close>
  (\<open>TriggerTypes\<close>). The intake (\<open>pkg/alerts\<close>: \<open>server.go\<close>, \<open>k8s_intake.go\<close>, theory \<open>Intake\<close>) queues
  Kubernetes events per object for the engine and turns its matches and the alerts of
  AlertManager into findings (\<open>finding.go\<close>, \<open>node_subject.go\<close>, \<open>Findings\<close>). The inventory (\<open>pkg/discovery\<close>): informer
  events and snapshots (\<open>service.go\<close>, \<open>Discovery\<close>) are converted to wire items (\<open>converters.go\<close>,
  \<open>transform.go\<close>, \<open>helm.go\<close>: \<open>Converters\<close>) and delivered by the sink (\<open>sink.go\<close>, \<open>Sink\<close>), and \<open>pkg/redact\<close> (\<open>Redact\<close>) strips
  credentials. The actions: kubectl chains (\<open>pkg/kube/exec.go\<close>, \<open>pkg/cmdout\<close>, \<open>Kubectl\<close>), cluster
  mutations and drains (\<open>pkg/mutate\<close>, \<open>Mutate\<close>), the revert of a recorded change (\<open>revert.go\<close>,
  \<open>Revert\<close>, over the paths of \<open>Diff\<close>), the creation and replacement of
  workloads (\<open>workload.go\<close>, \<open>Workloads\<close>), alert rules and silences (\<open>alertrules.go\<close>, \<open>promruleselector.go\<close>,
  \<open>lokirules.go\<close>, \<open>silence.go\<close>: \<open>AlertRules\<close>), the reads of cluster objects (\<open>pkg/kube\<close>: \<open>dynamic.go\<close>, \<open>kind_resolver.go\<close>,
  \<open>handlers.go\<close>, \<open>KubeRead\<close>), the resizing and migration of volumes
  (\<open>pvc.go\<close>, \<open>pvcdownsize.go\<close>: \<open>Pvc\<close>, with \<open>PvcSafety\<close> about the data), the application of a right-sizing
  (\<open>pkg/rightsize/apply.go\<close>, \<open>Rightsize\<close>) and the continuous right-sizer (\<open>rightsize.go\<close>, \<open>inplace.go\<close>,
  \<open>units.go\<close>, \<open>handlers.go\<close>: \<open>Rightsizer\<close>). The scanner jobs
  (\<open>pkg/scanners\<close>, \<open>Scanners\<close>) and the pods that run scripts (\<open>pkg/podrunner\<close>, with the answers of
  \<open>pkg/enrichers/finding.go\<close>: \<open>PodRunner\<close>) start workloads of their own. The service map (\<open>pkg/servicemap\<close>, \<open>ServiceMap\<close>) builds the traffic graph from metrics.
  The caches behind the engine and the forwarder (\<open>cmd/agent\<close>: \<open>k8s_events_cache.go\<close>, \<open>k8s_events_lister.go\<close>,
  \<open>node_locator.go\<close>, \<open>service_backends_lister.go\<close>, \<open>node_agent_counter.go\<close>) are in \<open>Caches\<close>. \<open>Snake\<close> is the key renaming of \<open>pkg/kube/snake.go\<close>. \<open>Prelude\<close>, \<open>GoTime\<close>, \<open>Rfc3339\<close>, \<open>GoValue\<close>,
  \<open>GoJson\<close>, \<open>GoFloat\<close>, \<open>GoParse\<close> and \<open>Base64\<close> hold what the code uses of Go: 64-bit wrap-around, maps as association lists, strings as byte
  lists, instants and RFC 3339, \<open>any\<close>, \<open>json.Marshal\<close>, float rounding, parsing and printing, and base64.

  \<^bold>\<open>Interfaces.\<close> \<open>recency_store\<close> (in \<open>Lru\<close>) states what the limiter and the suppressor rely on and is
  interpreted for both of their entry types; \<open>fire_limiter\<close> (in \<open>RateLimit\<close>) is what the engine
  relies on of the limiter; \<open>replay_guard\<close> (in \<open>RelaySig\<close>) what the verifier relies on of its nonce
  set; \<open>trusted_entry\<close> (in \<open>Tasks\<close>) is the interface \<open>tasks.Dispatcher\<close> and is interpreted on
  \<open>HandleTrusted\<close>. Each is interpreted on the model's own operations.

  \<^bold>\<open>What is shown.\<close> Safety of the action path: nothing runs unauthenticated in the action flow, a
  relayed message runs once, a refresh takes effect on the next message, every request is
  answered once; the exact acceptance conditions of the validator and the verifier. The
  canonical encoding is canonical. Invariants of every run of the relay client and of the
  dispatcher's pools. For the triggers: what a match means, once-per-window reporting and
  re-arming on recovery, refinement of the limiter to a plain map and of the suppressor to an
  automaton, exactness of the diff and totality and bounds of its excerpts, and the identity
  rules of fingerprints, owners and job families. For the intake: per-object order, no loss and
  bounds in every interleaving. For the poller: the drain ends and answers each task once. For
  the pod shell: isolation of sessions and no leaked streams. For the inventory: a
  batched snapshot is complete or left open, deletions are reported, items are well typed, trimming
  the cache changes no item, the pod index equals a scan. For the actions: kubectl only reads
  without write permission and chains as a shell does, a drain accounts for every pod, a revert
  and an undo of a right-sizing restore what was changed and nothing else, a volume
  migration ends and keeps the data, with one exception that is shown to be real, and the right-sizer
  writes nothing but guarded recommendations. An alert rule is written atomically and a read returns
  exactly what was asked for; a created or replaced workload is the object the request names (lemmas). Scanner jobs are created, watched and deleted within fixed
  limits and never left suspended, and a script run ends and removes what it created. The service map is a closed
  graph and does not depend on which source served it when one falls back. The event cache gives the
  tables of the live lister and the address map is listed once per lifetime. For the reporters: findings are
  complete and identified by occurrence, deliveries are retried and counted as promised,
  credentials never survive redaction (lemmas). Some theorems state defects of the code and
  are marked so by their text.

  \<^bold>\<open>Conventions.\<close> Operations are functions on explicit states; the clock readings and random
  choices an operation makes are arguments. A Go panic is \<open>None\<close>. Loops are structural recursion
  or \<open>fun\<close> with a measure; the drain of the task queue and the polling of a volume migration or a script pod, which may
  not end, are \<open>partial_function\<close>s, and their termination is proved under the collector's contract and
  for a clock that runs; there is no fuel except in the float formatting, where 17 digits are
  tried, which suffice for every binary64 value. Identifiers keep their Go names, with the
  receiver first where two types share one.

  \<^bold>\<open>Not modelled.\<close> Cryptographic primitives, key file formats, the YAML and line-diff libraries and
  the Kubernetes client are parameters. Sockets, HTTP clients, logging, metrics export and
  process start-up are input and output; so is the decoding of JSON texts, which is a parameter
  where a component reads one (the dispatcher works on what the scanner finds). The other action
  implementations (\<open>enrichers\<close>, \<open>podexec\<close>, \<open>observability\<close>, \<open>svcdiscover\<close>), the configuration, the discovery of
  alert rules and the status report (\<open>telemetry\<close>) are not part of the development yet.
\<close>

section \<open>From the relay signature to the handler\<close>

text \<open>Handling a list of messages, one after the other.\<close>

fun handle_all :: "(environment \<times> json_msg) list \<Rightarrow> dispatcher \<Rightarrow> dispatcher" where
  "handle_all [] d = d"
| "handle_all ((e, m) # xs) d = handle_all xs (snd (Handle e m d))"

abbreviation relay_envelope :: "json_msg \<Rightarrow> envelope" where
  "relay_envelope m \<equiv> r_RelaySig (auth_request m)"

text \<open>Handling touches nothing of the dispatcher but the replay set of its verifier.\<close>

definition with_verifier :: "verifier \<Rightarrow> validator \<Rightarrow> dispatcher \<Rightarrow> dispatcher" where
  "with_verifier rv v d = d\<lparr>d_auth := Some (v\<lparr>val_RelayVerifier := Some rv\<rparr>)\<rparr>"

lemma Validate_state:
  "snd (Validate c t1 t2 r (v\<lparr>val_RelayVerifier := Some rv\<rparr>)) = v\<lparr>val_RelayVerifier := Some rv\<rparr> \<or>
   snd (Validate c t1 t2 r (v\<lparr>val_RelayVerifier := Some rv\<rparr>)) =
     v\<lparr>val_RelayVerifier := Some (snd (VerifyBody (c_ed25519 c) t1 t2 (r_BodyRaw r) (r_RelaySig r) rv))\<rparr>"
  by (auto simp: Validate_def Let_def split: prod.splits option.splits)

lemma Handle_state:
  "snd (Handle e m (with_verifier rv v d)) = with_verifier rv v d \<or>
   snd (Handle e m (with_verifier rv v d)) = with_verifier
     (snd (VerifyBody (c_ed25519 (d_crypto d)) (en_t1 e) (en_t2 e) (r_BodyRaw (auth_request m)) (relay_envelope m) rv)) v d"
  using Validate_state[where c = "d_crypto d" and ?t1.0 = "en_t1 e" and ?t2.0 = "en_t2 e" and r = "auth_request m"
    and v = v and rv = rv]
  by (cases "route m")
    (auto simp: Handle_def with_verifier_def authenticate_def split: prod.splits option.splits)

lemma handle_all_state:
  "\<exists>calls. handle_all xs (with_verifier rv v d) = with_verifier (verify_runs (c_ed25519 (d_crypto d)) calls rv) v d \<and>
     set calls \<subseteq> (\<lambda>(e, m). (en_t1 e, en_t2 e, r_BodyRaw (auth_request m), relay_envelope m)) ` set xs"
proof (induction xs arbitrary: rv)
  case (Cons x xs)
  obtain e m where x: "x = (e, m)" by (cases x)
  let ?rv = "snd (VerifyBody (c_ed25519 (d_crypto d)) (en_t1 e) (en_t2 e) (r_BodyRaw (auth_request m)) (relay_envelope m) rv)"
  from Handle_state[of e m rv v d] show ?case
  proof
    assume "snd (Handle e m (with_verifier rv v d)) = with_verifier rv v d"
    with Cons.IH[of rv] x show ?thesis by fastforce
  next
    assume h: "snd (Handle e m (with_verifier rv v d)) = with_verifier ?rv v d"
    from Cons.IH[of ?rv] obtain calls where
      c: "handle_all xs (with_verifier ?rv v d) = with_verifier (verify_runs (c_ed25519 (d_crypto d)) calls ?rv) v d"
      "set calls \<subseteq> (\<lambda>(e, m). (en_t1 e, en_t2 e, r_BodyRaw (auth_request m), relay_envelope m)) ` set xs" by blast
    with h x show ?thesis
      by (intro exI[of _ "(en_t1 e, en_t2 e, r_BodyRaw (auth_request m), relay_envelope m) # calls"]) auto
  qed
qed (auto intro: exI[of _ "[]"])

text \<open>An unsigned request for an action that is not light.\<close>

definition needs_relay :: "validator \<Rightarrow> json_msg \<Rightarrow> bool" where
  "needs_relay v m \<longleftrightarrow> dec_string m ''signature'' = [] \<and> dec_string m ''partial_auth_a'' = [] \<and>
     dec_string m ''partial_auth_b'' = [] \<and> (case LightActionsSet v of None \<Rightarrow> True | Some s \<Rightarrow> action_name m \<notin> set s)"

lemma needs_relay_authenticate:
  assumes "needs_relay v m"
  shows "fst (authenticate (with_verifier rv v d) e m) = None \<longleftrightarrow>
    fst (VerifyBody (c_ed25519 (d_crypto d)) (en_t1 e) (en_t2 e) (r_BodyRaw (auth_request m)) (relay_envelope m) rv) = None"
proof -
  have "validate_modes (d_crypto d) v (auth_request m) \<noteq> None"
    using assms by (auto simp: needs_relay_def validate_modes_def validateLightAction_def auth_request_def split: option.splits)
  then show ?thesis
    using Validate_fst[of "d_crypto d" "en_t1 e" "en_t2 e" "auth_request m" "v\<lparr>val_RelayVerifier := Some rv\<rparr>"]
    by (auto simp: authenticate_def with_verifier_def relay_authorised_def split: prod.splits if_splits)
qed

lemma Handle_unauthenticated:
  assumes "route m = ActionFlow" "fst (authenticate d e m) \<noteq> None"
  shows "ef_calls (fst (Handle e m d)) = []"
  using assms by (auto simp: Handle_def no_effect_def split: prod.splits option.splits)

text \<open>C3: a relayed message works once. Take a message for a non-light action that carries no signature of
  its own, and suppose that handling it ran the action. Then handling the same message again runs
  nothing, whatever messages the dispatcher handled in between, at any later time; the one answer,
  if the message has a request id and still decodes, is a 401. Calls are made on a clock that does
  not go back, and the timestamp is not 292 years ahead.\<close>

theorem replayed_message_refused:
  assumes "needs_relay v m" "v_ok rv" "route m = ActionFlow"
    and "ef_calls (fst (Handle e m (with_verifier rv v d))) \<noteq> []"
    and "parse_rfc3339 (dec_string m ''relay_signed_at'') = Some s" "s < en_t1 e + 9223372036854775808"
    and "en_t1 e \<le> en_t2 e" "en_t2 e \<le> en_t1 e'" "list_all (\<lambda>(f, _). en_t2 f \<le> en_t1 e') between"
  shows "ef_calls (fst (Handle e' m (handle_all between (snd (Handle e m (with_verifier rv v d)))))) = [] \<and>
    (dec_string m ''request_id'' \<noteq> [] \<longrightarrow>
       map resp_StatusCode (ef_responses (fst (Handle e' m (handle_all between
         (snd (Handle e m (with_verifier rv v d))))))) = [401])"
proof -
  let ?ed = "c_ed25519 (d_crypto d)" and ?b = "r_BodyRaw (auth_request m)" and ?env = "relay_envelope m"
  let ?rv1 = "snd (VerifyBody ?ed (en_t1 e) (en_t2 e) ?b ?env rv)"
  have ok: "unmarshal_action_ok m" using assms(3,4) by (auto simp: Handle_def no_effect_def split: if_splits)
  have acc: "fst (VerifyBody ?ed (en_t1 e) (en_t2 e) ?b ?env rv) = None"
    using Handle_unauthenticated[OF assms(3)] assms(4) needs_relay_authenticate[OF assms(1)] by metis
  then have d1: "snd (Handle e m (with_verifier rv v d)) = with_verifier ?rv1 v d"
    using assms(3) ok VerifyBody_needs[OF acc]
    by (auto simp: Handle_def with_verifier_def authenticate_def Validate_def split: prod.splits option.splits)
  obtain calls where calls: "handle_all between (with_verifier ?rv1 v d) = with_verifier (verify_runs ?ed calls ?rv1) v d"
    "set calls \<subseteq> (\<lambda>(e, m). (en_t1 e, en_t2 e, r_BodyRaw (auth_request m), relay_envelope m)) ` set between"
    using handle_all_state by blast
  have "list_all (\<lambda>(_, t, _, _). t \<le> en_t1 e') calls"
    using calls(2) assms(9) by (fastforce simp: list_all_iff)
  with replayed_envelope_rejected[OF assms(2) acc _ assms(6-8), of calls ?env "en_t2 e'" ?b] assms(5)
  have "fst (VerifyBody ?ed (en_t1 e') (en_t2 e') ?b ?env (verify_runs ?ed calls ?rv1)) \<noteq> None"
    by (simp add: auth_request_def)
  then have no: "fst (authenticate (with_verifier (verify_runs ?ed calls ?rv1) v d) e' m) \<noteq> None"
    using needs_relay_authenticate[OF assms(1)] by simp
  then show ?thesis
    unfolding d1 calls(1) using Handle_unauthenticated[OF assms(3) no] assms(3)
    by (auto simp: Handle_action[OF assms(3) ok] no_effect_def)
qed

text \<open>A relayed message with its envelope, and a dispatcher that verifies it.\<close>

definition relayed_msg :: json_msg where
  "relayed_msg = MObj [member ''body'' (VObj [(''action_name'', VStr ''drop'')]) ''{}'',
     member ''request_id'' (VStr ''r1'') ''x'', member ''relay_signature'' (VStr ''TWFu'') ''x'',
     member ''relay_signed_at'' (VStr ''1970-01-01T00:00:00Z'') ''x'', member ''relay_nonce'' (VStr ''n1'') ''x'']"

definition at_time :: "time \<Rightarrow> environment" where
  "at_time t = \<lparr>en_t1 = t, en_t2 = t, en_acquire = Acquired\<rparr>"

abbreviation (input) epoch :: time where "epoch \<equiv> 62135596800000000000"

lemma relayed_msg_facts:
  "route relayed_msg = ActionFlow" "unmarshal_action_ok relayed_msg" "needs_relay sample_validator relayed_msg"
  "dec_string relayed_msg ''relay_signed_at'' = ''1970-01-01T00:00:00Z''" "dec_string relayed_msg ''request_id'' = ''r1''"
  "action_name relayed_msg = ''drop''" "relay_envelope relayed_msg = sample_envelope" "r_BodyRaw (auth_request relayed_msg) = ''{}''"
  by code_simp+

lemma relayed_msg_runs:
  "ef_calls (fst (Handle (at_time epoch) relayed_msg (with_verifier sample_verifier sample_validator sample_dispatcher))) \<noteq> []"
proof -
  have "c_ed25519 (d_crypto sample_dispatcher) = sample_ed"
    by (simp add: sample_dispatcher_def NewDispatcher_def Let_def sample_crypto_def)
  then have "fst (authenticate (with_verifier sample_verifier sample_validator sample_dispatcher) (at_time epoch) relayed_msg) = None"
    using needs_relay_authenticate[OF relayed_msg_facts(3)] sample_accept[of epoch]
    by (simp add: relayed_msg_facts at_time_def)
  moreover have "map_of (d_handlers sample_dispatcher) ''drop'' \<noteq> None"
    by (simp add: sample_dispatcher_def NewDispatcher_def Let_def)
  moreover from this have "RunAction ''drop'' (action_params relayed_msg) (dc_TaskTimeout (d_cfg sample_dispatcher)) \<in>
      set (ef_calls (run_action (with_verifier sample_verifier sample_validator sample_dispatcher) (at_time epoch) relayed_msg))"
    by (simp add: run_action_calls relayed_msg_facts(6) at_time_def with_verifier_def)
  ultimately show ?thesis by (auto simp: Handle_action[OF relayed_msg_facts(1,2)])
qed

theorem replayed_message_refused_witness:
  "map resp_StatusCode (ef_responses (fst (Handle (at_time (epoch + second)) relayed_msg
     (snd (Handle (at_time epoch) relayed_msg (with_verifier sample_verifier sample_validator sample_dispatcher)))))) = [401]"
proof -
  have "parse_rfc3339 (dec_string relayed_msg ''relay_signed_at'') = Some epoch"
    using parse_rfc3339_epoch by (simp add: relayed_msg_facts unix_to_internal_def)
  from replayed_message_refused[OF relayed_msg_facts(3) _ relayed_msg_facts(1) relayed_msg_runs this, of "at_time (epoch + second)" "[]"]
  show ?thesis by (simp add: v_ok_def sample_verifier_def relayed_msg_facts at_time_def)
qed

section \<open>From the playbook refresh to the handler\<close>

text \<open>C4: a refresh takes effect on the next message. After a refresh that reported success, an
  unsigned action message without relay signature runs its action exactly when the action is one
  of the static ones or of those the backend just served, is registered, and gets a slot; every
  other one runs nothing.\<close>

theorem refreshed_actions_only:
  assumes "Refresh parseConfig http r = (Inr res, r')" "mget res ''refreshed'' = VBool True"
    and "http (refresh_request r) = Answered status body" "parseConfig body = Some acts"
    and "d_auth d = rf_Validator r'" "route m = ActionFlow" "unmarshal_action_ok m"
    and "dec_string m ''signature'' = []" "dec_string m ''partial_auth_a'' = []" "dec_string m ''partial_auth_b'' = []"
    and "dec_string m ''relay_signature'' = []"
  shows "ef_calls (fst (Handle e m d)) =
    (if action_name m \<in> set (rf_StaticActions r) \<union> set acts \<and> map_of (d_handlers d) (action_name m) \<noteq> None \<and>
        en_acquire e = Acquired
     then [RunAction (action_name m) (action_params m) (dc_TaskTimeout (d_cfg d))] else [])"
proof -
  obtain v where v: "rf_Validator r' = Some (SetLightActions (Some (remdups (rf_StaticActions r @ acts))) v)"
    using assms(1-4) by (auto simp: Refresh_def Let_def split: option.splits if_splits)
  have "fst (authenticate d e m) = None \<longleftrightarrow> action_name m \<in> set (rf_StaticActions r) \<union> set acts"
    using assms(5,8-11) v
    by (auto simp: authenticate_def Validate_def Present_def auth_request_def validate_modes_def validateLightAction_def
        LightActionsSet_def SetLightActions_def split: option.splits prod.splits)
  then show ?thesis
    by (auto simp: Handle_action[OF assms(6,7)] run_action_def no_effect_def Let_def
        split: option.splits acquire.splits prod.splits)
qed

definition sample_refresher :: refresher where
  "sample_refresher = (New ''https://b/'' [] [] [] (d_auth sample_dispatcher))\<lparr>rf_StaticActions := [''ping'']\<rparr>"

abbreviation sample_refresh :: "(refresh_err + gmap) \<times> refresher" where
  "sample_refresh \<equiv> Refresh (\<lambda>_. Some [''drop'']) (\<lambda>_. Answered 200 []) sample_refresher"

theorem refreshed_actions_only_witness:
  "ef_calls (fst (Handle sample_env (action_msg ''r1'' ''drop'') sample_dispatcher)) = [] \<and>
   ef_calls (fst (Handle sample_env (action_msg ''r1'' ''drop'')
     (sample_dispatcher\<lparr>d_auth := rf_Validator (snd sample_refresh)\<rparr>))) = [RunAction ''drop'' None (180 * second)]"
proof -
  let ?m = "action_msg ''r1'' ''drop''" and ?d = "sample_dispatcher\<lparr>d_auth := rf_Validator (snd sample_refresh)\<rparr>"
  have m: "route ?m = ActionFlow" "unmarshal_action_ok ?m" "dec_string ?m ''signature'' = []"
    "dec_string ?m ''partial_auth_a'' = []" "dec_string ?m ''partial_auth_b'' = []" "dec_string ?m ''relay_signature'' = []"
    "action_name ?m = ''drop''" "action_params ?m = None"
    "ef_calls (fst (Handle sample_env ?m sample_dispatcher)) = []"
    by code_simp+
  obtain res where "sample_refresh = (Inr res, snd sample_refresh)" "mget res ''refreshed'' = VBool True"
    by (simp add: Refresh_def sample_refresher_def New_def sample_dispatcher_def NewDispatcher_def trim_right_slash_def Let_def)
  from refreshed_actions_only[OF this _ _ _ m(1-6), of 200 "[]" "[''drop'']" ?d sample_env] m(7-)
  show ?thesis by (simp add: sample_dispatcher_def NewDispatcher_def Let_def sample_env_def)
qed

end
